(* ===== verification/Prelude.thy ===== *)
theory Prelude
  imports Main "HOL-Library.List_Lexorder" "HOL-Library.Product_Lexorder"
begin

text \<open>
  The shared ground of the development: JavaScript strings, the part of the string library the
  source calls, errors as sums, and the list lemmas that several components use.

  A JavaScript string is a list of UTF-16 code units, here natural numbers (\<open>charCodeAt\<close>
  reads one of them), so \<open>length\<close> counts what the source's \<open>length\<close> counts. A literal
  of the source is written \<open>js ''...''\<close>.
\<close>

named_theorems js_eval \<open>evaluation of string literals and of the string library on them\<close>
named_theorems inv_intro \<open>preservation lemmas: one operation keeps an invariant\<close>
named_theorems frame \<open>what an operation leaves unchanged\<close>

subsection \<open>Strings\<close>

type_synonym jstr = "nat list"

definition js :: "string \<Rightarrow> jstr" where
  "js s = map of_char s"

lemma js_simps [js_eval]: "js [] = []" "js (c # s) = of_char c # js s"
  by (simp_all add: js_def)

text \<open>JavaScript white space and line terminators (the class \<open>\s\<close>, also what \<open>trim\<close> removes).\<close>

definition isWs :: "nat \<Rightarrow> bool" where
  "isWs c \<longleftrightarrow> c = 9 \<or> c = 10 \<or> c = 11 \<or> c = 12 \<or> c = 13 \<or> c = 32 \<or> c = 160 \<or> c = 5760
     \<or> (8192 \<le> c \<and> c \<le> 8202) \<or> c = 8232 \<or> c = 8233 \<or> c = 8239 \<or> c = 8287 \<or> c = 12288 \<or> c = 65279"

definition isDigit :: "nat \<Rightarrow> bool" where "isDigit c \<longleftrightarrow> 48 \<le> c \<and> c \<le> 57"
definition isUpper :: "nat \<Rightarrow> bool" where "isUpper c \<longleftrightarrow> 65 \<le> c \<and> c \<le> 90"
definition isLower :: "nat \<Rightarrow> bool" where "isLower c \<longleftrightarrow> 97 \<le> c \<and> c \<le> 122"

abbreviation isLetter :: "nat \<Rightarrow> bool" where "isLetter c \<equiv> isUpper c \<or> isLower c"
abbreviation isAlnum :: "nat \<Rightarrow> bool" where "isAlnum c \<equiv> isLetter c \<or> isDigit c"

lemmas char_class_defs = isWs_def isDigit_def isUpper_def isLower_def

definition trimStart :: "jstr \<Rightarrow> jstr" where "trimStart s = dropWhile isWs s"
definition trimEnd :: "jstr \<Rightarrow> jstr" where "trimEnd s = rev (dropWhile isWs (rev s))"
definition trim :: "jstr \<Rightarrow> jstr" where "trim s = trimEnd (trimStart s)"

definition startsWith :: "jstr \<Rightarrow> jstr \<Rightarrow> bool" where
  "startsWith s p \<longleftrightarrow> take (length p) s = p"

definition endsWith :: "jstr \<Rightarrow> jstr \<Rightarrow> bool" where
  "endsWith s p \<longleftrightarrow> startsWith (rev s) (rev p)"

fun includesStr :: "jstr \<Rightarrow> jstr \<Rightarrow> bool" where
  "includesStr [] p = (p = [])"
| "includesStr (x # xs) p = (startsWith (x # xs) p \<or> includesStr xs p)"

text \<open>\<open>s.split(c)\<close> and \<open>parts.join(c)\<close> for a one-character separator.\<close>

fun split_on :: "nat \<Rightarrow> jstr \<Rightarrow> jstr list" where
  "split_on c [] = [[]]"
| "split_on c (x # xs) =
     (if x = c then [] # split_on c xs
      else (case split_on c xs of [] \<Rightarrow> [[x]] | y # ys \<Rightarrow> (x # y) # ys))"

fun join :: "jstr \<Rightarrow> jstr list \<Rightarrow> jstr" where
  "join sep [] = []"
| "join sep [x] = x"
| "join sep (x # y # ys) = x @ sep @ join sep (y # ys)"

lemma length_dropWhile_less [simp, termination_simp]: "length (dropWhile P xs) < Suc (length xs)"
  by (simp add: le_imp_less_Suc length_dropWhile_le)

text \<open>\<open>s.replace(/\s+/g, " ")\<close>: every run of white space becomes one space.\<close>

fun collapseWs :: "jstr \<Rightarrow> jstr" where
  "collapseWs [] = []"
| "collapseWs (x # xs) =
     (if isWs x then 32 # collapseWs (dropWhile isWs xs) else x # collapseWs xs)"

lemma startsWith_simps [simp]:
  "startsWith s []"
  "startsWith (x # xs) (y # ys) \<longleftrightarrow> x = y \<and> startsWith xs ys"
  "\<not> startsWith [] (y # ys)"
  by (auto simp: startsWith_def)

lemma startsWith_append: "startsWith s p \<longleftrightarrow> (\<exists>t. s = p @ t)"
  by (metis append_eq_conv_conj append_take_drop_id startsWith_def)

lemma includesStr_iff: "includesStr s p \<longleftrightarrow> (\<exists>a b. s = a @ p @ b)"
proof (induction s)
  case Nil
  then show ?case by auto
next
  case (Cons x xs)
  have "(\<exists>a b. x # xs = a @ p @ b) \<longleftrightarrow> startsWith (x # xs) p \<or> (\<exists>a b. xs = a @ p @ b)"
    by (auto simp: startsWith_append Cons_eq_append_conv)
  with Cons.IH show ?case by simp
qed

lemma split_on_nonempty [simp]: "split_on c s \<noteq> []"
  by (induction s) (auto split: list.splits)

lemma join_split_on [simp]: "join [c] (split_on c s) = s"
proof (induction s)
  case (Cons x xs)
  obtain y ys where "split_on c xs = y # ys"
    using split_on_nonempty by (metis list.exhaust)
  with Cons show ?case by (cases ys) auto
qed simp

lemma split_on_no_sep: "p \<in> set (split_on c s) \<Longrightarrow> c \<notin> set p"
proof (induction s arbitrary: p)
  case (Cons x xs)
  obtain y ys where "split_on c xs = y # ys"
    using split_on_nonempty by (metis list.exhaust)
  with Cons show ?case by (auto split: if_splits)
qed simp

lemma split_on_single: "c \<notin> set s \<Longrightarrow> split_on c s = [s]"
  by (induction s) auto

lemma split_on_append_sep: "c \<notin> set a \<Longrightarrow> split_on c (a @ c # b) = a # split_on c b"
  by (induction a) auto

lemma split_on_join:
  "ps \<noteq> [] \<Longrightarrow> \<forall>p \<in> set ps. c \<notin> set p \<Longrightarrow> split_on c (join [c] ps) = ps"
  by (induction "[c]" ps rule: join.induct)
     (auto simp: split_on_single split_on_append_sep)

lemma split_on_set: "p \<in> set (split_on c s) \<Longrightarrow> set p \<subseteq> set s"
proof (induction s arbitrary: p)
  case (Cons x xs)
  obtain y ys where "split_on c xs = y # ys"
    using split_on_nonempty by (metis list.exhaust)
  with Cons show ?case by (fastforce split: if_splits)
qed simp

lemma set_join: "set (join sep ps) \<subseteq> set sep \<union> \<Union> (set ` set ps)"
  by (induction sep ps rule: join.induct) auto

lemma set_trim: "set (trim s) \<subseteq> set s"
  unfolding trim_def trimEnd_def trimStart_def
  by (metis (no_types, lifting) order_trans set_dropWhileD set_rev subsetI)

lemma length_trim_le: "length (trim s) \<le> length s"
  unfolding trim_def trimEnd_def trimStart_def
  by (metis (no_types, lifting) length_dropWhile_le length_rev order_trans)

lemma set_collapseWs: "c \<in> set (collapseWs s) \<Longrightarrow> c \<in> set s \<or> c = 32"
  by (induction s rule: collapseWs.induct) (auto split: if_splits dest: set_dropWhileD)

lemma length_collapseWs_le: "length (collapseWs s) \<le> length s"
proof (induction s rule: collapseWs.induct)
  case (2 x xs)
  then show ?case
    using length_dropWhile_le [of isWs xs] by (auto intro: order_trans)
qed simp

lemma collapseWs_ws: "c \<in> set (collapseWs s) \<Longrightarrow> isWs c \<Longrightarrow> c = 32"
  by (induction s rule: collapseWs.induct) (auto split: if_splits)

subsection \<open>Errors as values\<close>

text \<open>\<open>Inl\<close> is a thrown error, \<open>Inr\<close> a returned value; \<open>bindE\<close> is a call whose exception propagates.\<close>

fun bindE :: "'e + 'a \<Rightarrow> ('a \<Rightarrow> 'e + 'b) \<Rightarrow> 'e + 'b" where
  "bindE (Inl e) f = Inl e"
| "bindE (Inr x) f = f x"

lemma bindE_Inr: "bindE m f = Inr y \<longleftrightarrow> (\<exists>x. m = Inr x \<and> f x = Inr y)"
  by (cases m) auto

lemma bindE_Inl: "bindE m f = Inl e \<longleftrightarrow> m = Inl e \<or> (\<exists>x. m = Inr x \<and> f x = Inl e)"
  by (cases m) auto

definition guardE :: "bool \<Rightarrow> 'e \<Rightarrow> 'e + unit" where
  "guardE b e = (if b then Inr () else Inl e)"

lemma guardE_Inr [simp]: "guardE b e = Inr u \<longleftrightarrow> b"
  by (auto simp: guardE_def)

text \<open>The loop \<open>for (const x of xs) { ... }\<close> whose body may throw.\<close>

fun foldE :: "('s \<Rightarrow> 'a \<Rightarrow> 'e + 's) \<Rightarrow> 's \<Rightarrow> 'a list \<Rightarrow> 'e + 's" where
  "foldE f s [] = Inr s"
| "foldE f s (x # xs) = bindE (f s x) (\<lambda>s'. foldE f s' xs)"

text \<open>\<open>xs.filter(p)\<close> with a predicate that may throw.\<close>

fun filterE :: "('a \<Rightarrow> 'e + bool) \<Rightarrow> 'a list \<Rightarrow> 'e + 'a list" where
  "filterE p [] = Inr []"
| "filterE p (x # xs) =
     bindE (p x) (\<lambda>b. bindE (filterE p xs) (\<lambda>ys. Inr (if b then x # ys else ys)))"

lemma filterE_Inr:
  "filterE p xs = Inr ys \<Longrightarrow> ys = filter (\<lambda>x. p x = Inr True) xs \<and> (\<forall>x \<in> set xs. \<exists>b. p x = Inr b)"
  by (induction xs arbitrary: ys) (auto simp: bindE_Inr split: if_splits)

lemma guardE_Inl [simp]: "guardE b e = Inl x \<longleftrightarrow> \<not> b \<and> x = e"
  by (auto simp: guardE_def)

subsection \<open>Lists\<close>

text \<open>The last \<open>n\<close> elements, JavaScript's \<open>xs.slice(-n)\<close> for \<open>n > 0\<close>.\<close>

definition lastn :: "nat \<Rightarrow> 'a list \<Rightarrow> 'a list" where
  "lastn n xs = drop (length xs - n) xs"

lemma length_lastn [simp]: "length (lastn n xs) = min n (length xs)"
  by (simp add: lastn_def)

lemma lastn_all [simp]: "length xs \<le> n \<Longrightarrow> lastn n xs = xs"
  by (simp add: lastn_def)

lemma lastn_snoc: "lastn n (xs @ [x]) = (if n = 0 then [] else lastn (n - 1) xs @ [x])"
  by (cases n) (auto simp: lastn_def Suc_diff_le not_le less_Suc_eq_le)

lemma set_lastn: "set (lastn n xs) \<subseteq> set xs"
  by (simp add: lastn_def set_drop_subset)

lemma lastn_lastn: "m \<le> n \<Longrightarrow> lastn m (lastn n xs) = lastn m xs"
  by (cases "length xs \<le> n") (auto simp: lastn_def)

lemma length_filter_map_cong:
  "(\<And>x. x \<in> set xs \<Longrightarrow> P (f x) = P x) \<Longrightarrow> length (filter P (map f xs)) = length (filter P xs)"
  by (induction xs) auto

lemma takeWhile_take_comm: "takeWhile P (take n xs) = take n (takeWhile P xs)"
  by (induction xs arbitrary: n) (auto simp: take_Cons')

lemma filter_not_take: "distinct xs \<Longrightarrow> filter (\<lambda>x. x \<notin> set (take n xs)) xs = drop n xs"
proof -
  assume "distinct xs"
  then have "distinct (take n xs @ drop n xs)" by simp
  then have "filter (\<lambda>x. x \<notin> set (take n xs)) (take n xs @ drop n xs) = drop n xs"
    unfolding filter_append distinct_append
    by (metis (no_types, lifting) append_self_conv2 disjoint_iff filter_False filter_True)
  then show ?thesis by simp
qed

lemma find_SomeD: "List.find P xs = Some x \<Longrightarrow> x \<in> set xs \<and> P x"
  by (auto simp: find_Some_iff in_set_conv_nth)

end
