(* ===== verification/Errors.thy ===== *)
theory Errors
  imports Prelude
begin

text \<open>
  The API's domain errors (\<open>apps/api/src/errors.ts\<close>): the codes, the constructors the services
  throw and the mapping to an HTTP status. A thrown value that is not a \<open>DomainError\<close> (a plain
  \<open>Error\<close>) is the other constructor of \<open>thrown\<close>.
\<close>

datatype DomainErrorCode =
    AUTH_REQUIRED | FORBIDDEN | NOT_FOUND | VALIDATION_ERROR | CONFLICT
  | ALREADY_WORKSPACE_MEMBER | ACTIVE_INVITATION_EXISTS | INVITATION_INVALID
  | INVITATION_ALREADY_USED | RELEASE_VERSION_CONFLICT | ARTIFACT_PATH_INVALID
  | ARTIFACT_PATH_CONFLICT | INVALID_ARTIFACT_TYPE | INVALID_SOURCE_MAP | ARTIFACT_TOO_LARGE
  | ARTIFACT_STORAGE_UNAVAILABLE | REPRODUCTION_BASE_URL_REQUIRED
  | REPRODUCTION_UNSUPPORTED_FAILURE | AI_NOT_CONFIGURED | INTERNAL_ERROR

datatype DomainError = DomainError (error_code: DomainErrorCode) (error_message: jstr)

datatype thrown = Domain DomainError | PlainError jstr

definition authRequired :: DomainError where
  "authRequired = DomainError AUTH_REQUIRED (js ''Authentication required'')"

definition forbidden :: "jstr \<Rightarrow> DomainError" where
  "forbidden msg = DomainError FORBIDDEN msg"

definition notFound :: "jstr \<Rightarrow> DomainError" where
  "notFound resource = DomainError NOT_FOUND (resource @ js '' not found'')"

definition validationError :: "jstr \<Rightarrow> DomainError" where
  "validationError msg = DomainError VALIDATION_ERROR msg"

definition conflict :: "jstr \<Rightarrow> DomainError" where
  "conflict msg = DomainError CONFLICT msg"

definition internalError :: "jstr \<Rightarrow> DomainError" where
  "internalError msg = DomainError INTERNAL_ERROR msg"

fun statusForCode :: "DomainErrorCode \<Rightarrow> nat" where
  "statusForCode AUTH_REQUIRED = 401"
| "statusForCode FORBIDDEN = 403"
| "statusForCode NOT_FOUND = 404"
| "statusForCode VALIDATION_ERROR = 400"
| "statusForCode CONFLICT = 409"
| "statusForCode ALREADY_WORKSPACE_MEMBER = 409"
| "statusForCode ACTIVE_INVITATION_EXISTS = 409"
| "statusForCode INVITATION_ALREADY_USED = 409"
| "statusForCode INVITATION_INVALID = 404"
| "statusForCode RELEASE_VERSION_CONFLICT = 409"
| "statusForCode ARTIFACT_PATH_CONFLICT = 409"
| "statusForCode ARTIFACT_PATH_INVALID = 400"
| "statusForCode INVALID_ARTIFACT_TYPE = 400"
| "statusForCode INVALID_SOURCE_MAP = 400"
| "statusForCode ARTIFACT_TOO_LARGE = 413"
| "statusForCode ARTIFACT_STORAGE_UNAVAILABLE = 503"
| "statusForCode REPRODUCTION_BASE_URL_REQUIRED = 422"
| "statusForCode REPRODUCTION_UNSUPPORTED_FAILURE = 422"
| "statusForCode AI_NOT_CONFIGURED = 503"
| "statusForCode INTERNAL_ERROR = 500"

text \<open>The status of whatever escaped a route: a plain error is a 500 for the client.\<close>

lemma error_code_simps [simp]:
  "error_code (forbidden m) = FORBIDDEN"
  "error_code (notFound m) = NOT_FOUND"
  "error_code (validationError m) = VALIDATION_ERROR"
  "error_code (conflict m) = CONFLICT"
  "error_code (internalError m) = INTERNAL_ERROR"
  "error_code authRequired = AUTH_REQUIRED"
  by (simp_all add: forbidden_def notFound_def validationError_def conflict_def
      internalError_def authRequired_def)

end
