(* ===== verification/Policy.thy ===== *)
theory Policy
  imports Errors
begin

text \<open>
  The capability policy of the API (\<open>apps/api/src/authz/policy.ts\<close>), the guards that apply
  it (\<open>apps/api/src/authz/guards.ts\<close>) and the web client's copy of the thresholds
  (\<open>apps/web/lib/rbac.ts\<close>).
\<close>

datatype WorkspaceRole = Owner | Admin | Member | Viewer

datatype Capability =
    workspace_read | workspace_update | project_create | project_read | project_update
  | project_delete | environment_read | environment_write | origin_read | origin_write
  | key_read | key_rotate | project_manage_secret_tokens | issue_read | issue_update_status
  | issue_assign | issue_manage_tags | issue_comment | session_read | notification_read_own
  | reproduction_read | reproduction_generate | ai_analysis_read | ai_analysis_request
  | workspace_manage_invitations | workspace_manage_members | workspace_read_audit
  | workspace_transfer_ownership | workspace_delete | project_update_retention

fun ROLE_RANK :: "WorkspaceRole \<Rightarrow> int" where
  "ROLE_RANK Viewer = 0"
| "ROLE_RANK Member = 1"
| "ROLE_RANK Admin = 2"
| "ROLE_RANK Owner = 3"

definition workspaceRoleRank :: "WorkspaceRole \<Rightarrow> int" where
  "workspaceRoleRank role = ROLE_RANK role"

definition compareWorkspaceRoles :: "WorkspaceRole \<Rightarrow> WorkspaceRole \<Rightarrow> int" where
  "compareWorkspaceRoles left right = workspaceRoleRank left - workspaceRoleRank right"

definition isWorkspaceRoleAtLeast :: "WorkspaceRole \<Rightarrow> WorkspaceRole \<Rightarrow> bool" where
  "isWorkspaceRoleAtLeast role minimum \<longleftrightarrow> compareWorkspaceRoles role minimum \<ge> 0"

text \<open>
  \<open>WorkspaceMemberRole\<close> is \<open>WorkspaceRole\<close> without the owner; it embeds
  into \<open>WorkspaceRole\<close> by \<open>ofMemberRole\<close>.
\<close>

datatype WorkspaceMemberRole = MAdmin | MMember | MViewer

fun ofMemberRole :: "WorkspaceMemberRole \<Rightarrow> WorkspaceRole" where
  "ofMemberRole MAdmin = Admin"
| "ofMemberRole MMember = Member"
| "ofMemberRole MViewer = Viewer"

definition canChangeMemberRole ::
  "WorkspaceRole \<Rightarrow> WorkspaceRole \<Rightarrow> WorkspaceMemberRole \<Rightarrow> bool" where
  "canChangeMemberRole actorRole targetRole nextRole =
     (if targetRole = Owner then False
      else if actorRole = Owner then True
      else actorRole = Admin \<and> (targetRole = Member \<or> targetRole = Viewer)
           \<and> (nextRole = MMember \<or> nextRole = MViewer))"

definition canRemoveMember :: "WorkspaceRole \<Rightarrow> WorkspaceRole \<Rightarrow> bool" where
  "canRemoveMember actorRole targetRole =
     (if targetRole = Owner then False
      else if actorRole = Owner then True
      else actorRole = Admin \<and> (targetRole = Member \<or> targetRole = Viewer))"

definition canLeaveWorkspace :: "WorkspaceRole \<Rightarrow> bool" where
  "canLeaveWorkspace role = isWorkspaceRoleAtLeast role Viewer"

fun CAPABILITY_MIN_ROLE :: "Capability \<Rightarrow> WorkspaceRole" where
  "CAPABILITY_MIN_ROLE workspace_read = Viewer"
| "CAPABILITY_MIN_ROLE workspace_update = Owner"
| "CAPABILITY_MIN_ROLE project_create = Admin"
| "CAPABILITY_MIN_ROLE project_read = Viewer"
| "CAPABILITY_MIN_ROLE project_update = Admin"
| "CAPABILITY_MIN_ROLE project_delete = Admin"
| "CAPABILITY_MIN_ROLE environment_read = Viewer"
| "CAPABILITY_MIN_ROLE environment_write = Admin"
| "CAPABILITY_MIN_ROLE origin_read = Viewer"
| "CAPABILITY_MIN_ROLE origin_write = Admin"
| "CAPABILITY_MIN_ROLE key_read = Viewer"
| "CAPABILITY_MIN_ROLE key_rotate = Admin"
| "CAPABILITY_MIN_ROLE project_manage_secret_tokens = Admin"
| "CAPABILITY_MIN_ROLE issue_read = Viewer"
| "CAPABILITY_MIN_ROLE issue_update_status = Member"
| "CAPABILITY_MIN_ROLE issue_assign = Member"
| "CAPABILITY_MIN_ROLE issue_manage_tags = Member"
| "CAPABILITY_MIN_ROLE issue_comment = Member"
| "CAPABILITY_MIN_ROLE session_read = Viewer"
| "CAPABILITY_MIN_ROLE notification_read_own = Viewer"
| "CAPABILITY_MIN_ROLE reproduction_read = Viewer"
| "CAPABILITY_MIN_ROLE reproduction_generate = Member"
| "CAPABILITY_MIN_ROLE ai_analysis_read = Viewer"
| "CAPABILITY_MIN_ROLE ai_analysis_request = Member"
| "CAPABILITY_MIN_ROLE workspace_manage_invitations = Admin"
| "CAPABILITY_MIN_ROLE workspace_manage_members = Admin"
| "CAPABILITY_MIN_ROLE workspace_read_audit = Admin"
| "CAPABILITY_MIN_ROLE workspace_transfer_ownership = Owner"
| "CAPABILITY_MIN_ROLE workspace_delete = Owner"
| "CAPABILITY_MIN_ROLE project_update_retention = Admin"

definition hasCapability :: "WorkspaceRole \<Rightarrow> Capability \<Rightarrow> bool" where
  "hasCapability role capability \<longleftrightarrow> ROLE_RANK role \<ge> ROLE_RANK (CAPABILITY_MIN_ROLE capability)"

text \<open>The typed helpers: one capability each.\<close>

definition canRead :: "WorkspaceRole \<Rightarrow> bool" where
  "canRead role = hasCapability role workspace_read"

definition canManageProjects :: "WorkspaceRole \<Rightarrow> bool" where
  "canManageProjects role = hasCapability role project_create"

definition canManageEnvironments :: "WorkspaceRole \<Rightarrow> bool" where
  "canManageEnvironments role = hasCapability role environment_write"

definition canManageOrigins :: "WorkspaceRole \<Rightarrow> bool" where
  "canManageOrigins role = hasCapability role origin_write"

definition canRotateKeys :: "WorkspaceRole \<Rightarrow> bool" where
  "canRotateKeys role = hasCapability role key_rotate"

definition canManageSecretTokens :: "WorkspaceRole \<Rightarrow> bool" where
  "canManageSecretTokens role = hasCapability role project_manage_secret_tokens"

definition canReadIssues :: "WorkspaceRole \<Rightarrow> bool" where
  "canReadIssues role = hasCapability role issue_read"

definition canUpdateIssueStatus :: "WorkspaceRole \<Rightarrow> bool" where
  "canUpdateIssueStatus role = hasCapability role issue_update_status"

definition canAssignIssues :: "WorkspaceRole \<Rightarrow> bool" where
  "canAssignIssues role = hasCapability role issue_assign"

definition canManageIssueTags :: "WorkspaceRole \<Rightarrow> bool" where
  "canManageIssueTags role = hasCapability role issue_manage_tags"

definition canCommentOnIssues :: "WorkspaceRole \<Rightarrow> bool" where
  "canCommentOnIssues role = hasCapability role issue_comment"

definition canReadSessions :: "WorkspaceRole \<Rightarrow> bool" where
  "canReadSessions role = hasCapability role session_read"

definition canReadOwnNotifications :: "WorkspaceRole \<Rightarrow> bool" where
  "canReadOwnNotifications role = hasCapability role notification_read_own"

definition canReadReproductions :: "WorkspaceRole \<Rightarrow> bool" where
  "canReadReproductions role = hasCapability role reproduction_read"

definition canGenerateReproductions :: "WorkspaceRole \<Rightarrow> bool" where
  "canGenerateReproductions role = hasCapability role reproduction_generate"

definition canReadAiAnalysis :: "WorkspaceRole \<Rightarrow> bool" where
  "canReadAiAnalysis role = hasCapability role ai_analysis_read"

definition canRequestAiAnalysis :: "WorkspaceRole \<Rightarrow> bool" where
  "canRequestAiAnalysis role = hasCapability role ai_analysis_request"

definition canManageInvitations :: "WorkspaceRole \<Rightarrow> bool" where
  "canManageInvitations role = hasCapability role workspace_manage_invitations"

definition canInviteMembers :: "WorkspaceRole \<Rightarrow> bool" where
  "canInviteMembers role = canManageInvitations role"

definition canManageMembers :: "WorkspaceRole \<Rightarrow> bool" where
  "canManageMembers role = hasCapability role workspace_manage_members"

definition canReadAudit :: "WorkspaceRole \<Rightarrow> bool" where
  "canReadAudit role = hasCapability role workspace_read_audit"

definition canTransferOwnership :: "WorkspaceRole \<Rightarrow> bool" where
  "canTransferOwnership role = hasCapability role workspace_transfer_ownership"

definition canDeleteWorkspace :: "WorkspaceRole \<Rightarrow> bool" where
  "canDeleteWorkspace role = hasCapability role workspace_delete"

definition canUpdateRetention :: "WorkspaceRole \<Rightarrow> bool" where
  "canUpdateRetention role = hasCapability role project_update_retention"

text \<open>The matrix for docs and tests, one row per role.\<close>

fun RBAC_MATRIX :: "WorkspaceRole \<Rightarrow> Capability \<Rightarrow> bool" where
  "RBAC_MATRIX Owner c = (case c of
        workspace_read \<Rightarrow> True
      | workspace_update \<Rightarrow> True
      | project_create \<Rightarrow> True
      | project_read \<Rightarrow> True
      | project_update \<Rightarrow> True
      | project_delete \<Rightarrow> True
      | environment_read \<Rightarrow> True
      | environment_write \<Rightarrow> True
      | origin_read \<Rightarrow> True
      | origin_write \<Rightarrow> True
      | key_read \<Rightarrow> True
      | key_rotate \<Rightarrow> True
      | project_manage_secret_tokens \<Rightarrow> True
      | issue_read \<Rightarrow> True
      | issue_update_status \<Rightarrow> True
      | issue_assign \<Rightarrow> True
      | issue_manage_tags \<Rightarrow> True
      | issue_comment \<Rightarrow> True
      | session_read \<Rightarrow> True
      | notification_read_own \<Rightarrow> True
      | reproduction_read \<Rightarrow> True
      | reproduction_generate \<Rightarrow> True
      | ai_analysis_read \<Rightarrow> True
      | ai_analysis_request \<Rightarrow> True
      | workspace_manage_invitations \<Rightarrow> True
      | workspace_manage_members \<Rightarrow> True
      | workspace_read_audit \<Rightarrow> True
      | workspace_transfer_ownership \<Rightarrow> True
      | workspace_delete \<Rightarrow> True
      | project_update_retention \<Rightarrow> True)"
| "RBAC_MATRIX Admin c = (case c of
        workspace_read \<Rightarrow> True
      | workspace_update \<Rightarrow> False
      | project_create \<Rightarrow> True
      | project_read \<Rightarrow> True
      | project_update \<Rightarrow> True
      | project_delete \<Rightarrow> True
      | environment_read \<Rightarrow> True
      | environment_write \<Rightarrow> True
      | origin_read \<Rightarrow> True
      | origin_write \<Rightarrow> True
      | key_read \<Rightarrow> True
      | key_rotate \<Rightarrow> True
      | project_manage_secret_tokens \<Rightarrow> True
      | issue_read \<Rightarrow> True
      | issue_update_status \<Rightarrow> True
      | issue_assign \<Rightarrow> True
      | issue_manage_tags \<Rightarrow> True
      | issue_comment \<Rightarrow> True
      | session_read \<Rightarrow> True
      | notification_read_own \<Rightarrow> True
      | reproduction_read \<Rightarrow> True
      | reproduction_generate \<Rightarrow> True
      | ai_analysis_read \<Rightarrow> True
      | ai_analysis_request \<Rightarrow> True
      | workspace_manage_invitations \<Rightarrow> True
      | workspace_manage_members \<Rightarrow> True
      | workspace_read_audit \<Rightarrow> True
      | workspace_transfer_ownership \<Rightarrow> False
      | workspace_delete \<Rightarrow> False
      | project_update_retention \<Rightarrow> True)"
| "RBAC_MATRIX Member c = (case c of
        workspace_read \<Rightarrow> True
      | workspace_update \<Rightarrow> False
      | project_create \<Rightarrow> False
      | project_read \<Rightarrow> True
      | project_update \<Rightarrow> False
      | project_delete \<Rightarrow> False
      | environment_read \<Rightarrow> True
      | environment_write \<Rightarrow> False
      | origin_read \<Rightarrow> True
      | origin_write \<Rightarrow> False
      | key_read \<Rightarrow> True
      | key_rotate \<Rightarrow> False
      | project_manage_secret_tokens \<Rightarrow> False
      | issue_read \<Rightarrow> True
      | issue_update_status \<Rightarrow> True
      | issue_assign \<Rightarrow> True
      | issue_manage_tags \<Rightarrow> True
      | issue_comment \<Rightarrow> True
      | session_read \<Rightarrow> True
      | notification_read_own \<Rightarrow> True
      | reproduction_read \<Rightarrow> True
      | reproduction_generate \<Rightarrow> True
      | ai_analysis_read \<Rightarrow> True
      | ai_analysis_request \<Rightarrow> True
      | workspace_manage_invitations \<Rightarrow> False
      | workspace_manage_members \<Rightarrow> False
      | workspace_read_audit \<Rightarrow> False
      | workspace_transfer_ownership \<Rightarrow> False
      | workspace_delete \<Rightarrow> False
      | project_update_retention \<Rightarrow> False)"
| "RBAC_MATRIX Viewer c = (case c of
        workspace_read \<Rightarrow> True
      | workspace_update \<Rightarrow> False
      | project_create \<Rightarrow> False
      | project_read \<Rightarrow> True
      | project_update \<Rightarrow> False
      | project_delete \<Rightarrow> False
      | environment_read \<Rightarrow> True
      | environment_write \<Rightarrow> False
      | origin_read \<Rightarrow> True
      | origin_write \<Rightarrow> False
      | key_read \<Rightarrow> True
      | key_rotate \<Rightarrow> False
      | project_manage_secret_tokens \<Rightarrow> False
      | issue_read \<Rightarrow> True
      | issue_update_status \<Rightarrow> False
      | issue_assign \<Rightarrow> False
      | issue_manage_tags \<Rightarrow> False
      | issue_comment \<Rightarrow> False
      | session_read \<Rightarrow> True
      | notification_read_own \<Rightarrow> True
      | reproduction_read \<Rightarrow> True
      | reproduction_generate \<Rightarrow> False
      | ai_analysis_read \<Rightarrow> True
      | ai_analysis_request \<Rightarrow> False
      | workspace_manage_invitations \<Rightarrow> False
      | workspace_manage_members \<Rightarrow> False
      | workspace_read_audit \<Rightarrow> False
      | workspace_transfer_ownership \<Rightarrow> False
      | workspace_delete \<Rightarrow> False
      | project_update_retention \<Rightarrow> False)"

subsection \<open>Guards\<close>

record SessionUser =
  su_id :: jstr
  su_email :: jstr

record MembershipView =
  mv_workspaceId :: jstr
  mv_userId :: jstr
  mv_role :: WorkspaceRole

record ProjectView =
  pv_id :: jstr
  pv_workspaceId :: jstr

fun requireAuthenticatedUser :: "SessionUser option \<Rightarrow> thrown + SessionUser" where
  "requireAuthenticatedUser None = Inl (Domain authRequired)"
| "requireAuthenticatedUser (Some user) = Inr user"

fun requireWorkspaceMembership :: "MembershipView option \<Rightarrow> thrown + MembershipView" where
  "requireWorkspaceMembership None = Inl (Domain (notFound (js ''Workspace'')))"
| "requireWorkspaceMembership (Some membership) = Inr membership"

definition requireWorkspaceCapability :: "MembershipView \<Rightarrow> Capability \<Rightarrow> thrown + unit" where
  "requireWorkspaceCapability membership capability =
     (if \<not> hasCapability (mv_role membership) capability
      then Inl (Domain (forbidden (js ''Insufficient workspace role''))) else Inr ())"

definition requireWorkspaceRole :: "MembershipView \<Rightarrow> WorkspaceRole list \<Rightarrow> thrown + unit" where
  "requireWorkspaceRole membership allowed =
     (if mv_role membership \<notin> set allowed
      then Inl (Domain (forbidden (js ''Insufficient workspace role''))) else Inr ())"

fun requireProjectAccess ::
  "MembershipView option \<Rightarrow> ProjectView option \<Rightarrow> thrown + MembershipView" where
  "requireProjectAccess (Some membership) (Some project) =
     (if mv_workspaceId membership \<noteq> pv_workspaceId project
      then Inl (Domain (notFound (js ''Project''))) else Inr membership)"
| "requireProjectAccess _ _ = Inl (Domain (notFound (js ''Project'')))"

fun toDomainError :: "thrown \<Rightarrow> DomainError" where
  "toDomainError (Domain e) = e"
| "toDomainError (PlainError _) = internalError (js ''An unexpected error occurred'')"

lemma ROLE_RANK_inj: "ROLE_RANK a = ROLE_RANK b \<longleftrightarrow> a = b"
  by (cases a; cases b) simp_all

lemma hasCapability_mono: "hasCapability r c \<Longrightarrow> ROLE_RANK r \<le> ROLE_RANK r' \<Longrightarrow> hasCapability r' c"
  by (simp add: hasCapability_def)

lemma requireWorkspaceCapability_Inr [simp]:
  "requireWorkspaceCapability m c = Inr u \<longleftrightarrow> hasCapability (mv_role m) c"
  by (simp add: requireWorkspaceCapability_def)

lemma requireWorkspaceMembership_Inr [simp]:
  "requireWorkspaceMembership mo = Inr m \<longleftrightarrow> mo = Some m"
  by (cases mo) auto

lemma requireProjectAccess_Inr:
  "requireProjectAccess mo po = Inr m \<longleftrightarrow>
     mo = Some m \<and> (\<exists>p. po = Some p \<and> mv_workspaceId m = pv_workspaceId p)"
  by (cases mo; cases po) auto

subsection \<open>Properties\<close>

text \<open>
  the documented RBAC matrix is the policy: for every role and every capability the matrix
  entry is what \<open>hasCapability\<close> decides, and the decision is monotone in the role's rank.
\<close>

theorem rbac_matrix_is_policy:
  "RBAC_MATRIX role c = hasCapability role c
   \<and> (RBAC_MATRIX role c \<and> ROLE_RANK role \<le> ROLE_RANK role' \<longrightarrow> RBAC_MATRIX role' c)"
proof -
  have eq: "RBAC_MATRIX r c = hasCapability r c" for r
    by (cases r; cases c) (simp_all add: hasCapability_def)
  show ?thesis
    using hasCapability_mono by (auto simp: eq)
qed

theorem rbac_matrix_is_policy_witness:
  "RBAC_MATRIX Admin key_rotate \<and> RBAC_MATRIX Owner key_rotate \<and> \<not> RBAC_MATRIX Member key_rotate"
  using rbac_matrix_is_policy [of Admin key_rotate Owner] by simp

text \<open>
  project access is granted only to a member of the project's own workspace; a missing
  project, a missing membership and a project of another workspace give the same
  \<open>NOT_FOUND\<close> error, so the answer does not reveal which of the three it was.
\<close>

theorem project_access_is_not_enumerable:
  "(case requireProjectAccess mo po of
      Inr m \<Rightarrow> mo = Some m \<and> (\<exists>p. po = Some p \<and> pv_workspaceId p = mv_workspaceId m)
    | Inl e \<Rightarrow> e = Domain (notFound (js ''Project''))
        \<and> \<not> (\<exists>m p. mo = Some m \<and> po = Some p \<and> mv_workspaceId m = pv_workspaceId p))"
  by (cases mo; cases po) auto

end
