(* ===== verification/WebRbac.thy ===== *)
theory WebRbac
  imports Policy
begin

text \<open>
  The web client's role helpers (\<open>apps/web/lib/rbac.ts\<close>), which its components use to hide
  controls. The names carry the prefix \<open>web_\<close>: several are also names of the backend policy.
  The interface is the locale \<open>role_affordance\<close>: a client predicate and the backend capability
  that the API enforces for the same control; the interpretations show that each helper
  agrees with its capability.
\<close>

definition web_canManageWorkspace :: "WorkspaceRole \<Rightarrow> bool" where
  "web_canManageWorkspace role \<longleftrightarrow> role = Owner"

definition web_canCreateProject :: "WorkspaceRole \<Rightarrow> bool" where
  "web_canCreateProject role \<longleftrightarrow> role = Owner \<or> role = Admin"

definition web_canManageProject :: "WorkspaceRole \<Rightarrow> bool" where
  "web_canManageProject role \<longleftrightarrow> role = Owner \<or> role = Admin"

definition web_canManageEnvironments :: "WorkspaceRole \<Rightarrow> bool" where
  "web_canManageEnvironments role \<longleftrightarrow> role = Owner \<or> role = Admin"

definition web_canManageOrigins :: "WorkspaceRole \<Rightarrow> bool" where
  "web_canManageOrigins role \<longleftrightarrow> role = Owner \<or> role = Admin"

definition web_canRotateKeys :: "WorkspaceRole \<Rightarrow> bool" where
  "web_canRotateKeys role \<longleftrightarrow> role = Owner \<or> role = Admin"

definition web_canManageMembers :: "WorkspaceRole \<Rightarrow> bool" where
  "web_canManageMembers role \<longleftrightarrow> role = Owner \<or> role = Admin"

definition web_canManageInvitations :: "WorkspaceRole \<Rightarrow> bool" where
  "web_canManageInvitations role \<longleftrightarrow> role = Owner \<or> role = Admin"

definition web_canManageAudit :: "WorkspaceRole \<Rightarrow> bool" where
  "web_canManageAudit role \<longleftrightarrow> role = Owner \<or> role = Admin"

definition web_canTransferOwnership :: "WorkspaceRole \<Rightarrow> bool" where
  "web_canTransferOwnership role \<longleftrightarrow> role = Owner"

definition web_canDeleteWorkspace :: "WorkspaceRole \<Rightarrow> bool" where
  "web_canDeleteWorkspace role \<longleftrightarrow> role = Owner"

definition web_canLeaveWorkspace :: "WorkspaceRole \<Rightarrow> bool" where
  "web_canLeaveWorkspace role \<longleftrightarrow> role = Owner \<or> role = Admin \<or> role = Member \<or> role = Viewer"

definition web_canManageSecretTokens :: "WorkspaceRole \<Rightarrow> bool" where
  "web_canManageSecretTokens role \<longleftrightarrow> role = Owner \<or> role = Admin"

definition web_canUpdateIssueStatus :: "WorkspaceRole \<Rightarrow> bool" where
  "web_canUpdateIssueStatus role \<longleftrightarrow> role \<noteq> Viewer"

definition web_canAssignIssue :: "WorkspaceRole \<Rightarrow> bool" where
  "web_canAssignIssue role \<longleftrightarrow> role \<noteq> Viewer"

definition web_canManageIssueTags :: "WorkspaceRole \<Rightarrow> bool" where
  "web_canManageIssueTags role \<longleftrightarrow> role \<noteq> Viewer"

definition web_canCommentOnIssue :: "WorkspaceRole \<Rightarrow> bool" where
  "web_canCommentOnIssue role \<longleftrightarrow> role \<noteq> Viewer"

definition web_canGenerateReproduction :: "WorkspaceRole \<Rightarrow> bool" where
  "web_canGenerateReproduction role \<longleftrightarrow> role \<noteq> Viewer"

definition web_canRequestAiAnalysis :: "WorkspaceRole \<Rightarrow> bool" where
  "web_canRequestAiAnalysis role \<longleftrightarrow> role \<noteq> Viewer"

definition web_isReadOnly :: "WorkspaceRole \<Rightarrow> bool" where
  "web_isReadOnly role \<longleftrightarrow> role = Member \<or> role = Viewer"

definition web_canChangeMemberRole ::
  "WorkspaceRole \<Rightarrow> WorkspaceRole \<Rightarrow> WorkspaceMemberRole \<Rightarrow> bool" where
  "web_canChangeMemberRole actorRole targetRole nextRole =
     (if targetRole = Owner then False
      else if actorRole = Owner then True
      else actorRole = Admin \<and> (targetRole = Member \<or> targetRole = Viewer)
           \<and> (nextRole = MMember \<or> nextRole = MViewer))"

definition web_canRemoveMember :: "WorkspaceRole \<Rightarrow> WorkspaceRole \<Rightarrow> bool" where
  "web_canRemoveMember actorRole targetRole =
     (if targetRole = Owner then False
      else if actorRole = Owner then True
      else actorRole = Admin \<and> (targetRole = Member \<or> targetRole = Viewer))"

definition web_canInviteRole :: "WorkspaceRole \<Rightarrow> WorkspaceRole \<Rightarrow> bool" where
  "web_canInviteRole actorRole invitedRole =
     (if invitedRole = Owner then False
      else if actorRole = Owner then True
      else actorRole = Admin \<and> (invitedRole = Member \<or> invitedRole = Viewer))"

text \<open>The server's own rule for invitations (\<open>apps/api/src/services/invitations.ts\<close>).\<close>

definition canInviteInvitationRole :: "WorkspaceRole \<Rightarrow> WorkspaceRole \<Rightarrow> bool" where
  "canInviteInvitationRole actorRole invitedRole =
     (if invitedRole = Owner \<or> actorRole = Member \<or> actorRole = Viewer then False
      else if actorRole = Owner then True
      else actorRole = Admin \<and> (invitedRole = Member \<or> invitedRole = Viewer))"

locale role_affordance =
  fixes shown :: "WorkspaceRole \<Rightarrow> bool"
    and enforced :: Capability
  assumes agree: "shown role \<longleftrightarrow> hasCapability role enforced"
begin

lemma no_deterministic_403: "shown role \<Longrightarrow> hasCapability role enforced"
  by (simp add: agree)

lemma hidden_iff_denied: "\<not> shown role \<longleftrightarrow> ROLE_RANK role < ROLE_RANK (CAPABILITY_MIN_ROLE enforced)"
  by (auto simp: agree hasCapability_def)

lemma shown_upward: "shown r \<Longrightarrow> ROLE_RANK r \<le> ROLE_RANK r' \<Longrightarrow> shown r'"
  by (auto simp: agree hasCapability_def)

end

interpretation ui_workspace: role_affordance web_canManageWorkspace workspace_update
  by unfold_locales (case_tac role; simp add: web_canManageWorkspace_def hasCapability_def)

interpretation ui_create_project: role_affordance web_canCreateProject project_create
  by unfold_locales (case_tac role; simp add: web_canCreateProject_def hasCapability_def)

interpretation ui_project: role_affordance web_canManageProject project_update
  by unfold_locales (case_tac role; simp add: web_canManageProject_def hasCapability_def)

interpretation ui_environments: role_affordance web_canManageEnvironments environment_write
  by unfold_locales (case_tac role; simp add: web_canManageEnvironments_def hasCapability_def)

interpretation ui_origins: role_affordance web_canManageOrigins origin_write
  by unfold_locales (case_tac role; simp add: web_canManageOrigins_def hasCapability_def)

interpretation ui_keys: role_affordance web_canRotateKeys key_rotate
  by unfold_locales (case_tac role; simp add: web_canRotateKeys_def hasCapability_def)

interpretation ui_members: role_affordance web_canManageMembers workspace_manage_members
  by unfold_locales (case_tac role; simp add: web_canManageMembers_def hasCapability_def)

interpretation ui_invitations: role_affordance web_canManageInvitations workspace_manage_invitations
  by unfold_locales (case_tac role; simp add: web_canManageInvitations_def hasCapability_def)

interpretation ui_audit: role_affordance web_canManageAudit workspace_read_audit
  by unfold_locales (case_tac role; simp add: web_canManageAudit_def hasCapability_def)

interpretation ui_transfer: role_affordance web_canTransferOwnership workspace_transfer_ownership
  by unfold_locales (case_tac role; simp add: web_canTransferOwnership_def hasCapability_def)

interpretation ui_delete: role_affordance web_canDeleteWorkspace workspace_delete
  by unfold_locales (case_tac role; simp add: web_canDeleteWorkspace_def hasCapability_def)

interpretation ui_tokens: role_affordance web_canManageSecretTokens project_manage_secret_tokens
  by unfold_locales (case_tac role; simp add: web_canManageSecretTokens_def hasCapability_def)

interpretation ui_status: role_affordance web_canUpdateIssueStatus issue_update_status
  by unfold_locales (case_tac role; simp add: web_canUpdateIssueStatus_def hasCapability_def)

interpretation ui_assign: role_affordance web_canAssignIssue issue_assign
  by unfold_locales (case_tac role; simp add: web_canAssignIssue_def hasCapability_def)

interpretation ui_tags: role_affordance web_canManageIssueTags issue_manage_tags
  by unfold_locales (case_tac role; simp add: web_canManageIssueTags_def hasCapability_def)

interpretation ui_comment: role_affordance web_canCommentOnIssue issue_comment
  by unfold_locales (case_tac role; simp add: web_canCommentOnIssue_def hasCapability_def)

interpretation ui_reproduction: role_affordance web_canGenerateReproduction reproduction_generate
  by unfold_locales (case_tac role; simp add: web_canGenerateReproduction_def hasCapability_def)

interpretation ui_ai: role_affordance web_canRequestAiAnalysis ai_analysis_request
  by unfold_locales (case_tac role; simp add: web_canRequestAiAnalysis_def hasCapability_def)

lemmas ui_agree = ui_workspace.agree ui_create_project.agree ui_project.agree ui_environments.agree
  ui_origins.agree ui_keys.agree ui_members.agree ui_invitations.agree ui_audit.agree
  ui_transfer.agree ui_delete.agree ui_tokens.agree ui_status.agree ui_assign.agree ui_tags.agree
  ui_comment.agree ui_reproduction.agree ui_ai.agree

text \<open>
  the web client's role helpers grant exactly what the API enforces: every one-role helper
  agrees with its capability, and the helpers on pairs of roles agree with the server's rules
  for role changes, removals and invitations. The client has no matrix of its own that could
  drift from the backend.
\<close>

theorem web_rbac_mirrors_backend:
  "web_canManageWorkspace role = hasCapability role workspace_update
   \<and> web_canCreateProject role = hasCapability role project_create
   \<and> web_canManageProject role = hasCapability role project_update
   \<and> web_canManageEnvironments role = canManageEnvironments role
   \<and> web_canManageOrigins role = canManageOrigins role
   \<and> web_canRotateKeys role = canRotateKeys role
   \<and> web_canManageMembers role = canManageMembers role
   \<and> web_canManageInvitations role = canManageInvitations role
   \<and> web_canManageAudit role = canReadAudit role
   \<and> web_canTransferOwnership role = canTransferOwnership role
   \<and> web_canDeleteWorkspace role = canDeleteWorkspace role
   \<and> web_canManageSecretTokens role = canManageSecretTokens role
   \<and> web_canUpdateIssueStatus role = canUpdateIssueStatus role
   \<and> web_canAssignIssue role = canAssignIssues role
   \<and> web_canManageIssueTags role = canManageIssueTags role
   \<and> web_canCommentOnIssue role = canCommentOnIssues role
   \<and> web_canGenerateReproduction role = canGenerateReproductions role
   \<and> web_canRequestAiAnalysis role = canRequestAiAnalysis role
   \<and> web_canLeaveWorkspace role = canLeaveWorkspace role
   \<and> web_canChangeMemberRole role target next_role = canChangeMemberRole role target next_role
   \<and> web_canRemoveMember role target = canRemoveMember role target
   \<and> web_canInviteRole role target = canInviteInvitationRole role target"
proof -
  have "web_canLeaveWorkspace role" "canLeaveWorkspace role"
    by (cases role; simp add: web_canLeaveWorkspace_def canLeaveWorkspace_def
        isWorkspaceRoleAtLeast_def compareWorkspaceRoles_def workspaceRoleRank_def)+
  moreover have "web_canInviteRole role target = canInviteInvitationRole role target"
    by (cases role) (auto simp: web_canInviteRole_def canInviteInvitationRole_def)
  ultimately show ?thesis
    by (simp add: ui_agree canManageEnvironments_def canManageOrigins_def canRotateKeys_def
        canManageMembers_def canManageInvitations_def canReadAudit_def canTransferOwnership_def
        canDeleteWorkspace_def canManageSecretTokens_def canUpdateIssueStatus_def canAssignIssues_def
        canManageIssueTags_def canCommentOnIssues_def canGenerateReproductions_def
        canRequestAiAnalysis_def web_canChangeMemberRole_def canChangeMemberRole_def
        web_canRemoveMember_def canRemoveMember_def)
qed

end
