(* ===== verification/Governance.thy ===== *)
theory Governance
  imports Policy
begin

text \<open>
  Workspace governance (\<open>apps/api/src/services/workspace-governance.ts\<close>): role changes, removal,
  leaving and ownership transfer, over the rows the transactions lock and write. A transaction
  is a function from the database to an error or a new database with a result; an error rolls
  back (\<open>transaction\<close>). The workspace row lock serialises the transactions, so a run of the
  system is a sequence of them. The audit log keeps the entries handed to \<open>insertAuditLog\<close>.
\<close>

subsection \<open>Rows and repositories\<close>

record MembershipRow =
  m_id :: jstr
  m_workspaceId :: jstr
  m_userId :: jstr
  m_role :: jstr

record UserRow =
  u_id :: jstr
  u_name :: jstr
  u_email :: jstr

record AuditEntry =
  au_workspaceId :: jstr
  au_actorUserId :: jstr
  au_action :: jstr
  au_metadata :: "(jstr \<times> jstr) list"

record gdb =
  g_workspaces :: "jstr list"
  g_members :: "MembershipRow list"
  g_users :: "UserRow list"
  g_audit :: "AuditEntry list"

record WorkspaceMember =
  wm_id :: jstr
  wm_name :: jstr
  wm_email :: jstr
  wm_role :: WorkspaceRole

definition transaction :: "(gdb \<Rightarrow> thrown + gdb \<times> 'a) \<Rightarrow> gdb \<Rightarrow> gdb \<times> (thrown + 'a)" where
  "transaction body db = (case body db of Inl e \<Rightarrow> (db, Inl e) | Inr (db', r) \<Rightarrow> (db', Inr r))"

definition hitsMember :: "jstr \<Rightarrow> jstr \<Rightarrow> MembershipRow \<Rightarrow> bool" where
  "hitsMember ws user m \<longleftrightarrow> m_workspaceId m = ws \<and> m_userId m = user"

definition firstRow :: "'a list \<Rightarrow> 'a option" where
  "firstRow rows = (case rows of [] \<Rightarrow> None | r # _ \<Rightarrow> Some r)"

definition lockWorkspaceById :: "gdb \<Rightarrow> jstr \<Rightarrow> jstr option" where
  "lockWorkspaceById db ws = firstRow (filter (\<lambda>w. w = ws) (g_workspaces db))"

definition lockMembershipsByWorkspace :: "gdb \<Rightarrow> jstr \<Rightarrow> MembershipRow list" where
  "lockMembershipsByWorkspace db ws =
     sort_key m_id (filter (\<lambda>m. m_workspaceId m = ws) (g_members db))"

definition listMembershipsByWorkspace :: "gdb \<Rightarrow> jstr \<Rightarrow> MembershipRow list" where
  "listMembershipsByWorkspace db ws = filter (\<lambda>m. m_workspaceId m = ws) (g_members db)"

definition updateMembershipRole ::
  "gdb \<Rightarrow> jstr \<Rightarrow> jstr \<Rightarrow> jstr \<Rightarrow> gdb \<times> MembershipRow option" where
  "updateMembershipRole db ws user role =
     (db\<lparr>g_members := map (\<lambda>m. if hitsMember ws user m then m\<lparr>m_role := role\<rparr> else m) (g_members db)\<rparr>,
      firstRow (map (\<lambda>m. m\<lparr>m_role := role\<rparr>) (filter (hitsMember ws user) (g_members db))))"

definition deleteMembership :: "gdb \<Rightarrow> jstr \<Rightarrow> jstr \<Rightarrow> gdb \<times> MembershipRow option" where
  "deleteMembership db ws user =
     (db\<lparr>g_members := filter (\<lambda>m. \<not> hitsMember ws user m) (g_members db)\<rparr>,
      firstRow (filter (hitsMember ws user) (g_members db)))"

definition insertAuditLog :: "gdb \<Rightarrow> AuditEntry \<Rightarrow> gdb" where
  "insertAuditLog db e = db\<lparr>g_audit := g_audit db @ [e]\<rparr>"

subsection \<open>Helpers of the service\<close>

definition persistedWorkspaceRole :: "jstr \<Rightarrow> thrown + WorkspaceRole" where
  "persistedWorkspaceRole v =
     (if v = js ''owner'' then Inr Owner
      else if v = js ''admin'' then Inr Admin
      else if v = js ''member'' then Inr Member
      else if v = js ''viewer'' then Inr Viewer
      else Inl (PlainError (js ''Invalid persisted workspace role'')))"

fun roleText :: "WorkspaceRole \<Rightarrow> jstr" where
  "roleText Owner = js ''owner''"
| "roleText Admin = js ''admin''"
| "roleText Member = js ''member''"
| "roleText Viewer = js ''viewer''"

definition membershipView :: "MembershipRow \<Rightarrow> thrown + MembershipView" where
  "membershipView row = bindE (persistedWorkspaceRole (m_role row)) (\<lambda>r.
     Inr \<lparr>mv_workspaceId = m_workspaceId row, mv_userId = m_userId row, mv_role = r\<rparr>)"

definition membershipForUser :: "MembershipRow list \<Rightarrow> jstr \<Rightarrow> MembershipRow option" where
  "membershipForUser memberships user = List.find (\<lambda>m. m_userId m = user) memberships"

definition actorMembershipOrThrow :: "MembershipRow list \<Rightarrow> jstr \<Rightarrow> thrown + MembershipView" where
  "actorMembershipOrThrow memberships user =
     (case membershipForUser memberships user of
        None \<Rightarrow> requireWorkspaceMembership None
      | Some row \<Rightarrow> bindE (membershipView row) (\<lambda>v. requireWorkspaceMembership (Some v)))"

definition targetMembershipOrThrow :: "MembershipRow list \<Rightarrow> jstr \<Rightarrow> thrown + MembershipRow" where
  "targetMembershipOrThrow memberships user =
     (case membershipForUser memberships user of
        None \<Rightarrow> Inl (Domain (notFound (js ''Workspace member'')))
      | Some row \<Rightarrow> Inr row)"

definition isOwnerRow :: "MembershipRow \<Rightarrow> thrown + bool" where
  "isOwnerRow m = bindE (persistedWorkspaceRole (m_role m)) (\<lambda>r. Inr (r = Owner))"

abbreviation oneOwnerError :: thrown where
  "oneOwnerError \<equiv> Domain (conflict (js ''Workspace must have exactly one owner''))"

abbreviation concurrentError :: thrown where
  "concurrentError \<equiv> Domain (conflict (js ''Workspace membership changed concurrently''))"

definition requireExactlyOneOwner :: "MembershipRow list \<Rightarrow> thrown + MembershipRow" where
  "requireExactlyOneOwner memberships = bindE (filterE isOwnerRow memberships) (\<lambda>owners.
     if length owners \<noteq> 1 then Inl oneOwnerError
     else (case owners of [] \<Rightarrow> Inl oneOwnerError | owner # _ \<Rightarrow> Inr owner))"

definition lockGovernanceState :: "gdb \<Rightarrow> jstr \<Rightarrow> thrown + MembershipRow list" where
  "lockGovernanceState db ws =
     (case lockWorkspaceById db ws of
        None \<Rightarrow> Inl (Domain (notFound (js ''Workspace'')))
      | Some w \<Rightarrow> Inr (lockMembershipsByWorkspace db w))"

definition memberDto :: "gdb \<Rightarrow> jstr \<Rightarrow> WorkspaceRole \<Rightarrow> thrown + WorkspaceMember" where
  "memberDto db user role =
     (case firstRow (filter (\<lambda>u. u_id u = user) (g_users db)) of
        None \<Rightarrow> Inl (PlainError (js ''Workspace membership refers to a missing user''))
      | Some u \<Rightarrow> Inr \<lparr>wm_id = u_id u, wm_name = u_name u, wm_email = u_email u, wm_role = role\<rparr>)"

text \<open>\<open>workspaceMemberRoleSchema.safeParse\<close>: the three roles that can be assigned.\<close>

definition parseMemberRole :: "jstr \<Rightarrow> WorkspaceMemberRole option" where
  "parseMemberRole v =
     (if v = js ''admin'' then Some MAdmin
      else if v = js ''member'' then Some MMember
      else if v = js ''viewer'' then Some MViewer else None)"

subsection \<open>The four mutations\<close>

definition updateMemberRoleTx ::
  "jstr \<Rightarrow> jstr \<Rightarrow> jstr \<Rightarrow> WorkspaceMemberRole \<Rightarrow> gdb \<Rightarrow> thrown + gdb \<times> (jstr \<times> WorkspaceRole)" where
  "updateMemberRoleTx actorUserId ws targetUserId requested db =
     bindE (lockGovernanceState db ws) (\<lambda>memberships.
     bindE (actorMembershipOrThrow memberships actorUserId) (\<lambda>actor.
     bindE (requireWorkspaceCapability actor workspace_manage_members) (\<lambda>_.
     bindE (targetMembershipOrThrow memberships targetUserId) (\<lambda>target.
     bindE (requireExactlyOneOwner memberships) (\<lambda>_.
     bindE (persistedWorkspaceRole (m_role target)) (\<lambda>targetRole.
     if \<not> canChangeMemberRole (mv_role actor) targetRole requested
     then Inl (Domain (forbidden (js ''Insufficient workspace role for this member'')))
     else if targetRole = ofMemberRole requested
     then Inr (db, (m_userId target, targetRole))
     else (case updateMembershipRole db ws targetUserId (roleText (ofMemberRole requested)) of
       (db', updated) \<Rightarrow> (case updated of
          None \<Rightarrow> Inl concurrentError
        | Some row \<Rightarrow>
            let db'' = insertAuditLog db' \<lparr>au_workspaceId = ws, au_actorUserId = actorUserId,
                   au_action = js ''workspace_member.role_changed'',
                   au_metadata = [(js ''targetUserId'', targetUserId),
                                  (js ''previousRole'', roleText targetRole),
                                  (js ''role'', roleText (ofMemberRole requested))]\<rparr>
            in bindE (persistedWorkspaceRole (m_role row)) (\<lambda>r.
                 Inr (db'', (m_userId row, r)))))))))))"

definition updateWorkspaceMemberRole ::
  "jstr \<Rightarrow> jstr \<Rightarrow> jstr \<Rightarrow> jstr \<Rightarrow> gdb \<Rightarrow> gdb \<times> (thrown + WorkspaceMember)" where
  "updateWorkspaceMemberRole actorUserId ws targetUserId input_role db =
     (case parseMemberRole input_role of
        None \<Rightarrow> (db, Inl (Domain (validationError (js ''Invalid workspace member role''))))
      | Some requested \<Rightarrow>
          (case transaction (updateMemberRoleTx actorUserId ws targetUserId requested) db of
             (db', r) \<Rightarrow> (db', bindE r (\<lambda>(user, role). memberDto db' user role))))"

definition ownersExcept :: "MembershipRow list \<Rightarrow> jstr \<Rightarrow> thrown + MembershipRow list" where
  "ownersExcept memberships removedId =
     filterE (\<lambda>m. if m_id m \<noteq> removedId then isOwnerRow m else Inr False) memberships"

definition removeMemberTx :: "jstr \<Rightarrow> jstr \<Rightarrow> jstr \<Rightarrow> gdb \<Rightarrow> thrown + gdb \<times> bool" where
  "removeMemberTx actorUserId ws targetUserId db =
     bindE (lockGovernanceState db ws) (\<lambda>memberships.
     bindE (actorMembershipOrThrow memberships actorUserId) (\<lambda>actor.
     bindE (requireWorkspaceCapability actor workspace_manage_members) (\<lambda>_.
     bindE (targetMembershipOrThrow memberships targetUserId) (\<lambda>target.
     bindE (requireExactlyOneOwner memberships) (\<lambda>owner.
     bindE (persistedWorkspaceRole (m_role target)) (\<lambda>targetRole.
     if \<not> canRemoveMember (mv_role actor) targetRole
     then Inl (Domain (forbidden (js ''Insufficient workspace role for this member'')))
     else if m_userId target = m_userId owner
     then Inl (Domain (forbidden (js ''The workspace owner cannot be removed'')))
     else (case deleteMembership db ws targetUserId of
       (db', removed) \<Rightarrow> (case removed of
          None \<Rightarrow> Inl concurrentError
        | Some row \<Rightarrow> bindE (ownersExcept memberships (m_id row)) (\<lambda>remaining.
            if length remaining \<noteq> 1 then Inl oneOwnerError
            else Inr (insertAuditLog db' \<lparr>au_workspaceId = ws, au_actorUserId = actorUserId,
                   au_action = js ''workspace_member.removed'',
                   au_metadata = [(js ''targetUserId'', targetUserId),
                                  (js ''role'', roleText targetRole),
                                  (js ''reason'', js ''removed'')]\<rparr>, True))))))))))"

definition removeWorkspaceMember :: "jstr \<Rightarrow> jstr \<Rightarrow> jstr \<Rightarrow> gdb \<Rightarrow> gdb \<times> (thrown + bool)" where
  "removeWorkspaceMember actorUserId ws targetUserId = transaction (removeMemberTx actorUserId ws targetUserId)"

definition leaveTx :: "jstr \<Rightarrow> jstr \<Rightarrow> gdb \<Rightarrow> thrown + gdb \<times> bool" where
  "leaveTx actorUserId ws db =
     bindE (lockGovernanceState db ws) (\<lambda>memberships.
     bindE (actorMembershipOrThrow memberships actorUserId) (\<lambda>actor.
     if \<not> canLeaveWorkspace (mv_role actor)
     then Inl (Domain (forbidden (js ''Insufficient workspace role'')))
     else bindE (requireExactlyOneOwner memberships) (\<lambda>owner.
     if m_userId owner = actorUserId
     then Inl (Domain (conflict (js ''The last workspace owner cannot leave'')))
     else (case deleteMembership db ws actorUserId of
       (db', removed) \<Rightarrow> (case removed of
          None \<Rightarrow> Inl concurrentError
        | Some row \<Rightarrow> bindE (ownersExcept memberships (m_id row)) (\<lambda>remaining.
            if length remaining \<noteq> 1 then Inl oneOwnerError
            else Inr (insertAuditLog db' \<lparr>au_workspaceId = ws, au_actorUserId = actorUserId,
                   au_action = js ''workspace_member.removed'',
                   au_metadata = [(js ''targetUserId'', actorUserId),
                                  (js ''role'', roleText (mv_role actor)),
                                  (js ''reason'', js ''left'')]\<rparr>, True)))))))"

definition leaveWorkspace :: "jstr \<Rightarrow> jstr \<Rightarrow> gdb \<Rightarrow> gdb \<times> (thrown + bool)" where
  "leaveWorkspace actorUserId ws = transaction (leaveTx actorUserId ws)"

definition transferTx ::
  "jstr \<Rightarrow> jstr \<Rightarrow> jstr \<Rightarrow> gdb \<Rightarrow> thrown + gdb \<times> (jstr \<times> jstr \<times> jstr)" where
  "transferTx actorUserId ws newOwnerId db =
     bindE (lockGovernanceState db ws) (\<lambda>memberships.
     bindE (actorMembershipOrThrow memberships actorUserId) (\<lambda>actor.
     bindE (requireWorkspaceCapability actor workspace_transfer_ownership) (\<lambda>_.
     bindE (requireExactlyOneOwner memberships) (\<lambda>owner.
     if m_userId owner \<noteq> mv_userId actor
     then Inl (Domain (forbidden (js ''Only the workspace owner can transfer ownership'')))
     else bindE (targetMembershipOrThrow memberships newOwnerId) (\<lambda>target.
     bindE (persistedWorkspaceRole (m_role target)) (\<lambda>targetRole.
     if targetRole = Owner
     then Inl (Domain (conflict (js ''Ownership target must be a non-owner member'')))
     else (case updateMembershipRole db ws (m_userId owner) (js ''admin'') of (db1, previousOwner) \<Rightarrow>
           (case updateMembershipRole db1 ws (m_userId target) (js ''owner'') of (db2, newOwner) \<Rightarrow>
             if previousOwner = None \<or> newOwner = None then Inl concurrentError
             else bindE (requireExactlyOneOwner (listMembershipsByWorkspace db2 ws)) (\<lambda>resulting.
               if m_userId resulting \<noteq> m_userId target then Inl oneOwnerError
               else Inr (insertAuditLog db2 \<lparr>au_workspaceId = ws, au_actorUserId = actorUserId,
                      au_action = js ''workspace.ownership_transferred'',
                      au_metadata = [(js ''previousOwnerId'', m_userId owner),
                                     (js ''newOwnerId'', m_userId target)]\<rparr>,
                    (ws, m_userId owner, m_userId target)))))))))))"

definition transferWorkspaceOwnership ::
  "jstr \<Rightarrow> jstr \<Rightarrow> jstr \<Rightarrow> gdb \<Rightarrow> gdb \<times> (thrown + jstr \<times> jstr \<times> jstr)" where
  "transferWorkspaceOwnership actorUserId ws newOwnerId = transaction (transferTx actorUserId ws newOwnerId)"

subsection \<open>Role texts\<close>

lemma persisted_iff: "persistedWorkspaceRole v = Inr r \<longleftrightarrow> v = roleText r"
  by (cases r) (auto simp: persistedWorkspaceRole_def js_eval)

lemma roleText_inj [simp]: "roleText a = roleText b \<longleftrightarrow> a = b"
  by (metis persisted_iff sum.inject(2))

lemma persisted_roleText [simp]: "persistedWorkspaceRole (roleText r) = Inr r"
  by (simp add: persisted_iff)

lemma ex_role_iff:
  "(\<exists>r. v = roleText r) \<longleftrightarrow> v = js ''owner'' \<or> v = js ''admin'' \<or> v = js ''member'' \<or> v = js ''viewer''"
  by (metis WorkspaceRole.exhaust roleText.simps)

lemma roleText_owner: "roleText r = js ''owner'' \<longleftrightarrow> r = Owner"
  using roleText_inj [of r Owner] by simp

lemma ofMemberRole_not_owner [simp]: "ofMemberRole m \<noteq> Owner"
  by (cases m) simp_all

lemma isOwnerRow_Inr: "isOwnerRow m = Inr b \<longleftrightarrow> (\<exists>r. m_role m = roleText r \<and> b = (r = Owner))"
  by (auto simp: isOwnerRow_def bindE_Inr persisted_iff)

lemma isOwnerRow_True: "isOwnerRow m = Inr True \<longleftrightarrow> m_role m = js ''owner''"
  using isOwnerRow_Inr [of m True] by auto

lemma exactlyOneOwner_Inr:
  assumes "requireExactlyOneOwner ms = Inr row"
  shows "filter (\<lambda>m. m_role m = js ''owner'') ms = [row]"
proof -
  obtain owners where owners: "filterE isOwnerRow ms = Inr owners"
    and rest: "(if length owners \<noteq> 1 then Inl oneOwnerError
       else (case owners of [] \<Rightarrow> Inl oneOwnerError | owner # _ \<Rightarrow> Inr owner)) = Inr row"
    using assms unfolding requireExactlyOneOwner_def bindE_Inr by blast
  from rest have "owners = [row]"
    by (cases owners) (auto split: if_splits)
  with filterE_Inr [OF owners] show ?thesis
    by (simp add: isOwnerRow_True)
qed

lemma firstRow_map: "firstRow (map f xs) = map_option f (firstRow xs)"
  by (cases xs) (auto simp: firstRow_def)

lemma firstRow_filter [simp]: "firstRow (filter P xs) = List.find P xs"
  by (induction xs) (auto simp: firstRow_def)

subsection \<open>The schema's constraints and the abstract state\<close>

text \<open>
  \<open>gov_wf\<close> is what the schema guarantees: one membership per workspace and user
  (\<open>workspace_memberships_workspace_user_unique\<close>), unique ids and a checked role column.
  \<open>memberRole\<close> abstracts a database to the role of a user in a workspace.
\<close>

definition gov_wf :: "gdb \<Rightarrow> bool" where
  "gov_wf db \<longleftrightarrow> distinct (map (\<lambda>m. (m_workspaceId m, m_userId m)) (g_members db))
     \<and> distinct (map m_id (g_members db))
     \<and> (\<forall>m \<in> set (g_members db). \<exists>r. m_role m = roleText r)"

definition memberRow :: "gdb \<Rightarrow> jstr \<Rightarrow> jstr \<Rightarrow> MembershipRow option" where
  "memberRow db ws user = List.find (hitsMember ws user) (g_members db)"

definition memberRole :: "gdb \<Rightarrow> jstr \<Rightarrow> jstr \<Rightarrow> WorkspaceRole option" where
  "memberRole db ws user = (case memberRow db ws user of None \<Rightarrow> None
     | Some m \<Rightarrow> (case persistedWorkspaceRole (m_role m) of Inl _ \<Rightarrow> None | Inr r \<Rightarrow> Some r))"

definition ownersOf :: "gdb \<Rightarrow> jstr \<Rightarrow> MembershipRow list" where
  "ownersOf db ws = filter (\<lambda>m. m_workspaceId m = ws \<and> m_role m = js ''owner'') (g_members db)"

definition one_owner :: "gdb \<Rightarrow> bool" where
  "one_owner db \<longleftrightarrow> (\<forall>ws \<in> set (g_workspaces db). length (ownersOf db ws) = 1)"

lemma hits_unique:
  "gov_wf db \<Longrightarrow> m \<in> set (g_members db) \<Longrightarrow> m' \<in> set (g_members db) \<Longrightarrow>
   hitsMember ws u m \<Longrightarrow> hitsMember ws u m' \<Longrightarrow> m = m'"
  unfolding gov_wf_def hitsMember_def distinct_map inj_on_def by fastforce

lemma memberRow_Some:
  assumes "gov_wf db"
  shows "memberRow db ws u = Some m \<longleftrightarrow> m \<in> set (g_members db) \<and> hitsMember ws u m"
proof
  assume "memberRow db ws u = Some m"
  then show "m \<in> set (g_members db) \<and> hitsMember ws u m"
    unfolding memberRow_def by (rule find_SomeD)
next
  assume m: "m \<in> set (g_members db) \<and> hitsMember ws u m"
  then obtain m' where m': "memberRow db ws u = Some m'"
    unfolding memberRow_def by (metis find_None_iff not_None_eq)
  then show "memberRow db ws u = Some m"
    using hits_unique [OF assms] m find_SomeD unfolding memberRow_def by metis
qed

lemma membershipForUser_locked:
  assumes "gov_wf db"
    and "membershipForUser (lockMembershipsByWorkspace db ws) u = Some m"
  shows "memberRow db ws u = Some m"
  using assms(2) find_SomeD unfolding membershipForUser_def
  by (fastforce simp: memberRow_Some [OF assms(1)] lockMembershipsByWorkspace_def hitsMember_def)

lemma actor_Inr:
  assumes "gov_wf db" and "actorMembershipOrThrow (lockMembershipsByWorkspace db ws) u = Inr v"
  shows "memberRole db ws u = Some (mv_role v) \<and> mv_userId v = u \<and> mv_workspaceId v = ws"
proof -
  obtain row where row: "membershipForUser (lockMembershipsByWorkspace db ws) u = Some row"
    and v: "membershipView row = Inr v"
    using assms(2) by (auto simp: actorMembershipOrThrow_def bindE_Inr split: option.splits)
  from membershipForUser_locked [OF assms(1) row] have mr: "memberRow db ws u = Some row" .
  then have "hitsMember ws u row"
    by (simp add: memberRow_Some [OF assms(1)])
  with v mr show ?thesis
    by (auto simp: memberRole_def membershipView_def bindE_Inr hitsMember_def)
qed

lemma target_Inr:
  assumes "gov_wf db" and "targetMembershipOrThrow (lockMembershipsByWorkspace db ws) u = Inr row"
  shows "memberRow db ws u = Some row \<and> row \<in> set (g_members db) \<and> hitsMember ws u row"
proof -
  have "membershipForUser (lockMembershipsByWorkspace db ws) u = Some row"
    using assms(2) by (auto simp: targetMembershipOrThrow_def split: option.splits)
  from membershipForUser_locked [OF assms(1) this] show ?thesis
    using memberRow_Some [OF assms(1)] by auto
qed

lemma lockGovernanceState_Inr:
  "lockGovernanceState db ws = Inr ms \<longleftrightarrow>
     ws \<in> set (g_workspaces db) \<and> ms = lockMembershipsByWorkspace db ws"
proof -
  have "List.find (\<lambda>w. w = ws) xs = (if ws \<in> set xs then Some ws else None)" for xs
    by (induction xs) auto
  then show ?thesis
    by (auto simp: lockGovernanceState_def lockWorkspaceById_def split: if_splits)
qed

subsection \<open>What a role write and a row deletion do to the abstract state\<close>

lemma find_map_same: "(\<And>x. P (f x) = P x) \<Longrightarrow> List.find P (map f xs) = map_option f (List.find P xs)"
  by (induction xs) auto

lemma find_filter_keep: "(\<And>x. P x \<Longrightarrow> Q x) \<Longrightarrow> List.find P (filter Q xs) = List.find P xs"
  by (induction xs) auto

lemma hitsMember_update [simp]: "hitsMember ws u (m\<lparr>m_role := r\<rparr>) = hitsMember ws u m"
  by (simp add: hitsMember_def)

lemma hitsMember_disj: "hitsMember ws u m \<Longrightarrow> hitsMember ws' u' m \<longleftrightarrow> ws' = ws \<and> u' = u"
  by (auto simp: hitsMember_def)

lemma memberRow_update:
  "memberRow (fst (updateMembershipRole db ws u t)) ws' u' =
     (if ws' = ws \<and> u' = u then map_option (\<lambda>m. m\<lparr>m_role := t\<rparr>) (memberRow db ws u)
      else memberRow db ws' u')"
proof -
  let ?f = "\<lambda>m. if hitsMember ws u m then m\<lparr>m_role := t\<rparr> else m"
  have "memberRow (fst (updateMembershipRole db ws u t)) ws' u' = map_option ?f (memberRow db ws' u')"
    by (simp add: memberRow_def updateMembershipRole_def find_map_same)
  also have "\<dots> = (if ws' = ws \<and> u' = u then map_option (\<lambda>m. m\<lparr>m_role := t\<rparr>) (memberRow db ws u)
      else memberRow db ws' u')"
  proof (cases "memberRow db ws' u'")
    case (Some m)
    then have "hitsMember ws' u' m"
      unfolding memberRow_def by (auto dest: find_SomeD)
    with Some show ?thesis by (auto simp: hitsMember_disj)
  qed auto
  finally show ?thesis .
qed

lemma memberRole_update:
  assumes "memberRow db ws u \<noteq> None"
  shows "memberRole (fst (updateMembershipRole db ws u (roleText r))) ws' u' =
     (if ws' = ws \<and> u' = u then Some r else memberRole db ws' u')"
  using assms by (auto simp: memberRole_def memberRow_update)

lemma memberRow_delete:
  "memberRow (fst (deleteMembership db ws u)) ws' u' =
     (if ws' = ws \<and> u' = u then None else memberRow db ws' u')"
proof (cases "ws' = ws \<and> u' = u")
  case True
  then show ?thesis
    by (auto simp: memberRow_def deleteMembership_def find_None_iff)
next
  case False
  then have "hitsMember ws' u' m \<Longrightarrow> \<not> hitsMember ws u m" for m
    by (auto simp: hitsMember_def)
  with False show ?thesis
    by (auto simp: memberRow_def deleteMembership_def find_filter_keep)
qed

lemma memberRole_delete:
  "memberRole (fst (deleteMembership db ws u)) ws' u' =
     (if ws' = ws \<and> u' = u then None else memberRole db ws' u')"
  by (simp add: memberRole_def memberRow_delete)

lemma gov_wf_update [inv_intro]:
  assumes "gov_wf db"
  shows "gov_wf (fst (updateMembershipRole db ws u (roleText r)))" (is "gov_wf ?db'")
proof -
  have keys: "map (\<lambda>m. (m_workspaceId m, m_userId m)) (g_members ?db') =
      map (\<lambda>m. (m_workspaceId m, m_userId m)) (g_members db)"
    and ids: "map m_id (g_members ?db') = map m_id (g_members db)"
    by (auto simp: updateMembershipRole_def)
  have "\<forall>m \<in> set (g_members ?db'). \<exists>r. m_role m = roleText r"
    using assms by (auto simp: gov_wf_def updateMembershipRole_def)
  with assms show ?thesis
    unfolding gov_wf_def keys ids by blast
qed

lemma gov_wf_delete [inv_intro]: "gov_wf db \<Longrightarrow> gov_wf (fst (deleteMembership db ws u))"
  by (auto simp: gov_wf_def deleteMembership_def distinct_map intro: inj_on_subset)

lemma gov_wf_audit [simp]: "gov_wf (insertAuditLog db e) = gov_wf db"
  by (simp add: gov_wf_def insertAuditLog_def)

lemma audit_frame [simp]:
  "g_members (insertAuditLog db e) = g_members db"
  "g_workspaces (insertAuditLog db e) = g_workspaces db"
  "ownersOf (insertAuditLog db e) ws = ownersOf db ws"
  "memberRow (insertAuditLog db e) ws u = memberRow db ws u"
  "memberRole (insertAuditLog db e) ws u = memberRole db ws u"
  by (simp_all add: insertAuditLog_def ownersOf_def memberRow_def memberRole_def)

lemma repo_workspaces [simp]:
  "g_workspaces (fst (updateMembershipRole db ws u t)) = g_workspaces db"
  "g_workspaces (fst (deleteMembership db ws u)) = g_workspaces db"
  by (simp_all add: updateMembershipRole_def deleteMembership_def)

lemma ownersOf_update_other:
  assumes "gov_wf db" and "memberRow db ws u = Some m" and "m_role m \<noteq> js ''owner''"
    and "t \<noteq> js ''owner''"
  shows "length (ownersOf (fst (updateMembershipRole db ws u t)) ws') = length (ownersOf db ws')"
proof -
  have "m' = m" if "m' \<in> set (g_members db)" "hitsMember ws u m'" for m'
    using that assms(1,2) hits_unique memberRow_Some by metis
  with assms(3,4) show ?thesis
    unfolding ownersOf_def updateMembershipRole_def
    by (auto simp: filter_map intro!: arg_cong [where f = length] filter_cong split: if_splits)
qed

lemma ownersOf_delete_other:
  assumes "gov_wf db" and "memberRow db ws u = Some m" and "m_role m \<noteq> js ''owner''"
  shows "ownersOf (fst (deleteMembership db ws u)) ws' = ownersOf db ws'"
proof -
  have "m' = m" if "m' \<in> set (g_members db)" "hitsMember ws u m'" for m'
    using that assms(1,2) hits_unique memberRow_Some by metis
  with assms(3) show ?thesis
    by (auto simp: ownersOf_def deleteMembership_def intro!: filter_cong)
qed

lemma ownersOf_other_workspace:
  "ws' \<noteq> ws \<Longrightarrow> length (ownersOf (fst (updateMembershipRole db ws u t)) ws') = length (ownersOf db ws')"
  by (auto simp: ownersOf_def updateMembershipRole_def hitsMember_def filter_map
      intro!: arg_cong [where f = length] filter_cong split: if_splits)

subsection \<open>What each mutation does when it succeeds\<close>

text \<open>\<open>audited db' db a\<close>: \<open>db'\<close> is \<open>db\<close> with one more audit entry, by the actor \<open>a\<close>.\<close>

definition audited :: "gdb \<Rightarrow> gdb \<Rightarrow> jstr \<Rightarrow> bool" where
  "audited db' db a \<longleftrightarrow> (\<exists>e. db' = insertAuditLog db e \<and> au_actorUserId e = a)"

lemma auditedI [simp]: "au_actorUserId e = a \<Longrightarrow> audited (insertAuditLog db e) db a"
  by (auto simp: audited_def)

lemma updateMembershipRole_returns:
  "snd (updateMembershipRole db ws u t) = map_option (\<lambda>m. m\<lparr>m_role := t\<rparr>) (memberRow db ws u)"
  by (simp add: updateMembershipRole_def memberRow_def firstRow_map)

lemma deleteMembership_returns: "snd (deleteMembership db ws u) = memberRow db ws u"
  by (simp add: deleteMembership_def memberRow_def)

lemma not_owner_role: "m_role m = roleText r \<Longrightarrow> r \<noteq> Owner \<Longrightarrow> m_role m \<noteq> js ''owner''"
  using roleText_owner by simp

lemma memberRole_row:
  "memberRow db ws u = Some m \<Longrightarrow> m_role m = roleText r \<Longrightarrow> memberRole db ws u = Some r"
  by (simp add: memberRole_def)

lemma updateMemberRoleTx_success:
  assumes wf: "gov_wf db" and run: "updateMemberRoleTx a ws t req db = Inr (db', (u, r))"
  obtains ra rt row where "ws \<in> set (g_workspaces db)"
    "memberRole db ws a = Some ra" "hasCapability ra workspace_manage_members"
    "memberRow db ws t = Some row" "m_role row = roleText rt" "canChangeMemberRole ra rt req"
    "u = t" "r = ofMemberRole req"
    "rt = ofMemberRole req \<and> db' = db \<or>
     rt \<noteq> ofMemberRole req \<and>
     audited db' (fst (updateMembershipRole db ws t (roleText r))) a"
proof -
  let ?ms = "lockMembershipsByWorkspace db ws"
  from run obtain actor target rt where ws: "ws \<in> set (g_workspaces db)"
    and actor: "actorMembershipOrThrow ?ms a = Inr actor"
    and cap: "hasCapability (mv_role actor) workspace_manage_members"
    and target: "targetMembershipOrThrow ?ms t = Inr target"
    and rt: "m_role target = roleText rt"
    and can: "canChangeMemberRole (mv_role actor) rt req"
    and rest: "(if rt = ofMemberRole req then Inr (db, (m_userId target, rt))
      else (case updateMembershipRole db ws t (roleText (ofMemberRole req)) of
       (db', updated) \<Rightarrow> (case updated of
          None \<Rightarrow> Inl concurrentError
        | Some row \<Rightarrow>
            let db'' = insertAuditLog db' \<lparr>au_workspaceId = ws, au_actorUserId = a,
                   au_action = js ''workspace_member.role_changed'',
                   au_metadata = [(js ''targetUserId'', t),
                                  (js ''previousRole'', roleText rt),
                                  (js ''role'', roleText (ofMemberRole req))]\<rparr>
            in bindE (persistedWorkspaceRole (m_role row)) (\<lambda>r. Inr (db'', (m_userId row, r))))))
      = Inr (db', (u, r))"
    unfolding updateMemberRoleTx_def bindE_Inr lockGovernanceState_Inr persisted_iff
    by (auto split: if_split_asm)
  have t: "memberRow db ws t = Some target" "m_userId target = t"
    using target_Inr [OF wf target] by (auto simp: hitsMember_def)
  have upd: "snd (updateMembershipRole db ws t x) = Some (target\<lparr>m_role := x\<rparr>)" for x
    by (simp add: updateMembershipRole_returns t)
  show ?thesis
  proof (rule that)
    show "memberRole db ws a = Some (mv_role actor)"
      using actor_Inr [OF wf actor] by simp
    show "u = t" "r = ofMemberRole req"
      using rest upd t by (auto simp: Let_def split_def split: if_split_asm)
    show "rt = ofMemberRole req \<and> db' = db \<or> rt \<noteq> ofMemberRole req \<and>
      audited db' (fst (updateMembershipRole db ws t (roleText r))) a"
      using rest upd t by (auto simp: Let_def split_def split: if_split_asm)
  qed (use ws cap t rt can in auto)
qed

lemma removeMemberTx_success:
  assumes wf: "gov_wf db" and run: "removeMemberTx a ws t db = Inr (db', b)"
  obtains ra rt row where "ws \<in> set (g_workspaces db)"
    "memberRole db ws a = Some ra" "hasCapability ra workspace_manage_members"
    "memberRow db ws t = Some row" "m_role row = roleText rt" "canRemoveMember ra rt"
    "audited db' (fst (deleteMembership db ws t)) a"
proof -
  let ?ms = "lockMembershipsByWorkspace db ws"
  from run obtain actor target owner rt where ws: "ws \<in> set (g_workspaces db)"
    and actor: "actorMembershipOrThrow ?ms a = Inr actor"
    and cap: "hasCapability (mv_role actor) workspace_manage_members"
    and target: "targetMembershipOrThrow ?ms t = Inr target"
    and rt: "m_role target = roleText rt"
    and can: "canRemoveMember (mv_role actor) rt"
    and e: "audited db' (fst (deleteMembership db ws t)) a"
    unfolding removeMemberTx_def bindE_Inr lockGovernanceState_Inr persisted_iff
    by (auto simp: split_def bindE_Inr split: if_split_asm option.split_asm)
  have "memberRow db ws t = Some target"
    using target_Inr [OF wf target] by simp
  then show ?thesis
    using that [OF ws _ cap _ rt can e] actor_Inr [OF wf actor] by blast
qed

lemma leaveTx_success:
  assumes wf: "gov_wf db" and run: "leaveTx a ws db = Inr (db', b)"
  obtains ra row where "ws \<in> set (g_workspaces db)" "memberRole db ws a = Some ra" "ra \<noteq> Owner"
    "memberRow db ws a = Some row" "m_role row = roleText ra"
    "audited db' (fst (deleteMembership db ws a)) a"
proof -
  let ?ms = "lockMembershipsByWorkspace db ws"
  from run obtain actor owner where ws: "ws \<in> set (g_workspaces db)"
    and actor: "actorMembershipOrThrow ?ms a = Inr actor"
    and owner: "requireExactlyOneOwner ?ms = Inr owner" and neq: "m_userId owner \<noteq> a"
    and e: "audited db' (fst (deleteMembership db ws a)) a"
    unfolding leaveTx_def bindE_Inr lockGovernanceState_Inr
    by (auto simp: split_def bindE_Inr split: if_split_asm option.split_asm)
  obtain row where row: "memberRow db ws a = Some row" and ra: "m_role row = roleText (mv_role actor)"
    using actor_Inr [OF wf actor] by (auto simp: memberRole_def persisted_iff split: option.splits sum.splits)
  have "mv_role actor \<noteq> Owner"
  proof
    assume "mv_role actor = Owner"
    with row ra have "row \<in> set (filter (\<lambda>m. m_role m = js ''owner'') ?ms)"
      by (auto simp: memberRow_Some [OF wf] lockMembershipsByWorkspace_def hitsMember_def)
    with exactlyOneOwner_Inr [OF owner] have "row = owner" by simp
    with row neq show False by (simp add: memberRow_Some [OF wf] hitsMember_def)
  qed
  then show ?thesis
    using that [OF ws _ _ row ra e] actor_Inr [OF wf actor] by blast
qed

lemma transferTx_success:
  assumes wf: "gov_wf db" and run: "transferTx a ws n db = Inr (db', res)"
  obtains rn db2 where "ws \<in> set (g_workspaces db)" "memberRole db ws a = Some Owner"
    "memberRole db ws n = Some rn" "rn \<noteq> Owner"
    "db2 = fst (updateMembershipRole (fst (updateMembershipRole db ws a (js ''admin''))) ws n (js ''owner''))"
    "length (ownersOf db2 ws) = 1"
    "audited db' db2 a" "res = (ws, a, n)"
proof -
  let ?ms = "lockMembershipsByWorkspace db ws"
  from run obtain actor owner target rn resulting where ws: "ws \<in> set (g_workspaces db)"
    and actor: "actorMembershipOrThrow ?ms a = Inr actor"
    and owner: "requireExactlyOneOwner ?ms = Inr owner" and same: "m_userId owner = mv_userId actor"
    and target: "targetMembershipOrThrow ?ms n = Inr target"
    and rn: "m_role target = roleText rn" "rn \<noteq> Owner"
    and after: "requireExactlyOneOwner (listMembershipsByWorkspace
        (fst (updateMembershipRole (fst (updateMembershipRole db ws (m_userId owner) (js ''admin'')))
          ws (m_userId target) (js ''owner''))) ws) = Inr resulting"
    and e: "audited db' (fst (updateMembershipRole (fst (updateMembershipRole db ws
        (m_userId owner) (js ''admin''))) ws (m_userId target) (js ''owner''))) a"
    and res: "res = (ws, m_userId owner, m_userId target)"
    unfolding transferTx_def bindE_Inr lockGovernanceState_Inr persisted_iff
    by (auto simp: split_def bindE_Inr persisted_iff split: if_split_asm)
  have n: "memberRow db ws n = Some target" "m_userId target = n"
    using target_Inr [OF wf target] by (auto simp: hitsMember_def)
  have a: "m_userId owner = a" and ra: "memberRole db ws a = Some (mv_role actor)"
    using actor_Inr [OF wf actor] same by auto
  have "owner \<in> set ?ms \<and> m_role owner = js ''owner''"
    using exactlyOneOwner_Inr [OF owner] by (auto simp: filter_eq_Cons_iff)
  then have "memberRow db ws a = Some owner" "m_role owner = roleText Owner"
    using a by (auto simp: memberRow_Some [OF wf] lockMembershipsByWorkspace_def hitsMember_def)
  then have "memberRole db ws a = Some Owner" by (rule memberRole_row)
  moreover have "length (ownersOf (fst (updateMembershipRole (fst (updateMembershipRole db ws a
      (js ''admin''))) ws n (js ''owner''))) ws) = 1"
    using exactlyOneOwner_Inr [OF after] a n(2)
    by (simp add: ownersOf_def listMembershipsByWorkspace_def conj_commute)
  ultimately show ?thesis
    using that [OF ws _ memberRole_row [OF n(1) rn(1)] rn(2) refl] e res a n(2) by simp
qed

subsection \<open>Runs of the system\<close>

text \<open>
  One step is one governance request of any actor on any workspace, with any input; its state
  is the database it leaves. The requests of one workspace run one after another: each locks
  the workspace row first.
\<close>

inductive gov_step :: "gdb \<Rightarrow> gdb \<Rightarrow> bool" where
  change: "gov_step db (fst (updateWorkspaceMemberRole a ws t r db))"
| remove: "gov_step db (fst (removeWorkspaceMember a ws t db))"
| leave: "gov_step db (fst (leaveWorkspace a ws db))"
| transfer: "gov_step db (fst (transferWorkspaceOwnership a ws n db))"

inductive gov_run :: "gdb \<Rightarrow> gdb \<Rightarrow> bool" where
  init: "gov_run db db"
| step: "gov_run db db' \<Longrightarrow> gov_step db' db'' \<Longrightarrow> gov_run db db''"

definition gov_inv :: "gdb \<Rightarrow> bool" where
  "gov_inv db \<longleftrightarrow> gov_wf db \<and> one_owner db"

lemma gov_invI:
  assumes "gov_inv db" and "gov_wf db'" and "g_workspaces db' = g_workspaces db"
    and "\<And>ws. ws \<in> set (g_workspaces db) \<Longrightarrow> length (ownersOf db' ws) = length (ownersOf db ws)"
  shows "gov_inv db'"
  using assms by (simp add: gov_inv_def one_owner_def)

lemma audited_frame:
  assumes "audited db' db a"
  shows "gov_wf db' = gov_wf db" "g_workspaces db' = g_workspaces db" "g_members db' = g_members db"
    "ownersOf db' ws = ownersOf db ws" "memberRole db' ws u = memberRole db ws u"
  using assms by (auto simp: audited_def)

lemma transaction_cases:
  obtains (rollback) e where "transaction f db = (db, Inl e)"
  | (commit) db' r where "f db = Inr (db', r)" "transaction f db = (db', Inr r)"
  by (auto simp: transaction_def split: sum.splits) (cases "f db"; auto)

lemma canChange_not_owner: "canChangeMemberRole ra rt req \<Longrightarrow> rt \<noteq> Owner"
  by (auto simp: canChangeMemberRole_def split: if_splits)

lemma canChange_ranks:
  "canChangeMemberRole ra rt req \<Longrightarrow>
   ROLE_RANK rt < ROLE_RANK ra \<and> ROLE_RANK (ofMemberRole req) < ROLE_RANK ra"
  by (cases ra; cases rt; cases req) (simp_all add: canChangeMemberRole_def)

lemma canRemove_not_owner: "canRemoveMember ra rt \<Longrightarrow> rt \<noteq> Owner"
  by (auto simp: canRemoveMember_def split: if_splits)

lemma updateWorkspaceMemberRole_inv [inv_intro]:
  assumes inv: "gov_inv db"
  shows "gov_inv (fst (updateWorkspaceMemberRole a ws t input db))"
proof (cases "parseMemberRole input")
  case None
  with inv show ?thesis by (simp add: updateWorkspaceMemberRole_def)
next
  case (Some req)
  have wf: "gov_wf db" using inv by (simp add: gov_inv_def)
  have eq: "fst (updateWorkspaceMemberRole a ws t input db) =
      fst (transaction (updateMemberRoleTx a ws t req) db)"
    using Some by (simp add: updateWorkspaceMemberRole_def split_def)
  show ?thesis
  proof (cases rule: transaction_cases [of "updateMemberRoleTx a ws t req" db])
    case rollback
    with inv eq show ?thesis by simp
  next
    case (commit db' ur)
    obtain u r where "ur = (u, r)" by (cases ur)
    with commit(1) have run: "updateMemberRoleTx a ws t req db = Inr (db', (u, r))" by simp
    show ?thesis
    proof (rule updateMemberRoleTx_success [OF wf run])
      fix ra rt row
      assume row: "memberRow db ws t = Some row" "m_role row = roleText rt"
        and can: "canChangeMemberRole ra rt req" and r: "r = ofMemberRole req"
        and alt: "rt = ofMemberRole req \<and> db' = db \<or> rt \<noteq> ofMemberRole req \<and>
          audited db' (fst (updateMembershipRole db ws t (roleText r))) a"
      have "roleText r \<noteq> js ''owner''" using r by (simp add: roleText_owner)
      note owners = ownersOf_update_other [OF wf row(1) not_owner_role [OF row(2) canChange_not_owner [OF can]] this]
      from alt have "gov_inv db'"
      proof (elim disjE conjE)
        assume "audited db' (fst (updateMembershipRole db ws t (roleText r))) a"
        from audited_frame [OF this] show ?thesis
          by (intro gov_invI [OF inv]) (simp_all add: gov_wf_update [OF wf] owners)
      qed (simp add: inv)
      with eq commit(2) show ?thesis by simp
    qed
  qed
qed

lemma deletion_inv:
  assumes "gov_inv db" and "audited db' (fst (deleteMembership db ws u)) a"
    and "memberRow db ws u = Some row" and "m_role row = roleText r" and "r \<noteq> Owner"
  shows "gov_inv db'"
proof -
  have wf: "gov_wf db" using assms(1) by (simp add: gov_inv_def)
  show ?thesis
    by (intro gov_invI [OF assms(1)])
       (simp_all add: audited_frame [OF assms(2)] gov_wf_delete [OF wf]
         ownersOf_delete_other [OF wf assms(3) not_owner_role [OF assms(4,5)]])
qed

lemma removeWorkspaceMember_inv [inv_intro]:
  assumes inv: "gov_inv db"
  shows "gov_inv (fst (removeWorkspaceMember a ws t db))"
proof (cases rule: transaction_cases [of "removeMemberTx a ws t" db])
  case rollback
  with inv show ?thesis by (simp add: removeWorkspaceMember_def)
next
  case (commit db' b)
  have wf: "gov_wf db" using inv by (simp add: gov_inv_def)
  have "gov_inv db'"
    by (rule removeMemberTx_success [OF wf commit(1)])
       (rule deletion_inv [OF inv _ _ _ canRemove_not_owner])
  with commit(2) show ?thesis by (simp add: removeWorkspaceMember_def)
qed

lemma leaveWorkspace_inv [inv_intro]:
  assumes inv: "gov_inv db"
  shows "gov_inv (fst (leaveWorkspace a ws db))"
proof (cases rule: transaction_cases [of "leaveTx a ws" db])
  case rollback
  with inv show ?thesis by (simp add: leaveWorkspace_def)
next
  case (commit db' b)
  have wf: "gov_wf db" using inv by (simp add: gov_inv_def)
  have "gov_inv db'"
    by (rule leaveTx_success [OF wf commit(1)]) (rule deletion_inv [OF inv])
  with commit(2) show ?thesis by (simp add: leaveWorkspace_def)
qed

lemma transferWorkspaceOwnership_inv [inv_intro]:
  assumes inv: "gov_inv db"
  shows "gov_inv (fst (transferWorkspaceOwnership a ws n db))"
proof (cases rule: transaction_cases [of "transferTx a ws n" db])
  case rollback
  with inv show ?thesis by (simp add: transferWorkspaceOwnership_def)
next
  case (commit db' res)
  have wf: "gov_wf db" using inv by (simp add: gov_inv_def)
  define db2 where db2:
    "db2 = fst (updateMembershipRole (fst (updateMembershipRole db ws a (js ''admin''))) ws n (js ''owner''))"
  have one: "length (ownersOf db2 ws) = 1" and au: "audited db' db2 a"
    by (rule transferTx_success [OF wf commit(1)]; simp add: db2)+
  have "gov_wf db2"
    using gov_wf_update [OF gov_wf_update [OF wf, of ws a Admin], of ws n Owner] db2 by simp
  moreover have "length (ownersOf db2 w) = length (ownersOf db w)" if "w \<in> set (g_workspaces db)" for w
    using that one inv ownersOf_other_workspace db2
    by (cases "w = ws") (auto simp: gov_inv_def one_owner_def)
  moreover have "g_workspaces db2 = g_workspaces db" using db2 by simp
  ultimately have "gov_inv db'"
    by (intro gov_invI [OF inv]) (simp_all add: audited_frame [OF au])
  with commit(2) show ?thesis by (simp add: transferWorkspaceOwnership_def)
qed

lemma gov_step_inv: "gov_step db db' \<Longrightarrow> gov_inv db \<Longrightarrow> gov_inv db'"
  by (induction rule: gov_step.induct) (blast intro: inv_intro)+

subsection \<open>Properties\<close>

text \<open>A workspace with an owner \<open>o\<close>, an admin \<open>a\<close> and a member \<open>m\<close>, for the witnesses.\<close>

definition demo_gdb :: gdb where
  "demo_gdb = \<lparr>g_workspaces = [js ''w''],
     g_members = [\<lparr>m_id = js ''1'', m_workspaceId = js ''w'', m_userId = js ''o'', m_role = roleText Owner\<rparr>,
                  \<lparr>m_id = js ''2'', m_workspaceId = js ''w'', m_userId = js ''a'', m_role = roleText Admin\<rparr>,
                  \<lparr>m_id = js ''3'', m_workspaceId = js ''w'', m_userId = js ''m'', m_role = roleText Member\<rparr>],
     g_users = [\<lparr>u_id = js ''m'', u_name = js ''M'', u_email = js ''m@x.y''\<rparr>], g_audit = []\<rparr>"

lemma demo_gdb_inv: "gov_inv demo_gdb"
  by (simp add: gov_inv_def gov_wf_def one_owner_def ownersOf_def demo_gdb_def ex_role_iff)
     (simp add: js_eval)

lemmas gov_eval = demo_gdb_def transaction_def lockGovernanceState_def lockWorkspaceById_def
  lockMembershipsByWorkspace_def listMembershipsByWorkspace_def firstRow_def
  actorMembershipOrThrow_def targetMembershipOrThrow_def membershipForUser_def membershipView_def
  persistedWorkspaceRole_def requireWorkspaceCapability_def hasCapability_def
  requireExactlyOneOwner_def isOwnerRow_def updateMembershipRole_def deleteMembership_def
  hitsMember_def ownersExcept_def insertAuditLog_def memberRole_def memberRow_def parseMemberRole_def
  canChangeMemberRole_def memberDto_def js_eval

text \<open>
  C3: from any database that satisfies the schema's constraints and where every workspace has
  exactly one owner, every sequence of role changes, removals, departures and ownership
  transfers, by any actors with any inputs, leaves every workspace with exactly one owner.
\<close>

theorem governance_keeps_exactly_one_owner:
  assumes "gov_run db0 db" and "gov_wf db0" and "one_owner db0"
  shows "gov_wf db \<and> one_owner db"
proof -
  have "gov_inv db0 \<Longrightarrow> gov_inv db"
    using assms(1) by (induction rule: gov_run.induct) (auto intro: gov_step_inv)
  with assms(2,3) show ?thesis by (simp add: gov_inv_def)
qed

theorem governance_keeps_exactly_one_owner_witness:
  "let db = fst (transferWorkspaceOwnership (js ''o'') (js ''w'') (js ''m'') demo_gdb)
   in gov_wf db \<and> one_owner db \<and> g_members db \<noteq> g_members demo_gdb"
proof -
  have run: "gov_run demo_gdb (fst (transferWorkspaceOwnership (js ''o'') (js ''w'') (js ''m'') demo_gdb))"
    by (rule gov_run.step [OF gov_run.init gov_step.transfer])
  have "g_members (fst (transferWorkspaceOwnership (js ''o'') (js ''w'') (js ''m'') demo_gdb)) \<noteq> g_members demo_gdb"
    by (simp add: transferWorkspaceOwnership_def transferTx_def gov_eval)
  with governance_keeps_exactly_one_owner [OF run] demo_gdb_inv show ?thesis
    by (simp add: gov_inv_def Let_def)
qed

text \<open>
  C22: a role change that succeeds is exactly the update of one entry of the role table, made by
  an actor who outranks both the target's old role and the role granted, and it leaves every
  other membership of every workspace as it was.
\<close>

theorem role_change_refines_and_respects_rank:
  assumes wf: "gov_wf db"
    and run: "updateWorkspaceMemberRole a ws t input db = (db', Inr member)"
  shows "\<exists>ra rt. memberRole db ws a = Some ra \<and> memberRole db ws t = Some rt
     \<and> ROLE_RANK rt < ROLE_RANK ra \<and> ROLE_RANK (wm_role member) < ROLE_RANK ra
     \<and> (\<forall>ws' u. memberRole db' ws' u =
          (if ws' = ws \<and> u = t then Some (wm_role member) else memberRole db ws' u))"
proof -
  from run obtain req where req: "parseMemberRole input = Some req"
    by (auto simp: updateWorkspaceMemberRole_def split: option.splits)
  from run req obtain u r where "transaction (updateMemberRoleTx a ws t req) db = (db', Inr (u, r))"
    and dto: "memberDto db' u r = Inr member"
    by (auto simp: updateWorkspaceMemberRole_def bindE_Inr split: prod.splits)
  then have tx: "updateMemberRoleTx a ws t req db = Inr (db', (u, r))"
    by (auto simp: transaction_def split: sum.splits)
  have wm: "wm_role member = r"
    using dto by (auto simp: memberDto_def split: option.splits)
  show ?thesis
  proof (rule updateMemberRoleTx_success [OF wf tx])
    fix ra rt row
    assume ra: "memberRole db ws a = Some ra" and row: "memberRow db ws t = Some row" "m_role row = roleText rt"
      and can: "canChangeMemberRole ra rt req" and r: "r = ofMemberRole req"
      and alt: "rt = ofMemberRole req \<and> db' = db \<or> rt \<noteq> ofMemberRole req \<and>
        audited db' (fst (updateMembershipRole db ws t (roleText r))) a"
    have rt: "memberRole db ws t = Some rt" by (rule memberRole_row [OF row])
    have ranks: "ROLE_RANK rt < ROLE_RANK ra" "ROLE_RANK r < ROLE_RANK ra"
      using canChange_ranks [OF can] r by simp_all
    from alt have "memberRole db' ws' u' = (if ws' = ws \<and> u' = t then Some r else memberRole db ws' u')" for ws' u'
      using rt r row(1) by (auto simp: audited_frame memberRole_update)
    with ra rt ranks wm show ?thesis by blast
  qed
qed

theorem role_change_refines_and_respects_rank_witness:
  "\<exists>db' member ra rt.
     updateWorkspaceMemberRole (js ''o'') (js ''w'') (js ''m'') (js ''admin'') demo_gdb = (db', Inr member)
     \<and> memberRole demo_gdb (js ''w'') (js ''o'') = Some ra \<and> memberRole demo_gdb (js ''w'') (js ''m'') = Some rt
     \<and> ROLE_RANK rt < ROLE_RANK ra \<and> ROLE_RANK (wm_role member) < ROLE_RANK ra
     \<and> memberRole db' (js ''w'') (js ''m'') = Some (wm_role member)"
proof -
  have "\<exists>db' member. updateWorkspaceMemberRole (js ''o'') (js ''w'') (js ''m'') (js ''admin'') demo_gdb = (db', Inr member)"
    by (simp add: updateWorkspaceMemberRole_def updateMemberRoleTx_def gov_eval)
  then obtain db' member where run:
    "updateWorkspaceMemberRole (js ''o'') (js ''w'') (js ''m'') (js ''admin'') demo_gdb = (db', Inr member)"
    by blast
  have "gov_wf demo_gdb" using demo_gdb_inv by (simp add: gov_inv_def)
  from role_change_refines_and_respects_rank [OF this run] show ?thesis
    using run by auto
qed



end
