(* ===== verification/Breadcrumbs.thy ===== *)
theory Breadcrumbs
  imports Prelude
begin

text \<open>
  The SDK's breadcrumb ring buffer (\<open>packages/sdk/src/breadcrumbs.ts\<close>). The interface that the
  rest of the SDK relies on, a bounded log that keeps the newest entries in order, is the
  locale \<open>bounded_log\<close>; the ring buffer's operations interpret it.
\<close>

subsection \<open>The interface\<close>

locale bounded_log =
  fixes empty_log :: 'q
    and add_entry :: "'q \<Rightarrow> 'a \<Rightarrow> 'q"
    and entries :: "'q \<Rightarrow> 'a list"
    and lost :: "'q \<Rightarrow> nat"
    and cap :: nat
    and invar :: "'q \<Rightarrow> bool"
  assumes invar_empty: "invar empty_log"
    and entries_empty: "entries empty_log = []"
    and lost_empty: "lost empty_log = 0"
    and invar_add: "invar q \<Longrightarrow> invar (add_entry q x)"
    and entries_add: "invar q \<Longrightarrow> entries (add_entry q x) = lastn cap (entries q @ [x])"
    and lost_add: "invar q \<Longrightarrow>
      lost (add_entry q x) = lost q + (if length (entries q) < cap then 0 else 1)"
    and entries_bound: "invar q \<Longrightarrow> length (entries q) \<le> cap"
    and cap_pos: "0 < cap"
begin

lemma invar_fold: "invar (foldl add_entry empty_log xs)"
  by (induction xs rule: rev_induct) (auto simp: invar_empty invar_add)

lemma entries_fold: "entries (foldl add_entry empty_log xs) = lastn cap xs"
proof (induction xs rule: rev_induct)
  case Nil
  show ?case by (simp add: entries_empty)
next
  case (snoc x xs)
  then show ?case
    using cap_pos by (simp add: entries_add [OF invar_fold] lastn_snoc lastn_lastn)
qed

lemma lost_fold: "lost (foldl add_entry empty_log xs) = length xs - cap"
  by (induction xs rule: rev_induct) (auto simp: lost_empty lost_add [OF invar_fold] entries_fold)

end

subsection \<open>The ring buffer\<close>

record 'a BreadcrumbBuffer =
  buffer :: "'a option list"
  capacity :: nat
  head :: nat
  bsize :: nat
  dropped :: nat

definition newBuffer :: "nat \<Rightarrow> 'a BreadcrumbBuffer" where
  "newBuffer cap = \<lparr>buffer = replicate (max 1 cap) None, capacity = max 1 cap,
     head = 0, bsize = 0, dropped = 0\<rparr>"

definition add :: "'a BreadcrumbBuffer \<Rightarrow> 'a \<Rightarrow> 'a BreadcrumbBuffer" where
  "add b crumb =
     (let b1 = b\<lparr>buffer := (buffer b)[head b := Some crumb], head := (head b + 1) mod capacity b\<rparr>
      in if bsize b1 < capacity b1 then b1\<lparr>bsize := bsize b1 + 1\<rparr>
         else b1\<lparr>dropped := dropped b1 + 1\<rparr>)"

text \<open>
  \<open>getAll\<close> allocates a result array and fills the slots whose crumb is not null: the option
  of a slot is what the array holds there. \<open>filled\<close> reads the array as a list.
\<close>

definition getAllSlots :: "'a BreadcrumbBuffer \<Rightarrow> 'a option list" where
  "getAllSlots b =
     (if bsize b = 0 then []
      else let start = (head b + capacity b - bsize b) mod capacity b
           in map (\<lambda>i. buffer b ! ((start + i) mod capacity b)) [0..<bsize b])"

definition getAll :: "'a BreadcrumbBuffer \<Rightarrow> 'a list" where
  "getAll b = map the (getAllSlots b)"

definition getRecent :: "'a BreadcrumbBuffer \<Rightarrow> nat \<Rightarrow> 'a list" where
  "getRecent b count =
     (let all = getAll b; k = min count (length all)
      in if k = 0 then all else lastn k all)"

definition clear :: "'a BreadcrumbBuffer \<Rightarrow> 'a BreadcrumbBuffer" where
  "clear b = b\<lparr>buffer := replicate (length (buffer b)) None, head := 0, bsize := 0, dropped := 0\<rparr>"

definition getSize :: "'a BreadcrumbBuffer \<Rightarrow> nat" where "getSize b = bsize b"
definition getCapacity :: "'a BreadcrumbBuffer \<Rightarrow> nat" where "getCapacity b = capacity b"
definition getDroppedCount :: "'a BreadcrumbBuffer \<Rightarrow> nat" where "getDroppedCount b = dropped b"

definition resetDroppedCount :: "'a BreadcrumbBuffer \<Rightarrow> 'a BreadcrumbBuffer" where
  "resetDroppedCount b = b\<lparr>dropped := 0\<rparr>"

subsection \<open>The representation\<close>

text \<open>
  The slot of the \<open>i\<close>-th newest entry is \<open>head - i\<close> modulo the capacity. The invariant says
  the indices are in range and the \<open>bsize\<close> slots behind \<open>head\<close> are filled.
\<close>

definition slot :: "'a BreadcrumbBuffer \<Rightarrow> nat \<Rightarrow> nat" where
  "slot b i = (head b + capacity b - bsize b + i) mod capacity b"

definition ring_inv :: "'a BreadcrumbBuffer \<Rightarrow> bool" where
  "ring_inv b \<longleftrightarrow> 0 < capacity b \<and> length (buffer b) = capacity b \<and> head b < capacity b
     \<and> bsize b \<le> capacity b \<and> (\<forall>i < bsize b. buffer b ! slot b i \<noteq> None)"

lemma getAllSlots_slot: "getAllSlots b = map (\<lambda>i. buffer b ! slot b i) [0..<bsize b]"
  by (simp add: getAllSlots_def slot_def mod_add_left_eq)

lemma ring_inv_new [simp]: "ring_inv (newBuffer cap)"
  by (simp add: ring_inv_def newBuffer_def)

lemma slot_add:
  assumes "ring_inv b" "i < bsize (add b x)"
  shows "slot (add b x) i =
     (if bsize b < capacity b then (if i < bsize b then slot b i else head b)
      else (if i + 1 < bsize b then slot b (i + 1) else head b))"
proof -
  have h: "head b < capacity b" "bsize b \<le> capacity b" "0 < capacity b"
    using assms(1) by (auto simp: ring_inv_def)
  show ?thesis
  proof (cases "bsize b < capacity b")
    case True
    have "((head b + 1) mod capacity b + capacity b - (bsize b + 1) + i) mod capacity b
        = (head b + capacity b - bsize b + i) mod capacity b"
    proof (cases "head b + 1 = capacity b")
      case wrap: True
      then have "head b + capacity b - bsize b + i = capacity b - (bsize b + 1) + i + capacity b"
        using True by simp
      moreover have "(head b + 1) mod capacity b = 0" using wrap by simp
      ultimately show ?thesis by (metis add_0 mod_add_self2)
    next
      case False
      with h True show ?thesis by simp
    qed
    moreover have "(head b + capacity b - bsize b + bsize b) mod capacity b = head b"
      using h by simp
    ultimately show ?thesis
      using True assms(2) by (auto simp: add_def slot_def Let_def less_Suc_eq)
  next
    case False
    then have full: "bsize b = capacity b" using h by simp
    have "((head b + 1) mod capacity b + i) mod capacity b = (head b + (i + 1)) mod capacity b"
      by (simp add: mod_add_left_eq)
    moreover have "i < capacity b"
      using assms(2) full by (simp add: add_def Let_def)
    then have "(head b + (i + 1)) mod capacity b = head b" if "\<not> i + 1 < capacity b"
      using that h by (metis Suc_eq_plus1 linorder_neqE_nat mod_add_self2 mod_less not_less_eq)
    ultimately show ?thesis
      using False full by (simp add: add_def slot_def Let_def)
  qed
qed

lemma buffer_slot_add:
  assumes inv: "ring_inv b" and i: "i < bsize (add b x)"
  shows "buffer (add b x) ! slot (add b x) i =
     (if bsize b < capacity b then (if i < bsize b then buffer b ! slot b i else Some x)
      else (if i + 1 < bsize b then buffer b ! slot b (i + 1) else Some x))"
proof -
  have h: "head b < capacity b" "bsize b \<le> capacity b" "0 < capacity b" "length (buffer b) = capacity b"
    using inv by (auto simp: ring_inv_def)
  have buf: "buffer (add b x) = (buffer b)[head b := Some x]"
    by (simp add: add_def Let_def)
  have ne: "slot b j \<noteq> head b" if "j < bsize b" "bsize b < capacity b \<or> 0 < j" for j
  proof
    assume "slot b j = head b"
    then have "(head b + (capacity b - bsize b + j)) mod capacity b = head b mod capacity b"
      using h unfolding slot_def by (metis Nat.add_diff_assoc add.assoc mod_less)
    then have "capacity b dvd capacity b - bsize b + j"
      by (simp add: mod_eq_dvd_iff_nat)
    moreover have "0 < capacity b - bsize b + j" "capacity b - bsize b + j < capacity b"
      using that h by auto
    ultimately show False by (simp add: nat_dvd_not_less)
  qed
  have lt: "slot b j < capacity b" for j using h by (simp add: slot_def)
  show ?thesis
    unfolding slot_add [OF inv i] buf using ne [THEN not_sym] lt h i by auto
qed

lemma ring_inv_add:
  assumes inv: "ring_inv b"
  shows "ring_inv (add b x)"
proof -
  have "buffer (add b x) ! slot (add b x) i \<noteq> None" if "i < bsize (add b x)" for i
    using inv that unfolding buffer_slot_add [OF inv that] ring_inv_def
    by (auto simp: add_def Let_def split: if_splits)
  with inv show ?thesis
    by (auto simp: ring_inv_def add_def Let_def)
qed

lemma getAll_nth: "getAll b = map (\<lambda>i. the (buffer b ! slot b i)) [0..<bsize b]"
  by (simp add: getAll_def getAllSlots_slot)

lemma getAll_add:
  assumes inv: "ring_inv b"
  shows "getAll (add b x) = lastn (capacity b) (getAll b @ [x])"
proof (cases "bsize b < capacity b")
  case True
  then have sz: "bsize (add b x) = Suc (bsize b)" by (simp add: add_def Let_def)
  have "getAll (add b x) = map (\<lambda>i. the (buffer (add b x) ! slot (add b x) i)) ([0..<bsize b] @ [bsize b])"
    by (simp add: getAll_nth sz)
  also have "\<dots> = getAll b @ [x]"
    using True by (simp add: getAll_nth buffer_slot_add [OF inv] sz)
  finally show ?thesis using True by (simp add: getAll_nth)
next
  case False
  with inv have full: "bsize b = capacity b" and pos: "0 < capacity b"
    by (auto simp: ring_inv_def)
  have sz: "bsize (add b x) = bsize b" using False by (simp add: add_def Let_def)
  obtain n where n: "bsize b = Suc n" using full pos gr0_implies_Suc by metis
  have "map Suc [0..<n] = tl [0..<bsize b]"
    by (simp only: map_Suc_upt tl_upt n One_nat_def)
  moreover have "map (\<lambda>i. the (buffer b ! slot b (i + 1))) [0..<n] =
      map (\<lambda>i. the (buffer b ! slot b i)) (map Suc [0..<n])"
    by simp
  ultimately have tl: "map (\<lambda>i. the (buffer b ! slot b (i + 1))) [0..<n] = tl (getAll b)"
    by (simp only: getAll_nth map_tl)
  have "getAll (add b x) = map (\<lambda>i. the (buffer (add b x) ! slot (add b x) i)) ([0..<n] @ [n])"
    by (simp add: getAll_nth sz n)
  also have "\<dots> = map (\<lambda>i. the (buffer b ! slot b (i + 1))) [0..<n] @ [x]"
    using False by (simp add: buffer_slot_add [OF inv] sz n)
  also have "\<dots> = tl (getAll b) @ [x]"
    by (simp only: tl)
  also have "\<dots> = lastn (capacity b) (getAll b @ [x])"
    using full n by (simp add: lastn_def getAll_nth drop_Suc map_tl [symmetric])
  finally show ?thesis .
qed

interpretation crumbs: bounded_log "newBuffer cap" add getAll getDroppedCount "max 1 cap"
    "\<lambda>b. ring_inv b \<and> capacity b = max 1 cap" for cap
proof unfold_locales
  fix q :: "'a BreadcrumbBuffer" and x
  assume q: "ring_inv q \<and> capacity q = max 1 cap"
  show "ring_inv (add q x) \<and> capacity (add q x) = max 1 cap"
    using q by (simp add: ring_inv_add) (simp add: add_def Let_def)
  show "getAll (add q x) = lastn (max 1 cap) (getAll q @ [x])"
    using q getAll_add by metis
  show "getDroppedCount (add q x) =
      getDroppedCount q + (if length (getAll q) < max 1 cap then 0 else 1)"
    using q by (simp add: getDroppedCount_def getAll_nth add_def Let_def)
  show "length (getAll q) \<le> max 1 cap"
    using q by (simp add: getAll_nth ring_inv_def)
next
  show "ring_inv (newBuffer cap) \<and> capacity (newBuffer cap) = max 1 cap"
    by simp (simp add: newBuffer_def)
qed (simp_all add: getAll_def getAllSlots_def getDroppedCount_def newBuffer_def)

lemma ring_inv_clear [inv_intro]: "ring_inv b \<Longrightarrow> ring_inv (clear b)"
  by (simp add: ring_inv_def clear_def)

lemma clear_as_new: "ring_inv b \<Longrightarrow> clear b = newBuffer (capacity b)"
  by (auto simp: clear_def newBuffer_def ring_inv_def max_def)

subsection \<open>Creating a breadcrumb\<close>

datatype CrumbType = crumb_navigation | crumb_click | crumb_input | crumb_network
  | crumb_console | crumb_custom | crumb_sdk

datatype CrumbLevel = level_debug | level_info | level_warning | level_error | level_critical

text \<open>Optional fields are options; \<open>'d\<close> is the type of the \<open>unknown\<close> data and payload values.\<close>

record 'd Breadcrumb =
  bc_timestamp :: jstr
  bc_type :: CrumbType
  bc_category :: "jstr option"
  bc_message :: "jstr option"
  bc_data :: "'d option"
  bc_level :: CrumbLevel
  bc_event_type :: "jstr option"
  bc_payload :: "'d option"

record 'd PartialBreadcrumb =
  pb_category :: "jstr option"
  pb_message :: "jstr option"
  pb_data :: "'d option"
  pb_level :: "CrumbLevel option"
  pb_event_type :: "jstr option"
  pb_payload :: "'d option"

definition createBreadcrumb :: "jstr \<Rightarrow> CrumbType \<Rightarrow> 'd PartialBreadcrumb \<Rightarrow> 'd Breadcrumb" where
  "createBreadcrumb now_iso type d =
     \<lparr>bc_timestamp = now_iso, bc_type = type, bc_category = pb_category d,
      bc_message = pb_message d, bc_data = pb_data d,
      bc_level = (case pb_level d of None \<Rightarrow> level_info | Some l \<Rightarrow> l),
      bc_event_type = pb_event_type d, bc_payload = pb_payload d\<rparr>"

subsection \<open>Properties\<close>

text \<open>
  C39: whatever sequence of breadcrumbs is added to a new buffer, reading it back gives the
  newest \<open>capacity\<close> of them in the order they were added, every slot read is filled, and the
  drop counter is exactly the number of breadcrumbs that were overwritten.
\<close>

theorem ring_buffer_keeps_newest:
  "getAll (foldl add (newBuffer cap) xs) = lastn (max 1 cap) xs
   \<and> None \<notin> set (getAllSlots (foldl add (newBuffer cap) xs))
   \<and> getDroppedCount (foldl add (newBuffer cap) xs) = length xs - max 1 cap"
proof -
  have "ring_inv (foldl add (newBuffer cap) xs)"
    using crumbs.invar_fold [of cap xs] by simp
  then have "None \<notin> set (getAllSlots (foldl add (newBuffer cap) xs))"
    by (auto simp: getAllSlots_slot ring_inv_def)
  then show ?thesis
    using crumbs.entries_fold [of cap xs] crumbs.lost_fold [of cap xs] by simp
qed

text \<open>
  \<open>getRecent n\<close> is the newest \<open>n\<close> entries for every positive \<open>n\<close>; for \<open>n = 0\<close> it is
  not the empty list but the whole buffer, because \<open>slice(-0)\<close> is \<open>slice(0)\<close>.
\<close>

theorem getRecent_recent_or_all:
  "getRecent b n = (if n = 0 then getAll b else lastn n (getAll b))"
  by (cases "length (getAll b) \<le> n") (auto simp: getRecent_def Let_def min_def)

end
