(* ===== verification/EventQueue.thy ===== *)
theory EventQueue
  imports Complex_Main Breadcrumbs "HOL-Library.Multiset" "HOL-Library.Sublist"
begin

text \<open>
  The SDK's in-memory event queue (\<open>packages/sdk/src/queue.ts\<close>): batching, flushing with
  retries, and shutdown. The class runs on one JavaScript thread, so what is interleaved is the
  synchronous code between two \<open>await\<close>s: every such piece is one function on the queue's state,
  and a suspended \<open>flush()\<close> or \<open>close()\<close> is a field that holds its local variables.
\<close>

subsection \<open>Configuration\<close>

record RetryConfig =
  maxAttempts :: nat
  baseDelayMs :: rat
  maxDelayMs :: rat
  jitterFactor :: rat
  retryableStatuses :: "int list"

definition DEFAULT_RETRY_CONFIG :: RetryConfig where
  "DEFAULT_RETRY_CONFIG = \<lparr>maxAttempts = 3, baseDelayMs = 500, maxDelayMs = 10000,
     jitterFactor = 1 / 5, retryableStatuses = [408, 429, 500, 502, 503, 504]\<rparr>"

text \<open>\<open>Partial<RetryConfig>\<close>: an absent property is \<open>None\<close>.\<close>

record PartialRetry =
  p_maxAttempts :: "nat option"
  p_baseDelayMs :: "rat option"
  p_maxDelayMs :: "rat option"
  p_jitterFactor :: "rat option"
  p_retryableStatuses :: "int list option"

record QueueConfig =
  o_flushIntervalMs :: "nat option"
  o_maxBatchSize :: "nat option"
  o_maxQueueSize :: "nat option"
  o_immediateFlushTypes :: "jstr list option"
  o_retry :: "PartialRetry option"

record ResolvedQueueConfig =
  flushIntervalMs :: nat
  maxBatchSize :: nat
  maxQueueSize :: nat
  immediateFlushTypes :: "jstr list"
  retry :: RetryConfig

abbreviation orElse :: "'a option \<Rightarrow> 'a \<Rightarrow> 'a" where
  "orElse x d \<equiv> (case x of None \<Rightarrow> d | Some y \<Rightarrow> y)"

definition MAX_BATCH_EVENTS :: nat where "MAX_BATCH_EVENTS = 50"

definition mergeRetry :: "PartialRetry option \<Rightarrow> RetryConfig" where
  "mergeRetry r = (case r of None \<Rightarrow> DEFAULT_RETRY_CONFIG
    | Some p \<Rightarrow> \<lparr>maxAttempts = orElse (p_maxAttempts p) (maxAttempts DEFAULT_RETRY_CONFIG),
        baseDelayMs = orElse (p_baseDelayMs p) (baseDelayMs DEFAULT_RETRY_CONFIG),
        maxDelayMs = orElse (p_maxDelayMs p) (maxDelayMs DEFAULT_RETRY_CONFIG),
        jitterFactor = orElse (p_jitterFactor p) (jitterFactor DEFAULT_RETRY_CONFIG),
        retryableStatuses = orElse (p_retryableStatuses p) (retryableStatuses DEFAULT_RETRY_CONFIG)\<rparr>)"

definition resolveConfig :: "QueueConfig \<Rightarrow> ResolvedQueueConfig" where
  "resolveConfig c = \<lparr>flushIntervalMs = orElse (o_flushIntervalMs c) 3000,
     maxBatchSize = orElse (o_maxBatchSize c) MAX_BATCH_EVENTS,
     maxQueueSize = orElse (o_maxQueueSize c) 1000,
     immediateFlushTypes = orElse (o_immediateFlushTypes c)
       [js ''exception'', js ''unhandled_rejection''],
     retry = mergeRetry (o_retry c)\<rparr>"

subsection \<open>Delays and retryable errors\<close>

text \<open>
  \<open>rnd\<close> is the value of \<open>Math.random()\<close>, in \<open>[0, 1)\<close>. Numbers are exact rationals, where the
  source computes in doubles.
\<close>

definition calculateRetryDelay :: "rat \<Rightarrow> nat \<Rightarrow> RetryConfig \<Rightarrow> int" where
  "calculateRetryDelay rnd attempt config =
     (let exponentialDelay = baseDelayMs config * 2 ^ attempt;
          cappedDelay = min exponentialDelay (maxDelayMs config);
          jitter = cappedDelay * jitterFactor config * (rnd * 2 - 1)
      in max 0 \<lfloor>cappedDelay + jitter\<rfloor>)"

text \<open>What the code reads of a rejection value.\<close>

record SendError =
  isTypeError :: bool
  err_message :: jstr
  err_status :: "int option"
  err_retryAfter :: "jstr option"

definition isRetryable :: "SendError \<Rightarrow> RetryConfig \<Rightarrow> bool" where
  "isRetryable e config =
     (if isTypeError e \<and> includesStr (err_message e) (js ''fetch'') then True
      else case err_status e of
             Some status \<Rightarrow> status \<in> set (retryableStatuses config)
           | None \<Rightarrow> False)"

text \<open>\<open>parseInt(s, 10)\<close>: white space, an optional sign, then the longest run of digits.\<close>

definition digitsValue :: "jstr \<Rightarrow> int" where
  "digitsValue s = foldl (\<lambda>n d. 10 * n + (int d - 48)) 0 s"

definition parseInt10 :: "jstr \<Rightarrow> int option" where
  "parseInt10 s =
     (let t = dropWhile isWs s;
          neg = (t \<noteq> [] \<and> hd t = 45);
          u = (if t \<noteq> [] \<and> (hd t = 45 \<or> hd t = 43) then tl t else t);
          ds = takeWhile isDigit u
      in if ds = [] then None else Some (if neg then - digitsValue ds else digitsValue ds))"

text \<open>\<open>parseDate\<close> is the date parser of \<open>new Date(s).getTime()\<close>, \<open>None\<close> where it gives \<open>NaN\<close>.\<close>

definition parseRetryAfter :: "(jstr \<Rightarrow> int option) \<Rightarrow> int \<Rightarrow> jstr option \<Rightarrow> int option" where
  "parseRetryAfter parseDate now retryAfter =
     (case retryAfter of None \<Rightarrow> None
      | Some s \<Rightarrow>
          if s = [] then None
          else case parseInt10 s of
                 Some seconds \<Rightarrow>
                   if 0 \<le> seconds then Some (seconds * 1000)
                   else (case parseDate s of None \<Rightarrow> None
                         | Some t \<Rightarrow> if 0 < t - now then Some (t - now) else None)
               | None \<Rightarrow> (case parseDate s of None \<Rightarrow> None
                         | Some t \<Rightarrow> if 0 < t - now then Some (t - now) else None))"

text \<open>The delay before the next attempt: the server's \<open>Retry-After\<close>, capped, or the backoff.\<close>

definition retryDelay ::
    "(jstr \<Rightarrow> int option) \<Rightarrow> int \<Rightarrow> rat \<Rightarrow> SendError \<Rightarrow> nat \<Rightarrow> RetryConfig \<Rightarrow> rat" where
  "retryDelay parseDate now rnd e attempt config =
     (case parseRetryAfter parseDate now (err_retryAfter e) of
        Some d \<Rightarrow> min (of_int d) (maxDelayMs config)
      | None \<Rightarrow> of_int (calculateRetryDelay rnd attempt config))"

subsection \<open>Events and batches\<close>

record 'd ClientEvent =
  event_id :: jstr
  sequence_number :: nat
  event_type :: jstr
  ev_timestamp :: jstr
  ev_tags :: "(jstr \<times> jstr) list"
  ev_context :: 'd
  ev_breadcrumbs :: "'d Breadcrumb list"
  ev_payload :: 'd

record 'd QueuedEvent =
  event :: "'d ClientEvent"
  attempts :: nat
  addedAt :: int

record TransportResult =
  accepted :: nat
  duplicate :: nat
  rejected :: nat
  request_id :: jstr

datatype DeviceType = dev_desktop | dev_mobile | dev_tablet | dev_unknown

record BrowserMetadata =
  br_name :: "jstr option"
  br_version :: "jstr option"
  br_os_name :: "jstr option"
  br_os_version :: "jstr option"
  br_device_type :: DeviceType
  br_viewport_width :: "nat option"
  br_viewport_height :: "nat option"

record SessionMetadata =
  sdk_session_id :: jstr
  sm_browser :: BrowserMetadata
  initial_url :: jstr

record 'd BatchPayload =
  protocol_version :: nat
  sdk_name :: jstr
  sdk_version :: jstr
  session :: SessionMetadata
  events :: "'d ClientEvent list"

definition SDK_VERSION :: jstr where "SDK_VERSION = js ''0.1.0''"
definition SDK_PROTOCOL_VERSION :: nat where "SDK_PROTOCOL_VERSION = 1"
definition SDK_NAME :: jstr where "SDK_NAME = js ''@replaybug/sdk''"

definition buildBatchPayload :: "'d ClientEvent list \<Rightarrow> 'd BatchPayload" where
  "buildBatchPayload evs = \<lparr>protocol_version = SDK_PROTOCOL_VERSION, sdk_name = SDK_NAME,
     sdk_version = SDK_VERSION,
     session = \<lparr>sdk_session_id = js ''placeholder'',
       sm_browser = \<lparr>br_name = None, br_version = None, br_os_name = None, br_os_version = None,
         br_device_type = dev_unknown, br_viewport_width = None, br_viewport_height = None\<rparr>,
       initial_url = []\<rparr>,
     events = evs\<rparr>"

subsection \<open>The queue's state\<close>

text \<open>
  A suspended \<open>flush()\<close> holds its batch and where its \<open>sendWithRetry\<close> stands: waiting for the
  transport, waiting for the delay before another attempt, or about to throw because no attempt
  is allowed. A suspended \<open>close()\<close> holds its deadline and is in the race between a flush and the
  remaining time (the flush being its own or one that returned at once), in the ten-millisecond
  pause, or over.
\<close>

datatype sendPhase = Sending nat | Backoff nat rat | GivingUp

datatype 'd Flight = Flight (batch: "'d QueuedEvent list") (phase: sendPhase)

datatype closePhase = Racing bool | Pausing | Closed | CloseRejected

record Closer =
  deadline :: int
  cphase :: closePhase

record 'd EventQueue =
  queue :: "'d QueuedEvent list"
  flushTimer :: bool
  flight :: "'d Flight option"
  closed :: bool
  closers :: "Closer list"

definition newQueue :: "'d EventQueue" where
  "newQueue = \<lparr>queue = [], flushTimer = False, flight = None, closed = False, closers = []\<rparr>"

text \<open>The flag \<open>processing\<close> is set exactly while a flush is suspended.\<close>

definition processing :: "'d EventQueue \<Rightarrow> bool" where
  "processing s \<longleftrightarrow> flight s \<noteq> None"

definition queueSize :: "'d EventQueue \<Rightarrow> nat" where "queueSize s = length (queue s)"
definition isClosed :: "'d EventQueue \<Rightarrow> bool" where "isClosed s = closed s"

definition scheduleFlush :: "'d EventQueue \<Rightarrow> 'd EventQueue" where
  "scheduleFlush s = (if flushTimer s then s else s\<lparr>flushTimer := True\<rparr>)"

definition sendLoopHead :: "ResolvedQueueConfig \<Rightarrow> nat \<Rightarrow> sendPhase" where
  "sendLoopHead cfg attempt = (if attempt < maxAttempts (retry cfg) then Sending attempt else GivingUp)"

text \<open>\<open>flush()\<close> up to its first \<open>await\<close>; the boolean says whether it started a send.\<close>

definition flush :: "ResolvedQueueConfig \<Rightarrow> 'd EventQueue \<Rightarrow> bool \<times> 'd EventQueue" where
  "flush cfg s =
     (if processing s \<or> queue s = [] then (False, s)
      else if closed s \<and> queue s = [] then (False, s)
      else (True, s\<lparr>flight := Some (Flight (take (maxBatchSize cfg) (queue s)) (sendLoopHead cfg 0)),
                    queue := drop (maxBatchSize cfg) (queue s)\<rparr>))"

text \<open>The \<open>finally\<close> clause of \<open>flush()\<close>.\<close>

definition flushFinally :: "'d EventQueue \<Rightarrow> 'd EventQueue" where
  "flushFinally s =
     (let s1 = s\<lparr>flight := None\<rparr>
      in if queue s1 \<noteq> [] \<and> \<not> flushTimer s1 then scheduleFlush s1 else s1)"

definition settleClosers :: "closePhase \<Rightarrow> Closer list \<Rightarrow> Closer list" where
  "settleClosers p cs = map (\<lambda>c. if cphase c = Racing True then c\<lparr>cphase := p\<rparr> else c) cs"

definition flushSucceeds :: "'d EventQueue \<Rightarrow> 'd EventQueue" where
  "flushSucceeds s = (let s1 = flushFinally s
     in s1\<lparr>closers := settleClosers (Racing False) (closers s1)\<rparr>)"

text \<open>
  The \<open>catch\<close> clause: the batch, reversed, goes back to the front one event at a time, but an
  event that has been through \<open>maxAttempts\<close> flushes is dropped.
\<close>

definition requeue :: "ResolvedQueueConfig \<Rightarrow> 'd QueuedEvent list \<Rightarrow> 'd QueuedEvent list \<Rightarrow> 'd QueuedEvent list" where
  "requeue cfg b q =
     foldl (\<lambda>acc e. let e' = e\<lparr>attempts := attempts e + 1\<rparr>
              in if attempts e' < maxAttempts (retry cfg) then e' # acc else acc) q (rev b)"

definition flushFails :: "ResolvedQueueConfig \<Rightarrow> 'd Flight \<Rightarrow> 'd EventQueue \<Rightarrow> 'd EventQueue" where
  "flushFails cfg f s = (let s1 = flushFinally (s\<lparr>queue := requeue cfg (batch f) (queue s)\<rparr>)
     in s1\<lparr>closers := settleClosers CloseRejected (closers s1)\<rparr>)"

definition enqueue :: "ResolvedQueueConfig \<Rightarrow> int \<Rightarrow> 'd ClientEvent \<Rightarrow> 'd EventQueue \<Rightarrow> bool \<times> 'd EventQueue" where
  "enqueue cfg now ev s =
     (let critical = (\<lambda>e. event_type e \<in> set (immediateFlushTypes cfg));
          push = (\<lambda>s1.
            let s2 = s1\<lparr>queue := queue s1 @ [\<lparr>event = ev, attempts = 0, addedAt = now\<rparr>]\<rparr>
            in (True, if critical ev then snd (flush cfg s2)
                      else if \<not> flushTimer s2 then scheduleFlush s2 else s2))
      in if closed s then (False, s)
         else if maxQueueSize cfg \<le> length (queue s) then
           (let pre = takeWhile (\<lambda>q. critical (event q)) (queue s);
                dropIndex = length pre
            in if dropIndex < length (queue s)
               then push (s\<lparr>queue := take dropIndex (queue s) @ drop (dropIndex + 1) (queue s)\<rparr>)
               else (False, s))
         else push s)"

text \<open>The flush timer's callback.\<close>

definition timerFires :: "ResolvedQueueConfig \<Rightarrow> 'd EventQueue \<Rightarrow> 'd EventQueue" where
  "timerFires cfg s = snd (flush cfg (s\<lparr>flushTimer := False\<rparr>))"

text \<open>The rejection of a send: throw, or wait before the next attempt.\<close>

definition sendRejects ::
    "ResolvedQueueConfig \<Rightarrow> (jstr \<Rightarrow> int option) \<Rightarrow> int \<Rightarrow> rat \<Rightarrow> SendError \<Rightarrow> nat
      \<Rightarrow> 'd Flight \<Rightarrow> 'd EventQueue \<Rightarrow> 'd EventQueue" where
  "sendRejects cfg parseDate now rnd e attempt f s =
     (let isRetryableError = (isRetryable e (retry cfg) \<or>
            (case err_status e of Some st \<Rightarrow> st \<in> set (retryableStatuses (retry cfg)) | None \<Rightarrow> False))
      in if \<not> isRetryableError \<or> int attempt = int (maxAttempts (retry cfg)) - 1 then flushFails cfg f s
         else s\<lparr>flight := Some (Flight (batch f)
                (Backoff attempt (retryDelay parseDate now rnd e attempt (retry cfg))))\<rparr>)"

text \<open>The head of the loop in \<open>close()\<close>: flush and race, or finish.\<close>

definition closeLoop :: "ResolvedQueueConfig \<Rightarrow> int \<Rightarrow> int \<Rightarrow> 'd EventQueue \<Rightarrow> closePhase \<times> 'd EventQueue" where
  "closeLoop cfg now dl s =
     (if queue s \<noteq> [] \<and> now < dl
      then (let (own, s1) = flush cfg s in (Racing own, s1))
      else (Closed, s))"

definition closeQueue :: "ResolvedQueueConfig \<Rightarrow> int \<Rightarrow> int \<Rightarrow> 'd EventQueue \<Rightarrow> 'd EventQueue" where
  "closeQueue cfg now timeoutMs s =
     (let s1 = s\<lparr>closed := True, flushTimer := False\<rparr>;
          dl = now + timeoutMs;
          (p, s2) = closeLoop cfg now dl s1
      in s2\<lparr>closers := closers s2 @ [\<lparr>deadline = dl, cphase = p\<rparr>]\<rparr>)"

text \<open>A suspended \<open>close()\<close> continues: after the race, after the pause, or not yet.\<close>

definition closeWakes :: "ResolvedQueueConfig \<Rightarrow> int \<Rightarrow> nat \<Rightarrow> 'd EventQueue \<Rightarrow> 'd EventQueue option" where
  "closeWakes cfg now i s =
     (if length (closers s) \<le> i then None
      else let c = closers s ! i;
               continue = (\<lambda>_::unit. let (p, s1) = closeLoop cfg now (deadline c) s
                  in Some (s1\<lparr>closers := (closers s1)[i := c\<lparr>cphase := p\<rparr>]\<rparr>))
           in case cphase c of
                Racing own \<Rightarrow>
                  if own \<and> now < deadline c then None
                  else if queue s \<noteq> [] \<and> now < deadline c
                       then Some (s\<lparr>closers := (closers s)[i := c\<lparr>cphase := Pausing\<rparr>]\<rparr>)
                       else continue ()
              | Pausing \<Rightarrow> continue ()
              | Closed \<Rightarrow> None
              | CloseRejected \<Rightarrow> None)"

subsection \<open>Runs\<close>

text \<open>
  What the environment may do next: the host page calls \<open>enqueue\<close>, \<open>flush\<close> or \<open>close\<close>, a timer
  fires, the transport answers. An action is \<open>None\<close> where it cannot happen. Beside the queue a
  run records what it did: the events accepted by \<open>enqueue\<close>, those a successful send delivered,
  those dropped on overflow or after too many flushes, and the batches handed to the transport.
\<close>

datatype 'd qaction =
    Enqueue int "'d ClientEvent"
  | TimerFires
  | FlushCall
  | SendResolves TransportResult
  | SendRejects int rat SendError
  | BackoffOver
  | NoAttemptsLeft
  | CloseCall int int
  | CloseWakes nat int

fun qact :: "ResolvedQueueConfig \<Rightarrow> (jstr \<Rightarrow> int option) \<Rightarrow> 'd qaction \<Rightarrow> 'd EventQueue \<Rightarrow> 'd EventQueue option" where
  "qact cfg pd (Enqueue now ev) s = Some (snd (enqueue cfg now ev s))"
| "qact cfg pd TimerFires s = (if flushTimer s then Some (timerFires cfg s) else None)"
| "qact cfg pd FlushCall s = Some (snd (flush cfg s))"
| "qact cfg pd (SendResolves r) s =
     (case flight s of Some (Flight b (Sending n)) \<Rightarrow> Some (flushSucceeds s) | _ \<Rightarrow> None)"
| "qact cfg pd (SendRejects now rnd e) s =
     (case flight s of Some (Flight b (Sending n)) \<Rightarrow>
          Some (sendRejects cfg pd now rnd e n (Flight b (Sending n)) s) | _ \<Rightarrow> None)"
| "qact cfg pd BackoffOver s =
     (case flight s of Some (Flight b (Backoff n d)) \<Rightarrow>
          Some (s\<lparr>flight := Some (Flight b (sendLoopHead cfg (n + 1)))\<rparr>) | _ \<Rightarrow> None)"
| "qact cfg pd NoAttemptsLeft s =
     (case flight s of Some (Flight b GivingUp) \<Rightarrow>
          Some (flushFails cfg (Flight b GivingUp) s) | _ \<Rightarrow> None)"
| "qact cfg pd (CloseCall now t) s = Some (closeQueue cfg now t s)"
| "qact cfg pd (CloseWakes i now) s = closeWakes cfg now i s"

record 'd qrunState =
  qs :: "'d EventQueue"
  log_accepted :: "'d ClientEvent list"
  log_delivered :: "'d ClientEvent list"
  log_overflow :: "'d ClientEvent list"
  log_exhausted :: "'d ClientEvent list"
  log_wire :: "'d ClientEvent list list"

definition flightBatch :: "'d EventQueue \<Rightarrow> 'd QueuedEvent list" where
  "flightBatch s = (case flight s of None \<Rightarrow> [] | Some f \<Rightarrow> batch f)"

definition wireSend :: "'d EventQueue \<Rightarrow> 'd EventQueue \<Rightarrow> 'd ClientEvent list list" where
  "wireSend s s' = (case flight s' of Some (Flight b (Sending n)) \<Rightarrow>
       if flight s = flight s' then [] else [map event b] | _ \<Rightarrow> [])"

definition overflowDrop :: "ResolvedQueueConfig \<Rightarrow> 'd EventQueue \<Rightarrow> 'd ClientEvent list" where
  "overflowDrop cfg s =
     (if maxQueueSize cfg \<le> length (queue s)
      then map event (take 1 (dropWhile (\<lambda>q. event_type (event q) \<in> set (immediateFlushTypes cfg)) (queue s)))
      else [])"

text \<open>Whether this action ends the suspended flush by throwing.\<close>

definition failing :: "'d qaction \<Rightarrow> 'd EventQueue \<Rightarrow> bool" where
  "failing a s' = ((case a of SendRejects now rnd e \<Rightarrow> True | NoAttemptsLeft \<Rightarrow> True | _ \<Rightarrow> False) \<and> flight s' = None)"

definition qlog :: "ResolvedQueueConfig \<Rightarrow> 'd qaction \<Rightarrow> 'd EventQueue \<Rightarrow> 'd qrunState \<Rightarrow> 'd qrunState" where
  "qlog cfg a s' r =
     (let s = qs r in
      \<lparr>qs = s',
       log_accepted = log_accepted r @ (case a of Enqueue now ev \<Rightarrow> if fst (enqueue cfg now ev s) then [ev] else [] | _ \<Rightarrow> []),
       log_delivered = log_delivered r @ (case a of SendResolves res \<Rightarrow> map event (flightBatch s) | _ \<Rightarrow> []),
       log_overflow = log_overflow r @ (case a of Enqueue now ev \<Rightarrow> if fst (enqueue cfg now ev s) then overflowDrop cfg s else [] | _ \<Rightarrow> []),
       log_exhausted = log_exhausted r @ (if failing a s'
           then map event (filter (\<lambda>q. \<not> attempts q + 1 < maxAttempts (retry cfg)) (flightBatch s)) else []),
       log_wire = log_wire r @ wireSend s s'\<rparr>)"

definition qnext :: "ResolvedQueueConfig \<Rightarrow> (jstr \<Rightarrow> int option) \<Rightarrow> 'd qaction \<Rightarrow> 'd qrunState \<Rightarrow> 'd qrunState option" where
  "qnext cfg pd a r = (case qact cfg pd a (qs r) of None \<Rightarrow> None | Some s' \<Rightarrow> Some (qlog cfg a s' r))"

definition qstart :: "'d qrunState" where
  "qstart = \<lparr>qs = newQueue, log_accepted = [], log_delivered = [], log_overflow = [], log_exhausted = [], log_wire = []\<rparr>"

inductive qreach :: "ResolvedQueueConfig \<Rightarrow> (jstr \<Rightarrow> int option) \<Rightarrow> 'd qrunState \<Rightarrow> bool" for cfg pd where
  start: "qreach cfg pd qstart"
| step: "qreach cfg pd r \<Longrightarrow> qnext cfg pd a r = Some r' \<Longrightarrow> qreach cfg pd r'"

text \<open>A run given by its actions, for evaluation.\<close>

fun qexec :: "ResolvedQueueConfig \<Rightarrow> (jstr \<Rightarrow> int option) \<Rightarrow> 'd qrunState \<Rightarrow> 'd qaction list \<Rightarrow> 'd qrunState option" where
  "qexec cfg pd r [] = Some r"
| "qexec cfg pd r (a # as) = (case qnext cfg pd a r of None \<Rightarrow> None | Some r' \<Rightarrow> qexec cfg pd r' as)"

lemma qexec_reach:
  assumes "qreach cfg pd r" "qexec cfg pd r as = Some r'"
  shows "qreach cfg pd r'"
  using assms by (induction cfg pd r as rule: qexec.induct) (auto split: option.splits intro: qreach.step)

subsection \<open>What a run keeps\<close>

text \<open>
  The books of a run, as a predicate on the queue, the suspended flush and the logs: order,
  conservation, retry budget and size. The lemmas after it say how each elementary change of
  the queue keeps the books; an action is a sequence of at most three of them.
\<close>

definition line :: "'d QueuedEvent list \<Rightarrow> 'd Flight option \<Rightarrow> 'd ClientEvent list" where
  "line q f = map event ((case f of None \<Rightarrow> [] | Some g \<Rightarrow> batch g) @ q)"

definition phaseCost :: "nat \<Rightarrow> sendPhase \<Rightarrow> nat" where
  "phaseCost M p = (case p of Sending n \<Rightarrow> n + 1 | Backoff n d \<Rightarrow> n + 1 | GivingUp \<Rightarrow> M)"

definition phaseOk :: "nat \<Rightarrow> sendPhase \<Rightarrow> bool" where
  "phaseOk M p = (case p of Sending n \<Rightarrow> n < M | Backoff n d \<Rightarrow> n + 1 < M | GivingUp \<Rightarrow> M = 0)"

definition budget :: "nat \<Rightarrow> 'd QueuedEvent list \<Rightarrow> 'd Flight option \<Rightarrow> nat" where
  "budget M q f = (\<Sum>e\<leftarrow>q. attempts e * M) +
     (case f of None \<Rightarrow> 0 | Some g \<Rightarrow> (\<Sum>e\<leftarrow>batch g. attempts e * M + phaseCost M (phase g)))"

definition qbound :: "ResolvedQueueConfig \<Rightarrow> 'd Flight option \<Rightarrow> nat" where
  "qbound cfg f = maxQueueSize cfg + (if f = None then maxBatchSize cfg else 0)"

definition criticalIn :: "ResolvedQueueConfig \<Rightarrow> 'd ClientEvent \<Rightarrow> bool" where
  "criticalIn cfg ev = (event_type ev \<in> set (immediateFlushTypes cfg))"

definition books ::
    "ResolvedQueueConfig \<Rightarrow> 'd QueuedEvent list \<Rightarrow> 'd Flight option \<Rightarrow> 'd ClientEvent list
      \<Rightarrow> 'd ClientEvent list \<Rightarrow> 'd ClientEvent list \<Rightarrow> 'd ClientEvent list \<Rightarrow> 'd ClientEvent list list \<Rightarrow> bool" where
  "books cfg q f acc del ovf exh wire \<longleftrightarrow>
     (let M = maxAttempts (retry cfg) in
      subseq (del @ line q f) acc
      \<and> mset acc = mset (del @ line q f @ ovf @ exh)
      \<and> (\<forall>e \<in> set ovf. \<not> criticalIn cfg e)
      \<and> (\<forall>e \<in> set (case f of None \<Rightarrow> q | Some g \<Rightarrow> batch g @ q). attempts e = 0 \<or> attempts e < M)
      \<and> (case f of None \<Rightarrow> True | Some g \<Rightarrow> phaseOk M (phase g) \<and> length (batch g) \<le> maxBatchSize cfg)
      \<and> length (concat wire) \<le> budget M q f + M * M * length (del @ ovf @ exh)
      \<and> length q \<le> qbound cfg f)"

lemma requeue_eq:
  "requeue cfg b q = filter (\<lambda>e. attempts e < maxAttempts (retry cfg)) (map (\<lambda>e. e\<lparr>attempts := attempts e + 1\<rparr>) b) @ q"
  unfolding requeue_def foldl_conv_foldr rev_rev_ident
  by (induction b) (auto simp: Let_def)

lemma event_attempts_update [simp]: "event (e\<lparr>attempts := n\<rparr>) = event e"
  by (cases e) simp

lemma map_event_requeue:
  "map event (requeue cfg b q) =
     map event (filter (\<lambda>e. attempts e + 1 < maxAttempts (retry cfg)) b) @ map event q"
  by (simp add: requeue_eq filter_map o_def)

lemma sum_list_requeue:
  assumes "\<forall>e \<in> set b. attempts e = 0 \<or> attempts e < M" "c \<le> M"
  shows "(\<Sum>e\<leftarrow>b. attempts e * M + c) \<le>
     (\<Sum>e\<leftarrow>filter (\<lambda>e. attempts e < M) (map (\<lambda>e. e\<lparr>attempts := attempts e + 1\<rparr>) b). attempts e * M)
       + M * M * length (filter (\<lambda>e. \<not> attempts e + 1 < M) b)"
  using assms(1)
proof (induction b)
  case (Cons e b)
  have "attempts e * M + c \<le> (attempts e + 1) * M" using assms(2) by simp
  moreover have "attempts e * M + c \<le> M * M" if "\<not> attempts e + 1 < M"
  proof (cases "attempts e < M")
    case True
    then have "(attempts e + 1) * M \<le> M * M" by (intro mult_le_mono1) simp
    with assms(2) show ?thesis by simp
  next
    case False
    with Cons.prems have "M = 0" by auto
    with assms(2) show ?thesis by simp
  qed
  ultimately show ?case using Cons by (auto simp: algebra_simps)
qed simp

lemma sum_list_le_const:
  fixes f :: "'a \<Rightarrow> nat"
  shows "(\<And>x. x \<in> set xs \<Longrightarrow> f x \<le> k) \<Longrightarrow> (\<Sum>x\<leftarrow>xs. f x) \<le> k * length xs"
  by (induction xs) (fastforce simp: algebra_simps)+

lemma phaseCost_le: "phaseOk M p \<Longrightarrow> phaseCost M p \<le> M"
  by (cases p) (auto simp: phaseOk_def phaseCost_def)

lemma attempt_cost_le:
  assumes "a = 0 \<or> a < M" "c \<le> (M::nat)" "0 < M \<or> c = 0"
  shows "a * M + c \<le> M * M"
proof (cases "a < M")
  case True
  then have "(a + 1) * M \<le> M * M" by (intro mult_le_mono1) simp
  with assms(2) show ?thesis by simp
next
  case False
  with assms show ?thesis by (cases M) auto
qed

lemma books_push:
  assumes "books cfg q f acc del ovf exh wire" "length q < qbound cfg f"
  shows "books cfg (q @ [\<lparr>event = ev, attempts = 0, addedAt = t\<rparr>]) f (acc @ [ev]) del ovf exh wire"
  using assms
  by (auto simp: books_def Let_def line_def budget_def split: option.splits
      simp flip: append_assoc intro!: list_emb_append_mono)

lemma books_overflow:
  assumes b: "books cfg (p @ x # r) f acc del ovf exh wire" and nc: "\<not> criticalIn cfg (event x)"
  shows "books cfg (p @ r) f acc del (ovf @ [event x]) exh wire"
proof -
  let ?M = "maxAttempts (retry cfg)"
  have "subseq (line (p @ r) f) (line (p @ x # r) f)"
    by (auto simp: line_def intro!: list_emb_append_mono)
  then have sub: "subseq (del @ line (p @ r) f) acc"
    using b unfolding books_def Let_def
    by (meson list_emb_append_mono subseq_order.order_trans subseq_order.order_refl)
  have "attempts x = 0 \<or> attempts x < ?M"
    using b by (auto simp: books_def Let_def split: option.splits)
  then have "attempts x * ?M \<le> ?M * ?M"
    using attempt_cost_le [of "attempts x" ?M 0] by simp
  moreover have "budget ?M (p @ x # r) f = budget ?M (p @ r) f + attempts x * ?M"
    by (simp add: budget_def)
  moreover have "?M * ?M * length (del @ (ovf @ [event x]) @ exh) = ?M * ?M * length (del @ ovf @ exh) + ?M * ?M"
    by (simp add: algebra_simps)
  moreover have "length (concat wire) \<le> budget ?M (p @ x # r) f + ?M * ?M * length (del @ ovf @ exh)"
    using b by (simp only: books_def Let_def)
  ultimately have len: "length (concat wire) \<le> budget ?M (p @ r) f + ?M * ?M * length (del @ (ovf @ [event x]) @ exh)"
    by linarith
  have "mset (line (p @ x # r) f) = mset (line (p @ r) f @ [event x])"
    by (simp add: line_def)
  then have ms: "mset acc = mset (del @ line (p @ r) f @ (ovf @ [event x]) @ exh)"
    using b by (simp add: books_def Let_def)
  have rest: "\<forall>e \<in> set (ovf @ [event x]). \<not> criticalIn cfg e"
    "\<forall>e \<in> set (case f of None \<Rightarrow> p @ r | Some g \<Rightarrow> batch g @ p @ r). attempts e = 0 \<or> attempts e < ?M"
    "case f of None \<Rightarrow> True | Some g \<Rightarrow> phaseOk ?M (phase g) \<and> length (batch g) \<le> maxBatchSize cfg"
    "length (p @ r) \<le> qbound cfg f"
    using b nc by (auto simp: books_def Let_def split: option.splits)
  show ?thesis
    unfolding books_def Let_def using sub ms rest len by blast
qed

lemma phaseOk_sendLoopHead_0: "phaseOk (maxAttempts (retry cfg)) (sendLoopHead cfg 0)"
  by (simp add: phaseOk_def sendLoopHead_def)

lemma books_flush:
  assumes b: "books cfg q None acc del ovf exh wire"
  shows "books cfg (drop (maxBatchSize cfg) q)
     (Some (Flight (take (maxBatchSize cfg) q) (sendLoopHead cfg 0))) acc del ovf exh
     (wire @ (if 0 < maxAttempts (retry cfg) then [map event (take (maxBatchSize cfg) q)] else []))"
proof -
  let ?M = "maxAttempts (retry cfg)" and ?B = "maxBatchSize cfg"
  have split: "(\<Sum>e\<leftarrow>q. attempts e * ?M) =
      (\<Sum>e\<leftarrow>take ?B q. attempts e * ?M) + (\<Sum>e\<leftarrow>drop ?B q. attempts e * ?M)"
    by (metis append_take_drop_id map_append sum_list_append)
  have "budget ?M (drop ?B q) (Some (Flight (take ?B q) (sendLoopHead cfg 0)))
      = budget ?M q None + (if 0 < ?M then length (take ?B q) else 0)"
    by (simp add: budget_def split sendLoopHead_def phaseCost_def sum_list_addf
        sum_list_triv del: length_take)
  moreover have "line (drop ?B q) (Some (Flight (take ?B q) (sendLoopHead cfg 0))) = line q None"
    by (simp add: line_def flip: map_append)
  ultimately show ?thesis
    using b phaseOk_sendLoopHead_0 by (auto simp: books_def Let_def qbound_def)
qed

lemma books_ok:
  assumes b: "books cfg q (Some (Flight bt ph)) acc del ovf exh wire"
  shows "books cfg q None acc (del @ map event bt) ovf exh wire"
proof -
  let ?M = "maxAttempts (retry cfg)"
  have "attempts e * ?M + phaseCost ?M ph \<le> ?M * ?M" if "e \<in> set bt" for e
  proof (rule attempt_cost_le)
    show "0 < ?M \<or> phaseCost ?M ph = 0"
      using b by (cases ph) (auto simp: books_def Let_def phaseOk_def phaseCost_def)
  qed (use b that in \<open>auto simp: books_def Let_def intro: phaseCost_le\<close>)
  then have "(\<Sum>e\<leftarrow>bt. attempts e * ?M + phaseCost ?M ph) \<le> ?M * ?M * length bt"
    by (rule sum_list_le_const)
  with b have "length (concat wire) \<le> budget ?M q None + ?M * ?M * length ((del @ map event bt) @ ovf @ exh)"
    by (auto simp: books_def Let_def budget_def algebra_simps)
  with b show ?thesis
    by (auto simp: books_def Let_def line_def qbound_def)
qed

lemma books_fail:
  assumes b: "books cfg q (Some (Flight bt ph)) acc del ovf exh wire"
  shows "books cfg (requeue cfg bt q) None acc del ovf
     (exh @ map event (filter (\<lambda>e. \<not> attempts e + 1 < maxAttempts (retry cfg)) bt)) wire"
proof -
  let ?M = "maxAttempts (retry cfg)"
  have att: "\<forall>e \<in> set bt. attempts e = 0 \<or> attempts e < ?M" and ph: "phaseOk ?M ph"
    using b by (auto simp: books_def Let_def)
  have "subseq (line (requeue cfg bt q) None) (line q (Some (Flight bt ph)))"
    by (auto simp: line_def map_event_requeue intro!: list_emb_append_mono subseq_map)
  then have "subseq (del @ line (requeue cfg bt q) None) acc"
    using b unfolding books_def Let_def
    by (meson list_emb_append_mono subseq_order.order_trans subseq_order.order_refl)
  moreover have "length (concat wire) \<le> budget ?M (requeue cfg bt q) None + ?M * ?M * length
      (del @ ovf @ exh @ map event (filter (\<lambda>e. \<not> attempts e + 1 < ?M) bt))"
  proof -
    have "budget ?M q (Some (Flight bt ph)) =
        (\<Sum>e\<leftarrow>q. attempts e * ?M) + (\<Sum>e\<leftarrow>bt. attempts e * ?M + phaseCost ?M ph)"
      by (simp add: budget_def)
    moreover have "budget ?M (requeue cfg bt q) None = (\<Sum>e\<leftarrow>q. attempts e * ?M) +
        (\<Sum>e\<leftarrow>filter (\<lambda>e. attempts e < ?M) (map (\<lambda>e. e\<lparr>attempts := attempts e + 1\<rparr>) bt). attempts e * ?M)"
      by (simp add: budget_def requeue_eq)
    moreover have "?M * ?M * length (del @ ovf @ exh @ map event (filter (\<lambda>e. \<not> attempts e + 1 < ?M) bt))
        = ?M * ?M * length (del @ ovf @ exh) + ?M * ?M * length (filter (\<lambda>e. \<not> attempts e + 1 < ?M) bt)"
      by (simp add: algebra_simps)
    moreover have "length (concat wire) \<le> budget ?M q (Some (Flight bt ph)) + ?M * ?M * length (del @ ovf @ exh)"
      using b by (simp only: books_def Let_def)
    ultimately show ?thesis
      using sum_list_requeue [OF att phaseCost_le [OF ph]] by linarith
  qed
  moreover have "mset (map event bt) = mset (map event (filter (\<lambda>e. attempts e + 1 < ?M) bt))
      + mset (map event (filter (\<lambda>e. \<not> attempts e + 1 < ?M) bt))"
    by (induction bt) auto
  then have "mset acc = mset (del @ line (requeue cfg bt q) None @ ovf @
      exh @ map event (filter (\<lambda>e. \<not> attempts e + 1 < ?M) bt))"
    using b by (simp add: books_def Let_def line_def map_event_requeue)
  moreover have "length (requeue cfg bt q) \<le> length bt + length q"
    using length_filter_le [of "\<lambda>e. attempts e < ?M" "map (\<lambda>e. e\<lparr>attempts := attempts e + 1\<rparr>) bt"]
    by (simp add: requeue_eq)
  then have "length (requeue cfg bt q) \<le> qbound cfg None"
    using b by (simp add: books_def Let_def qbound_def)
  moreover have "\<forall>e \<in> set (requeue cfg bt q). attempts e = 0 \<or> attempts e < ?M"
    using b by (auto simp: books_def Let_def requeue_eq)
  moreover have "\<forall>e \<in> set ovf. \<not> criticalIn cfg e"
    using b by (simp add: books_def Let_def)
  ultimately show ?thesis
    unfolding books_def Let_def option.case by (intro conjI TrueI)
qed

lemma books_backoff:
  assumes "books cfg q (Some (Flight bt (Sending n))) acc del ovf exh wire" "n + 1 \<noteq> maxAttempts (retry cfg)"
  shows "books cfg q (Some (Flight bt (Backoff n d))) acc del ovf exh wire"
  using assms by (auto simp: books_def Let_def line_def budget_def phaseCost_def phaseOk_def qbound_def)

lemma books_resend:
  assumes "books cfg q (Some (Flight bt (Backoff n d))) acc del ovf exh wire"
  shows "n + 1 < maxAttempts (retry cfg)"
    and "books cfg q (Some (Flight bt (Sending (n + 1)))) acc del ovf exh (wire @ [map event bt])"
proof -
  show "n + 1 < maxAttempts (retry cfg)"
    using assms by (simp add: books_def Let_def phaseOk_def)
  then show "books cfg q (Some (Flight bt (Sending (n + 1)))) acc del ovf exh (wire @ [map event bt])"
    using assms by (auto simp: books_def Let_def line_def budget_def phaseCost_def phaseOk_def
        qbound_def sum_list_addf sum_list_triv sum_list_Suc)
qed

definition runBooks :: "ResolvedQueueConfig \<Rightarrow> 'd qrunState \<Rightarrow> bool" where
  "runBooks cfg r = books cfg (queue (qs r)) (flight (qs r)) (log_accepted r) (log_delivered r)
     (log_overflow r) (log_exhausted r) (log_wire r)"

lemma wireSend_same [simp]: "flight s' = flight s \<Longrightarrow> wireSend s s' = []"
  by (auto simp: wireSend_def split: option.splits Flight.splits sendPhase.splits)

lemma scheduleFlush_frame [frame]:
  "queue (scheduleFlush s) = queue s" "flight (scheduleFlush s) = flight s"
  "closed (scheduleFlush s) = closed s" "flushTimer (scheduleFlush s)" "closers (scheduleFlush s) = closers s"
  by (auto simp: scheduleFlush_def)

lemma flushFinally_frame [frame]:
  "queue (flushFinally s) = queue s" "flight (flushFinally s) = None"
  "closed (flushFinally s) = closed s" "queue s \<noteq> [] \<Longrightarrow> flushTimer (flushFinally s)"
  by (auto simp: flushFinally_def Let_def frame)

lemma flush_books:
  assumes "books cfg (queue s) (flight s) acc del ovf exh wire" "flight s = flight s0"
  shows "books cfg (queue (snd (flush cfg s))) (flight (snd (flush cfg s))) acc del ovf exh
     (wire @ wireSend s0 (snd (flush cfg s)))"
proof (cases "processing s \<or> queue s = []")
  case True
  then have "snd (flush cfg s) = s" by (auto simp: flush_def)
  with assms show ?thesis by simp
next
  case False
  then have f: "flight s = None" by (simp add: processing_def)
  with False have s': "snd (flush cfg s) = s\<lparr>flight := Some (Flight (take (maxBatchSize cfg) (queue s))
      (sendLoopHead cfg 0)), queue := drop (maxBatchSize cfg) (queue s)\<rparr>"
    by (auto simp: flush_def processing_def)
  have "wireSend s0 (snd (flush cfg s)) =
      (if 0 < maxAttempts (retry cfg) then [map event (take (maxBatchSize cfg) (queue s))] else [])"
    using f assms(2) by (simp add: s' wireSend_def sendLoopHead_def)
  with books_flush [OF assms(1) [unfolded f]] show ?thesis
    by (simp add: s')
qed

lemma closeLoop_books:
  assumes "books cfg (queue s) (flight s) acc del ovf exh wire" "flight s = flight s0"
    "closeLoop cfg now dl s = (p, s1)"
  shows "books cfg (queue s1) (flight s1) acc del ovf exh (wire @ wireSend s0 s1)"
proof (cases "queue s \<noteq> [] \<and> now < dl")
  case True
  then have "s1 = snd (flush cfg s)"
    using assms(3) by (simp add: closeLoop_def split: prod.splits)
  with flush_books [OF assms(1,2)] show ?thesis by simp
next
  case False
  then have "s1 = s" using assms(3) by (simp add: closeLoop_def split: if_splits)
  with assms(1,2) show ?thesis by simp
qed

lemma dropWhile_takeWhile_nth:
  "length (takeWhile P xs) < length xs \<Longrightarrow>
     dropWhile P xs = xs ! length (takeWhile P xs) # drop (Suc (length (takeWhile P xs))) xs
     \<and> \<not> P (xs ! length (takeWhile P xs))"
  by (metis Cons_nth_drop_Suc dropWhile_eq_drop nth_length_takeWhile)

text \<open>The overflow step as a change of the list: one non-critical event leaves, nothing else moves.\<close>

lemma enqueue_cases:
  obtains (refused) "fst (enqueue cfg now ev s) = False" "snd (enqueue cfg now ev s) = s"
  | (pushed) q ovf where "fst (enqueue cfg now ev s) = True" "\<not> closed s"
      "ovf = overflowDrop cfg s"
      "(ovf = [] \<and> q = queue s \<and> length (queue s) < maxQueueSize cfg)
       \<or> (\<exists>p x r. queue s = p @ x # r \<and> q = p @ r \<and> ovf = [event x] \<and> \<not> criticalIn cfg (event x))"
      "snd (enqueue cfg now ev s) =
        (let s2 = s\<lparr>queue := q @ [\<lparr>event = ev, attempts = 0, addedAt = now\<rparr>]\<rparr>
         in if criticalIn cfg ev then snd (flush cfg s2) else if \<not> flushTimer s2 then scheduleFlush s2 else s2)"
proof (cases "closed s")
  case True
  then show ?thesis using refused by (simp add: enqueue_def)
next
  case opn: False
  show ?thesis
  proof (cases "maxQueueSize cfg \<le> length (queue s)")
    case False
    then show ?thesis
      using opn pushed [of "[]" "queue s"]
      by (simp add: enqueue_def Let_def overflowDrop_def criticalIn_def)
  next
    case full: True
    let ?P = "\<lambda>q. event_type (event q) \<in> set (immediateFlushTypes cfg)"
    let ?n = "length (takeWhile ?P (queue s))"
    show ?thesis
    proof (cases "?n < length (queue s)")
      case True
      note d = dropWhile_takeWhile_nth [OF True]
      have "overflowDrop cfg s = [event (queue s ! ?n)]"
        using full d by (simp add: overflowDrop_def)
      moreover have "queue s = take ?n (queue s) @ queue s ! ?n # drop (Suc ?n) (queue s)"
        using True by (simp add: id_take_nth_drop)
      ultimately show ?thesis
        using opn full True d
        by (intro pushed [of "[event (queue s ! ?n)]" "take ?n (queue s) @ drop (?n + 1) (queue s)"])
           (auto simp: enqueue_def Let_def criticalIn_def)
    next
      case False
      then show ?thesis
        using opn full refused by (simp add: enqueue_def Let_def)
    qed
  qed
qed

lemma enqueue_books:
  assumes b: "books cfg (queue s) (flight s) acc del ovf exh wire"
  shows "books cfg (queue (snd (enqueue cfg now ev s))) (flight (snd (enqueue cfg now ev s)))
     (acc @ (if fst (enqueue cfg now ev s) then [ev] else [])) del
     (ovf @ (if fst (enqueue cfg now ev s) then overflowDrop cfg s else [])) exh
     (wire @ wireSend s (snd (enqueue cfg now ev s)))"
proof (cases rule: enqueue_cases [of cfg now ev s])
  case refused
  with b show ?thesis by simp
next
  case (pushed q dr)
  have lt: "length q < qbound cfg (flight s)"
    using pushed(4) b by (auto simp: books_def Let_def qbound_def)
  have "books cfg q (flight s) acc del (ovf @ dr) exh wire"
    using pushed(4) b books_overflow by force
  from books_push [OF this lt] have p:
    "books cfg (q @ [\<lparr>event = ev, attempts = 0, addedAt = now\<rparr>]) (flight s) (acc @ [ev]) del (ovf @ dr) exh wire" .
  let ?s2 = "s\<lparr>queue := q @ [\<lparr>event = ev, attempts = 0, addedAt = now\<rparr>]\<rparr>"
  have "books cfg (queue (snd (flush cfg ?s2))) (flight (snd (flush cfg ?s2))) (acc @ [ev]) del
      (ovf @ dr) exh (wire @ wireSend s (snd (flush cfg ?s2)))"
    by (rule flush_books) (use p in simp_all)
  with p pushed show ?thesis
    by (auto simp: Let_def frame)
qed

lemma flushFails_frame [frame]:
  "queue (flushFails cfg f s) = requeue cfg (batch f) (queue s)" "flight (flushFails cfg f s) = None"
  "closed (flushFails cfg f s) = closed s"
  "requeue cfg (batch f) (queue s) \<noteq> [] \<Longrightarrow> flushTimer (flushFails cfg f s)"
  by (simp_all add: flushFails_def Let_def frame)

lemma flushSucceeds_frame [frame]:
  "queue (flushSucceeds s) = queue s" "flight (flushSucceeds s) = None"
  "closed (flushSucceeds s) = closed s" "queue s \<noteq> [] \<Longrightarrow> flushTimer (flushSucceeds s)"
  by (simp_all add: flushSucceeds_def Let_def frame)

lemma wireSend_None [simp]: "flight s' = None \<Longrightarrow> wireSend s s' = []"
  by (simp add: wireSend_def)

lemma wireSend_closers [simp]: "wireSend s (s1\<lparr>closers := cs\<rparr>) = wireSend s s1"
  by (auto simp: wireSend_def split: option.splits Flight.splits sendPhase.splits)

lemma closeQueue_books:
  assumes "books cfg (queue s) (flight s) acc del ovf exh wire"
  shows "books cfg (queue (closeQueue cfg now t s)) (flight (closeQueue cfg now t s)) acc del ovf exh
     (wire @ wireSend s (closeQueue cfg now t s))"
proof -
  obtain p s1 where l: "closeLoop cfg now (now + t) (s\<lparr>closed := True, flushTimer := False\<rparr>) = (p, s1)"
    by (cases "closeLoop cfg now (now + t) (s\<lparr>closed := True, flushTimer := False\<rparr>)")
  have "books cfg (queue s1) (flight s1) acc del ovf exh (wire @ wireSend s s1)"
    by (rule closeLoop_books [OF _ _ l]) (use assms in simp_all)
  with l show ?thesis by (simp add: closeQueue_def Let_def)
qed

lemma closeWakes_books:
  assumes "books cfg (queue s) (flight s) acc del ovf exh wire" "closeWakes cfg now i s = Some s'"
  shows "books cfg (queue s') (flight s') acc del ovf exh (wire @ wireSend s s')"
proof -
  have go: ?thesis if ex: "\<exists>p s1 cs. closeLoop cfg now (deadline (closers s ! i)) s = (p, s1) \<and> s' = s1\<lparr>closers := cs\<rparr>"
  proof -
    obtain p s1 cs where l: "closeLoop cfg now (deadline (closers s ! i)) s = (p, s1)"
      and s': "s' = s1\<lparr>closers := cs\<rparr>"
      using ex by blast
    with closeLoop_books [OF assms(1) refl l] show ?thesis by simp
  qed
  have "(\<exists>p s1 cs. closeLoop cfg now (deadline (closers s ! i)) s = (p, s1) \<and> s' = s1\<lparr>closers := cs\<rparr>)
      \<or> (\<exists>cs. s' = s\<lparr>closers := cs\<rparr>)"
    using assms(2) unfolding closeWakes_def Let_def
    by (auto split: if_split_asm closePhase.split_asm prod.split_asm)
  with go assms(1) show ?thesis by auto
qed

lemma sendRejects_cases:
  obtains (fails) "sendRejects cfg pd now rnd e n f s = flushFails cfg f s"
  | (waits) d where "n + 1 \<noteq> maxAttempts (retry cfg)"
      "sendRejects cfg pd now rnd e n f s = s\<lparr>flight := Some (Flight (batch f) (Backoff n d))\<rparr>"
proof (cases "\<not> (isRetryable e (retry cfg) \<or>
      (case err_status e of Some st \<Rightarrow> st \<in> set (retryableStatuses (retry cfg)) | None \<Rightarrow> False))
      \<or> int n = int (maxAttempts (retry cfg)) - 1")
  case True
  then show ?thesis by (intro fails) (simp only: sendRejects_def Let_def if_True)
next
  case False
  then show ?thesis by (intro waits) (auto simp only: sendRejects_def Let_def if_False)
qed

lemma qnext_books:
  assumes b: "runBooks cfg r" and n: "qnext cfg pd a r = Some r'"
  shows "runBooks cfg r'"
proof -
  note B = b [unfolded runBooks_def]
  obtain s' where s': "qact cfg pd a (qs r) = Some s'" and r': "r' = qlog cfg a s' r"
    using n by (auto simp: qnext_def split: option.splits)
  show ?thesis
  proof (cases a)
    case (Enqueue now ev)
    then show ?thesis
      using enqueue_books [OF B, of now ev] s'
      by (simp add: r' qlog_def runBooks_def Let_def failing_def)
  next
    case TimerFires
    have "books cfg (queue s') (flight s') (log_accepted r) (log_delivered r) (log_overflow r)
        (log_exhausted r) (log_wire r @ wireSend (qs r) s')"
      using s' TimerFires flush_books [of cfg "qs r\<lparr>flushTimer := False\<rparr>" _ _ _ _ _ "qs r"] B
      by (simp add: timerFires_def split: if_splits)
    then show ?thesis
      using TimerFires by (simp add: r' qlog_def runBooks_def Let_def failing_def)
  next
    case FlushCall
    then show ?thesis
      using s' flush_books [OF B refl] by (auto simp: r' qlog_def runBooks_def Let_def failing_def)
  next
    case (SendResolves res)
    then obtain bt k where f: "flight (qs r) = Some (Flight bt (Sending k))" and s'': "s' = flushSucceeds (qs r)"
      using s' by (auto split: option.splits Flight.splits sendPhase.splits)
    show ?thesis
      using books_ok [OF B [unfolded f]] SendResolves f
      by (simp add: r' qlog_def runBooks_def Let_def failing_def s'' frame flightBatch_def)
  next
    case (SendRejects now rnd e)
    then obtain bt k where f: "flight (qs r) = Some (Flight bt (Sending k))"
      and s'': "s' = sendRejects cfg pd now rnd e k (Flight bt (Sending k)) (qs r)"
      using s' by (auto split: option.splits Flight.splits sendPhase.splits)
    show ?thesis
    proof (cases rule: sendRejects_cases [of cfg pd now rnd e k "Flight bt (Sending k)" "qs r"])
      case fails
      then show ?thesis
        using books_fail [OF B [unfolded f]] SendRejects f
        by (simp add: r' qlog_def runBooks_def Let_def failing_def s'' frame flightBatch_def)
    next
      case (waits d)
      then show ?thesis
        using books_backoff [OF B [unfolded f], of d] SendRejects f
        by (simp add: r' qlog_def runBooks_def Let_def failing_def s'' wireSend_def)
    qed
  next
    case BackoffOver
    then obtain bt k d where f: "flight (qs r) = Some (Flight bt (Backoff k d))"
      and s'': "s' = qs r\<lparr>flight := Some (Flight bt (sendLoopHead cfg (k + 1)))\<rparr>"
      using s' by (auto split: option.splits Flight.splits sendPhase.splits)
    show ?thesis
      using books_resend [OF B [unfolded f]] BackoffOver f
      by (simp add: r' qlog_def runBooks_def Let_def failing_def s'' wireSend_def sendLoopHead_def)
  next
    case NoAttemptsLeft
    then obtain bt where f: "flight (qs r) = Some (Flight bt GivingUp)"
      and s'': "s' = flushFails cfg (Flight bt GivingUp) (qs r)"
      using s' by (auto split: option.splits Flight.splits sendPhase.splits)
    show ?thesis
      using books_fail [OF B [unfolded f]] NoAttemptsLeft f
      by (simp add: r' qlog_def runBooks_def Let_def failing_def s'' frame flightBatch_def)
  next
    case (CloseCall now t)
    then show ?thesis
      using s' closeQueue_books [OF B] by (auto simp: r' qlog_def runBooks_def Let_def failing_def)
  next
    case (CloseWakes i now)
    then show ?thesis
      using s' closeWakes_books [OF B] by (auto simp: r' qlog_def runBooks_def Let_def failing_def)
  qed
qed

lemma qreach_books: "qreach cfg pd r \<Longrightarrow> runBooks cfg r"
proof (induction rule: qreach.induct)
  case start
  show ?case
    by (simp add: runBooks_def qstart_def newQueue_def books_def Let_def line_def budget_def qbound_def)
next
  case (step r a r')
  then show ?case by (blast intro: qnext_books)
qed

text \<open>An event waiting in an open queue always has a flush under way or a timer armed.\<close>

definition notStranded :: "'d EventQueue \<Rightarrow> bool" where
  "notStranded s \<longleftrightarrow> queue s \<noteq> [] \<longrightarrow> processing s \<or> flushTimer s \<or> closed s"

lemma notStranded_flush [inv_intro]:
  "queue s \<noteq> [] \<Longrightarrow> processing (snd (flush cfg s))"
  by (auto simp: flush_def processing_def)

lemma notStranded_flush_keep [inv_intro]: "notStranded s \<Longrightarrow> notStranded (snd (flush cfg s))"
  by (auto simp: notStranded_def flush_def processing_def)

lemma closeWakes_closed:
  assumes "closeWakes cfg now i s = Some s'"
  shows "closed s' = closed s" "flushTimer s' = flushTimer s"
    "s' = s\<lparr>closers := closers s'\<rparr> \<or> s' = (snd (flush cfg s))\<lparr>closers := closers s'\<rparr>"
  using assms
  by (auto simp: closeWakes_def closeLoop_def flush_def Let_def
      split: if_splits closePhase.splits prod.splits)

lemma closeQueue_closed: "closed (closeQueue cfg now t s)"
  by (auto simp: closeQueue_def closeLoop_def flush_def Let_def split: if_splits prod.splits)

lemma notStranded_qact:
  assumes "notStranded s" "qact cfg pd a s = Some s'"
  shows "notStranded s'"
proof (cases a)
  case (Enqueue now ev)
  show ?thesis
  proof (cases rule: enqueue_cases [of cfg now ev s])
    case refused
    with assms Enqueue show ?thesis by simp
  next
    case (pushed q dr)
    let ?s2 = "s\<lparr>queue := q @ [\<lparr>event = ev, attempts = 0, addedAt = now\<rparr>]\<rparr>"
    have p: "processing (snd (flush cfg ?s2))" by (rule notStranded_flush) simp
    have s': "s' = (if criticalIn cfg ev then snd (flush cfg ?s2)
        else if \<not> flushTimer ?s2 then scheduleFlush ?s2 else ?s2)"
      using assms(2) unfolding Enqueue qact.simps pushed(5) Let_def by (rule option.inject [THEN iffD1, symmetric])
    show ?thesis
    proof (cases "criticalIn cfg ev")
      case True
      with p show ?thesis by (simp add: s' notStranded_def)
    next
      case False
      then show ?thesis by (simp add: s' notStranded_def frame)
    qed
  qed
next
  case TimerFires
  then have s': "s' = snd (flush cfg (s\<lparr>flushTimer := False\<rparr>))"
    using assms(2) by (simp add: timerFires_def split: if_splits)
  show ?thesis
    using notStranded_flush [of "s\<lparr>flushTimer := False\<rparr>" cfg]
    by (cases "queue s = []") (auto simp: s' notStranded_def flush_def)
next
  case FlushCall
  with assms show ?thesis by (auto intro: notStranded_flush_keep)
next
  case (CloseCall now t)
  with assms(2) show ?thesis using closeQueue_closed by (auto simp: notStranded_def)
next
  case (CloseWakes i now)
  with assms(2) have w: "closeWakes cfg now i s = Some s'" by simp
  from closeWakes_closed(3) [OF this] show ?thesis
  proof
    assume e: "s' = s\<lparr>closers := closers s'\<rparr>"
    have "notStranded (s\<lparr>closers := closers s'\<rparr>)"
      using assms(1) by (simp add: notStranded_def processing_def)
    with e show ?thesis by metis
  next
    assume e: "s' = (snd (flush cfg s))\<lparr>closers := closers s'\<rparr>"
    have "notStranded ((snd (flush cfg s))\<lparr>closers := closers s'\<rparr>)"
      using notStranded_flush_keep [OF assms(1)] by (simp add: notStranded_def processing_def)
    with e show ?thesis by metis
  qed
next
  case (SendResolves r)
  with assms show ?thesis
    by (auto simp: notStranded_def frame split: option.splits Flight.splits sendPhase.splits)
next
  case (SendRejects now rnd e)
  with assms(2) obtain bt k where "s' = sendRejects cfg pd now rnd e k (Flight bt (Sending k)) s"
    by (auto split: option.splits Flight.splits sendPhase.splits)
  then show ?thesis
    by (cases rule: sendRejects_cases [of cfg pd now rnd e k "Flight bt (Sending k)" s])
       (auto simp: notStranded_def processing_def frame)
next
  case BackoffOver
  with assms(2) show ?thesis
    by (auto simp: notStranded_def processing_def split: option.splits Flight.splits sendPhase.splits)
next
  case NoAttemptsLeft
  with assms(2) obtain bt where "s' = flushFails cfg (Flight bt GivingUp) s"
    by (auto split: option.splits Flight.splits sendPhase.splits)
  then show ?thesis by (auto simp: notStranded_def frame)
qed

subsection \<open>Properties\<close>

lemma budget_le:
  assumes "books cfg q f acc del ovf exh wire"
  shows "budget (maxAttempts (retry cfg)) q f
    \<le> maxAttempts (retry cfg) * maxAttempts (retry cfg) * length (line q f)"
proof -
  let ?M = "maxAttempts (retry cfg)"
  have q: "(\<Sum>e\<leftarrow>q. attempts e * ?M) \<le> ?M * ?M * length q"
  proof (rule sum_list_le_const)
    fix e assume "e \<in> set q"
    then have "attempts e = 0 \<or> attempts e < ?M"
      using assms by (auto simp: books_def Let_def split: option.splits)
    then show "attempts e * ?M \<le> ?M * ?M"
      using attempt_cost_le [of "attempts e" ?M 0] by simp
  qed
  show ?thesis
  proof (cases f)
    case None
    with q show ?thesis by (simp add: budget_def line_def)
  next
    case (Some g)
    have "(\<Sum>e\<leftarrow>batch g. attempts e * ?M + phaseCost ?M (phase g)) \<le> ?M * ?M * length (batch g)"
    proof (rule sum_list_le_const)
      fix e assume "e \<in> set (batch g)"
      then have "attempts e = 0 \<or> attempts e < ?M" and p: "phaseOk ?M (phase g)"
        using assms Some by (auto simp: books_def Let_def)
      then show "attempts e * ?M + phaseCost ?M (phase g) \<le> ?M * ?M"
        by (intro attempt_cost_le phaseCost_le)
           (auto simp: phaseOk_def phaseCost_def split: sendPhase.splits)
    qed
    with q Some show ?thesis
      by (simp add: budget_def line_def algebra_simps)
  qed
qed


text \<open>
  the queue is bounded, though not by \<open>maxQueueSize\<close> alone: while a flush is suspended it holds
  at most \<open>maxQueueSize\<close> events, and a failed flush puts its batch back, so otherwise it holds at most
  one batch more. The transport is handed at most \<open>maxAttempts\<close> squared copies per accepted
  event: \<open>maxAttempts\<close> sends in each of \<open>maxAttempts\<close> flushes.
\<close>

theorem queue_size_and_send_budget:
  assumes "qreach cfg pd r"
  shows "queueSize (qs r) \<le> maxQueueSize cfg + (if processing (qs r) then 0 else maxBatchSize cfg)
    \<and> length (flightBatch (qs r)) \<le> maxBatchSize cfg
    \<and> length (concat (log_wire r)) \<le> maxAttempts (retry cfg) ^ 2 * length (log_accepted r)"
proof -
  let ?M = "maxAttempts (retry cfg)"
  note b = qreach_books [OF assms, unfolded runBooks_def]
  have "mset (log_accepted r) = mset (log_delivered r @ line (queue (qs r)) (flight (qs r))
      @ log_overflow r @ log_exhausted r)"
    using b unfolding books_def Let_def by (elim conjE)
  from arg_cong [OF this, of size]
  have acc: "length (log_accepted r) = length (line (queue (qs r)) (flight (qs r)))
      + length (log_delivered r @ log_overflow r @ log_exhausted r)"
    by simp
  have "length (concat (log_wire r)) \<le> budget ?M (queue (qs r)) (flight (qs r))
      + ?M * ?M * length (log_delivered r @ log_overflow r @ log_exhausted r)"
    using b unfolding books_def Let_def by (elim conjE)
  also have "\<dots> \<le> ?M * ?M * length (line (queue (qs r)) (flight (qs r)))
      + ?M * ?M * length (log_delivered r @ log_overflow r @ log_exhausted r)"
    using budget_le [OF b] by simp
  also have "\<dots> = ?M * ?M * length (log_accepted r)"
    unfolding acc by (simp only: distrib_left)
  finally have "length (concat (log_wire r)) \<le> ?M ^ 2 * length (log_accepted r)"
    by (simp add: power2_eq_square)
  then show ?thesis
    using b by (auto simp: books_def Let_def queueSize_def processing_def flightBatch_def qbound_def)
qed

text \<open>
  C24: no event is stranded: while the queue is open and holds events, a flush is under way or the
  flush timer is armed, so that an idle page still sends them.
\<close>

theorem no_event_is_stranded:
  assumes "qreach cfg pd r" "queue (qs r) \<noteq> []" "\<not> isClosed (qs r)"
  shows "processing (qs r) \<or> flushTimer (qs r)"
proof -
  from assms(1) have "notStranded (qs r)"
  proof (induction rule: qreach.induct)
    case start
    show ?case by (simp add: notStranded_def qstart_def newQueue_def)
  next
    case (step r a r')
    then show ?case
      by (auto simp: qnext_def qlog_def Let_def split: option.splits intro: notStranded_qact)
  qed
  with assms(2,3) show ?thesis by (simp add: notStranded_def isClosed_def)
qed

text \<open>
  the wait before a retry is never negative and never more than the cap plus its jitter; a
  server's \<open>Retry-After\<close> is honoured up to the cap itself.
\<close>

theorem retry_delay_bounds:
  assumes "0 \<le> baseDelayMs c" "0 \<le> maxDelayMs c" "0 \<le> jitterFactor c" "0 \<le> rnd" "rnd < 1"
  shows "0 \<le> retryDelay pd now rnd e n c
    \<and> retryDelay pd now rnd e n c \<le> maxDelayMs c * (1 + jitterFactor c)
    \<and> (\<forall>d. parseRetryAfter pd now (err_retryAfter e) = Some d
         \<longrightarrow> 0 \<le> d \<and> retryDelay pd now rnd e n c = min (of_int d) (maxDelayMs c))"
proof -
  have pos: "0 \<le> d" if "parseRetryAfter pd now (err_retryAfter e) = Some d" for d
    using that by (auto simp: parseRetryAfter_def split: option.splits if_splits)
  have cap: "maxDelayMs c \<le> maxDelayMs c * (1 + jitterFactor c)"
    using assms by (simp add: algebra_simps)
  define capped where "capped = min (baseDelayMs c * 2 ^ n) (maxDelayMs c)"
  have c0: "0 \<le> capped" "capped \<le> maxDelayMs c"
    using assms by (auto simp: capped_def)
  have "capped * jitterFactor c * (rnd * 2 - 1) \<le> capped * jitterFactor c * 1"
    using assms c0 by (intro mult_left_mono) auto
  also have "\<dots> \<le> maxDelayMs c * jitterFactor c"
    using assms c0 by (simp add: mult_right_mono)
  finally have "capped + capped * jitterFactor c * (rnd * 2 - 1) \<le> maxDelayMs c * (1 + jitterFactor c)"
    using c0 by (simp add: distrib_left)
  moreover have "rat_of_int (max 0 \<lfloor>x\<rfloor>) \<le> max 0 x" for x :: rat
    by (auto simp: max_def)
  ultimately have "of_int (calculateRetryDelay rnd n c) \<le> maxDelayMs c * (1 + jitterFactor c)"
    using cap assms(2) unfolding calculateRetryDelay_def Let_def capped_def [symmetric]
    by (meson max.boundedI order_trans)
  then show ?thesis
    using pos cap assms(2)
    by (auto simp: retryDelay_def calculateRetryDelay_def Let_def min_le_iff_disj split: option.splits)
qed




text \<open>
  a flush that fails while \<open>close()\<close> waits for it rejects the close instead of being retried until
  the deadline, and although the queue is closed and its timer was cancelled, the \<open>finally\<close> clause
  arms the timer again for the events that went back into the queue.
\<close>

theorem failed_flush_rejects_close:
  assumes "closed s" "flight s = Some (Flight b (Sending n))"
    and "\<not> isRetryable e (retry cfg)" "err_status e = Some code"
    and "code \<notin> set (retryableStatuses (retry cfg))"
    and "x \<in> set b" "attempts x + 1 < maxAttempts (retry cfg)"
    and "i < length (closers s)" "cphase (closers s ! i) = Racing True"
  shows "let s' = sendRejects cfg pd now rnd e n (Flight b (Sending n)) s
    in cphase (closers s' ! i) = CloseRejected \<and> closed s' \<and> queue s' \<noteq> [] \<and> flushTimer s'"
proof -
  let ?s' = "flushFails cfg (Flight b (Sending n)) s"
  have s': "sendRejects cfg pd now rnd e n (Flight b (Sending n)) s = ?s'"
    using assms(3-5) by (simp add: sendRejects_def)
  have q: "requeue cfg b (queue s) \<noteq> []"
    using assms(6,7) by (force simp: requeue_eq filter_empty_conv)
  have "closers (flushFinally t) = closers t" for t :: "'a EventQueue"
    by (simp add: flushFinally_def Let_def frame)
  then have "closers ?s' = settleClosers CloseRejected (closers s)"
    by (simp add: flushFails_def Let_def)
  then show ?thesis
    using assms q unfolding s' by (simp add: Let_def frame settleClosers_def)
qed

subsection \<open>A concrete run\<close>

definition demoCfg :: ResolvedQueueConfig where
  "demoCfg = \<lparr>flushIntervalMs = 10, maxBatchSize = 1, maxQueueSize = 2, immediateFlushTypes = [[1]],
     retry = DEFAULT_RETRY_CONFIG\<lparr>maxAttempts := 2\<rparr>\<rparr>"

definition demoEvent :: "nat \<Rightarrow> nat \<Rightarrow> unit ClientEvent" where
  "demoEvent i t = \<lparr>event_id = [i], sequence_number = i, event_type = [t], ev_timestamp = [],
     ev_tags = [], ev_context = (), ev_breadcrumbs = [], ev_payload = ()\<rparr>"

definition demoError :: "int \<Rightarrow> SendError" where
  "demoError st = \<lparr>isTypeError = False, err_message = [], err_status = Some st, err_retryAfter = None\<rparr>"

text \<open>One event, refused with a retryable status at every attempt of both flushes.\<close>

definition retryActs :: "unit qaction list" where
  "retryActs = [Enqueue 0 (demoEvent 0 0), TimerFires, SendRejects 1 0 (demoError 503), BackoffOver,
     SendRejects 2 0 (demoError 503), TimerFires, SendRejects 3 0 (demoError 503), BackoffOver,
     SendRejects 4 0 (demoError 503)]"

text \<open>Three events in a queue of two: the oldest non-critical one is dropped, the critical one sent at once.\<close>

definition overflowActs :: "unit qaction list" where
  "overflowActs = [Enqueue 0 (demoEvent 0 0), Enqueue 0 (demoEvent 1 0), Enqueue 1 (demoEvent 2 1),
     SendResolves \<lparr>accepted = 1, duplicate = 0, rejected = 0, request_id = []\<rparr>]"

definition demoRun :: "unit qaction list \<Rightarrow> unit qrunState" where
  "demoRun as = the (qexec demoCfg (\<lambda>_. None) qstart as)"

lemmas queue_eval = qnext_def qlog_def qstart_def newQueue_def enqueue_def flush_def processing_def
  timerFires_def sendRejects_def flushFails_def flushFinally_def flushSucceeds_def scheduleFlush_def
  settleClosers_def sendLoopHead_def requeue_def isRetryable_def overflowDrop_def failing_def
  wireSend_def flightBatch_def demoCfg_def demoEvent_def demoError_def DEFAULT_RETRY_CONFIG_def Let_def

lemma retryActs_runs:
  "qexec demoCfg (\<lambda>_. None) qstart retryActs \<noteq> None
   \<and> map (map event_id) (log_wire (demoRun retryActs)) = [[[0]], [[0]], [[0]], [[0]]]
   \<and> log_accepted (demoRun retryActs) = [demoEvent 0 0] \<and> log_exhausted (demoRun retryActs) = [demoEvent 0 0]"
  by (simp add: demoRun_def retryActs_def queue_eval)

lemma overflowActs_runs:
  "qexec demoCfg (\<lambda>_. None) qstart overflowActs \<noteq> None
   \<and> log_delivered (demoRun overflowActs) = [demoEvent 1 0] \<and> log_overflow (demoRun overflowActs) = [demoEvent 0 0]
   \<and> map event (queue (qs (demoRun overflowActs))) = [demoEvent 2 1]"
  by (simp add: demoRun_def overflowActs_def queue_eval)

lemma demoRun_reach:
  assumes "qexec demoCfg (\<lambda>_. None) qstart as \<noteq> None"
  shows "qreach demoCfg (\<lambda>_. None) (demoRun as)"
  using assms qexec_reach [OF qreach.start] unfolding demoRun_def by fastforce


theorem queue_size_and_send_budget_witness:
  "queueSize (qs (demoRun retryActs)) \<le> 3 \<and> length (concat (log_wire (demoRun retryActs))) = 4
   \<and> length (concat (log_wire (demoRun retryActs))) \<le> 2 ^ 2 * length (log_accepted (demoRun retryActs))"
  using queue_size_and_send_budget [OF demoRun_reach [of retryActs]] retryActs_runs
  by (simp add: demoRun_def retryActs_def queue_eval queueSize_def)

theorem no_event_is_stranded_witness:
  "processing (qs (demoRun overflowActs)) \<or> flushTimer (qs (demoRun overflowActs))"
  by (rule no_event_is_stranded [OF demoRun_reach])
     (simp_all add: demoRun_def overflowActs_def queue_eval isClosed_def)

theorem retry_delay_bounds_witness:
  "0 \<le> retryDelay (\<lambda>_. None) 0 (1 / 2) (demoError 503) 4 DEFAULT_RETRY_CONFIG
   \<and> retryDelay (\<lambda>_. None) 0 (1 / 2) (demoError 503) 4 DEFAULT_RETRY_CONFIG \<le> 10000 * (1 + 1 / 5)"
  using retry_delay_bounds [of DEFAULT_RETRY_CONFIG "1 / 2" "\<lambda>_. None" 0 "demoError 503" 4]
  by (simp add: DEFAULT_RETRY_CONFIG_def)

definition closingQueue :: "unit EventQueue" where
  "closingQueue = newQueue\<lparr>closed := True, flight := Some (Flight [\<lparr>event = demoEvent 0 0, attempts = 0, addedAt = 0\<rparr>] (Sending 0)),
     closers := [\<lparr>deadline = 5000, cphase = Racing True\<rparr>]\<rparr>"

theorem failed_flush_rejects_close_witness:
  "flushTimer (sendRejects demoCfg (\<lambda>_. None) 9 0 (demoError 400) 0
      (Flight [\<lparr>event = demoEvent 0 0, attempts = 0, addedAt = 0\<rparr>] (Sending 0)) closingQueue)"
  using failed_flush_rejects_close [of closingQueue "[\<lparr>event = demoEvent 0 0, attempts = 0, addedAt = 0\<rparr>]" 0
      "demoError 400" demoCfg 400 "\<lparr>event = demoEvent 0 0, attempts = 0, addedAt = 0\<rparr>" 0 "\<lambda>_. None" 9 0]
  by (simp add: closingQueue_def newQueue_def demoError_def demoCfg_def DEFAULT_RETRY_CONFIG_def isRetryable_def Let_def)

end
