(* ===== verification/Paths.thy ===== *)
theory Paths
  imports Prelude
begin

text \<open>
  What the artifact code uses of the JavaScript and Node libraries: case mapping as far as it
  matters for comparison with ASCII strings, \<open>decodeURIComponent\<close>, and the POSIX functions of
  \<open>node:path\<close> (\<open>resolve\<close>, \<open>relative\<close>, \<open>isAbsolute\<close>) on normalised segment lists.
\<close>

subsection \<open>Case mapping\<close>

text \<open>
  \<open>toLowerCase\<close> and \<open>toUpperCase\<close> on ASCII letters; the Kelvin sign is the one other code unit
  whose lower case is an ASCII string, the dotless i and the long s the two whose upper case is
  one ASCII letter. A string built from other units never becomes equal to an ASCII string of the
  tables that the code compares with.
\<close>

definition lowerUnit :: "nat \<Rightarrow> nat" where
  "lowerUnit c = (if isUpper c then c + 32 else if c = 8490 then 107 else c)"

definition upperUnit :: "nat \<Rightarrow> nat" where
  "upperUnit c = (if isLower c then c - 32 else if c = 305 then 73 else if c = 383 then 83 else c)"

definition toLower :: "jstr \<Rightarrow> jstr" where "toLower s = map lowerUnit s"
definition toUpper :: "jstr \<Rightarrow> jstr" where "toUpper s = map upperUnit s"

definition hasControlChars :: "jstr \<Rightarrow> bool" where
  "hasControlChars s \<longleftrightarrow> (\<exists>c \<in> set s. c \<le> 31 \<or> c = 127)"

subsection \<open>Percent decoding\<close>

definition hexVal :: "nat \<Rightarrow> nat option" where
  "hexVal c = (if isDigit c then Some (c - 48)
     else if 65 \<le> c \<and> c \<le> 70 then Some (c - 55)
     else if 97 \<le> c \<and> c \<le> 102 then Some (c - 87) else None)"

text \<open>One escape \<open>%XX\<close> at the front of the string.\<close>

fun pctByte :: "jstr \<Rightarrow> (nat \<times> jstr) option" where
  "pctByte (p # a # b # rest) =
     (if p = 37 then (case (hexVal a, hexVal b) of (Some x, Some y) \<Rightarrow> Some (16 * x + y, rest) | _ \<Rightarrow> None)
      else None)"
| "pctByte s = None"

text \<open>\<open>n\<close> continuation bytes, each an escape of \<open>10xxxxxx\<close>, added to the bits read so far.\<close>

fun pctContinuation :: "nat \<Rightarrow> nat \<Rightarrow> jstr \<Rightarrow> (nat \<times> jstr) option" where
  "pctContinuation 0 acc s = Some (acc, s)"
| "pctContinuation (Suc n) acc s = (case pctByte s of
      Some (b, rest) \<Rightarrow> if b div 64 = 2 then pctContinuation n (acc * 64 + b mod 64) rest else None
    | None \<Rightarrow> None)"

text \<open>One decoded code point as UTF-16 code units; overlong forms and surrogates are errors.\<close>

definition pctChar :: "jstr \<Rightarrow> (jstr \<times> jstr) option" where
  "pctChar s = (case pctByte s of None \<Rightarrow> None
    | Some (b, rest) \<Rightarrow>
        if b < 128 then Some ([b], rest)
        else if b div 32 = 6 then
          (case pctContinuation 1 (b mod 32) rest of
             Some (v, r) \<Rightarrow> if 128 \<le> v then Some ([v], r) else None | None \<Rightarrow> None)
        else if b div 16 = 14 then
          (case pctContinuation 2 (b mod 16) rest of
             Some (v, r) \<Rightarrow> if 2048 \<le> v \<and> \<not> (55296 \<le> v \<and> v \<le> 57343) then Some ([v], r) else None
           | None \<Rightarrow> None)
        else if b div 8 = 30 then
          (case pctContinuation 3 (b mod 8) rest of
             Some (v, r) \<Rightarrow> if 65536 \<le> v \<and> v \<le> 1114111
               then Some ([55296 + (v - 65536) div 1024, 56320 + (v - 65536) mod 1024], r) else None
           | None \<Rightarrow> None)
        else None)"

lemma pctByte_shorter: "pctByte s = Some (b, r) \<Longrightarrow> length r < length s"
  by (induction s rule: pctByte.induct) (auto split: if_splits option.splits)

lemma pctContinuation_shorter: "pctContinuation n a s = Some (v, r) \<Longrightarrow> length r \<le> length s"
  by (induction n a s rule: pctContinuation.induct)
     (fastforce split: option.splits if_splits dest!: pctByte_shorter)+

lemma pctChar_shorter:
  assumes "pctChar s = Some (u, r)"
  shows "length r < length s"
proof (cases "pctByte s")
  case None
  with assms show ?thesis by (simp only: pctChar_def option.case option.distinct)
next
  case (Some p)
  obtain b rest where p: "p = (b, rest)" by (cases p)
  have "r = rest \<or> (\<exists>n a v. pctContinuation n a rest = Some (v, r))"
    using assms unfolding pctChar_def Some p option.case prod.case
    by (simp only: split: if_split_asm option.split_asm prod.split_asm) blast+
  with Some p show ?thesis
    using pctByte_shorter pctContinuation_shorter by (metis le_less_trans)
qed

function decodeURIComponent :: "jstr \<Rightarrow> jstr option" where
  "decodeURIComponent [] = Some []"
| "decodeURIComponent (c # s) =
     (if c = 37 then (case pctChar (c # s) of None \<Rightarrow> None
        | Some (u, r) \<Rightarrow> map_option ((@) u) (decodeURIComponent r))
      else map_option ((#) c) (decodeURIComponent s))"
  by pat_completeness auto

termination
  by (relation "measure length") (auto dest: pctChar_shorter)

lemma decodeURIComponent_plain: "37 \<notin> set s \<Longrightarrow> decodeURIComponent s = Some s"
  by (induction s) auto

subsection \<open>POSIX paths\<close>

definition isAbsolute :: "jstr \<Rightarrow> bool" where
  "isAbsolute p = startsWith p [47]"

text \<open>Walking the segments of \<open>p\<close> from the directory \<open>st\<close>: empty and dot segments stay, two dots go up.\<close>

definition walkSegment :: "jstr list \<Rightarrow> jstr \<Rightarrow> jstr list" where
  "walkSegment st seg = (if seg = [] \<or> seg = [46] then st else if seg = [46, 46] then butlast st else st @ [seg])"

definition walk :: "jstr list \<Rightarrow> jstr \<Rightarrow> jstr list" where
  "walk st p = foldl walkSegment (if isAbsolute p then [] else st) (split_on 47 p)"

text \<open>\<open>path.resolve\<close> and \<open>path.relative\<close>, \<open>cwd\<close> being the segments of the working directory.\<close>

definition resolveSegs :: "jstr list \<Rightarrow> jstr list \<Rightarrow> jstr list" where
  "resolveSegs cwd args = foldl walk cwd args"

definition pathString :: "jstr list \<Rightarrow> jstr" where
  "pathString segs = 47 # join [47] segs"

fun dropCommon :: "'a list \<Rightarrow> 'a list \<Rightarrow> 'a list \<times> 'a list" where
  "dropCommon (x # xs) (y # ys) = (if x = y then dropCommon xs ys else (x # xs, y # ys))"
| "dropCommon xs ys = (xs, ys)"

definition relativeSegs :: "jstr list \<Rightarrow> jstr list \<Rightarrow> jstr list" where
  "relativeSegs src dst = (let (f, t) = dropCommon src dst in map (\<lambda>_. [46, 46]) f @ t)"

definition relativePath :: "jstr list \<Rightarrow> jstr list \<Rightarrow> jstr" where
  "relativePath src dst = join [47] (relativeSegs src dst)"

lemma dropCommon_append [simp]: "dropCommon xs (xs @ ys) = ([], ys)"
  by (induction xs) auto

lemma dropCommon_prefix: "dropCommon xs ys = ([], t) \<Longrightarrow> ys = xs @ t"
  by (induction xs ys rule: dropCommon.induct) (auto split: if_splits)

lemma relativeSegs_append [simp]: "relativeSegs xs (xs @ ys) = ys"
  by (simp add: relativeSegs_def)

text \<open>A segment that is a name: not empty, no dots that walk, no separator.\<close>

definition plainSegment :: "jstr \<Rightarrow> bool" where
  "plainSegment s \<longleftrightarrow> s \<noteq> [] \<and> s \<noteq> [46] \<and> s \<noteq> [46, 46] \<and> 47 \<notin> set s"

lemma walk_plain [simp]: "plainSegment s \<Longrightarrow> walk st s = st @ [s]"
  by (cases s) (auto simp: walk_def plainSegment_def walkSegment_def isAbsolute_def split_on_single)

lemma resolveSegs_plain: "\<forall>s \<in> set ss. plainSegment s \<Longrightarrow> foldl walk st ss = st @ ss"
  by (induction ss arbitrary: st) auto

lemma join_eq_Nil: "\<forall>s \<in> set ss. s \<noteq> [] \<Longrightarrow> join sep ss = [] \<longleftrightarrow> ss = []"
  by (cases "(sep, ss)" rule: join.cases) auto

lemma split_on_join_plain: "ss \<noteq> [] \<Longrightarrow> \<forall>s \<in> set ss. plainSegment s \<Longrightarrow> split_on 47 (join [47] ss) = ss"
  by (rule split_on_join) (auto simp: plainSegment_def)

lemma join_inj:
  assumes "ss \<noteq> []" "ts \<noteq> []" "\<forall>s \<in> set ss. plainSegment s" "\<forall>s \<in> set ts. plainSegment s"
    "join [47] ss = join [47] ts"
  shows "ss = ts"
  using assms by (metis split_on_join_plain)

text \<open>The containment test on the relative path is the prefix test on segments.\<close>

definition escapesRel :: "jstr \<Rightarrow> bool" where
  "escapesRel r \<longleftrightarrow> r = [46, 46] \<or> startsWith r [46, 46, 47] \<or> isAbsolute r"

lemma join_Cons: "join sep (s # ss) = s @ (if ss = [] then [] else sep @ join sep ss)"
  by (cases ss) auto

lemma startsWith_dotdot_slash:
  "47 \<notin> set s \<Longrightarrow> startsWith (s @ 47 # t) [46, 46, 47] \<longleftrightarrow> s = [46, 46]"
proof
  assume n: "47 \<notin> set s" and "startsWith (s @ 47 # t) [46, 46, 47]"
  then obtain u where "s @ 47 # t = [46, 46] @ 47 # u" by (auto simp: startsWith_append)
  then have "split_on 47 (s @ 47 # t) = split_on 47 ([46, 46] @ 47 # u)" by simp
  then show "s = [46, 46]" using n by (subst (asm) (1 2) split_on_append_sep) auto
qed simp

lemma escapesRel_join:
  assumes "\<forall>s \<in> set ss. s \<noteq> [] \<and> 47 \<notin> set s"
  shows "escapesRel (join [47] ss) \<longleftrightarrow> (\<exists>ts. ss = [46, 46] # ts)"
proof (cases ss)
  case Nil
  then show ?thesis by (simp add: escapesRel_def isAbsolute_def)
next
  case (Cons s ts)
  have s: "s \<noteq> []" "47 \<notin> set s" using assms Cons by auto
  then have abs: "\<not> isAbsolute (join [47] ss)"
    by (cases s) (auto simp: Cons join_Cons isAbsolute_def)
  show ?thesis
  proof (cases "ts = []")
    case True
    have "\<not> startsWith s [46, 46, 47]"
      using s by (auto simp: startsWith_append)
    then show ?thesis using abs Cons True by (auto simp: escapesRel_def)
  next
    case False
    then have j: "join [47] ss = s @ 47 # join [47] ts" by (simp add: Cons join_Cons)
    moreover have "s @ 47 # join [47] ts \<noteq> [46, 46]"
      using s by (auto simp: append_eq_Cons_conv)
    ultimately show ?thesis
      using abs s Cons startsWith_dotdot_slash [of s "join [47] ts"] by (auto simp: escapesRel_def)
  qed
qed

lemma plain_not_escaping:
  assumes pl: "\<forall>s \<in> set ss. plainSegment s"
  shows "\<not> escapesRel (join [47] ss)" "ss \<noteq> [] \<Longrightarrow> join [47] ss \<noteq> []"
proof -
  have n: "\<forall>s \<in> set ss. s \<noteq> [] \<and> 47 \<notin> set s"
    using pl by (simp add: plainSegment_def)
  show "\<not> escapesRel (join [47] ss)"
  proof
    assume "escapesRel (join [47] ss)"
    then obtain ts where "ss = [46, 46] # ts" using escapesRel_join [OF n] by blast
    then have "plainSegment [46, 46]" using pl by simp
    then show False by (simp add: plainSegment_def)
  qed
  show "ss \<noteq> [] \<Longrightarrow> join [47] ss \<noteq> []"
    using n join_eq_Nil by blast
qed

lemma contained_iff_prefix:
  assumes "\<forall>s \<in> set dst. plainSegment s"
  shows "\<not> escapesRel (relativePath src dst) \<longleftrightarrow> (\<exists>t. dst = src @ t)"
proof -
  obtain f t where d: "dropCommon src dst = (f, t)" by (cases "dropCommon src dst")
  have tin: "set t \<subseteq> set dst" if "dropCommon src dst = (f, t)" for src dst f t :: "jstr list"
    using that by (induction src dst rule: dropCommon.induct) (auto split: if_splits)
  have "\<forall>s \<in> set (map (\<lambda>_. [46, 46]) f @ t). s \<noteq> [] \<and> 47 \<notin> set s"
    using assms tin [OF d] by (auto simp: plainSegment_def)
  then have e: "escapesRel (relativePath src dst) \<longleftrightarrow> (\<exists>ts. map (\<lambda>_. [46, 46]) f @ t = [46, 46] # ts)"
    using escapesRel_join by (simp add: relativePath_def relativeSegs_def d)
  show ?thesis
  proof (cases f)
    case Nil
    then have "dst = src @ t" using d dropCommon_prefix by auto
    moreover have "hd t \<noteq> [46, 46]" if "t \<noteq> []"
      using that assms tin [OF d] hd_in_set by (fastforce simp: plainSegment_def)
    ultimately show ?thesis using e Nil by (cases t) auto
  next
    case (Cons x xs)
    then have "escapesRel (relativePath src dst)" using e by simp
    moreover have "\<nexists>t. dst = src @ t"
    proof
      assume "\<exists>t. dst = src @ t"
      then have "f = []" using d by auto
      with Cons show False by simp
    qed
    ultimately show ?thesis by simp
  qed
qed

end
