(* ===== verification/Json.thy ===== *)
theory Json
  imports Prelude Complex_Main
begin

text \<open>
  JSON values, the type of everything the source calls \<open>unknown\<close> after \<open>JSON.parse\<close>. The
  properties of an object are an association list with distinct keys; reading an absent
  property gives \<open>None\<close>, JavaScript's \<open>undefined\<close>.
\<close>

datatype json = JNull | JBool bool | JNum rat | JStr jstr | JArr "json list" | JObj "(jstr \<times> json) list"

fun isRecord :: "json \<Rightarrow> bool" where
  "isRecord (JObj m) = True"
| "isRecord j = False"

fun getProp :: "json \<Rightarrow> jstr \<Rightarrow> json option" where
  "getProp (JObj m) k = map_of m k"
| "getProp j k = None"

fun isJStr :: "json \<Rightarrow> bool" where
  "isJStr (JStr s) = True"
| "isJStr j = False"

fun strOf :: "json \<Rightarrow> jstr" where
  "strOf (JStr s) = s"
| "strOf j = []"

definition isStringArray :: "json option \<Rightarrow> bool" where
  "isStringArray v = (case v of Some (JArr xs) \<Rightarrow> (\<forall>x \<in> set xs. isJStr x) | _ \<Rightarrow> False)"

definition typeofString :: "json option \<Rightarrow> bool" where
  "typeofString v = (case v of Some (JStr s) \<Rightarrow> True | _ \<Rightarrow> False)"

end
