(* ===== verification/ArtifactKeys.thy ===== *)
theory ArtifactKeys
  imports Paths Json
begin

text \<open>
  Storage keys and the blob store of \<open>packages/artifacts/src\<close> (\<open>storage-keys.ts\<close>,
  \<open>local-storage.ts\<close>, \<open>errors.ts\<close>, \<open>load.ts\<close>). Keys become paths below the artifact root; the store
  is a file system whose operations may fail.
\<close>

subsection \<open>Errors\<close>

datatype ArtifactError =
    ArtifactKeyError jstr jstr
  | ArtifactNotFoundError jstr
  | ArtifactStorageError jstr
  | ArtifactConfigError jstr
  | ArtifactTooLargeError jstr nat int
  | ArtifactPathError jstr
  | InvalidSourceMapError jstr
  | InvalidArtifactTypeError jstr
  | ArtifactLimitError jstr

fun artifactErrorCode :: "ArtifactError \<Rightarrow> jstr" where
  "artifactErrorCode (ArtifactKeyError k m) = js ''ARTIFACT_KEY_INVALID''"
| "artifactErrorCode (ArtifactNotFoundError k) = js ''ARTIFACT_NOT_FOUND''"
| "artifactErrorCode (ArtifactStorageError m) = js ''ARTIFACT_STORAGE_ERROR''"
| "artifactErrorCode (ArtifactConfigError m) = js ''ARTIFACT_CONFIG_INVALID''"
| "artifactErrorCode (ArtifactTooLargeError k n m) = js ''ARTIFACT_TOO_LARGE''"
| "artifactErrorCode (ArtifactPathError m) = js ''ARTIFACT_PATH_INVALID''"
| "artifactErrorCode (InvalidSourceMapError m) = js ''INVALID_SOURCE_MAP''"
| "artifactErrorCode (InvalidArtifactTypeError m) = js ''INVALID_ARTIFACT_TYPE''"
| "artifactErrorCode (ArtifactLimitError m) = js ''ARTIFACT_INVALID_LIMIT''"

subsection \<open>Keys\<close>

definition STORAGE_KEY_MAX_LENGTH :: nat where "STORAGE_KEY_MAX_LENGTH = 1024"
definition STORAGE_KEY_MAX_SEGMENTS :: nat where "STORAGE_KEY_MAX_SEGMENTS = 8"
definition STORAGE_KEY_SEGMENT_MAX_LENGTH :: nat where "STORAGE_KEY_SEGMENT_MAX_LENGTH = 128"

definition isHex :: "nat \<Rightarrow> bool" where
  "isHex c \<longleftrightarrow> isDigit c \<or> (65 \<le> c \<and> c \<le> 70) \<or> (97 \<le> c \<and> c \<le> 102)"

definition isLowerHex :: "nat \<Rightarrow> bool" where
  "isLowerHex c \<longleftrightarrow> isDigit c \<or> (97 \<le> c \<and> c \<le> 102)"

definition SEGMENT_PATTERN :: "jstr \<Rightarrow> bool" where
  "SEGMENT_PATTERN s = (case s of [] \<Rightarrow> False
     | c # cs \<Rightarrow> isAlnum c \<and> length cs \<le> 127 \<and> (\<forall>d \<in> set cs. isAlnum d \<or> d = 95 \<or> d = 45))"

definition UUID_PATTERN :: "jstr \<Rightarrow> bool" where
  "UUID_PATTERN s \<longleftrightarrow> map length (split_on 45 s) = [8, 4, 4, 4, 12] \<and> (\<forall>p \<in> set (split_on 45 s). \<forall>c \<in> set p. isHex c)"

definition CONTENT_HASH_PATTERN :: "jstr \<Rightarrow> bool" where
  "CONTENT_HASH_PATTERN s \<longleftrightarrow> length s = 64 \<and> (\<forall>c \<in> set s. isLowerHex c)"

definition invalidSegment :: "jstr \<Rightarrow> bool" where
  "invalidSegment s \<longleftrightarrow> length s = 0 \<or> STORAGE_KEY_SEGMENT_MAX_LENGTH < length s \<or> \<not> SEGMENT_PATTERN s"

text \<open>\<open>asString\<close> stands for \<open>String(input)\<close> on a value that is not a string; it only reaches the error.\<close>

definition validateStorageKey :: "(json \<Rightarrow> jstr) \<Rightarrow> json \<Rightarrow> ArtifactError + jstr" where
  "validateStorageKey asString input =
     (case input of JStr key \<Rightarrow>
        if length key < 1 \<or> STORAGE_KEY_MAX_LENGTH < length key
        then Inl (ArtifactKeyError key (js ''Storage key must be 1-1024 characters''))
        else let segments = split_on 47 key
             in if STORAGE_KEY_MAX_SEGMENTS < length segments
                then Inl (ArtifactKeyError key (js ''Storage key must have at most 8 segments''))
                else if list_ex invalidSegment segments
                then Inl (ArtifactKeyError key (js ''Storage key has an invalid segment''))
                else Inr key
      | _ \<Rightarrow> Inl (ArtifactKeyError (asString input) (js ''Storage key must be a string'')))"

definition buildArtifactStorageKey :: "(json \<Rightarrow> jstr) \<Rightarrow> json \<Rightarrow> json \<Rightarrow> json \<Rightarrow> ArtifactError + jstr" where
  "buildArtifactStorageKey asString projectId releaseId contentHash =
     (if \<not> (isJStr projectId \<and> UUID_PATTERN (strOf projectId))
      then Inl (ArtifactKeyError (asString projectId) (js ''Project id must be a UUID''))
      else if \<not> (isJStr releaseId \<and> UUID_PATTERN (strOf releaseId))
      then Inl (ArtifactKeyError (asString releaseId) (js ''Release id must be a UUID''))
      else if \<not> (isJStr contentHash \<and> CONTENT_HASH_PATTERN (strOf contentHash))
      then Inl (ArtifactKeyError (asString contentHash) (js ''Content hash must be 64 lowercase hex characters''))
      else Inr (strOf projectId @ [47] @ strOf releaseId @ [47] @ strOf contentHash))"

record ParsedArtifactStorageKey =
  pk_projectId :: jstr
  pk_releaseId :: jstr
  pk_contentHash :: jstr

definition parseArtifactStorageKey :: "(json \<Rightarrow> jstr) \<Rightarrow> json \<Rightarrow> ArtifactError + ParsedArtifactStorageKey" where
  "parseArtifactStorageKey asString input =
     bindE (validateStorageKey asString input) (\<lambda>key.
       case split_on 47 key of
         [projectId, releaseId, contentHash] \<Rightarrow>
           if \<not> UUID_PATTERN projectId \<or> \<not> UUID_PATTERN releaseId
           then Inl (ArtifactKeyError key (js ''Artifact storage key ids must be UUIDs''))
           else if \<not> CONTENT_HASH_PATTERN contentHash
           then Inl (ArtifactKeyError key (js ''Artifact storage key hash must be 64 lowercase hex characters''))
           else Inr \<lparr>pk_projectId = projectId, pk_releaseId = releaseId, pk_contentHash = contentHash\<rparr>
       | _ \<Rightarrow> Inl (ArtifactKeyError key (js ''Artifact storage key must have exactly 3 segments'')))"

text \<open>The resolved path is a list of segments below \<open>/\<close>; \<open>cwd\<close> matters for a relative root only.\<close>

definition resolveStoragePath :: "(json \<Rightarrow> jstr) \<Rightarrow> jstr list \<Rightarrow> jstr \<Rightarrow> jstr \<Rightarrow> ArtifactError + jstr list" where
  "resolveStoragePath asString cwd rootDir key =
     bindE (validateStorageKey asString (JStr key)) (\<lambda>validKey.
       let resolved = resolveSegs cwd (rootDir # split_on 47 validKey);
           relative = relativePath (resolveSegs cwd [rootDir]) resolved
       in if relative = [] \<or> escapesRel relative
          then Inl (ArtifactKeyError key (js ''Storage key escapes the artifact root''))
          else Inr resolved)"

lemma SEGMENT_PATTERN_plain:
  assumes "SEGMENT_PATTERN s"
  shows "plainSegment s"
proof -
  obtain c cs where s: "s = c # cs" "isAlnum c" "\<forall>d \<in> set cs. isAlnum d \<or> d = 95 \<or> d = 45"
    using assms by (auto simp: SEGMENT_PATTERN_def split: list.splits)
  moreover have "c \<noteq> 46" "c \<noteq> 47" "47 \<notin> set cs"
    using s by (auto simp: char_class_defs)
  ultimately show ?thesis by (auto simp: plainSegment_def)
qed

definition validKey :: "jstr \<Rightarrow> bool" where
  "validKey k \<longleftrightarrow> 1 \<le> length k \<and> length k \<le> STORAGE_KEY_MAX_LENGTH
     \<and> length (split_on 47 k) \<le> STORAGE_KEY_MAX_SEGMENTS \<and> (\<forall>s \<in> set (split_on 47 k). SEGMENT_PATTERN s)"

lemma invalidSegment_iff [simp]: "invalidSegment s \<longleftrightarrow> \<not> SEGMENT_PATTERN s"
  by (auto simp: invalidSegment_def SEGMENT_PATTERN_def STORAGE_KEY_SEGMENT_MAX_LENGTH_def split: list.splits)

lemma validateStorageKey_JStr:
  "validateStorageKey asString (JStr k) = Inr k' \<longleftrightarrow> k' = k \<and> validKey k"
  by (auto simp: validateStorageKey_def validKey_def Let_def list_ex_iff Suc_le_eq split: if_splits)

lemma validateStorageKey_fst: "validKey k \<Longrightarrow> validateStorageKey asString (JStr k) = Inr k"
  by (simp add: validateStorageKey_JStr)

lemma validKey_plain: "validKey k \<Longrightarrow> \<forall>s \<in> set (split_on 47 k). plainSegment s"
  by (auto simp: validKey_def intro: SEGMENT_PATTERN_plain)

lemma resolveStoragePath_valid:
  assumes k: "validKey k"
  shows "resolveStoragePath asString cwd rootDir k = Inr (resolveSegs cwd [rootDir] @ split_on 47 k)"
proof -
  let ?r = "resolveSegs cwd [rootDir]" and ?ss = "split_on 47 k"
  note pl = validKey_plain [OF k]
  have res: "resolveSegs cwd (rootDir # ?ss) = ?r @ ?ss"
    using resolveSegs_plain [OF pl] by (simp add: resolveSegs_def)
  have rel: "relativePath ?r (?r @ ?ss) = join [47] ?ss"
    by (simp add: relativePath_def)
  show ?thesis
    using plain_not_escaping [OF pl]
    by (simp add: resolveStoragePath_def validateStorageKey_fst [OF k] res rel)
qed

lemma resolveStoragePath_Inr:
  "resolveStoragePath asString cwd rootDir k = Inr p \<longleftrightarrow> validKey k \<and> p = resolveSegs cwd [rootDir] @ split_on 47 k"
proof (cases "validKey k")
  case True
  then show ?thesis by (auto simp: resolveStoragePath_valid)
next
  case False
  then show ?thesis by (auto simp: resolveStoragePath_def bindE_Inr validateStorageKey_JStr)
qed

lemma split_on_inj: "split_on c a = split_on c b \<Longrightarrow> a = b"
  by (metis join_split_on)

lemma UUID_no_slash: "UUID_PATTERN s \<Longrightarrow> 47 \<notin> set s"
proof
  assume u: "UUID_PATTERN s" and "47 \<in> set s"
  then have "47 \<in> set (join [45] (split_on 45 s))" by simp
  then obtain p where "p \<in> set (split_on 45 s)" "47 \<in> set p"
    using set_join [of "[45]" "split_on 45 s"] by auto
  with u have "isHex 47" by (auto simp only: UUID_PATTERN_def)
  then show False by (simp add: isHex_def isDigit_def)
qed

lemma UUID_segment:
  assumes u: "UUID_PATTERN s"
  shows "SEGMENT_PATTERN s" "length s = 36"
proof -
  obtain a b c d e where sp: "split_on 45 s = [a, b, c, d, e]"
    and len: "length a = 8" "length b = 4" "length c = 4" "length d = 4" "length e = 12"
    and hex: "\<forall>x \<in> set a. isHex x" "\<forall>x \<in> set b. isHex x" "\<forall>x \<in> set c. isHex x"
      "\<forall>x \<in> set d. isHex x" "\<forall>x \<in> set e. isHex x"
    using u by (auto simp: UUID_PATTERN_def map_eq_Cons_conv)
  have s: "s = a @ 45 # b @ 45 # c @ 45 # d @ 45 # e"
    using join_split_on [of 45 s] by (simp add: sp)
  show "length s = 36" using len by (simp add: s)
  obtain x xs where a: "a = x # xs" using len(1) by (cases a) auto
  have h: "isAlnum y" if "isHex y" for y using that by (auto simp: isHex_def char_class_defs)
  have "\<forall>y \<in> set (a @ b @ c @ d @ e). isAlnum y"
    using hex h by (simp only: set_append ball_Un) blast
  then show "SEGMENT_PATTERN s"
    using len by (simp add: SEGMENT_PATTERN_def s a ball_Un) blast
qed

lemma CONTENT_HASH_segment: "CONTENT_HASH_PATTERN s \<Longrightarrow> SEGMENT_PATTERN s \<and> 47 \<notin> set s"
  by (cases s) (auto simp: CONTENT_HASH_PATTERN_def SEGMENT_PATTERN_def isLowerHex_def char_class_defs)

lemma split_on_three:
  assumes "47 \<notin> set p" "47 \<notin> set r" "47 \<notin> set h"
  shows "split_on 47 (p @ [47] @ r @ [47] @ h) = [p, r, h]"
  using assms by (simp add: split_on_append_sep split_on_single)

lemma validKey_built:
  assumes "UUID_PATTERN p" "UUID_PATTERN r" "CONTENT_HASH_PATTERN h"
  shows "validKey (p @ [47] @ r @ [47] @ h)"
proof -
  have sp: "split_on 47 (p @ [47] @ r @ [47] @ h) = [p, r, h]"
    using assms UUID_no_slash CONTENT_HASH_segment by (intro split_on_three) auto
  show ?thesis
    unfolding validKey_def sp
    using UUID_segment [OF assms(1)] UUID_segment [OF assms(2)] CONTENT_HASH_segment [OF assms(3)] assms(3)
    by (simp add: STORAGE_KEY_MAX_LENGTH_def STORAGE_KEY_MAX_SEGMENTS_def CONTENT_HASH_PATTERN_def)
qed

subsection \<open>The store\<close>

text \<open>
  The artifact root's files as a map from segment lists to bytes. \<open>put\<close> streams its source, a
  list of chunks that may end in an error, into a fresh temporary file beside the target and
  renames it; \<open>openOk\<close>, \<open>syncOk\<close> and \<open>renames\<close> are the outcomes of the system calls, the last one
  per attempt. The digest is the host's SHA-256, a parameter.
\<close>

type_synonym files = "jstr list \<Rightarrow> nat list option"

datatype renameOutcome = RenameOk | RenameFails jstr

record sysOutcome =
  openOk :: bool
  shortWrite :: bool
  syncOk :: bool
  rmOk :: bool
  renames :: "nat \<Rightarrow> renameOutcome"

record ArtifactPutResult =
  sizeBytes :: nat
  contentHash :: jstr

definition renameDelays :: "nat list" where "renameDelays = [5, 15, 40, 100, 250]"

function renameWithRetry :: "(nat \<Rightarrow> renameOutcome) \<Rightarrow> nat \<Rightarrow> bool" where
  "renameWithRetry rs attempt = (case rs attempt of RenameOk \<Rightarrow> True
     | RenameFails code \<Rightarrow>
         let transient = (code = js ''EPERM'' \<or> code = js ''EACCES'' \<or> code = js ''EBUSY'')
         in if \<not> transient \<or> length renameDelays \<le> attempt then False
            else renameWithRetry rs (attempt + 1))"
  by pat_completeness auto

termination
  by (relation "measure (\<lambda>(rs, n). length renameDelays - n)") auto

declare renameWithRetry.simps [simp del]

definition put ::
    "(json \<Rightarrow> jstr) \<Rightarrow> (nat list \<Rightarrow> jstr) \<Rightarrow> jstr list \<Rightarrow> jstr \<Rightarrow> sysOutcome \<Rightarrow> jstr
      \<Rightarrow> jstr \<Rightarrow> nat list list \<times> bool \<Rightarrow> files \<Rightarrow> (ArtifactError + ArtifactPutResult) \<times> files" where
  "put asString sha cwd rootDir io tempName key source fs =
     (case bindE (validateStorageKey asString (JStr key)) (\<lambda>_. resolveStoragePath asString cwd rootDir key) of
        Inl e \<Rightarrow> (Inl e, fs)
      | Inr target \<Rightarrow>
          let tempPath = butlast target @ [tempName];
              (chunks, complete) = source
          in if \<not> openOk io then (Inl (ArtifactStorageError (js ''Could not create artifact temp file'')), fs)
             else let written = fs(tempPath \<mapsto> concat chunks);
                      cleaned = (if rmOk io then written(tempPath := None) else written)
                  in if shortWrite io
                     then (Inl (ArtifactStorageError (js ''Short write while storing artifact'')), cleaned)
                     else if \<not> complete \<or> \<not> syncOk io
                     then (Inl (ArtifactStorageError (js ''Failed to store artifact'')), cleaned)
                     else if \<not> renameWithRetry (renames io) 0
                     then (Inl (ArtifactStorageError (js ''Failed to finalize artifact'')), cleaned)
                     else (Inr \<lparr>sizeBytes = length (concat chunks), contentHash = sha (concat chunks)\<rparr>,
                           (written(tempPath := None))(target \<mapsto> concat chunks)))"

definition getBlob :: "(json \<Rightarrow> jstr) \<Rightarrow> jstr list \<Rightarrow> jstr \<Rightarrow> jstr \<Rightarrow> files \<Rightarrow> ArtifactError + nat list" where
  "getBlob asString cwd rootDir key fs =
     bindE (validateStorageKey asString (JStr key)) (\<lambda>_.
       bindE (resolveStoragePath asString cwd rootDir key) (\<lambda>target.
         case fs target of None \<Rightarrow> Inl (ArtifactNotFoundError key) | Some b \<Rightarrow> Inr b))"

definition existsBlob :: "(json \<Rightarrow> jstr) \<Rightarrow> jstr list \<Rightarrow> jstr \<Rightarrow> jstr \<Rightarrow> files \<Rightarrow> ArtifactError + bool" where
  "existsBlob asString cwd rootDir key fs =
     bindE (validateStorageKey asString (JStr key)) (\<lambda>_.
       bindE (resolveStoragePath asString cwd rootDir key) (\<lambda>target. Inr (fs target \<noteq> None)))"

text \<open>\<open>unlinkOk\<close> is false when the system call fails on an existing file.\<close>

definition deleteBlob :: "(json \<Rightarrow> jstr) \<Rightarrow> jstr list \<Rightarrow> jstr \<Rightarrow> bool \<Rightarrow> jstr \<Rightarrow> files \<Rightarrow> (ArtifactError + bool) \<times> files" where
  "deleteBlob asString cwd rootDir unlinkOk key fs =
     (case bindE (validateStorageKey asString (JStr key)) (\<lambda>_. resolveStoragePath asString cwd rootDir key) of
        Inl e \<Rightarrow> (Inl e, fs)
      | Inr target \<Rightarrow>
          if fs target = None then (Inr False, fs)
          else if \<not> unlinkOk then (Inl (ArtifactStorageError (js ''Failed to delete artifact'')), fs)
          else (Inr True, fs(target := None)))"

text \<open>\<open>readArtifactToBuffer\<close>: the chunks are read until the cap is exceeded.\<close>

fun readCapped :: "jstr \<Rightarrow> int \<Rightarrow> nat \<Rightarrow> nat list list \<Rightarrow> nat list list \<Rightarrow> ArtifactError + nat list" where
  "readCapped key maxBytes soFar [] acc = Inr (concat acc)"
| "readCapped key maxBytes soFar (c # cs) acc =
     (let soFar' = soFar + length c
      in if maxBytes < int soFar' then Inl (ArtifactTooLargeError key soFar' maxBytes)
         else readCapped key maxBytes soFar' cs (acc @ [c]))"

definition DEFAULT_ARTIFACT_MAX_FILE_BYTES :: int where
  "DEFAULT_ARTIFACT_MAX_FILE_BYTES = 25 * 1024 * 1024"

definition readArtifactToBuffer :: "(jstr \<Rightarrow> ArtifactError + nat list list) \<Rightarrow> jstr \<Rightarrow> int option \<Rightarrow> ArtifactError + nat list" where
  "readArtifactToBuffer openStream key optMax =
     (let maxBytes = (case optMax of None \<Rightarrow> DEFAULT_ARTIFACT_MAX_FILE_BYTES | Some m \<Rightarrow> m)
      in if maxBytes \<le> 0 then Inl (ArtifactLimitError (js ''maxBytes must be a positive integer''))
         else bindE (openStream key) (\<lambda>chunks. readCapped key maxBytes 0 chunks []))"

lemma readCapped_eq:
  "readCapped key m n cs acc = Inr b \<Longrightarrow>
     b = concat acc @ concat cs \<and> (cs = [] \<or> int (n + length (concat cs)) \<le> m)"
  by (induction key m n cs acc rule: readCapped.induct) (auto simp: Let_def split: if_splits)

subsection \<open>The interface of a blob store\<close>

text \<open>
  What the upload pipeline and the worker rely on: blobs are addressed by key, a failed write
  changes no blob, a successful one only its own, and so does a deletion. \<open>addr\<close> are the keys.
\<close>

locale blob_store =
  fixes lookup :: "'s \<Rightarrow> jstr \<Rightarrow> nat list option"
    and store :: "'io \<Rightarrow> jstr \<Rightarrow> nat list list \<times> bool \<Rightarrow> 's \<Rightarrow> ('e + 'r) \<times> 's"
    and remove :: "bool \<Rightarrow> jstr \<Rightarrow> 's \<Rightarrow> ('e + bool) \<times> 's"
    and addr :: "jstr \<Rightarrow> bool"
  assumes store_fails: "addr k' \<Longrightarrow> store io k src s = (Inl e, s') \<Longrightarrow> lookup s' k' = lookup s k'"
    and store_ok: "addr k' \<Longrightarrow> store io k src s = (Inr r, s') \<Longrightarrow>
      snd src \<and> lookup s' k' = (if k' = k then Some (concat (fst src)) else lookup s k')"
    and store_addr: "store io k src s = (Inr r, s') \<Longrightarrow> addr k"
    and remove_ok: "addr k' \<Longrightarrow> remove u k s = (Inr b, s') \<Longrightarrow>
      lookup s' k' = (if k' = k then None else lookup s k') \<and> (addr k \<longrightarrow> b = (lookup s k \<noteq> None))"
    and remove_fails: "remove u k s = (Inl e, s') \<Longrightarrow> s' = s"
begin

lemma read_after_store:
  "store io k src s = (Inr r, s') \<Longrightarrow> lookup s' k = Some (concat (fst src))"
  using store_ok [OF store_addr] by simp

lemma store_other:
  "addr k' \<Longrightarrow> k' \<noteq> k \<Longrightarrow> store io k src s = (res, s') \<Longrightarrow> lookup s' k' = lookup s k'"
  by (cases res) (simp_all add: store_fails store_ok)

lemma store_then_remove:
  assumes "store io k src s = (Inr r, s')" "remove u k s' = (Inr b, s'')"
  shows "b \<and> lookup s'' k = None"
  using remove_ok [OF store_addr [OF assms(1)] assms(2)] read_after_store [OF assms(1)]
    store_addr [OF assms(1)] by simp

end

definition blobAt :: "jstr list \<Rightarrow> jstr \<Rightarrow> files \<Rightarrow> jstr \<Rightarrow> nat list option" where
  "blobAt cwd rootDir fs k = fs (resolveSegs cwd [rootDir] @ split_on 47 k)"

text \<open>A temporary name starts with a dot, so it is no segment of a key.\<close>

definition isTempName :: "jstr \<Rightarrow> bool" where
  "isTempName t \<longleftrightarrow> startsWith t (js ''.tmp-'')"

lemma temp_not_segment: "isTempName t \<Longrightarrow> \<not> SEGMENT_PATTERN t"
  by (cases t) (auto simp: isTempName_def js_eval SEGMENT_PATTERN_def char_class_defs)

lemma temp_not_target:
  assumes "validKey k" "isTempName t"
  shows "butlast p @ [t] \<noteq> r @ split_on 47 k"
proof
  assume "butlast p @ [t] = r @ split_on 47 k"
  then have "t = last (split_on 47 k)" by (metis last_appendR last_snoc split_on_nonempty)
  then have "t \<in> set (split_on 47 k)" by simp
  with assms temp_not_segment show False by (auto simp: validKey_def)
qed

lemma put_shape:
  assumes k: "validKey key" and p: "put asString sha cwd rootDir io t key src fs = (res, fs')"
  defines "target \<equiv> resolveSegs cwd [rootDir] @ split_on 47 key"
  shows "(\<exists>e x. res = Inl e \<and> (fs' = fs \<or> fs' = fs(butlast target @ [t] := x)))
    \<or> (snd src \<and> res = Inr \<lparr>sizeBytes = length (concat (fst src)), contentHash = sha (concat (fst src))\<rparr>
        \<and> fs' = (fs(butlast target @ [t] := None))(target := Some (concat (fst src))))"
proof -
  obtain chunks complete where src: "src = (chunks, complete)" by (cases src)
  show ?thesis
    using p unfolding put_def validateStorageKey_fst [OF k] resolveStoragePath_valid [OF k]
      target_def [symmetric] src Let_def bindE.simps sum.case prod.case fun_upd_upd
    by (auto split: if_split_asm)
qed

lemma put_cases:
  assumes "isTempName t" "put asString sha cwd rootDir io t key src fs = (res, fs')"
  shows "(\<exists>e. res = Inl e \<and> (\<forall>k. validKey k \<longrightarrow> blobAt cwd rootDir fs' k = blobAt cwd rootDir fs k))
    \<or> (\<exists>r. res = Inr r \<and> validKey key \<and> snd src \<and> r = \<lparr>sizeBytes = length (concat (fst src)), contentHash = sha (concat (fst src))\<rparr>
        \<and> (\<forall>k. validKey k \<longrightarrow> blobAt cwd rootDir fs' k =
              (if k = key then Some (concat (fst src)) else blobAt cwd rootDir fs k)))"
proof (cases "validKey key")
  case False
  then have "put asString sha cwd rootDir io t key src fs =
      (case validateStorageKey asString (JStr key) of Inl e \<Rightarrow> (Inl e, fs) | Inr _ \<Rightarrow> undefined)"
    using validateStorageKey_JStr [of asString key]
    by (cases "validateStorageKey asString (JStr key)") (auto simp: put_def)
  with False assms(2) validateStorageKey_JStr [of asString key] show ?thesis
    by (cases "validateStorageKey asString (JStr key)") auto
next
  case True
  let ?target = "resolveSegs cwd [rootDir] @ split_on 47 key"
  let ?temp = "butlast ?target @ [t]"
  have tmp: "blobAt cwd rootDir (fs(?temp := x)) k = blobAt cwd rootDir fs k" if "validKey k" for k x fs
    using temp_not_target [OF that assms(1)] by (simp add: blobAt_def) metis
  have tgt: "blobAt cwd rootDir (fs(?target := x)) k = (if k = key then x else blobAt cwd rootDir fs k)" for k x fs
    using split_on_inj by (auto simp: blobAt_def)
  from put_shape [OF True assms(2)] show ?thesis
  proof (elim disjE exE conjE)
    fix e x assume "res = Inl e" "fs' = fs"
    then show ?thesis by simp
  next
    fix e x assume "res = Inl e" and f: "fs' = fs(?temp := x)"
    then show ?thesis using tmp by (simp only: f) blast
  next
    assume r: "snd src" "res = Inr \<lparr>sizeBytes = length (concat (fst src)), contentHash = sha (concat (fst src))\<rparr>"
      and f: "fs' = (fs(?temp := None))(?target := Some (concat (fst src)))"
    have "blobAt cwd rootDir fs' k = (if k = key then Some (concat (fst src)) else blobAt cwd rootDir fs k)"
      if "validKey k" for k
      unfolding f tgt using tmp [OF that] by simp
    with r True show ?thesis by blast
  qed
qed

interpretation local_storage: blob_store
    "blobAt cwd rootDir"
    "\<lambda>io. put asString sha cwd rootDir io (js ''.tmp-'' @ suffix)"
    "deleteBlob asString cwd rootDir" validKey for asString sha cwd rootDir suffix
proof unfold_locales
  have t: "isTempName (js ''.tmp-'' @ suffix)" by (simp add: isTempName_def startsWith_append)
  note c = put_cases [OF t]
  show "blobAt cwd rootDir s' k' = blobAt cwd rootDir s k'"
    if "validKey k'" "put asString sha cwd rootDir io (js ''.tmp-'' @ suffix) k src s = (Inl e, s')" for k' io k src s e s'
    using c [OF that(2)] that(1) by auto
  show "snd src \<and> blobAt cwd rootDir s' k' = (if k' = k then Some (concat (fst src)) else blobAt cwd rootDir s k')"
    if "validKey k'" "put asString sha cwd rootDir io (js ''.tmp-'' @ suffix) k src s = (Inr r, s')" for k' io k src s r s'
    using c [OF that(2)] that(1) by auto
  show "validKey k"
    if "put asString sha cwd rootDir io (js ''.tmp-'' @ suffix) k src s = (Inr r, s')" for io k src s r s'
    using c [OF that] by auto
next
  fix k' u k s b s'
  assume k': "validKey k'" and d: "deleteBlob asString cwd rootDir u k s = (Inr b, s')"
  have k: "validKey k"
    using d validateStorageKey_JStr [of asString k]
    by (auto simp: deleteBlob_def bindE_Inr resolveStoragePath_Inr split: sum.splits)
  let ?target = "resolveSegs cwd [rootDir] @ split_on 47 k"
  have tgt: "blobAt cwd rootDir (s(?target := None)) k' = (if k' = k then None else blobAt cwd rootDir s k')"
    using split_on_inj by (auto simp: blobAt_def)
  show "blobAt cwd rootDir s' k' = (if k' = k then None else blobAt cwd rootDir s k')
      \<and> (validKey k \<longrightarrow> b = (blobAt cwd rootDir s k \<noteq> None))"
    using d tgt
    by (auto simp: deleteBlob_def validateStorageKey_fst [OF k] resolveStoragePath_valid [OF k] blobAt_def split: if_splits)
next
  show "s' = s" if "deleteBlob asString cwd rootDir u k s = (Inl e, s')" for u k s e s'
    using that by (auto simp: deleteBlob_def split: sum.splits if_splits)
qed

subsection \<open>Properties\<close>


lemma build_Inr:
  "buildArtifactStorageKey a (JStr p) (JStr r) (JStr h) = Inr k \<longleftrightarrow>
     UUID_PATTERN p \<and> UUID_PATTERN r \<and> CONTENT_HASH_PATTERN h \<and> k = p @ [47] @ r @ [47] @ h"
  by (auto simp: buildArtifactStorageKey_def)

lemma parse_Inr:
  "parseArtifactStorageKey a (JStr k) = Inr q \<longleftrightarrow>
     validKey k \<and> split_on 47 k = [pk_projectId q, pk_releaseId q, pk_contentHash q]
     \<and> UUID_PATTERN (pk_projectId q) \<and> UUID_PATTERN (pk_releaseId q) \<and> CONTENT_HASH_PATTERN (pk_contentHash q)"
  by (cases q) (auto simp: parseArtifactStorageKey_def bindE_Inr validateStorageKey_JStr
      split: list.splits if_splits)

text \<open>
  storage keys are a faithful address: a key parses to three identifiers exactly when it is
  the key built from them, and a key resolves exactly when it validates, to the path of the
  artifact root extended by the key's own segments (so never outside the root).
\<close>

theorem storage_key_roundtrip_and_address:
  "(parseArtifactStorageKey a (JStr k) = Inr q \<longleftrightarrow>
      buildArtifactStorageKey a' (JStr (pk_projectId q)) (JStr (pk_releaseId q)) (JStr (pk_contentHash q)) = Inr k)
   \<and> (resolveStoragePath a cwd rootDir k = Inr p \<longleftrightarrow>
      validateStorageKey a (JStr k) = Inr k \<and> p = resolveSegs cwd [rootDir] @ split_on 47 k)"
proof (rule conjI [OF iffI])
  assume q: "parseArtifactStorageKey a (JStr k) = Inr q"
  then have "k = join [47] [pk_projectId q, pk_releaseId q, pk_contentHash q]"
    unfolding parse_Inr by (metis join_split_on)
  with q show "buildArtifactStorageKey a' (JStr (pk_projectId q)) (JStr (pk_releaseId q)) (JStr (pk_contentHash q)) = Inr k"
    by (simp add: build_Inr parse_Inr)
next
  assume "buildArtifactStorageKey a' (JStr (pk_projectId q)) (JStr (pk_releaseId q)) (JStr (pk_contentHash q)) = Inr k"
  then have u: "UUID_PATTERN (pk_projectId q)" "UUID_PATTERN (pk_releaseId q)" "CONTENT_HASH_PATTERN (pk_contentHash q)"
    and k: "k = pk_projectId q @ [47] @ pk_releaseId q @ [47] @ pk_contentHash q"
    by (auto simp: build_Inr)
  then show "parseArtifactStorageKey a (JStr k) = Inr q"
    unfolding parse_Inr k using validKey_built split_on_three UUID_no_slash CONTENT_HASH_segment by blast
next
  show "resolveStoragePath a cwd rootDir k = Inr p \<longleftrightarrow>
      validateStorageKey a (JStr k) = Inr k \<and> p = resolveSegs cwd [rootDir] @ split_on 47 k"
    by (simp add: resolveStoragePath_Inr validateStorageKey_JStr)
qed

text \<open>
  C27: a write is atomic: whatever fails (opening, a short or interrupted stream, the sync, the
  bounded rename retries), every stored blob is as before; on success exactly the key's blob is the
  complete stream, with its size and digest returned, and reading it gives it back.
\<close>

theorem put_is_atomic:
  assumes "put a sha cwd rootDir io (js ''.tmp-'' @ suffix) key (chunks, whole) fs = (res, fs')"
    and "validateStorageKey a (JStr k) = Inr k"
  shows "case res of
      Inl e \<Rightarrow> blobAt cwd rootDir fs' k = blobAt cwd rootDir fs k
    | Inr r \<Rightarrow> whole \<and> sizeBytes r = length (concat chunks) \<and> contentHash r = sha (concat chunks)
        \<and> getBlob a cwd rootDir key fs' = Inr (concat chunks)
        \<and> blobAt cwd rootDir fs' k = (if k = key then Some (concat chunks) else blobAt cwd rootDir fs k)"
proof -
  have k: "validKey k" using assms(2) by (simp add: validateStorageKey_JStr)
  have t: "isTempName (js ''.tmp-'' @ suffix)" by (simp add: isTempName_def startsWith_append)
  show ?thesis
  proof (cases res)
    case (Inl e)
    with assms(1) local_storage.store_fails [OF k] show ?thesis by simp
  next
    case (Inr r)
    note p = assms(1) [unfolded Inr]
    have vk: "validKey key" using local_storage.store_addr [OF p] .
    have "getBlob a cwd rootDir key fs' = Inr (concat chunks)"
      using local_storage.read_after_store [OF p]
      by (simp add: getBlob_def validateStorageKey_fst [OF vk] resolveStoragePath_valid [OF vk] blobAt_def)
    with put_cases [OF t p] local_storage.store_ok [OF k p] Inr show ?thesis by auto
  qed
qed

definition demoIo :: sysOutcome where
  "demoIo = \<lparr>openOk = True, shortWrite = False, syncOk = True, rmOk = True,
     renames = (\<lambda>n. if n = 1 then RenameOk else RenameFails (js ''EBUSY''))\<rparr>"

lemma demo_key: "validKey (js ''a'')"
  by (simp add: validKey_def js_eval SEGMENT_PATTERN_def char_class_defs STORAGE_KEY_MAX_LENGTH_def STORAGE_KEY_MAX_SEGMENTS_def)

theorem put_is_atomic_witness:
  "\<exists>r fs'. put (\<lambda>_. []) (\<lambda>_. [7]) [] (js ''/r'') demoIo (js ''.tmp-'' @ [49]) (js ''a'') ([[1, 2], [3]], True) (\<lambda>_. None) = (Inr r, fs')
     \<and> sizeBytes r = 3 \<and> contentHash r = [7] \<and> getBlob (\<lambda>_. []) [] (js ''/r'') (js ''a'') fs' = Inr [1, 2, 3]"
proof -
  have "\<exists>r fs'. put (\<lambda>_. []) (\<lambda>_. [7]) [] (js ''/r'') demoIo (js ''.tmp-'' @ [49]) (js ''a'') ([[1, 2], [3]], True) (\<lambda>_. None) = (Inr r, fs')"
    by (simp add: put_def validateStorageKey_fst [OF demo_key] resolveStoragePath_valid [OF demo_key] Let_def
        demoIo_def renameWithRetry.simps renameDelays_def)
  then obtain r fs' where p: "put (\<lambda>_. []) (\<lambda>_. [7]) [] (js ''/r'') demoIo (js ''.tmp-'' @ [49]) (js ''a'') ([[1, 2], [3]], True) (\<lambda>_. None) = (Inr r, fs')"
    by blast
  from put_is_atomic [OF p validateStorageKey_fst [OF demo_key]] p show ?thesis by auto
qed

end
