(* ===== verification/ArtifactPaths.thy ===== *)
theory ArtifactPaths
  imports ArtifactKeys
begin

text \<open>
  User-supplied artifact paths and the symlink guard (\<open>packages/artifacts/src/artifact-paths.ts\<close>).
\<close>

subsection \<open>Canonical paths\<close>

definition ARTIFACT_PATH_MAX_LENGTH :: nat where "ARTIFACT_PATH_MAX_LENGTH = 1024"
definition ARTIFACT_PATH_SEGMENT_MAX_LENGTH :: nat where "ARTIFACT_PATH_SEGMENT_MAX_LENGTH = 255"

definition WINDOWS_RESERVED_NAMES :: "jstr list" where
  "WINDOWS_RESERVED_NAMES = [js ''CON'', js ''PRN'', js ''AUX'', js ''NUL'',
     js ''COM1'', js ''COM2'', js ''COM3'', js ''COM4'', js ''COM5'', js ''COM6'', js ''COM7'', js ''COM8'', js ''COM9'',
     js ''LPT1'', js ''LPT2'', js ''LPT3'', js ''LPT4'', js ''LPT5'', js ''LPT6'', js ''LPT7'', js ''LPT8'', js ''LPT9'']"

text \<open>The loop of at most three rounds, \<open>n\<close> counting the rounds left.\<close>

fun decodeRounds :: "nat \<Rightarrow> jstr \<Rightarrow> jstr" where
  "decodeRounds 0 current = current"
| "decodeRounds (Suc n) current =
     (if 37 \<notin> set current then current
      else case decodeURIComponent current of
             None \<Rightarrow> current
           | Some decoded \<Rightarrow> if decoded = current then current else decodeRounds n decoded)"

definition decodePercentEncodings :: "jstr \<Rightarrow> jstr" where
  "decodePercentEncodings value = decodeRounds 3 value"

definition pathFail :: "string \<Rightarrow> ArtifactError + 'a" where
  "pathFail m = Inl (ArtifactPathError (js m))"

definition segmentCheck :: "jstr \<Rightarrow> ArtifactError + unit" where
  "segmentCheck segment =
     (if segment = [] then pathFail ''Artifact path contains an empty segment''
      else if segment = [46] \<or> segment = [46, 46] then pathFail ''Artifact path must not contain dot segments''
      else if ARTIFACT_PATH_SEGMENT_MAX_LENGTH < length segment then pathFail ''Artifact path contains an over-long segment''
      else if endsWith segment [46] \<or> endsWith segment [32]
        then pathFail ''Artifact path segment must not end with a dot or space''
      else if toUpper (hd (split_on 46 segment)) \<in> set WINDOWS_RESERVED_NAMES
        then pathFail ''Artifact path uses a reserved device name''
      else Inr ())"

definition isDrivePath :: "jstr \<Rightarrow> bool" where
  "isDrivePath s = (case s of a # b # rest \<Rightarrow> isLetter a \<and> b = 58 | _ \<Rightarrow> False)"

definition slashes :: "jstr \<Rightarrow> jstr" where
  "slashes s = map (\<lambda>c. if c = 92 then 47 else c) s"

text \<open>The function without the optional upload root, which calls it again (below).\<close>

definition canonicalizePlain :: "json \<Rightarrow> ArtifactError + jstr" where
  "canonicalizePlain input =
     (case input of
        JStr raw \<Rightarrow>
          if raw = [] then pathFail ''Artifact path must not be empty''
          else if 0 \<in> set raw \<or> hasControlChars raw then pathFail ''Artifact path contains invalid characters''
          else let decoded = decodePercentEncodings raw
            in if 0 \<in> set decoded \<or> hasControlChars decoded then pathFail ''Artifact path contains invalid characters''
            else let slashed = slashes decoded
              in if slashed = [] \<or> ARTIFACT_PATH_MAX_LENGTH < length slashed
                 then pathFail ''Artifact path must be 1-1024 characters''
                 else if startsWith slashed [47] then pathFail ''Artifact path must be relative, not absolute''
                 else if isDrivePath slashed then pathFail ''Artifact path must not be a Windows drive path''
                 else bindE (foldE (\<lambda>canonical segment. bindE (segmentCheck segment) (\<lambda>_. Inr (canonical @ [segment])))
                        [] (split_on 47 slashed)) (\<lambda>canonical.
                   let result = join [47] canonical
                   in if result = [] \<or> ARTIFACT_PATH_MAX_LENGTH < length result
                      then pathFail ''Artifact path must be 1-1024 characters''
                      else Inr result)
      | _ \<Rightarrow> pathFail ''Artifact path must be a string'')"

definition resolveArtifactUploadPath :: "jstr list \<Rightarrow> jstr \<Rightarrow> jstr \<Rightarrow> ArtifactError + jstr list" where
  "resolveArtifactUploadPath cwd rootDir canonicalPath =
     (if rootDir = [] then pathFail ''Upload root must be a non-empty path''
      else bindE (canonicalizePlain (JStr canonicalPath)) (\<lambda>canonical.
        let resolvedRoot = resolveSegs cwd [rootDir];
            resolved = resolveSegs cwd (rootDir # split_on 47 canonical);
            relative = relativePath resolvedRoot resolved
        in if relative = [] \<or> escapesRel relative then pathFail ''Artifact path escapes the upload root''
           else Inr resolved))"

definition canonicalizeArtifactPath :: "jstr list \<Rightarrow> jstr option \<Rightarrow> json \<Rightarrow> ArtifactError + jstr" where
  "canonicalizeArtifactPath cwd uploadRoot input =
     bindE (canonicalizePlain input) (\<lambda>result.
       case uploadRoot of None \<Rightarrow> Inr result
       | Some rootDir \<Rightarrow> bindE (resolveArtifactUploadPath cwd rootDir result) (\<lambda>_. Inr result))"

text \<open>What a canonical path is: relative, plain printable segments, no drive letter, bounded.\<close>

definition safeSegment :: "jstr \<Rightarrow> bool" where
  "safeSegment s \<longleftrightarrow> segmentCheck s = Inr ()"

definition canonicalPath :: "jstr \<Rightarrow> bool" where
  "canonicalPath p \<longleftrightarrow> p \<noteq> [] \<and> length p \<le> ARTIFACT_PATH_MAX_LENGTH \<and> \<not> startsWith p [47] \<and> \<not> isDrivePath p
     \<and> \<not> hasControlChars p \<and> 92 \<notin> set p \<and> (\<forall>s \<in> set (split_on 47 p). safeSegment s)"

lemma safeSegment_plain: "safeSegment s \<Longrightarrow> 47 \<notin> set s \<Longrightarrow> plainSegment s"
  by (auto simp: safeSegment_def segmentCheck_def pathFail_def plainSegment_def split: if_splits)

lemma foldE_collect:
  "foldE (\<lambda>acc x. bindE (f x) (\<lambda>_. Inr (acc @ [x]))) acc xs = Inr ys \<longleftrightarrow>
     ys = acc @ xs \<and> (\<forall>x \<in> set xs. f x = Inr ())"
  by (induction xs arbitrary: acc) (auto simp: bindE_Inr)

lemma hasControlChars_slashes: "hasControlChars (slashes s) \<longleftrightarrow> hasControlChars s"
  by (auto simp: hasControlChars_def slashes_def)

lemma no_backslash_slashes: "92 \<notin> set (slashes s)"
  by (auto simp: slashes_def split: if_splits)

lemma slashes_id: "92 \<notin> set s \<Longrightarrow> slashes s = s"
  by (auto simp: slashes_def intro!: map_idI)

text \<open>The characteristic equation of the canonicalisation.\<close>

lemma canonicalizePlain_Inr:
  "canonicalizePlain (JStr raw) = Inr p \<longleftrightarrow>
     raw \<noteq> [] \<and> \<not> hasControlChars raw \<and> p = slashes (decodePercentEncodings raw) \<and> canonicalPath p"
proof -
  have z: "0 \<in> set s \<Longrightarrow> hasControlChars s" for s by (auto simp: hasControlChars_def)
  show ?thesis
    unfolding canonicalizePlain_def canonicalPath_def safeSegment_def
    using no_backslash_slashes [of "decodePercentEncodings raw"]
    by (auto simp: Let_def pathFail_def bindE_Inr foldE_collect hasControlChars_slashes not_less
        dest: z split: if_splits)
qed

lemma canonicalizePlain_string: "canonicalizePlain input = Inr p \<Longrightarrow> \<exists>raw. input = JStr raw"
  by (cases input) (auto simp: canonicalizePlain_def pathFail_def)

lemma canonicalPath_plain: "canonicalPath p \<Longrightarrow> \<forall>s \<in> set (split_on 47 p). plainSegment s"
  using split_on_no_sep by (auto simp: canonicalPath_def intro!: safeSegment_plain)

lemma resolveArtifactUploadPath_Inr:
  "resolveArtifactUploadPath cwd rootDir p = Inr q \<longleftrightarrow>
     rootDir \<noteq> [] \<and> (\<exists>c. canonicalizePlain (JStr p) = Inr c \<and> q = resolveSegs cwd [rootDir] @ split_on 47 c)"
proof -
  have "resolveSegs cwd (rootDir # split_on 47 c) = resolveSegs cwd [rootDir] @ split_on 47 c"
    and "\<not> escapesRel (relativePath (resolveSegs cwd [rootDir]) (resolveSegs cwd [rootDir] @ split_on 47 c))"
    and "relativePath (resolveSegs cwd [rootDir]) (resolveSegs cwd [rootDir] @ split_on 47 c) \<noteq> []"
    if "canonicalizePlain (JStr p) = Inr c" for c
  proof -
    have pl: "\<forall>s \<in> set (split_on 47 c). plainSegment s"
      using that canonicalPath_plain unfolding canonicalizePlain_Inr by blast
    show "resolveSegs cwd (rootDir # split_on 47 c) = resolveSegs cwd [rootDir] @ split_on 47 c"
      using resolveSegs_plain [OF pl] by (simp add: resolveSegs_def)
    show "\<not> escapesRel (relativePath (resolveSegs cwd [rootDir]) (resolveSegs cwd [rootDir] @ split_on 47 c))"
      "relativePath (resolveSegs cwd [rootDir]) (resolveSegs cwd [rootDir] @ split_on 47 c) \<noteq> []"
      using plain_not_escaping [OF pl] by (simp_all add: relativePath_def)
  qed
  then show ?thesis
    by (cases "canonicalizePlain (JStr p)")
       (auto simp: resolveArtifactUploadPath_def Let_def pathFail_def)
qed

lemma decode_plain: "37 \<notin> set s \<Longrightarrow> decodePercentEncodings s = s"
  by (simp add: decodePercentEncodings_def numeral_3_eq_3)


lemmas path_eval = canonicalizePlain_def decodePercentEncodings_def pctChar_def hexVal_def slashes_def
  hasControlChars_def segmentCheck_def isDrivePath_def toUpper_def upperUnit_def endsWith_def
  WINDOWS_RESERVED_NAMES_def ARTIFACT_PATH_MAX_LENGTH_def ARTIFACT_PATH_SEGMENT_MAX_LENGTH_def
  pathFail_def char_class_defs js_eval Let_def numeral_3_eq_3


text \<open>
  canonicalisation is not idempotent: three rounds of decoding leave a fourth, so a path with
  a dot segment encoded four times is accepted without an upload root, and refused when the same
  call proves containment, because that proof decodes the result again.
\<close>

theorem canonicalize_not_idempotent:
  "\<exists>raw p. canonicalizeArtifactPath cwd None (JStr raw) = Inr p
     \<and> canonicalizeArtifactPath cwd None (JStr p) \<noteq> Inr p
     \<and> canonicalizeArtifactPath cwd (Some (js ''/r'')) (JStr raw) = pathFail ''Artifact path must not contain dot segments''"
proof (intro exI conjI)
  let ?raw = "js ''%2525252e/a''" and ?p = "js ''%2e/a''"
  have 1: "canonicalizePlain (JStr ?raw) = Inr ?p" by (simp add: path_eval)
  have 2: "canonicalizePlain (JStr ?p) = pathFail ''Artifact path must not contain dot segments''"
    by (simp add: path_eval)
  show "canonicalizeArtifactPath cwd None (JStr ?raw) = Inr ?p"
    "canonicalizeArtifactPath cwd None (JStr ?p) \<noteq> Inr ?p"
    "canonicalizeArtifactPath cwd (Some (js ''/r'')) (JStr ?raw) = pathFail ''Artifact path must not contain dot segments''"
    using 1 2 by (simp_all add: canonicalizeArtifactPath_def resolveArtifactUploadPath_def pathFail_def js_eval)
qed

subsection \<open>The symlink guard\<close>

text \<open>
  \<open>lstat\<close> and \<open>realpath\<close> are the file system's answers for the path with these segments;
  \<open>realpath\<close> is \<open>None\<close> where it fails.
\<close>

datatype lstatResult = Exists | NoEnt | OtherErrno

fun symlinkWalk :: "(jstr list \<Rightarrow> lstatResult) \<Rightarrow> (jstr list \<Rightarrow> jstr list option) \<Rightarrow> jstr list
    \<Rightarrow> jstr list \<Rightarrow> jstr list \<Rightarrow> ArtifactError + unit" where
  "symlinkWalk lstat realpath realRoot lexical [] = Inr ()"
| "symlinkWalk lstat realpath realRoot lexical (segment # rest) =
     (let level = lexical @ [segment]
      in case lstat level of
           NoEnt \<Rightarrow> Inr ()
         | OtherErrno \<Rightarrow> pathFail ''Artifact path cannot be proven inside the upload root''
         | Exists \<Rightarrow> (case realpath level of
               None \<Rightarrow> pathFail ''Artifact path cannot be proven inside the upload root''
             | Some realLevel \<Rightarrow>
                 if escapesRel (relativePath realRoot realLevel)
                 then pathFail ''Artifact path escapes the upload root via symlink''
                 else symlinkWalk lstat realpath realRoot level rest))"

definition assertNoSymlinkEscape :: "(jstr list \<Rightarrow> lstatResult) \<Rightarrow> (jstr list \<Rightarrow> jstr list option)
    \<Rightarrow> jstr list \<Rightarrow> jstr \<Rightarrow> jstr \<Rightarrow> ArtifactError + unit" where
  "assertNoSymlinkEscape lstat realpath cwd rootDir cpath =
     bindE (resolveArtifactUploadPath cwd rootDir cpath) (\<lambda>target.
       let resolvedRoot = resolveSegs cwd [rootDir]
       in case realpath resolvedRoot of
            None \<Rightarrow> Inr ()
          | Some realRoot \<Rightarrow>
              symlinkWalk lstat realpath realRoot resolvedRoot
                (filter (\<lambda>s. s \<noteq> []) (split_on 47 (relativePath resolvedRoot target))))"

lemma symlinkWalk_sound:
  assumes "symlinkWalk lstat realpath rr lx ss = Inr ()" "0 < n" "n \<le> length ss"
    and "\<And>m. 0 < m \<Longrightarrow> m \<le> n \<Longrightarrow> lstat (lx @ take m ss) = Exists"
    and "\<And>p q. realpath p = Some q \<Longrightarrow> \<forall>s \<in> set q. plainSegment s"
  shows "\<exists>t. realpath (lx @ take n ss) = Some (rr @ t)"
  using assms(1-4)
proof (induction ss arbitrary: lx n)
  case (Cons s ss)
  have ex: "lstat (lx @ [s]) = Exists" using Cons.prems(4) [of 1] Cons.prems(2) by simp
  obtain q where q: "realpath (lx @ [s]) = Some q" "\<not> escapesRel (relativePath rr q)"
    and w: "symlinkWalk lstat realpath rr (lx @ [s]) ss = Inr ()"
    using Cons.prems(1) ex by (auto simp: pathFail_def Let_def split: option.splits if_splits)
  show ?case
  proof (cases "n = 1")
    case True
    with q contained_iff_prefix [OF assms(5) [OF q(1)]] show ?thesis by simp
  next
    case False
    then obtain k where k: "n = Suc k" "0 < k" using Cons.prems(2) by (cases n) auto
    have "\<exists>t. realpath ((lx @ [s]) @ take k ss) = Some (rr @ t)"
    proof (rule Cons.IH [OF w k(2)])
      show "k \<le> length ss" using Cons.prems(3) k by simp
      fix m assume "0 < m" "m \<le> k"
      then show "lstat ((lx @ [s]) @ take m ss) = Exists"
        using Cons.prems(4) [of "Suc m"] k by simp
    qed
    then show ?thesis by (simp add: k)
  qed
qed simp

text \<open>
  C28: the symlink guard is sound: when it accepts a path under an existing root, every level of
  the path that exists (with all levels above it) has a real path inside the root's real path,
  whatever links were planted. \<open>realpath\<close> is relied on for answering with normalised paths.
\<close>

theorem symlink_guard_sound:
  assumes "assertNoSymlinkEscape lstat realpath cwd rootDir p = Inr ()"
    and "resolveArtifactUploadPath cwd rootDir p = Inr (resolveSegs cwd [rootDir] @ ss)"
    and "realpath (resolveSegs cwd [rootDir]) = Some rr"
    and "\<And>a b. realpath a = Some b \<Longrightarrow> \<forall>s \<in> set b. plainSegment s"
    and "0 < n" "n \<le> length ss"
    and "\<And>m. 0 < m \<Longrightarrow> m \<le> n \<Longrightarrow> lstat (resolveSegs cwd [rootDir] @ take m ss) = Exists"
  shows "\<exists>t. realpath (resolveSegs cwd [rootDir] @ take n ss) = Some (rr @ t)"
proof -
  obtain c where c: "canonicalizePlain (JStr p) = Inr c" "ss = split_on 47 c"
    using assms(2) by (auto simp: resolveArtifactUploadPath_Inr)
  obtain raw where "canonicalPath c" using c(1) by (auto simp: canonicalizePlain_Inr)
  from canonicalPath_plain [OF this] have pl: "\<forall>s \<in> set ss. plainSegment s" by (simp add: c)
  have "ss \<noteq> []" by (simp add: c)
  then have "split_on 47 (join [47] ss) = ss" using pl by (rule split_on_join_plain)
  moreover have "filter (\<lambda>s. s \<noteq> []) ss = ss"
    using pl by (intro filter_True) (simp add: plainSegment_def)
  ultimately have "symlinkWalk lstat realpath rr (resolveSegs cwd [rootDir]) ss = Inr ()"
    using assms(1-3) by (simp add: assertNoSymlinkEscape_def relativePath_def Let_def)
  from symlinkWalk_sound [OF this assms(5,6)] assms(4,7) show ?thesis by blast
qed

definition demoRealpath :: "jstr list \<Rightarrow> jstr list option" where
  "demoRealpath p = (if p = [js ''r''] then Some [js ''real''] else if p = [js ''r'', js ''a'']
     then Some [js ''real'', js ''a''] else None)"

theorem symlink_guard_sound_witness:
  "\<exists>t. demoRealpath ([js ''r''] @ take 1 [js ''a'']) = Some ([js ''real''] @ t)"
proof -
  have c: "canonicalizePlain (JStr (js ''a'')) = Inr (js ''a'')" by (simp add: path_eval)
  have r: "resolveSegs [] [js ''/r''] = [js ''r'']"
    by (simp add: resolveSegs_def walk_def walkSegment_def isAbsolute_def js_eval)
  then have r': "resolveSegs [] [[47, 114]] = [[114]]" by (simp add: js_eval)
  have u: "resolveArtifactUploadPath [] (js ''/r'') (js ''a'') = Inr (resolveSegs [] [js ''/r''] @ [js ''a''])"
    using c by (simp add: resolveArtifactUploadPath_Inr js_eval)
  have g: "assertNoSymlinkEscape (\<lambda>_. Exists) demoRealpath [] (js ''/r'') (js ''a'') = Inr ()"
    unfolding assertNoSymlinkEscape_def u r bindE.simps Let_def
    by (simp add: demoRealpath_def relativePath_def relativeSegs_def Let_def escapesRel_def isAbsolute_def js_eval)
  have "\<exists>t. demoRealpath (resolveSegs [] [js ''/r''] @ take 1 [js ''a'']) = Some ([js ''real''] @ t)"
    by (rule symlink_guard_sound [OF g u])
       (auto simp: r' demoRealpath_def plainSegment_def js_eval split: if_splits)
  then show ?thesis by (simp add: r)
qed

end
