(* ===== verification/UploadPolicy.thy ===== *)
theory UploadPolicy
  imports ArtifactPaths
begin

text \<open>
  What may be uploaded (\<open>packages/artifacts/src\<close>: \<open>upload-policy.ts\<close>, \<open>source-maps.ts\<close>,
  \<open>config.ts\<close>).
\<close>

subsection \<open>The upload policy\<close>

definition ALLOWED_ARTIFACT_EXTENSIONS :: "jstr list" where
  "ALLOWED_ARTIFACT_EXTENSIONS = [js ''.map'', js ''.js'', js ''.mjs'', js ''.cjs'']"

datatype UploadArtifactType = source_map | minified_asset

definition TOLERATED_MIME_TYPES :: "jstr list" where
  "TOLERATED_MIME_TYPES = [js ''application/octet-stream'', js ''application/json'', js ''application/javascript'',
     js ''application/x-javascript'', js ''text/javascript'', js ''text/plain'']"

definition typeFail :: "jstr \<Rightarrow> ArtifactError + 'a" where
  "typeFail m = Inl (InvalidArtifactTypeError m)"

text \<open>\<open>base.lastIndexOf(".")\<close>, \<open>-1\<close> when there is none.\<close>

definition lastIndexOf :: "nat \<Rightarrow> jstr \<Rightarrow> int" where
  "lastIndexOf c s = int (length s) - 1 - int (length (takeWhile (\<lambda>x. x \<noteq> c) (rev s)))"

definition extensionOfArtifactPath :: "jstr \<Rightarrow> jstr" where
  "extensionOfArtifactPath path =
     (let base = last (split_on 47 path); dot = lastIndexOf 46 base
      in if dot \<le> 0 \<or> dot = int (length base) - 1 then [] else toLower (drop (nat dot) base))"

definition artifactTypeForExtension :: "jstr \<Rightarrow> ArtifactError + UploadArtifactType" where
  "artifactTypeForExtension ext =
     (if ext = js ''.map'' then Inr source_map
      else if ext = js ''.js'' \<or> ext = js ''.mjs'' \<or> ext = js ''.cjs'' then Inr minified_asset
      else typeFail (js ''Artifact extension '' @ [34] @ (if ext = [] then js ''(none)'' else ext) @ [34] @ js '' is not allowed''))"

definition validateArtifactExtension :: "jstr \<Rightarrow> ArtifactError + jstr" where
  "validateArtifactExtension path =
     (let ext = extensionOfArtifactPath path in bindE (artifactTypeForExtension ext) (\<lambda>_. Inr ext))"

definition normalizeMimeType :: "json \<Rightarrow> jstr option" where
  "normalizeMimeType m = (case m of
      JStr s \<Rightarrow> (let trimmed = trim s in if trimmed = [] then None else Some (toLower (trim (hd (split_on 59 trimmed)))))
    | _ \<Rightarrow> None)"

definition validateArtifactMimeType :: "json \<Rightarrow> jstr \<Rightarrow> ArtifactError + unit" where
  "validateArtifactMimeType m ext = (case normalizeMimeType m of
      None \<Rightarrow> Inr ()
    | Some t \<Rightarrow> if t \<in> set TOLERATED_MIME_TYPES then Inr ()
        else typeFail (js ''Artifact MIME type '' @ [34] @ t @ [34] @ js '' is not allowed''))"

datatype ProhibitedContent = executable | markup

definition SNIFF_WINDOW_BYTES :: nat where "SNIFF_WINDOW_BYTES = 512"

text \<open>The loop stops at the first byte that is not ASCII, or once the text has 33 characters.\<close>

definition asciiHead :: "nat list \<Rightarrow> jstr" where
  "asciiHead bytes =
     (let window = take SNIFF_WINDOW_BYTES bytes;
          body = (if take 3 window = [239, 187, 191] then drop 3 window else window)
      in trimStart (take 33 (takeWhile (\<lambda>b. b < 128) body)))"

definition isWordChar :: "nat \<Rightarrow> bool" where
  "isWordChar c \<longleftrightarrow> isAlnum c \<or> c = 95"

text \<open>\<open>/^tag\b/i\<close> for a tag that ends in a word character.\<close>

definition opensWith :: "jstr \<Rightarrow> jstr \<Rightarrow> bool" where
  "opensWith s tag \<longleftrightarrow> startsWith (toLower s) tag
     \<and> (length s \<le> length tag \<or> \<not> isWordChar (s ! length tag))"

definition detectProhibitedContent :: "nat list \<Rightarrow> ProhibitedContent option" where
  "detectProhibitedContent bytes =
     (if take 2 bytes = [77, 90] then Some executable
      else if take 4 bytes = [127, 69, 76, 70] then Some executable
      else let head = asciiHead bytes
           in if opensWith head (js ''<!doctype'') \<or> opensWith head (js ''<html'') \<or> opensWith head (js ''<svg'')
              then Some markup else None)"

definition assertSafeAssetContent :: "nat list \<Rightarrow> ArtifactError + unit" where
  "assertSafeAssetContent bytes = (case detectProhibitedContent bytes of
      Some executable \<Rightarrow> typeFail (js ''Artifact content looks like an executable binary'')
    | Some markup \<Rightarrow> typeFail (js ''Artifact content looks like HTML/SVG markup'')
    | None \<Rightarrow> Inr ())"

lemma artifactTypeForExtension_Inr:
  "(\<exists>t. artifactTypeForExtension ext = Inr t) \<longleftrightarrow> ext \<in> set ALLOWED_ARTIFACT_EXTENSIONS"
  by (auto simp: artifactTypeForExtension_def typeFail_def ALLOWED_ARTIFACT_EXTENSIONS_def)

lemma lowerUnit_ascii: "lowerUnit c < 128 \<Longrightarrow> lowerUnit c \<noteq> 107 \<Longrightarrow> c < 128"
  by (auto simp: lowerUnit_def char_class_defs split: if_splits)

lemma toLower_append [simp]: "toLower (a @ b) = toLower a @ toLower b"
  by (simp add: toLower_def)

lemma markupTag_ascii:
  assumes "toLower tag \<in> {js ''<!doctype'', js ''<html'', js ''<svg''}"
  shows "\<forall>c \<in> set tag. c < 128" "tag \<noteq> []" "length tag \<le> 9" "\<not> isWs (hd tag)"
proof -
  have l: "\<forall>x \<in> set (toLower tag). x < 128 \<and> x \<noteq> 107" and n: "toLower tag \<noteq> []" "length (toLower tag) \<le> 9"
    and h: "hd (toLower tag) = 60"
    using assms by (auto simp: js_eval)
  show "\<forall>c \<in> set tag. c < 128" using l lowerUnit_ascii by (auto simp: toLower_def)
  show "tag \<noteq> []" "length tag \<le> 9" using n by (auto simp: toLower_def)
  then show "\<not> isWs (hd tag)"
    using h by (cases tag) (auto simp: toLower_def lowerUnit_def isWs_def split: if_splits)
qed

lemma asciiHead_markup:
  assumes ws: "set ws \<subseteq> {9, 10, 13, 32}" "length ws \<le> 24"
    and tag: "toLower tag \<in> {js ''<!doctype'', js ''<html'', js ''<svg''}"
    and bom: "bom \<in> {[], [239, 187, 191]}"
  shows "\<exists>k. asciiHead (bom @ ws @ tag @ rest) = tag @ take k (takeWhile (\<lambda>b. b < 128) rest)"
proof -
  note t = markupTag_ascii [OF tag]
  define w where "w = take (512 - length (bom @ ws @ tag)) rest"
  have win: "take 512 (bom @ ws @ tag @ rest) = bom @ ws @ tag @ w"
    using ws(2) t(3) bom by (auto simp: w_def)
  have wt: "\<forall>c \<in> set (ws @ tag). c < 128" using ws(1) t(1) by auto
  have nb: "take 3 (ws @ tag @ w) \<noteq> [239, 187, 191]"
  proof
    assume "take 3 (ws @ tag @ w) = [239, 187, 191]"
    then have "hd ((ws @ tag) @ w) = 239" by (cases "ws @ tag @ w") auto
    then have "hd (ws @ tag) = 239" using t(2) by (simp only: hd_append2 append_is_Nil_conv simp_thms)
    then have "239 \<in> set (ws @ tag)" using t(2) by (metis append_is_Nil_conv list.set_sel(1))
    then have "(239::nat) < 128" using wt by blast
    then show False by simp
  qed
  have body: "(if take 3 (bom @ ws @ tag @ w) = [239, 187, 191] then drop 3 (bom @ ws @ tag @ w)
      else bom @ ws @ tag @ w) = (ws @ tag) @ w"
    using bom nb by auto
  have "takeWhile (\<lambda>b. b < 128) ((ws @ tag) @ w) = (ws @ tag) @ takeWhile (\<lambda>b. b < 128) w"
    using wt by (intro takeWhile_append2) auto
  moreover have "takeWhile (\<lambda>b. b < 128) w = take (512 - length (bom @ ws @ tag)) (takeWhile (\<lambda>b. b < 128) rest)"
    unfolding w_def by (rule takeWhile_take_comm)
  moreover have "trimStart (ws @ tag @ x) = tag @ x" for x
  proof -
    have "\<forall>c \<in> set ws. isWs c" using ws(1) by (auto simp: isWs_def)
    then show ?thesis
      using t(2,4) by (cases tag) (auto simp: trimStart_def dropWhile_append2 dropWhile_append3)
  qed
  moreover have "length (ws @ tag) \<le> 33" using ws(2) t(3) by simp
  ultimately show ?thesis
    unfolding asciiHead_def SNIFF_WINDOW_BYTES_def Let_def win body
    by (simp add: take_append) (metis take_take)
qed

text \<open>
  the policy's two sides. A path is accepted exactly when its extension is on the list. An
  asset that starts with an executable's magic bytes, or with an HTML or SVG opening tag in any
  case after up to 24 characters of white space and an optional byte order mark, is refused;
  but the sniffer looks at 33 characters only, white space included, so 33 blanks hide any markup.
\<close>

theorem upload_policy:
  assumes "set ws \<subseteq> {9, 10, 13, 32}" "length ws \<le> 24" "bom \<in> {[], [239, 187, 191]}"
    and "toLower tag \<in> {js ''<!doctype'', js ''<html'', js ''<svg''}"
    and "rest = [] \<or> \<not> isWordChar (hd rest)"
  shows "(validateArtifactExtension p = Inr ext \<longleftrightarrow> ext = extensionOfArtifactPath p \<and> ext \<in> set ALLOWED_ARTIFACT_EXTENSIONS)
   \<and> (\<exists>e. assertSafeAssetContent ([77, 90] @ bs) = Inl e)
   \<and> (\<exists>e. assertSafeAssetContent ([127, 69, 76, 70] @ bs) = Inl e)
   \<and> (\<exists>e. assertSafeAssetContent (bom @ ws @ tag @ rest) = Inl e)
   \<and> assertSafeAssetContent (replicate 33 32 @ bs) = Inr ()"
proof (intro conjI)
  show "validateArtifactExtension p = Inr ext \<longleftrightarrow> ext = extensionOfArtifactPath p \<and> ext \<in> set ALLOWED_ARTIFACT_EXTENSIONS"
    using artifactTypeForExtension_Inr [of ext] by (auto simp: validateArtifactExtension_def bindE_Inr Let_def)
  show "\<exists>e. assertSafeAssetContent ([77, 90] @ bs) = Inl e" "\<exists>e. assertSafeAssetContent ([127, 69, 76, 70] @ bs) = Inl e"
    by (simp_all add: assertSafeAssetContent_def detectProhibitedContent_def typeFail_def)
  obtain k where h: "asciiHead (bom @ ws @ tag @ rest) = tag @ take k (takeWhile (\<lambda>b. b < 128) rest)"
    using asciiHead_markup [OF assms(1,2,4,3)] by blast
  define tl where "tl = take k (takeWhile (\<lambda>b. b < 128) rest)"
  have "tl = [] \<or> \<not> isWordChar (hd tl)"
    using assms(5) by (cases rest; cases k) (auto simp: tl_def)
  moreover have "length (toLower tag) = length tag" by (simp add: toLower_def)
  ultimately have "opensWith (tag @ tl) (toLower tag)"
    by (cases tl) (auto simp: opensWith_def startsWith_append nth_append)
  then have "detectProhibitedContent (bom @ ws @ tag @ rest) \<noteq> None"
    using assms(4) unfolding detectProhibitedContent_def h tl_def [symmetric] Let_def by auto
  then show "\<exists>e. assertSafeAssetContent (bom @ ws @ tag @ rest) = Inl e"
    by (auto simp: assertSafeAssetContent_def typeFail_def split: ProhibitedContent.splits option.splits)
  have "asciiHead (replicate 33 32 @ bs) = []"
  proof -
    have w: "take 512 (replicate 33 32 @ bs) = replicate 33 32 @ take 479 bs" by simp
    have b: "take 3 (replicate 33 32 @ take 479 bs) \<noteq> [239, 187, 191]" by (simp add: numeral_3_eq_3)
    have "takeWhile (\<lambda>b. b < 128) (replicate 33 (32::nat) @ take 479 bs)
        = replicate 33 32 @ takeWhile (\<lambda>b. b < 128) (take 479 bs)"
      by (rule takeWhile_append2) simp
    then have t: "take 33 (takeWhile (\<lambda>b. b < 128) (replicate 33 (32::nat) @ take 479 bs)) = replicate 33 32"
      by simp
    show ?thesis
      unfolding asciiHead_def SNIFF_WINDOW_BYTES_def Let_def w if_not_P [OF b] t
      by (simp add: trimStart_def isWs_def)
  qed
  moreover have "take 2 (replicate 33 32 @ bs) \<noteq> [77, 90]" "take 4 (replicate 33 32 @ bs) \<noteq> [127, 69, 76, 70]"
    by (auto dest: arg_cong [of _ _ hd])
  ultimately show "assertSafeAssetContent (replicate 33 32 @ bs) = Inr ()"
    by (simp only: assertSafeAssetContent_def detectProhibitedContent_def Let_def if_False option.case)
       (simp add: opensWith_def js_eval toLower_def)
qed

theorem upload_policy_witness:
  "\<exists>e. assertSafeAssetContent ([239, 187, 191] @ [32, 10] @ js ''<HtMl'' @ js ''>'') = Inl e"
proof -
  have "toLower (js ''<HtMl'') \<in> {js ''<!doctype'', js ''<html'', js ''<svg''}"
    by (simp add: toLower_def lowerUnit_def char_class_defs js_eval)
  moreover have "js ''>'' = [] \<or> \<not> isWordChar (hd (js ''>''))"
    by (simp add: isWordChar_def char_class_defs js_eval)
  ultimately show ?thesis
    using upload_policy [of "[32, 10]" "[239, 187, 191]" "js ''<HtMl''" "js ''>''"] by simp
qed

subsection \<open>Source maps\<close>

text \<open>\<open>decodeUtf8\<close> and \<open>parseJSON\<close> are the host's strict UTF-8 decoder and \<open>JSON.parse\<close>.\<close>

record ValidatedSourceMap =
  sm_sources :: "jstr list"
  sm_names :: "jstr list option"
  sm_mappings :: jstr
  sm_file :: "jstr option"
  sm_sourceRoot :: "jstr option"

definition mapFail :: "string \<Rightarrow> ArtifactError + 'a" where
  "mapFail m = Inl (InvalidSourceMapError (js m))"

definition sourcesContentOk :: "json option \<Rightarrow> bool" where
  "sourcesContentOk v = (case v of None \<Rightarrow> True
     | Some (JArr xs) \<Rightarrow> (\<forall>x \<in> set xs. isJStr x \<or> x = JNull) | _ \<Rightarrow> False)"

definition strList :: "json option \<Rightarrow> jstr list" where
  "strList v = (case v of Some (JArr xs) \<Rightarrow> map strOf xs | _ \<Rightarrow> [])"

definition optStr :: "json option \<Rightarrow> jstr option" where
  "optStr v = (case v of Some (JStr s) \<Rightarrow> Some s | _ \<Rightarrow> None)"

definition validateSourceMapBytes ::
    "(nat list \<Rightarrow> jstr option) \<Rightarrow> (jstr \<Rightarrow> json option) \<Rightarrow> nat list \<Rightarrow> ArtifactError + ValidatedSourceMap" where
  "validateSourceMapBytes decodeUtf8 parseJSON bytes =
     (case decodeUtf8 bytes of None \<Rightarrow> mapFail ''Source map is not valid UTF-8''
      | Some text_ \<Rightarrow>
     (case parseJSON text_ of None \<Rightarrow> mapFail ''Source map is not valid JSON''
      | Some doc \<Rightarrow>
         if \<not> isRecord doc then mapFail ''Source map must be a JSON object''
         else if getProp doc (js ''version'') \<noteq> Some (JNum 3) then mapFail ''Source map version must be 3''
         else if \<not> isStringArray (getProp doc (js ''sources'')) then mapFail ''Source map sources must be an array of strings''
         else if getProp doc (js ''names'') \<noteq> None \<and> \<not> isStringArray (getProp doc (js ''names''))
           then mapFail ''Source map names must be an array of strings when present''
         else if \<not> typeofString (getProp doc (js ''mappings'')) then mapFail ''Source map mappings must be a string''
         else if getProp doc (js ''file'') \<noteq> None \<and> \<not> typeofString (getProp doc (js ''file''))
           then mapFail ''Source map file must be a string when present''
         else if getProp doc (js ''sourceRoot'') \<noteq> None \<and> \<not> typeofString (getProp doc (js ''sourceRoot''))
           then mapFail ''Source map sourceRoot must be a string when present''
         else if \<not> sourcesContentOk (getProp doc (js ''sourcesContent''))
           then mapFail ''Source map sourcesContent must be an array when present''
         else Inr \<lparr>sm_sources = strList (getProp doc (js ''sources'')),
                sm_names = (if isStringArray (getProp doc (js ''names'')) then Some (strList (getProp doc (js ''names''))) else None),
                sm_mappings = (case optStr (getProp doc (js ''mappings'')) of Some m \<Rightarrow> m | None \<Rightarrow> []),
                sm_file = optStr (getProp doc (js ''file'')),
                sm_sourceRoot = optStr (getProp doc (js ''sourceRoot''))\<rparr>))"

text \<open>An accepted map is the document's own view: no field is invented.\<close>

lemma validateSourceMapBytes_Inr:
  assumes "validateSourceMapBytes dec pj bytes = Inr m"
  shows "\<exists>t doc xs. dec bytes = Some t \<and> pj t = Some doc \<and> getProp doc (js ''version'') = Some (JNum 3)
     \<and> getProp doc (js ''sources'') = Some (JArr xs) \<and> map JStr (sm_sources m) = xs
     \<and> getProp doc (js ''mappings'') = Some (JStr (sm_mappings m))"
proof -
  obtain t doc where t: "dec bytes = Some t" "pj t = Some doc"
    using assms by (auto simp: validateSourceMapBytes_def mapFail_def split: option.splits)
  note a = assms [unfolded validateSourceMapBytes_def t option.case mapFail_def]
  have s: "isStringArray (getProp doc (js ''sources''))" "typeofString (getProp doc (js ''mappings''))"
    and v: "getProp doc (js ''version'') = Some (JNum 3)"
    and m: "sm_sources m = strList (getProp doc (js ''sources''))"
      "sm_mappings m = (case optStr (getProp doc (js ''mappings'')) of Some m \<Rightarrow> m | None \<Rightarrow> [])"
    using a by (auto split: if_split_asm)
  obtain xs where xs: "getProp doc (js ''sources'') = Some (JArr xs)" "\<forall>x \<in> set xs. isJStr x"
    using s(1) by (auto simp: isStringArray_def split: option.splits json.splits)
  obtain mp where "getProp doc (js ''mappings'') = Some (JStr mp)"
    using s(2) by (auto simp: typeofString_def split: option.splits json.splits)
  moreover have "map JStr (map strOf xs) = xs"
    using xs(2) by (induction xs) (auto elim: isJStr.elims)
  ultimately show ?thesis
    using t v m xs by (auto simp: strList_def optStr_def)
qed

subsection \<open>Configuration\<close>

text \<open>The two long messages of the configuration errors are abbreviated.\<close>

definition UNSAFE_PARENT_SEGMENTS :: "jstr list" where
  "UNSAFE_PARENT_SEGMENTS = [js ''node_modules'', js ''.git'', js ''packages'', js ''apps'']"

definition UNSAFE_ROOT_BASENAMES :: "jstr list" where
  "UNSAFE_ROOT_BASENAMES = [js ''node_modules'', js ''.git'', js ''packages'', js ''apps'', js ''public'', js ''src'', js ''uploads'']"

definition isSafeArtifactRoot :: "jstr list \<Rightarrow> jstr \<Rightarrow> jstr \<Rightarrow> bool" where
  "isSafeArtifactRoot cwd homedir candidate =
     (if trim candidate = [] then False
      else if 0 \<in> set candidate \<or> hasControlChars candidate then False
      else if \<not> isAbsolute candidate then False
      else let resolved = resolveSegs cwd [candidate]
           in if resolved = [] then False
              else if resolved = resolveSegs cwd [homedir] then False
              else if toLower (last resolved) \<in> set UNSAFE_ROOT_BASENAMES then False
              else \<not> list_ex (\<lambda>segment. toLower segment \<in> set UNSAFE_PARENT_SEGMENTS) (butlast resolved))"

definition configFail :: "string \<Rightarrow> ArtifactError + 'a" where
  "configFail m = Inl (ArtifactConfigError (js m))"

definition assertSafeArtifactRoot :: "jstr list \<Rightarrow> jstr \<Rightarrow> jstr \<Rightarrow> ArtifactError + jstr list" where
  "assertSafeArtifactRoot cwd homedir dir =
     (if \<not> isSafeArtifactRoot cwd homedir dir then configFail ''Refusing unsafe artifact root''
      else Inr (resolveSegs cwd [dir]))"

definition defaultArtifactDir :: "jstr \<Rightarrow> jstr" where
  "defaultArtifactDir homedir = homedir @ js ''/.replaybug/artifacts''"

definition resolveArtifactDir :: "jstr list \<Rightarrow> jstr \<Rightarrow> jstr option \<Rightarrow> ArtifactError + jstr list" where
  "resolveArtifactDir cwd homedir explicit =
     (case explicit of
        Some e \<Rightarrow> if trim e = [] then configFail ''REPLAYBUG_ARTIFACT_DIR is set but empty''
                  else assertSafeArtifactRoot cwd homedir e
      | None \<Rightarrow> assertSafeArtifactRoot cwd homedir (defaultArtifactDir homedir))"

definition MAX_FILE_BYTES_CEILING :: int where "MAX_FILE_BYTES_CEILING = 1024 * 1024 * 1024"

text \<open>\<open>toInteger\<close> is \<open>Number(raw)\<close> where that is an integer.\<close>

definition parseArtifactMaxFileBytes :: "(jstr \<Rightarrow> int option) \<Rightarrow> jstr option \<Rightarrow> ArtifactError + int" where
  "parseArtifactMaxFileBytes toInteger raw =
     (case raw of None \<Rightarrow> Inr DEFAULT_ARTIFACT_MAX_FILE_BYTES
      | Some r \<Rightarrow> if trim r = [] then Inr DEFAULT_ARTIFACT_MAX_FILE_BYTES
          else (case toInteger r of
              None \<Rightarrow> configFail ''REPLAYBUG_ARTIFACT_MAX_FILE_BYTES must be a positive integer of bytes''
            | Some n \<Rightarrow> if n \<le> 0 \<or> MAX_FILE_BYTES_CEILING < n
                then configFail ''REPLAYBUG_ARTIFACT_MAX_FILE_BYTES must be a positive integer of bytes'' else Inr n))"

definition loadArtifactConfigFromEnv ::
    "jstr list \<Rightarrow> jstr \<Rightarrow> (jstr \<Rightarrow> int option) \<Rightarrow> jstr option \<Rightarrow> jstr option \<Rightarrow> ArtifactError + jstr list \<times> int" where
  "loadArtifactConfigFromEnv cwd homedir toInteger dirVar maxVar =
     bindE (resolveArtifactDir cwd homedir dirVar) (\<lambda>d.
       bindE (parseArtifactMaxFileBytes toInteger maxVar) (\<lambda>m. Inr (d, m)))"

lemma loadArtifactConfig_safe:
  assumes "loadArtifactConfigFromEnv cwd homedir num dirVar maxVar = Inr (d, m)"
  shows "d \<noteq> [] \<and> d \<noteq> resolveSegs cwd [homedir] \<and> toLower (last d) \<notin> set UNSAFE_ROOT_BASENAMES
     \<and> (\<forall>s \<in> set (butlast d). toLower s \<notin> set UNSAFE_PARENT_SEGMENTS) \<and> 0 < m \<and> m \<le> MAX_FILE_BYTES_CEILING"
proof -
  have root: "d' \<noteq> [] \<and> d' \<noteq> resolveSegs cwd [homedir] \<and> toLower (last d') \<notin> set UNSAFE_ROOT_BASENAMES
     \<and> (\<forall>s \<in> set (butlast d'). toLower s \<notin> set UNSAFE_PARENT_SEGMENTS)"
    if "assertSafeArtifactRoot cwd homedir c = Inr d'" for c d'
    using that by (auto simp: assertSafeArtifactRoot_def isSafeArtifactRoot_def configFail_def Let_def list_ex_iff split: if_splits)
  have "\<exists>c. assertSafeArtifactRoot cwd homedir c = Inr d" and m: "parseArtifactMaxFileBytes num maxVar = Inr m"
    using assms by (auto simp: loadArtifactConfigFromEnv_def bindE_Inr resolveArtifactDir_def configFail_def
        split: option.splits if_splits)
  moreover have "0 < m \<and> m \<le> MAX_FILE_BYTES_CEILING"
    using m by (auto simp: parseArtifactMaxFileBytes_def configFail_def DEFAULT_ARTIFACT_MAX_FILE_BYTES_def
        MAX_FILE_BYTES_CEILING_def split: option.splits if_splits)
  ultimately show ?thesis using root by blast
qed

end
