(* ===== verification/IssueRows.thy ===== *)
theory IssueRows
  imports Policy
begin

text \<open>
  The rows that event processing and issue triage read and write, and their repositories
  (\<open>packages/db/src/repositories\<close>: \<open>issues.ts\<close>, \<open>issue-affected-sessions.ts\<close>,
  \<open>event-processing.ts\<close>, \<open>issue-activity.ts\<close>, \<open>notifications.ts\<close>, \<open>project-updates.ts\<close>). Issue
  ids are numbers from a counter that stands for the database's random UUIDs; timestamps are
  integers; \<open>'p\<close> is the type of stored payloads and \<open>'s\<close> that of symbolication results.
\<close>

datatype IssueStatus = Open | Investigating | Resolved | Ignored
datatype IssueType = type_exception | type_unhandled_rejection | type_console_error | type_network | type_message
datatype IssueSeverity = sev_error | sev_warning
datatype EventProcessingState = Pending | Processed | Rejected

record ('p, 's) EventRow =
  ev_id :: jstr
  ev_projectId :: jstr
  ev_session :: jstr
  ev_type :: jstr
  ev_occurredAt :: int
  ev_release :: "jstr option"
  ev_payload :: 'p
  ev_fingerprint :: "jstr option"
  ev_issueId :: "nat option"
  ev_symbolication :: "'s option"
  ev_state :: EventProcessingState
  ev_rejection :: "jstr option"

record IssueRow =
  i_id :: nat
  i_projectId :: jstr
  i_fingerprint :: jstr
  i_signature :: jstr
  i_type :: IssueType
  i_title :: jstr
  i_message :: jstr
  i_status :: IssueStatus
  i_severity :: IssueSeverity
  i_assigned :: "jstr option"
  i_firstSeen :: int
  i_lastSeen :: int
  i_resolvedAt :: "int option"
  i_firstRelease :: "jstr option"
  i_lastRelease :: "jstr option"
  i_occurrences :: nat
  i_sessions :: nat

record AffectedRow =
  af_issue :: nat
  af_session :: jstr
  af_firstSeen :: int

datatype IssueActivityType = act_created | act_assigned | act_unassigned | act_status_changed
  | act_comment_added | act_regression_detected | act_reproduction_generated
  | act_ai_analysis_requested | act_ai_analysis_completed | act_ai_analysis_failed

record IssueActivityRow =
  ac_issue :: nat
  ac_actor :: "jstr option"
  ac_type :: IssueActivityType
  ac_metadata :: "(jstr \<times> jstr) list"

datatype NotificationType = issue_assigned | issue_comment_mention | issue_regression
  | reproduction_failed | ai_analysis_completed | ai_analysis_failed

record NotificationRow =
  no_user :: jstr
  no_workspace :: jstr
  no_project :: jstr
  no_issue :: nat
  no_type :: NotificationType
  no_title :: jstr
  no_body :: jstr

datatype ProjectUpdateType = upd_created | upd_updated | upd_regressed | upd_comment | upd_assignment
  | upd_tags | upd_reproduction_ready | upd_reproduction_failed | upd_analysis_ready | upd_analysis_failed

record ProjectUpdateNotification =
  pu_type :: ProjectUpdateType
  pu_projectId :: jstr
  pu_issueId :: nat
  pu_eventId :: "jstr option"

record ('p, 's) idb =
  d_events :: "('p, 's) EventRow list"
  d_projects :: "ProjectView list"
  d_members :: "MembershipView list"
  d_issues :: "IssueRow list"
  d_affected :: "AffectedRow list"
  d_activity :: "IssueActivityRow list"
  d_notifications :: "NotificationRow list"
  d_notified :: "ProjectUpdateNotification list"
  d_nextIssue :: nat

definition findRow :: "('a \<Rightarrow> bool) \<Rightarrow> 'a list \<Rightarrow> 'a option" where
  "findRow P xs = List.find P xs"

subsection \<open>Issues\<close>

definition lockIssueByFingerprint :: "('p, 's) idb \<Rightarrow> jstr \<Rightarrow> jstr \<Rightarrow> IssueRow option" where
  "lockIssueByFingerprint db pid fp = findRow (\<lambda>i. i_projectId i = pid \<and> i_fingerprint i = fp) (d_issues db)"

record CreateIssueInput =
  ci_projectId :: jstr
  ci_fingerprint :: jstr
  ci_signature :: jstr
  ci_type :: IssueType
  ci_title :: jstr
  ci_message :: jstr
  ci_severity :: IssueSeverity
  ci_firstSeenAt :: int
  ci_release :: "jstr option"

text \<open>\<open>ON CONFLICT DO NOTHING\<close> on the unique pair of project and fingerprint.\<close>

definition insertIssueIfAbsent :: "('p, 's) idb \<Rightarrow> CreateIssueInput \<Rightarrow> ('p, 's) idb \<times> IssueRow option" where
  "insertIssueIfAbsent db input =
     (if list_ex (\<lambda>i. i_projectId i = ci_projectId input \<and> i_fingerprint i = ci_fingerprint input) (d_issues db)
      then (db, None)
      else let row = \<lparr>i_id = d_nextIssue db, i_projectId = ci_projectId input, i_fingerprint = ci_fingerprint input,
             i_signature = ci_signature input, i_type = ci_type input, i_title = ci_title input,
             i_message = ci_message input, i_status = Open, i_severity = ci_severity input, i_assigned = None,
             i_firstSeen = ci_firstSeenAt input, i_lastSeen = ci_firstSeenAt input, i_resolvedAt = None,
             i_firstRelease = ci_release input, i_lastRelease = ci_release input,
             i_occurrences = 0, i_sessions = 0\<rparr>
           in (db\<lparr>d_issues := d_issues db @ [row], d_nextIssue := d_nextIssue db + 1\<rparr>, Some row))"

record RecordIssueOccurrenceInput =
  ro_issueId :: nat
  ro_occurredAt :: int
  ro_release :: "jstr option"
  ro_newSession :: bool
  ro_reopen :: bool

definition occurrencePatch :: "RecordIssueOccurrenceInput \<Rightarrow> IssueRow \<Rightarrow> IssueRow" where
  "occurrencePatch input i =
     (let j = i\<lparr>i_occurrences := i_occurrences i + 1,
            i_sessions := (if ro_newSession input then i_sessions i + 1 else i_sessions i),
            i_firstSeen := min (i_firstSeen i) (ro_occurredAt input),
            i_lastSeen := max (i_lastSeen i) (ro_occurredAt input),
            i_firstRelease := (if ro_occurredAt input < i_firstSeen i then ro_release input else i_firstRelease i),
            i_lastRelease := (if i_lastSeen i < ro_occurredAt input then ro_release input else i_lastRelease i)\<rparr>
      in if ro_reopen input then j\<lparr>i_status := Open, i_resolvedAt := None\<rparr> else j)"

definition recordIssueOccurrence :: "('p, 's) idb \<Rightarrow> RecordIssueOccurrenceInput \<Rightarrow> ('p, 's) idb" where
  "recordIssueOccurrence db input =
     db\<lparr>d_issues := map (\<lambda>i. if i_id i = ro_issueId input then occurrencePatch input i else i) (d_issues db)\<rparr>"

definition findIssueById :: "('p, 's) idb \<Rightarrow> nat \<Rightarrow> IssueRow option" where
  "findIssueById db k = findRow (\<lambda>i. i_id i = k) (d_issues db)"

definition lockIssueById :: "('p, 's) idb \<Rightarrow> nat \<Rightarrow> IssueRow option" where
  "lockIssueById db k = findRow (\<lambda>i. i_id i = k) (d_issues db)"

record UpdateIssueRowPatch =
  pt_status :: "IssueStatus option"
  pt_assigned :: "jstr option option"
  pt_resolvedAt :: "int option option"

definition issuePatch :: "UpdateIssueRowPatch \<Rightarrow> IssueRow \<Rightarrow> IssueRow" where
  "issuePatch p i = i\<lparr>i_status := (case pt_status p of None \<Rightarrow> i_status i | Some s \<Rightarrow> s),
     i_assigned := (case pt_assigned p of None \<Rightarrow> i_assigned i | Some a \<Rightarrow> a),
     i_resolvedAt := (case pt_resolvedAt p of None \<Rightarrow> i_resolvedAt i | Some r \<Rightarrow> r)\<rparr>"

definition updateIssueRow :: "('p, 's) idb \<Rightarrow> nat \<Rightarrow> UpdateIssueRowPatch \<Rightarrow> ('p, 's) idb \<times> IssueRow option" where
  "updateIssueRow db k p =
     (db\<lparr>d_issues := map (\<lambda>i. if i_id i = k then issuePatch p i else i) (d_issues db)\<rparr>,
      map_option (issuePatch p) (findIssueById db k))"

subsection \<open>Affected sessions\<close>

definition recordIssueAffectedSession :: "('p, 's) idb \<Rightarrow> nat \<Rightarrow> jstr \<Rightarrow> int \<Rightarrow> ('p, 's) idb \<times> bool" where
  "recordIssueAffectedSession db k session firstSeenAt =
     (if list_ex (\<lambda>a. af_issue a = k \<and> af_session a = session) (d_affected db) then (db, False)
      else (db\<lparr>d_affected := d_affected db @ [\<lparr>af_issue = k, af_session = session, af_firstSeen = firstSeenAt\<rparr>]\<rparr>, True))"

subsection \<open>Events\<close>

record ('p, 's) EventForProcessing =
  fp_row :: "('p, 's) EventRow"
  fp_workspaceId :: jstr

definition lockEventForProcessing :: "('p, 's) idb \<Rightarrow> jstr \<Rightarrow> ('p, 's) EventForProcessing option" where
  "lockEventForProcessing db eid =
     (case findRow (\<lambda>e. ev_id e = eid) (d_events db) of None \<Rightarrow> None
      | Some e \<Rightarrow> (case findRow (\<lambda>p. pv_id p = ev_projectId e) (d_projects db) of None \<Rightarrow> None
          | Some p \<Rightarrow> Some \<lparr>fp_row = e, fp_workspaceId = pv_workspaceId p\<rparr>))"

definition getEventForSymbolication :: "('p, 's) idb \<Rightarrow> jstr \<Rightarrow> ('p, 's) EventRow option" where
  "getEventForSymbolication db eid = findRow (\<lambda>e. ev_id e = eid) (d_events db)"

definition updateEvent :: "('p, 's) idb \<Rightarrow> jstr \<Rightarrow> (('p, 's) EventRow \<Rightarrow> ('p, 's) EventRow) \<Rightarrow> ('p, 's) idb" where
  "updateEvent db eid f = db\<lparr>d_events := map (\<lambda>e. if ev_id e = eid then f e else e) (d_events db)\<rparr>"

definition persistEventSymbolication :: "('p, 's) idb \<Rightarrow> jstr \<Rightarrow> 's \<Rightarrow> ('p, 's) idb" where
  "persistEventSymbolication db eid s = updateEvent db eid (\<lambda>e. e\<lparr>ev_symbolication := Some s\<rparr>)"

definition markEventProcessed :: "('p, 's) idb \<Rightarrow> jstr \<Rightarrow> jstr option \<Rightarrow> nat option \<Rightarrow> ('p, 's) idb" where
  "markEventProcessed db eid fp k =
     updateEvent db eid (\<lambda>e. e\<lparr>ev_state := Processed, ev_fingerprint := fp, ev_issueId := k\<rparr>)"

definition markEventRejected :: "('p, 's) idb \<Rightarrow> jstr \<Rightarrow> jstr \<Rightarrow> ('p, 's) idb" where
  "markEventRejected db eid reason = updateEvent db eid (\<lambda>e. e\<lparr>ev_state := Rejected, ev_rejection := Some reason\<rparr>)"

subsection \<open>Append-only tables\<close>

definition insertIssueActivity :: "('p, 's) idb \<Rightarrow> IssueActivityRow \<Rightarrow> ('p, 's) idb" where
  "insertIssueActivity db a = db\<lparr>d_activity := d_activity db @ [a]\<rparr>"

definition insertNotification :: "('p, 's) idb \<Rightarrow> NotificationRow \<Rightarrow> ('p, 's) idb" where
  "insertNotification db n = db\<lparr>d_notifications := d_notifications db @ [n]\<rparr>"

definition notifyProjectIssueUpdate :: "('p, 's) idb \<Rightarrow> ProjectUpdateNotification \<Rightarrow> ('p, 's) idb" where
  "notifyProjectIssueUpdate db n = db\<lparr>d_notified := d_notified db @ [n]\<rparr>"

lemma append_only_frame [frame, simp]:
  "d_events (insertIssueActivity db a) = d_events db" "d_issues (insertIssueActivity db a) = d_issues db"
  "d_affected (insertIssueActivity db a) = d_affected db" "d_nextIssue (insertIssueActivity db a) = d_nextIssue db"
  "d_projects (insertIssueActivity db a) = d_projects db"
  "d_events (insertNotification db n) = d_events db" "d_issues (insertNotification db n) = d_issues db"
  "d_affected (insertNotification db n) = d_affected db" "d_nextIssue (insertNotification db n) = d_nextIssue db"
  "d_projects (insertNotification db n) = d_projects db"
  "d_events (notifyProjectIssueUpdate db u) = d_events db" "d_issues (notifyProjectIssueUpdate db u) = d_issues db"
  "d_affected (notifyProjectIssueUpdate db u) = d_affected db" "d_nextIssue (notifyProjectIssueUpdate db u) = d_nextIssue db"
  "d_projects (notifyProjectIssueUpdate db u) = d_projects db"
  by (simp_all add: insertIssueActivity_def insertNotification_def notifyProjectIssueUpdate_def)

lemma updateEvent_frame [frame, simp]:
  "d_issues (updateEvent db eid f) = d_issues db" "d_affected (updateEvent db eid f) = d_affected db"
  "d_nextIssue (updateEvent db eid f) = d_nextIssue db" "d_projects (updateEvent db eid f) = d_projects db"
  "d_activity (updateEvent db eid f) = d_activity db" "d_notifications (updateEvent db eid f) = d_notifications db"
  "d_notified (updateEvent db eid f) = d_notified db"
  "d_events (updateEvent db eid f) = map (\<lambda>e. if ev_id e = eid then f e else e) (d_events db)"
  by (simp_all add: updateEvent_def)

end
