(* ===== verification/IssueLifecycle.thy ===== *)
theory IssueLifecycle
  imports IssueRows
begin

text \<open>
  Event processing (\<open>apps/worker/src/processors/process-event.ts\<close>) and the triage operations that
  change an issue (\<open>updateIssueStatus\<close>, \<open>updateIssueAssignee\<close> of \<open>apps/api/src/services/issues.ts\<close>).
  Symbolication and the derivation of the processing plan are parameters here: a plan is what the
  fingerprinting code returns. Other transactions may commit between two statements of one: where
  the code copes with that, their effect is the argument \<open>others\<close>.
\<close>

subsection \<open>Processing one event\<close>

datatype Grouping = GroupAutomatic | GroupCustom

record IssueDescriptor =
  de_type :: IssueType
  de_title :: jstr
  de_message :: jstr
  de_severity :: IssueSeverity
  de_signature :: jstr
  de_fingerprint :: jstr
  de_grouping :: Grouping

datatype EventProcessingPlan = PlanIssue IssueDescriptor | PlanNonIssue

datatype planError = StoredEventPayloadError jstr | OtherPlanError

record ('p, 's) deps =
  symbolicateEvent :: "('p, 's) EventRow \<Rightarrow> 's option"
  deriveEventProcessingPlan :: "jstr \<Rightarrow> jstr \<Rightarrow> 'p \<Rightarrow> 's \<Rightarrow> planError + EventProcessingPlan"

datatype ProcessEventOutcome =
    OutcomeProcessed jstr "nat option" "jstr option"
  | OutcomeAlreadyProcessed jstr
  | OutcomeAlreadyRejected jstr
  | OutcomeRejected jstr jstr
  | OutcomeEventNotFound

definition descriptorInput :: "('p, 's) EventRow \<Rightarrow> IssueDescriptor \<Rightarrow> CreateIssueInput" where
  "descriptorInput e d = \<lparr>ci_projectId = ev_projectId e, ci_fingerprint = de_fingerprint d,
     ci_signature = de_signature d, ci_type = de_type d, ci_title = de_title d, ci_message = de_message d,
     ci_severity = de_severity d, ci_firstSeenAt = ev_occurredAt e, ci_release = ev_release e\<rparr>"

text \<open>The issue row, whether it was created here, and the database after the statements.\<close>

definition lockOrCreateIssue ::
    "(('p, 's) idb \<Rightarrow> ('p, 's) idb) \<Rightarrow> ('p, 's) idb \<Rightarrow> CreateIssueInput \<Rightarrow> (IssueRow \<times> bool) option \<times> ('p, 's) idb" where
  "lockOrCreateIssue others db input =
     (case lockIssueByFingerprint db (ci_projectId input) (ci_fingerprint input) of
        Some existing \<Rightarrow> (Some (existing, False), db)
      | None \<Rightarrow>
          let db1 = others db
          in case insertIssueIfAbsent db1 input of
               (db2, Some inserted) \<Rightarrow> (Some (inserted, True), db2)
             | (db2, None) \<Rightarrow>
                 (case lockIssueByFingerprint db2 (ci_projectId input) (ci_fingerprint input) of
                    None \<Rightarrow> (None, db2)
                  | Some raced \<Rightarrow> (Some (raced, False), db2)))"

definition recordOnIssue ::
    "('p, 's) EventForProcessing \<Rightarrow> IssueDescriptor \<Rightarrow> 's \<Rightarrow> IssueRow \<Rightarrow> bool \<Rightarrow> ('p, 's) idb \<Rightarrow> ('p, 's) idb" where
  "recordOnIssue ev d smap issue created db =
     (let e = fp_row ev;
          (db1, newSession) = recordIssueAffectedSession db (i_id issue) (ev_session e) (ev_occurredAt e);
          reopen = (\<not> created \<and> i_status issue = Resolved);
          db2 = recordIssueOccurrence db1 \<lparr>ro_issueId = i_id issue, ro_occurredAt = ev_occurredAt e,
                  ro_release = ev_release e, ro_newSession = newSession, ro_reopen = reopen\<rparr>;
          db3 = (if created then insertIssueActivity db2 \<lparr>ac_issue = i_id issue, ac_actor = None,
                     ac_type = act_created, ac_metadata = [(js ''eventId'', ev_id e)]\<rparr>
                 else if reopen then
                   (let db' = insertIssueActivity db2 \<lparr>ac_issue = i_id issue, ac_actor = None,
                          ac_type = act_regression_detected, ac_metadata = [(js ''eventId'', ev_id e)]\<rparr>
                    in case i_assigned issue of None \<Rightarrow> db'
                       | Some user \<Rightarrow> insertNotification db' \<lparr>no_user = user, no_workspace = fp_workspaceId ev,
                           no_project = ev_projectId e, no_issue = i_id issue, no_type = issue_regression,
                           no_title = js ''Issue regressed: '' @ i_title issue,
                           no_body = js ''A new occurrence was detected after this issue was marked resolved.''\<rparr>)
                 else db2);
          db4 = persistEventSymbolication db3 (ev_id e) smap;
          db5 = markEventProcessed db4 (ev_id e) (Some (de_fingerprint d)) (Some (i_id issue))
      in notifyProjectIssueUpdate db5 \<lparr>pu_type = (if created then upd_created else if reopen then upd_regressed else upd_updated),
           pu_projectId = ev_projectId e, pu_issueId = i_id issue, pu_eventId = Some (ev_id e)\<rparr>)"

text \<open>
  The issue transaction. A throw is \<open>None\<close>; it rolls back this transaction's writes, so what is
  left are the commits of the others.
\<close>

definition processTx ::
    "('p, 's) deps \<Rightarrow> (('p, 's) idb \<Rightarrow> ('p, 's) idb) \<Rightarrow> 's \<Rightarrow> jstr \<Rightarrow> ('p, 's) idb \<Rightarrow> ProcessEventOutcome option \<times> ('p, 's) idb" where
  "processTx dep others smap eventId db =
     (case lockEventForProcessing db eventId of
        None \<Rightarrow> (Some OutcomeEventNotFound, db)
      | Some ev \<Rightarrow>
          let e = fp_row ev
          in if ev_state e = Processed then (Some (OutcomeAlreadyProcessed (ev_projectId e)), db)
             else if ev_state e = Rejected then (Some (OutcomeAlreadyRejected (ev_projectId e)), db)
             else case deriveEventProcessingPlan dep (ev_projectId e) (ev_type e) (ev_payload e) smap of
                 Inl (StoredEventPayloadError code) \<Rightarrow>
                   (Some (OutcomeRejected (ev_projectId e) code),
                    markEventRejected (persistEventSymbolication db eventId smap) eventId code)
               | Inl OtherPlanError \<Rightarrow> (None, db)
               | Inr PlanNonIssue \<Rightarrow>
                   (Some (OutcomeProcessed (ev_projectId e) None None),
                    markEventProcessed (persistEventSymbolication db eventId smap) eventId None None)
               | Inr (PlanIssue d) \<Rightarrow>
                   (case lockOrCreateIssue others db (descriptorInput e d) of
                      (None, db1) \<Rightarrow> (None, db1)
                    | (Some (issue, created), db1) \<Rightarrow>
                        (Some (OutcomeProcessed (ev_projectId e) (Some (i_id issue)) (Some (de_fingerprint d))),
                         recordOnIssue ev d smap issue created db1)))"

definition processEvent ::
    "('p, 's) deps \<Rightarrow> (('p, 's) idb \<Rightarrow> ('p, 's) idb) \<Rightarrow> jstr \<Rightarrow> ('p, 's) idb \<Rightarrow> ProcessEventOutcome option \<times> ('p, 's) idb" where
  "processEvent dep others eventId db =
     (case getEventForSymbolication db eventId of
        None \<Rightarrow> (Some OutcomeEventNotFound, db)
      | Some preloaded \<Rightarrow>
          (case symbolicateEvent dep preloaded of
             None \<Rightarrow> (None, db)
           | Some smap \<Rightarrow> processTx dep others smap eventId db))"

subsection \<open>Triage\<close>

definition findMembership :: "('p, 's) idb \<Rightarrow> jstr \<Rightarrow> jstr \<Rightarrow> MembershipView option" where
  "findMembership db ws user = findRow (\<lambda>m. mv_workspaceId m = ws \<and> mv_userId m = user) (d_members db)"

definition membershipOrThrow :: "('p, 's) idb \<Rightarrow> jstr \<Rightarrow> jstr \<Rightarrow> thrown + MembershipView" where
  "membershipOrThrow db ws user = requireWorkspaceMembership (findMembership db ws user)"

definition issueWithAccess :: "('p, 's) idb \<Rightarrow> jstr \<Rightarrow> nat \<Rightarrow> Capability \<Rightarrow> thrown + IssueRow \<times> MembershipView" where
  "issueWithAccess db user k capability =
     (case findIssueById db k of None \<Rightarrow> Inl (Domain (notFound (js ''Issue'')))
      | Some issue \<Rightarrow>
          (case findRow (\<lambda>p. pv_id p = i_projectId issue) (d_projects db) of
             None \<Rightarrow> Inl (Domain (notFound (js ''Issue'')))
           | Some project \<Rightarrow>
               bindE (membershipOrThrow db (pv_workspaceId project) user) (\<lambda>membership.
                 bindE (requireProjectAccess (Some membership) (Some project)) (\<lambda>_.
                   bindE (requireWorkspaceCapability membership capability) (\<lambda>_.
                     Inr (issue, membership))))))"

fun statusText :: "IssueStatus \<Rightarrow> jstr" where
  "statusText Open = js ''open''"
| "statusText Investigating = js ''investigating''"
| "statusText Resolved = js ''resolved''"
| "statusText Ignored = js ''ignored''"

definition updateIssueStatus ::
    "int \<Rightarrow> (('p, 's) idb \<Rightarrow> ('p, 's) idb) \<Rightarrow> jstr \<Rightarrow> nat \<Rightarrow> IssueStatus \<Rightarrow> ('p, 's) idb \<Rightarrow> (thrown + IssueRow) \<times> ('p, 's) idb" where
  "updateIssueStatus now others user k status db =
     (case issueWithAccess db user k issue_update_status of
        Inl e \<Rightarrow> (Inl e, db)
      | Inr (issue, membership) \<Rightarrow>
          if i_status issue = status then (Inr issue, db)
          else let db1 = others db
               in case lockIssueById db1 k of
                    None \<Rightarrow> (Inl (Domain (notFound (js ''Issue''))), db1)
                  | Some locked \<Rightarrow>
                      if i_status locked = status then (Inr locked, db1)
                      else case updateIssueRow db1 k \<lparr>pt_status = Some status, pt_assigned = None,
                                pt_resolvedAt = Some (if status = Resolved then Some now else None)\<rparr> of
                             (db2, None) \<Rightarrow> (Inl (Domain (notFound (js ''Issue''))), db1)
                           | (db2, Some row) \<Rightarrow>
                               let db3 = insertIssueActivity db2 \<lparr>ac_issue = k, ac_actor = Some user,
                                     ac_type = act_status_changed,
                                     ac_metadata = [(js ''from'', statusText (i_status locked)), (js ''to'', statusText status)]\<rparr>
                               in (Inr row, notifyProjectIssueUpdate db3 \<lparr>pu_type = upd_updated,
                                     pu_projectId = i_projectId row, pu_issueId = k, pu_eventId = None\<rparr>))"

definition updateIssueAssignee ::
    "(('p, 's) idb \<Rightarrow> ('p, 's) idb) \<Rightarrow> jstr \<Rightarrow> nat \<Rightarrow> jstr option \<Rightarrow> ('p, 's) idb \<Rightarrow> (thrown + IssueRow) \<times> ('p, 's) idb" where
  "updateIssueAssignee others actor k assignee db =
     (case issueWithAccess db actor k issue_assign of
        Inl e \<Rightarrow> (Inl e, db)
      | Inr (issue, membership) \<Rightarrow>
          if (case assignee of None \<Rightarrow> False | Some u \<Rightarrow> findMembership db (mv_workspaceId membership) u = None)
          then (Inl (Domain (forbidden (js ''Assignee must be a workspace member''))), db)
          else if i_assigned issue = assignee then (Inr issue, db)
          else let db1 = others db
               in case lockIssueById db1 k of
                    None \<Rightarrow> (Inl (Domain (notFound (js ''Issue''))), db1)
                  | Some locked \<Rightarrow>
                      if i_assigned locked = assignee then (Inr locked, db1)
                      else case updateIssueRow db1 k \<lparr>pt_status = None, pt_assigned = Some assignee, pt_resolvedAt = None\<rparr> of
                             (db2, None) \<Rightarrow> (Inl (Domain (notFound (js ''Issue''))), db1)
                           | (db2, Some row) \<Rightarrow>
                               let db3 = (case assignee of
                                     None \<Rightarrow> insertIssueActivity db2 \<lparr>ac_issue = k, ac_actor = Some actor,
                                       ac_type = act_unassigned, ac_metadata = []\<rparr>
                                   | Some u \<Rightarrow>
                                       let db' = insertIssueActivity db2 \<lparr>ac_issue = k, ac_actor = Some actor,
                                             ac_type = act_assigned, ac_metadata = [(js ''userId'', u)]\<rparr>
                                       in if u \<noteq> actor then insertNotification db' \<lparr>no_user = u,
                                              no_workspace = mv_workspaceId membership, no_project = i_projectId row,
                                              no_issue = k, no_type = issue_assigned, no_title = js ''Assigned: '' @ i_title row,
                                              no_body = js ''You were assigned to '' @ [34] @ i_title row @ [34] @ js ''.''\<rparr>
                                          else db')
                               in (Inr row, notifyProjectIssueUpdate db3 \<lparr>pu_type = upd_assignment,
                                     pu_projectId = i_projectId row, pu_issueId = k, pu_eventId = None\<rparr>))"

subsection \<open>Runs\<close>

text \<open>
  A simple action runs alone. A concurrent one is the processing of an event while other simple
  actions commit between its lookup of the issue and its insert; the event's row lock keeps the
  others off that event.
\<close>

datatype ('p, 's) action =
    Ingest "('p, 's) EventRow"
  | Process jstr
  | SetStatus int jstr nat IssueStatus
  | SetAssignee jstr nat "jstr option"

fun act :: "('p, 's) deps \<Rightarrow> ('p, 's) action \<Rightarrow> ('p, 's) idb \<Rightarrow> ('p, 's) idb" where
  "act dep (Ingest e) db =
     (if list_ex (\<lambda>x. ev_id x = ev_id e) (d_events db) then db
      else db\<lparr>d_events := d_events db @ [e\<lparr>ev_fingerprint := None, ev_issueId := None, ev_symbolication := None,
             ev_state := Pending, ev_rejection := None\<rparr>]\<rparr>)"
| "act dep (Process eid) db = snd (processEvent dep (\<lambda>x. x) eid db)"
| "act dep (SetStatus now user k st) db = snd (updateIssueStatus now (\<lambda>x. x) user k st db)"
| "act dep (SetAssignee user k a) db = snd (updateIssueAssignee (\<lambda>x. x) user k a db)"

definition acts :: "('p, 's) deps \<Rightarrow> ('p, 's) action list \<Rightarrow> ('p, 's) idb \<Rightarrow> ('p, 's) idb" where
  "acts dep as db = foldl (\<lambda>d a. act dep a d) db as"

fun keepsOff :: "jstr \<Rightarrow> ('p, 's) action \<Rightarrow> bool" where
  "keepsOff eid (Process eid') = (eid' \<noteq> eid)"
| "keepsOff eid a = True"

datatype ('p, 's) sysAction =
    Alone "('p, 's) action"
  | ProcessAmid jstr "('p, 's) action list"

fun sysAct :: "('p, 's) deps \<Rightarrow> ('p, 's) sysAction \<Rightarrow> ('p, 's) idb \<Rightarrow> ('p, 's) idb" where
  "sysAct dep (Alone a) db = act dep a db"
| "sysAct dep (ProcessAmid eid as) db =
     snd (processEvent dep (acts dep (filter (keepsOff eid) as)) eid db)"

definition sysRun :: "('p, 's) deps \<Rightarrow> ('p, 's) sysAction list \<Rightarrow> ('p, 's) idb \<Rightarrow> ('p, 's) idb" where
  "sysRun dep as db = foldl (\<lambda>d a. sysAct dep a d) db as"

subsection \<open>The invariant\<close>

text \<open>
  What an issue's aggregates mean: they are recomputable from the events associated with it.
\<close>

definition evsOf :: "('p, 's) idb \<Rightarrow> nat \<Rightarrow> ('p, 's) EventRow set" where
  "evsOf db k = {e \<in> set (d_events db). ev_issueId e = Some k}"

definition sessionsOf :: "('p, 's) idb \<Rightarrow> nat \<Rightarrow> jstr set" where
  "sessionsOf db k = af_session ` {a \<in> set (d_affected db). af_issue a = k}"

definition aggregates :: "('p, 's) EventRow set \<Rightarrow> IssueRow \<Rightarrow> bool" where
  "aggregates E i \<longleftrightarrow> E \<noteq> {} \<and> i_occurrences i = card E \<and> i_sessions i = card (ev_session ` E)
     \<and> i_firstSeen i = Min (ev_occurredAt ` E) \<and> i_lastSeen i = Max (ev_occurredAt ` E)
     \<and> (\<exists>e \<in> E. ev_occurredAt e = i_firstSeen i \<and> ev_release e = i_firstRelease i)
     \<and> (\<exists>e \<in> E. ev_occurredAt e = i_lastSeen i \<and> ev_release e = i_lastRelease i)
     \<and> (\<forall>e \<in> E. ev_state e = Processed \<and> ev_projectId e = i_projectId i \<and> ev_fingerprint e = Some (i_fingerprint i))"

definition freshFor :: "('p, 's) EventRow \<Rightarrow> IssueRow \<Rightarrow> bool" where
  "freshFor e i \<longleftrightarrow> i_occurrences i = 0 \<and> i_sessions i = 0 \<and> i_firstSeen i = ev_occurredAt e \<and> i_lastSeen i = ev_occurredAt e
     \<and> i_firstRelease i = ev_release e \<and> i_lastRelease i = ev_release e"

definition statusOk :: "IssueRow \<Rightarrow> bool" where
  "statusOk i \<longleftrightarrow> (i_status i = Resolved \<longleftrightarrow> i_resolvedAt i \<noteq> None)"

definition keysOk :: "('p, 's) idb \<Rightarrow> bool" where
  "keysOk db \<longleftrightarrow> distinct (map ev_id (d_events db)) \<and> distinct (map i_id (d_issues db))
     \<and> (\<forall>i \<in> set (d_issues db). i_id i < d_nextIssue db)
     \<and> distinct (map (\<lambda>i. (i_projectId i, i_fingerprint i)) (d_issues db))
     \<and> (\<forall>e \<in> set (d_events db). (ev_state e = Pending \<longrightarrow> ev_issueId e = None)
          \<and> (\<forall>k. ev_issueId e = Some k \<longrightarrow> k \<in> i_id ` set (d_issues db)))
     \<and> (\<forall>a \<in> set (d_affected db). af_issue a \<in> i_id ` set (d_issues db))"

definition issueOk :: "('p, 's) idb \<Rightarrow> IssueRow \<Rightarrow> bool" where
  "issueOk db i \<longleftrightarrow> statusOk i \<and> aggregates (evsOf db (i_id i)) i \<and> sessionsOf db (i_id i) = ev_session ` evsOf db (i_id i)"

definition dbOk :: "('p, 's) idb \<Rightarrow> bool" where
  "dbOk db \<longleftrightarrow> keysOk db \<and> (\<forall>i \<in> set (d_issues db). issueOk db i)"

lemma finite_evsOf [simp]: "finite (evsOf db k)"
  by (simp add: evsOf_def)

lemma findRow_Some: "findRow P xs = Some x \<Longrightarrow> x \<in> set xs \<and> P x"
  by (simp add: findRow_def find_SomeD)

lemma findRow_None: "findRow P xs = None \<longleftrightarrow> (\<forall>x \<in> set xs. \<not> P x)"
  by (auto simp: findRow_def find_None_iff)

lemma findRow_key:
  assumes "distinct (map f xs)" "x \<in> set xs"
  shows "findRow (\<lambda>y. f y = f x) xs = Some x"
proof -
  obtain y where y: "findRow (\<lambda>y. f y = f x) xs = Some y"
    using assms(2) findRow_None [of "\<lambda>y. f y = f x" xs] by (cases "findRow (\<lambda>y. f y = f x) xs") auto
  from findRow_Some [OF y] have "y \<in> set xs" "f y = f x" by auto
  with assms have "y = x" by (metis distinct_map inj_onD)
  with y show ?thesis by simp
qed

text \<open>One more event in an issue's set, for an issue that is right so far or just created.\<close>

lemma aggregates_patch:
  assumes fin: "finite E" and new: "e' \<notin> E"
    and e': "ev_state e' = Processed" "ev_projectId e' = i_projectId i" "ev_fingerprint e' = Some (i_fingerprint i)"
    and st: "aggregates E i \<or> (E = {} \<and> freshFor e' i)"
    and ns: "ns \<longleftrightarrow> ev_session e' \<notin> ev_session ` E"
  shows "aggregates (insert e' E) (occurrencePatch \<lparr>ro_issueId = k, ro_occurredAt = ev_occurredAt e',
     ro_release = ev_release e', ro_newSession = ns, ro_reopen = rp\<rparr> i)"
proof -
  define j' where "j' = occurrencePatch \<lparr>ro_issueId = k, ro_occurredAt = ev_occurredAt e',
     ro_release = ev_release e', ro_newSession = ns, ro_reopen = rp\<rparr> i"
  have j: "i_occurrences j' = i_occurrences i + 1" "i_sessions j' = (if ns then i_sessions i + 1 else i_sessions i)"
    "i_firstSeen j' = min (i_firstSeen i) (ev_occurredAt e')" "i_lastSeen j' = max (i_lastSeen i) (ev_occurredAt e')"
    "i_firstRelease j' = (if ev_occurredAt e' < i_firstSeen i then ev_release e' else i_firstRelease i)"
    "i_lastRelease j' = (if i_lastSeen i < ev_occurredAt e' then ev_release e' else i_lastRelease i)"
    "i_projectId j' = i_projectId i" "i_fingerprint j' = i_fingerprint i"
    by (simp_all add: j'_def occurrencePatch_def Let_def)
  from st have "aggregates (insert e' E) j'"
  proof
    assume "E = {} \<and> freshFor e' i"
    then show "aggregates (insert e' E) j'" using e' ns by (simp add: aggregates_def j freshFor_def)
  next
    assume a: "aggregates E i"
    have card: "card (ev_session ` insert e' E) = (if ns then card (ev_session ` E) + 1 else card (ev_session ` E))"
      using fin ns by (simp add: insert_absorb)
    have mn: "Min (ev_occurredAt ` insert e' E) = min (i_firstSeen i) (ev_occurredAt e')"
      and mx: "Max (ev_occurredAt ` insert e' E) = max (i_lastSeen i) (ev_occurredAt e')"
      using a fin by (simp_all add: aggregates_def min.commute max.commute)
    obtain a1 a2 where w: "a1 \<in> E" "ev_occurredAt a1 = i_firstSeen i" "ev_release a1 = i_firstRelease i"
      "a2 \<in> E" "ev_occurredAt a2 = i_lastSeen i" "ev_release a2 = i_lastRelease i"
      using a by (auto simp: aggregates_def)
    have f: "\<exists>e \<in> insert e' E. ev_occurredAt e = i_firstSeen j' \<and> ev_release e = i_firstRelease j'"
      using w(1-3) by (cases "ev_occurredAt e' < i_firstSeen i") (auto simp: j)
    have l: "\<exists>e \<in> insert e' E. ev_occurredAt e = i_lastSeen j' \<and> ev_release e = i_lastRelease j'"
      using w(4-6) by (cases "i_lastSeen i < ev_occurredAt e'") (auto simp: j)
    show "aggregates (insert e' E) j'"
      unfolding aggregates_def
      using a fin new e' f l mn mx card by (simp add: j aggregates_def)
  qed
  then show ?thesis by (simp add: j'_def)
qed

lemma statusOk_patch: "statusOk i \<Longrightarrow> statusOk (occurrencePatch inp i)"
  by (simp add: statusOk_def occurrencePatch_def Let_def)

lemma occurrencePatch_key [simp]:
  "i_id (occurrencePatch inp i) = i_id i" "i_projectId (occurrencePatch inp i) = i_projectId i"
  "i_fingerprint (occurrencePatch inp i) = i_fingerprint i"
  by (simp_all add: occurrencePatch_def Let_def)

definition doneRow :: "('p, 's) EventRow \<Rightarrow> 's \<Rightarrow> jstr \<Rightarrow> nat \<Rightarrow> ('p, 's) EventRow" where
  "doneRow e smap fp k = e\<lparr>ev_symbolication := Some smap, ev_state := Processed, ev_fingerprint := Some fp, ev_issueId := Some k\<rparr>"

definition reopens :: "IssueRow \<Rightarrow> bool \<Rightarrow> bool" where
  "reopens issue created \<longleftrightarrow> \<not> created \<and> i_status issue = Resolved"

definition newSession :: "('p, 's) idb \<Rightarrow> nat \<Rightarrow> jstr \<Rightarrow> bool" where
  "newSession db k s \<longleftrightarrow> s \<notin> sessionsOf db k"

lemma recordIssueAffectedSession_eq:
  "snd (recordIssueAffectedSession db k s t) = newSession db k s"
  "fst (recordIssueAffectedSession db k s t) = (if newSession db k s
     then db\<lparr>d_affected := d_affected db @ [\<lparr>af_issue = k, af_session = s, af_firstSeen = t\<rparr>]\<rparr> else db)"
  by (auto simp: recordIssueAffectedSession_def newSession_def sessionsOf_def list_ex_iff)

lemma recordIssueOccurrence_frame [frame, simp]:
  "d_events (recordIssueOccurrence db inp) = d_events db" "d_affected (recordIssueOccurrence db inp) = d_affected db"
  "d_nextIssue (recordIssueOccurrence db inp) = d_nextIssue db" "d_projects (recordIssueOccurrence db inp) = d_projects db"
  "d_issues (recordIssueOccurrence db inp) =
     map (\<lambda>i. if i_id i = ro_issueId inp then occurrencePatch inp i else i) (d_issues db)"
  by (simp_all add: recordIssueOccurrence_def)

text \<open>The four tables after an occurrence has been recorded.\<close>

lemma recordOnIssue_tables:
  fixes ev d smap issue created db
  defines "e \<equiv> fp_row ev" and "k \<equiv> i_id issue"
  defines "db' \<equiv> recordOnIssue ev d smap issue created db"
  shows "d_events db' = map (\<lambda>x. if ev_id x = ev_id e then doneRow x smap (de_fingerprint d) k else x) (d_events db)"
    and "d_issues db' = map (\<lambda>i. if i_id i = k then occurrencePatch \<lparr>ro_issueId = k, ro_occurredAt = ev_occurredAt e,
           ro_release = ev_release e, ro_newSession = newSession db k (ev_session e), ro_reopen = reopens issue created\<rparr> i
           else i) (d_issues db)"
    and "d_affected db' = d_affected db @ (if newSession db k (ev_session e)
           then [\<lparr>af_issue = k, af_session = ev_session e, af_firstSeen = ev_occurredAt e\<rparr>] else [])"
    and "d_nextIssue db' = d_nextIssue db" "d_projects db' = d_projects db"
  unfolding db'_def recordOnIssue_def persistEventSymbolication_def markEventProcessed_def e_def k_def reopens_def
  by (auto simp: Let_def split_def recordIssueAffectedSession_eq doneRow_def o_def split: option.splits)

lemma image_replace: "e \<in> S \<Longrightarrow> (\<lambda>x. if x = e then c else x) ` S = insert c (S - {e})"
  by auto

lemma select_replace:
  "ev_issueId e = None \<Longrightarrow> ev_issueId c = Some k \<Longrightarrow>
     {x \<in> insert c (S - {e}). ev_issueId x = Some j} =
       (if j = k then insert c {x \<in> S. ev_issueId x = Some k} else {x \<in> S. ev_issueId x = Some j})"
  by auto

lemma evsOf_map:
  assumes "distinct (map ev_id (d_events db))" "e \<in> set (d_events db)" "ev_issueId e = None"
    and "d_events db' = map (\<lambda>x. if ev_id x = ev_id e then doneRow x smap fp k else x) (d_events db)"
  shows "evsOf db' j = (if j = k then insert (doneRow e smap fp k) (evsOf db k) else evsOf db j)"
proof -
  have same: "x = e" if "x \<in> set (d_events db)" "ev_id x = ev_id e" for x
    using assms(1,2) that by (metis distinct_map inj_onD)
  have "set (d_events db') = (\<lambda>x. if x = e then doneRow e smap fp k else x) ` set (d_events db)"
    unfolding assms(4) set_map by (rule image_cong [OF refl]) (use same in auto)
  then have "set (d_events db') = insert (doneRow e smap fp k) (set (d_events db) - {e})"
    by (simp only: image_replace [OF assms(2)])
  moreover have "ev_issueId (doneRow e smap fp k) = Some k"
    by (simp add: doneRow_def)
  ultimately show ?thesis
    unfolding evsOf_def using assms(3) by (simp only: select_replace)
qed

lemma sessionsOf_append:
  assumes "d_affected db' = d_affected db @ (if newSession db k s then [\<lparr>af_issue = k, af_session = s, af_firstSeen = t\<rparr>] else [])"
  shows "sessionsOf db' j = (if j = k then insert s (sessionsOf db k) else sessionsOf db j)"
proof (cases "newSession db k s")
  case True
  then have "{a \<in> set (d_affected db'). af_issue a = j} = {a \<in> set (d_affected db). af_issue a = j}
      \<union> (if j = k then {\<lparr>af_issue = k, af_session = s, af_firstSeen = t\<rparr>} else {})"
    using assms by auto
  then show ?thesis by (simp add: sessionsOf_def image_Un)
next
  case False
  with assms show ?thesis by (auto simp: sessionsOf_def newSession_def)
qed

lemma recordOnIssue_ok:
  assumes keys: "keysOk db" and ev: "fp_row ev = e" "e \<in> set (d_events db)" "ev_state e = Pending"
    and issue: "issue \<in> set (d_issues db)" "i_projectId issue = ev_projectId e" "i_fingerprint issue = de_fingerprint d"
    and others: "\<And>i. i \<in> set (d_issues db) \<Longrightarrow> i_id i \<noteq> i_id issue \<Longrightarrow> issueOk db i"
    and mine: "statusOk issue" "issueOk db issue \<or> (evsOf db (i_id issue) = {} \<and> sessionsOf db (i_id issue) = {} \<and> freshFor e issue)"
  shows "dbOk (recordOnIssue ev d smap issue created db)"
proof -
  let ?db' = "recordOnIssue ev d smap issue created db" and ?k = "i_id issue"
  let ?e' = "doneRow e smap (de_fingerprint d) ?k"
  note tables = recordOnIssue_tables [of ev d smap issue created db, unfolded ev(1)]
  have none: "ev_issueId e = None" using keys ev by (auto simp: keysOk_def)
  have evs: "evsOf ?db' j = (if j = ?k then insert ?e' (evsOf db ?k) else evsOf db j)" for j
    using keys by (intro evsOf_map [OF _ ev(2) none tables(1)]) (simp add: keysOk_def)
  note sess = sessionsOf_append [OF tables(3)]
  let ?patch = "occurrencePatch \<lparr>ro_issueId = ?k, ro_occurredAt = ev_occurredAt e, ro_release = ev_release e,
     ro_newSession = newSession db ?k (ev_session e), ro_reopen = reopens issue created\<rparr>"
  have uniq: "i = issue" if "i \<in> set (d_issues db)" "i_id i = ?k" for i
    using keys issue(1) that by (auto simp: keysOk_def distinct_map inj_on_def)
  have "issueOk ?db' (?patch issue)"
  proof -
    have sq: "sessionsOf db ?k = ev_session ` evsOf db ?k"
      using mine(2) by (auto simp: issueOk_def)
    have "aggregates (insert ?e' (evsOf db ?k)) (occurrencePatch \<lparr>ro_issueId = ?k, ro_occurredAt = ev_occurredAt ?e',
        ro_release = ev_release ?e', ro_newSession = newSession db ?k (ev_session e), ro_reopen = reopens issue created\<rparr> issue)"
    proof (rule aggregates_patch)
      show "?e' \<notin> evsOf db ?k"
      proof
        assume "?e' \<in> evsOf db ?k"
        then have "?e' \<in> set (d_events db)" by (simp add: evsOf_def)
        moreover have "ev_id ?e' = ev_id e" by (simp add: doneRow_def)
        ultimately have "?e' = e" using keys ev(2) by (auto simp: keysOk_def distinct_map inj_on_def)
        then show False using ev(3) by (metis EventProcessingState.distinct(1) EventRow.select_convs(11) EventRow.surjective EventRow.update_convs(11) EventRow.update_convs(8) EventRow.update_convs(9) doneRow_def)
      qed
      show "aggregates (evsOf db ?k) issue \<or> evsOf db ?k = {} \<and> freshFor ?e' issue"
        using mine(2) by (auto simp: issueOk_def freshFor_def doneRow_def)
      show "newSession db ?k (ev_session e) = (ev_session ?e' \<notin> ev_session ` evsOf db ?k)"
        by (simp add: newSession_def sq doneRow_def)
    qed (simp_all add: doneRow_def issue)
    then show ?thesis
      using mine(1) sq by (simp add: issueOk_def evs sess statusOk_patch doneRow_def)
  qed
  moreover have "issueOk ?db' i" if "i \<in> set (d_issues db)" "i_id i \<noteq> ?k" for i
    using others [OF that] that(2) by (simp add: issueOk_def evs sess)
  ultimately have all: "\<forall>i \<in> set (d_issues ?db'). issueOk ?db' i"
    unfolding tables(2) using uniq by auto
  have ids: "map i_id (d_issues ?db') = map i_id (d_issues db)"
    "map (\<lambda>i. (i_projectId i, i_fingerprint i)) (d_issues ?db') = map (\<lambda>i. (i_projectId i, i_fingerprint i)) (d_issues db)"
    "map ev_id (d_events ?db') = map ev_id (d_events db)"
    unfolding tables(1,2) by (auto simp: doneRow_def)
  have idset: "i_id ` set (d_issues ?db') = i_id ` set (d_issues db)"
    using arg_cong [OF ids(1), of set] by simp
  have "\<forall>i \<in> set (d_issues ?db'). i_id i < d_nextIssue ?db'"
    using keys arg_cong [OF ids(1), of set] unfolding tables(4) keysOk_def by (metis (no_types, lifting) imageE image_eqI list.set_map)
  moreover have "\<forall>x \<in> set (d_events ?db'). (ev_state x = Pending \<longrightarrow> ev_issueId x = None)
      \<and> (\<forall>k. ev_issueId x = Some k \<longrightarrow> k \<in> i_id ` set (d_issues ?db'))"
    unfolding tables(1) idset using keys issue(1) by (auto simp: keysOk_def doneRow_def)
  moreover have "\<forall>a \<in> set (d_affected ?db'). af_issue a \<in> i_id ` set (d_issues ?db')"
    unfolding tables(3) idset using keys issue(1) by (auto simp: keysOk_def)
  ultimately have "keysOk ?db'"
    using keys unfolding keysOk_def ids by blast
  with all show ?thesis by (simp add: dbOk_def)
qed

text \<open>Changes that leave issues, their events and their sessions as they are.\<close>

lemma dbOk_cong:
  assumes "dbOk db" "d_issues db' = d_issues db" "d_affected db' = d_affected db" "d_nextIssue db' = d_nextIssue db"
    and "\<And>k. evsOf db' k = evsOf db k"
    and "distinct (map ev_id (d_events db'))"
    and "\<forall>e \<in> set (d_events db'). (ev_state e = Pending \<longrightarrow> ev_issueId e = None)
      \<and> (\<forall>k. ev_issueId e = Some k \<longrightarrow> k \<in> i_id ` set (d_issues db))"
  shows "dbOk db'"
  using assms unfolding dbOk_def keysOk_def issueOk_def sessionsOf_def by auto

lemma select_image:
  assumes "\<And>x. x \<in> S \<Longrightarrow> I (g x) = I x" "\<And>x. x \<in> S \<Longrightarrow> I x \<noteq> None \<Longrightarrow> g x = x"
  shows "{e \<in> g ` S. I e = Some k} = {e \<in> S. I e = Some k}"
proof (intro set_eqI iffI)
  fix e assume "e \<in> {e \<in> g ` S. I e = Some k}"
  then obtain x where x: "x \<in> S" "e = g x" "I (g x) = Some k" by auto
  then have "g x = x" using assms(1) [OF x(1)] by (intro assms(2)) auto
  with x show "e \<in> {e \<in> S. I e = Some k}" by simp
next
  fix e assume e: "e \<in> {e \<in> S. I e = Some k}"
  then have "g e = e" by (intro assms(2)) auto
  with e show "e \<in> {e \<in> g ` S. I e = Some k}" by (metis (no_types, lifting) image_eqI mem_Collect_eq)
qed

lemma updateEvent_ok [inv_intro]:
  assumes ok: "dbOk db" and unl: "\<And>x. x \<in> set (d_events db) \<Longrightarrow> ev_id x = eid \<Longrightarrow> ev_issueId x = None"
    and f: "\<And>x. ev_id (f x) = ev_id x" "\<And>x. ev_issueId x = None \<Longrightarrow> ev_issueId (f x) = None"
  shows "dbOk (updateEvent db eid f)"
proof (rule dbOk_cong [OF ok])
  have g: "ev_issueId (if ev_id x = eid then f x else x) = ev_issueId x"
    "ev_issueId x \<noteq> None \<Longrightarrow> (if ev_id x = eid then f x else x) = x" if "x \<in> set (d_events db)" for x
    using unl [OF that] f by auto
  show "evsOf (updateEvent db eid f) k = evsOf db k" for k
  proof -
    have "{e \<in> (\<lambda>x. if ev_id x = eid then f x else x) ` set (d_events db). ev_issueId e = Some k}
        = {e \<in> set (d_events db). ev_issueId e = Some k}"
      by (rule select_image) (use g in auto)
    then show ?thesis by (simp add: evsOf_def)
  qed
  show "distinct (map ev_id (d_events (updateEvent db eid f)))"
    using ok f(1) by (simp add: dbOk_def keysOk_def o_def if_distrib [of ev_id] cong: map_cong) (simp add: if_distrib cong: if_cong)
  show "\<forall>e \<in> set (d_events (updateEvent db eid f)). (ev_state e = Pending \<longrightarrow> ev_issueId e = None)
      \<and> (\<forall>k. ev_issueId e = Some k \<longrightarrow> k \<in> i_id ` set (d_issues db))"
    using ok unl f unfolding dbOk_def keysOk_def by fastforce
qed simp_all

lemma append_only_ok [inv_intro]:
  "dbOk db \<Longrightarrow> dbOk (insertIssueActivity db a)" "dbOk db \<Longrightarrow> dbOk (insertNotification db n)"
  "dbOk db \<Longrightarrow> dbOk (notifyProjectIssueUpdate db u)"
  by (simp_all add: dbOk_def keysOk_def issueOk_def evsOf_def sessionsOf_def)

lemma lockEventForProcessing_Some:
  "lockEventForProcessing db eid = Some ev \<Longrightarrow> fp_row ev \<in> set (d_events db) \<and> ev_id (fp_row ev) = eid"
  by (auto simp: lockEventForProcessing_def split: option.splits dest: findRow_Some)

lemma lockIssueByFingerprint_Some:
  "lockIssueByFingerprint db p f = Some i \<Longrightarrow> i \<in> set (d_issues db) \<and> i_projectId i = p \<and> i_fingerprint i = f"
  unfolding lockIssueByFingerprint_def by (drule findRow_Some) auto

text \<open>The issue the lookup or the insert hands over is fit for one more occurrence of \<open>e\<close>.\<close>

definition fit :: "('p, 's) EventRow \<Rightarrow> IssueDescriptor \<Rightarrow> IssueRow \<Rightarrow> ('p, 's) idb \<Rightarrow> bool" where
  "fit e d issue db \<longleftrightarrow> keysOk db \<and> issue \<in> set (d_issues db) \<and> i_projectId issue = ev_projectId e
     \<and> i_fingerprint issue = de_fingerprint d
     \<and> (\<forall>i \<in> set (d_issues db). i_id i \<noteq> i_id issue \<longrightarrow> issueOk db i) \<and> statusOk issue
     \<and> (issueOk db issue \<or> (evsOf db (i_id issue) = {} \<and> sessionsOf db (i_id issue) = {} \<and> freshFor e issue))"

lemma insertIssue_fit:
  assumes ok: "dbOk db" and ins: "insertIssueIfAbsent db (descriptorInput e d) = (db', Some issue)"
  shows "fit e d issue db'"
proof -
  have new: "\<forall>i \<in> set (d_issues db). \<not> (i_projectId i = ev_projectId e \<and> i_fingerprint i = de_fingerprint d)"
    and db': "db' = db\<lparr>d_issues := d_issues db @ [issue], d_nextIssue := d_nextIssue db + 1\<rparr>"
    and iss: "i_id issue = d_nextIssue db" "i_projectId issue = ev_projectId e" "i_fingerprint issue = de_fingerprint d"
      "freshFor e issue" "statusOk issue"
    using ins by (auto simp: insertIssueIfAbsent_def descriptorInput_def Let_def list_ex_iff freshFor_def statusOk_def
        split: if_splits)
  have lt: "i_id i < d_nextIssue db" if "i \<in> set (d_issues db)" for i
    using ok that by (auto simp: dbOk_def keysOk_def)
  have "evsOf db' (i_id issue) = {}" "sessionsOf db' (i_id issue) = {}"
    using ok lt by (fastforce simp: dbOk_def keysOk_def db' evsOf_def sessionsOf_def iss(1))+
  moreover have "issueOk db' i" if "i \<in> set (d_issues db)" for i
    using ok that by (auto simp: dbOk_def issueOk_def evsOf_def sessionsOf_def db')
  moreover have "keysOk db'"
    using ok lt new iss(1-3) unfolding dbOk_def keysOk_def
    by (fastforce simp: db' image_iff)
  ultimately show ?thesis
    using iss by (auto simp: fit_def db')
qed

lemma lockOrCreateIssue_fit:
  assumes ok: "dbOk db" "dbOk (others db)"
    and l: "lockOrCreateIssue others db (descriptorInput e d) = (Some (issue, created), db')"
  shows "fit e d issue db' \<and> (\<forall>x. x \<in> set (d_events db) \<longrightarrow> x \<in> set (d_events (others db)) \<longrightarrow> x \<in> set (d_events db'))"
proof -
  have found: "fit e d i db0" if "dbOk db0" "lockIssueByFingerprint db0 (ev_projectId e) (de_fingerprint d) = Some i" for i db0
    using lockIssueByFingerprint_Some [OF that(2)] that(1) by (auto simp: fit_def dbOk_def issueOk_def)
  show ?thesis
  proof (cases "lockIssueByFingerprint db (ev_projectId e) (de_fingerprint d)")
    case (Some i)
    with l found [OF ok(1)] show ?thesis by (simp add: lockOrCreateIssue_def descriptorInput_def)
  next
    case None
    obtain db2 r where ins: "insertIssueIfAbsent (others db) (descriptorInput e d) = (db2, r)"
      by (cases "insertIssueIfAbsent (others db) (descriptorInput e d)")
    have ev: "d_events db2 = d_events (others db)"
      using ins by (auto simp: insertIssueIfAbsent_def Let_def split: if_splits)
    show ?thesis
    proof (cases r)
      case (Some i)
      then have "db' = db2" "issue = i"
        using l None ins by (auto simp: lockOrCreateIssue_def descriptorInput_def)
      with insertIssue_fit [OF ok(2)] ins Some ev show ?thesis by auto
    next
      case rn: None
      then have "db2 = others db" using ins by (auto simp: insertIssueIfAbsent_def Let_def split: if_splits)
      then have "lockIssueByFingerprint (others db) (ev_projectId e) (de_fingerprint d) = Some issue" "db' = others db"
        using l None ins rn by (auto simp: lockOrCreateIssue_def descriptorInput_def split: option.splits)
      with found [OF ok(2)] show ?thesis by auto
    qed
  qed
qed

text \<open>What the commits in between may do: keep the invariant and this event's row.\<close>

definition harmless :: "jstr \<Rightarrow> (('p, 's) idb \<Rightarrow> ('p, 's) idb) \<Rightarrow> bool" where
  "harmless eid others \<longleftrightarrow> (\<forall>db. dbOk db \<longrightarrow> dbOk (others db)
     \<and> (\<forall>x \<in> set (d_events db). ev_id x = eid \<longrightarrow> x \<in> set (d_events (others db))))"

lemma lockOrCreateIssue_None:
  "lockOrCreateIssue others db inp = (None, db') \<Longrightarrow> dbOk (others db) \<Longrightarrow> dbOk db'"
  by (auto simp: lockOrCreateIssue_def insertIssueIfAbsent_def Let_def split: option.splits if_splits)

lemma processTx_ok:
  assumes ok: "dbOk db" and h: "harmless eid others"
  shows "dbOk (snd (processTx dep others smap eid db))"
proof (cases "lockEventForProcessing db eid")
  case None
  with ok show ?thesis by (simp add: processTx_def)
next
  case (Some ev)
  let ?e = "fp_row ev"
  note row = lockEventForProcessing_Some [OF Some]
  show ?thesis
  proof (cases "ev_state ?e")
    case Pending
    have none: "ev_issueId x = None" if "x \<in> set (d_events db)" "ev_id x = eid" for x
    proof -
      have "x = ?e" using ok row that by (auto simp: dbOk_def keysOk_def distinct_map inj_on_def)
      with Pending ok row show ?thesis by (auto simp: dbOk_def keysOk_def)
    qed
    have upd: "dbOk (updateEvent (updateEvent db eid f) eid g)"
      if "\<And>x. ev_id (f x) = ev_id x" "\<And>x. ev_id (g x) = ev_id x"
        "\<And>x. ev_issueId x = None \<Longrightarrow> ev_issueId (f x) = None" "\<And>x. ev_issueId x = None \<Longrightarrow> ev_issueId (g x) = None" for f g
    proof -
      have 1: "dbOk (updateEvent db eid f)"
        by (rule updateEvent_ok [OF ok none]) (use that in auto)
      show ?thesis
      proof (rule updateEvent_ok [OF 1])
        fix x assume x: "x \<in> set (d_events (updateEvent db eid f))" "ev_id x = eid"
        then obtain y where y: "y \<in> set (d_events db)" "x = (if ev_id y = eid then f y else y)" by auto
        then have "ev_id y = eid" using x(2) that(1) by (cases "ev_id y = eid") auto
        with y none that(3) show "ev_issueId x = None" by simp
      qed (use that in auto)
    qed
    show ?thesis
    proof (cases "deriveEventProcessingPlan dep (ev_projectId ?e) (ev_type ?e) (ev_payload ?e) smap")
      case (Inl err)
      then show ?thesis
        using Some Pending ok upd
        by (cases err) (simp_all add: processTx_def markEventRejected_def persistEventSymbolication_def)
    next
      case (Inr plan)
      show ?thesis
      proof (cases plan)
        case PlanNonIssue
        then show ?thesis
          using Some Pending Inr upd by (simp add: processTx_def markEventProcessed_def persistEventSymbolication_def)
      next
        case (PlanIssue d)
        obtain r db1 where l: "lockOrCreateIssue others db (descriptorInput ?e d) = (r, db1)"
          by (cases "lockOrCreateIssue others db (descriptorInput ?e d)")
        have ok2: "dbOk (others db)" using h ok by (simp add: harmless_def)
        show ?thesis
        proof (cases r)
          case None
          with l ok2 have "dbOk db1" by (auto intro: lockOrCreateIssue_None)
          with Some Pending Inr PlanIssue l None show ?thesis by (simp add: processTx_def)
        next
          case (Some ic)
          obtain issue created where ic: "ic = (issue, created)" by (cases ic)
          note f = lockOrCreateIssue_fit [OF ok ok2 l [unfolded Some ic]]
          have "?e \<in> set (d_events db1)"
            using f row h ok by (auto simp: harmless_def)
          then have "dbOk (recordOnIssue ev d smap issue created db1)"
            using f Pending by (intro recordOnIssue_ok [where e = ?e]) (auto simp: fit_def)
          with \<open>lockEventForProcessing db eid = Some ev\<close> Pending Inr PlanIssue l Some ic show ?thesis
            by (simp add: processTx_def)
        qed
      qed
    qed
  qed (use Some ok in \<open>simp_all add: processTx_def\<close>)
qed

lemma processEvent_ok:
  assumes "dbOk db" "harmless eid others"
  shows "dbOk (snd (processEvent dep others eid db))"
  using assms processTx_ok by (auto simp: processEvent_def split: option.splits)

lemma keysOk_map:
  assumes "keysOk db" "\<And>i. i_id (g i) = i_id i" "\<And>i. i_projectId (g i) = i_projectId i"
    "\<And>i. i_fingerprint (g i) = i_fingerprint i"
  shows "keysOk (db\<lparr>d_issues := map g (d_issues db)\<rparr>)"
  using assms by (simp add: keysOk_def o_def image_image)

lemma updateIssueRow_ok:
  assumes ok: "dbOk db" and st: "\<And>i. i \<in> set (d_issues db) \<Longrightarrow> statusOk (issuePatch p i)"
  shows "dbOk (fst (updateIssueRow db k p))"
proof -
  let ?g = "\<lambda>i. if i_id i = k then issuePatch p i else i"
  have key: "i_id (?g i) = i_id i" "i_projectId (?g i) = i_projectId i" "i_fingerprint (?g i) = i_fingerprint i" for i
    by (simp_all add: issuePatch_def)
  have agg: "aggregates E (issuePatch p i) = aggregates E i" for E :: "('a, 'b) EventRow set" and i
    by (simp add: aggregates_def issuePatch_def)
  have pid: "i_id (issuePatch p i) = i_id i" for i by (simp add: issuePatch_def)
  have "issueOk (fst (updateIssueRow db k p)) (?g i)" if "i \<in> set (d_issues db)" for i
  proof -
    have "evsOf (fst (updateIssueRow db k p)) j = evsOf db j" "sessionsOf (fst (updateIssueRow db k p)) j = sessionsOf db j" for j
      by (simp_all add: updateIssueRow_def evsOf_def sessionsOf_def)
    with ok st [OF that] that pid show ?thesis
      by (cases "i_id i = k") (auto simp: dbOk_def issueOk_def agg)
  qed
  moreover have "keysOk (fst (updateIssueRow db k p))"
    unfolding updateIssueRow_def fst_conv by (rule keysOk_map) (use ok key in \<open>simp_all only: dbOk_def\<close>)
  moreover have "d_issues (fst (updateIssueRow db k p)) = map ?g (d_issues db)"
    by (simp add: updateIssueRow_def)
  ultimately show ?thesis
    unfolding dbOk_def by (simp only: set_map ball_simps) blast
qed

lemma updateIssueStatus_ok:
  assumes "dbOk db" "dbOk (others db)"
  shows "dbOk (snd (updateIssueStatus now others user k st db))"
proof -
  have p: "dbOk (fst (updateIssueRow (others db) k \<lparr>pt_status = Some st, pt_assigned = None,
      pt_resolvedAt = Some (if st = Resolved then Some now else None)\<rparr>))"
    by (rule updateIssueRow_ok [OF assms(2)]) (simp add: statusOk_def issuePatch_def)
  show ?thesis
    using assms p unfolding updateIssueStatus_def Let_def
    by (auto split: sum.splits option.splits prod.splits intro!: append_only_ok)
qed

lemma updateIssueAssignee_ok:
  assumes "dbOk db" "dbOk (others db)"
  shows "dbOk (snd (updateIssueAssignee others user k a db))"
proof -
  have s: "statusOk i" if "i \<in> set (d_issues (others db))" for i
    using assms(2) that by (auto simp: dbOk_def issueOk_def)
  have p: "dbOk (fst (updateIssueRow (others db) k \<lparr>pt_status = None, pt_assigned = Some a, pt_resolvedAt = None\<rparr>))"
    by (rule updateIssueRow_ok [OF assms(2)]) (use s in \<open>simp add: statusOk_def issuePatch_def\<close>)
  show ?thesis
    using assms p unfolding updateIssueAssignee_def Let_def
    by (auto split: sum.splits option.splits prod.splits intro!: append_only_ok)
qed

lemma harmless_id: "harmless eid (\<lambda>x. x)"
  by (simp add: harmless_def)

lemma act_ok: "dbOk db \<Longrightarrow> dbOk (act dep a db)"
proof (cases a)
  case (Ingest e)
  assume ok: "dbOk db"
  show ?thesis
  proof (cases "list_ex (\<lambda>x. ev_id x = ev_id e) (d_events db)")
    case True
    with Ingest ok show ?thesis by simp
  next
    case False
    then have new: "ev_id e \<notin> ev_id ` set (d_events db)" by (auto simp: list_ex_iff)
    show ?thesis
      by (rule dbOk_cong [OF ok])
         (use ok False new Ingest in \<open>auto simp: evsOf_def dbOk_def keysOk_def\<close>)
  qed
qed (simp_all add: processEvent_ok harmless_id updateIssueStatus_ok updateIssueAssignee_ok)

text \<open>Whatever happens, only rows of the processed event change.\<close>

definition touchesOnly :: "jstr \<Rightarrow> ('p, 's) idb \<Rightarrow> ('p, 's) idb \<Rightarrow> bool" where
  "touchesOnly eid db d \<longleftrightarrow> (\<forall>x \<in> set (d_events db). ev_id x \<noteq> eid \<longrightarrow> x \<in> set (d_events d))"

lemma touchesOnly_same: "d_events d = d_events db \<Longrightarrow> touchesOnly eid db d"
  by (simp add: touchesOnly_def)

lemma touchesOnly_update:
  assumes t: "touchesOnly eid db d"
  shows "touchesOnly eid db (updateEvent d eid f)"
  unfolding touchesOnly_def
proof (intro ballI impI)
  fix x assume "x \<in> set (d_events db)" "ev_id x \<noteq> eid"
  with t have "x \<in> set (d_events d)" and n: "(if ev_id x = eid then f x else x) = x"
    by (auto simp: touchesOnly_def)
  show "x \<in> set (d_events (updateEvent d eid f))"
    unfolding updateEvent_frame(8) set_map by (rule image_eqI [where x = x]) (use n \<open>x \<in> set (d_events d)\<close> in \<open>simp_all only:\<close>)
qed

lemma processEvent_events:
  "\<exists>d0 \<in> {db, others db}. touchesOnly eid d0 (snd (processEvent dep others eid db))"
proof -
  let ?Q = "\<lambda>d. \<exists>d0 \<in> {db, others db}. touchesOnly eid d0 d"
  have l: "\<exists>d0 \<in> {db, others db}. d_events db' = d_events d0" if "lockOrCreateIssue others db inp = (r, db')" for inp r db'
    using that by (auto simp: lockOrCreateIssue_def insertIssueIfAbsent_def Let_def split: option.splits if_splits)
  have r: "touchesOnly eid d0 (recordOnIssue ev d smap issue created db')"
    if "lockEventForProcessing db eid = Some ev" "d_events db' = d_events d0" for ev d smap issue created db' d0
  proof -
    have id: "ev_id (fp_row ev) = eid" using lockEventForProcessing_Some [OF that(1)] by simp
    have "d_events (recordOnIssue ev d smap issue created db') =
        d_events (updateEvent db' eid (\<lambda>x. doneRow x smap (de_fingerprint d) (i_id issue)))"
      by (simp add: recordOnIssue_tables(1) id)
    then show ?thesis
      using touchesOnly_update [OF touchesOnly_same [OF that(2)]] by (simp only: touchesOnly_def) blast
  qed
  have s: "?Q db" by (auto intro: touchesOnly_same)
  have u: "?Q (updateEvent (updateEvent db eid f) eid g)" for f g
    by (auto intro!: bexI [of _ db] touchesOnly_update touchesOnly_same [OF refl])
  have tx: "?Q (snd (processTx dep others smap eid db))" for smap
  proof (cases "lockEventForProcessing db eid")
    case None
    with s show ?thesis by (simp add: processTx_def)
  next
    case (Some ev)
    have plan: "?Q (snd (case lockOrCreateIssue others db inp of
          (None, db1) \<Rightarrow> (None, db1) | (Some (issue, created), db1) \<Rightarrow> (Some (out issue), recordOnIssue ev d smap issue created db1)))"
      for inp d and out :: "IssueRow \<Rightarrow> ProcessEventOutcome"
    proof -
      obtain rr db1 where lo: "lockOrCreateIssue others db inp = (rr, db1)"
        by (cases "lockOrCreateIssue others db inp")
      obtain d0 where d0: "d0 \<in> {db, others db}" "d_events db1 = d_events d0" using l [OF lo] by blast
      then show ?thesis
        using r [OF Some d0(2)] touchesOnly_same [OF d0(2)] lo by (cases rr) (auto split: prod.splits)
    qed
    show ?thesis
      using Some plan u s unfolding processTx_def persistEventSymbolication_def markEventRejected_def markEventProcessed_def Let_def
      by (simp only: option.case split: sum.splits planError.splits EventProcessingPlan.splits if_splits) simp
  qed
  show ?thesis
    using s tx by (simp add: processEvent_def split: option.splits)
qed

lemma act_events:
  assumes "keepsOff eid a" "x \<in> set (d_events db)" "ev_id x = eid"
  shows "x \<in> set (d_events (act dep a db))"
proof (cases a)
  case (Process eid')
  with assms processEvent_events [of db "\<lambda>x. x" eid' dep] show ?thesis by (auto simp: touchesOnly_def)
next
  case (SetStatus now user k st)
  with assms show ?thesis
    by (auto simp: updateIssueStatus_def updateIssueRow_def Let_def split: sum.splits option.splits prod.splits)
next
  case (SetAssignee user k a)
  with assms show ?thesis
    by (auto simp: updateIssueAssignee_def updateIssueRow_def Let_def split: sum.splits option.splits prod.splits)
qed (use assms in auto)

lemma acts_harmless: "harmless eid (acts dep (filter (keepsOff eid) as))"
proof -
  have "(dbOk db \<longrightarrow> dbOk (acts dep bs db)) \<and> (\<forall>x \<in> set (d_events db). ev_id x = eid \<longrightarrow> x \<in> set (d_events (acts dep bs db)))"
    if "\<forall>b \<in> set bs. keepsOff eid b" for bs db
    using that
  proof (induction bs arbitrary: db)
    case (Cons b bs)
    then show ?case by (auto simp: acts_def act_ok act_events)
  qed (simp add: acts_def)
  then show ?thesis by (auto simp: harmless_def)
qed

lemma sysRun_ok: "dbOk db \<Longrightarrow> dbOk (sysRun dep as db)"
proof (induction as arbitrary: db)
  case (Cons a as)
  have "dbOk (sysAct dep a db)"
    by (cases a) (simp_all add: Cons.prems act_ok processEvent_ok acts_harmless)
  then show ?case using Cons.IH by (simp add: sysRun_def)
qed (simp add: sysRun_def)

definition emptyDb :: "ProjectView list \<Rightarrow> MembershipView list \<Rightarrow> ('p, 's) idb" where
  "emptyDb ps ms = \<lparr>d_events = [], d_projects = ps, d_members = ms, d_issues = [], d_affected = [],
     d_activity = [], d_notifications = [], d_notified = [], d_nextIssue = 0\<rparr>"

lemma emptyDb_ok: "dbOk (emptyDb ps ms)"
  by (simp add: emptyDb_def dbOk_def keysOk_def)

subsection \<open>A processed event stays processed\<close>

definition settledRow :: "jstr \<Rightarrow> ('p, 's) idb \<Rightarrow> bool" where
  "settledRow eid db \<longleftrightarrow> (\<exists>x \<in> set (d_events db). ev_id x = eid \<and> ev_state x \<noteq> Pending)"

definition settled :: "jstr \<Rightarrow> ('p, 's) idb \<Rightarrow> bool" where
  "settled eid db \<longleftrightarrow> dbOk db \<and> settledRow eid db"

lemma settled_lock:
  assumes "settled eid db" "lockEventForProcessing db eid = Some ev"
  shows "ev_state (fp_row ev) \<noteq> Pending"
proof -
  obtain x where x: "x \<in> set (d_events db)" "ev_id x = eid" "ev_state x \<noteq> Pending" and ok: "dbOk db"
    using assms(1) by (auto simp: settled_def settledRow_def)
  moreover have "fp_row ev \<in> set (d_events db)" "ev_id (fp_row ev) = eid"
    using lockEventForProcessing_Some [OF assms(2)] by auto
  ultimately have "x = fp_row ev" by (auto simp: dbOk_def keysOk_def distinct_map inj_on_def)
  with x show ?thesis by simp
qed

lemma settled_noop:
  assumes "settled eid db"
  shows "snd (processEvent dep others eid db) = db"
proof -
  have "snd (processTx dep others smap eid db) = db" for smap
  proof (cases "lockEventForProcessing db eid")
    case (Some ev)
    with settled_lock [OF assms Some] show ?thesis
      by (cases "ev_state (fp_row ev)") (auto simp: processTx_def)
  qed (simp add: processTx_def)
  then show ?thesis by (simp add: processEvent_def split: option.splits)
qed

lemma settled_process:
  assumes "settled y db" "settled y (others db)" "harmless eid others"
  shows "settled y (snd (processEvent dep others eid db))"
proof (cases "eid = y")
  case True
  with settled_noop [OF assms(1)] assms(1) show ?thesis by simp
next
  case False
  obtain d0 where "d0 \<in> {db, others db}" and t: "touchesOnly eid d0 (snd (processEvent dep others eid db))"
    using processEvent_events [of db others eid dep] by blast
  then have "settled y d0" using assms(1,2) by auto
  moreover have "dbOk (snd (processEvent dep others eid db))"
    using assms(1,3) by (auto simp: settled_def settledRow_def intro: processEvent_ok)
  ultimately show ?thesis using t False by (auto simp: settled_def settledRow_def touchesOnly_def)
qed

lemma settled_act:
  assumes "settled y db"
  shows "settled y (act dep a db)"
proof (cases "keepsOff y a")
  case True
  with assms show ?thesis by (auto simp: settled_def settledRow_def act_ok dest: act_events)
next
  case False
  then have "a = Process y" by (cases a) auto
  with settled_noop [OF assms] assms show ?thesis by simp
qed

lemma settled_acts: "settled y db \<Longrightarrow> settled y (acts dep bs db)"
  by (induction bs arbitrary: db) (simp_all add: acts_def settled_act)

lemma settled_run: "settled y db \<Longrightarrow> settled y (sysRun dep as db)"
proof (induction as arbitrary: db)
  case (Cons a as)
  have "settled y (sysAct dep a db)"
    by (cases a) (simp_all add: Cons.prems settled_act settled_process settled_acts acts_harmless)
  then show ?case using Cons.IH by (simp add: sysRun_def)
qed (simp add: sysRun_def)

lemma update_settles:
  assumes "x \<in> set (d_events db)" "ev_id x = eid" "ev_id (f x) = eid" "ev_state (f x) \<noteq> Pending"
  shows "settledRow eid (updateEvent db eid f)"
  unfolding settledRow_def using assms by (auto intro!: bexI [of _ "f x"] image_eqI [of _ _ x])

lemma processEvent_settles:
  assumes ok: "dbOk db" and h: "harmless eid others"
    and p: "processEvent dep others eid db = (Some out, db')" and f: "out \<noteq> OutcomeEventNotFound"
  shows "settled eid db'"
proof -
  have ok': "dbOk db'" using processEvent_ok [OF ok h, of dep] p by simp
  obtain smap where tx: "processTx dep others smap eid db = (Some out, db')"
    using p f by (auto simp: processEvent_def split: option.splits)
  obtain ev where ev: "lockEventForProcessing db eid = Some ev"
    using tx f by (auto simp: processTx_def split: option.splits)
  note row = lockEventForProcessing_Some [OF ev]
  show ?thesis
  proof (cases "ev_state (fp_row ev)")
    case Pending
    have two: "settledRow eid (updateEvent (updateEvent db eid f) eid g)"
      if "\<And>x. ev_id (f x) = ev_id x" "\<And>x. ev_id (g x) = ev_id x" "\<And>x. ev_state (g x) \<noteq> Pending" for f g
    proof (rule update_settles [of "f (fp_row ev)"])
      show "f (fp_row ev) \<in> set (d_events (updateEvent db eid f))"
        using row by (auto intro!: image_eqI [of _ _ "fp_row ev"])
    qed (use that row in auto)
    show ?thesis
    proof (cases "deriveEventProcessingPlan dep (ev_projectId (fp_row ev)) (ev_type (fp_row ev)) (ev_payload (fp_row ev)) smap")
      case (Inl err)
      with tx ev Pending two ok' show ?thesis
        by (cases err) (auto simp: processTx_def settled_def persistEventSymbolication_def markEventRejected_def)
    next
      case (Inr plan)
      show ?thesis
      proof (cases plan)
        case PlanNonIssue
        with tx ev Pending Inr two ok' show ?thesis
          by (auto simp: processTx_def settled_def persistEventSymbolication_def markEventProcessed_def)
      next
        case (PlanIssue d)
        obtain issue created db1 where l: "lockOrCreateIssue others db (descriptorInput (fp_row ev) d) = (Some (issue, created), db1)"
          and db': "db' = recordOnIssue ev d smap issue created db1"
          using tx ev Pending Inr PlanIssue by (auto simp: processTx_def Let_def split: prod.splits option.splits)
        have "dbOk (others db)" "fp_row ev \<in> set (d_events (others db))"
          using h ok row by (auto simp: harmless_def)
        then have "fp_row ev \<in> set (d_events db1)"
          using lockOrCreateIssue_fit [OF ok _ l] row by blast
        then have "settledRow eid db'"
          unfolding db' settledRow_def recordOnIssue_tables(1) using row
          by (auto intro!: bexI [of _ "doneRow (fp_row ev) smap (de_fingerprint d) (i_id issue)"] image_eqI [of _ _ "fp_row ev"]
              simp: doneRow_def)
        with ok' show ?thesis by (simp add: settled_def)
      qed
    qed
  qed (use tx ev ok row in \<open>auto simp: processTx_def settled_def settledRow_def\<close>)
qed

subsection \<open>Properties\<close>

text \<open>
  C4: in every run of ingestion, processing (also of one event amid commits of others between its
  lookup and its insert) and triage, each issue's aggregates are exactly what its events say: the
  count of its events, of their distinct sessions, the earliest and latest occurrence and a release
  seen there; it is resolved exactly while it has a resolution time, and no other issue has its
  project and fingerprint.
\<close>

theorem issue_aggregates_are_recomputable:
  assumes "i \<in> set (d_issues db)" "db = sysRun dep as (emptyDb ps ms)"
    and "E = {e \<in> set (d_events db). ev_issueId e = Some (i_id i)}"
  shows "E \<noteq> {} \<and> i_occurrences i = card E \<and> i_sessions i = card (ev_session ` E)
    \<and> i_firstSeen i = Min (ev_occurredAt ` E) \<and> i_lastSeen i = Max (ev_occurredAt ` E)
    \<and> (\<exists>e \<in> E. ev_occurredAt e = i_lastSeen i \<and> ev_release e = i_lastRelease i)
    \<and> (\<exists>e \<in> E. ev_occurredAt e = i_firstSeen i \<and> ev_release e = i_firstRelease i)
    \<and> (\<forall>e \<in> E. ev_state e = Processed \<and> ev_projectId e = i_projectId i \<and> ev_fingerprint e = Some (i_fingerprint i))
    \<and> (i_status i = Resolved \<longleftrightarrow> i_resolvedAt i \<noteq> None)
    \<and> filter (\<lambda>j. i_projectId j = i_projectId i \<and> i_fingerprint j = i_fingerprint i) (d_issues db) = [i]"
proof -
  have ok: "dbOk db" using assms(2) sysRun_ok [OF emptyDb_ok] by blast
  have E: "E = evsOf db (i_id i)" by (simp add: assms(3) evsOf_def)
  have i: "issueOk db i" using ok assms(1) by (simp add: dbOk_def)
  have single: "filter (\<lambda>j. f j = f i) xs = [i]" if "distinct (map f xs)" "i \<in> set xs" for f :: "IssueRow \<Rightarrow> jstr \<times> jstr" and xs
    using that
  proof (induction xs)
    case (Cons x xs)
    have "filter (\<lambda>j. f j = f i) xs = []" if "x = i"
      using Cons.prems(1) that by (auto simp: filter_empty_conv image_iff)
    with Cons show ?case by (auto simp: image_iff)
  qed simp
  have "filter (\<lambda>j. (i_projectId j, i_fingerprint j) = (i_projectId i, i_fingerprint i)) (d_issues db) = [i]"
    by (rule single) (use ok assms(1) in \<open>simp_all add: dbOk_def keysOk_def\<close>)
  with i show ?thesis
    unfolding E issueOk_def aggregates_def statusOk_def prod.inject by (elim conjE) (intro conjI, assumption+)
qed

text \<open>
  C8: processing is idempotent: once a delivery of an event's job has ended with an outcome, any
  later delivery, after any further activity of the system, changes nothing at all.
\<close>

theorem processing_is_idempotent:
  assumes "processEvent dep (\<lambda>x. x) eid (sysRun dep as (emptyDb ps ms)) = (Some out, db')"
    and "out \<noteq> OutcomeEventNotFound"
  shows "snd (processEvent dep' others eid (sysRun dep as' db')) = sysRun dep as' db'"
  by (rule settled_noop, rule settled_run,
      rule processEvent_settles [OF sysRun_ok [OF emptyDb_ok] harmless_id assms])

text \<open>
  C34: an occurrence on an existing issue: a resolved one reopens without resolution time, its
  timeline gains one regression entry and its assignee, if any, one notification; in every other
  status, ignored included, the status stays and neither is written. One update is announced.
\<close>

theorem regression_reopens_exactly_resolved:
  assumes "symbolicateEvent dep (fp_row ev) = Some smap" "getEventForSymbolication db eid = Some (fp_row ev)"
    and "lockEventForProcessing db eid = Some ev" "ev_state (fp_row ev) = Pending"
    and "deriveEventProcessingPlan dep (ev_projectId (fp_row ev)) (ev_type (fp_row ev)) (ev_payload (fp_row ev)) smap = Inr (PlanIssue d)"
    and "lockIssueByFingerprint db (ev_projectId (fp_row ev)) (de_fingerprint d) = Some i"
    and "db' = snd (processEvent dep others eid db)"
  shows "(\<exists>j \<in> set (d_issues db'). i_id j = i_id i \<and> i_occurrences j = i_occurrences i + 1
      \<and> i_status j = (if i_status i = Resolved then Open else i_status i)
      \<and> i_resolvedAt j = (if i_status i = Resolved then None else i_resolvedAt i))
    \<and> map ac_type (d_activity db') = map ac_type (d_activity db) @ (if i_status i = Resolved then [act_regression_detected] else [])
    \<and> map no_user (d_notifications db') = map no_user (d_notifications db)
        @ (if i_status i = Resolved then (case i_assigned i of None \<Rightarrow> [] | Some u \<Rightarrow> [u]) else [])
    \<and> map pu_type (d_notified db') = map pu_type (d_notified db) @ [if i_status i = Resolved then upd_regressed else upd_updated]"
proof -
  have db': "db' = recordOnIssue ev d smap i False db"
    using assms by (simp add: processEvent_def processTx_def lockOrCreateIssue_def descriptorInput_def Let_def)
  have i: "i \<in> set (d_issues db)" using lockIssueByFingerprint_Some [OF assms(6)] by simp
  let ?inp = "\<lparr>ro_issueId = i_id i, ro_occurredAt = ev_occurredAt (fp_row ev), ro_release = ev_release (fp_row ev),
     ro_newSession = newSession db (i_id i) (ev_session (fp_row ev)), ro_reopen = reopens i False\<rparr>"
  have "occurrencePatch ?inp i \<in> set (d_issues db')"
    unfolding db' recordOnIssue_tables(2) using i by (auto intro!: image_eqI [of _ _ i])
  then have row: "\<exists>j \<in> set (d_issues db'). i_id j = i_id i \<and> i_occurrences j = i_occurrences i + 1
      \<and> i_status j = (if i_status i = Resolved then Open else i_status i)
      \<and> i_resolvedAt j = (if i_status i = Resolved then None else i_resolvedAt i)"
    by (rule bexI [rotated]) (simp add: occurrencePatch_def Let_def reopens_def)
  have logs: "map ac_type (d_activity db') = map ac_type (d_activity db) @ (if i_status i = Resolved then [act_regression_detected] else [])"
    "map no_user (d_notifications db') = map no_user (d_notifications db)
        @ (if i_status i = Resolved then (case i_assigned i of None \<Rightarrow> [] | Some u \<Rightarrow> [u]) else [])"
    "map pu_type (d_notified db') = map pu_type (d_notified db) @ [if i_status i = Resolved then upd_regressed else upd_updated]"
    unfolding db' recordOnIssue_def persistEventSymbolication_def markEventProcessed_def
    by (auto simp: Let_def split_def recordIssueAffectedSession_eq insertIssueActivity_def insertNotification_def
        notifyProjectIssueUpdate_def recordIssueOccurrence_def updateEvent_def split: option.splits)
  from row logs show ?thesis by blast
qed


subsection \<open>A concrete run\<close>

definition demoDescriptor :: IssueDescriptor where
  "demoDescriptor = \<lparr>de_type = type_exception, de_title = [84], de_message = [77], de_severity = sev_error,
     de_signature = [83], de_fingerprint = [70], de_grouping = GroupAutomatic\<rparr>"

definition demoDeps :: "(unit, unit) deps" where
  "demoDeps = \<lparr>symbolicateEvent = (\<lambda>_. Some ()), deriveEventProcessingPlan = (\<lambda>_ _ _ _. Inr (PlanIssue demoDescriptor))\<rparr>"

definition demoEv :: "nat \<Rightarrow> nat \<Rightarrow> int \<Rightarrow> (unit, unit) EventRow" where
  "demoEv n session t = \<lparr>ev_id = [n], ev_projectId = [80], ev_session = [session], ev_type = [], ev_occurredAt = t,
     ev_release = Some [n], ev_payload = (), ev_fingerprint = None, ev_issueId = None, ev_symbolication = None,
     ev_state = Pending, ev_rejection = None\<rparr>"

definition demoProjects :: "ProjectView list" where "demoProjects = [\<lparr>pv_id = [80], pv_workspaceId = [87]\<rparr>]"
definition demoMembers :: "MembershipView list" where
  "demoMembers = [\<lparr>mv_workspaceId = [87], mv_userId = [85], mv_role = Member\<rparr>]"

text \<open>Event 2 creates the issue while event 1 is being processed; then the issue is resolved and reopens.\<close>

definition demoActs :: "(unit, unit) sysAction list" where
  "demoActs = [Alone (Ingest (demoEv 1 7 20)), Alone (Ingest (demoEv 2 7 10)), Alone (Ingest (demoEv 3 8 30)),
     ProcessAmid [1] [Process [2]], Alone (SetStatus 99 [85] 0 Resolved)]"

lemmas demo_eval = demoDescriptor_def demoDeps_def demoEv_def demoProjects_def demoMembers_def demoActs_def
  sysRun_def acts_def emptyDb_def processEvent_def processTx_def getEventForSymbolication_def lockEventForProcessing_def
  findRow_def lockOrCreateIssue_def lockIssueByFingerprint_def insertIssueIfAbsent_def descriptorInput_def recordOnIssue_def
  recordIssueAffectedSession_def recordIssueOccurrence_def occurrencePatch_def insertIssueActivity_def insertNotification_def
  persistEventSymbolication_def markEventProcessed_def updateEvent_def notifyProjectIssueUpdate_def updateIssueStatus_def
  issueWithAccess_def membershipOrThrow_def findMembership_def findIssueById_def lockIssueById_def updateIssueRow_def
  issuePatch_def requireWorkspaceCapability_def hasCapability_def Let_def

definition demoDb :: "(unit, unit) idb" where
  "demoDb = sysRun demoDeps demoActs (emptyDb demoProjects demoMembers)"

lemma demoDb_eq:
  "demoDb = \<lparr>d_events = [(demoEv 1 7 20)\<lparr>ev_fingerprint := Some [70], ev_issueId := Some 0, ev_symbolication := Some (), ev_state := Processed\<rparr>,
       (demoEv 2 7 10)\<lparr>ev_fingerprint := Some [70], ev_issueId := Some 0, ev_symbolication := Some (), ev_state := Processed\<rparr>, demoEv 3 8 30],
     d_projects = demoProjects, d_members = demoMembers,
     d_issues = [\<lparr>i_id = 0, i_projectId = [80], i_fingerprint = [70], i_signature = [83], i_type = type_exception, i_title = [84],
       i_message = [77], i_status = Resolved, i_severity = sev_error, i_assigned = None, i_firstSeen = 10, i_lastSeen = 20,
       i_resolvedAt = Some 99, i_firstRelease = Some [2], i_lastRelease = Some [1], i_occurrences = 2, i_sessions = 1\<rparr>],
     d_affected = [\<lparr>af_issue = 0, af_session = [7], af_firstSeen = 10\<rparr>],
     d_activity = [\<lparr>ac_issue = 0, ac_actor = None, ac_type = act_created, ac_metadata = [(js ''eventId'', [2])]\<rparr>,
       \<lparr>ac_issue = 0, ac_actor = Some [85], ac_type = act_status_changed, ac_metadata = [(js ''from'', js ''open''), (js ''to'', js ''resolved'')]\<rparr>],
     d_notifications = [],
     d_notified = [\<lparr>pu_type = upd_created, pu_projectId = [80], pu_issueId = 0, pu_eventId = Some [2]\<rparr>,
       \<lparr>pu_type = upd_updated, pu_projectId = [80], pu_issueId = 0, pu_eventId = Some [1]\<rparr>,
       \<lparr>pu_type = upd_updated, pu_projectId = [80], pu_issueId = 0, pu_eventId = None\<rparr>],
     d_nextIssue = 1\<rparr>"
  unfolding demoDb_def by (simp add: demo_eval)

theorem issue_aggregates_are_recomputable_witness:
  "\<exists>i \<in> set (d_issues demoDb). i_occurrences i = 2 \<and> i_occurrences i = card {e \<in> set (d_events demoDb). ev_issueId e = Some (i_id i)}
     \<and> i_sessions i = 1 \<and> i_firstSeen i = 10 \<and> i_resolvedAt i = Some 99"
proof -
  obtain i where i: "d_issues demoDb = [i]" "i_occurrences i = 2" "i_sessions i = 1" "i_firstSeen i = 10" "i_resolvedAt i = Some 99"
    by (simp add: demoDb_eq)
  then have "i \<in> set (d_issues demoDb)" by simp
  from issue_aggregates_are_recomputable [OF this demoDb_def refl] i show ?thesis by auto
qed

theorem processing_is_idempotent_witness:
  "\<exists>out db'. processEvent demoDeps (\<lambda>x. x) [3] demoDb = (Some out, db')
     \<and> snd (processEvent demoDeps id [3] (sysRun demoDeps demoActs db')) = sysRun demoDeps demoActs db'"
proof -
  have "\<exists>db'. processEvent demoDeps (\<lambda>x. x) [3] demoDb = (Some (OutcomeProcessed [80] (Some 0) (Some [70])), db')"
    unfolding demoDb_eq by (simp add: demo_eval)
  then obtain db' where p: "processEvent demoDeps (\<lambda>x. x) [3] demoDb = (Some (OutcomeProcessed [80] (Some 0) (Some [70])), db')"
    by blast
  have "snd (processEvent demoDeps id [3] (sysRun demoDeps demoActs db')) = sysRun demoDeps demoActs db'"
    by (rule processing_is_idempotent [OF p [unfolded demoDb_def]]) simp
  with p show ?thesis by blast
qed

theorem regression_reopens_exactly_resolved_witness:
  "map ac_type (d_activity (snd (processEvent demoDeps id [3] demoDb))) = [act_created, act_status_changed, act_regression_detected]"
proof -
  let ?ev = "\<lparr>fp_row = demoEv 3 8 30, fp_workspaceId = [87]\<rparr> :: (unit, unit) EventForProcessing"
  have w: "symbolicateEvent demoDeps (fp_row ?ev) = Some ()" "getEventForSymbolication demoDb [3] = Some (fp_row ?ev)"
    "lockEventForProcessing demoDb [3] = Some ?ev" "ev_state (fp_row ?ev) = Pending"
    "deriveEventProcessingPlan demoDeps (ev_projectId (fp_row ?ev)) (ev_type (fp_row ?ev)) (ev_payload (fp_row ?ev)) () = Inr (PlanIssue demoDescriptor)"
    unfolding demoDb_eq by (simp_all add: demo_eval)
  have "\<exists>i. lockIssueByFingerprint demoDb (ev_projectId (fp_row ?ev)) (de_fingerprint demoDescriptor) = Some i \<and> i_status i = Resolved"
    unfolding demoDb_eq by (simp add: demo_eval)
  then obtain i where i: "lockIssueByFingerprint demoDb (ev_projectId (fp_row ?ev)) (de_fingerprint demoDescriptor) = Some i" "i_status i = Resolved"
    by blast
  from regression_reopens_exactly_resolved [OF w i(1) refl, of id] i(2) show ?thesis
    by (simp add: demoDb_eq)
qed


end
