(* ===== verification/Outbox.thy ===== *)
theory Outbox
  imports Prelude
begin

text \<open>
  The transactional outboxes (\<open>packages/db/src/repositories/outbox.ts\<close>, the outbox parts of
  \<open>reproductions.ts\<close> and \<open>ai-analyses.ts\<close>) and the three worker dispatchers that hand their
  rows to pg-boss (\<open>apps/worker/src/dispatcher\<close>, \<open>apps/worker/src/reconciliation\<close>).

  A table is a list of rows in insertion order. pg-boss is a parameter \<open>pub id q\<close> on an opaque
  job store \<open>q\<close>: \<open>Inr (Some j)\<close> is the job id of a fresh insert, \<open>Inr None\<close> the
  deduplicated no-op, \<open>Inl m\<close> a thrown error with message \<open>m\<close>. Rows another transaction
  holds are skipped by the claim (\<open>locked\<close>). Logging is left out.
\<close>

subsection \<open>Rows and table operations\<close>

record outboxRow =
  o_id :: jstr
  o_createdAt :: nat
  o_dispatchedAt :: "nat option"
  o_attempts :: nat
  o_lastError :: "jstr option"

record pendingItem =
  pi_id :: jstr
  pi_attempts :: nat
  pi_createdAt :: nat

definition newOutboxRow :: "nat \<Rightarrow> jstr \<Rightarrow> outboxRow" where
  "newOutboxRow now i = \<lparr>o_id = i, o_createdAt = now, o_dispatchedAt = None, o_attempts = 0, o_lastError = None\<rparr>"

text \<open>The insert fails on the primary key; the error is the driver's.\<close>

definition insertRow :: "nat \<Rightarrow> jstr \<Rightarrow> outboxRow list \<Rightarrow> jstr + outboxRow list" where
  "insertRow now i t =
     (if i \<in> o_id ` set t then Inl (js ''duplicate key value violates unique constraint'')
      else Inr (t @ [newOutboxRow now i]))"

definition pendingColumns :: "outboxRow \<Rightarrow> pendingItem" where
  "pendingColumns r = \<lparr>pi_id = o_id r, pi_attempts = o_attempts r, pi_createdAt = o_createdAt r\<rparr>"

definition isPending :: "outboxRow \<Rightarrow> bool" where
  "isPending r \<longleftrightarrow> o_dispatchedAt r = None"

definition byCreatedAt :: "outboxRow list \<Rightarrow> outboxRow list" where
  "byCreatedAt t = sort_key (\<lambda>r. (o_createdAt r, o_id r)) t"

definition selectRows :: "(outboxRow \<Rightarrow> bool) \<Rightarrow> (jstr \<Rightarrow> bool) \<Rightarrow> nat \<Rightarrow> outboxRow list \<Rightarrow> pendingItem list" where
  "selectRows cond locked n t =
     map pendingColumns (take n (filter (\<lambda>r. \<not> locked (o_id r)) (byCreatedAt (filter cond t))))"

definition claimPendingOutboxBatch :: "(jstr \<Rightarrow> bool) \<Rightarrow> nat \<Rightarrow> outboxRow list \<Rightarrow> pendingItem list" where
  "claimPendingOutboxBatch locked limit t = selectRows isPending locked limit t"

definition claimStaleOutboxBatch :: "(jstr \<Rightarrow> bool) \<Rightarrow> nat \<Rightarrow> nat \<Rightarrow> outboxRow list \<Rightarrow> pendingItem list" where
  "claimStaleOutboxBatch locked staleBefore limit t =
     selectRows (\<lambda>r. isPending r \<and> o_createdAt r \<le> staleBefore) locked limit t"

definition listStaleOutbox :: "nat \<Rightarrow> nat \<Rightarrow> outboxRow list \<Rightarrow> pendingItem list" where
  "listStaleOutbox staleBefore limit t =
     selectRows (\<lambda>r. isPending r \<and> o_createdAt r \<le> staleBefore) (\<lambda>_. False) limit t"

definition updateRow :: "jstr \<Rightarrow> (outboxRow \<Rightarrow> outboxRow) \<Rightarrow> outboxRow list \<Rightarrow> outboxRow list" where
  "updateRow i f t = map (\<lambda>r. if o_id r = i then f r else r) t"

definition setDispatched :: "nat \<Rightarrow> outboxRow \<Rightarrow> outboxRow" where
  "setDispatched now r = r\<lparr>o_dispatchedAt := Some now, o_lastError := None\<rparr>"

definition setFailure :: "jstr \<Rightarrow> outboxRow \<Rightarrow> outboxRow" where
  "setFailure m r = r\<lparr>o_attempts := o_attempts r + 1, o_lastError := Some m\<rparr>"

definition markOutboxDispatched :: "nat \<Rightarrow> jstr \<Rightarrow> outboxRow list \<Rightarrow> jstr + outboxRow list" where
  "markOutboxDispatched now i t = Inr (updateRow i (setDispatched now) t)"

definition recordOutboxDispatchFailure :: "jstr \<Rightarrow> jstr \<Rightarrow> outboxRow list \<Rightarrow> jstr + outboxRow list" where
  "recordOutboxDispatchFailure i m t = Inr (updateRow i (setFailure m) t)"

text \<open>
  The reproduction outbox has the same table and the same operations; the AI analysis outbox
  checks the error text before it stores it.
\<close>

definition markReproductionOutboxDispatched :: "nat \<Rightarrow> jstr \<Rightarrow> outboxRow list \<Rightarrow> jstr + outboxRow list" where
  "markReproductionOutboxDispatched now i t = Inr (updateRow i (setDispatched now) t)"

definition recordReproductionOutboxFailure :: "jstr \<Rightarrow> jstr \<Rightarrow> outboxRow list \<Rightarrow> jstr + outboxRow list" where
  "recordReproductionOutboxFailure i m t = Inr (updateRow i (setFailure m) t)"

definition claimPendingReproductionOutboxBatch :: "(jstr \<Rightarrow> bool) \<Rightarrow> nat \<Rightarrow> outboxRow list \<Rightarrow> pendingItem list" where
  "claimPendingReproductionOutboxBatch locked limit t = selectRows isPending locked limit t"

definition claimStaleReproductionOutboxBatch :: "(jstr \<Rightarrow> bool) \<Rightarrow> nat \<Rightarrow> nat \<Rightarrow> outboxRow list \<Rightarrow> pendingItem list" where
  "claimStaleReproductionOutboxBatch locked staleBefore limit t =
     selectRows (\<lambda>r. isPending r \<and> o_createdAt r \<le> staleBefore) locked limit t"

definition listStaleReproductionOutbox :: "nat \<Rightarrow> nat \<Rightarrow> outboxRow list \<Rightarrow> pendingItem list" where
  "listStaleReproductionOutbox staleBefore limit t =
     selectRows (\<lambda>r. isPending r \<and> o_createdAt r \<le> staleBefore) (\<lambda>_. False) limit t"

definition claimPendingAiAnalysisOutboxBatch :: "(jstr \<Rightarrow> bool) \<Rightarrow> nat \<Rightarrow> outboxRow list \<Rightarrow> pendingItem list" where
  "claimPendingAiAnalysisOutboxBatch locked limit t = selectRows isPending locked limit t"

definition claimStaleAiAnalysisOutboxBatch :: "(jstr \<Rightarrow> bool) \<Rightarrow> nat \<Rightarrow> nat \<Rightarrow> outboxRow list \<Rightarrow> pendingItem list" where
  "claimStaleAiAnalysisOutboxBatch locked staleBefore limit t =
     selectRows (\<lambda>r. isPending r \<and> o_createdAt r \<le> staleBefore) locked limit t"

definition listStaleAiAnalysisOutbox :: "nat \<Rightarrow> nat \<Rightarrow> outboxRow list \<Rightarrow> pendingItem list" where
  "listStaleAiAnalysisOutbox staleBefore limit t =
     selectRows (\<lambda>r. isPending r \<and> o_createdAt r \<le> staleBefore) (\<lambda>_. False) limit t"

definition markAiAnalysisOutboxDispatched :: "nat \<Rightarrow> jstr \<Rightarrow> outboxRow list \<Rightarrow> jstr + outboxRow list" where
  "markAiAnalysisOutboxDispatched now i t = Inr (updateRow i (setDispatched now) t)"

definition MAX_OUTBOX_ERROR_LENGTH :: nat where "MAX_OUTBOX_ERROR_LENGTH = 1000"

text \<open>The loop runs over code points; one above \<open>0xFFFF\<close> is two surrogate units, neither of which
  is a control character.\<close>

definition containsControlCharacter :: "jstr \<Rightarrow> bool" where
  "containsControlCharacter s \<longleftrightarrow> (\<exists>c \<in> set s. c \<le> 31 \<or> c = 127)"

definition assertOutboxError :: "jstr \<Rightarrow> jstr + unit" where
  "assertOutboxError s =
     guardE (\<not> (s = [] \<or> length s > MAX_OUTBOX_ERROR_LENGTH \<or> containsControlCharacter s))
       (js ''sanitized outbox error must be 1-1000 printable characters'')"

definition recordAiAnalysisOutboxFailure :: "jstr \<Rightarrow> jstr \<Rightarrow> outboxRow list \<Rightarrow> jstr + outboxRow list" where
  "recordAiAnalysisOutboxFailure i m t =
     bindE (assertOutboxError m) (\<lambda>_. Inr (updateRow i (setFailure m) t))"

subsection \<open>Publishing a claimed batch\<close>

record batchResult =
  r_claimed :: nat
  r_dispatched :: nat
  r_deduplicated :: nat
  r_failed :: nat

definition noResult :: batchResult where
  "noResult = \<lparr>r_claimed = 0, r_dispatched = 0, r_deduplicated = 0, r_failed = 0\<rparr>"

type_synonym 'q publisher = "jstr \<Rightarrow> 'q \<Rightarrow> (jstr + jstr option) \<times> 'q"
type_synonym 't markOp = "jstr \<Rightarrow> 't \<Rightarrow> jstr + 't"
type_synonym 't recordOp = "jstr \<Rightarrow> jstr \<Rightarrow> 't \<Rightarrow> jstr + 't"

definition sanitizeOutboxError :: "jstr \<Rightarrow> jstr" where
  "sanitizeOutboxError m = take 500 (trim (collapseWs m))"

definition sanitizeAiAnalysisOutboxError :: "jstr \<Rightarrow> jstr" where
  "sanitizeAiAnalysisOutboxError m = take 500 (trim (collapseWs m))"

definition sanitizeReproductionOutboxError :: "jstr \<Rightarrow> jstr" where
  "sanitizeReproductionOutboxError m = take 500 (trim (collapseWs m))"

text \<open>
  One turn of the loop. The \<open>catch\<close> covers the publish and the mark; an error inside the
  \<open>catch\<close> itself escapes the loop. The deduplication counter moves before the mark, so an item
  whose mark failed may be counted both deduplicated and failed.
\<close>

definition publishFailed ::
  "(jstr \<Rightarrow> jstr) \<Rightarrow> 't recordOp \<Rightarrow> jstr \<Rightarrow> jstr \<Rightarrow> batchResult \<Rightarrow> 't \<Rightarrow> jstr + batchResult \<times> 't" where
  "publishFailed san rcd i m res t =
     bindE (rcd i (san m) t) (\<lambda>t'. Inr (res\<lparr>r_failed := r_failed res + 1\<rparr>, t'))"

definition publishOne ::
  "(jstr \<Rightarrow> jstr) \<Rightarrow> 't markOp \<Rightarrow> 't recordOp \<Rightarrow> 'q publisher \<Rightarrow> jstr \<Rightarrow> batchResult \<Rightarrow> 't \<Rightarrow> 'q
    \<Rightarrow> (jstr + batchResult \<times> 't) \<times> 'q" where
  "publishOne san mark rcd pub i res t q =
     (case pub i q of
        (Inl m, q') \<Rightarrow> (publishFailed san rcd i m res t, q')
      | (Inr j, q') \<Rightarrow>
          (let res' = (if j = None then res\<lparr>r_deduplicated := r_deduplicated res + 1\<rparr> else res) in
           case mark i t of
             Inl m \<Rightarrow> (publishFailed san rcd i m res' t, q')
           | Inr t' \<Rightarrow> (Inr (res'\<lparr>r_dispatched := r_dispatched res' + 1\<rparr>, t'), q')))"

text \<open>The loop; a thrown error comes with the table as the turns before it left it.\<close>

fun publishItems ::
  "(jstr \<Rightarrow> jstr) \<Rightarrow> 't markOp \<Rightarrow> 't recordOp \<Rightarrow> 'q publisher \<Rightarrow> pendingItem list \<Rightarrow> batchResult \<Rightarrow> 't \<Rightarrow> 'q
    \<Rightarrow> (jstr + batchResult) \<times> 't \<times> 'q" where
  "publishItems san mark rcd pub [] res t q = (Inr res, t, q)"
| "publishItems san mark rcd pub (x # xs) res t q =
     (case publishOne san mark rcd pub (pi_id x) res t q of
        (Inl e, q') \<Rightarrow> (Inl e, t, q')
      | (Inr (res', t'), q') \<Rightarrow> publishItems san mark rcd pub xs res' t' q')"

definition publishClaimedOutboxItems ::
  "nat \<Rightarrow> 'q publisher \<Rightarrow> pendingItem list \<Rightarrow> outboxRow list \<Rightarrow> 'q \<Rightarrow> (jstr + batchResult) \<times> outboxRow list \<times> 'q" where
  "publishClaimedOutboxItems now pub items t q =
     publishItems sanitizeOutboxError (markOutboxDispatched now) recordOutboxDispatchFailure pub items
       (noResult\<lparr>r_claimed := length items\<rparr>) t q"

definition publishClaimedReproductionItems ::
  "nat \<Rightarrow> 'q publisher \<Rightarrow> pendingItem list \<Rightarrow> outboxRow list \<Rightarrow> 'q \<Rightarrow> (jstr + batchResult) \<times> outboxRow list \<times> 'q" where
  "publishClaimedReproductionItems now pub items t q =
     publishItems sanitizeReproductionOutboxError (markReproductionOutboxDispatched now)
       recordReproductionOutboxFailure pub items (noResult\<lparr>r_claimed := length items\<rparr>) t q"

definition publishClaimedAiAnalysisItems ::
  "nat \<Rightarrow> 'q publisher \<Rightarrow> pendingItem list \<Rightarrow> outboxRow list \<Rightarrow> 'q \<Rightarrow> (jstr + batchResult) \<times> outboxRow list \<times> 'q" where
  "publishClaimedAiAnalysisItems now pub items t q =
     publishItems sanitizeAiAnalysisOutboxError (markAiAnalysisOutboxDispatched now)
       recordAiAnalysisOutboxFailure pub items (noResult\<lparr>r_claimed := length items\<rparr>) t q"

subsection \<open>One pass\<close>

text \<open>
  The event outbox publishes inside the transaction that claimed the rows: when anything
  throws, the table rolls back and the jobs already sent stay. The other two claim in a
  transaction of their own and commit each row by itself.
\<close>

definition inTransaction ::
  "(outboxRow list \<Rightarrow> 'q \<Rightarrow> (jstr + 'a) \<times> outboxRow list \<times> 'q) \<Rightarrow> outboxRow list \<Rightarrow> 'q
    \<Rightarrow> (jstr + 'a) \<times> outboxRow list \<times> 'q" where
  "inTransaction body t q =
     (case body t q of (Inl e, _, q') \<Rightarrow> (Inl e, t, q') | (Inr x, t', q') \<Rightarrow> (Inr x, t', q'))"

type_synonym 'q pass = "outboxRow list \<Rightarrow> 'q \<Rightarrow> (jstr + batchResult) \<times> outboxRow list \<times> 'q"

definition dispatchOutboxBatch :: "nat \<Rightarrow> (jstr \<Rightarrow> bool) \<Rightarrow> 'q publisher \<Rightarrow> nat \<Rightarrow> 'q pass" where
  "dispatchOutboxBatch now locked pub batchSize =
     inTransaction (\<lambda>t q.
       (let items = claimPendingOutboxBatch locked batchSize t in
        if items = [] then (Inr noResult, t, q) else publishClaimedOutboxItems now pub items t q))"

definition dispatchReproductionOutboxBatch :: "nat \<Rightarrow> (jstr \<Rightarrow> bool) \<Rightarrow> 'q publisher \<Rightarrow> nat \<Rightarrow> 'q pass" where
  "dispatchReproductionOutboxBatch now locked pub batchSize t q =
     (let claimed = claimPendingReproductionOutboxBatch locked batchSize t in
      if claimed = [] then (Inr noResult, t, q) else publishClaimedReproductionItems now pub claimed t q)"

definition dispatchAiAnalysisOutboxBatch :: "nat \<Rightarrow> (jstr \<Rightarrow> bool) \<Rightarrow> 'q publisher \<Rightarrow> nat \<Rightarrow> 'q pass" where
  "dispatchAiAnalysisOutboxBatch now locked pub batchSize t q =
     (let claimed = claimPendingAiAnalysisOutboxBatch locked batchSize t in
      if claimed = [] then (Inr noResult, t, q) else publishClaimedAiAnalysisItems now pub claimed t q)"

text \<open>
  Reconciliation: the same on the rows that have been pending for \<open>staleAfterMs\<close>; the summary
  adds the number of stale rows listed. \<open>Date.now() - staleAfterMs\<close> is before the epoch
  when \<open>now < staleAfterMs\<close>; no row is that old.
\<close>

record reconciliationSummary = s_result :: batchResult s_stalePending :: nat

definition staleBefore :: "nat \<Rightarrow> nat \<Rightarrow> nat" where "staleBefore now staleAfterMs = now - staleAfterMs"

fun withStale :: "nat \<Rightarrow> (jstr + batchResult) \<times> outboxRow list \<times> 'q
    \<Rightarrow> (jstr + reconciliationSummary) \<times> outboxRow list \<times> 'q" where
  "withStale n (Inl e, t, q) = (Inl e, t, q)"
| "withStale n (Inr r, t, q) = (Inr \<lparr>s_result = r, s_stalePending = n\<rparr>, t, q)"

definition reconcileOutbox ::
  "nat \<Rightarrow> (jstr \<Rightarrow> bool) \<Rightarrow> 'q publisher \<Rightarrow> nat \<Rightarrow> nat \<Rightarrow> outboxRow list \<Rightarrow> 'q
    \<Rightarrow> (jstr + reconciliationSummary) \<times> outboxRow list \<times> 'q" where
  "reconcileOutbox now locked pub batchSize staleAfterMs t q =
     (let before = staleBefore now staleAfterMs; stale = listStaleOutbox before batchSize t in
      if now < staleAfterMs \<or> stale = [] then withStale 0 (Inr noResult, t, q)
      else withStale (length stale)
        (inTransaction (\<lambda>t q.
           (let items = claimStaleOutboxBatch locked before batchSize t in
            if items = [] then (Inr noResult, t, q) else publishClaimedOutboxItems now pub items t q)) t q))"

definition reconcileReproductionOutbox ::
  "nat \<Rightarrow> (jstr \<Rightarrow> bool) \<Rightarrow> 'q publisher \<Rightarrow> nat \<Rightarrow> nat \<Rightarrow> outboxRow list \<Rightarrow> 'q
    \<Rightarrow> (jstr + reconciliationSummary) \<times> outboxRow list \<times> 'q" where
  "reconcileReproductionOutbox now locked pub batchSize staleAfterMs t q =
     (let before = staleBefore now staleAfterMs; stale = listStaleReproductionOutbox before batchSize t in
      if now < staleAfterMs \<or> stale = [] then withStale 0 (Inr noResult, t, q)
      else
        (let claimed = claimStaleReproductionOutboxBatch locked before batchSize t in
         if claimed = [] then withStale (length stale) (Inr noResult, t, q)
         else withStale (length stale) (publishClaimedReproductionItems now pub claimed t q)))"

definition reconcileAiAnalysisOutbox ::
  "nat \<Rightarrow> (jstr \<Rightarrow> bool) \<Rightarrow> 'q publisher \<Rightarrow> nat \<Rightarrow> nat \<Rightarrow> outboxRow list \<Rightarrow> 'q
    \<Rightarrow> (jstr + reconciliationSummary) \<times> outboxRow list \<times> 'q" where
  "reconcileAiAnalysisOutbox now locked pub batchSize staleAfterMs t q =
     (let before = staleBefore now staleAfterMs; stale = listStaleAiAnalysisOutbox before batchSize t in
      if now < staleAfterMs \<or> stale = [] then withStale 0 (Inr noResult, t, q)
      else
        (let claimed = claimStaleAiAnalysisOutboxBatch locked before batchSize t in
         if claimed = [] then withStale (length stale) (Inr noResult, t, q)
         else withStale (length stale) (publishClaimedAiAnalysisItems now pub claimed t q)))"

subsection \<open>One tick: the bounded drain\<close>

definition MAX_DRAIN_ITERATIONS :: nat where "MAX_DRAIN_ITERATIONS = 10"

text \<open>
  The \<open>do ... while\<close> of \<open>tick\<close>, from iteration \<open>n\<close> on: \<open>pass n\<close> is the pass of that
  iteration, \<open>stopped n\<close> the flag when its condition is evaluated. An error ends the tick (it is
  logged). The result counts the passes run.
\<close>

function drain :: "(nat \<Rightarrow> 'q pass) \<Rightarrow> (nat \<Rightarrow> bool) \<Rightarrow> nat \<Rightarrow> nat \<Rightarrow> outboxRow list \<Rightarrow> 'q \<Rightarrow> nat \<times> outboxRow list \<times> 'q" where
  "drain pass stopped batchSize n t q =
     (case pass n t q of
        (Inl e, t', q') \<Rightarrow> (Suc n, t', q')
      | (Inr summary, t', q') \<Rightarrow>
          if \<not> stopped n \<and> r_claimed summary = batchSize \<and> Suc n < MAX_DRAIN_ITERATIONS
          then drain pass stopped batchSize (Suc n) t' q'
          else (Suc n, t', q'))"
  by pat_completeness auto
termination
  by (relation "measure (\<lambda>(_, _, _, n, _, _). MAX_DRAIN_ITERATIONS - n)") auto

declare drain.simps [simp del]

definition tick :: "(nat \<Rightarrow> 'q pass) \<Rightarrow> (nat \<Rightarrow> bool) \<Rightarrow> nat \<Rightarrow> outboxRow list \<Rightarrow> 'q \<Rightarrow> nat \<times> outboxRow list \<times> 'q" where
  "tick pass stopped batchSize t q = drain pass stopped batchSize 0 t q"

subsection \<open>The store interface and what the publishing loop keeps\<close>

text \<open>
  What the loop relies on: a mark adds one row to the dispatched ones, a recorded failure
  changes neither the rows nor which of them are dispatched.
\<close>

locale outbox_store =
  fixes rowIds :: "'t \<Rightarrow> jstr set"
    and doneIds :: "'t \<Rightarrow> jstr set"
    and mark :: "jstr \<Rightarrow> 't \<Rightarrow> jstr + 't"
    and rcd :: "jstr \<Rightarrow> jstr \<Rightarrow> 't \<Rightarrow> jstr + 't"
  assumes mark_law: "mark i t = Inr t' \<Longrightarrow> rowIds t' = rowIds t \<and> doneIds t' = doneIds t \<union> (rowIds t \<inter> {i})"
    and rcd_law: "rcd i m t = Inr t' \<Longrightarrow> rowIds t' = rowIds t \<and> doneIds t' = doneIds t"
begin

lemma publishFailed_keeps:
  "publishFailed san rcd i m res t = Inr (res', t') \<Longrightarrow>
     rowIds t' = rowIds t \<and> doneIds t' = doneIds t
     \<and> res' = res\<lparr>r_failed := Suc (r_failed res)\<rparr>"
  by (auto simp: publishFailed_def bindE_Inr dest: rcd_law)

text \<open>A turn marks nothing unless its publish returned normally.\<close>

lemma publishOne_done:
  assumes "publishOne san mark rcd pub i res t q = (Inr (res', t'), q')"
  shows "rowIds t' = rowIds t"
    and "doneIds t' = doneIds t \<or> doneIds t' = doneIds t \<union> (rowIds t \<inter> {i}) \<and> (\<exists>j. pub i q = (Inr j, q'))"
    and "r_claimed res' = r_claimed res"
    and "r_dispatched res' + r_failed res' = Suc (r_dispatched res + r_failed res)"
  using assms
  by (auto simp: publishOne_def Let_def split: prod.splits sum.splits if_splits
      dest!: publishFailed_keeps mark_law)

lemma publishOne_queue: "snd (publishOne san mark rcd pub i res t q) = snd (pub i q)"
  by (auto simp: publishOne_def Let_def split: prod.splits sum.splits)

lemma publishItems_counts:
  "publishItems san mark rcd pub items res t q = (Inr res', t', q') \<Longrightarrow>
     r_claimed res' = r_claimed res
     \<and> r_dispatched res' + r_failed res' = r_dispatched res + r_failed res + length items"
  by (induction items arbitrary: res t q)
     (fastforce split: prod.splits sum.splits dest: publishOne_done(3,4))+

lemma publishItems_rows:
  "publishItems san mark rcd pub items res t q = (r, t', q') \<Longrightarrow>
     rowIds t' = rowIds t \<and> doneIds t \<subseteq> doneIds t' \<and> doneIds t' \<subseteq> doneIds t \<union> (pi_id ` set items \<inter> rowIds t)"
proof (induction items arbitrary: res t q)
  case (Cons x xs)
  show ?case
  proof (cases "publishOne san mark rcd pub (pi_id x) res t q")
    case (Pair a q1)
    show ?thesis
    proof (cases a)
      case (Inl e) with Cons.prems Pair show ?thesis by simp
    next
      case (Inr b)
      obtain res1 t1 where b: "b = (res1, t1)" by (cases b)
      have one: "publishOne san mark rcd pub (pi_id x) res t q = (Inr (res1, t1), q1)"
        using Pair Inr b by simp
      from Cons.prems one have "publishItems san mark rcd pub xs res1 t1 q1 = (r, t', q')" by simp
      from Cons.IH [OF this] publishOne_done(1,2) [OF one] show ?thesis by auto
    qed
  qed
qed simp

lemma publishItems_all_sent:
  assumes "\<And>i q. isl (fst (pub i q)) = False" and "\<And>i t. isl (mark i t) = False"
  shows "\<exists>res' t' q'. publishItems san mark rcd pub items res t q = (Inr res', t', q')
     \<and> r_failed res' = r_failed res \<and> rowIds t' = rowIds t
     \<and> doneIds t' = doneIds t \<union> (pi_id ` set items \<inter> rowIds t)"
proof (induction items arbitrary: res t q)
  case (Cons x xs)
  obtain j q1 where p: "pub (pi_id x) q = (Inr j, q1)"
    by (metis assms(1) isl_def prod.collapse sum.collapse(2))
  obtain t1 where m: "mark (pi_id x) t = Inr t1"
    by (metis assms(2) sum.collapse(2))
  obtain res1 where one: "publishOne san mark rcd pub (pi_id x) res t q = (Inr (res1, t1), q1)"
      and f: "r_failed res1 = r_failed res"
    by (auto simp: publishOne_def p m Let_def)
  from Cons.IH [of res1 t1 q1] mark_law [OF m] f show ?case
    by (auto simp: one)
qed simp

end

subsection \<open>The tables provide the interface\<close>

definition rowIdsOf :: "outboxRow list \<Rightarrow> jstr set" where "rowIdsOf t = o_id ` set t"
definition doneIdsOf :: "outboxRow list \<Rightarrow> jstr set" where
  "doneIdsOf t = o_id ` {r \<in> set t. \<not> isPending r}"

lemma updateRow_ids [simp]:
  "(\<And>r. o_id (f r) = o_id r) \<Longrightarrow> map o_id (updateRow i f t) = map o_id t"
  by (simp add: updateRow_def)

lemma set_fields [simp]:
  "o_id (setDispatched now r) = o_id r" "o_createdAt (setDispatched now r) = o_createdAt r"
  "isPending (setDispatched now r) = False" "o_lastError (setDispatched now r) = None"
  "o_id (setFailure m r) = o_id r" "isPending (setFailure m r) = isPending r"
  "o_lastError (setFailure m r) = Some m" "o_dispatchedAt (setFailure m r) = o_dispatchedAt r"
  by (simp_all add: setDispatched_def setFailure_def isPending_def)

lemma updateRow_rowIds:
  assumes "\<And>r. o_id (f r) = o_id r" shows "rowIdsOf (updateRow i f t) = rowIdsOf t"
  unfolding rowIdsOf_def by (metis assms list.set_map updateRow_ids)

lemma table_simps:
  "rowIdsOf [] = {}" "rowIdsOf (r # t) = insert (o_id r) (rowIdsOf t)"
  "doneIdsOf [] = {}" "doneIdsOf (r # t) = (if isPending r then {} else {o_id r}) \<union> doneIdsOf t"
  "updateRow i f [] = []" "updateRow i f (r # t) = (if o_id r = i then f r else r) # updateRow i f t"
  by (auto simp: rowIdsOf_def doneIdsOf_def updateRow_def)

lemma mark_doneIds:
  "doneIdsOf (updateRow i (setDispatched now) t) = doneIdsOf t \<union> (rowIdsOf t \<inter> {i})"
  by (induction t) (auto simp: table_simps)

lemma failure_doneIds: "doneIdsOf (updateRow i (setFailure m) t) = doneIdsOf t"
  by (induction t) (auto simp: table_simps)

lemmas mark_defs = markOutboxDispatched_def markReproductionOutboxDispatched_def markAiAnalysisOutboxDispatched_def
lemmas record_defs = recordOutboxDispatchFailure_def recordReproductionOutboxFailure_def recordAiAnalysisOutboxFailure_def
lemmas publish_defs = publishClaimedOutboxItems_def publishClaimedReproductionItems_def publishClaimedAiAnalysisItems_def
lemmas claim_defs = claimPendingOutboxBatch_def claimStaleOutboxBatch_def
  claimPendingReproductionOutboxBatch_def claimStaleReproductionOutboxBatch_def
  claimPendingAiAnalysisOutboxBatch_def claimStaleAiAnalysisOutboxBatch_def
lemmas dispatch_defs = dispatchOutboxBatch_def dispatchReproductionOutboxBatch_def dispatchAiAnalysisOutboxBatch_def
lemmas reconcile_defs = reconcileOutbox_def reconcileReproductionOutbox_def reconcileAiAnalysisOutbox_def

interpretation events: outbox_store rowIdsOf doneIdsOf "markOutboxDispatched now" recordOutboxDispatchFailure
  for now
  by unfold_locales (auto simp: mark_defs record_defs updateRow_rowIds mark_doneIds failure_doneIds)

interpretation reproductions: outbox_store rowIdsOf doneIdsOf "markReproductionOutboxDispatched now"
  recordReproductionOutboxFailure for now
  by unfold_locales (auto simp: mark_defs record_defs updateRow_rowIds mark_doneIds failure_doneIds)

interpretation analyses: outbox_store rowIdsOf doneIdsOf "markAiAnalysisOutboxDispatched now"
  recordAiAnalysisOutboxFailure for now
  by unfold_locales
     (auto simp: mark_defs record_defs updateRow_rowIds mark_doneIds failure_doneIds bindE_Inr)

subsection \<open>The hand-off to pg-boss\<close>

text \<open>
  What the dispatchers rely on (the comment on \<open>processEventSendOptions\<close> states it): a send with
  a job id inserts the job and returns its id, or returns null and changes nothing when that
  job exists. A send that throws may have inserted the job or not.
\<close>

definition pgBoss :: "'q publisher \<Rightarrow> ('q \<Rightarrow> jstr list) \<Rightarrow> bool" where
  "pgBoss pub jobs \<longleftrightarrow>
     (\<forall>i q. case pub i q of
        (Inr (Some j), q') \<Rightarrow> i \<notin> set (jobs q) \<and> jobs q' = jobs q @ [i]
      | (Inr None, q') \<Rightarrow> i \<in> set (jobs q) \<and> jobs q' = jobs q
      | (Inl m, q') \<Rightarrow> jobs q' = jobs q \<or> i \<notin> set (jobs q) \<and> jobs q' = jobs q @ [i])"

definition handoff :: "jstr set \<Rightarrow> jstr set \<Rightarrow> jstr list \<Rightarrow> bool" where
  "handoff rows dispatched jobIds \<longleftrightarrow>
     dispatched \<subseteq> set jobIds \<and> set jobIds \<subseteq> rows \<and> distinct jobIds"

lemma pgBoss_send:
  assumes "pgBoss pub jobs" "pub i q = (r, q')" "handoff rows d (jobs q)" "i \<in> rows"
  shows "handoff rows d (jobs q')"
    and "\<not> isl r \<Longrightarrow> handoff rows (d \<union> (rows \<inter> {i})) (jobs q')"
    and "set (jobs q) \<subseteq> set (jobs q')"
proof -
  from assms(1) have c: "case (r, q') of
        (Inr (Some j), q') \<Rightarrow> i \<notin> set (jobs q) \<and> jobs q' = jobs q @ [i]
      | (Inr None, q') \<Rightarrow> i \<in> set (jobs q) \<and> jobs q' = jobs q
      | (Inl m, q') \<Rightarrow> jobs q' = jobs q \<or> i \<notin> set (jobs q) \<and> jobs q' = jobs q @ [i]"
    using assms(1) [unfolded pgBoss_def, THEN spec, of i, THEN spec, of q] by (simp add: assms(2))
  from c assms(3,4) show "handoff rows d (jobs q')"
    by (auto simp: handoff_def split: sum.splits option.splits)
  from c assms(3,4) show "set (jobs q) \<subseteq> set (jobs q')"
    by (auto split: sum.splits option.splits)
  show "handoff rows (d \<union> (rows \<inter> {i})) (jobs q')" if "\<not> isl r"
    using c assms(3,4) that by (auto simp: handoff_def split: sum.splits option.splits)
qed

locale checked_store = outbox_store rowIds doneIds mark rcd
  for rowIds :: "'t \<Rightarrow> jstr set" and doneIds :: "'t \<Rightarrow> jstr set"
    and mark :: "jstr \<Rightarrow> 't \<Rightarrow> jstr + 't" and rcd :: "jstr \<Rightarrow> jstr \<Rightarrow> 't \<Rightarrow> jstr + 't" +
  fixes good :: "'t \<Rightarrow> bool" and san :: "jstr \<Rightarrow> jstr"
  assumes mark_good: "good t \<Longrightarrow> mark i t = Inr t' \<Longrightarrow> good t'"
    and rcd_good: "good t \<Longrightarrow> rcd i (san m) t = Inr t' \<Longrightarrow> good t'"
begin

definition inv :: "('q \<Rightarrow> jstr list) \<Rightarrow> 't \<Rightarrow> 'q \<Rightarrow> bool" where
  "inv jobs t q \<longleftrightarrow> good t \<and> handoff (rowIds t) (doneIds t) (jobs q)"

lemma publishOne_inv:
  assumes "pgBoss pub jobs" "inv jobs t q" "i \<in> rowIds t"
    and "publishOne san mark rcd pub i res t q = (x, q')"
  shows "case x of Inl e \<Rightarrow> inv jobs t q' | Inr (res', t') \<Rightarrow> inv jobs t' q' \<and> rowIds t' = rowIds t"
proof -
  obtain r where p: "pub i q = (r, q')"
    using publishOne_queue [of san pub i res t q] assms(4) by (cases "pub i q") simp
  have h: "handoff (rowIds t) (doneIds t) (jobs q)" and g: "good t"
    using assms(2) by (auto simp: inv_def)
  note s = pgBoss_send [OF assms(1) p h assms(3)]
  show ?thesis
  proof (cases x)
    case (Inl e) with s(1) g show ?thesis by (simp add: inv_def)
  next
    case (Inr b)
    obtain res1 t1 where b: "b = (res1, t1)" by (cases b)
    note one = assms(4) [unfolded Inr b]
    have "good t1"
      using one g by (auto simp: publishOne_def publishFailed_def bindE_Inr Let_def
          split: prod.splits sum.splits if_splits dest: mark_good rcd_good)
    moreover have "handoff (rowIds t1) (doneIds t1) (jobs q')"
      using publishOne_done(1,2) [OF one] s p by auto
    ultimately show ?thesis
      using publishOne_done(1) [OF one] by (simp add: Inr b inv_def)
  qed
qed

lemma publishItems_inv:
  assumes "pgBoss pub jobs"
  shows "inv jobs t q \<Longrightarrow> pi_id ` set items \<subseteq> rowIds t \<Longrightarrow>
     publishItems san mark rcd pub items res t q = (r, t', q') \<Longrightarrow> inv jobs t' q'"
proof (induction items arbitrary: res t q)
  case (Cons x xs)
  obtain a q1 where one: "publishOne san mark rcd pub (pi_id x) res t q = (a, q1)"
    by (cases "publishOne san mark rcd pub (pi_id x) res t q")
  from Cons.prems(2) have x: "pi_id x \<in> rowIds t" by simp
  note k = publishOne_inv [OF assms Cons.prems(1) x one]
  show ?case
  proof (cases a)
    case (Inl e) with k Cons.prems(3) one show ?thesis by simp
  next
    case (Inr b)
    obtain res1 t1 where b: "b = (res1, t1)" by (cases b)
    from k Inr b have k1: "inv jobs t1 q1" "rowIds t1 = rowIds t" by auto
    from Cons.prems(3) one Inr b have "publishItems san mark rcd pub xs res1 t1 q1 = (r, t', q')" by simp
    from Cons.IH [OF k1(1) _ this] Cons.prems(2) k1(2) show ?thesis by simp
  qed
qed simp

text \<open>A rolled-back transaction keeps the jobs it sent: the invariant holds of the old table too.\<close>

lemma rollback_inv:
  assumes "pgBoss pub jobs" "inv jobs t q" "pi_id ` set items \<subseteq> rowIds t"
    and "publishItems san mark rcd pub items res t q = (r, t', q')"
  shows "inv jobs t q'"
  using publishItems_inv [OF assms] publishItems_rows [OF assms(4)] assms(2)
  by (auto simp: inv_def handoff_def)

end

subsection \<open>The three outboxes as one family\<close>

datatype outboxKind = EventOutbox | ReproductionOutbox | AiAnalysisOutbox

fun sanOf :: "outboxKind \<Rightarrow> jstr \<Rightarrow> jstr" where
  "sanOf EventOutbox = sanitizeOutboxError"
| "sanOf ReproductionOutbox = sanitizeReproductionOutboxError"
| "sanOf AiAnalysisOutbox = sanitizeAiAnalysisOutboxError"

fun markOf :: "outboxKind \<Rightarrow> nat \<Rightarrow> outboxRow list markOp" where
  "markOf EventOutbox = markOutboxDispatched"
| "markOf ReproductionOutbox = markReproductionOutboxDispatched"
| "markOf AiAnalysisOutbox = markAiAnalysisOutboxDispatched"

fun recordOf :: "outboxKind \<Rightarrow> outboxRow list recordOp" where
  "recordOf EventOutbox = recordOutboxDispatchFailure"
| "recordOf ReproductionOutbox = recordReproductionOutboxFailure"
| "recordOf AiAnalysisOutbox = recordAiAnalysisOutboxFailure"

fun dispatchOf :: "outboxKind \<Rightarrow> nat \<Rightarrow> (jstr \<Rightarrow> bool) \<Rightarrow> 'q publisher \<Rightarrow> nat \<Rightarrow> 'q pass" where
  "dispatchOf EventOutbox = dispatchOutboxBatch"
| "dispatchOf ReproductionOutbox = dispatchReproductionOutboxBatch"
| "dispatchOf AiAnalysisOutbox = dispatchAiAnalysisOutboxBatch"

fun reconcileOf :: "outboxKind \<Rightarrow> nat \<Rightarrow> (jstr \<Rightarrow> bool) \<Rightarrow> 'q publisher \<Rightarrow> nat \<Rightarrow> nat \<Rightarrow> outboxRow list \<Rightarrow> 'q
    \<Rightarrow> (jstr + reconciliationSummary) \<times> outboxRow list \<times> 'q" where
  "reconcileOf EventOutbox = reconcileOutbox"
| "reconcileOf ReproductionOutbox = reconcileReproductionOutbox"
| "reconcileOf AiAnalysisOutbox = reconcileAiAnalysisOutbox"

definition rowsOk :: "outboxRow list \<Rightarrow> bool" where
  "rowsOk t \<longleftrightarrow> distinct (map o_id t) \<and> (\<forall>r \<in> set t. \<forall>m. o_lastError r = Some m \<longrightarrow> length m \<le> 500)"

lemma length_sanOf: "length (sanOf k m) \<le> 500"
  by (cases k) (simp_all add: sanitizeOutboxError_def sanitizeReproductionOutboxError_def
      sanitizeAiAnalysisOutboxError_def)

lemma rowsOk_update:
  assumes "rowsOk t" "\<And>r. o_id (f r) = o_id r"
    and "\<And>r m. o_lastError (f r) = Some m \<Longrightarrow> length m \<le> 500"
  shows "rowsOk (updateRow i f t)"
proof -
  have "distinct (map o_id (updateRow i f t))"
    using assms(1) updateRow_ids [of f i t, OF assms(2)] by (simp add: rowsOk_def)
  moreover have "length m \<le> 500" if "r \<in> set (updateRow i f t)" "o_lastError r = Some m" for r m
    using that assms(1,3) by (auto simp: updateRow_def rowsOk_def split: if_splits)
  ultimately show ?thesis by (auto simp: rowsOk_def)
qed

interpretation ob: checked_store rowIdsOf doneIdsOf "markOf k now" "recordOf k" rowsOk "sanOf k" for k now
proof unfold_locales
  fix i t t'
  assume "markOf k now i t = Inr t'"
  then have t': "t' = updateRow i (setDispatched now) t" by (cases k) (simp_all add: mark_defs)
  show "rowIdsOf t' = rowIdsOf t \<and> doneIdsOf t' = doneIdsOf t \<union> (rowIdsOf t \<inter> {i})"
    by (simp add: t' updateRow_rowIds mark_doneIds)
  show "rowsOk t'" if "rowsOk t"
    unfolding t' by (rule rowsOk_update [OF that]) simp_all
next
  fix i m t t'
  assume "recordOf k i m t = Inr t'"
  then have t': "t' = updateRow i (setFailure m) t"
    by (cases k) (auto simp: record_defs bindE_Inr)
  show "rowIdsOf t' = rowIdsOf t \<and> doneIdsOf t' = doneIdsOf t"
    by (simp add: t' updateRow_rowIds failure_doneIds)
next
  fix i m t t'
  assume "rowsOk t" "recordOf k i (sanOf k m) t = Inr t'"
  then show "rowsOk t'"
    using length_sanOf [of k m]
    by (cases k) (auto simp: record_defs bindE_Inr intro!: rowsOk_update)
qed

subsection \<open>The system: inserts, passes, reconciliation, crashes, interleaved turns\<close>

text \<open>
  A step is an insert by a service, a dispatch or reconciliation pass, a worker that dies
  after it published the first \<open>n\<close> items of a claimed batch (the event outbox then rolls
  back), or, for the two outboxes that publish outside the claim transaction, one turn of a
  pass that runs interleaved with others on any row.
\<close>

inductive outboxStep :: "outboxKind \<Rightarrow> 'q publisher \<Rightarrow> outboxRow list \<times> 'q \<Rightarrow> outboxRow list \<times> 'q \<Rightarrow> bool"
  for k pub where
  insertS: "insertRow now i t = Inr t' \<Longrightarrow> outboxStep k pub (t, q) (t', q)"
| passS: "dispatchOf k now locked pub b t q = (r, t', q') \<Longrightarrow> outboxStep k pub (t, q) (t', q')"
| reconcileS: "reconcileOf k now locked pub b old t q = (s, t', q') \<Longrightarrow> outboxStep k pub (t, q) (t', q')"
| crashS: "publishItems (sanOf k) (markOf k now) (recordOf k) pub
     (take n (selectRows cond locked b t)) res t q = (r, t', q') \<Longrightarrow>
     outboxStep k pub (t, q) (if k = EventOutbox then t else t', q')"
| turnS: "k \<noteq> EventOutbox \<Longrightarrow> i \<in> rowIdsOf t \<Longrightarrow>
     publishOne (sanOf k) (markOf k now) (recordOf k) pub i res t q = (Inr (res', t'), q') \<Longrightarrow>
     outboxStep k pub (t, q) (t', q')"
| turnErrorS: "k \<noteq> EventOutbox \<Longrightarrow> i \<in> rowIdsOf t \<Longrightarrow>
     publishOne (sanOf k) (markOf k now) (recordOf k) pub i res t q = (Inl e, q') \<Longrightarrow>
     outboxStep k pub (t, q) (t, q')"

inductive_simps outboxStep_simps: "outboxStep k pub (t, q) (t', q')"

inductive outboxReach :: "outboxKind \<Rightarrow> 'q publisher \<Rightarrow> outboxRow list \<times> 'q \<Rightarrow> outboxRow list \<times> 'q \<Rightarrow> bool"
  for k pub where
  startR: "outboxReach k pub s s"
| stepR: "outboxReach k pub s s' \<Longrightarrow> outboxStep k pub s' s'' \<Longrightarrow> outboxReach k pub s s''"

lemma selectRows_ids: "pi_id ` set (selectRows cond locked n t) \<subseteq> rowIdsOf t"
  by (auto simp: selectRows_def pendingColumns_def rowIdsOf_def byCreatedAt_def dest!: in_set_takeD)

lemma inv_insert:
  assumes "ob.inv jobs t q" "insertRow now i t = Inr t'" shows "ob.inv jobs t' q"
proof -
  from assms(2) have t': "t' = t @ [newOutboxRow now i]" "i \<notin> o_id ` set t"
    by (auto simp: insertRow_def split: if_splits)
  then have "rowIdsOf t' = insert i (rowIdsOf t)" "doneIdsOf t' = doneIdsOf t"
    by (auto simp: rowIdsOf_def doneIdsOf_def newOutboxRow_def isPending_def)
  with assms(1) t' show ?thesis
    by (auto simp: ob.inv_def handoff_def rowsOk_def newOutboxRow_def)
qed

text \<open>A whole pass publishes selected rows, inside one transaction or row by row.\<close>

definition passBody :: "outboxKind \<Rightarrow> nat \<Rightarrow> 'q publisher \<Rightarrow> pendingItem list \<Rightarrow> 'q pass" where
  "passBody k now pub items =
     (let body = publishItems (sanOf k) (markOf k now) (recordOf k) pub items (noResult\<lparr>r_claimed := length items\<rparr>)
      in if k = EventOutbox then inTransaction body else body)"

lemma dispatchOf_body:
  "dispatchOf k now locked pub b t q = passBody k now pub (selectRows isPending locked b t) t q"
  by (cases k) (auto simp: dispatch_defs passBody_def publish_defs claim_defs Let_def inTransaction_def noResult_def)

lemma reconcileOf_body:
  "reconcileOf k now locked pub b old t q =
     (let stale = selectRows (\<lambda>r. isPending r \<and> o_createdAt r \<le> staleBefore now old) (\<lambda>_. False) b t in
      if now < old \<or> stale = [] then withStale 0 (Inr noResult, t, q)
      else withStale (length stale) (passBody k now pub
        (selectRows (\<lambda>r. isPending r \<and> o_createdAt r \<le> staleBefore now old) locked b t) t q))"
  by (cases k) (simp_all add: reconcile_defs passBody_def publish_defs claim_defs Let_def inTransaction_def
      listStaleOutbox_def listStaleReproductionOutbox_def listStaleAiAnalysisOutbox_def noResult_def)

lemma passBody_inv:
  assumes "pgBoss pub jobs" "ob.inv jobs t q" "pi_id ` set items \<subseteq> rowIdsOf t"
    and "passBody k now pub items t q = (r, t', q')"
  shows "ob.inv jobs t' q'"
proof -
  obtain x t1 q1 where b: "publishItems (sanOf k) (markOf k now) (recordOf k) pub items
      (noResult\<lparr>r_claimed := length items\<rparr>) t q = (x, t1, q1)" by (metis prod_cases3)
  show ?thesis
    using ob.publishItems_inv [OF assms(1-3) b] ob.rollback_inv [OF assms(1-3) b] assms(4) b
    by (auto simp: passBody_def Let_def inTransaction_def split: if_splits sum.splits)
qed

lemma withStale_state: "withStale n x = (s, t', q') \<Longrightarrow> \<exists>r. x = (r, t', q')"
  by (cases "(n, x)" rule: withStale.cases) auto

lemma outboxStep_inv [inv_intro]:
  assumes "pgBoss pub jobs" "outboxStep k pub s s'" "ob.inv jobs (fst s) (snd s)"
  shows "ob.inv jobs (fst s') (snd s')"
  using assms(2,3)
proof (cases rule: outboxStep.cases)
  case (insertS now i t t' q)
  with assms(3) show ?thesis by (simp add: inv_insert)
next
  case (passS now locked b t q r t' q')
  with assms(3) passBody_inv [OF assms(1) _ selectRows_ids] show ?thesis
    by (auto simp: dispatchOf_body)
next
  case (reconcileS now locked b old t q s1 t' q')
  have "(\<exists>r. (Inr noResult :: jstr + batchResult, t, q) = (r, t', q'))
      \<or> (\<exists>r cond. passBody k now pub (selectRows cond locked b t) t q = (r, t', q'))"
    using reconcileS(3) unfolding reconcileOf_body Let_def
    by (simp only: split: if_splits) (blast dest: withStale_state)+
  then consider "t' = t" "q' = q"
    | r cond where "passBody k now pub (selectRows cond locked b t) t q = (r, t', q')"
    by blast
  then show ?thesis
  proof cases
    case 1
    with reconcileS(1,2) assms(3) show ?thesis by simp
  next
    case 2
    have "ob.inv jobs t q" using reconcileS(1,2) assms(3) by simp
    from passBody_inv [OF assms(1) this selectRows_ids 2] reconcileS(1,2) show ?thesis by simp
  qed
next
  case (crashS now n cond locked b t res q r t' q')
  have ids: "pi_id ` set (take n (selectRows cond locked b t)) \<subseteq> rowIdsOf t"
    using selectRows_ids [of cond locked b t] by (auto dest: in_set_takeD)
  have "ob.inv jobs t q" using crashS(1,2) assms(3) by simp
  from ob.publishItems_inv [OF assms(1) this ids crashS(3)] ob.rollback_inv [OF assms(1) this ids crashS(3)]
  show ?thesis by (simp add: crashS(2))
next
  case (turnS i t now res q res' t' q')
  have "ob.inv jobs t q" using turnS(1,2) assms(3) by simp
  from ob.publishOne_inv [OF assms(1) this turnS(4,5)] show ?thesis by (simp add: turnS(2))
next
  case (turnErrorS i t now res q e q')
  have "ob.inv jobs t q" using turnErrorS(1,2) assms(3) by simp
  from ob.publishOne_inv [OF assms(1) this turnErrorS(4,5)] show ?thesis by (simp add: turnErrorS(2))
qed

lemma outboxReach_inv:
  assumes "pgBoss pub jobs" "outboxReach k pub s s'" "ob.inv jobs (fst s) (snd s)"
  shows "ob.inv jobs (fst s') (snd s')"
  using assms(2,3) by (induction rule: outboxReach.induct) (auto intro: outboxStep_inv [OF assms(1)])

subsection \<open>A tick drains the oldest rows\<close>

definition pendingIds :: "outboxRow list \<Rightarrow> jstr list" where
  "pendingIds t = map o_id (byCreatedAt (filter isPending t))"

lemma set_byCreatedAt [simp]: "set (byCreatedAt t) = set t"
  by (simp add: byCreatedAt_def)

lemma distinct_pendingIds: "distinct (map o_id t) \<Longrightarrow> distinct (pendingIds t)"
  by (auto simp: pendingIds_def distinct_map byCreatedAt_def inj_on_def)

lemma pi_id_pendingColumns [simp]: "pi_id (pendingColumns r) = o_id r"
  by (simp add: pendingColumns_def)

lemma claim_ids: "map pi_id (selectRows isPending (\<lambda>_. False) b t) = take b (pendingIds t)"
  by (simp add: selectRows_def pendingIds_def take_map comp_def)

text \<open>Two tables with the same rows up to error and attempt columns have the same pending list.\<close>

definition sameRows :: "jstr set \<Rightarrow> outboxRow list \<Rightarrow> outboxRow list \<Rightarrow> bool" where
  "sameRows done t t' \<longleftrightarrow>
     filter isPending t' = filter (\<lambda>r. isPending r \<and> o_id r \<notin> done) t \<and> map o_id t' = map o_id t"

lemma sameRows_mark: "sameRows {i} t (updateRow i (setDispatched now) t)"
  by (induction t) (auto simp: sameRows_def table_simps)

lemma sameRows_trans:
  assumes "sameRows A t t1" "sameRows B t1 t2" shows "sameRows (A \<union> B) t t2"
proof -
  have "filter isPending t2 = filter (\<lambda>r. o_id r \<notin> B) (filter isPending t1)"
    using assms(2) by (simp add: sameRows_def conj_commute)
  also have "\<dots> = filter (\<lambda>r. isPending r \<and> o_id r \<notin> A \<union> B) t"
    using assms(1) by (auto simp: sameRows_def intro: filter_cong)
  finally show ?thesis using assms by (simp add: sameRows_def)
qed

definition neverThrows :: "'q publisher \<Rightarrow> bool" where
  "neverThrows pub \<longleftrightarrow> (\<forall>i q. \<not> isl (fst (pub i q)))"

lemma sameRows_publish:
  assumes "neverThrows pub"
  shows "\<exists>res' t' q'. publishItems (sanOf k) (markOf k now) (recordOf k) pub items res t q = (Inr res', t', q')
     \<and> r_claimed res' = r_claimed res \<and> sameRows (pi_id ` set items) t t'"
proof (induction items arbitrary: res t q)
  case Nil
  then show ?case by (simp add: sameRows_def)
next
  case (Cons x xs)
  obtain j q1 where p: "pub (pi_id x) q = (Inr j, q1)"
    by (metis assms neverThrows_def prod.collapse sum.collapse(2))
  define t1 where "t1 = updateRow (pi_id x) (setDispatched now) t"
  have m: "markOf k now (pi_id x) t = Inr t1" by (cases k) (simp_all add: mark_defs t1_def)
  obtain res1 where one: "publishOne (sanOf k) (markOf k now) (recordOf k) pub (pi_id x) res t q = (Inr (res1, t1), q1)"
      and c: "r_claimed res1 = r_claimed res"
    by (auto simp: publishOne_def p m Let_def)
  obtain res2 t2 q2 where IH:
    "publishItems (sanOf k) (markOf k now) (recordOf k) pub xs res1 t1 q1 = (Inr res2, t2, q2)"
    "r_claimed res2 = r_claimed res1" "sameRows (pi_id ` set xs) t1 t2"
    using Cons.IH [of res1 t1 q1] by blast
  have "sameRows ({pi_id x} \<union> pi_id ` set xs) t t2"
    by (rule sameRows_trans [OF sameRows_mark IH(3) [unfolded t1_def]])
  with IH one c show ?case by simp
qed

lemma sameRows_pending:
  assumes "sameRows (set (take b (pendingIds t))) t t'" "distinct (map o_id t)"
  shows "pendingIds t' = drop b (pendingIds t)"
proof -
  have "pendingIds t' = map o_id (byCreatedAt (filter (\<lambda>r. o_id r \<notin> set (take b (pendingIds t))) (filter isPending t)))"
    using assms(1) by (simp add: pendingIds_def sameRows_def conj_commute)
  also have "\<dots> = filter (\<lambda>i. i \<notin> set (take b (pendingIds t))) (pendingIds t)"
    unfolding byCreatedAt_def
    by (simp add: pendingIds_def byCreatedAt_def filter_sort [symmetric] filter_map comp_def)
  also have "\<dots> = drop b (pendingIds t)"
    by (rule filter_not_take [OF distinct_pendingIds [OF assms(2)]])
  finally show ?thesis .
qed

lemma passBody_publish:
  assumes "neverThrows pub"
  shows "\<exists>res' t' q'. passBody k now pub items t q = (Inr res', t', q')
     \<and> r_claimed res' = length items \<and> sameRows (pi_id ` set items) t t'"
proof -
  obtain res' t' q' where p: "publishItems (sanOf k) (markOf k now) (recordOf k) pub items
      (noResult\<lparr>r_claimed := length items\<rparr>) t q = (Inr res', t', q')"
    and "r_claimed res' = length items" "sameRows (pi_id ` set items) t t'"
    using sameRows_publish [OF assms, of k now items "noResult\<lparr>r_claimed := length items\<rparr>" t q] by auto
  moreover have "passBody k now pub items t q = (Inr res', t', q')"
    using p by (cases k) (simp_all add: passBody_def Let_def inTransaction_def)
  ultimately show ?thesis by blast
qed

lemma dispatchOf_oldest:
  assumes "neverThrows pub" "distinct (map o_id t)"
  shows "\<exists>res' t' q'. dispatchOf k now (\<lambda>_. False) pub b t q = (Inr res', t', q')
     \<and> r_claimed res' = min b (length (pendingIds t))
     \<and> pendingIds t' = drop b (pendingIds t) \<and> map o_id t' = map o_id t"
proof -
  let ?items = "selectRows isPending (\<lambda>_. False) b t"
  have ids: "pi_id ` set ?items = set (take b (pendingIds t))"
    by (metis claim_ids list.set_map)
  have len: "length ?items = min b (length (pendingIds t))"
    by (metis claim_ids length_map length_take min.commute)
  obtain res' t' q' where p: "passBody k now pub ?items t q = (Inr res', t', q')"
      "r_claimed res' = length ?items" "sameRows (pi_id ` set ?items) t t'"
    using passBody_publish [OF assms(1), of k now ?items t q] by blast
  have "pendingIds t' = drop b (pendingIds t)"
    using sameRows_pending [OF p(3) [unfolded ids] assms(2)] .
  moreover have "map o_id t' = map o_id t" using p(3) by (simp add: sameRows_def)
  ultimately show ?thesis
    unfolding dispatchOf_body p(1) using p(2) len by auto
qed

lemma drain_oldest:
  assumes "neverThrows pub"
  shows "n < MAX_DRAIN_ITERATIONS \<Longrightarrow> distinct (map o_id t) \<Longrightarrow>
    drain (\<lambda>n. dispatchOf k (now n) (\<lambda>_. False) pub b) (\<lambda>_. False) b n t q = (p, t', q') \<Longrightarrow>
    pendingIds t' = drop ((MAX_DRAIN_ITERATIONS - n) * b) (pendingIds t) \<and> n < p \<and> p \<le> MAX_DRAIN_ITERATIONS
    \<and> map o_id t' = map o_id t"
proof (induction "MAX_DRAIN_ITERATIONS - n" arbitrary: n t q)
  case 0
  then show ?case by simp
next
  case (Suc d)
  obtain res1 t1 q1 where one: "dispatchOf k (now n) (\<lambda>_. False) pub b t q = (Inr res1, t1, q1)"
      "r_claimed res1 = min b (length (pendingIds t))" "pendingIds t1 = drop b (pendingIds t)"
      "map o_id t1 = map o_id t"
    using dispatchOf_oldest [OF assms Suc.prems(2), of k "now n" b q] by blast
  show ?case
  proof (cases "b \<le> length (pendingIds t) \<and> Suc n < MAX_DRAIN_ITERATIONS")
    case True
    have rest: "drain (\<lambda>n. dispatchOf k (now n) (\<lambda>_. False) pub b) (\<lambda>_. False) b (Suc n) t1 q1 = (p, t', q')"
      using Suc.prems(3) one True by (subst (asm) drain.simps) (simp add: min_def)
    have "d = MAX_DRAIN_ITERATIONS - Suc n" "distinct (map o_id t1)"
      using Suc.hyps(2) Suc.prems(2) one(4) by simp_all
    from Suc.hyps(1) [OF this(1) _ this(2) rest] True one have
      "pendingIds t' = drop ((MAX_DRAIN_ITERATIONS - Suc n) * b + b) (pendingIds t)"
      "Suc n < p" "p \<le> MAX_DRAIN_ITERATIONS" "map o_id t' = map o_id t"
      by simp_all
    moreover have "(MAX_DRAIN_ITERATIONS - Suc n) * b + b = (MAX_DRAIN_ITERATIONS - n) * b"
      using Suc.prems(1) by (metis Suc_diff_Suc add.commute mult_Suc)
    ultimately show ?thesis by simp
  next
    case False
    then have e: "(p, t', q') = (Suc n, t1, q1)"
      using Suc.prems(3) one by (subst (asm) drain.simps) (auto simp: min_def split: if_splits)
    have "drop b (pendingIds t) = drop ((MAX_DRAIN_ITERATIONS - n) * b) (pendingIds t)"
    proof (cases "b \<le> length (pendingIds t)")
      case True
      with False Suc.prems(1) have "MAX_DRAIN_ITERATIONS - n = 1" by simp
      then show ?thesis by simp
    next
      case False
      moreover have "b \<le> (MAX_DRAIN_ITERATIONS - n) * b" using Suc.prems(1) by (cases "MAX_DRAIN_ITERATIONS - n") auto
      ultimately show ?thesis by (metis drop_all le_trans nat_le_linear)
    qed
    with e one Suc.prems(1) show ?thesis by simp
  qed
qed

subsection \<open>Rows are never lost and never come back\<close>

lemma inv_rows_mono:
  assumes "outboxStep k pub s s'"
  shows "rowIdsOf (fst s) \<subseteq> rowIdsOf (fst s') \<and> doneIdsOf (fst s) \<subseteq> doneIdsOf (fst s')"
proof -
  have body: "rowIdsOf t \<subseteq> rowIdsOf t' \<and> doneIdsOf t \<subseteq> doneIdsOf t'"
    if "passBody k now pub items t q = (r, t', q')" for now items t q r t' q'
  proof -
    obtain x t1 q1 where b: "publishItems (sanOf k) (markOf k now) (recordOf k) pub items
      (noResult\<lparr>r_claimed := length items\<rparr>) t q = (x, t1, q1)" by (metis prod_cases3)
    show ?thesis
      using ob.publishItems_rows [OF b] that b
      by (auto simp: passBody_def Let_def inTransaction_def split: if_splits sum.splits)
  qed
  show ?thesis
    using assms
  proof (cases rule: outboxStep.cases)
    case (insertS now i t t' q)
    then show ?thesis
      by (auto simp: insertRow_def rowIdsOf_def doneIdsOf_def split: if_splits)
  next
    case (passS now locked b t q r t' q')
    from body [OF passS(3) [unfolded dispatchOf_body]] passS(1,2) show ?thesis by simp
  next
    case (reconcileS now locked b old t q x t' q')
    have "t' = t \<or> (\<exists>items r. passBody k now pub items t q = (r, t', q'))"
      using reconcileS(3) unfolding reconcileOf_body Let_def
      by (simp only: split: if_splits) (blast dest: withStale_state)+
    then have "rowIdsOf t \<subseteq> rowIdsOf t' \<and> doneIdsOf t \<subseteq> doneIdsOf t'"
      using body by blast
    with reconcileS(1,2) show ?thesis by simp
  next
    case (crashS now n cond locked b t res q r t' q')
    from ob.publishItems_rows [OF crashS(3)] crashS(1,2) show ?thesis by auto
  next
    case (turnS i t now res q res' t' q')
    from ob.publishOne_done(1,2) [OF turnS(5)] turnS(1,2) show ?thesis by auto
  next
    case (turnErrorS i t now res q e q')
    then show ?thesis by simp
  qed
qed

lemma outboxReach_mono:
  "outboxReach k pub s s' \<Longrightarrow>
     rowIdsOf (fst s) \<subseteq> rowIdsOf (fst s') \<and> doneIdsOf (fst s) \<subseteq> doneIdsOf (fst s')"
  by (induction rule: outboxReach.induct) (use inv_rows_mono in blast)+

subsection \<open>Properties\<close>

text \<open>
  C16: In every state an outbox reaches by inserts, dispatch and reconciliation passes,
  crashes between a publish and its commit and interleaved turns, a row marked dispatched has
  its pg-boss job; no event has two jobs, every job belongs to a row, row ids stay unique and
  the stored error text stays within 500 characters. From then on no row is lost and no
  dispatched row becomes pending again.
\<close>

theorem outbox_never_ahead_of_jobs:
  assumes "pgBoss pub jobs" "jobs q0 = []" "outboxReach k pub ([], q0) (t, q)"
    and "outboxReach k pub (t, q) (t', q')"
  shows "o_id ` {r \<in> set t. \<not> isPending r} \<subseteq> set (jobs q) \<and> set (jobs q) \<subseteq> o_id ` set t
     \<and> distinct (jobs q) \<and> distinct (map o_id t)
     \<and> {r \<in> set t. \<exists>m. o_lastError r = Some m \<and> 500 < length m} = {}
     \<and> o_id ` set t \<subseteq> o_id ` set t'
     \<and> o_id ` {r \<in> set t. \<not> isPending r} \<subseteq> o_id ` {r \<in> set t'. \<not> isPending r}"
proof -
  have "ob.inv jobs [] q0" by (simp add: ob.inv_def handoff_def table_simps rowsOk_def assms(2))
  with outboxReach_inv [OF assms(1,3)] have "ob.inv jobs t q" by simp
  then have i: "doneIdsOf t \<subseteq> set (jobs q)" "set (jobs q) \<subseteq> rowIdsOf t" "distinct (jobs q)"
      "distinct (map o_id t)" "\<forall>r \<in> set t. \<forall>m. o_lastError r = Some m \<longrightarrow> length m \<le> 500"
    by (auto simp: ob.inv_def handoff_def rowsOk_def)
  have "{r \<in> set t. \<exists>m. o_lastError r = Some m \<and> 500 < length m} = {}"
    using i(5) by fastforce
  with i outboxReach_mono [OF assms(4)] show ?thesis
    by (simp add: rowIdsOf_def doneIdsOf_def)
qed

definition listPublisher :: "jstr list publisher" where
  "listPublisher i q = (if i \<in> set q then (Inr None, q) else (Inr (Some i), q @ [i]))"

lemma pgBoss_listPublisher: "pgBoss listPublisher (\<lambda>q. q)"
  by (simp add: pgBoss_def listPublisher_def)

lemma outbox_never_ahead_of_jobs_witness:
  "\<exists>t q. outboxReach EventOutbox listPublisher ([], []) (t, q) \<and> doneIdsOf t = {[7]}
     \<and> o_id ` {r \<in> set t. \<not> isPending r} \<subseteq> set q"
proof -
  let ?t1 = "[newOutboxRow 3 [7]]" and ?t2 = "[setDispatched 5 (newOutboxRow 3 [7])]"
  have s1: "outboxStep EventOutbox listPublisher ([], []) (?t1, [])"
    by (rule insertS [of 3 "[7]"]) (simp add: insertRow_def)
  have "dispatchOf EventOutbox 5 (\<lambda>_. False) listPublisher 2 ?t1 []
      = (Inr \<lparr>r_claimed = 1, r_dispatched = 1, r_deduplicated = 0, r_failed = 0\<rparr>, ?t2, [[7]])"
    by (simp add: dispatch_defs claim_defs selectRows_def newOutboxRow_def isPending_def byCreatedAt_def
        inTransaction_def publish_defs pendingColumns_def publishOne_def listPublisher_def mark_defs
        noResult_def updateRow_def Let_def)
  then have s2: "outboxStep EventOutbox listPublisher (?t1, []) (?t2, [[7]])" by (rule passS)
  have r: "outboxReach EventOutbox listPublisher ([], []) (?t2, [[7]])"
    by (rule stepR [OF stepR [OF startR s1] s2])
  with outbox_never_ahead_of_jobs [OF pgBoss_listPublisher _ r startR] show ?thesis
    by (intro exI [of _ ?t2] exI [of _ "[[7]]"]) (simp add: table_simps newOutboxRow_def)
qed



text \<open>
  The AI analysis dispatcher stores a failed publish only when the sanitized text is
  non-empty and free of control characters. Otherwise the store's own check throws inside
  the \<open>catch\<close>: the pass ends with that error, the row keeps its attempt count, the rest of
  the claimed batch is not tried, and the event dispatcher on the same failure goes on. An
  error with an empty message and one with an escape character are such failures.
\<close>

theorem ai_outbox_error_ends_pass:
  assumes "claimPendingAiAnalysisOutboxBatch locked b t = x # xs" "pub (pi_id x) q = (Inl m, q')"
    and "assertOutboxError (sanitizeAiAnalysisOutboxError m) = Inl e"
  shows "dispatchAiAnalysisOutboxBatch now locked pub b t q = (Inl e, t, q')
     \<and> dispatchOutboxBatch now locked pub b t q =
         publishItems sanitizeOutboxError (markOutboxDispatched now) recordOutboxDispatchFailure pub xs
           \<lparr>r_claimed = Suc (length xs), r_dispatched = 0, r_deduplicated = 0, r_failed = 1\<rparr>
           (updateRow (pi_id x) (setFailure (sanitizeOutboxError m)) t) q'
     \<and> isl (assertOutboxError (sanitizeAiAnalysisOutboxError (js '''')))
     \<and> isl (assertOutboxError (sanitizeAiAnalysisOutboxError [27]))"
proof -
  have c: "claimPendingOutboxBatch locked b t = x # xs"
    using assms(1) by (simp add: claim_defs)
  have nothrow: "\<exists>r t' q'. publishItems sanitizeOutboxError (markOutboxDispatched now) recordOutboxDispatchFailure
      pub xs res t1 q1 = (Inr r, t', q')" for xs res t1 q1
  proof (induction xs arbitrary: res t1 q1)
    case (Cons a xs)
    then show ?case
      by (auto simp: publishOne_def publishFailed_def record_defs mark_defs Let_def split: prod.splits sum.splits)
  qed simp
  have "dispatchAiAnalysisOutboxBatch now locked pub b t q = (Inl e, t, q')"
    by (simp add: dispatch_defs assms(1) publish_defs publishOne_def assms(2) publishFailed_def record_defs assms(3))
  moreover have "dispatchOutboxBatch now locked pub b t q =
         publishItems sanitizeOutboxError (markOutboxDispatched now) recordOutboxDispatchFailure pub xs
           \<lparr>r_claimed = Suc (length xs), r_dispatched = 0, r_deduplicated = 0, r_failed = 1\<rparr>
           (updateRow (pi_id x) (setFailure (sanitizeOutboxError m)) t) q'"
    using nothrow [of xs "\<lparr>r_claimed = Suc (length xs), r_dispatched = 0, r_deduplicated = 0, r_failed = 1\<rparr>"
        "updateRow (pi_id x) (setFailure (sanitizeOutboxError m)) t" q']
    by (auto simp: dispatchOutboxBatch_def c inTransaction_def publishClaimedOutboxItems_def publishOne_def
        assms(2) publishFailed_def recordOutboxDispatchFailure_def noResult_def)
  ultimately show ?thesis
    by (simp add: assertOutboxError_def sanitizeAiAnalysisOutboxError_def trim_def trimEnd_def trimStart_def
        isWs_def containsControlCharacter_def js_eval guardE_def)
qed

lemma ai_outbox_error_ends_pass_witness:
  "fst (dispatchAiAnalysisOutboxBatch 9 (\<lambda>_. False) (\<lambda>i q. (Inl [], q)) 5 [newOutboxRow 3 [7]] ())
     = Inl (js ''sanitized outbox error must be 1-1000 printable characters'')"
proof -
  have c: "claimPendingAiAnalysisOutboxBatch (\<lambda>_. False) 5 [newOutboxRow 3 [7]]
      = pendingColumns (newOutboxRow 3 [7]) # []"
    by (simp add: claim_defs selectRows_def newOutboxRow_def isPending_def byCreatedAt_def)
  have e: "assertOutboxError (sanitizeAiAnalysisOutboxError [])
      = Inl (js ''sanitized outbox error must be 1-1000 printable characters'')"
    by (simp add: assertOutboxError_def sanitizeAiAnalysisOutboxError_def trim_def trimEnd_def trimStart_def)
  show ?thesis
    using ai_outbox_error_ends_pass [OF c _ e, of "\<lambda>i q. (Inl [], q)" "()" "()" 9] by simp
qed

end
