(* ===== verification/Scheduler.thy ===== *)
theory Scheduler
  imports Prelude
begin

text \<open>
  The timer loops of the worker: the three dispatchers and three reconciliation loops
  (\<open>apps/worker/src/dispatcher\<close>, \<open>apps/worker/src/reconciliation\<close>) and the three cleanup
  runners (\<open>apps/worker/src/cleanup\<close>). Each \<open>start...\<close> function is a closure over
  \<open>stopped\<close>, \<open>timer\<close> and \<open>inFlight\<close>; it is modelled by its initial state and by what the
  atomic turns of the event loop do to it. A pass itself is opaque here: it settles, with a
  result or an error, and both are handled alike.
\<close>

subsection \<open>State and turns\<close>

record loopSt =
  lp_stopped :: bool
  lp_armed :: bool        \<comment> \<open>a timer is pending\<close>
  lp_inFlight :: bool     \<comment> \<open>\<open>inFlight !== null\<close>\<close>
  lp_tickWaits :: bool    \<comment> \<open>a tick awaits the pass and schedules the next one after it\<close>
  lp_stopWaits :: bool    \<comment> \<open>a \<open>stop()\<close> awaits the pass\<close>
  lp_stopReturned :: bool

datatype loopAct = TimerFires | PassSettles | RunOnce | StopCalled

definition scheduleNext :: "loopSt \<Rightarrow> loopSt" where
  "scheduleNext s = (if lp_stopped s then s else s\<lparr>lp_armed := True\<rparr>)"

definition loopInit :: loopSt where
  "loopInit = scheduleNext \<lparr>lp_stopped = False, lp_armed = False, lp_inFlight = False,
     lp_tickWaits = False, lp_stopWaits = False, lp_stopReturned = False\<rparr>"

definition startPass :: "loopSt \<Rightarrow> loopSt" where
  "startPass s = s\<lparr>lp_inFlight := True, lp_tickWaits := True\<rparr>"

text \<open>The end of a pass: \<open>finally { inFlight = null }\<close>, then the waiting tick, then a waiting stop.\<close>

definition settle :: "loopSt \<Rightarrow> loopSt" where
  "settle s =
     (let s1 = s\<lparr>lp_inFlight := False, lp_tickWaits := False\<rparr>;
          s2 = (if lp_tickWaits s then scheduleNext s1 else s1)
      in if lp_stopWaits s then s2\<lparr>lp_stopWaits := False, lp_stopReturned := True\<rparr> else s2)"

definition stopLoop :: "loopSt \<Rightarrow> loopSt" where
  "stopLoop s =
     (let s1 = s\<lparr>lp_stopped := True, lp_armed := False\<rparr>
      in if lp_inFlight s then s1\<lparr>lp_stopWaits := True\<rparr> else s1\<lparr>lp_stopReturned := True\<rparr>)"

text \<open>
  The \<open>tick\<close> of a dispatcher or a reconciliation loop; its \<open>runOnce\<close> calls the pass directly
  and leaves the loop's variables alone.
\<close>

definition dispatcherTick :: "loopSt \<Rightarrow> loopSt" where
  "dispatcherTick s = (if lp_stopped s \<or> lp_inFlight s then s else startPass s)"

text \<open>The \<open>tick\<close> of the invitation runner returns at once when a \<open>runOnce\<close> pass is in flight.\<close>

definition invitationTick :: "loopSt \<Rightarrow> loopSt" where
  "invitationTick s = (if lp_stopped s \<or> lp_inFlight s then s else startPass s)"

text \<open>The \<open>tick\<close> of the other two runners awaits that pass and schedules the next one.\<close>

definition cleanupTick :: "loopSt \<Rightarrow> loopSt" where
  "cleanupTick s =
     (if lp_stopped s then s
      else if lp_inFlight s then s\<lparr>lp_tickWaits := True\<rparr>
      else startPass s)"

definition runPass :: "loopSt \<Rightarrow> loopSt" where
  "runPass s = s\<lparr>lp_inFlight := True\<rparr>"

fun loopNext :: "(loopSt \<Rightarrow> loopSt) \<Rightarrow> (loopSt \<Rightarrow> loopSt) \<Rightarrow> loopAct \<Rightarrow> loopSt \<Rightarrow> loopSt option" where
  "loopNext tick once TimerFires s =
     (if lp_armed s then Some (tick (s\<lparr>lp_armed := False\<rparr>)) else None)"
| "loopNext tick once PassSettles s = (if lp_inFlight s then Some (settle s) else None)"
| "loopNext tick once RunOnce s = Some (once s)"
| "loopNext tick once StopCalled s = Some (stopLoop s)"

type_synonym loopMachine = "loopSt \<times> (loopAct \<Rightarrow> loopSt \<Rightarrow> loopSt option)"

definition startOutboxDispatcher :: loopMachine where
  "startOutboxDispatcher = (loopInit, loopNext dispatcherTick (\<lambda>s. s))"
definition startOutboxReconciliation :: loopMachine where
  "startOutboxReconciliation = (loopInit, loopNext dispatcherTick (\<lambda>s. s))"
definition startReproductionDispatcher :: loopMachine where
  "startReproductionDispatcher = (loopInit, loopNext dispatcherTick (\<lambda>s. s))"
definition startReproductionReconciliation :: loopMachine where
  "startReproductionReconciliation = (loopInit, loopNext dispatcherTick (\<lambda>s. s))"
definition startAiAnalysisDispatcher :: loopMachine where
  "startAiAnalysisDispatcher = (loopInit, loopNext dispatcherTick (\<lambda>s. s))"
definition startAiAnalysisReconciliation :: loopMachine where
  "startAiAnalysisReconciliation = (loopInit, loopNext dispatcherTick (\<lambda>s. s))"
definition startExpiredInvitationCleanupRunner :: loopMachine where
  "startExpiredInvitationCleanupRunner = (loopInit, loopNext invitationTick runPass)"
definition startRetentionCleanupRunner :: loopMachine where
  "startRetentionCleanupRunner = (loopInit, loopNext cleanupTick runPass)"
definition startArtifactDeletionRunner :: loopMachine where
  "startArtifactDeletionRunner = (loopInit, loopNext cleanupTick runPass)"

lemmas dispatcher_defs = startOutboxDispatcher_def startOutboxReconciliation_def
  startReproductionDispatcher_def startReproductionReconciliation_def
  startAiAnalysisDispatcher_def startAiAnalysisReconciliation_def
lemmas cleanup_defs = startRetentionCleanupRunner_def startArtifactDeletionRunner_def
lemmas loop_defs = loopInit_def scheduleNext_def startPass_def settle_def stopLoop_def
  dispatcherTick_def invitationTick_def cleanupTick_def runPass_def Let_def

definition dispatchers :: "loopMachine set" where
  "dispatchers = {startOutboxDispatcher, startOutboxReconciliation, startReproductionDispatcher,
     startReproductionReconciliation, startAiAnalysisDispatcher, startAiAnalysisReconciliation}"

definition cleanupRunners :: "loopMachine set" where
  "cleanupRunners = {startRetentionCleanupRunner, startArtifactDeletionRunner}"

inductive loopRun :: "loopMachine \<Rightarrow> loopSt \<Rightarrow> loopAct list \<Rightarrow> loopSt \<Rightarrow> bool" for m where
  noAct: "loopRun m s [] s"
| act: "snd m a s = Some s' \<Longrightarrow> loopRun m s' as s'' \<Longrightarrow> loopRun m s (a # as) s''"

inductive_cases loopRun_NilE [elim!]: "loopRun m s [] s'"
inductive_cases loopRun_ConsE: "loopRun m s (a # as) s'"
inductive_simps loopRun_simps: "loopRun m s [] s'" "loopRun m s (a # as) s'"

subsection \<open>The contract of a loop\<close>

text \<open>
  What the clients of a loop rely on, over any machine that keeps an invariant: at most one
  of \<open>timer pending\<close> and \<open>tick at work\<close>, one of the two until \<open>stop\<close>, none after it.
\<close>

definition loopOk :: "loopSt \<Rightarrow> bool" where
  "loopOk s \<longleftrightarrow> (lp_armed s \<longrightarrow> \<not> lp_stopped s \<and> \<not> lp_tickWaits s) \<and> (lp_tickWaits s \<longrightarrow> lp_inFlight s)
     \<and> (lp_stopWaits s \<longrightarrow> lp_stopped s \<and> lp_inFlight s) \<and> (lp_stopReturned s \<longrightarrow> lp_stopped s)"

definition loopLive :: "loopSt \<Rightarrow> bool" where
  "loopLive s \<longleftrightarrow> (lp_stopped s \<or> lp_armed s \<or> lp_tickWaits s)"

locale timer_loop =
  fixes tick once :: "loopSt \<Rightarrow> loopSt" and I :: "loopSt \<Rightarrow> bool"
  assumes I_init: "I loopInit"
    and I_tick: "I s \<Longrightarrow> lp_armed s \<Longrightarrow> I (tick (s\<lparr>lp_armed := False\<rparr>))"
    and I_settle: "I s \<Longrightarrow> lp_inFlight s \<Longrightarrow> I (settle s)"
    and I_once: "I s \<Longrightarrow> I (once s)"
    and I_stop: "I s \<Longrightarrow> I (stopLoop s)"
begin

lemma I_next [inv_intro]: "I s \<Longrightarrow> loopNext tick once a s = Some s' \<Longrightarrow> I s'"
  by (cases a) (auto simp: I_tick I_settle I_once I_stop split: if_splits)

lemma I_run: "loopRun (loopInit, loopNext tick once) s as s' \<Longrightarrow> I s \<Longrightarrow> I s'"
  by (induction rule: loopRun.induct) (auto intro: I_next)

lemma I_reach: "loopRun (loopInit, loopNext tick once) loopInit as s' \<Longrightarrow> I s'"
  by (rule I_run [OF _ I_init])

end

definition dispatcherInv :: "loopSt \<Rightarrow> bool" where
  "dispatcherInv s \<longleftrightarrow> loopOk s \<and> loopLive s \<and> (lp_inFlight s \<longleftrightarrow> lp_tickWaits s)
     \<and> (lp_stopReturned s \<longrightarrow> \<not> lp_inFlight s)"

interpretation disp: timer_loop dispatcherTick "\<lambda>s. s" dispatcherInv
  by unfold_locales (auto simp: dispatcherInv_def loopOk_def loopLive_def loop_defs)

interpretation clean: timer_loop cleanupTick runPass "\<lambda>s. loopOk s \<and> loopLive s"
  by unfold_locales (auto simp: loopOk_def loopLive_def loop_defs)

interpretation invit: timer_loop invitationTick runPass loopOk
  by unfold_locales (auto simp: loopOk_def loop_defs)

subsection \<open>Properties\<close>

lemma returned_stays:
  "loopNext dispatcherTick (\<lambda>s. s) a s = Some s' \<Longrightarrow> dispatcherInv s \<Longrightarrow> lp_stopReturned s \<Longrightarrow> lp_stopReturned s'"
  by (cases a) (auto simp: dispatcherInv_def loopOk_def loop_defs split: if_splits)

lemma returned_run:
  "loopRun (loopInit, loopNext dispatcherTick (\<lambda>s. s)) s as s' \<Longrightarrow> dispatcherInv s \<Longrightarrow> lp_stopReturned s \<Longrightarrow>
     lp_stopReturned s' \<and> dispatcherInv s'"
  by (induction rule: loopRun.induct) (auto intro: disp.I_next dest: returned_stays)

lemma dispatchers_machine: "m \<in> dispatchers \<Longrightarrow> m = (loopInit, loopNext dispatcherTick (\<lambda>s. s))"
  by (auto simp: dispatchers_def dispatcher_defs)



lemma dead_run:
  "loopRun (loopInit, loopNext invitationTick runPass) s as s' \<Longrightarrow> \<not> lp_armed s \<Longrightarrow> \<not> lp_tickWaits s \<Longrightarrow>
     \<not> lp_armed s' \<and> \<not> lp_tickWaits s'"
proof (induction rule: loopRun.induct)
  case (act a s s' as s'')
  then have "\<not> lp_armed s' \<and> \<not> lp_tickWaits s'"
    by (cases a) (auto simp: loop_defs split: if_splits)
  with act.IH show ?case by blast
qed simp

lemma cleanup_machine: "m \<in> cleanupRunners \<Longrightarrow> m = (loopInit, loopNext cleanupTick runPass)"
  by (auto simp: cleanupRunners_def cleanup_defs)

text \<open>
  The retention and artifact-deletion runners stay scheduled until they are stopped, also
  when a \<open>runOnce\<close> pass is in flight as the timer fires. The invitation runner does not: after
  \<open>runOnce\<close>, timer and end of pass it is neither stopped nor scheduled, and no later turn
  schedules it again.
\<close>

theorem cleanup_runner_liveness:
  assumes "m \<in> cleanupRunners" "loopRun m (fst m) as s"
  shows "(lp_stopped s \<or> lp_armed s \<or> lp_tickWaits s)
     \<and> (\<exists>s0. loopRun startExpiredInvitationCleanupRunner loopInit [RunOnce, TimerFires, PassSettles] s0
          \<and> \<not> lp_stopped s0
          \<and> {(as', s'). loopRun startExpiredInvitationCleanupRunner s0 as' s' \<and> (lp_armed s' \<or> lp_tickWaits s')} = {})"
proof
  show "lp_stopped s \<or> lp_armed s \<or> lp_tickWaits s"
    using assms(2) clean.I_reach unfolding cleanup_machine [OF assms(1)] by (auto simp: loopLive_def)
  let ?s0 = "\<lparr>lp_stopped = False, lp_armed = False, lp_inFlight = False,
     lp_tickWaits = False, lp_stopWaits = False, lp_stopReturned = False\<rparr>"
  have "loopRun startExpiredInvitationCleanupRunner loopInit [RunOnce, TimerFires, PassSettles] ?s0"
    by (simp add: loopRun_simps startExpiredInvitationCleanupRunner_def loop_defs)
  moreover have "{(as', s'). loopRun startExpiredInvitationCleanupRunner ?s0 as' s' \<and> (lp_armed s' \<or> lp_tickWaits s')} = {}"
    using dead_run [of ?s0] by (auto simp: startExpiredInvitationCleanupRunner_def)
  ultimately show "\<exists>s0. loopRun startExpiredInvitationCleanupRunner loopInit [RunOnce, TimerFires, PassSettles] s0
          \<and> \<not> lp_stopped s0
          \<and> {(as', s'). loopRun startExpiredInvitationCleanupRunner s0 as' s' \<and> (lp_armed s' \<or> lp_tickWaits s')} = {}"
    by (intro exI [of _ ?s0]) simp
qed

lemma cleanup_runner_liveness_witness:
  "\<exists>s. loopRun startRetentionCleanupRunner loopInit [RunOnce, TimerFires, PassSettles] s
     \<and> \<not> lp_stopped s \<and> (lp_armed s \<or> lp_tickWaits s)"
proof -
  obtain s where r: "loopRun startRetentionCleanupRunner (fst startRetentionCleanupRunner) [RunOnce, TimerFires, PassSettles] s"
      and n: "\<not> lp_stopped s"
    by (auto simp: loopRun_simps cleanup_defs loop_defs)
  have "startRetentionCleanupRunner \<in> cleanupRunners" by (simp add: cleanupRunners_def)
  from cleanup_runner_liveness [OF this r] n r show ?thesis by (auto simp: cleanup_defs)
qed

end
