(* ===== verification/Regex.thy ===== *)
theory Regex
  imports Prelude
begin

text \<open>
  The part of JavaScript's regular expressions the source uses, as a backtracking matcher: a
  match state is the text already passed (reversed), the text ahead and the captures, and a
  pattern maps a state to the list of its end states in the order the engine tries them.
  Quantifiers are greedy unless lazy; an iteration that consumes nothing is refused, so
  the length of the text ahead bounds their depth.
\<close>

subsection \<open>Patterns\<close>

datatype re =
    Emp
  | Chs "nat \<Rightarrow> bool"
  | Sq re re
  | Al re re
  | Star re
  | LazyStar re
  | WordB
  | InputEnd
  | NotAfter "nat \<Rightarrow> bool"
  | Ahead re
  | Grp nat re

type_synonym mst = "jstr \<times> jstr \<times> (nat \<times> jstr) list"

definition isWordChar :: "nat \<Rightarrow> bool" where "isWordChar c \<longleftrightarrow> isAlnum c \<or> c = 95"

definition startsWord :: "jstr \<Rightarrow> bool" where
  "startsWord s = (case s of [] \<Rightarrow> False | c # _ \<Rightarrow> isWordChar c)"

primrec starGreedy :: "(mst \<Rightarrow> mst list) \<Rightarrow> nat \<Rightarrow> mst \<Rightarrow> mst list" where
  "starGreedy m 0 st = [st]"
| "starGreedy m (Suc n) st =
     concat (map (\<lambda>st'. if length (fst (snd st')) < length (fst (snd st)) then starGreedy m n st' else []) (m st))
       @ [st]"

primrec starLazy :: "(mst \<Rightarrow> mst list) \<Rightarrow> nat \<Rightarrow> mst \<Rightarrow> mst list" where
  "starLazy m 0 st = [st]"
| "starLazy m (Suc n) st =
     st # concat (map (\<lambda>st'. if length (fst (snd st')) < length (fst (snd st)) then starLazy m n st' else []) (m st))"

primrec matches :: "re \<Rightarrow> mst \<Rightarrow> mst list" where
  "matches Emp st = [st]"
| "matches (Chs P) st =
     (case st of (p, x # s, c) \<Rightarrow> if P x then [(x # p, s, c)] else [] | (p, [], c) \<Rightarrow> [])"
| "matches (Sq r q) st = concat (map (matches q) (matches r st))"
| "matches (Al r q) st = matches r st @ matches q st"
| "matches (Star r) st = starGreedy (matches r) (length (fst (snd st))) st"
| "matches (LazyStar r) st = starLazy (matches r) (length (fst (snd st))) st"
| "matches WordB st = (if startsWord (fst st) \<noteq> startsWord (fst (snd st)) then [st] else [])"
| "matches InputEnd st = (if fst (snd st) = [] then [st] else [])"
| "matches (NotAfter P) st = (case fst st of x # _ \<Rightarrow> if P x then [] else [st] | [] \<Rightarrow> [st])"
| "matches (Ahead r) st =
     (case matches r st of [] \<Rightarrow> [] | (_, _, c) # _ \<Rightarrow> [(fst st, fst (snd st), c)])"
| "matches (Grp n r) st =
     map (\<lambda>(p', s', c'). (p', s', (n, take (length (fst (snd st)) - length s') (fst (snd st))) # c')) (matches r st)"

subsection \<open>Derived forms\<close>

definition Plus :: "re \<Rightarrow> re" where "Plus r = Sq r (Star r)"
definition Opt :: "re \<Rightarrow> re" where "Opt r = Al r Emp"
definition anyOf :: "nat list \<Rightarrow> re" where "anyOf cs = Chs (\<lambda>c. c \<in> set cs)"

primrec Rep :: "nat \<Rightarrow> re \<Rightarrow> re" where
  "Rep 0 r = Emp"
| "Rep (Suc n) r = Sq r (Rep n r)"

primrec OptN :: "nat \<Rightarrow> re \<Rightarrow> re" where
  "OptN 0 r = Emp"
| "OptN (Suc n) r = Opt (Sq r (OptN n r))"

definition AtLeast :: "nat \<Rightarrow> re \<Rightarrow> re" where "AtLeast n r = Sq (Rep n r) (Star r)"
definition Between :: "nat \<Rightarrow> nat \<Rightarrow> re \<Rightarrow> re" where "Between n m r = Sq (Rep n r) (OptN (m - n) r)"

primrec Lit :: "jstr \<Rightarrow> re" where
  "Lit [] = Emp"
| "Lit (x # xs) = Sq (Chs (\<lambda>c. c = x)) (Lit xs)"

text \<open>With the flag \<open>i\<close>: the patterns contain ASCII only, and ASCII folds to ASCII only.\<close>

definition foldCase :: "nat \<Rightarrow> nat" where "foldCase c = (if isUpper c then c + 32 else c)"

primrec LitI :: "jstr \<Rightarrow> re" where
  "LitI [] = Emp"
| "LitI (x # xs) = Sq (Chs (\<lambda>c. foldCase c = foldCase x)) (LitI xs)"

primrec alts :: "re \<Rightarrow> re list \<Rightarrow> re" where
  "alts r [] = r"
| "alts r (q # qs) = Al r (alts q qs)"

primrec seqs :: "re list \<Rightarrow> re" where
  "seqs [] = Emp"
| "seqs (r # rs) = Sq r (seqs rs)"

abbreviation Ws :: re where "Ws \<equiv> Chs isWs"
abbreviation NonWs :: re where "NonWs \<equiv> Chs (\<lambda>c. \<not> isWs c)"
abbreviation Digit :: re where "Digit \<equiv> Chs isDigit"

subsection \<open>Searching and replacing\<close>

definition matchAt :: "re \<Rightarrow> jstr \<Rightarrow> jstr \<Rightarrow> mst option" where
  "matchAt r pre suf = (case matches r (pre, suf, []) of [] \<Rightarrow> None | st # _ \<Rightarrow> Some st)"

fun searchFrom :: "re \<Rightarrow> jstr \<Rightarrow> jstr \<Rightarrow> bool" where
  "searchFrom r pre [] = (matchAt r pre [] \<noteq> None)"
| "searchFrom r pre (x # s) = (matchAt r pre (x # s) \<noteq> None \<or> searchFrom r (x # pre) s)"

definition test :: "re \<Rightarrow> jstr \<Rightarrow> bool" where "test r s = searchFrom r [] s"

text \<open>
  \<open>s.replace(/r/g, f)\<close>: \<open>f\<close> gets the matched text and the captures. After a non-empty match
  the search goes on behind it; after an empty one, one unit further.
\<close>

function replaceFrom :: "re \<Rightarrow> (jstr \<Rightarrow> (nat \<times> jstr) list \<Rightarrow> jstr) \<Rightarrow> jstr \<Rightarrow> jstr \<Rightarrow> jstr" where
  "replaceFrom r f pre s =
     (case matchAt r pre s of
        Some (pre', s', caps) \<Rightarrow>
          if length s' < length s
          then f (take (length s - length s') s) caps @ replaceFrom r f pre' s'
          else f [] caps @ (case s of [] \<Rightarrow> [] | x # xs \<Rightarrow> x # replaceFrom r f (x # pre) xs)
      | None \<Rightarrow> (case s of [] \<Rightarrow> [] | x # xs \<Rightarrow> x # replaceFrom r f (x # pre) xs))"
  by pat_completeness auto
termination
  by (relation "measure (\<lambda>(r, f, pre, s). length s)") auto

declare replaceFrom.simps [simp del]

definition replaceAll :: "re \<Rightarrow> (jstr \<Rightarrow> (nat \<times> jstr) list \<Rightarrow> jstr) \<Rightarrow> jstr \<Rightarrow> jstr" where
  "replaceAll r f s = replaceFrom r f [] s"

definition groupOf :: "nat \<Rightarrow> (nat \<times> jstr) list \<Rightarrow> jstr" where
  "groupOf n caps = (case map_of caps n of Some s \<Rightarrow> s | None \<Rightarrow> [])"

subsection \<open>The text behind a match\<close>

text \<open>A match passes a piece of the text ahead and nothing else.\<close>

definition passes :: "mst \<Rightarrow> mst \<Rightarrow> bool" where
  "passes st st' \<longleftrightarrow> (\<exists>w. fst (snd st) = w @ fst (snd st') \<and> fst st' = rev w @ fst st)"

lemma passes_refl [simp]: "passes st st"
  by (simp add: passes_def)

lemma passes_trans: "passes a b \<Longrightarrow> passes b c \<Longrightarrow> passes a c"
  unfolding passes_def by (metis append.assoc rev_append)

lemma starGreedy_passes:
  assumes "\<And>st st'. st' \<in> set (m st) \<Longrightarrow> passes st st'"
  shows "st' \<in> set (starGreedy m n st) \<Longrightarrow> passes st st'"
proof (induction n arbitrary: st)
  case (Suc n)
  then consider "st' = st" | u where "u \<in> set (m st)" "st' \<in> set (starGreedy m n u)"
    by (auto split: if_splits)
  then show ?case by cases (auto intro: passes_trans [OF assms Suc.IH])
qed simp

lemma starLazy_passes:
  assumes "\<And>st st'. st' \<in> set (m st) \<Longrightarrow> passes st st'"
  shows "st' \<in> set (starLazy m n st) \<Longrightarrow> passes st st'"
proof (induction n arbitrary: st)
  case (Suc n)
  then consider "st' = st" | u where "u \<in> set (m st)" "st' \<in> set (starLazy m n u)"
    by (auto split: if_splits)
  then show ?case by cases (auto intro: passes_trans [OF assms Suc.IH])
qed simp

lemma matches_passes: "st' \<in> set (matches r st) \<Longrightarrow> passes st st'"
proof (induction r arbitrary: st st')
  case (Chs P)
  then show ?case by (auto simp: passes_def split: list.splits prod.splits if_splits)
next
  case (Sq r q)
  then obtain u where "u \<in> set (matches r st)" "st' \<in> set (matches q u)" by auto
  with Sq.IH show ?case by (blast intro: passes_trans)
next
  case (Star r)
  from starGreedy_passes [OF Star.IH] Star.prems show ?case by simp
next
  case (LazyStar r)
  from starLazy_passes [OF LazyStar.IH] LazyStar.prems show ?case by simp
next
  case (NotAfter P)
  then show ?case by (auto split: list.splits if_splits)
next
  case (Ahead r)
  then show ?case by (auto simp: passes_def split: list.splits)
next
  case (Grp n r)
  then obtain p' s' c' where "(p', s', c') \<in> set (matches r st)" "fst st' = p'" "fst (snd st') = s'"
    by auto
  with Grp.IH [of "(p', s', c')" st] show ?case by (simp add: passes_def)
qed (auto split: if_splits)

lemma matchAt_passes:
  "matchAt r pre s = Some (pre', s', caps) \<Longrightarrow> \<exists>w. s = w @ s' \<and> pre' = rev w @ pre"
proof -
  assume "matchAt r pre s = Some (pre', s', caps)"
  then have "(pre', s', caps) \<in> set (matches r (pre, s, []))"
    by (auto simp: matchAt_def split: list.splits)
  from matches_passes [OF this] show ?thesis by (simp add: passes_def)
qed

subsection \<open>Facts about replacing\<close>

lemma replaceFrom_no_match:
  "\<not> searchFrom r pre s \<Longrightarrow> replaceFrom r f pre s = s"
proof (induction r pre s rule: searchFrom.induct)
  case (1 r pre)
  then have "matchAt r pre [] = None" by (simp only: searchFrom.simps not_not)
  then show ?case by (subst replaceFrom.simps) simp
next
  case (2 r pre x s)
  then have "matchAt r pre (x # s) = None" "replaceFrom r f (x # pre) s = s"
    by (simp_all only: searchFrom.simps de_Morgan_disj not_not simp_thms)
  then show ?case by (subst replaceFrom.simps) simp
qed

lemma replaceAll_no_match: "\<not> test r s \<Longrightarrow> replaceAll r f s = s"
  by (simp add: test_def replaceAll_def replaceFrom_no_match)

text \<open>Every unit of the result comes from the text or from a replacement.\<close>


subsection \<open>Units a match cannot do without\<close>

text \<open>Every match of \<open>r\<close> passes a unit of \<open>A\<close>; read off the pattern.\<close>

primrec needs :: "re \<Rightarrow> nat set \<Rightarrow> bool" where
  "needs Emp A = False"
| "needs (Chs P) A = (\<forall>c. P c \<longrightarrow> c \<in> A)"
| "needs (Sq r q) A = (needs r A \<or> needs q A)"
| "needs (Al r q) A = (needs r A \<and> needs q A)"
| "needs (Star r) A = False"
| "needs (LazyStar r) A = False"
| "needs WordB A = False"
| "needs InputEnd A = False"
| "needs (NotAfter P) A = False"
| "needs (Ahead r) A = False"
| "needs (Grp n r) A = needs r A"

lemma needs_match:
  "needs r A \<Longrightarrow> st' \<in> set (matches r st) \<Longrightarrow> set (fst (snd st)) \<inter> A \<noteq> {}"
proof (induction r arbitrary: st st')
  case (Chs P)
  then show ?case by (auto split: list.splits prod.splits if_splits)
next
  case (Sq r q)
  then obtain u where u: "u \<in> set (matches r st)" "st' \<in> set (matches q u)" by auto
  from matches_passes [OF u(1)] have "set (fst (snd u)) \<subseteq> set (fst (snd st))"
    by (auto simp: passes_def)
  moreover have "set (fst (snd st)) \<inter> A \<noteq> {} \<or> set (fst (snd u)) \<inter> A \<noteq> {}"
    using Sq.prems(1) Sq.IH(1) [OF _ u(1)] Sq.IH(2) [OF _ u(2)] by auto
  ultimately show ?case by blast
next
  case (Al r q)
  from Al.prems have "st' \<in> set (matches r st) \<or> st' \<in> set (matches q st)" "needs r A" "needs q A"
    by auto
  with Al.IH [of st' st] show ?case by blast
next
  case (Grp n r)
  then obtain u where "u \<in> set (matches r st)" by auto
  with Grp show ?case by simp
qed auto

lemma needs_Rep: "needs (Rep n r) A \<longleftrightarrow> 0 < n \<and> needs r A"
  by (induction n) auto

lemma star_numeral [simp]:
  "starGreedy m (numeral k) st =
     concat (map (\<lambda>st'. if length (fst (snd st')) < length (fst (snd st))
        then starGreedy m (pred_numeral k) st' else []) (m st)) @ [st]"
  "starLazy m (numeral k) st =
     st # concat (map (\<lambda>st'. if length (fst (snd st')) < length (fst (snd st))
        then starLazy m (pred_numeral k) st' else []) (m st))"
  by (simp_all only: numeral_eq_Suc starGreedy.simps starLazy.simps)

lemma needs_simps [simp]:
  "needs (Plus r) A \<longleftrightarrow> needs r A"
  "needs (Opt r) A \<longleftrightarrow> False"
  "needs (anyOf cs) A \<longleftrightarrow> set cs \<subseteq> A"
  "needs (AtLeast n r) A \<longleftrightarrow> 0 < n \<and> needs r A"
  by (auto simp: Plus_def Opt_def anyOf_def AtLeast_def needs_Rep)

lemma needs_Between: "0 < n \<Longrightarrow> needs r A \<Longrightarrow> needs (Between n m r) A"
  by (simp add: Between_def needs_Rep)

lemma Rep_numeral [simp]: "Rep (numeral k) r = Sq r (Rep (pred_numeral k) r)"
  by (simp add: numeral_eq_Suc)

lemma needs_seqs: "needs (seqs rs) A \<longleftrightarrow> (\<exists>r \<in> set rs. needs r A)"
  by (induction rs) auto

lemma needs_LitI: "x \<in> set s \<Longrightarrow> {c. foldCase c = foldCase x} \<subseteq> A \<Longrightarrow> needs (LitI s) A"
  by (induction s) auto

lemma needs_no_test:
  assumes "needs r A"
  shows "set s \<inter> A = {} \<Longrightarrow> \<not> searchFrom r pre s"
proof (induction s arbitrary: pre)
  case Nil
  have "matches r (pre, [], []) = []"
    using needs_match [OF assms, of _ "(pre, [], [])"] by (cases "matches r (pre, [], [])") auto
  then show ?case by (simp add: matchAt_def)
next
  case (Cons x s)
  have "matches r (pre, x # s, []) = []"
    using needs_match [OF assms, of _ "(pre, x # s, [])"] Cons.prems
    by (cases "matches r (pre, x # s, [])") auto
  with Cons show ?case by (simp add: matchAt_def)
qed

lemma needs_replaceAll: "needs r A \<Longrightarrow> set s \<inter> A = {} \<Longrightarrow> replaceAll r f s = s"
  by (simp add: replaceAll_no_match test_def needs_no_test)

text \<open>Evaluation of a pattern on a literal text by the simplifier.\<close>

lemmas regex_eval = seqs.simps alts.simps Plus_def Opt_def anyOf_def AtLeast_def Between_def OptN.simps
  replaceAll_def replaceFrom.simps test_def matchAt_def startsWord_def isWordChar_def foldCase_def
  isUpper_def isLower_def isDigit_def isWs_def groupOf_def

end
