(* ===== verification/Utf8.thy ===== *)
theory Utf8
  imports Prelude
begin

text \<open>
  The text codecs the source takes from its platform: \<open>TextEncoder\<close> and the fatal
  \<open>TextDecoder\<close> for UTF-8. A JavaScript string is a list of UTF-16 code units; a byte string
  is a list of numbers below 256. The lemmas describe the prefixes of an encoded text that
  decode again: exactly those that end between two characters.
\<close>

subsection \<open>Code points\<close>

definition isHighSurrogate :: "nat \<Rightarrow> bool" where "isHighSurrogate c \<longleftrightarrow> 55296 \<le> c \<and> c \<le> 56319"
definition isLowSurrogate :: "nat \<Rightarrow> bool" where "isLowSurrogate c \<longleftrightarrow> 56320 \<le> c \<and> c \<le> 57343"

definition scalar :: "nat \<Rightarrow> bool" where
  "scalar c \<longleftrightarrow> c < 55296 \<or> 57344 \<le> c \<and> c < 1114112"

text \<open>A lone surrogate becomes the replacement character.\<close>

definition loneUnit :: "nat \<Rightarrow> nat" where
  "loneUnit a = (if isHighSurrogate a \<or> isLowSurrogate a then 65533 else a)"

fun codePoints :: "jstr \<Rightarrow> nat list" where
  "codePoints [] = []"
| "codePoints [a] = [loneUnit a]"
| "codePoints (a # b # r) =
     (if isHighSurrogate a \<and> isLowSurrogate b
      then (65536 + (a - 55296) * 1024 + (b - 56320)) # codePoints r
      else loneUnit a # codePoints (b # r))"

fun toUnits :: "nat list \<Rightarrow> jstr" where
  "toUnits [] = []"
| "toUnits (c # cs) =
     (if c < 65536 then c # toUnits cs
      else (55296 + (c - 65536) div 1024) # (56320 + (c - 65536) mod 1024) # toUnits cs)"

subsection \<open>UTF-8\<close>

definition encodeCp :: "nat \<Rightarrow> nat list" where
  "encodeCp c =
     (if c < 128 then [c]
      else if c < 2048 then [192 + c div 64, 128 + c mod 64]
      else if c < 65536 then [224 + c div 4096, 128 + c div 64 mod 64, 128 + c mod 64]
      else [240 + c div 262144, 128 + c div 4096 mod 64, 128 + c div 64 mod 64, 128 + c mod 64])"

definition encodeCps :: "nat list \<Rightarrow> nat list" where "encodeCps cs = concat (map encodeCp cs)"

definition utf8 :: "jstr \<Rightarrow> nat list" where "utf8 s = encodeCps (codePoints s)"

definition cont :: "nat \<Rightarrow> bool" where "cont b \<longleftrightarrow> 128 \<le> b \<and> b < 192"

text \<open>The strict decoder: no overlong form, no surrogate, nothing above \<open>0x10FFFF\<close>.\<close>

fun decode1 :: "nat list \<Rightarrow> (nat \<times> nat list) option" where
  "decode1 [] = None"
| "decode1 (a # r) =
     (if a < 128 then Some (a, r)
      else if 194 \<le> a \<and> a < 224 then
        (case r of b # r' \<Rightarrow> if cont b then Some ((a - 192) * 64 + (b - 128), r') else None | _ \<Rightarrow> None)
      else if 224 \<le> a \<and> a < 240 then
        (case r of b # c # r' \<Rightarrow>
            (let v = (a - 224) * 4096 + (b - 128) * 64 + (c - 128) in
             if cont b \<and> cont c \<and> 2048 \<le> v \<and> scalar v then Some (v, r') else None)
         | _ \<Rightarrow> None)
      else if 240 \<le> a \<and> a < 245 then
        (case r of b # c # d # r' \<Rightarrow>
            (let v = (a - 240) * 262144 + (b - 128) * 4096 + (c - 128) * 64 + (d - 128) in
             if cont b \<and> cont c \<and> cont d \<and> 65536 \<le> v \<and> scalar v then Some (v, r') else None)
         | _ \<Rightarrow> None)
      else None)"

lemma decode1_shorter: "decode1 bs = Some (c, r) \<Longrightarrow> length r < length bs"
  by (cases bs) (auto simp: Let_def split: if_splits list.splits)

function decodeCps :: "nat list \<Rightarrow> nat list option" where
  "decodeCps bs =
     (if bs = [] then Some []
      else case decode1 bs of
        None \<Rightarrow> None
      | Some (c, r) \<Rightarrow> map_option ((#) c) (decodeCps r))"
  by pat_completeness auto
termination
  by (relation "measure length") (auto dest: decode1_shorter)

declare decodeCps.simps [simp del]

lemma decodeCps_Nil [simp]: "decodeCps [] = Some []" by (simp add: decodeCps.simps)

text \<open>\<open>new TextDecoder("utf-8", { fatal: true }).decode\<close> drops a leading byte order mark.\<close>

definition stripBom :: "nat list \<Rightarrow> nat list" where
  "stripBom cs = (case cs of c # r \<Rightarrow> if c = 65279 then r else cs | [] \<Rightarrow> [])"

definition decodeText :: "nat list \<Rightarrow> jstr option" where
  "decodeText bs = map_option (\<lambda>cs. toUnits (stripBom cs)) (decodeCps bs)"

subsection \<open>Encoding then decoding\<close>

lemma encodeCp_nonempty [simp]: "encodeCp c \<noteq> []" "encodeCp c = [] \<longleftrightarrow> False"
  by (simp_all add: encodeCp_def)

lemma length_encodeCp: "1 \<le> length (encodeCp c) \<and> length (encodeCp c) \<le> 4"
  by (simp add: encodeCp_def)

lemma encodeCps_simps [simp]:
  "encodeCps [] = []" "encodeCps (c # cs) = encodeCp c @ encodeCps cs"
  "encodeCps (xs @ ys) = encodeCps xs @ encodeCps ys"
  by (simp_all add: encodeCps_def)

lemma div_mod_64: "(c::nat) div 64 * 64 + c mod 64 = c" by simp

lemma three_digits: "(c::nat) div 4096 * 4096 + c div 64 mod 64 * 64 + c mod 64 = c"
proof -
  have "c div 4096 = c div 64 div 64" by (simp add: div_mult2_eq)
  then have "c div 4096 * 64 + c div 64 mod 64 = c div 64" by simp
  then have "(c div 4096 * 64 + c div 64 mod 64) * 64 + c mod 64 = c"
    by (simp only: div_mod_64)
  then show ?thesis by (simp add: algebra_simps)
qed

lemma four_digits: "(c::nat) div 262144 * 262144 + c div 4096 mod 64 * 4096 + c div 64 mod 64 * 64 + c mod 64 = c"
proof -
  have "c div 262144 = c div 64 div 4096" "c div 4096 = c div 64 div 64" by (simp_all add: div_mult2_eq [symmetric])
  then have "c div 262144 * 4096 + c div 4096 mod 64 * 64 + c div 64 mod 64 = c div 64"
    using three_digits [of "c div 64"] by simp
  then have "(c div 262144 * 4096 + c div 4096 mod 64 * 64 + c div 64 mod 64) * 64 + c mod 64 = c"
    by (simp only: div_mod_64)
  then show ?thesis by (simp add: algebra_simps)
qed

lemma decode1_encodeCp:
  assumes "scalar c" shows "decode1 (encodeCp c @ r) = Some (c, r)"
proof -
  consider "c < 128" | "128 \<le> c" "c < 2048" | "2048 \<le> c" "c < 65536" | "65536 \<le> c" "c < 1114112"
    using assms by (fastforce simp: scalar_def)
  then show ?thesis
  proof cases
    case 1
    then show ?thesis by (simp add: encodeCp_def)
  next
    case 2
    then have "2 \<le> c div 64" "c div 64 < 32" by auto
    with 2 show ?thesis by (simp add: encodeCp_def cont_def)
  next
    case 3
    then have "c div 4096 < 16" by auto
    with 3 assms three_digits [of c] show ?thesis by (simp add: encodeCp_def cont_def Let_def)
  next
    case 4
    then have "c div 262144 < 5" by auto
    with 4 assms four_digits [of c] show ?thesis by (simp add: encodeCp_def cont_def Let_def)
  qed
qed

lemma decodeCps_append:
  "\<forall>c \<in> set cs. scalar c \<Longrightarrow> decodeCps (encodeCps cs @ r) = map_option (\<lambda>ds. cs @ ds) (decodeCps r)"
proof (induction cs)
  case Nil
  then show ?case by (simp add: option.map_ident)
next
  case (Cons c cs)
  have "decodeCps (encodeCps (c # cs) @ r) = map_option ((#) c) (decodeCps (encodeCps cs @ r))"
    using Cons.prems by (subst decodeCps.simps) (simp add: decode1_encodeCp)
  with Cons show ?case by (simp add: option.map_comp comp_def)
qed

lemma decodeCps_encodeCps: "\<forall>c \<in> set cs. scalar c \<Longrightarrow> decodeCps (encodeCps cs) = Some cs"
  using decodeCps_append [of cs "[]"] by simp

text \<open>A proper, non-empty piece of one character does not decode.\<close>

lemma decode1_short:
  "128 \<le> x \<Longrightarrow> decode1 [x] = None"
  "224 \<le> x \<Longrightarrow> decode1 [x, y] = None"
  "240 \<le> x \<Longrightarrow> decode1 [x, y, z] = None"
  by simp_all

lemma encodeCp_shape:
  "(\<exists>x. encodeCp c = [x]) \<or> (\<exists>x y. encodeCp c = [x, y] \<and> 128 \<le> x)
   \<or> (\<exists>x y z. encodeCp c = [x, y, z] \<and> 224 \<le> x) \<or> (\<exists>x y z w. encodeCp c = [x, y, z, w] \<and> 240 \<le> x)"
  by (simp add: encodeCp_def)

lemma decode1_partial:
  assumes "0 < k" "k < length (encodeCp c)" shows "decode1 (take k (encodeCp c)) = None"
proof -
  have k: "k = 1 \<or> k = 2 \<or> k = 3"
    using assms length_encodeCp [of c] by linarith
  consider x where "encodeCp c = [x]" | x y where "encodeCp c = [x, y]" "128 \<le> x"
    | x y z where "encodeCp c = [x, y, z]" "224 \<le> x" | x y z w where "encodeCp c = [x, y, z, w]" "240 \<le> x"
    using encodeCp_shape [of c] by blast
  then show ?thesis
    by cases (use k assms decode1_short in \<open>auto simp: take_Cons' simp del: decode1.simps\<close>)
qed

subsection \<open>Which prefixes decode\<close>

definition wf16 :: "jstr \<Rightarrow> bool" where "wf16 s \<longleftrightarrow> (\<forall>u \<in> set s. u < 65536)"

lemma scalar_codePoints: "wf16 s \<Longrightarrow> \<forall>c \<in> set (codePoints s). scalar c"
  by (induction s rule: codePoints.induct)
     (auto simp: wf16_def scalar_def loneUnit_def isHighSurrogate_def isLowSurrogate_def)

definition boundary :: "nat list \<Rightarrow> nat \<Rightarrow> bool" where
  "boundary cs k \<longleftrightarrow> (\<exists>j \<le> length cs. k = length (encodeCps (take j cs)))"

lemma boundary_simps [simp]: "boundary cs 0" "boundary [] k \<longleftrightarrow> k = 0"
  by (auto simp: boundary_def intro: exI [of _ 0])

lemma boundary_Cons:
  "boundary (c # cs) k \<longleftrightarrow> k = 0 \<or> (\<exists>k'. k = length (encodeCp c) + k' \<and> boundary cs k')"
proof
  assume "boundary (c # cs) k"
  then obtain j where j: "j \<le> length (c # cs)" "k = length (encodeCps (take j (c # cs)))"
    by (auto simp: boundary_def)
  show "k = 0 \<or> (\<exists>k'. k = length (encodeCp c) + k' \<and> boundary cs k')"
    using j by (cases j) (auto simp: boundary_def)
next
  assume "k = 0 \<or> (\<exists>k'. k = length (encodeCp c) + k' \<and> boundary cs k')"
  then show "boundary (c # cs) k"
  proof
    assume "\<exists>k'. k = length (encodeCp c) + k' \<and> boundary cs k'"
    then obtain j where "j \<le> length cs" "k = length (encodeCp c) + length (encodeCps (take j cs))"
      by (auto simp: boundary_def)
    then show ?thesis unfolding boundary_def by (intro exI [of _ "Suc j"]) simp
  qed simp
qed

lemma decodeCps_partial:
  assumes "0 < k" "k < length (encodeCp c)" shows "decodeCps (take k (encodeCp c)) = None"
proof -
  have "take k (encodeCp c) \<noteq> []" using assms by auto
  then show ?thesis by (subst decodeCps.simps) (simp add: decode1_partial [OF assms])
qed

lemma decodes_iff_boundary:
  "\<forall>c \<in> set cs. scalar c \<Longrightarrow> k \<le> length (encodeCps cs) \<Longrightarrow>
     (decodeCps (take k (encodeCps cs)) \<noteq> None) \<longleftrightarrow> boundary cs k"
proof (induction cs arbitrary: k)
  case Nil
  then show ?case by simp
next
  case (Cons c cs)
  show ?case
  proof (cases "k < length (encodeCp c)")
    case True
    then have t: "take k (encodeCps (c # cs)) = take k (encodeCp c)" by simp
    show ?thesis
    proof (cases "k = 0")
      case False
      with True have "decodeCps (take k (encodeCp c)) = None" by (simp add: decodeCps_partial)
      with t True False show ?thesis by (auto simp: boundary_Cons)
    qed simp
  next
    case False
    then have t: "take k (encodeCps (c # cs)) = encodeCps [c] @ take (k - length (encodeCp c)) (encodeCps cs)"
      by simp
    have "decodeCps (take k (encodeCps (c # cs)))
        = map_option (\<lambda>ds. [c] @ ds) (decodeCps (take (k - length (encodeCp c)) (encodeCps cs)))"
      unfolding t by (rule decodeCps_append) (use Cons.prems in simp)
    moreover have "(decodeCps (take (k - length (encodeCp c)) (encodeCps cs)) \<noteq> None)
        \<longleftrightarrow> boundary cs (k - length (encodeCp c))"
      using Cons.prems False by (intro Cons.IH) auto
    moreover have "boundary (c # cs) k \<longleftrightarrow> boundary cs (k - length (encodeCp c))"
      using False length_encodeCp [of c] by (auto simp: boundary_Cons intro: exI [of _ "k - length (encodeCp c)"])
    ultimately show ?thesis by simp
  qed
qed

lemma decodeCps_take:
  assumes "\<forall>c \<in> set cs. scalar c" "j \<le> length cs"
  shows "decodeCps (take (length (encodeCps (take j cs))) (encodeCps cs)) = Some (take j cs)"
proof -
  have "encodeCps cs = encodeCps (take j cs) @ encodeCps (drop j cs)"
    by (metis append_take_drop_id encodeCps_simps(3))
  then have "take (length (encodeCps (take j cs))) (encodeCps cs) = encodeCps (take j cs)" by simp
  moreover have "\<forall>c \<in> set (take j cs). scalar c" using assms(1) by (auto dest: in_set_takeD)
  ultimately show ?thesis by (simp add: decodeCps_encodeCps)
qed

lemma decodeText_iff: "decodeText bs = None \<longleftrightarrow> decodeCps bs = None"
  by (simp add: decodeText_def)

text \<open>Text without a byte order mark survives an encode and a decode.\<close>

lemma toUnits_append: "toUnits (xs @ ys) = toUnits xs @ toUnits ys"
  by (induction xs rule: toUnits.induct) auto

fun wellPaired :: "jstr \<Rightarrow> bool" where
  "wellPaired [] = True"
| "wellPaired [a] = (\<not> isHighSurrogate a \<and> \<not> isLowSurrogate a)"
| "wellPaired (a # b # r) =
     (if isHighSurrogate a \<and> isLowSurrogate b then wellPaired r
      else \<not> isHighSurrogate a \<and> \<not> isLowSurrogate a \<and> wellPaired (b # r))"

lemma toUnits_codePoints: "wf16 s \<Longrightarrow> wellPaired s \<Longrightarrow> toUnits (codePoints s) = s"
proof (induction s rule: codePoints.induct)
  case (3 a b r)
  show ?case
  proof (cases "isHighSurrogate a \<and> isLowSurrogate b")
    case True
    then have xy: "a = 55296 + (a - 55296)" "a - 55296 < 1024" "b = 56320 + (b - 56320)" "b - 56320 < 1024"
      by (auto simp: isHighSurrogate_def isLowSurrogate_def)
    define x y where "x = a - 55296" and "y = b - 56320"
    have "(x * 1024 + y) div 1024 = x" "(x * 1024 + y) mod 1024 = y"
      using xy(2,4) by (simp_all add: x_def [symmetric] y_def [symmetric])
    then have "toUnits ((65536 + x * 1024 + y) # codePoints r) = a # b # toUnits (codePoints r)"
      using xy by (simp add: x_def y_def)
    moreover have "codePoints (a # b # r) = (65536 + x * 1024 + y) # codePoints r"
      using True by (simp only: codePoints.simps x_def y_def if_True simp_thms)
    moreover have "toUnits (codePoints r) = r" using 3 True by (simp add: wf16_def)
    ultimately show ?thesis by (simp only:)
  next
    case False
    with 3 show ?thesis by (auto simp: wf16_def loneUnit_def)
  qed
qed (auto simp: wf16_def loneUnit_def)

subsection \<open>Decoding then encoding\<close>

lemma low_digit: "(w::nat) < 64 \<Longrightarrow> (n * 64 + w) div 64 = n" "(w::nat) < 64 \<Longrightarrow> (n * 64 + w) mod 64 = w"
  by simp_all

lemma encode_two:
  assumes "194 \<le> a" "a < 224" "cont b"
  shows "encodeCp ((a - 192) * 64 + (b - 128)) = [a, b] \<and> scalar ((a - 192) * 64 + (b - 128))"
proof -
  define x y where "x = a - 192" and "y = b - 128"
  have "a = 192 + x" "b = 128 + y" "2 \<le> x" "x < 32" "y < 64"
    using assms by (auto simp: x_def y_def cont_def)
  then show ?thesis by (simp add: x_def [symmetric] y_def [symmetric] encodeCp_def scalar_def)
qed

lemma encode_three:
  assumes "224 \<le> a" "a < 240" "cont b" "cont c" "v = (a - 224) * 4096 + (b - 128) * 64 + (c - 128)" "2048 \<le> v"
  shows "encodeCp v = [a, b, c]"
proof -
  define x y z where "x = a - 224" and "y = b - 128" and "z = c - 128"
  have e: "a = 224 + x" "b = 128 + y" "c = 128 + z" "x < 16" "y < 64" "z < 64"
    using assms by (auto simp: x_def y_def z_def cont_def)
  have v: "v = (x * 64 + y) * 64 + z"
    using assms(5) by (simp add: x_def y_def z_def)
  have "v div 64 = x * 64 + y" "v mod 64 = z" unfolding v by (simp_all only: low_digit e(6))
  note one = this
  have "v div 4096 = x"
  proof -
    have "v div 4096 = v div 64 div 64" by (simp add: div_mult2_eq [symmetric])
    then show ?thesis by (simp only: one low_digit e(5))
  qed
  moreover have "v div 64 mod 64 = y" by (simp only: one low_digit e(5))
  moreover have "v < 65536" using v e(4-6) by simp
  ultimately show ?thesis using one(2) assms(6) e(1-3) by (simp add: encodeCp_def)
qed

lemma encode_four:
  assumes "240 \<le> a" "a < 245" "cont b" "cont c" "cont d"
    and "v = (a - 240) * 262144 + (b - 128) * 4096 + (c - 128) * 64 + (d - 128)" "65536 \<le> v"
  shows "encodeCp v = [a, b, c, d]"
proof -
  define x y z w where "x = a - 240" and "y = b - 128" and "z = c - 128" and "w = d - 128"
  have e: "a = 240 + x" "b = 128 + y" "c = 128 + z" "d = 128 + w" "x < 5" "y < 64" "z < 64" "w < 64"
    using assms by (auto simp: x_def y_def z_def w_def cont_def)
  have v: "v = ((x * 64 + y) * 64 + z) * 64 + w"
    using assms(6) by (simp add: x_def y_def z_def w_def)
  have one: "v div 64 = (x * 64 + y) * 64 + z" "v mod 64 = w" unfolding v by (simp_all only: low_digit e(8))
  have two: "v div 4096 = x * 64 + y"
  proof -
    have "v div 4096 = v div 64 div 64" by (simp add: div_mult2_eq [symmetric])
    then show ?thesis by (simp only: one low_digit e(7))
  qed
  have "v div 262144 = x"
  proof -
    have "v div 262144 = v div 4096 div 64" by (simp add: div_mult2_eq [symmetric])
    then show ?thesis by (simp only: two low_digit e(6))
  qed
  moreover have "v div 64 mod 64 = z" "v div 4096 mod 64 = y" by (simp_all only: one two low_digit e(6,7))
  ultimately show ?thesis using one(2) assms(7) e(1-4) by (simp add: encodeCp_def)
qed

lemma decode1_SomeD:
  assumes "decode1 bs = Some (v, r)" shows "bs = encodeCp v @ r \<and> scalar v"
proof -
  obtain a s where bs: "bs = a # s" using assms by (cases bs) auto
  consider "a < 128" | "194 \<le> a" "a < 224" | "224 \<le> a" "a < 240" | "240 \<le> a" "a < 245"
    using assms unfolding bs by (auto split: if_splits)
  then show ?thesis
  proof cases
    case 1
    with assms bs show ?thesis by (auto simp: encodeCp_def scalar_def)
  next
    case 2
    with assms bs obtain b where "s = b # r" "cont b" "v = (a - 192) * 64 + (b - 128)"
      by (auto split: list.splits if_splits)
    with encode_two [OF 2 this(2)] bs show ?thesis by simp
  next
    case 3
    with assms bs obtain b c where s: "s = b # c # r" "cont b" "cont c"
      "v = (a - 224) * 4096 + (b - 128) * 64 + (c - 128)" "2048 \<le> v" "scalar v"
      by (auto simp: Let_def split: list.splits if_splits)
    with encode_three [OF 3 s(2-5)] bs show ?thesis by simp
  next
    case 4
    with assms bs obtain b c d where s: "s = b # c # d # r" "cont b" "cont c" "cont d"
      "v = (a - 240) * 262144 + (b - 128) * 4096 + (c - 128) * 64 + (d - 128)" "65536 \<le> v" "scalar v"
      by (auto simp: Let_def split: list.splits if_splits)
    with encode_four [OF 4 s(2-6)] bs show ?thesis by simp
  qed
qed

lemma decodeCps_SomeD: "decodeCps bs = Some cs \<Longrightarrow> bs = encodeCps cs \<and> (\<forall>c \<in> set cs. scalar c)"
proof (induction bs arbitrary: cs rule: decodeCps.induct)
  case (1 bs)
  show ?case
  proof (cases "bs = []")
    case True
    with 1(2) show ?thesis by simp
  next
    case False
    with 1(2) obtain c r ds where d: "decode1 bs = Some (c, r)" "decodeCps r = Some ds" "cs = c # ds"
      by (subst (asm) decodeCps.simps) (auto split: option.splits)
    from 1(1) [OF False d(1) refl d(2)] decode1_SomeD [OF d(1)] d(3) show ?thesis by simp
  qed
qed

lemma decodeCps_iff: "decodeCps bs = Some cs \<longleftrightarrow> bs = encodeCps cs \<and> (\<forall>c \<in> set cs. scalar c)"
  using decodeCps_SomeD decodeCps_encodeCps by blast

lemma codePoints_toUnits:
  "\<forall>c \<in> set cs. scalar c \<Longrightarrow> codePoints (toUnits cs) = cs"
proof (induction cs)
  case (Cons c cs)
  show ?case
  proof (cases "c < 65536")
    case True
    then have "\<not> isHighSurrogate c" "\<not> isLowSurrogate c"
      using Cons.prems by (auto simp: scalar_def isHighSurrogate_def isLowSurrogate_def)
    with True Cons show ?thesis by (cases "toUnits cs") (simp_all add: loneUnit_def)
  next
    case False
    define x where "x = c - 65536"
    have "c = 65536 + x" "x < 1048576" using False Cons.prems by (auto simp: x_def scalar_def)
    then have "isHighSurrogate (55296 + x div 1024)" "isLowSurrogate (56320 + x mod 1024)"
      by (auto simp: isHighSurrogate_def isLowSurrogate_def)
    with False Cons \<open>c = 65536 + x\<close> show ?thesis by simp
  qed
qed simp

lemma codePoints_snoc:
  "\<not> isHighSurrogate c \<Longrightarrow> \<not> isLowSurrogate c \<Longrightarrow> codePoints (s @ [c]) = codePoints s @ [c]"
proof (induction s rule: codePoints.induct)
  case (3 a b r)
  then show ?case by (cases r) auto
qed (auto simp: loneUnit_def)

end
