(* ===== verification/Text.thy ===== *)
theory Text
  imports Json Utf8
begin

text \<open>
  Text conversions of the standard library that the API and the repositories use: decimal and
  ISO date texts, truthiness and \<open>String\<close> of a JSON value, object spread, and the hexadecimal
  and base64url encodings of \<open>Buffer\<close> with their round trips. A byte string is a list of
  numbers below 256.
\<close>

subsection \<open>Decimal and dates\<close>

function showNat :: "nat \<Rightarrow> jstr" where
  "showNat n = (if n < 10 then [48 + n] else showNat (n div 10) @ [48 + n mod 10])"
  by pat_completeness auto
termination
  by (relation "measure (\<lambda>n. n)") auto

declare showNat.simps [simp del]

definition pad2 :: "nat \<Rightarrow> jstr" where "pad2 n = [48 + n div 10 mod 10, 48 + n mod 10]"
definition pad3 :: "nat \<Rightarrow> jstr" where "pad3 n = (48 + n div 100 mod 10) # pad2 n"
definition pad4 :: "nat \<Rightarrow> jstr" where "pad4 n = (48 + n div 1000 mod 10) # pad3 n"

text \<open>The civil date of a day counted from 1970-01-01 (the proleptic Gregorian calendar).\<close>

definition civilDate :: "nat \<Rightarrow> nat \<times> nat \<times> nat" where
  "civilDate days =
     (let z = days + 719468;
          doe = z mod 146097;
          yoe = (doe - doe div 1460 + doe div 36524 - doe div 146096) div 365;
          doy = doe - (365 * yoe + yoe div 4 - yoe div 100);
          mp = (5 * doy + 2) div 153;
          m = (if mp < 10 then mp + 3 else mp - 9)
      in (yoe + 400 * (z div 146097) + (if m \<le> 2 then 1 else 0), m, doy - (153 * mp + 2) div 5 + 1))"

text \<open>\<open>toISOString\<close> of a time in milliseconds, in the years 1970 to 9999.\<close>

definition isoText :: "nat \<Rightarrow> jstr" where
  "isoText ms =
     (case civilDate (ms div 86400000) of (y, m, d) \<Rightarrow>
        pad4 y @ [45] @ pad2 m @ [45] @ pad2 d @ [84]
        @ pad2 (ms div 3600000 mod 24) @ [58] @ pad2 (ms div 60000 mod 60) @ [58]
        @ pad2 (ms div 1000 mod 60) @ [46] @ pad3 (ms mod 1000) @ [90])"

subsection \<open>JSON values\<close>

definition truthy :: "json option \<Rightarrow> bool" where
  "truthy v = (case v of None \<Rightarrow> False | Some JNull \<Rightarrow> False | Some (JBool b) \<Rightarrow> b
     | Some (JNum q) \<Rightarrow> q \<noteq> 0 | Some (JStr s) \<Rightarrow> s \<noteq> [] | Some (JArr xs) \<Rightarrow> True | Some (JObj m) \<Rightarrow> True)"

text \<open>\<open>v || d\<close>\<close>

definition orJson :: "json option \<Rightarrow> json \<Rightarrow> json" where
  "orJson v d = (if truthy v then the v else d)"

definition typeofObject :: "json option \<Rightarrow> bool" where
  "typeofObject v = (case v of Some JNull \<Rightarrow> True | Some (JArr xs) \<Rightarrow> True | Some (JObj m) \<Rightarrow> True | _ \<Rightarrow> False)"

definition typeofNumber :: "json option \<Rightarrow> bool" where
  "typeofNumber v = (case v of Some (JNum q) \<Rightarrow> True | _ \<Rightarrow> False)"

text \<open>\<open>String(v)\<close>; the text of a number is the platform's.\<close>

fun stringOf :: "(rat \<Rightarrow> jstr) \<Rightarrow> json \<Rightarrow> jstr" where
  "stringOf numText JNull = js ''null''"
| "stringOf numText (JBool b) = (if b then js ''true'' else js ''false'')"
| "stringOf numText (JNum q) = numText q"
| "stringOf numText (JStr s) = s"
| "stringOf numText (JArr xs) = join [44] (map (\<lambda>x. if x = JNull then [] else stringOf numText x) xs)"
| "stringOf numText (JObj m) = js ''[object Object]''"

text \<open>\<open>{...o, k: v}\<close> and \<open>o[k] = v\<close>; an undefined value reads like an absent one.\<close>

fun putKey :: "jstr \<Rightarrow> json \<Rightarrow> (jstr \<times> json) list \<Rightarrow> (jstr \<times> json) list" where
  "putKey k v [] = [(k, v)]"
| "putKey k v ((k', w) # m) = (if k' = k then (k, v) # m else (k', w) # putKey k v m)"

definition dropKey :: "jstr \<Rightarrow> (jstr \<times> json) list \<Rightarrow> (jstr \<times> json) list" where
  "dropKey k m = filter (\<lambda>(k', w). k' \<noteq> k) m"

fun putProp :: "jstr \<Rightarrow> json option \<Rightarrow> json \<Rightarrow> json" where
  "putProp k (Some v) (JObj m) = JObj (putKey k v m)"
| "putProp k None (JObj m) = JObj (dropKey k m)"
| "putProp k v j = j"

text \<open>An object literal, without its undefined properties.\<close>

definition objectOf :: "(jstr \<times> json option) list \<Rightarrow> json" where
  "objectOf ps = JObj (concat (map (\<lambda>(k, v). case v of None \<Rightarrow> [] | Some w \<Rightarrow> [(k, w)]) ps))"

lemma map_of_putKey [simp]: "map_of (putKey k v m) = (map_of m)(k \<mapsto> v)"
  by (induction m) (auto simp: fun_eq_iff)

lemma map_of_dropKey: "map_of (dropKey k m) k' = (if k' = k then None else map_of m k')"
  by (induction m) (auto simp: dropKey_def)

lemma getProp_putProp [simp]:
  "isRecord j \<Longrightarrow> getProp (putProp k v j) k' = (if k' = k then v else getProp j k')"
  by (cases j; cases v) (auto simp: map_of_dropKey)

lemma isRecord_putProp [simp]: "isRecord (putProp k v j) = isRecord j"
  by (cases j; cases v) auto

lemma set_putKey: "set (putKey k v m) \<subseteq> insert (k, v) (set m)"
  by (induction m) (auto split: if_splits)

lemma length_putKey: "length (putKey k v m) \<le> Suc (length m)"
  by (induction m) auto

subsection \<open>Hexadecimal\<close>

definition hexChar :: "nat \<Rightarrow> nat" where
  "hexChar n = (if n < 10 then 48 + n else 87 + n)"

definition toHex :: "nat list \<Rightarrow> jstr" where
  "toHex bs = concat (map (\<lambda>b. [hexChar (b div 16), hexChar (b mod 16)]) bs)"

definition hexVal :: "nat \<Rightarrow> nat option" where
  "hexVal c = (if isDigit c then Some (c - 48)
     else if 97 \<le> c \<and> c \<le> 102 then Some (c - 87)
     else if 65 \<le> c \<and> c \<le> 70 then Some (c - 55) else None)"

text \<open>\<open>Buffer.from(s, "hex")\<close> stops at the first pair that is not hexadecimal.\<close>

fun fromHex :: "jstr \<Rightarrow> nat list" where
  "fromHex (a # b # s) =
     (case (hexVal a, hexVal b) of (Some x, Some y) \<Rightarrow> (16 * x + y) # fromHex s | _ \<Rightarrow> [])"
| "fromHex s = []"

definition isHexLower :: "nat \<Rightarrow> bool" where
  "isHexLower c \<longleftrightarrow> isDigit c \<or> 97 \<le> c \<and> c \<le> 102"

definition octets :: "nat list \<Rightarrow> bool" where "octets bs = list_all (\<lambda>b. b < 256) bs"

lemma octets_simps [simp]: "octets []" "octets (b # bs) \<longleftrightarrow> b < 256 \<and> octets bs"
  by (simp_all add: octets_def)

lemma toHex_simps [simp]:
  "toHex [] = []" "toHex (b # bs) = hexChar (b div 16) # hexChar (b mod 16) # toHex bs"
  by (simp_all add: toHex_def)

lemma hexVal_hexChar [simp]: "n < 16 \<Longrightarrow> hexVal (hexChar n) = Some n"
  by (auto simp: hexVal_def hexChar_def isDigit_def)

lemma fromHex_toHex [simp]: "octets bs \<Longrightarrow> fromHex (toHex bs) = bs"
proof (induction bs)
  case (Cons b bs)
  then have "b div 16 < 16" by (simp add: less_mult_imp_div_less)
  with Cons show ?case by simp
qed simp

lemma length_toHex [simp]: "length (toHex bs) = 2 * length bs"
  by (induction bs) auto

lemma toHex_lower: "octets bs \<Longrightarrow> list_all isHexLower (toHex bs)"
  by (induction bs) (auto simp: isHexLower_def hexChar_def isDigit_def)

subsection \<open>base64url\<close>

definition b64Char :: "nat \<Rightarrow> nat" where
  "b64Char n = (if n < 26 then 65 + n else if n < 52 then 71 + n else if n < 62 then n - 4
     else if n = 62 then 45 else 95)"

definition b64Val :: "nat \<Rightarrow> nat option" where
  "b64Val c = (if isUpper c then Some (c - 65) else if isLower c then Some (c - 71)
     else if isDigit c then Some (c + 4) else if c = 45 then Some 62 else if c = 95 then Some 63 else None)"

fun toBase64url :: "nat list \<Rightarrow> jstr" where
  "toBase64url [] = []"
| "toBase64url [a] = map b64Char [a div 4, a mod 4 * 16]"
| "toBase64url [a, b] = map b64Char [a div 4, a mod 4 * 16 + b div 16, b mod 16 * 4]"
| "toBase64url (a # b # c # bs) =
     map b64Char [a div 4, a mod 4 * 16 + b div 16, b mod 16 * 4 + c div 64, c mod 64] @ toBase64url bs"

definition isB64url :: "nat \<Rightarrow> bool" where
  "isB64url c \<longleftrightarrow> isAlnum c \<or> c = 95 \<or> c = 45"

lemma isB64url_b64Char: "n < 64 \<Longrightarrow> isB64url (b64Char n)"
  by (auto simp: isB64url_def b64Char_def char_class_defs)

lemma b64Val_b64Char [simp]: "n < 64 \<Longrightarrow> b64Val (b64Char n) = Some n"
  by (auto simp: b64Val_def b64Char_def char_class_defs)

lemma sextet_bounds:
  "a < 256 \<Longrightarrow> a div 4 < 64" "(a::nat) mod 4 * 16 < 64"
  "b < 256 \<Longrightarrow> a mod 4 * 16 + b div 16 < 64" "(b::nat) mod 16 * 4 < 64"
  "c < 256 \<Longrightarrow> b mod 16 * 4 + c div 64 < 64" "(c::nat) mod 64 < 64"
proof -
  have m: "a mod 4 \<le> 3" "b mod 16 \<le> 15" for a b :: nat
    using mod_less_divisor [of 4 a] mod_less_divisor [of 16 b] by linarith+
  show "a < 256 \<Longrightarrow> a div 4 < 64" "b < 256 \<Longrightarrow> a mod 4 * 16 + b div 16 < 64"
    "c < 256 \<Longrightarrow> b mod 16 * 4 + c div 64 < 64" "a mod 4 * 16 < 64" "b mod 16 * 4 < 64" "c mod 64 < 64"
    using m(1) [of a] m(2) [of b] by (auto simp: less_mult_imp_div_less)
qed

lemma toBase64url_chars: "octets bs \<Longrightarrow> list_all isB64url (toBase64url bs)"
  by (induction bs rule: toBase64url.induct) (auto intro!: isB64url_b64Char sextet_bounds)

lemma length_toBase64url: "length (toBase64url bs) = (4 * length bs + 2) div 3"
  by (induction bs rule: toBase64url.induct) auto

text \<open>
  \<open>Buffer.from(s, "base64url")\<close> skips what is not in the alphabet, reads both alphabets and
  stops at the padding; a left-over sextet gives no byte.
\<close>

definition b64Lenient :: "nat \<Rightarrow> nat option" where
  "b64Lenient c = (if c = 43 then Some 62 else if c = 47 then Some 63 else b64Val c)"

fun fromSextets :: "nat list \<Rightarrow> nat list" where
  "fromSextets (w # x # y # z # r) =
     (w * 4 + x div 16) # (x mod 16 * 16 + y div 4) # (y mod 4 * 64 + z) # fromSextets r"
| "fromSextets [w, x, y] = [w * 4 + x div 16, x mod 16 * 16 + y div 4]"
| "fromSextets [w, x] = [w * 4 + x div 16]"
| "fromSextets r = []"

definition fromBase64url :: "jstr \<Rightarrow> nat list" where
  "fromBase64url s = fromSextets (List.map_filter b64Lenient (takeWhile (\<lambda>c. c \<noteq> 61) s))"

lemma b64Lenient_b64Char [simp]: "n < 64 \<Longrightarrow> b64Lenient (b64Char n) = Some n"
  by (auto simp: b64Lenient_def b64Char_def b64Val_def char_class_defs)

lemma b64Char_not_pad: "n < 64 \<Longrightarrow> b64Char n \<noteq> 61"
  by (auto simp: b64Char_def)

fun sextets :: "nat list \<Rightarrow> nat list" where
  "sextets [] = []"
| "sextets [a] = [a div 4, a mod 4 * 16]"
| "sextets [a, b] = [a div 4, a mod 4 * 16 + b div 16, b mod 16 * 4]"
| "sextets (a # b # c # bs) =
     [a div 4, a mod 4 * 16 + b div 16, b mod 16 * 4 + c div 64, c mod 64] @ sextets bs"

lemma toBase64url_sextets: "toBase64url bs = map b64Char (sextets bs)"
  by (induction bs rule: sextets.induct) auto

lemma sextets_bound: "octets bs \<Longrightarrow> list_all (\<lambda>n. n < 64) (sextets bs)"
  by (induction bs rule: sextets.induct) (auto intro: sextet_bounds)

lemma read_sextets:
  assumes "list_all (\<lambda>n. n < 64) ns"
  shows "List.map_filter b64Lenient (takeWhile (\<lambda>c. c \<noteq> 61) (map b64Char ns)) = ns"
  using assms by (induction ns) (auto simp: map_filter_simps b64Char_not_pad)

lemma byte_quarters: "(a::nat) < 256 \<Longrightarrow> a div 16 < 16" "(a::nat) < 256 \<Longrightarrow> a div 64 < 4"
  by (simp_all add: less_mult_imp_div_less)

lemma digit_join:
  "b < 256 \<Longrightarrow> a div 4 * 4 + (a mod 4 * 16 + b div 16) div 16 = (a::nat)"
  "b < 256 \<Longrightarrow> c < 256 \<Longrightarrow>
     (a mod 4 * 16 + b div 16) mod 16 * 16 + (b mod 16 * 4 + c div 64) div 4 = (b::nat)"
  "c < 256 \<Longrightarrow> (b mod 16 * 4 + c div 64) mod 4 * 64 + c mod 64 = (c::nat)"
proof -
  assume b: "b < 256"
  then show "a div 4 * 4 + (a mod 4 * 16 + b div 16) div 16 = a"
    using byte_quarters(1) by simp
next
  assume b: "b < 256" and c: "c < 256"
  have "(a mod 4 * 16 + b div 16) mod 16 = b div 16" using byte_quarters(1) [OF b] by (simp add: mod_mult_self3)
  moreover have "(b mod 16 * 4 + c div 64) div 4 = b mod 16" using byte_quarters(2) [OF c] by simp
  ultimately show "(a mod 4 * 16 + b div 16) mod 16 * 16 + (b mod 16 * 4 + c div 64) div 4 = b" by simp
next
  assume c: "c < 256"
  have "(b mod 16 * 4 + c div 64) mod 4 = c div 64" using byte_quarters(2) [OF c] by (simp add: mod_mult_self3)
  then show "(b mod 16 * 4 + c div 64) mod 4 * 64 + c mod 64 = c" by simp
qed

lemma fromSextets_sextets: "octets bs \<Longrightarrow> fromSextets (sextets bs) = bs"
proof (induction bs rule: sextets.induct)
  case (2 a) then show ?case using digit_join(1) [of 0 a] by simp
next
  case (3 a b) then show ?case using digit_join(1) [of b a] digit_join(2) [of b 0 a] by simp
next
  case (4 a b c bs)
  then show ?case
    using digit_join(1) [of b a] digit_join(2) [of b c a] digit_join(3) [of c b] by simp
qed simp

lemma fromBase64url_toBase64url [simp]: "octets bs \<Longrightarrow> fromBase64url (toBase64url bs) = bs"
  by (simp add: fromBase64url_def toBase64url_sextets read_sextets sextets_bound fromSextets_sextets)

subsection \<open>JSON texts\<close>

text \<open>
  The platform's \<open>JSON.stringify\<close>, \<open>JSON.parse\<close> (\<open>None\<close> is the thrown \<open>SyntaxError\<close>),
  \<open>toString("utf8")\<close> and whether \<open>Date.parse\<close> reads a text.
\<close>

record jsonApi =
  json_text :: "json \<Rightarrow> jstr"
  json_parse :: "jstr \<Rightarrow> json option"
  json_lossy :: "nat list \<Rightarrow> jstr"
  json_date :: "jstr \<Rightarrow> bool"

definition encodeCursorObject :: "jsonApi \<Rightarrow> (jstr \<times> json) list \<Rightarrow> jstr" where
  "encodeCursorObject api m = toBase64url (utf8 (json_text api (JObj m)))"

definition decodeCursorObject :: "jsonApi \<Rightarrow> jstr \<Rightarrow> json option" where
  "decodeCursorObject api raw = json_parse api (json_lossy api (fromBase64url raw))"

end
