(* ===== verification/Sanitize.thy ===== *)
theory Sanitize
  imports Regex Utf8 Text Paths
begin

text \<open>
  Server-side redaction (\<open>packages/db/src/sanitize.ts\<close>): URL and string redaction, the context
  sanitizer, the payload sanitizer with its size limits, and the truncation to a number of
  UTF-8 bytes of the server and of the SDK (\<open>packages/sdk/src/sanitize.ts\<close>).

  \<open>new URL\<close>, \<open>URLSearchParams\<close> and the setters of a URL are the platform's (the WHATWG URL
  standard) and come as a record of operations. An object is rebuilt property by property,
  which keeps the order of its keys; the key \<open>__proto__\<close> is not treated.
\<close>

subsection \<open>URLs\<close>

record 'u urlApi =
  url_parse :: "jstr \<Rightarrow> 'u option"
  url_dropUserinfo :: "'u \<Rightarrow> 'u"
  url_searchPairs :: "'u \<Rightarrow> (jstr \<times> jstr) list"
  url_setSearch :: "jstr \<Rightarrow> 'u \<Rightarrow> 'u"
  url_href :: "'u \<Rightarrow> jstr"

definition REDACTED :: jstr where "REDACTED = js ''[REDACTED]''"

definition SENSITIVE_URL_PARAMS :: "jstr list" where
  "SENSITIVE_URL_PARAMS = map js [''token'', ''access_token'', ''refresh_token'', ''key'', ''api_key'',
     ''password'', ''secret'', ''auth'', ''code'', ''client_secret'', ''client_id'', ''authorization'',
     ''bearer'', ''jwt'', ''session_id'', ''sessionid'', ''sid'', ''csrf'', ''xsrf'', ''_token'']"

definition isSensitiveParam :: "jstr \<Rightarrow> bool" where
  "isSensitiveParam name = (toLower name \<in> set SENSITIVE_URL_PARAMS)"

definition hexDigit :: "nat \<Rightarrow> nat" where
  "hexDigit n = (if n < 10 then 48 + n else 55 + n)"

definition uriUnreserved :: "nat \<Rightarrow> bool" where
  "uriUnreserved c \<longleftrightarrow> isAlnum c \<or> c \<in> set (js ''-_.!~*'') \<or> c = 39 \<or> c = 40 \<or> c = 41"

text \<open>\<open>encodeURIComponent\<close> on a string without lone surrogates, as the search pairs are.\<close>

definition encodeURIComponent :: "jstr \<Rightarrow> jstr" where
  "encodeURIComponent s = concat (map (\<lambda>cp.
     if uriUnreserved cp then [cp]
     else concat (map (\<lambda>b. [37, hexDigit (b div 16), hexDigit (b mod 16)]) (encodeCp cp))) (codePoints s))"

text \<open>
  The loop \<open>for (const [key] of params) params.set(key, REDACTED)\<close>: \<open>set\<close> replaces the value of
  the first pair with that key, which is the current one, and removes the later ones.
\<close>

function redactParams :: "(jstr \<times> jstr) list \<Rightarrow> (jstr \<times> jstr) list" where
  "redactParams [] = []"
| "redactParams ((k, v) # ps) =
     (if isSensitiveParam k then (k, REDACTED) # redactParams (filter (\<lambda>p. fst p \<noteq> k) ps)
      else (k, v) # redactParams ps)"
  by pat_completeness auto
termination
  by (relation "measure length") (auto simp: le_imp_less_Suc)

definition searchText :: "(jstr \<times> jstr) list \<Rightarrow> jstr" where
  "searchText ps =
     (if ps = [] then []
      else 63 # join [38] (map (\<lambda>(k, v). encodeURIComponent k @ 61 # encodeURIComponent v) ps))"

definition sanitizeUrl :: "'u urlApi \<Rightarrow> jstr \<Rightarrow> jstr" where
  "sanitizeUrl api input =
     (case url_parse api input of
        None \<Rightarrow> REDACTED
      | Some u \<Rightarrow>
          (let u' = url_dropUserinfo api u;
               params = redactParams (url_searchPairs api u')
           in url_href api (url_setSearch api (searchText params) u')))"

subsection \<open>Secrets in strings\<close>

abbreviation tokenChar :: "nat \<Rightarrow> bool" where "tokenChar c \<equiv> isAlnum c \<or> c = 95 \<or> c = 45"
abbreviation tokenCharEq :: "nat \<Rightarrow> bool" where "tokenCharEq c \<equiv> tokenChar c \<or> c = 61"

definition BEARER_JWT :: re where
  "BEARER_JWT = seqs [WordB, LitI (js ''Bearer''), Plus Ws, Plus (Chs tokenCharEq), Lit [46],
     Plus (Chs tokenCharEq), Lit [46], Plus (Chs tokenCharEq)]"
definition BEARER_TOKEN :: re where
  "BEARER_TOKEN = seqs [WordB, LitI (js ''Bearer''), Plus Ws, AtLeast 20 (Chs tokenChar)]"
definition JWT :: re where
  "JWT = seqs [WordB, AtLeast 10 (Chs tokenChar), Lit [46], AtLeast 10 (Chs tokenChar), Lit [46],
     AtLeast 10 (Chs tokenChar), WordB]"
definition API_KEY :: re where
  "API_KEY = seqs [WordB, Grp 1 (alts (seqs [LitI (js ''api''), Opt (anyOf [95, 45]), LitI (js ''key'')])
       [seqs [LitI (js ''access''), Opt (anyOf [95, 45]), LitI (js ''token'')],
        seqs [LitI (js ''secret''), Opt (anyOf [95, 45]), LitI (js ''key'')]]),
     Star Ws, anyOf [58, 61], Star Ws, AtLeast 16 (Chs tokenChar)]"
definition PASSWORD :: re where
  "PASSWORD = seqs [WordB, Grp 1 (alts (LitI (js ''password'')) [LitI (js ''pwd''), LitI (js ''pass'')]),
     Star Ws, anyOf [58, 61], Star Ws, Plus NonWs]"
definition CREDIT_CARD :: re where
  "CREDIT_CARD = seqs [WordB, Between 13 16 (Sq Digit (LazyStar (anyOf [32, 45]))), WordB]"
definition SESSION_COOKIE :: re where
  "SESSION_COOKIE = seqs [WordB, Grp 1 (alts (Sq (LitI (js ''session'')) (Opt (Chs (\<lambda>c. foldCase c \<in> {105, 100, 95}))))
       [LitI (js ''sid''), LitI (js ''csrf''), LitI (js ''xsrf''), LitI (js ''_token'')]),
     Star Ws, anyOf [58, 61], Star Ws, AtLeast 16 (Chs (\<lambda>c. tokenChar c \<or> c = 37 \<or> c = 43))]"
definition AUTHORIZATION :: re where
  "AUTHORIZATION = seqs [WordB, LitI (js ''Authorization''), Star Ws, anyOf [58, 61], Star Ws,
     AtLeast 20 (Chs (\<lambda>c. tokenCharEq c \<or> c = 43 \<or> c = 47))]"

definition cardReplacement :: "jstr \<Rightarrow> jstr" where
  "cardReplacement m =
     (let digits = filter (\<lambda>c. c \<noteq> 32 \<and> c \<noteq> 45) m in
      if 13 \<le> length digits \<and> length digits \<le> 16 \<and> list_all isDigit digits then REDACTED else m)"

definition keyed :: "jstr \<Rightarrow> (nat \<times> jstr) list \<Rightarrow> jstr" where
  "keyed m caps = groupOf 1 caps @ 61 # REDACTED"

definition sanitizeString :: "jstr \<Rightarrow> jstr" where
  "sanitizeString input =
     (if input = [] then input
      else
        (let r1 = replaceAll BEARER_JWT (\<lambda>_ _. js ''Bearer '' @ REDACTED) input;
             r2 = replaceAll BEARER_TOKEN (\<lambda>_ _. js ''Bearer '' @ REDACTED) r1;
             r3 = replaceAll JWT (\<lambda>_ _. REDACTED) r2;
             r4 = replaceAll API_KEY keyed r3;
             r5 = replaceAll PASSWORD keyed r4;
             r6 = replaceAll CREDIT_CARD (\<lambda>m _. cardReplacement m) r5;
             r7 = replaceAll SESSION_COOKIE keyed r6
         in replaceAll AUTHORIZATION (\<lambda>_ _. js ''Authorization: '' @ REDACTED) r7))"

definition URL_IN_TEXT :: re where
  "URL_IN_TEXT = seqs [LitI (js ''http''), Opt (LitI (js ''s'')), Lit (js ''://''),
     Plus (Chs (\<lambda>c. \<not> isWs c \<and> c \<notin> set [60, 62, 34, 123, 125, 124, 92, 94, 96, 91, 93]))]"

definition sanitizeUrlsInString :: "'u urlApi \<Rightarrow> jstr \<Rightarrow> jstr" where
  "sanitizeUrlsInString api input = replaceAll URL_IN_TEXT (\<lambda>m _. sanitizeUrl api m) input"

definition redactSecrets :: "'u urlApi \<Rightarrow> jstr \<Rightarrow> jstr" where
  "redactSecrets api input = sanitizeString (sanitizeUrlsInString api input)"

subsection \<open>Keys\<close>

definition sensitiveKeys :: "jstr list" where
  "sensitiveKeys = map js [''password'', ''pwd'', ''pass'', ''secret'', ''token'', ''access_token'',
     ''refresh_token'', ''api_key'', ''apikey'', ''client_secret'', ''client_id'', ''authorization'',
     ''bearer'', ''jwt'', ''cookie'', ''session'', ''sessionid'', ''sid'', ''csrf'', ''xsrf'', ''_token'',
     ''credit_card'', ''card_number'', ''cvv'', ''cvc'']"

definition isSensitiveKey :: "jstr \<Rightarrow> bool" where
  "isSensitiveKey key =
     (let lower = toLower key in list_ex (\<lambda>s. lower = s \<or> endsWith lower (95 # s)) sensitiveKeys)"

definition MAX_CONTEXT_DEPTH :: nat where "MAX_CONTEXT_DEPTH = 6"
definition MAX_MESSAGE_LENGTH :: nat where "MAX_MESSAGE_LENGTH = 8192"
definition MAX_STACK_FRAMES :: nat where "MAX_STACK_FRAMES = 100"
definition MAX_BREADCRUMBS :: nat where "MAX_BREADCRUMBS = 50"

definition truncated :: json where
  "truncated = JObj [(js ''[truncated]'', JStr (js ''max_depth_exceeded''))]"

subsection \<open>The context sanitizer\<close>

definition indexed :: "'a list \<Rightarrow> (jstr \<times> 'a) list" where
  "indexed xs = zip (map showNat [0..<length xs]) xs"

text \<open>\<open>Object.entries\<close>.\<close>

fun entries :: "json \<Rightarrow> (jstr \<times> json) list" where
  "entries (JObj m) = m"
| "entries (JArr xs) = indexed xs"
| "entries (JStr s) = indexed (map (\<lambda>c. JStr [c]) s)"
| "entries j = []"

text \<open>
  The recursion is over the entries of the value; the recursive call is only on objects.
\<close>

fun sanitizeArrayItem :: "json \<Rightarrow> json" where
  "sanitizeArrayItem (JStr s) = JStr (sanitizeString s)"
| "sanitizeArrayItem j = j"

fun sanitizeContextObj :: "nat \<Rightarrow> json \<Rightarrow> json" where
  "sanitizeContextObj depth (JObj m) =
     (if depth > MAX_CONTEXT_DEPTH then truncated
      else JObj (map (\<lambda>(k, v). (k,
        if isSensitiveKey k then JStr REDACTED else sanitizeContextObj (Suc depth) v)) m))"
| "sanitizeContextObj depth (JArr xs) = JArr (map sanitizeArrayItem xs)"
| "sanitizeContextObj depth (JStr s) = JStr (sanitizeString s)"
| "sanitizeContextObj depth j = j"

definition sanitizeContext :: "json \<Rightarrow> json" where
  "sanitizeContext input = sanitizeContextObj 0 (JObj (entries input))"

subsection \<open>Truncation to bytes\<close>

definition ellipsis :: jstr where "ellipsis = [8230]"

text \<open>The server's binary search for a prefix that decodes.\<close>

function searchPrefix :: "(nat \<Rightarrow> bool) \<Rightarrow> nat \<Rightarrow> nat \<Rightarrow> nat" where
  "searchPrefix ok low high =
     (if low < high
      then (let mid = (low + high + 1) div 2 in
            if ok mid then searchPrefix ok mid high else searchPrefix ok low (mid - 1))
      else low)"
  by pat_completeness auto
termination
  by (relation "measure (\<lambda>(ok, low, high). high - low)") auto

declare searchPrefix.simps [simp del]

definition textOf :: "nat list \<Rightarrow> jstr" where
  "textOf bs = (case decodeText bs of Some t \<Rightarrow> t | None \<Rightarrow> [])"

definition truncateToBytes :: "jstr \<Rightarrow> nat \<Rightarrow> jstr" where
  "truncateToBytes input maxBytes =
     (let bytes = utf8 input in
      if length bytes \<le> maxBytes then input
      else
        (let low = searchPrefix (\<lambda>mid. decodeText (take mid bytes) \<noteq> None) 0 (min maxBytes (length bytes))
         in textOf (take low bytes) @ ellipsis))"

text \<open>The SDK's version walks back from the limit.\<close>

fun walkBack :: "nat list \<Rightarrow> nat \<Rightarrow> jstr option" where
  "walkBack bytes 0 = None"
| "walkBack bytes (Suc n) =
     (case decodeText (take (Suc n) bytes) of Some t \<Rightarrow> Some t | None \<Rightarrow> walkBack bytes n)"

definition sdk_truncateToBytes :: "jstr \<Rightarrow> nat \<Rightarrow> jstr" where
  "sdk_truncateToBytes input maxBytes =
     (let bytes = utf8 input in
      if length bytes \<le> maxBytes then input
      else (case walkBack bytes (min maxBytes (length bytes)) of Some t \<Rightarrow> t @ ellipsis | None \<Rightarrow> ellipsis))"

subsection \<open>The payload sanitizer\<close>

fun sanitizePayloadValue :: "'u urlApi \<Rightarrow> nat \<Rightarrow> json \<Rightarrow> json" where
  "sanitizePayloadValue api depth v =
     (if depth > MAX_CONTEXT_DEPTH then truncated
      else case v of
        JStr s \<Rightarrow> JStr (redactSecrets api s)
      | JArr xs \<Rightarrow> JArr (map (sanitizePayloadValue api (Suc depth)) xs)
      | JObj m \<Rightarrow> JObj (map (\<lambda>(k, w). (k,
          if isSensitiveKey k then JStr REDACTED else sanitizePayloadValue api (Suc depth) w)) m)
      | _ \<Rightarrow> v)"

declare sanitizePayloadValue.simps [simp del]

text \<open>\<open>result[key] = v\<close> for a property that is present.\<close>

fun setProp :: "jstr \<Rightarrow> json \<Rightarrow> json \<Rightarrow> json" where
  "setProp k v (JObj m) = JObj (map (\<lambda>(k', w). (k', if k' = k then v else w)) m)"
| "setProp k v j = j"

definition truncateField :: "json \<Rightarrow> jstr \<Rightarrow> json" where
  "truncateField result key =
     (case getProp result key of
        Some (JStr s) \<Rightarrow> setProp key (JStr (truncateToBytes s MAX_MESSAGE_LENGTH)) result
      | _ \<Rightarrow> result)"

fun truncateArg :: "json \<Rightarrow> json" where
  "truncateArg (JStr s) = JStr (truncateToBytes s MAX_MESSAGE_LENGTH)"
| "truncateArg j = j"

definition truncateArgs :: "json \<Rightarrow> json" where
  "truncateArgs result =
     (case getProp result (js ''args'') of
        Some (JArr xs) \<Rightarrow> setProp (js ''args'') (JArr (map truncateArg xs)) result
      | _ \<Rightarrow> result)"

text \<open>The frames of one exception value; the source assigns in place, seen through \<open>result\<close>.\<close>

definition truncateFrames :: "json \<Rightarrow> json" where
  "truncateFrames value =
     (case getProp value (js ''stacktrace'') of
        Some st \<Rightarrow>
          (case getProp st (js ''frames'') of
             Some (JArr fs) \<Rightarrow>
               (if length fs > MAX_STACK_FRAMES
                then setProp (js ''stacktrace'') (setProp (js ''frames'') (JArr (take MAX_STACK_FRAMES fs)) st) value
                else value)
           | _ \<Rightarrow> value)
      | None \<Rightarrow> value)"

definition truncateFramesInValues :: "json \<Rightarrow> json" where
  "truncateFramesInValues holder =
     (case getProp holder (js ''values'') of
        Some (JArr vs) \<Rightarrow> setProp (js ''values'') (JArr (map truncateFrames vs)) holder
      | _ \<Rightarrow> holder)"

definition sanitizeEventPayload :: "'u urlApi \<Rightarrow> json \<Rightarrow> json" where
  "sanitizeEventPayload api payload =
     (let r0 = sanitizePayloadValue api 0 payload;
          r1 = foldl truncateField r0 (map js [''message'', ''value'', ''reason'']);
          r2 = truncateArgs r1;
          r3 = truncateFramesInValues r2
      in case getProp r3 (js ''payload'') of
           Some (JObj m) \<Rightarrow> setProp (js ''payload'') (truncateFramesInValues (JObj m)) r3
         | _ \<Rightarrow> r3)"

subsection \<open>What the string rules leave alone\<close>

lemma needs_rules:
  "needs BEARER_JWT {46}" "needs JWT {46}" "needs API_KEY {58, 61}" "needs PASSWORD {58, 61}"
  "needs SESSION_COOKIE {58, 61}" "needs AUTHORIZATION {58, 61}"
  unfolding BEARER_JWT_def JWT_def API_KEY_def PASSWORD_def SESSION_COOKIE_def AUTHORIZATION_def needs_seqs
  by simp_all

lemma needs_card: "needs CREDIT_CARD (Collect isDigit)"
  unfolding CREDIT_CARD_def needs_seqs by (simp add: needs_Between)

lemma needs_bearer: "needs BEARER_TOKEN {66, 98}"
proof -
  have "needs (LitI (js ''Bearer'')) {66, 98}"
    by (rule needs_LitI [of 66]) (auto simp: js_eval foldCase_def isUpper_def split: if_splits)
  then show ?thesis unfolding BEARER_TOKEN_def needs_seqs by simp
qed

lemma fold_letter: "{c. foldCase c = foldCase 97} \<subseteq> {65, 97}" "{c. foldCase c = foldCase 107} \<subseteq> {75, 107}"
    "{c. foldCase c = foldCase 112} \<subseteq> {80, 112}"
  by (auto simp: foldCase_def isUpper_def split: if_splits)

lemma needs_words: "needs API_KEY {75, 107}" "needs PASSWORD {80, 112}" "needs AUTHORIZATION {65, 97}"
proof -
  have "needs (LitI (js ''key'')) {75, 107}" "needs (LitI (js ''token'')) {75, 107}"
    by (rule needs_LitI [OF _ fold_letter(2)]; simp add: js_eval)+
  then show "needs API_KEY {75, 107}" unfolding API_KEY_def needs_seqs by (simp add: needs_seqs)
  have "needs (LitI (js ''password'')) {80, 112}" "needs (LitI (js ''pwd'')) {80, 112}" "needs (LitI (js ''pass'')) {80, 112}"
    by (rule needs_LitI [OF _ fold_letter(3)]; simp add: js_eval)+
  then show "needs PASSWORD {80, 112}" unfolding PASSWORD_def needs_seqs by simp
  have "needs (LitI (js ''Authorization'')) {65, 97}"
    by (rule needs_LitI [OF _ fold_letter(1)]) (simp add: js_eval)
  then show "needs AUTHORIZATION {65, 97}" unfolding AUTHORIZATION_def needs_seqs by simp
qed

definition suspiciousUnits :: "nat set" where
  "suspiciousUnits = {46, 58, 61, 66, 98} \<union> Collect isDigit"

lemma sanitizeString_prose:
  assumes "set s \<inter> suspiciousUnits = {}" shows "sanitizeString s = s"
proof -
  have "set s \<inter> {46} = {}" "set s \<inter> {58, 61} = {}" "set s \<inter> Collect isDigit = {}" "set s \<inter> {66, 98} = {}"
    using assms by (auto simp: suspiciousUnits_def)
  then show ?thesis
    unfolding sanitizeString_def Let_def
    by (simp add: needs_replaceAll [OF needs_rules(1)] needs_replaceAll [OF needs_rules(2)]
        needs_replaceAll [OF needs_rules(3)] needs_replaceAll [OF needs_rules(4)]
        needs_replaceAll [OF needs_rules(5)] needs_replaceAll [OF needs_rules(6)]
        needs_replaceAll [OF needs_card] needs_replaceAll [OF needs_bearer])
qed

text \<open>\<open>sessionid=xxxxxxxxxxxxxxxx\<close>, as a cookie header carries it.\<close>

definition sessionCookie :: jstr where
  "sessionCookie = [115, 101, 115, 115, 105, 111, 110, 105, 100, 61,
     120, 120, 120, 120, 120, 120, 120, 120, 120, 120, 120, 120, 120, 120, 120, 120]"

lemma sessionCookie_no_match: "replaceAll SESSION_COOKIE keyed sessionCookie = sessionCookie"
  by (simp add: SESSION_COOKIE_def sessionCookie_def js_eval regex_eval)

lemma sessionCookie_kept: "sanitizeString sessionCookie = sessionCookie"
proof -
  have "set sessionCookie \<inter> {46} = {}" "set sessionCookie \<inter> {66, 98} = {}" "set sessionCookie \<inter> {75, 107} = {}"
    "set sessionCookie \<inter> {80, 112} = {}" "set sessionCookie \<inter> {65, 97} = {}" "set sessionCookie \<inter> Collect isDigit = {}"
    by (auto simp: sessionCookie_def isDigit_def)
  then show ?thesis
    unfolding sanitizeString_def Let_def
    by (simp add: needs_replaceAll [OF needs_rules(1)] needs_replaceAll [OF needs_rules(2)]
        needs_replaceAll [OF needs_words(1)] needs_replaceAll [OF needs_words(2)]
        needs_replaceAll [OF needs_words(3)] needs_replaceAll [OF needs_card]
        needs_replaceAll [OF needs_bearer] sessionCookie_no_match)
qed

subsection \<open>Redacted values as a type\<close>

text \<open>
  \<open>redacted n j\<close>: \<open>j\<close> nests at most \<open>n\<close> levels and at every level a sensitive key holds the
  placeholder and nothing else.
\<close>

inductive redacted :: "nat \<Rightarrow> json \<Rightarrow> bool" where
  nullTy: "redacted n JNull"
| boolTy: "redacted n (JBool b)"
| numTy: "redacted n (JNum q)"
| strTy: "redacted n (JStr s)"
| arrTy: "\<forall>x \<in> set xs. redacted n x \<Longrightarrow> redacted (Suc n) (JArr xs)"
| objTy: "\<forall>(k, v) \<in> set m. if isSensitiveKey k then v = JStr REDACTED else redacted n v \<Longrightarrow>
     redacted (Suc n) (JObj m)"

declare redacted.intros [intro]
inductive_simps redacted_simps: "redacted n (JArr xs)" "redacted n (JObj m)" "redacted n (JStr s)"

lemma redacted_up: "redacted n j \<Longrightarrow> n \<le> n' \<Longrightarrow> redacted n' j"
proof (induction arbitrary: n' rule: redacted.induct)
  case (arrTy xs n)
  then obtain m where "n' = Suc m" "n \<le> m" by (metis Suc_le_D Suc_le_mono)
  with arrTy.IH show ?case by blast
next
  case (objTy m n)
  then obtain l where "n' = Suc l" "n \<le> l" by (metis Suc_le_D Suc_le_mono)
  with objTy.IH show ?case by (fastforce split: if_splits)
qed blast+

lemma truncatedKey: "\<not> isSensitiveKey (js ''[truncated]'')"
  by (simp add: isSensitiveKey_def sensitiveKeys_def js_eval toLower_def lowerUnit_def isUpper_def
      endsWith_def startsWith_def)

lemma redacted_truncated: "redacted (Suc n) truncated"
  unfolding truncated_def using truncatedKey by (intro objTy) auto

lemma redacted_payloadValue:
  "d \<le> 7 \<Longrightarrow> redacted (8 - d) (sanitizePayloadValue api d v)"
proof (induction api d v rule: sanitizePayloadValue.induct)
  case (1 api depth v)
  show ?case
  proof (cases "depth > MAX_CONTEXT_DEPTH")
    case True
    then have "8 - depth = Suc 0" using "1.prems" by (simp add: MAX_CONTEXT_DEPTH_def)
    with True show ?thesis by (simp add: sanitizePayloadValue.simps redacted_truncated)
  next
    case False
    then have d: "Suc depth \<le> 7" "8 - depth = Suc (8 - Suc depth)" by (simp_all add: MAX_CONTEXT_DEPTH_def)
    show ?thesis
    proof (cases v)
      case (JArr xs)
      have "redacted (8 - Suc depth) (sanitizePayloadValue api (Suc depth) x)" if "x \<in> set xs" for x
        using "1.IH"(1) [OF False JArr that d(1)] .
      then have "redacted (Suc (8 - Suc depth)) (JArr (map (sanitizePayloadValue api (Suc depth)) xs))"
        by (intro arrTy) auto
      then show ?thesis
        unfolding d(2) by (subst sanitizePayloadValue.simps) (use False JArr in simp)
    next
      case (JObj m)
      have "redacted (8 - Suc depth) (sanitizePayloadValue api (Suc depth) w)"
        if "(k, w) \<in> set m" "\<not> isSensitiveKey k" for k w
        using "1.IH"(2) [OF False JObj that(1) refl that(2) d(1)] .
      then have "redacted (Suc (8 - Suc depth)) (JObj (map (\<lambda>(k, w). (k,
          if isSensitiveKey k then JStr REDACTED else sanitizePayloadValue api (Suc depth) w)) m))"
        by (intro objTy) auto
      then show ?thesis
        unfolding d(2) by (subst sanitizePayloadValue.simps) (use False JObj in simp)
    qed (simp_all add: sanitizePayloadValue.simps False nullTy boolTy numTy strTy)
  qed
qed

lemma redacted_getProp:
  "redacted n r \<Longrightarrow> getProp r k = Some v \<Longrightarrow> \<not> isSensitiveKey k \<Longrightarrow> \<exists>n'. n = Suc n' \<and> redacted n' v"
  by (induction rule: redacted.induct) (fastforce dest: map_of_SomeD)+

lemma redacted_setProp:
  assumes "redacted (Suc n) r" "\<not> isSensitiveKey k" "redacted n v" shows "redacted (Suc n) (setProp k v r)"
proof (cases r)
  case (JObj m)
  with assms(1) have m: "\<forall>(k, v) \<in> set m. if isSensitiveKey k then v = JStr REDACTED else redacted n v"
    by (simp add: redacted_simps)
  have "redacted (Suc n) (JObj (map (\<lambda>(k', w). (k', if k' = k then v else w)) m))"
    by (intro objTy) (use m assms(2,3) in \<open>fastforce split: if_splits\<close>)
  with JObj show ?thesis by simp
qed (use assms in simp_all)

lemma redacted_upd:
  assumes "redacted n r" "getProp r k = Some v" "\<not> isSensitiveKey k" "\<And>n. redacted n v \<Longrightarrow> redacted n v'"
  shows "redacted n (setProp k v' r)"
  using redacted_getProp [OF assms(1-3)] assms redacted_setProp by blast

lemma plainKeys:
  "\<not> isSensitiveKey (js ''message'')" "\<not> isSensitiveKey (js ''value'')" "\<not> isSensitiveKey (js ''reason'')"
  "\<not> isSensitiveKey (js ''args'')" "\<not> isSensitiveKey (js ''values'')" "\<not> isSensitiveKey (js ''payload'')"
  "\<not> isSensitiveKey (js ''stacktrace'')" "\<not> isSensitiveKey (js ''frames'')"
  by (simp_all add: isSensitiveKey_def sensitiveKeys_def js_eval toLower_def lowerUnit_def isUpper_def
      endsWith_def startsWith_def)

lemma redacted_truncateField:
  "redacted n r \<Longrightarrow> \<not> isSensitiveKey k \<Longrightarrow> redacted n (truncateField r k)"
  by (auto simp: truncateField_def split: option.splits json.splits intro: redacted_upd)

lemma redacted_arrMap:
  "(\<And>n x. redacted n x \<Longrightarrow> redacted n (f x)) \<Longrightarrow> redacted n (JArr xs) \<Longrightarrow> redacted n (JArr (map f xs))"
  by (cases n) (auto simp: redacted_simps)

lemma redacted_truncateArg: "redacted n j \<Longrightarrow> redacted n (truncateArg j)"
  by (cases j) auto

lemma redacted_truncateArgs: "redacted n r \<Longrightarrow> redacted n (truncateArgs r)"
  unfolding truncateArgs_def
  by (auto split: option.splits json.splits intro!: redacted_upd [OF _ _ plainKeys(4)]
      redacted_arrMap redacted_truncateArg)

lemma redacted_take: "redacted n (JArr xs) \<Longrightarrow> redacted n (JArr (take k xs))"
  by (cases n) (auto simp: redacted_simps dest: in_set_takeD)

lemma redacted_truncateFrames: "redacted n v \<Longrightarrow> redacted n (truncateFrames v)"
  unfolding truncateFrames_def
  by (auto split: option.splits json.splits intro!: redacted_upd [OF _ _ plainKeys(7)]
      redacted_upd [OF _ _ plainKeys(8)] redacted_take)

lemma redacted_truncateFramesInValues: "redacted n h \<Longrightarrow> redacted n (truncateFramesInValues h)"
  unfolding truncateFramesInValues_def
  by (auto split: option.splits json.splits intro!: redacted_upd [OF _ _ plainKeys(5)]
      redacted_arrMap redacted_truncateFrames)

text \<open>
  C17: Every ingested payload, however hostile, leaves the sanitizer well typed: at most eight
  levels of nesting, and at every level a property with a sensitive key is the placeholder
  \<open>[REDACTED]\<close> and nothing else.
\<close>

theorem sanitized_payload_is_redacted: "redacted 8 (sanitizeEventPayload api payload)"
proof -
  let ?r0 = "sanitizePayloadValue api 0 payload"
  let ?r1 = "foldl truncateField ?r0 (map js [''message'', ''value'', ''reason''])"
  let ?r3 = "truncateFramesInValues (truncateArgs ?r1)"
  have "redacted 8 ?r0" using redacted_payloadValue [of 0 api payload] by simp
  then have "redacted 8 ?r1" by (simp add: redacted_truncateField plainKeys)
  then have r3: "redacted 8 ?r3"
    by (intro redacted_truncateFramesInValues redacted_truncateArgs)
  show ?thesis
  proof (cases "\<exists>m. getProp ?r3 (js ''payload'') = Some (JObj m)")
    case True
    then obtain m where m: "getProp ?r3 (js ''payload'') = Some (JObj m)" by blast
    have "redacted 8 (setProp (js ''payload'') (truncateFramesInValues (JObj m)) ?r3)"
      by (rule redacted_upd [OF r3 m plainKeys(6)]) (rule redacted_truncateFramesInValues)
    then show ?thesis by (simp only: sanitizeEventPayload_def Let_def m option.case json.case)
  next
    case False
    then have "sanitizeEventPayload api payload = ?r3"
      by (auto simp: sanitizeEventPayload_def Let_def split: option.splits json.splits)
    with r3 show ?thesis by simp
  qed
qed

subsection \<open>Truncation\<close>

lemma searchPrefix_ok:
  "ok low \<Longrightarrow> low \<le> high \<Longrightarrow>
     ok (searchPrefix ok low high) \<and> low \<le> searchPrefix ok low high \<and> searchPrefix ok low high \<le> high"
proof (induction ok low high rule: searchPrefix.induct)
  case (1 ok low high)
  let ?mid = "(low + high + 1) div 2"
  show ?case
  proof (cases "low < high")
    case True
    then have mid: "low < ?mid" "?mid \<le> high" by simp_all
    show ?thesis
    proof (cases "ok ?mid")
      case True
      with "1.IH"(1) [OF \<open>low < high\<close> refl True True] mid \<open>low < high\<close> show ?thesis
        by (subst (1 2 3) searchPrefix.simps) (simp add: Let_def)
    next
      case False
      from mid have m: "low \<le> ?mid - 1" "?mid - 1 \<le> high" by simp_all
      have "searchPrefix ok low high = searchPrefix ok low (?mid - 1)"
        using \<open>low < high\<close> False by (subst searchPrefix.simps) (simp add: Let_def)
      with "1.IH"(2) [OF \<open>low < high\<close> refl False "1.prems"(1) m(1)] m(2) show ?thesis
        by (metis le_trans)
    qed
  next
    case False
    with "1.prems" show ?thesis by (subst (1 2 3) searchPrefix.simps) simp
  qed
qed

lemma decodeText_Nil [simp]: "decodeText [] = Some []"
  by (simp add: decodeText_def stripBom_def)

lemma utf8_textOf:
  assumes "decodeText bs = Some t" shows "length (utf8 (t @ ellipsis)) \<le> length bs + 3"
proof -
  obtain cs where cs: "decodeCps bs = Some cs" "t = toUnits (stripBom cs)"
    using assms by (auto simp: decodeText_def)
  from decodeCps_SomeD [OF cs(1)] have e: "bs = encodeCps cs" "\<forall>c \<in> set cs. scalar c" by auto
  then have s: "\<forall>c \<in> set (stripBom cs). scalar c" by (auto simp: stripBom_def split: list.splits if_splits)
  have "codePoints (t @ ellipsis) = stripBom cs @ [8230]"
    using codePoints_snoc [of 8230 t] codePoints_toUnits [OF s] cs(2)
    by (simp add: ellipsis_def isHighSurrogate_def isLowSurrogate_def)
  moreover have "length (encodeCps (stripBom cs)) \<le> length (encodeCps cs)"
    by (auto simp: stripBom_def split: list.splits)
  ultimately show ?thesis using e(1) by (simp add: utf8_def encodeCp_def)
qed

lemma truncateToBytes_bytes: "length (utf8 (truncateToBytes s n)) \<le> n + 3"
proof (cases "length (utf8 s) \<le> n")
  case True
  then show ?thesis by (simp add: truncateToBytes_def Let_def)
next
  case False
  let ?ok = "\<lambda>mid. decodeText (take mid (utf8 s)) \<noteq> None"
  let ?low = "searchPrefix ?ok 0 (min n (length (utf8 s)))"
  have low: "?ok ?low" "?low \<le> n" using searchPrefix_ok [of ?ok 0 "min n (length (utf8 s))"] by auto
  then obtain t where t: "decodeText (take ?low (utf8 s)) = Some t" by auto
  have "length (utf8 (t @ ellipsis)) \<le> n + 3" using utf8_textOf [OF t] low(2) by simp
  with False t show ?thesis by (simp add: truncateToBytes_def Let_def textOf_def)
qed

lemma walkBack_pos:
  "0 < n \<Longrightarrow> walkBack bs n =
     (case decodeText (take n bs) of Some t \<Rightarrow> Some t | None \<Rightarrow> walkBack bs (n - 1))"
  by (cases n) (auto split: option.split)

lemma searchPrefix_cong:
  "(\<And>m. low < m \<Longrightarrow> m \<le> high \<Longrightarrow> ok m = ok' m) \<Longrightarrow> searchPrefix ok low high = searchPrefix ok' low high"
proof (induction ok low high rule: searchPrefix.induct)
  case (1 ok low high)
  let ?mid = "(low + high + 1) div 2"
  show ?case
  proof (cases "low < high")
    case True
    then have mid: "low < ?mid" "?mid \<le> high" by simp_all
    show ?thesis
    proof (cases "ok ?mid")
      case t: True
      have "searchPrefix ok ?mid high = searchPrefix ok' ?mid high"
        using mid by (intro "1.IH"(1) [OF True refl t]) (auto intro!: "1.prems")
      with t True mid "1.prems" [OF mid] show ?thesis
        by (subst (1 2) searchPrefix.simps) (simp add: Let_def)
    next
      case f: False
      have "searchPrefix ok low (?mid - 1) = searchPrefix ok' low (?mid - 1)"
        using mid by (intro "1.IH"(2) [OF True refl f]) (auto intro!: "1.prems")
      with f True mid "1.prems" [OF mid] show ?thesis
        by (subst (1 2) searchPrefix.simps) (simp add: Let_def)
    qed
  next
    case False
    then show ?thesis by (subst (1 2) searchPrefix.simps) simp
  qed
qed

lemma searchPrefix_True: "low \<le> high \<Longrightarrow> searchPrefix (\<lambda>_. True) low high = high"
proof (induction "\<lambda>_ :: nat. True" low high rule: searchPrefix.induct)
  case (1 low high)
  then show ?case
    by (subst searchPrefix.simps) (auto simp: Let_def)
qed

lemma utf8_ascii: "list_all (\<lambda>u. u < 128) a \<Longrightarrow> utf8 a = a"
proof -
  assume a: "list_all (\<lambda>u. u < 128) a"
  then have "codePoints a = a"
    by (induction a rule: codePoints.induct) (auto simp: loneUnit_def isHighSurrogate_def isLowSurrogate_def)
  moreover have "encodeCps a = a" using a by (induction a) (auto simp: encodeCp_def)
  ultimately show ?thesis by (simp add: utf8_def)
qed

lemma decodeText_ascii:
  assumes "list_all (\<lambda>u. u < 128) a" shows "decodeText a = Some a"
proof -
  have "encodeCps a = a" using assms by (induction a) (auto simp: encodeCp_def)
  moreover have "\<forall>c \<in> set a. scalar c" using assms by (auto simp: list_all_iff scalar_def)
  ultimately have "decodeCps a = Some a" by (metis decodeCps_encodeCps)
  moreover have "stripBom a = a" using assms by (cases a) (auto simp: stripBom_def)
  moreover have "toUnits a = a" using assms by (induction a) auto
  ultimately show ?thesis by (simp add: decodeText_def)
qed

lemma list_all_take: "list_all P xs \<Longrightarrow> list_all P (take k xs)"
  by (auto simp: list_all_iff dest: in_set_takeD)

lemma truncate_ascii:
  assumes "list_all (\<lambda>u. u < 128) a" "n < length a"
  shows "truncateToBytes a n = take n a @ ellipsis" "sdk_truncateToBytes a n = take n a @ ellipsis"
proof -
  note d = decodeText_ascii [OF list_all_take [OF assms(1)]]
  have "searchPrefix (\<lambda>mid. decodeText (take mid a) \<noteq> None) 0 n = n"
    using searchPrefix_True [of 0 n] by (simp add: d)
  with assms show "truncateToBytes a n = take n a @ ellipsis"
    by (simp add: truncateToBytes_def utf8_ascii Let_def textOf_def d)
  show "sdk_truncateToBytes a n = take n a @ ellipsis"
    using assms by (cases n) (simp_all add: sdk_truncateToBytes_def utf8_ascii Let_def d)
qed

definition threeByte :: "nat \<Rightarrow> bool" where
  "threeByte c \<longleftrightarrow> 2048 \<le> c \<and> c < 65536 \<and> \<not> isHighSurrogate c \<and> \<not> isLowSurrogate c \<and> c \<noteq> 65279"

lemma codePoints_replicate: "threeByte c \<Longrightarrow> codePoints (replicate n c) = replicate n c"
proof (induction n)
  case (Suc n)
  then show ?case by (cases n) (simp_all add: threeByte_def loneUnit_def)
qed simp

lemma length_three: "threeByte c \<Longrightarrow> length (encodeCp c) = 3"
  by (simp add: threeByte_def encodeCp_def)

lemma length_encode_replicate: "threeByte c \<Longrightarrow> length (encodeCps (replicate n c)) = 3 * n"
  by (induction n) (simp_all add: length_three)

lemma decodes_replicate:
  assumes "threeByte c" "k \<le> 3 * n"
  shows "decodeText (take k (utf8 (replicate n c)))
     = (if k mod 3 = 0 then Some (replicate (k div 3) c) else None)"
proof -
  have s: "\<forall>d \<in> set (replicate n c). scalar d"
    using assms(1) by (auto simp: threeByte_def scalar_def isHighSurrogate_def isLowSurrogate_def)
  have u: "utf8 (replicate n c) = encodeCps (replicate n c)"
    by (simp add: utf8_def codePoints_replicate assms(1))
  show ?thesis
  proof (cases "k mod 3 = 0")
    case True
    define j where "j = k div 3"
    have k: "k = 3 * j" "j \<le> n" using True assms(2) by (auto simp: j_def)
    have "decodeCps (take k (utf8 (replicate n c))) = Some (replicate j c)"
      using decodeCps_take [OF s, of j] k by (simp add: u length_encode_replicate assms(1) min_absorb1)
    moreover have "stripBom (replicate j c) = replicate j c"
      using assms(1) by (cases j) (auto simp: stripBom_def threeByte_def)
    moreover have "toUnits (replicate j c) = replicate j c"
      using assms(1) by (induction j) (auto simp: threeByte_def)
    ultimately show ?thesis using True by (simp add: decodeText_def j_def)
  next
    case False
    have "\<not> boundary (replicate n c) k"
      using False by (auto simp: boundary_def length_encode_replicate assms(1))
    then have "decodeCps (take k (utf8 (replicate n c))) = None"
      using decodes_iff_boundary [OF s, of k] assms u by (auto simp: length_encode_replicate)
    with False show ?thesis by (simp add: decodeText_def)
  qed
qed

lemma search_mod_3: "searchPrefix (\<lambda>m. m mod 3 = 0) 0 8192 = 0"
  by (simp add: searchPrefix.simps)

text \<open>
  The server's truncation never splits a character and keeps within three bytes of its
  limit; on ASCII text it agrees with the SDK's. On a long text of three-byte characters (as
  most Chinese or Japanese text is) its binary search finds no character boundary at all and
  erases the whole message, where the SDK keeps the first 2730 characters.
\<close>

theorem truncation_server_and_sdk:
  assumes "list_all (\<lambda>u. u < 128) a" "threeByte c" "2731 \<le> n"
  shows "truncateToBytes a 8192 = sdk_truncateToBytes a 8192
     \<and> truncateToBytes (replicate n c) 8192 = ellipsis
     \<and> sdk_truncateToBytes (replicate n c) 8192 = replicate 2730 c @ ellipsis
     \<and> length (utf8 (truncateToBytes s m)) \<le> m + 3"
proof -
  let ?b = "utf8 (replicate n c)"
  have len: "length ?b = 3 * n" by (simp add: utf8_def codePoints_replicate length_encode_replicate assms(2))
  have m: "min 8192 (length ?b) = 8192" using len assms(3) by simp
  have "searchPrefix (\<lambda>mid. decodeText (take mid ?b) \<noteq> None) 0 8192 = searchPrefix (\<lambda>m. m mod 3 = 0) 0 8192"
    by (rule searchPrefix_cong) (use assms(3) in \<open>simp add: decodes_replicate [OF assms(2)]\<close>)
  then have server: "truncateToBytes (replicate n c) 8192 = ellipsis"
    using len assms(3) m by (simp add: truncateToBytes_def Let_def textOf_def search_mod_3)
  have "walkBack ?b 8192 = Some (replicate 2730 c)"
    using walkBack_pos [of 8192 ?b] walkBack_pos [of 8191 ?b] walkBack_pos [of 8190 ?b] assms(3)
    by (simp add: decodes_replicate [OF assms(2)])
  then have sdk: "sdk_truncateToBytes (replicate n c) 8192 = replicate 2730 c @ ellipsis"
    using len assms(3) m by (simp add: sdk_truncateToBytes_def Let_def)
  have "truncateToBytes a 8192 = sdk_truncateToBytes a 8192"
    using truncate_ascii [OF assms(1), of 8192]
    by (cases "8192 < length a") (simp_all add: truncateToBytes_def sdk_truncateToBytes_def utf8_ascii [OF assms(1)])
  with server sdk truncateToBytes_bytes show ?thesis by blast
qed

lemma truncation_server_and_sdk_witness:
  "truncateToBytes (replicate 3000 20013) 8192 = ellipsis
     \<and> sdk_truncateToBytes (replicate 3000 20013) 8192 = replicate 2730 20013 @ ellipsis"
  using truncation_server_and_sdk [of "[]" 20013 3000 "[]" 0]
  by (simp add: threeByte_def isHighSurrogate_def isLowSurrogate_def)

text \<open>
  Text without digits, dots, colons, equals signs or the letter b is never changed by the
  secret patterns. The cookie pattern misses \<open>sessionid=...\<close>, its own example: the token goes
  through unredacted.
\<close>

theorem string_redaction_scope:
  assumes "set s \<inter> suspiciousUnits = {}"
  shows "sanitizeString s = s \<and> sanitizeString sessionCookie = sessionCookie"
  using sanitizeString_prose [OF assms] sessionCookie_kept by blast

lemma string_redaction_scope_witness: "sanitizeString (js ''Cannot read user'') = js ''Cannot read user''"
proof -
  have "set (js ''Cannot read user'') \<inter> suspiciousUnits = {}"
    by (simp add: js_eval suspiciousUnits_def isDigit_def)
  from string_redaction_scope [OF this] show ?thesis by blast
qed

text \<open>The context sanitizer does not enter objects inside arrays, whatever their keys.\<close>

lemma context_array_objects_unredacted:
  "sanitizeContext (JObj [(js ''items'', JArr [JObj [(js ''password'', v)]])])
     = JObj [(js ''items'', JArr [JObj [(js ''password'', v)]])]"
proof -
  have "\<not> isSensitiveKey (js ''items'')"
    by (simp add: isSensitiveKey_def sensitiveKeys_def js_eval toLower_def lowerUnit_def isUpper_def
        endsWith_def startsWith_def)
  then show ?thesis by (simp add: sanitizeContext_def MAX_CONTEXT_DEPTH_def)
qed

end
