(* ===== verification/Keyset.thy ===== *)
theory Keyset
  imports Prelude
begin

text \<open>
  Keyset pagination, the scheme that every paged repository query of \<open>packages/db\<close> follows:
  order by a value (ascending or descending) and then by id, read one row more than the page,
  and resume strictly after the value and id in the cursor. A page query is \<open>keysetPage\<close> over
  the rows its other conditions select; \<open>curVal\<close> is the value that the query writes into the
  cursor, which need not be the value the table holds.

  The locale \<open>keyset_listing\<close> is the contract between a repository query and a client that
  follows its cursors: where the cursor's value is exact, the pages are the ordered table, every
  row once. The listings interpret it in \<open>AuditLog\<close> and \<open>Listings\<close>.
\<close>

definition orderKey :: "bool \<Rightarrow> int \<Rightarrow> 'i::linorder \<Rightarrow> int \<times> 'i" where
  "orderKey desc v i = (if desc then - v else v, i)"

text \<open>The condition \<open>column < cursor.value OR (column = cursor.value AND id > cursor.id)\<close>.\<close>

definition afterCursor :: "bool \<Rightarrow> int \<times> 'i::linorder \<Rightarrow> int \<times> 'i \<Rightarrow> bool" where
  "afterCursor desc row cursor \<longleftrightarrow>
     (if desc then fst row < fst cursor else fst row > fst cursor)
     \<or> fst row = fst cursor \<and> snd row > snd cursor"

definition keysetPage ::
  "bool \<Rightarrow> ('r \<Rightarrow> int) \<Rightarrow> ('r \<Rightarrow> 'i::linorder) \<Rightarrow> ('r \<Rightarrow> int) \<Rightarrow> nat \<Rightarrow> (int \<times> 'i) option \<Rightarrow> 'r list
    \<Rightarrow> 'r list \<times> (int \<times> 'i) option" where
  "keysetPage desc val idOf curVal limit cursor table =
     (let selected = filter (\<lambda>r. case cursor of None \<Rightarrow> True
            | Some c \<Rightarrow> afterCursor desc (val r, idOf r) c) table;
          rows = take (limit + 1) (sort_key (\<lambda>r. orderKey desc (val r) (idOf r)) selected)
      in if length rows > limit
         then (take limit rows,
               if limit = 0 then None else Some (curVal (rows ! (limit - 1)), idOf (rows ! (limit - 1))))
         else (rows, None))"

text \<open>A client that follows the cursors, for at most \<open>n\<close> pages.\<close>

fun walkPages :: "('c option \<Rightarrow> 'r list \<times> 'c option) \<Rightarrow> nat \<Rightarrow> 'c option \<Rightarrow> 'r list" where
  "walkPages page 0 c = []"
| "walkPages page (Suc n) c =
     (case page c of (rs, None) \<Rightarrow> rs | (rs, Some c') \<Rightarrow> rs @ walkPages page n (Some c'))"

lemma afterCursor_order:
  "afterCursor desc (v, i) (w, j) \<longleftrightarrow> orderKey desc w j < orderKey desc v i"
  by (auto simp: afterCursor_def orderKey_def)

lemma filter_after_sorted:
  assumes "sorted (map K S)" "distinct (map K S)" "m < length S"
  shows "filter (\<lambda>r. K (S ! m) < K r) S = drop (Suc m) S"
proof -
  have str: "i < j \<Longrightarrow> j < length S \<Longrightarrow> K (S ! i) < K (S ! j)" for i j
    using sorted_nth_mono [OF assms(1), of i j] nth_eq_iff_index_eq [OF assms(2), of i j] by auto
  have "filter (\<lambda>r. K (S ! m) < K r) (take (Suc m) S) = []"
  proof (rule filter_False, rule ballI)
    fix r assume "r \<in> set (take (Suc m) S)"
    then obtain i where "i \<le> m" "r = S ! i"
      using assms(3) by (auto simp: in_set_conv_nth less_Suc_eq_le)
    with str [of i m] assms(3) show "\<not> K (S ! m) < K r" by (cases "i = m") auto
  qed
  moreover have "filter (\<lambda>r. K (S ! m) < K r) (drop (Suc m) S) = drop (Suc m) S"
  proof (rule filter_True, rule ballI)
    fix r assume "r \<in> set (drop (Suc m) S)"
    then obtain i where i: "i < length S - Suc m" "r = S ! (Suc m + i)"
      by (auto simp: in_set_conv_nth)
    then show "K (S ! m) < K r" using str [of m "Suc m + i"] by auto
  qed
  ultimately show ?thesis
    by (metis append_self_conv2 append_take_drop_id filter_append)
qed

locale keyset_listing =
  fixes desc :: bool and val :: "'r \<Rightarrow> int" and idOf :: "'r \<Rightarrow> 'i::linorder" and curVal :: "'r \<Rightarrow> int"
    and precise :: "'r \<Rightarrow> bool"
  assumes exact: "precise r \<Longrightarrow> curVal r = val r"
begin

definition K :: "'r \<Rightarrow> int \<times> 'i" where
  "K r = orderKey desc (val r) (idOf r)"

definition ordered :: "'r list \<Rightarrow> 'r list" where
  "ordered table = sort_key K table"

definition page :: "nat \<Rightarrow> 'r list \<Rightarrow> (int \<times> 'i) option \<Rightarrow> 'r list \<times> (int \<times> 'i) option" where
  "page limit table c = keysetPage desc val idOf curVal limit c table"

definition pageable :: "'r list \<Rightarrow> bool" where
  "pageable table \<longleftrightarrow> distinct (map idOf table) \<and> list_all precise table"

lemma pageable_ordered:
  "pageable table \<Longrightarrow> distinct (map K (ordered table)) \<and> sorted (map K (ordered table))
     \<and> list_all precise (ordered table)"
  by (force simp: pageable_def ordered_def K_def orderKey_def distinct_map inj_on_def list_all_iff)

definition cursorAt :: "'r list \<Rightarrow> nat \<Rightarrow> (int \<times> 'i) option" where
  "cursorAt S m = (if m = 0 then None else Some (val (S ! (m - 1)), idOf (S ! (m - 1))))"

lemma selected_at:
  assumes "pageable table" "m \<le> length table"
  shows "sort_key K (filter (\<lambda>r. case cursorAt (ordered table) m of None \<Rightarrow> True
           | Some c \<Rightarrow> afterCursor desc (val r, idOf r) c) table) = drop m (ordered table)"
proof (cases m)
  case 0 then show ?thesis by (simp add: cursorAt_def ordered_def)
next
  case (Suc k)
  let ?S = "ordered table"
  have l: "k < length ?S" using assms(2) Suc by (simp add: ordered_def)
  note S = pageable_ordered [OF assms(1)]
  have "(case cursorAt ?S m of None \<Rightarrow> True | Some c \<Rightarrow> afterCursor desc (val r, idOf r) c)
      \<longleftrightarrow> K (?S ! k) < K r" for r
    by (simp add: cursorAt_def Suc afterCursor_order K_def)
  then have "sort_key K (filter (\<lambda>r. case cursorAt ?S m of None \<Rightarrow> True
           | Some c \<Rightarrow> afterCursor desc (val r, idOf r) c) table)
      = filter (\<lambda>r. K (?S ! k) < K r) ?S"
    by (simp add: ordered_def filter_sort)
  also have "\<dots> = drop m ?S" using filter_after_sorted [of K, OF _ _ l] S Suc by simp
  finally show ?thesis .
qed

lemma page_at:
  assumes "pageable table" "m \<le> length table" "0 < limit"
  shows "page limit table (cursorAt (ordered table) m) =
    (take limit (drop m (ordered table)),
     if m + limit < length table then cursorAt (ordered table) (m + limit) else None)"
proof -
  let ?S = "ordered table"
  have len: "length ?S = length table" by (simp add: ordered_def)
  note sel = selected_at [OF assms(1,2)]
  have K: "(\<lambda>r. orderKey desc (val r) (idOf r)) = K" by (simp add: K_def fun_eq_iff)
  have ex: "k < length ?S \<Longrightarrow> curVal (?S ! k) = val (?S ! k)" for k
    using pageable_ordered [OF assms(1)] exact by (auto simp: list_all_length)
  let ?rows = "take (limit + 1) (drop m ?S)"
  have u: "page limit table (cursorAt ?S m) = (if length ?rows > limit
      then (take limit ?rows,
        if limit = 0 then None else Some (curVal (?rows ! (limit - 1)), idOf (?rows ! (limit - 1))))
      else (?rows, None))"
    unfolding page_def keysetPage_def K Let_def sel by (rule refl)
  show ?thesis
  proof (cases "m + limit < length table")
    case True
    then have "?rows ! (limit - 1) = ?S ! (m + limit - 1)"
      using assms(3) len by (simp add: nth_take)
    moreover have "cursorAt ?S (m + limit) = Some (val (?S ! (m + limit - 1)), idOf (?S ! (m + limit - 1)))"
      using assms(3) by (simp add: cursorAt_def)
    moreover have "limit < length table - m" using True by arith
    ultimately show ?thesis
      unfolding u using True assms(3) len ex [of "m + limit - 1"] by (simp add: min_def)
  next
    case False
    then have "\<not> limit < length table - m" by arith
    then show ?thesis using False len by (simp add: u)
  qed
qed

lemma walk_from:
  assumes "pageable table" "0 < limit" "m \<le> length table" "length table - m < n"
  shows "walkPages (page limit table) n (cursorAt (ordered table) m) = drop m (ordered table)"
  using assms(3,4)
proof (induction n arbitrary: m)
  case 0 then show ?case by simp
next
  case (Suc n)
  let ?S = "ordered table"
  have len: "length ?S = length table" by (simp add: ordered_def)
  note p = page_at [OF assms(1) Suc.prems(1) assms(2)]
  show ?case
  proof (cases "m + limit < length table")
    case False then show ?thesis using p len by simp
  next
    case True
    have "walkPages (page limit table) n (cursorAt ?S (m + limit)) = drop (m + limit) ?S"
      using Suc.IH [of "m + limit"] Suc.prems True assms(2) by simp
    then show ?thesis
      using True p assms(2) by (simp add: cursorAt_def add.commute [of m] flip: drop_drop)
  qed
qed

text \<open>Every row once and in order, in at most one page more than there are rows.\<close>

lemma walk_all:
  assumes "pageable table" "0 < limit" "length table < n"
  shows "walkPages (page limit table) n None = ordered table"
  using walk_from [OF assms(1,2), of 0 n] assms(3) by (simp add: cursorAt_def)

lemma ordered_rows:
  "set (ordered table) = set table" "length (ordered table) = length table"
  by (simp_all add: ordered_def)

end

text \<open>
  The other side: a cursor that holds less than the row does. \<open>a\<close> and \<open>b\<close> are the first
  two rows; the cursor after \<open>a\<close> carries a value below \<open>b\<close>'s.
\<close>

lemma page_skips:
  assumes "curVal a < val b" "val b < val a" "table = [a, b] \<or> table = [b, a]"
  shows "keysetPage True val idOf curVal 1 None table = ([a], Some (curVal a, idOf a))"
    and "keysetPage True val idOf curVal 1 (Some (curVal a, idOf a)) table = ([], None)"
proof -
  have s: "sort_key (\<lambda>r. orderKey True (val r) (idOf r)) table = [a, b]"
    using assms(2,3) by (auto simp: orderKey_def)
  show "keysetPage True val idOf curVal 1 None table = ([a], Some (curVal a, idOf a))"
    using assms(3) by (auto simp: keysetPage_def s)
  have "filter (\<lambda>r. afterCursor True (val r, idOf r) (curVal a, idOf a)) table = []"
    using assms by (auto simp: afterCursor_def)
  then show "keysetPage True val idOf curVal 1 (Some (curVal a, idOf a)) table = ([], None)"
    by (simp add: keysetPage_def)
qed

end
