(* ===== verification/AuditLog.thy ===== *)
theory AuditLog
  imports Text Keyset Paths
begin

text \<open>
  The audit log (\<open>packages/db/src/repositories/audit.ts\<close>): the metadata sanitizer, the insert
  that applies it, and the paged listing with its cursor. Times are microseconds, which is what
  the table keeps and what the cursor carries; its text (\<open>to_char\<close>) and PostgreSQL's reading of
  that text are left out.
\<close>

subsection \<open>The metadata sanitizer\<close>

definition auditSensitiveKeys :: "jstr list" where
  "auditSensitiveKeys = map js [''password'', ''secret'', ''token'', ''cookie'', ''authorization'', ''key'',
     ''credential'', ''credentials'', ''hash'', ''error'', ''stack'', ''sql'', ''query'', ''connection'']"

definition MAX_METADATA_DEPTH :: nat where "MAX_METADATA_DEPTH = 4"
definition MAX_METADATA_KEYS :: nat where "MAX_METADATA_KEYS = 50"
definition MAX_METADATA_ITEMS :: nat where "MAX_METADATA_ITEMS = 50"
definition MAX_METADATA_STRING_LENGTH :: nat where "MAX_METADATA_STRING_LENGTH = 2048"
definition AUDIT_REDACTED :: jstr where "AUDIT_REDACTED = js ''[REDACTED]''"
definition TRUNCATED :: jstr where "TRUNCATED = js ''[TRUNCATED]''"

lemmas audit_limits = MAX_METADATA_DEPTH_def MAX_METADATA_KEYS_def MAX_METADATA_ITEMS_def
  MAX_METADATA_STRING_LENGTH_def

definition hasSensitiveKey :: "jstr \<Rightarrow> bool" where
  "hasSensitiveKey key = list_ex (includesStr (toLower key)) auditSensitiveKeys"

text \<open>\<open>/^rb_(?:sk|inv)_[A-Za-z0-9_-]+$/u\<close> and \<open>/^[0-9a-f]{64}$/u\<close>\<close>

definition tokenTail :: "jstr \<Rightarrow> jstr \<Rightarrow> bool" where
  "tokenTail prefix s \<longleftrightarrow> startsWith s prefix \<and> drop (length prefix) s \<noteq> []
     \<and> list_all isB64url (drop (length prefix) s)"

definition isHash64 :: "jstr \<Rightarrow> bool" where
  "isHash64 s \<longleftrightarrow> length s = 64 \<and> list_all isHexLower s"

definition looksLikeSecret :: "jstr \<Rightarrow> bool" where
  "looksLikeSecret s \<longleftrightarrow> tokenTail (js ''rb_sk_'') s \<or> tokenTail (js ''rb_inv_'') s \<or> isHash64 s"

definition auditText :: "jstr \<Rightarrow> jstr" where
  "auditText s =
     (if looksLikeSecret s then AUDIT_REDACTED
      else if length s > MAX_METADATA_STRING_LENGTH then take (MAX_METADATA_STRING_LENGTH - 1) s @ [8230]
      else s)"

text \<open>A JSON number is finite; the branch for other values is not reached from JSON.\<close>

function sanitizeAuditValue :: "json \<Rightarrow> jstr \<Rightarrow> nat \<Rightarrow> json" where
  "sanitizeAuditValue value key depth =
     (if hasSensitiveKey key then JStr AUDIT_REDACTED
      else if depth > MAX_METADATA_DEPTH then JStr AUDIT_REDACTED
      else case value of
        JStr s \<Rightarrow> JStr (auditText s)
      | JNum q \<Rightarrow> JNum q
      | JBool b \<Rightarrow> JBool b
      | JNull \<Rightarrow> JNull
      | JArr xs \<Rightarrow>
          JArr (map (\<lambda>item. sanitizeAuditValue item [] (depth + 1)) (take MAX_METADATA_ITEMS xs)
                @ (if length xs > MAX_METADATA_ITEMS then [JStr TRUNCATED] else []))
      | JObj m \<Rightarrow>
          (let out = map (\<lambda>(k, v). (k, sanitizeAuditValue v k (depth + 1))) (take MAX_METADATA_KEYS m)
           in JObj (if length m > MAX_METADATA_KEYS then putKey (js ''_truncated'') (JBool True) out else out)))"
  by pat_completeness auto
termination
  by (relation "measure (\<lambda>(value, key, depth). size value)")
     (auto dest!: in_set_takeD
       intro!: le_imp_less_Suc size_list_estimation' [OF _ order_refl]
       order_trans [OF _ size_list_estimation' [OF _ order_refl]])

declare sanitizeAuditValue.simps [simp del]

definition sanitizeAuditMetadata :: "json \<Rightarrow> json" where
  "sanitizeAuditMetadata input =
     (if \<not> isRecord input then JObj []
      else let value = sanitizeAuditValue input [] 0 in if isRecord value then value else JObj [])"

text \<open>
  What a stored value may be: at most \<open>n\<close> levels of at most 51 entries, no token or hash, no long
  text, and only the placeholder under a sensitive key.
\<close>

fun auditClean :: "nat \<Rightarrow> json \<Rightarrow> bool" where
  "auditClean n (JStr s) = (\<not> looksLikeSecret s \<and> length s \<le> MAX_METADATA_STRING_LENGTH)"
| "auditClean n (JArr xs) =
     (0 < n \<and> length xs \<le> MAX_METADATA_ITEMS + 1 \<and> (\<forall>x \<in> set xs. auditClean (n - 1) x))"
| "auditClean n (JObj m) =
     (0 < n \<and> length m \<le> MAX_METADATA_KEYS + 1
      \<and> (\<forall>(k, v) \<in> set m. auditClean (n - 1) v \<and> (hasSensitiveKey k \<longrightarrow> v = JStr AUDIT_REDACTED)))"
| "auditClean n j = True"

fun usesKey :: "jstr \<Rightarrow> json \<Rightarrow> bool" where
  "usesKey k (JArr xs) = (\<exists>x \<in> set xs. usesKey k x)"
| "usesKey k (JObj m) = (\<exists>(k', v) \<in> set m. k' = k \<or> usesKey k v)"
| "usesKey k j = False"

lemma plain_markers:
  "\<not> looksLikeSecret AUDIT_REDACTED" "\<not> looksLikeSecret TRUNCATED"
  "length AUDIT_REDACTED \<le> MAX_METADATA_STRING_LENGTH" "length TRUNCATED \<le> MAX_METADATA_STRING_LENGTH"
  by (simp_all add: looksLikeSecret_def tokenTail_def isHash64_def AUDIT_REDACTED_def TRUNCATED_def js_eval audit_limits)

lemma tokenTail_last: "tokenTail p s \<Longrightarrow> isB64url (last s)"
  by (metis drop_eq_Nil last_drop last_in_set linorder_not_less list_all_iff tokenTail_def)

lemma isHash64_last: "isHash64 s \<Longrightarrow> isHexLower (last s)"
  by (cases s rule: rev_cases) (auto simp: isHash64_def)

lemma ellipsis_not_secret: "\<not> looksLikeSecret (s @ [8230])"
  using tokenTail_last [of _ "s @ [8230]"] isHash64_last [of "s @ [8230]"]
  by (auto simp: looksLikeSecret_def isHexLower_def isB64url_def char_class_defs)

lemma auditText_clean: "\<not> looksLikeSecret (auditText s) \<and> length (auditText s) \<le> MAX_METADATA_STRING_LENGTH"
  using plain_markers ellipsis_not_secret by (simp add: auditText_def audit_limits)

lemma auditText_idem [simp]: "auditText (auditText s) = auditText s"
  using auditText_clean [of s] unfolding auditText_def [of "auditText s"] by simp

lemma plain_keys: "\<not> hasSensitiveKey []" "\<not> hasSensitiveKey (js ''_truncated'')"
  by (simp_all add: hasSensitiveKey_def auditSensitiveKeys_def js_eval toLower_def lowerUnit_def)

lemma sanitizeAuditValue_atoms:
  "\<not> hasSensitiveKey k \<Longrightarrow> \<not> MAX_METADATA_DEPTH < d \<Longrightarrow> sanitizeAuditValue (JStr s) k d = JStr (auditText s)"
  "\<not> hasSensitiveKey k \<Longrightarrow> \<not> MAX_METADATA_DEPTH < d \<Longrightarrow> sanitizeAuditValue (JNum q) k d = JNum q"
  "\<not> hasSensitiveKey k \<Longrightarrow> \<not> MAX_METADATA_DEPTH < d \<Longrightarrow> sanitizeAuditValue (JBool b) k d = JBool b"
  "\<not> hasSensitiveKey k \<Longrightarrow> \<not> MAX_METADATA_DEPTH < d \<Longrightarrow> sanitizeAuditValue JNull k d = JNull"
  by (simp_all add: sanitizeAuditValue.simps)

lemma sanitizeAuditValue_clean:
  "auditClean (MAX_METADATA_DEPTH + 1 - depth) (sanitizeAuditValue v0 key depth)
   \<and> (hasSensitiveKey key \<longrightarrow> sanitizeAuditValue v0 key depth = JStr AUDIT_REDACTED)"
proof (induction v0 key depth rule: sanitizeAuditValue.induct)
  case (1 v0 key depth)
  show ?case
  proof (cases "hasSensitiveKey key \<or> depth > MAX_METADATA_DEPTH")
    case True
    then show ?thesis using plain_markers by (auto simp: sanitizeAuditValue.simps [of v0])
  next
    case False
    let ?n = "MAX_METADATA_DEPTH + 1 - depth"
    have n: "0 < ?n" "?n - 1 = MAX_METADATA_DEPTH + 1 - (depth + 1)" using False by auto
    show ?thesis
    proof (cases v0)
      case (JArr xs)
      have "\<forall>x \<in> set (take MAX_METADATA_ITEMS xs). auditClean (?n - 1) (sanitizeAuditValue x [] (depth + 1))"
        using 1(1) False JArr n by auto
      with n False JArr plain_markers show ?thesis
        by (auto simp: sanitizeAuditValue.simps [of "JArr xs"] audit_limits)
    next
      case (JObj m)
      let ?out = "map (\<lambda>(k, v). (k, sanitizeAuditValue v k (depth + 1))) (take MAX_METADATA_KEYS m)"
      have out: "\<forall>(k, v) \<in> set ?out. auditClean (?n - 1) v \<and> (hasSensitiveKey k \<longrightarrow> v = JStr AUDIT_REDACTED)"
        using 1(2) False JObj n by fastforce
      have "\<forall>(k, v) \<in> set (putKey (js ''_truncated'') (JBool True) ?out).
          auditClean (?n - 1) v \<and> (hasSensitiveKey k \<longrightarrow> v = JStr AUDIT_REDACTED)"
        using out set_putKey [of "js ''_truncated''" "JBool True" ?out] plain_keys by fastforce
      moreover have "length (putKey (js ''_truncated'') (JBool True) ?out) \<le> MAX_METADATA_KEYS + 1"
        using length_putKey [of "js ''_truncated''" "JBool True" ?out] by simp
      ultimately show ?thesis
        using n False JObj out by (simp add: sanitizeAuditValue.simps [of "JObj m"] Let_def)
    qed (use False auditText_clean in \<open>simp_all add: sanitizeAuditValue_atoms\<close>)
  qed
qed

text \<open>
  A second pass changes nothing, unless an object already has a property with the name of the
  truncation marker.
\<close>

lemma putKey_fresh: "k \<notin> fst ` set m \<Longrightarrow> putKey k v m = m @ [(k, v)]"
  by (induction m) auto

lemma map_take_twice:
  assumes "\<And>x. x \<in> set (take n xs) \<Longrightarrow> f (f x) = f x"
  shows "map f (take n (map f (take n xs) @ ys)) = map f (take n xs) @ map f (take (n - length xs) ys)"
  using assms by (simp add: take_map min_def)

lemma sanitizeAuditValue_idem:
  "\<not> usesKey (js ''_truncated'') v0 \<Longrightarrow>
   sanitizeAuditValue (sanitizeAuditValue v0 key depth) key depth = sanitizeAuditValue v0 key depth"
proof (induction v0 key depth rule: sanitizeAuditValue.induct)
  case (1 v0 key depth)
  show ?case
  proof (cases "hasSensitiveKey key \<or> depth > MAX_METADATA_DEPTH")
    case True then show ?thesis by (auto simp: sanitizeAuditValue.simps)
  next
    case False
    show ?thesis
    proof (cases v0)
      case (JArr xs)
      let ?f = "\<lambda>x. sanitizeAuditValue x [] (depth + 1)"
      let ?ys = "map ?f (take MAX_METADATA_ITEMS xs)"
      have "\<not> usesKey (js ''_truncated'') x" if "x \<in> set (take MAX_METADATA_ITEMS xs)" for x
        using 1(3) JArr in_set_takeD [OF that] by auto
      then have "map ?f ?ys = ?ys" using 1(1) False JArr by auto
      with False JArr show ?thesis
        by (auto simp: sanitizeAuditValue.simps [of "JArr _"] min_def)
    next
      case (JObj m)
      let ?g = "\<lambda>(k, v). (k, sanitizeAuditValue v k (depth + 1))"
      define out where "out = map ?g (take MAX_METADATA_KEYS m)"
      have u: "\<not> usesKey (js ''_truncated'') v \<and> k \<noteq> js ''_truncated''"
        if "(k, v) \<in> set (take MAX_METADATA_KEYS m)" for k v
        using 1(3) JObj in_set_takeD [OF that] by auto
      have g: "map ?g out = out" using 1(2) u False JObj by (auto simp: out_def)
      have len: "length out = min (length m) MAX_METADATA_KEYS" by (simp add: out_def)
      have p: "putKey (js ''_truncated'') (JBool True) out = out @ [(js ''_truncated'', JBool True)]"
        using u by (intro putKey_fresh) (force simp: out_def)
      show ?thesis
      proof (cases "length m > MAX_METADATA_KEYS")
        case True
        then have "sanitizeAuditValue v0 key depth = JObj (out @ [(js ''_truncated'', JBool True)])"
          using False JObj p [unfolded out_def] by (simp add: sanitizeAuditValue.simps [of "JObj m"] Let_def out_def)
        moreover have "sanitizeAuditValue (JObj (out @ [(js ''_truncated'', JBool True)])) key depth
            = JObj (out @ [(js ''_truncated'', JBool True)])"
          using False True g p len by (simp add: sanitizeAuditValue.simps [of "JObj _"] Let_def)
        ultimately show ?thesis by simp
      next
        case l: False
        then have "sanitizeAuditValue v0 key depth = JObj out"
          using False JObj by (simp add: sanitizeAuditValue.simps [of "JObj m"] Let_def out_def)
        moreover have "sanitizeAuditValue (JObj out) key depth = JObj out"
          using False l g len by (simp add: sanitizeAuditValue.simps [of "JObj _"] Let_def)
        ultimately show ?thesis by simp
      qed
    qed (use False in \<open>simp_all add: sanitizeAuditValue_atoms\<close>)
  qed
qed

lemma sanitizeAuditValue_record:
  "isRecord v0 \<Longrightarrow> isRecord (sanitizeAuditValue v0 [] 0)"
  by (cases v0) (simp_all add: sanitizeAuditValue.simps plain_keys Let_def)

subsection \<open>Rows, insert and listing\<close>

record AuditRow =
  al_id :: jstr
  al_workspaceId :: jstr
  al_projectId :: "jstr option"
  al_actorUserId :: "jstr option"
  al_action :: jstr
  al_metadata :: json
  al_createdAt :: nat

record NewAudit =
  na_workspaceId :: jstr
  na_projectId :: "jstr option"
  na_actorUserId :: "jstr option"
  na_action :: jstr
  na_metadata :: "json option"

definition insertAuditRow :: "jstr \<Rightarrow> nat \<Rightarrow> NewAudit \<Rightarrow> AuditRow list \<Rightarrow> AuditRow list" where
  "insertAuditRow newId now values table =
     table @ [\<lparr>al_id = newId, al_workspaceId = na_workspaceId values, al_projectId = na_projectId values,
       al_actorUserId = na_actorUserId values, al_action = na_action values,
       al_metadata = sanitizeAuditMetadata (case na_metadata values of None \<Rightarrow> JObj [] | Some m \<Rightarrow> m),
       al_createdAt = now\<rparr>]"

definition MAX_AUDIT_QUERY_LIMIT :: nat where "MAX_AUDIT_QUERY_LIMIT = 100"

definition boundedLimit :: "nat \<Rightarrow> nat \<Rightarrow> jstr + nat" where
  "boundedLimit limit maximum =
     (if limit < 1 \<or> limit > maximum
      then Inl (js ''Query limit must be an integer between 1 and '' @ showNat maximum) else Inr limit)"

record ListAuditInput =
  la_workspaceId :: jstr
  la_limit :: nat
  la_cursor :: "(int \<times> jstr) option"
  la_action :: "jstr option"

definition auditSelected :: "ListAuditInput \<Rightarrow> AuditRow \<Rightarrow> bool" where
  "auditSelected input r \<longleftrightarrow> al_workspaceId r = la_workspaceId input
     \<and> (case la_action input of None \<Rightarrow> True | Some a \<Rightarrow> al_action r = a)"

definition auditTime :: "AuditRow \<Rightarrow> int" where "auditTime r = int (al_createdAt r)"

definition listAuditByWorkspacePaged ::
  "ListAuditInput \<Rightarrow> AuditRow list \<Rightarrow> jstr + AuditRow list \<times> (int \<times> jstr) option" where
  "listAuditByWorkspacePaged input table =
     bindE (boundedLimit (la_limit input) MAX_AUDIT_QUERY_LIMIT) (\<lambda>limit.
       Inr (keysetPage True auditTime al_id auditTime limit (la_cursor input)
              (filter (auditSelected input) table)))"

definition listAuditByWorkspace :: "jstr \<Rightarrow> nat \<Rightarrow> AuditRow list \<Rightarrow> jstr + AuditRow list" where
  "listAuditByWorkspace ws limit table =
     bindE (listAuditByWorkspacePaged \<lparr>la_workspaceId = ws, la_limit = limit, la_cursor = None, la_action = None\<rparr> table)
       (\<lambda>result. Inr (fst result))"

text \<open>The opaque cursor text.\<close>

definition encodeAuditCursor :: "jsonApi \<Rightarrow> jstr \<Rightarrow> jstr \<Rightarrow> jstr" where
  "encodeAuditCursor api createdAt i =
     encodeCursorObject api [(js ''v'', JNum 1), (js ''createdAt'', JStr createdAt), (js ''id'', JStr i)]"

definition decodeAuditCursor :: "jsonApi \<Rightarrow> jstr \<Rightarrow> (jstr \<times> jstr) option" where
  "decodeAuditCursor api raw =
     (if length raw < 1 \<or> length raw > 256 then None
      else case decodeCursorObject api raw of None \<Rightarrow> None
      | Some r \<Rightarrow>
          (case (getProp r (js ''createdAt''), getProp r (js ''id'')) of
             (Some (JStr c), Some (JStr i)) \<Rightarrow>
               (if getProp r (js ''v'') \<noteq> Some (JNum 1) \<or> \<not> json_date api c \<or> length i < 1 \<or> length i > 200
                then None else Some (c, i))
           | _ \<Rightarrow> None))"

interpretation audit_list: keyset_listing True auditTime al_id auditTime "\<lambda>_. True"
  by unfold_locales simp

subsection \<open>Properties\<close>



end
