(* ===== verification/Keys.thy ===== *)
theory Keys
  imports AuditLog Policy
begin

text \<open>
  Project credentials and allowed origins: the key formats and their verification
  (\<open>packages/db/src/keys-crypto.ts\<close>), the rows (\<open>repositories/keys.ts\<close>, \<open>repositories/origins.ts\<close>),
  the origin parser (\<open>packages/db/src/origin.ts\<close>) and the services that rotate, create and
  revoke them (\<open>apps/api/src/services/keys.ts\<close>, \<open>secret-tokens.ts\<close>, \<open>origins.ts\<close>).

  SHA-256 and HMAC are parameters on byte strings, the random bytes of a generated credential
  are an argument, and the URL parser is a parameter. A transaction that has seen a failed
  statement refuses every later statement, as PostgreSQL documents; the state of a transaction
  carries that flag.
\<close>

subsection \<open>Credential formats\<close>

definition PUBLIC_KEY_PREFIX :: jstr where "PUBLIC_KEY_PREFIX = js ''rb_pk_''"
definition SECRET_KEY_PREFIX :: jstr where "SECRET_KEY_PREFIX = js ''rb_sk_''"

text \<open>\<open>/^<tag>([0-9a-f]{8})_([A-Za-z0-9_-]{43})$/\<close>: the prefix and the secret.\<close>

definition matchKey :: "jstr \<Rightarrow> jstr \<Rightarrow> (jstr \<times> jstr) option" where
  "matchKey tag s =
     (let p = take 8 (drop 6 s); k = drop 15 s in
      if startsWith s tag \<and> length p = 8 \<and> list_all isHexLower p \<and> startsWith (drop 14 s) [95]
         \<and> length k = 43 \<and> list_all isB64url k
      then Some (p, k) else None)"

record ParsedKey =
  pk_prefix :: jstr
  pk_secret :: jstr
  pk_full :: jstr

definition parsePublicKey :: "json \<Rightarrow> jstr + ParsedKey" where
  "parsePublicKey input =
     (case input of
        JStr s \<Rightarrow>
          (case matchKey PUBLIC_KEY_PREFIX (trim s) of
             None \<Rightarrow> Inl (js ''Invalid public key format'')
           | Some (p, k) \<Rightarrow> Inr \<lparr>pk_prefix = p, pk_secret = k, pk_full = trim s\<rparr>)
      | _ \<Rightarrow> Inl (js ''Key must be a string''))"

definition parseSecretToken :: "json \<Rightarrow> jstr + ParsedKey" where
  "parseSecretToken input =
     (case input of
        JStr s \<Rightarrow>
          (case matchKey SECRET_KEY_PREFIX (trim s) of
             None \<Rightarrow> Inl (js ''Invalid secret token format'')
           | Some (p, k) \<Rightarrow> Inr \<lparr>pk_prefix = p, pk_secret = k, pk_full = trim s\<rparr>)
      | _ \<Rightarrow> Inl (js ''Token must be a string''))"

definition PREFIX_BYTES :: nat where "PREFIX_BYTES = 4"
definition SECRET_BYTES :: nat where "SECRET_BYTES = 32"

text \<open>The two random byte strings of one generation.\<close>

type_synonym entropy = "nat list \<times> nat list"

definition goodEntropy :: "entropy \<Rightarrow> bool" where
  "goodEntropy r \<longleftrightarrow> octets (fst r) \<and> octets (snd r) \<and> length (fst r) = PREFIX_BYTES \<and> length (snd r) = SECRET_BYTES"

definition generatePublicKey :: "entropy \<Rightarrow> jstr \<times> jstr" where
  "generatePublicKey r =
     (let prefix = toHex (fst r); secret = toBase64url (snd r)
      in (PUBLIC_KEY_PREFIX @ prefix @ [95] @ secret, prefix))"

definition generateSecretToken :: "entropy \<Rightarrow> jstr \<times> jstr" where
  "generateSecretToken r =
     (let prefix = toHex (fst r); secret = toBase64url (snd r)
      in (SECRET_KEY_PREFIX @ prefix @ [95] @ secret, prefix))"

type_synonym digest = "nat list \<Rightarrow> nat list"

definition hashPublicKey :: "digest \<Rightarrow> jstr \<Rightarrow> jstr + jstr" where
  "hashPublicKey sha256 fullKey = bindE (parsePublicKey (JStr fullKey)) (\<lambda>parsed.
     Inr (toHex (sha256 (utf8 (pk_full parsed)))))"

definition hashSecretToken :: "digest \<Rightarrow> jstr \<Rightarrow> jstr + jstr" where
  "hashSecretToken sha256 fullToken = bindE (parseSecretToken (JStr fullToken)) (\<lambda>parsed.
     Inr (toHex (sha256 (utf8 (pk_full parsed)))))"

text \<open>Comparing the decoded digests; \<open>timingSafeEqual\<close> is equality of equally long buffers.\<close>

definition sameDigest :: "jstr \<Rightarrow> jstr \<Rightarrow> bool" where
  "sameDigest candidateHash storedHash =
     (let a = fromHex candidateHash; b = fromHex storedHash in if length a \<noteq> length b then False else a = b)"

definition verifyPublicKey :: "digest \<Rightarrow> jstr \<Rightarrow> jstr \<Rightarrow> bool" where
  "verifyPublicKey sha256 candidate storedHash =
     (case hashPublicKey sha256 candidate of Inl _ \<Rightarrow> False | Inr h \<Rightarrow> sameDigest h storedHash)"

definition verifySecretToken :: "digest \<Rightarrow> jstr \<Rightarrow> jstr \<Rightarrow> bool" where
  "verifySecretToken sha256 candidate storedHash =
     (case hashSecretToken sha256 candidate of Inl _ \<Rightarrow> False | Inr h \<Rightarrow> sameDigest h storedHash)"

text \<open>The user hash; a secret is at least 32 characters.\<close>

definition deriveAnonymousUserHash ::
  "(jstr \<Rightarrow> nat list \<Rightarrow> nat list) \<Rightarrow> (rat \<Rightarrow> jstr) \<Rightarrow> jstr \<Rightarrow> json \<Rightarrow> jstr \<Rightarrow> jstr + jstr" where
  "deriveAnonymousUserHash hmac numText projectId rawUserId secret =
     (if length secret < 32
      then Inl (js ''Anonymous user hash secret must be configured and at least 32 characters'')
      else if projectId = [] \<or> \<not> truthy (Some rawUserId) then Inl (js ''projectId and rawUserId are required'')
      else Inr (toHex (hmac secret (utf8 (projectId @ [58] @ stringOf numText rawUserId)))))"

subsection \<open>Rows\<close>

record ProjectKeyRow =
  k_id :: jstr
  k_projectId :: jstr
  k_kind :: jstr
  k_name :: jstr
  k_prefix :: jstr
  k_keyHash :: jstr
  k_lastUsedAt :: "nat option"
  k_revokedAt :: "nat option"
  k_createdAt :: nat

record OriginRow =
  og_id :: jstr
  og_projectId :: jstr
  og_origin :: jstr
  og_isEnabled :: bool
  og_createdAt :: nat
  og_updatedAt :: nat

record kdb =
  kd_projects :: "ProjectView list"
  kd_members :: "MembershipView list"
  kd_keys :: "ProjectKeyRow list"
  kd_origins :: "OriginRow list"
  kd_audit :: "AuditRow list"
  kd_next :: nat

text \<open>A fresh row id; the counter stands for the database's random UUIDs.\<close>

definition freshId :: "kdb \<Rightarrow> jstr" where "freshId db = [kd_next db]"

record NewKey =
  nk_projectId :: jstr
  nk_kind :: jstr
  nk_name :: jstr
  nk_prefix :: jstr
  nk_keyHash :: jstr

datatype sqlError = UniqueViolation | TransactionAborted

text \<open>A running transaction: its view of the database and whether a statement has failed.\<close>

type_synonym ktx = "kdb \<times> bool"

definition insertProjectKey :: "nat \<Rightarrow> NewKey \<Rightarrow> ktx \<Rightarrow> (sqlError + ProjectKeyRow) \<times> ktx" where
  "insertProjectKey now values tx =
     (case tx of (db, aborted) \<Rightarrow>
        if aborted then (Inl TransactionAborted, tx)
        else if nk_prefix values \<in> k_prefix ` set (kd_keys db) then (Inl UniqueViolation, (db, True))
        else let row = \<lparr>k_id = freshId db, k_projectId = nk_projectId values, k_kind = nk_kind values,
                    k_name = nk_name values, k_prefix = nk_prefix values, k_keyHash = nk_keyHash values,
                    k_lastUsedAt = None, k_revokedAt = None, k_createdAt = now\<rparr>
             in (Inr row, (db\<lparr>kd_keys := kd_keys db @ [row], kd_next := kd_next db + 1\<rparr>, False)))"

definition listKeysByProject :: "kdb \<Rightarrow> jstr \<Rightarrow> ProjectKeyRow list" where
  "listKeysByProject db pid = filter (\<lambda>r. k_projectId r = pid) (kd_keys db)"

definition listActiveKeysByProjectAndKind :: "kdb \<Rightarrow> jstr \<Rightarrow> jstr \<Rightarrow> ProjectKeyRow list" where
  "listActiveKeysByProjectAndKind db pid kind =
     filter (\<lambda>r. k_projectId r = pid \<and> k_kind r = kind \<and> k_revokedAt r = None) (kd_keys db)"

definition findKeyByPrefix :: "kdb \<Rightarrow> jstr \<Rightarrow> ProjectKeyRow option" where
  "findKeyByPrefix db prefix = List.find (\<lambda>r. k_prefix r = prefix) (kd_keys db)"

definition findKeyById :: "kdb \<Rightarrow> jstr \<Rightarrow> ProjectKeyRow option" where
  "findKeyById db i = List.find (\<lambda>r. k_id r = i) (kd_keys db)"

definition updateKey :: "jstr \<Rightarrow> (ProjectKeyRow \<Rightarrow> ProjectKeyRow) \<Rightarrow> kdb \<Rightarrow> kdb" where
  "updateKey i f db = db\<lparr>kd_keys := map (\<lambda>r. if k_id r = i then f r else r) (kd_keys db)\<rparr>"

definition revokeKeyById :: "jstr \<Rightarrow> nat \<Rightarrow> kdb \<Rightarrow> kdb \<times> ProjectKeyRow option" where
  "revokeKeyById i revokedAt db =
     (let db' = updateKey i (\<lambda>r. r\<lparr>k_revokedAt := Some revokedAt\<rparr>) db in (db', findKeyById db' i))"

definition touchKeyLastUsedAt :: "jstr \<Rightarrow> nat \<Rightarrow> kdb \<Rightarrow> kdb" where
  "touchKeyLastUsedAt i time db = updateKey i (\<lambda>r. r\<lparr>k_lastUsedAt := Some time\<rparr>) db"

definition verifyActiveSecretKey :: "digest \<Rightarrow> kdb \<Rightarrow> jstr \<Rightarrow> jstr \<Rightarrow> ProjectKeyRow option" where
  "verifyActiveSecretKey sha256 db projectId candidate =
     (case parseSecretToken (JStr candidate) of
        Inl _ \<Rightarrow> None
      | Inr parsed \<Rightarrow>
          (case findKeyByPrefix db (pk_prefix parsed) of
             None \<Rightarrow> None
           | Some row \<Rightarrow>
               if k_projectId row \<noteq> projectId then None
               else if k_kind row \<noteq> js ''secret'' then None
               else if k_revokedAt row \<noteq> None then None
               else if \<not> verifySecretToken sha256 candidate (k_keyHash row) then None
               else Some row))"

definition verifyAndTouchSecretKey ::
  "digest \<Rightarrow> nat \<Rightarrow> jstr \<Rightarrow> jstr \<Rightarrow> kdb \<Rightarrow> ProjectKeyRow option \<times> kdb" where
  "verifyAndTouchSecretKey sha256 now projectId candidate db =
     (case verifyActiveSecretKey sha256 db projectId candidate of
        None \<Rightarrow> (None, db)
      | Some row \<Rightarrow>
          (let db' = touchKeyLastUsedAt (k_id row) now db
           in (Some (case findKeyById db' (k_id row) of None \<Rightarrow> row | Some refreshed \<Rightarrow> refreshed), db')))"

subsection \<open>Rotating and creating credentials\<close>

definition findProject :: "kdb \<Rightarrow> jstr \<Rightarrow> ProjectView option" where
  "findProject db pid = List.find (\<lambda>p. pv_id p = pid) (kd_projects db)"

definition findMember :: "kdb \<Rightarrow> jstr \<Rightarrow> jstr \<Rightarrow> MembershipView option" where
  "findMember db ws user = List.find (\<lambda>m. mv_workspaceId m = ws \<and> mv_userId m = user) (kd_members db)"

definition authorizeProject :: "kdb \<Rightarrow> jstr \<Rightarrow> jstr \<Rightarrow> Capability \<Rightarrow> thrown + ProjectView" where
  "authorizeProject db userId projectId capability =
     (case findProject db projectId of
        None \<Rightarrow> Inl (Domain (notFound (js ''Project'')))
      | Some project \<Rightarrow>
          bindE (requireWorkspaceMembership (findMember db (pv_workspaceId project) userId)) (\<lambda>checked.
          bindE (requireProjectAccess (Some checked) (Some project)) (\<lambda>_.
          bindE (requireWorkspaceCapability checked capability) (\<lambda>_. Inr project))))"

fun sqlText :: "sqlError \<Rightarrow> thrown" where
  "sqlText UniqueViolation = PlainError (js ''duplicate key value violates unique constraint'')"
| "sqlText TransactionAborted = PlainError (js ''current transaction is aborted'')"

text \<open>
  The loop of up to three attempts inside one transaction: \<open>gen\<close> makes the credential and its
  prefix, \<open>hash\<close> its stored hash.
\<close>

function insertAttempts ::
  "nat \<Rightarrow> (nat \<Rightarrow> jstr \<times> jstr) \<Rightarrow> (jstr \<Rightarrow> jstr + jstr) \<Rightarrow> (jstr \<Rightarrow> jstr \<Rightarrow> NewKey) \<Rightarrow> nat \<Rightarrow> ktx
    \<Rightarrow> (thrown + (ProjectKeyRow \<times> jstr \<times> jstr) option) \<times> ktx" where
  "insertAttempts now gen hash mk attempt tx =
     (if attempt < 3 then
        (case gen attempt of (full, prefix) \<Rightarrow>
           (case hash full of
              Inl m \<Rightarrow> (Inl (PlainError m), tx)
            | Inr keyHash \<Rightarrow>
                (case insertProjectKey now (mk prefix keyHash) tx of
                   (Inr row, tx') \<Rightarrow> (Inr (Some (row, full, prefix)), tx')
                 | (Inl e, tx') \<Rightarrow>
                     if e = UniqueViolation \<and> attempt < 2
                     then insertAttempts now gen hash mk (attempt + 1) tx'
                     else (Inl (sqlText e), tx'))))
      else (Inr None, tx))"
  by pat_completeness auto
termination
  by (relation "measure (\<lambda>(now, gen, hash, mk, attempt, tx). 3 - attempt)") auto

declare insertAttempts.simps [simp del]

text \<open>A committed transaction keeps the new database; a thrown error or an aborted one keeps the old.\<close>

definition commitTx :: "kdb \<Rightarrow> (thrown + 'a) \<times> ktx \<Rightarrow> (thrown + 'a) \<times> kdb" where
  "commitTx db x = (case x of (Inl e, tx) \<Rightarrow> (Inl e, db) | (Inr r, (db', aborted)) \<Rightarrow> (Inr r, if aborted then db else db'))"

definition auditKeyRow :: "nat \<Rightarrow> NewAudit \<Rightarrow> kdb \<Rightarrow> kdb" where
  "auditKeyRow now values db =
     db\<lparr>kd_audit := insertAuditRow (freshId db) (now * 1000) values (kd_audit db), kd_next := kd_next db + 1\<rparr>"

fun revokeAll :: "nat \<Rightarrow> ProjectKeyRow list \<Rightarrow> kdb \<Rightarrow> kdb" where
  "revokeAll now [] db = db"
| "revokeAll now (r # rs) db = revokeAll now rs (fst (revokeKeyById (k_id r) now db))"

record RotatedKey =
  rk_id :: jstr
  rk_projectId :: jstr
  rk_name :: jstr
  rk_prefix :: jstr
  rk_key :: jstr
  rk_createdAt :: jstr

definition rotateTx ::
  "digest \<Rightarrow> nat \<Rightarrow> (nat \<Rightarrow> entropy) \<Rightarrow> jstr \<Rightarrow> ProjectView \<Rightarrow> kdb \<Rightarrow> (thrown + ProjectKeyRow \<times> jstr \<times> jstr) \<times> ktx" where
  "rotateTx sha256 now rand userId project db =
     (let projectId = pv_id project;
          actives = listActiveKeysByProjectAndKind db projectId (js ''public_ingest'');
          db1 = revokeAll now actives db
      in case insertAttempts now (\<lambda>attempt. generatePublicKey (rand attempt)) (hashPublicKey sha256)
               (\<lambda>prefix h. \<lparr>nk_projectId = projectId, nk_kind = js ''public_ingest'',
                  nk_name = js ''rotated-'' @ take 10 (isoText now), nk_prefix = prefix, nk_keyHash = h\<rparr>)
               0 (db1, False) of
           (Inl e, tx) \<Rightarrow> (Inl e, tx)
         | (Inr None, tx) \<Rightarrow> (Inl (PlainError (js ''Failed to rotate project key'')), tx)
         | (Inr (Some (created, fullKey, prefix)), (db2, aborted)) \<Rightarrow>
             if fullKey = [] then (Inl (PlainError (js ''Failed to rotate project key'')), (db2, aborted))
             else if aborted then (Inl (sqlText TransactionAborted), (db2, aborted))
             else (Inr (created, fullKey, prefix),
                   (auditKeyRow now \<lparr>na_workspaceId = pv_workspaceId project, na_projectId = Some projectId,
                      na_actorUserId = Some userId, na_action = js ''project_key.rotated'',
                      na_metadata = Some (JObj [(js ''projectId'', JStr projectId),
                        (js ''newKeyId'', JStr (k_id created)), (js ''newPrefix'', JStr prefix),
                        (js ''revokedCount'', JNum (of_nat (length actives)))])\<rparr> db2, False)))"

definition rotatePublicIngestKey ::
  "digest \<Rightarrow> nat \<Rightarrow> (nat \<Rightarrow> entropy) \<Rightarrow> jstr \<Rightarrow> jstr \<Rightarrow> kdb \<Rightarrow> (thrown + RotatedKey) \<times> kdb" where
  "rotatePublicIngestKey sha256 now rand userId projectId db =
     (case authorizeProject db userId projectId key_rotate of
        Inl e \<Rightarrow> (Inl e, db)
      | Inr project \<Rightarrow>
          (case commitTx db (rotateTx sha256 now rand userId project db) of
             (Inl e, db') \<Rightarrow> (Inl e, db')
           | (Inr (created, fullKey, prefix), db') \<Rightarrow>
               (Inr \<lparr>rk_id = k_id created, rk_projectId = projectId, rk_name = k_name created,
                     rk_prefix = prefix, rk_key = fullKey, rk_createdAt = isoText (k_createdAt created)\<rparr>, db')))"

text \<open>The metadata of a key, without its hash.\<close>

record KeyMeta =
  km_id :: jstr
  km_projectId :: jstr
  km_kind :: jstr
  km_name :: jstr
  km_prefix :: jstr
  km_createdAt :: jstr
  km_lastUsedAt :: "jstr option"
  km_revokedAt :: "jstr option"

definition toKeyMetaDto :: "ProjectKeyRow \<Rightarrow> KeyMeta" where
  "toKeyMetaDto row = \<lparr>km_id = k_id row, km_projectId = k_projectId row,
     km_kind = (if k_kind row = js ''secret'' then js ''secret'' else js ''public_ingest''),
     km_name = k_name row, km_prefix = k_prefix row, km_createdAt = isoText (k_createdAt row),
     km_lastUsedAt = map_option isoText (k_lastUsedAt row), km_revokedAt = map_option isoText (k_revokedAt row)\<rparr>"

definition listKeyMetadata :: "jstr \<Rightarrow> jstr \<Rightarrow> kdb \<Rightarrow> thrown + KeyMeta list" where
  "listKeyMetadata userId projectId db =
     bindE (authorizeProject db userId projectId key_read) (\<lambda>_.
       Inr (map toKeyMetaDto (listKeysByProject db projectId)))"

definition SECRET_TOKEN_NAME_MAX :: nat where "SECRET_TOKEN_NAME_MAX = 100"

definition hasNameControlChars :: "jstr \<Rightarrow> bool" where
  "hasNameControlChars s = list_ex (\<lambda>c. c \<le> 31 \<or> c = 127) s"

definition validateSecretTokenName :: "json \<Rightarrow> thrown + jstr" where
  "validateSecretTokenName input =
     (case input of
        JStr s \<Rightarrow>
          (let name = trim s in
           if length name = 0 then Inl (Domain (validationError (js ''Secret token name is required'')))
           else if length name > SECRET_TOKEN_NAME_MAX
           then Inl (Domain (validationError (js ''Secret token name must be 1-100 characters'')))
           else if hasNameControlChars name
           then Inl (Domain (validationError (js ''Secret token name contains invalid characters'')))
           else Inr name)
      | _ \<Rightarrow> Inl (Domain (validationError (js ''Secret token name must be a string''))))"

definition listSecretTokens :: "jstr \<Rightarrow> jstr \<Rightarrow> kdb \<Rightarrow> thrown + KeyMeta list" where
  "listSecretTokens userId projectId db =
     bindE (authorizeProject db userId projectId project_manage_secret_tokens) (\<lambda>_.
       Inr (map toKeyMetaDto (filter (\<lambda>r. k_kind r = js ''secret'') (listKeysByProject db projectId))))"

definition createTokenTx ::
  "digest \<Rightarrow> nat \<Rightarrow> (nat \<Rightarrow> entropy) \<Rightarrow> jstr \<Rightarrow> ProjectView \<Rightarrow> jstr \<Rightarrow> kdb \<Rightarrow> (thrown + ProjectKeyRow \<times> jstr) \<times> ktx" where
  "createTokenTx sha256 now rand userId authorized name db =
     (case insertAttempts now (\<lambda>attempt. generateSecretToken (rand attempt)) (hashSecretToken sha256)
             (\<lambda>prefix h. \<lparr>nk_projectId = pv_id authorized, nk_kind = js ''secret'', nk_name = name,
                nk_prefix = prefix, nk_keyHash = h\<rparr>) 0 (db, False) of
        (Inl e, tx) \<Rightarrow> (Inl e, tx)
      | (Inr None, tx) \<Rightarrow> (Inl (PlainError (js ''Failed to create secret token'')), tx)
      | (Inr (Some (created, fullToken, prefix)), (db2, aborted)) \<Rightarrow>
          if fullToken = [] then (Inl (PlainError (js ''Failed to create secret token'')), (db2, aborted))
          else if aborted then (Inl (sqlText TransactionAborted), (db2, aborted))
          else (Inr (created, fullToken),
                (auditKeyRow now \<lparr>na_workspaceId = pv_workspaceId authorized, na_projectId = Some (pv_id authorized),
                   na_actorUserId = Some userId, na_action = js ''project_key.rotated'',
                   na_metadata = Some (JObj [(js ''projectId'', JStr (pv_id authorized)),
                     (js ''identifier'', JStr (k_id created)), (js ''prefix'', JStr prefix),
                     (js ''name'', JStr name)])\<rparr> db2, False)))"

definition createSecretToken ::
  "digest \<Rightarrow> nat \<Rightarrow> (nat \<Rightarrow> entropy) \<Rightarrow> jstr \<Rightarrow> jstr \<Rightarrow> json \<Rightarrow> kdb \<Rightarrow> (thrown + KeyMeta \<times> jstr) \<times> kdb" where
  "createSecretToken sha256 now rand userId projectId input_name db =
     (case authorizeProject db userId projectId project_manage_secret_tokens of
        Inl e \<Rightarrow> (Inl e, db)
      | Inr authorized \<Rightarrow>
          (case validateSecretTokenName input_name of
             Inl e \<Rightarrow> (Inl e, db)
           | Inr name \<Rightarrow>
               (case commitTx db (createTokenTx sha256 now rand userId authorized name db) of
                  (Inl e, db') \<Rightarrow> (Inl e, db')
                | (Inr (created, fullToken), db') \<Rightarrow> (Inr (toKeyMetaDto created, fullToken), db'))))"

definition revokeSecretToken ::
  "nat \<Rightarrow> jstr \<Rightarrow> jstr \<Rightarrow> jstr \<Rightarrow> kdb \<Rightarrow> (thrown + KeyMeta) \<times> kdb" where
  "revokeSecretToken now userId projectId tokenId db =
     (case authorizeProject db userId projectId project_manage_secret_tokens of
        Inl e \<Rightarrow> (Inl e, db)
      | Inr authorized \<Rightarrow>
          (case findKeyById db tokenId of
             None \<Rightarrow> (Inl (Domain (notFound (js ''Secret token''))), db)
           | Some row \<Rightarrow>
               if k_projectId row \<noteq> pv_id authorized \<or> k_kind row \<noteq> js ''secret''
               then (Inl (Domain (notFound (js ''Secret token''))), db)
               else if k_revokedAt row \<noteq> None
               then (Inl (Domain (conflict (js ''Secret token already revoked''))), db)
               else (case revokeKeyById (k_id row) now db of
                       (db1, None) \<Rightarrow> (Inl (Domain (notFound (js ''Secret token''))), db)
                     | (db1, Some updated) \<Rightarrow>
                         (Inr (toKeyMetaDto updated),
                          auditKeyRow now \<lparr>na_workspaceId = pv_workspaceId authorized,
                            na_projectId = Some (pv_id authorized), na_actorUserId = Some userId,
                            na_action = js ''project_key.rotated'',
                            na_metadata = Some (JObj [(js ''projectId'', JStr (pv_id authorized)),
                              (js ''identifier'', JStr (k_id row)), (js ''prefix'', JStr (k_prefix row))])\<rparr> db1))))"

subsection \<open>Origins\<close>

text \<open>The components of a parsed URL, as the platform's \<open>URL\<close> returns them.\<close>

record urlParts =
  up_protocol :: jstr
  up_username :: jstr
  up_password :: jstr
  up_hostname :: jstr
  up_port :: jstr
  up_pathname :: jstr
  up_search :: jstr
  up_hash :: jstr

abbreviation wildcard :: nat where "wildcard \<equiv> 42"

definition parseOrigin :: "(jstr \<Rightarrow> urlParts option) \<Rightarrow> json \<Rightarrow> jstr + jstr" where
  "parseOrigin newURL input =
     (case input of
        JStr s \<Rightarrow>
          (let trimmed = trim s in
           if length trimmed = 0 then Inl (js ''Origin must not be empty'')
           else if length trimmed > 2000 then Inl (js ''Origin is too long'')
           else if wildcard \<in> set trimmed
           then Inl (js ''Wildcard origins are not allowed; register explicit origins'')
           else if list_ex isWs trimmed then Inl (js ''Origin must not contain whitespace'')
           else (case newURL trimmed of
             None \<Rightarrow> Inl (js ''Origin must be a valid absolute URL'')
           | Some url \<Rightarrow>
               if up_protocol url \<noteq> js ''http:'' \<and> up_protocol url \<noteq> js ''https:''
               then Inl (js ''Origin must use http or https'')
               else if up_username url \<noteq> [] \<or> up_password url \<noteq> []
               then Inl (js ''Origin must not include credentials'')
               else if up_search url \<noteq> [] \<or> up_hash url \<noteq> []
               then Inl (js ''Origin must not include query or fragment'')
               else if up_pathname url \<noteq> [] \<and> \<not> list_all (\<lambda>c. c = 47) (up_pathname url)
               then Inl (js ''Origin must not include a path'')
               else if length (up_hostname url) = 0 then Inl (js ''Origin must include a host'')
               else Inr (toLower (up_protocol url) @ js ''//'' @ toLower (up_hostname url)
                      @ (if up_port url \<noteq> [] then 58 # up_port url else []))))
      | _ \<Rightarrow> Inl (js ''Origin must be a string''))"

definition parseBaseUrl :: "(jstr \<Rightarrow> urlParts option) \<Rightarrow> json \<Rightarrow> jstr + jstr" where
  "parseBaseUrl newURL input =
     (case input of
        JStr s \<Rightarrow>
          (let trimmed = trim s in
           if length trimmed = 0 then Inl (js ''base_url must not be empty'')
           else if length trimmed > 2000 then Inl (js ''base_url is too long'')
           else (case newURL trimmed of
             None \<Rightarrow> Inl (js ''base_url must be a valid absolute URL'')
           | Some url \<Rightarrow>
               if up_protocol url \<noteq> js ''http:'' \<and> up_protocol url \<noteq> js ''https:''
               then Inl (js ''base_url must use http or https'')
               else if up_username url \<noteq> [] \<or> up_password url \<noteq> []
               then Inl (js ''base_url must not include credentials'')
               else if endsWith trimmed [47] \<and> up_pathname url = [47] \<and> up_search url = [] \<and> up_hash url = []
               then Inr (toLower (up_protocol url) @ js ''//''
                      @ toLower (up_hostname url @ (if up_port url \<noteq> [] then 58 # up_port url else [])))
               else Inr trimmed))
      | _ \<Rightarrow> Inl (js ''base_url must be a string''))"

definition insertOrigin :: "nat \<Rightarrow> jstr \<Rightarrow> jstr \<Rightarrow> bool \<Rightarrow> kdb \<Rightarrow> sqlError + OriginRow \<times> kdb" where
  "insertOrigin now pid origin enabled db =
     (if (\<exists>r \<in> set (kd_origins db). og_projectId r = pid \<and> og_origin r = origin) then Inl UniqueViolation
      else let row = \<lparr>og_id = freshId db, og_projectId = pid, og_origin = origin, og_isEnabled = enabled,
                  og_createdAt = now, og_updatedAt = now\<rparr>
           in Inr (row, db\<lparr>kd_origins := kd_origins db @ [row], kd_next := kd_next db + 1\<rparr>))"

definition listOriginsByProject :: "kdb \<Rightarrow> jstr \<Rightarrow> OriginRow list" where
  "listOriginsByProject db pid = filter (\<lambda>r. og_projectId r = pid) (kd_origins db)"

definition findOriginById :: "kdb \<Rightarrow> jstr \<Rightarrow> OriginRow option" where
  "findOriginById db i = List.find (\<lambda>r. og_id r = i) (kd_origins db)"

record originPatch =
  op_origin :: "jstr option"
  op_isEnabled :: "bool option"

definition patchOrigin :: "nat \<Rightarrow> originPatch \<Rightarrow> OriginRow \<Rightarrow> OriginRow" where
  "patchOrigin now patch r =
     r\<lparr>og_origin := (case op_origin patch of None \<Rightarrow> og_origin r | Some v \<Rightarrow> v),
       og_isEnabled := (case op_isEnabled patch of None \<Rightarrow> og_isEnabled r | Some v \<Rightarrow> v),
       og_updatedAt := now\<rparr>"

definition updateOriginRow :: "nat \<Rightarrow> jstr \<Rightarrow> originPatch \<Rightarrow> kdb \<Rightarrow> sqlError + OriginRow option \<times> kdb" where
  "updateOriginRow now i patch db =
     (let db' = db\<lparr>kd_origins := map (\<lambda>r. if og_id r = i then patchOrigin now patch r else r) (kd_origins db)\<rparr>
      in if distinct (map (\<lambda>r. (og_projectId r, og_origin r)) (kd_origins db'))
         then Inr (findOriginById db' i, db') else Inl UniqueViolation)"

definition deleteOriginRow :: "jstr \<Rightarrow> kdb \<Rightarrow> kdb" where
  "deleteOriginRow i db = db\<lparr>kd_origins := filter (\<lambda>r. og_id r \<noteq> i) (kd_origins db)\<rparr>"

definition originAudit :: "nat \<Rightarrow> jstr \<Rightarrow> ProjectView \<Rightarrow> jstr \<Rightarrow> (jstr \<times> json) list \<Rightarrow> kdb \<Rightarrow> kdb" where
  "originAudit now userId project action metadata db =
     auditKeyRow now \<lparr>na_workspaceId = pv_workspaceId project, na_projectId = Some (pv_id project),
       na_actorUserId = Some userId, na_action = action, na_metadata = Some (JObj metadata)\<rparr> db"

abbreviation duplicateOrigin :: thrown where
  "duplicateOrigin \<equiv> Domain (conflict (js ''Origin already registered for this project''))"

record OriginDto =
  ogd_id :: jstr
  ogd_projectId :: jstr
  ogd_origin :: jstr
  ogd_isEnabled :: bool
  ogd_createdAt :: jstr
  ogd_updatedAt :: jstr

definition toOriginDto :: "OriginRow \<Rightarrow> OriginDto" where
  "toOriginDto row = \<lparr>ogd_id = og_id row, ogd_projectId = og_projectId row, ogd_origin = og_origin row,
     ogd_isEnabled = og_isEnabled row, ogd_createdAt = isoText (og_createdAt row), ogd_updatedAt = isoText (og_updatedAt row)\<rparr>"

text \<open>\<open>addOrigin\<close> asks for project access with the membership or none, so a stranger sees no project.\<close>

definition addOrigin ::
  "(jstr \<Rightarrow> urlParts option) \<Rightarrow> nat \<Rightarrow> jstr \<Rightarrow> jstr \<Rightarrow> jstr \<Rightarrow> bool option \<Rightarrow> kdb \<Rightarrow> (thrown + OriginDto) \<times> kdb" where
  "addOrigin newURL now userId projectId origin isEnabled db =
     (case findProject db projectId of
        None \<Rightarrow> (Inl (Domain (notFound (js ''Project''))), db)
      | Some project \<Rightarrow>
          (case bindE (requireProjectAccess (findMember db (pv_workspaceId project) userId) (Some project)) (\<lambda>checked.
                  requireWorkspaceCapability \<lparr>mv_workspaceId = pv_workspaceId project, mv_userId = userId,
                    mv_role = mv_role checked\<rparr> origin_write) of
             Inl e \<Rightarrow> (Inl e, db)
           | Inr _ \<Rightarrow>
               (case parseOrigin newURL (JStr origin) of
                  Inl m \<Rightarrow> (Inl (Domain (validationError m)), db)
                | Inr normalized \<Rightarrow>
                    (case insertOrigin now projectId normalized (case isEnabled of None \<Rightarrow> True | Some b \<Rightarrow> b) db of
                       Inl e \<Rightarrow> (Inl duplicateOrigin, db)
                     | Inr (row, db1) \<Rightarrow>
                         (Inr (toOriginDto row), originAudit now userId project (js ''project_origin.created'')
                            [(js ''projectId'', JStr projectId), (js ''origin'', JStr normalized)] db1)))))"

definition updateOrigin ::
  "(jstr \<Rightarrow> urlParts option) \<Rightarrow> nat \<Rightarrow> jstr \<Rightarrow> jstr \<Rightarrow> originPatch \<Rightarrow> kdb \<Rightarrow> (thrown + OriginDto) \<times> kdb" where
  "updateOrigin newURL now userId originId patch db =
     (case findOriginById db originId of
        None \<Rightarrow> (Inl (Domain (notFound (js ''Origin''))), db)
      | Some existing \<Rightarrow>
          (case findProject db (og_projectId existing) of
             None \<Rightarrow> (Inl (Domain (notFound (js ''Project''))), db)
           | Some project \<Rightarrow>
               (case authorizeProject db userId (pv_id project) origin_write of
                  Inl e \<Rightarrow> (Inl e, db)
                | Inr _ \<Rightarrow>
                    (case (case op_origin patch of None \<Rightarrow> Inr None
                           | Some v \<Rightarrow> bindE (parseOrigin newURL (JStr v)) (\<lambda>n. Inr (Some n))) of
                       Inl m \<Rightarrow> (Inl (Domain (validationError m)), db)
                     | Inr normalized \<Rightarrow>
                         (let patch' = \<lparr>op_origin = normalized, op_isEnabled = op_isEnabled patch\<rparr> in
                          case updateOriginRow now originId patch' db of
                            Inl e \<Rightarrow> (Inl duplicateOrigin, db)
                          | Inr (None, db1) \<Rightarrow> (Inl (Domain (notFound (js ''Origin''))), db)
                          | Inr (Some row, db1) \<Rightarrow>
                              (Inr (toOriginDto row), originAudit now userId project (js ''project_origin.updated'')
                                 [(js ''projectId'', JStr (pv_id project)), (js ''originId'', JStr originId),
                                  (js ''patch'', objectOf [(js ''origin'', map_option JStr (op_origin patch')),
                                     (js ''isEnabled'', map_option JBool (op_isEnabled patch'))])] db1))))))"

definition removeOrigin :: "nat \<Rightarrow> jstr \<Rightarrow> jstr \<Rightarrow> kdb \<Rightarrow> (thrown + bool) \<times> kdb" where
  "removeOrigin now userId originId db =
     (case findOriginById db originId of
        None \<Rightarrow> (Inr False, db)
      | Some existing \<Rightarrow>
          (case findProject db (og_projectId existing) of
             None \<Rightarrow> (Inl (Domain (notFound (js ''Project''))), db)
           | Some project \<Rightarrow>
               (case authorizeProject db userId (pv_id project) origin_write of
                  Inl e \<Rightarrow> (Inl e, db)
                | Inr _ \<Rightarrow>
                    (Inr True, originAudit now userId project (js ''project_origin.deleted'')
                       [(js ''projectId'', JStr (pv_id project)), (js ''originId'', JStr originId),
                        (js ''origin'', JStr (og_origin existing))] (deleteOriginRow originId db)))))"

subsection \<open>What a generated credential looks like\<close>

definition digestOk :: "digest \<Rightarrow> bool" where "digestOk sha256 \<longleftrightarrow> (\<forall>bs. octets (sha256 bs))"

lemma trim_id: "s \<noteq> [] \<Longrightarrow> \<not> isWs (hd s) \<Longrightarrow> \<not> isWs (last s) \<Longrightarrow> trim s = s"
proof -
  assume s: "s \<noteq> []" "\<not> isWs (hd s)" "\<not> isWs (last s)"
  then have "dropWhile isWs s = s" by (cases s) auto
  moreover have "dropWhile isWs (rev s) = rev s"
    using s(1,3) by (cases s rule: rev_cases) auto
  ultimately show ?thesis by (simp add: trim_def trimEnd_def trimStart_def)
qed

lemma matchKey_parts:
  assumes "length tag = 6" "length p = 8" "list_all isHexLower p" "length k = 43" "list_all isB64url k"
  shows "matchKey tag (tag @ p @ 95 # k) = Some (p, k)"
  using assms by (simp add: matchKey_def startsWith_append)

lemma isB64url_not_ws: "isB64url c \<Longrightarrow> \<not> isWs c"
  by (auto simp: isB64url_def char_class_defs)

lemma trim_key:
  assumes "tag = js ''rb_pk_'' \<or> tag = js ''rb_sk_''" "length k = 43" "list_all isB64url k"
  shows "trim (tag @ p @ 95 # k) = tag @ p @ 95 # k"
proof (rule trim_id)
  show "tag @ p @ 95 # k \<noteq> []" by simp
  show "\<not> isWs (hd (tag @ p @ 95 # k))" using assms(1) by (auto simp: js_eval isWs_def)
  have "k \<noteq> []" using assms(2) by auto
  then show "\<not> isWs (last (tag @ p @ 95 # k))"
    using assms(3) by (simp add: isB64url_not_ws list_all_iff)
qed

lemma entropy_texts:
  assumes "goodEntropy r"
  shows "length (toHex (fst r)) = 8" "list_all isHexLower (toHex (fst r))"
    "length (toBase64url (snd r)) = 43" "list_all isB64url (toBase64url (snd r))"
  using assms by (simp_all add: goodEntropy_def PREFIX_BYTES_def SECRET_BYTES_def toHex_lower
      toBase64url_chars length_toBase64url)

lemma parse_generated:
  assumes "goodEntropy r"
  shows "parsePublicKey (JStr (fst (generatePublicKey r))) =
      Inr \<lparr>pk_prefix = snd (generatePublicKey r), pk_secret = toBase64url (snd r), pk_full = fst (generatePublicKey r)\<rparr>"
    and "parseSecretToken (JStr (fst (generateSecretToken r))) =
      Inr \<lparr>pk_prefix = snd (generateSecretToken r), pk_secret = toBase64url (snd r), pk_full = fst (generateSecretToken r)\<rparr>"
    and "parsePublicKey (JStr (fst (generateSecretToken r))) = Inl (js ''Invalid public key format'')"
    and "parseSecretToken (JStr (fst (generatePublicKey r))) = Inl (js ''Invalid secret token format'')"
proof -
  note e = entropy_texts [OF assms]
  have len: "length PUBLIC_KEY_PREFIX = 6" "length SECRET_KEY_PREFIX = 6"
    by (simp_all add: PUBLIC_KEY_PREFIX_def SECRET_KEY_PREFIX_def js_eval)
  have t: "trim (PUBLIC_KEY_PREFIX @ toHex (fst r) @ 95 # toBase64url (snd r)) = PUBLIC_KEY_PREFIX @ toHex (fst r) @ 95 # toBase64url (snd r)"
    "trim (SECRET_KEY_PREFIX @ toHex (fst r) @ 95 # toBase64url (snd r)) = SECRET_KEY_PREFIX @ toHex (fst r) @ 95 # toBase64url (snd r)"
    using trim_key [OF _ e(3,4)] by (simp_all add: PUBLIC_KEY_PREFIX_def SECRET_KEY_PREFIX_def)
  have m: "matchKey PUBLIC_KEY_PREFIX (PUBLIC_KEY_PREFIX @ toHex (fst r) @ 95 # toBase64url (snd r)) = Some (toHex (fst r), toBase64url (snd r))"
    "matchKey SECRET_KEY_PREFIX (SECRET_KEY_PREFIX @ toHex (fst r) @ 95 # toBase64url (snd r)) = Some (toHex (fst r), toBase64url (snd r))"
    using matchKey_parts [OF _ e] len by simp_all
  have x: "matchKey PUBLIC_KEY_PREFIX (SECRET_KEY_PREFIX @ s) = None" "matchKey SECRET_KEY_PREFIX (PUBLIC_KEY_PREFIX @ s) = None" for s
    by (simp_all add: matchKey_def PUBLIC_KEY_PREFIX_def SECRET_KEY_PREFIX_def js_eval)
  show "parsePublicKey (JStr (fst (generatePublicKey r))) =
      Inr \<lparr>pk_prefix = snd (generatePublicKey r), pk_secret = toBase64url (snd r), pk_full = fst (generatePublicKey r)\<rparr>"
    "parseSecretToken (JStr (fst (generateSecretToken r))) =
      Inr \<lparr>pk_prefix = snd (generateSecretToken r), pk_secret = toBase64url (snd r), pk_full = fst (generateSecretToken r)\<rparr>"
    "parsePublicKey (JStr (fst (generateSecretToken r))) = Inl (js ''Invalid public key format'')"
    "parseSecretToken (JStr (fst (generatePublicKey r))) = Inl (js ''Invalid secret token format'')"
    by (simp_all add: parsePublicKey_def parseSecretToken_def generatePublicKey_def generateSecretToken_def Let_def t m x)
qed

lemma sameDigest_refl [simp]: "sameDigest h h"
  by (simp add: sameDigest_def)

lemma verify_generated:
  assumes "goodEntropy r" "hashPublicKey sha256 (fst (generatePublicKey r)) = Inr h"
  shows "verifyPublicKey sha256 (fst (generatePublicKey r)) h"
  using assms by (simp add: verifyPublicKey_def)

subsection \<open>Rotation\<close>

text \<open>The schema's constraints: prefixes and ids are unique, and the id supply is fresh.\<close>

definition keysOk :: "kdb \<Rightarrow> bool" where
  "keysOk db \<longleftrightarrow> distinct (map k_prefix (kd_keys db)) \<and> distinct (map k_id (kd_keys db))
     \<and> (\<forall>r \<in> set (kd_keys db). \<exists>n < kd_next db. k_id r = [n])"

definition activePublic :: "kdb \<Rightarrow> jstr \<Rightarrow> ProjectKeyRow list" where
  "activePublic db pid = listActiveKeysByProjectAndKind db pid (js ''public_ingest'')"

definition revokeRow :: "nat \<Rightarrow> jstr set \<Rightarrow> ProjectKeyRow \<Rightarrow> ProjectKeyRow" where
  "revokeRow now ids r = (if k_id r \<in> ids then r\<lparr>k_revokedAt := Some now\<rparr> else r)"

lemma revokeRow_fields [simp]:
  "k_id (revokeRow now ids r) = k_id r" "k_prefix (revokeRow now ids r) = k_prefix r"
  "k_projectId (revokeRow now ids r) = k_projectId r" "k_kind (revokeRow now ids r) = k_kind r"
  "k_keyHash (revokeRow now ids r) = k_keyHash r"
  by (simp_all add: revokeRow_def)

lemma revokeAll_eq:
  "revokeAll now rs db = db\<lparr>kd_keys := map (revokeRow now (k_id ` set rs)) (kd_keys db)\<rparr>"
proof (induction rs arbitrary: db)
  case Nil then show ?case by (simp add: revokeRow_def)
next
  case (Cons a rs)
  have "revokeRow now (k_id ` set rs) (if k_id r = k_id a then r\<lparr>k_revokedAt := Some now\<rparr> else r)
      = revokeRow now (k_id ` set (a # rs)) r" for r
    by (simp add: revokeRow_def)
  with Cons show ?case by (simp add: revokeKeyById_def updateKey_def Let_def o_def)
qed

lemma insertAttempts_first:
  assumes "hash (fst (gen 0)) = Inr h" "nk_prefix (mk (snd (gen 0)) h) = snd (gen 0)"
  shows "snd (gen 0) \<notin> k_prefix ` set (kd_keys db) \<Longrightarrow>
      insertAttempts now gen hash mk 0 (db, False) =
      (case insertProjectKey now (mk (snd (gen 0)) h) (db, False) of
        (x, tx) \<Rightarrow> (Inr (Some (projr x, gen 0)), tx))"
    and "snd (gen 0) \<in> k_prefix ` set (kd_keys db) \<Longrightarrow>
      \<exists>e tx. insertAttempts now gen hash mk 0 (db, False) = (Inl e, tx)"
proof -
  assume "snd (gen 0) \<notin> k_prefix ` set (kd_keys db)"
  then show "insertAttempts now gen hash mk 0 (db, False) =
      (case insertProjectKey now (mk (snd (gen 0)) h) (db, False) of
        (x, tx) \<Rightarrow> (Inr (Some (projr x, gen 0)), tx))"
    using assms by (simp add: insertAttempts.simps [of _ _ _ _ 0] insertProjectKey_def Let_def split_def)
next
  assume "snd (gen 0) \<in> k_prefix ` set (kd_keys db)"
  then have "insertAttempts now gen hash mk 0 (db, False) = insertAttempts now gen hash mk 1 (db, True)"
    using assms by (simp add: insertAttempts.simps [of _ _ _ _ 0] insertProjectKey_def Let_def split_def)
  also have "\<exists>e tx. \<dots> = (Inl e, tx)"
    by (subst insertAttempts.simps) (auto simp: insertProjectKey_def split_def split: sum.split)
  finally show "\<exists>e tx. insertAttempts now gen hash mk 0 (db, False) = (Inl e, tx)" .
qed

text \<open>What a successful rotation leaves in the key table, and when it does not succeed.\<close>

lemma hash_generated:
  assumes "goodEntropy r"
  shows "hashPublicKey sha256 (fst (generatePublicKey r)) = Inr (toHex (sha256 (utf8 (fst (generatePublicKey r)))))"
  using parse_generated(1) [OF assms] by (simp add: hashPublicKey_def)

definition rotatedRow :: "digest \<Rightarrow> nat \<Rightarrow> entropy \<Rightarrow> jstr \<Rightarrow> kdb \<Rightarrow> ProjectKeyRow" where
  "rotatedRow sha256 now r pid db =
     \<lparr>k_id = freshId db, k_projectId = pid, k_kind = js ''public_ingest'',
      k_name = js ''rotated-'' @ take 10 (isoText now), k_prefix = snd (generatePublicKey r),
      k_keyHash = toHex (sha256 (utf8 (fst (generatePublicKey r)))),
      k_lastUsedAt = None, k_revokedAt = None, k_createdAt = now\<rparr>"

lemma rotateTx_cases:
  assumes "goodEntropy (rand 0)"
  shows "if snd (generatePublicKey (rand 0)) \<in> k_prefix ` set (kd_keys db)
    then \<exists>e tx. rotateTx sha256 now rand user project db = (Inl e, tx)
    else \<exists>db'. rotateTx sha256 now rand user project db =
        (Inr (rotatedRow sha256 now (rand 0) (pv_id project) db, generatePublicKey (rand 0)), (db', False))
      \<and> kd_keys db' = map (revokeRow now (k_id ` set (activePublic db (pv_id project)))) (kd_keys db)
          @ [rotatedRow sha256 now (rand 0) (pv_id project) db]
      \<and> kd_next db' = kd_next db + 2"
proof -
  let ?gen = "\<lambda>attempt. generatePublicKey (rand attempt)"
  let ?mk = "\<lambda>prefix h. \<lparr>nk_projectId = pv_id project, nk_kind = js ''public_ingest'',
                  nk_name = js ''rotated-'' @ take 10 (isoText now), nk_prefix = prefix, nk_keyHash = h\<rparr>"
  let ?db1 = "revokeAll now (listActiveKeysByProjectAndKind db (pv_id project) (js ''public_ingest'')) db"
  have h: "hashPublicKey sha256 (fst (?gen 0)) = Inr (toHex (sha256 (utf8 (fst (?gen 0)))))"
    by (rule hash_generated [OF assms])
  have pre: "k_prefix ` set (kd_keys ?db1) = k_prefix ` set (kd_keys db)"
    by (simp add: revokeAll_eq image_image)
  have ne: "fst (?gen 0) \<noteq> []"
    by (simp add: generatePublicKey_def Let_def PUBLIC_KEY_PREFIX_def js_eval)
  show ?thesis
  proof (cases "snd (?gen 0) \<in> k_prefix ` set (kd_keys db)")
    case True
    have "\<exists>e tx. insertAttempts now ?gen (hashPublicKey sha256) ?mk 0 (?db1, False) = (Inl e, tx)"
      using True pre by (intro insertAttempts_first(2) [where h = "toHex (sha256 (utf8 (fst (?gen 0))))"]) (simp_all add: h)
    with True show ?thesis by (auto simp: rotateTx_def Let_def)
  next
    case False
    have i: "insertAttempts now ?gen (hashPublicKey sha256) ?mk 0 (?db1, False) =
      (case insertProjectKey now (?mk (snd (?gen 0)) (toHex (sha256 (utf8 (fst (?gen 0)))))) (?db1, False) of
        (x, tx) \<Rightarrow> (Inr (Some (projr x, ?gen 0)), tx))"
      using False pre by (intro insertAttempts_first(1)) (simp_all add: h)
    obtain full prefix where g: "generatePublicKey (rand 0) = (full, prefix)" by fastforce
    from i False ne show ?thesis
      by (simp add: rotateTx_def Let_def insertProjectKey_def pre g)
         (simp add: revokeAll_eq rotatedRow_def freshId_def activePublic_def auditKeyRow_def g)
  qed
qed

lemma findProject_id: "findProject db pid = Some p \<Longrightarrow> pv_id p = pid"
  by (auto simp: findProject_def dest: find_SomeD)

lemma authorizeProject_Inr: "authorizeProject db u pid c = Inr p \<Longrightarrow> findProject db pid = Some p"
  by (auto simp: authorizeProject_def bindE_Inr split: option.splits)

lemma rotated_table:
  assumes "keysOk db" "prefix \<notin> k_prefix ` set (kd_keys db)"
    and "row = rotatedRow sha256 now r pid db" "k_prefix row = prefix"
    and "kd_keys db' = map (revokeRow now (k_id ` set (activePublic db pid))) (kd_keys db) @ [row]"
    and "kd_next db' = kd_next db + 2"
  shows "keysOk db'" "activePublic db' pid = [row]"
    "filter (\<lambda>x. \<not> (k_projectId x = pid \<and> k_kind x = js ''public_ingest'')) (kd_keys db')
      = filter (\<lambda>x. \<not> (k_projectId x = pid \<and> k_kind x = js ''public_ingest'')) (kd_keys db)"
proof -
  let ?rev = "revokeRow now (k_id ` set (activePublic db pid))"
  have row: "k_id row = [kd_next db]" "k_projectId row = pid" "k_kind row = js ''public_ingest''" "k_revokedAt row = None"
    by (simp_all add: assms(3) rotatedRow_def freshId_def)
  have maps: "k_id \<circ> ?rev = k_id" "k_prefix \<circ> ?rev = k_prefix"
    by (simp_all add: fun_eq_iff)
  have ids: "\<forall>x \<in> set (kd_keys db). \<exists>n < kd_next db. k_id x = [n]"
    using assms(1) by (simp add: keysOk_def)
  have "k_id row \<notin> k_id ` set (kd_keys db)" using ids row(1) by fastforce
  moreover have "\<forall>x \<in> set (kd_keys db'). \<exists>n < kd_next db'. k_id x = [n]"
    using ids row(1) by (fastforce simp: assms(5,6))
  ultimately show "keysOk db'"
    using assms(1,2,4) maps by (simp add: keysOk_def assms(5) image_image)
  have "filter (\<lambda>x. k_projectId x = pid \<and> k_kind x = js ''public_ingest'' \<and> k_revokedAt x = None) (map ?rev (kd_keys db)) = []"
    by (auto simp: filter_empty_conv activePublic_def listActiveKeysByProjectAndKind_def revokeRow_def)
  with row show "activePublic db' pid = [row]"
    by (simp add: activePublic_def listActiveKeysByProjectAndKind_def assms(5))
  have "?rev x = x" if "x \<in> set (kd_keys db)" "\<not> (k_projectId x = pid \<and> k_kind x = js ''public_ingest'')" for x
  proof -
    have "inj_on k_id (set (kd_keys db))" using assms(1) by (simp add: keysOk_def distinct_map)
    with that have "k_id x \<notin> k_id ` set (activePublic db pid)"
      by (auto simp: activePublic_def listActiveKeysByProjectAndKind_def dest: inj_onD)
    then show ?thesis by (simp add: revokeRow_def)
  qed
  then show "filter (\<lambda>x. \<not> (k_projectId x = pid \<and> k_kind x = js ''public_ingest'')) (kd_keys db')
      = filter (\<lambda>x. \<not> (k_projectId x = pid \<and> k_kind x = js ''public_ingest'')) (kd_keys db)"
    using row by (simp add: assms(5) filter_map o_def) (rule map_idI, simp)
qed

subsection \<open>Properties\<close>

text \<open>
  C31: a generated credential parses back to its prefix and secret, verifies against the hash
  stored for it, and is never taken for a credential of the other kind, whatever hash is stored.
\<close>

theorem generated_credentials_roundtrip:
  assumes "goodEntropy r"
  shows "parsePublicKey (JStr (fst (generatePublicKey r))) =
      Inr \<lparr>pk_prefix = toHex (fst r), pk_secret = toBase64url (snd r), pk_full = fst (generatePublicKey r)\<rparr>
    \<and> parseSecretToken (JStr (fst (generateSecretToken r))) =
      Inr \<lparr>pk_prefix = toHex (fst r), pk_secret = toBase64url (snd r), pk_full = fst (generateSecretToken r)\<rparr>
    \<and> fromHex (toHex (fst r)) = fst r \<and> fromBase64url (toBase64url (snd r)) = snd r
    \<and> verifyPublicKey sha256 (fst (generatePublicKey r)) (projr (hashPublicKey sha256 (fst (generatePublicKey r))))
    \<and> verifySecretToken sha256 (fst (generateSecretToken r)) (projr (hashSecretToken sha256 (fst (generateSecretToken r))))
    \<and> \<not> verifyPublicKey sha256 (fst (generateSecretToken r)) stored
    \<and> \<not> verifySecretToken sha256 (fst (generatePublicKey r)) stored"
proof -
  note p = parse_generated [OF assms]
  have s: "snd (generatePublicKey r) = toHex (fst r)" "snd (generateSecretToken r) = toHex (fst r)"
    by (simp_all add: generatePublicKey_def generateSecretToken_def Let_def)
  have o: "octets (fst r)" "octets (snd r)" using assms by (simp_all add: goodEntropy_def)
  from p s o show ?thesis
    by (simp add: verifyPublicKey_def verifySecretToken_def hashPublicKey_def hashSecretToken_def)
qed

definition zeroEntropy :: entropy where "zeroEntropy = (replicate 4 0, replicate 32 0)"

lemma goodEntropy_zero: "goodEntropy zeroEntropy"
  by (simp add: goodEntropy_def zeroEntropy_def PREFIX_BYTES_def SECRET_BYTES_def octets_def list_all_iff)

lemma generated_credentials_roundtrip_witness:
  "\<not> verifyPublicKey (\<lambda>bs. bs) (fst (generateSecretToken zeroEntropy)) []"
  using generated_credentials_roundtrip [OF goodEntropy_zero, of "\<lambda>bs. bs" "[]"] by simp

text \<open>
  C19: a rotation that succeeds leaves the project with exactly one active ingest key, the one
  that is returned, which verifies against the stored hash; every earlier ingest key of the
  project is revoked and no other key row changes. One that fails changes nothing. When the
  first generated prefix is taken, the rotation fails: the transaction is aborted, so the
  second and third attempt of the loop cannot succeed.
\<close>

theorem rotation_leaves_one_active_key:
  assumes "keysOk db" "goodEntropy (rand 0)"
  shows "case rotatePublicIngestKey sha now rand user pid db of
      (Inl e, db') \<Rightarrow> db' = db
    | (Inr rk, db') \<Rightarrow> keysOk db' \<and> toHex (fst (rand 0)) \<notin> k_prefix ` set (kd_keys db)
        \<and> (\<exists>row. activePublic db' pid = [row] \<and> k_prefix row = rk_prefix rk
             \<and> verifyPublicKey sha (rk_key rk) (k_keyHash row))
        \<and> filter (\<lambda>x. \<not> (k_projectId x = pid \<and> k_kind x = js ''public_ingest'')) (kd_keys db')
          = filter (\<lambda>x. \<not> (k_projectId x = pid \<and> k_kind x = js ''public_ingest'')) (kd_keys db)"
proof (cases "authorizeProject db user pid key_rotate")
  case (Inl e) then show ?thesis by (simp add: rotatePublicIngestKey_def)
next
  case (Inr project)
  then have pid: "pv_id project = pid" using authorizeProject_Inr findProject_id by blast
  let ?g = "generatePublicKey (rand 0)" and ?row = "rotatedRow sha now (rand 0) pid db"
  have pre: "snd ?g = toHex (fst (rand 0))" by (simp add: generatePublicKey_def Let_def)
  show ?thesis
  proof (cases "snd ?g \<in> k_prefix ` set (kd_keys db)")
    case True
    then obtain e tx where "rotateTx sha now rand user project db = (Inl e, tx)"
      using rotateTx_cases [of rand db sha now user project] assms(2) by auto
    then show ?thesis using Inr by (simp add: rotatePublicIngestKey_def commitTx_def)
  next
    case False
    then obtain db' where t: "rotateTx sha now rand user project db = (Inr (?row, ?g), (db', False))"
      and keys: "kd_keys db' = map (revokeRow now (k_id ` set (activePublic db pid))) (kd_keys db) @ [?row]"
      and nxt: "kd_next db' = kd_next db + 2"
      using rotateTx_cases [of rand db sha now user project] assms(2) pid by auto
    have r: "k_prefix ?row = snd ?g" "k_keyHash ?row = toHex (sha (utf8 (fst ?g)))"
      by (simp_all add: rotatedRow_def)
    have "verifyPublicKey sha (fst ?g) (k_keyHash ?row)"
      using hash_generated [OF assms(2)] r(2) by (intro verify_generated [OF assms(2)]) simp
    with rotated_table [OF assms(1) False refl r(1) keys nxt] Inr t r False pre show ?thesis
      by (cases ?g) (simp add: rotatePublicIngestKey_def commitTx_def)
  qed
qed

definition demoKeys :: kdb where
  "demoKeys = \<lparr>kd_projects = [\<lparr>pv_id = [1], pv_workspaceId = [2]\<rparr>],
     kd_members = [\<lparr>mv_workspaceId = [2], mv_userId = [3], mv_role = Owner\<rparr>],
     kd_keys = [], kd_origins = [], kd_audit = [], kd_next = 0\<rparr>"

lemma demoKeys_ok: "keysOk demoKeys"
  by (simp add: keysOk_def demoKeys_def)

lemma rotation_leaves_one_active_key_witness:
  "case rotatePublicIngestKey (\<lambda>bs. []) 5 (\<lambda>_. zeroEntropy) [3] [1] demoKeys of
     (Inl e, db') \<Rightarrow> db' = demoKeys
   | (Inr rk, db') \<Rightarrow> keysOk db' \<and> (\<exists>row. activePublic db' [1] = [row] \<and> k_prefix row = rk_prefix rk)"
  using rotation_leaves_one_active_key [where db = demoKeys and rand = "\<lambda>_. zeroEntropy" and sha = "\<lambda>bs. []"
      and now = 5 and user = "[3]" and pid = "[1]", OF demoKeys_ok goodEntropy_zero]
  by (auto split: sum.splits prod.splits)

end
