(* ===== verification/Ingest.thy ===== *)
theory Ingest
  imports Keys Sanitize IssueRows Outbox
begin

text \<open>
  Telemetry ingestion (\<open>apps/api/src/routes/ingest.ts\<close>, \<open>apps/api/src/services/ingest.ts\<close>,
  \<open>packages/db/src/repositories/telemetry.ts\<close>): the key and origin checks, the rate-limit buckets,
  the validation of a batch, the sanitized batch, and one transaction per event that writes the
  session, the event and its outbox row.

  Parameters of the model, in \<open>ingestEnv\<close>: the URL API, the size of a serialized value, the
  platform's texts of numbers and dates, SHA-256 and HMAC, the driver's text of a bound value,
  and what the table's column types accept. A transaction may lose its connection before the
  callback has done anything or when it commits (\<open>txFault\<close>). Times are milliseconds.
\<close>

subsection \<open>State and parameters\<close>

record 'u ingestEnv =
  ie_url :: "'u urlApi"
  ie_byteSize :: "json \<Rightarrow> nat"
  ie_numText :: "rat \<Rightarrow> jstr"
  ie_column :: "json \<Rightarrow> jstr"
  ie_parseDate :: "jstr \<Rightarrow> int option"
  ie_sha256 :: digest
  ie_hmac :: "jstr \<Rightarrow> nat list \<Rightarrow> nat list"

record TelemetrySessionRow =
  ts_id :: jstr
  ts_projectId :: jstr
  ts_sdkSessionId :: jstr
  ts_anonymousUserHash :: "jstr option"
  ts_environment :: jstr
  ts_release :: "jstr option"
  ts_startedAt :: nat
  ts_lastSeenAt :: nat
  ts_initialUrl :: jstr
  ts_browserName :: "json option"
  ts_browserVersion :: "json option"
  ts_osName :: "json option"
  ts_osVersion :: "json option"
  ts_deviceType :: "json option"
  ts_viewportWidth :: "json option"
  ts_viewportHeight :: "json option"
  ts_sdkVersion :: "json option"

text \<open>An event row, as event processing sees it (\<open>EventRow\<close>), with the columns only ingestion writes.\<close>

record IngestedRow = "(json, json) EventRow" +
  ev_clientEventId :: jstr
  ev_sequence :: rat
  ev_environment :: jstr
  ev_pageUrl :: jstr
  ev_receivedAt :: nat

record BucketRow =
  b_projectId :: jstr
  b_keyPrefix :: jstr
  b_start :: nat
  b_requests :: nat
  b_events :: nat

record tdb =
  t_sessions :: "TelemetrySessionRow list"
  t_events :: "IngestedRow list"
  t_outbox :: "outboxRow list"
  t_buckets :: "BucketRow list"
  t_next :: nat

subsection \<open>Keys, origins and rate limits\<close>

definition bearer :: jstr where "bearer = js ''Bearer ''"

definition parseAndValidatePublicKey :: "jstr option \<Rightarrow> (jstr \<times> jstr) option" where
  "parseAndValidatePublicKey authHeader =
     (case authHeader of
        None \<Rightarrow> None
      | Some h \<Rightarrow>
          if h = [] then None
          else let key = (if startsWith h bearer then drop 7 h else h)
               in if \<not> startsWith key PUBLIC_KEY_PREFIX then None
                  else Some (let parts = split_on 95 key in if 2 < length parts then parts ! 2 else [], key))"

definition verifyIngestKey :: "digest \<Rightarrow> kdb \<Rightarrow> jstr \<Rightarrow> jstr \<Rightarrow> (jstr \<times> jstr) option" where
  "verifyIngestKey sha256 kd prefix fullKey =
     (case findKeyByPrefix kd prefix of
        None \<Rightarrow> None
      | Some keyRow \<Rightarrow>
          if k_revokedAt keyRow \<noteq> None then None
          else if k_kind keyRow \<noteq> js ''public_ingest'' then None
          else if \<not> verifyPublicKey sha256 fullKey (k_keyHash keyRow) then None
          else Some (k_projectId keyRow, k_id keyRow))"

definition validateOrigin :: "kdb \<Rightarrow> jstr \<Rightarrow> jstr option \<Rightarrow> bool" where
  "validateOrigin kd projectId origin =
     (case origin of
        None \<Rightarrow> False
      | Some o' \<Rightarrow>
          if o' = [] then False
          else o' \<in> set (map og_origin (filter og_isEnabled (listOriginsByProject kd projectId))))"

record RateLimitCheckResult =
  rl_allowed :: bool
  rl_requestCount :: nat
  rl_eventCount :: nat
  rl_retryAfterSeconds :: "nat option"

definition bucketStart :: "nat \<Rightarrow> nat" where "bucketStart now = now - now mod 60000"

definition isBucket :: "jstr \<Rightarrow> jstr \<Rightarrow> nat \<Rightarrow> BucketRow \<Rightarrow> bool" where
  "isBucket pid prefix start b \<longleftrightarrow> b_projectId b = pid \<and> b_keyPrefix b = prefix \<and> b_start b = start"

definition bumpBucket :: "nat \<Rightarrow> BucketRow \<Rightarrow> BucketRow" where
  "bumpBucket n b = b\<lparr>b_requests := b_requests b + 1, b_events := b_events b + n\<rparr>"

text \<open>The upsert on the unique triple of project, prefix and minute.\<close>

definition upsertBucket :: "jstr \<Rightarrow> jstr \<Rightarrow> nat \<Rightarrow> nat \<Rightarrow> BucketRow list \<Rightarrow> BucketRow \<times> BucketRow list" where
  "upsertBucket pid prefix start n buckets =
     (case List.find (isBucket pid prefix start) buckets of
        Some b \<Rightarrow> (bumpBucket n b, map (\<lambda>b. if isBucket pid prefix start b then bumpBucket n b else b) buckets)
      | None \<Rightarrow> let b = \<lparr>b_projectId = pid, b_keyPrefix = prefix, b_start = start, b_requests = 1, b_events = n\<rparr>
                in (b, buckets @ [b]))"

definition checkAndIncrementRateLimit ::
  "nat \<Rightarrow> jstr \<Rightarrow> jstr \<Rightarrow> nat \<Rightarrow> nat \<Rightarrow> nat \<Rightarrow> tdb \<Rightarrow> RateLimitCheckResult \<times> tdb" where
  "checkAndIncrementRateLimit now projectId keyPrefix maxRequestsPerMinute maxEventsPerMinute eventCount db =
     (case upsertBucket projectId keyPrefix (bucketStart now) eventCount (t_buckets db) of
        (bucket, buckets) \<Rightarrow>
          let allowed = (\<not> b_requests bucket > maxRequestsPerMinute \<and> \<not> b_events bucket > maxEventsPerMinute)
          in (\<lparr>rl_allowed = allowed, rl_requestCount = b_requests bucket, rl_eventCount = b_events bucket,
               rl_retryAfterSeconds = (if allowed then None else Some ((bucketStart now + 60000 - now + 999) div 1000))\<rparr>,
              db\<lparr>t_buckets := buckets\<rparr>))"

definition checkRateLimit ::
  "nat \<Rightarrow> jstr \<Rightarrow> jstr \<Rightarrow> nat \<Rightarrow> nat \<Rightarrow> nat \<Rightarrow> tdb \<Rightarrow> (bool \<times> nat option) \<times> tdb" where
  "checkRateLimit now projectId keyPrefix eventCount maxRequestsPerMinute maxEventsPerMinute db =
     (case checkAndIncrementRateLimit now projectId keyPrefix maxRequestsPerMinute maxEventsPerMinute eventCount db of
        (result, db') \<Rightarrow> ((rl_allowed result, rl_retryAfterSeconds result), db'))"

subsection \<open>Validating a batch\<close>

datatype IngestErrorCode = INVALID_PUBLIC_KEY | REVOKED_PUBLIC_KEY | DISALLOWED_ORIGIN
  | UNSUPPORTED_PROTOCOL_VERSION | MALFORMED_PAYLOAD | PAYLOAD_TOO_LARGE | RATE_LIMITED | UNSUPPORTED_EVENT_TYPE

record IngestError =
  in_code :: "IngestErrorCode option"
  in_message :: jstr
  in_requestId :: jstr
  in_details :: "json option"
  in_status :: nat

definition createIngestError :: "IngestErrorCode \<Rightarrow> jstr \<Rightarrow> jstr \<Rightarrow> json option \<Rightarrow> nat \<Rightarrow> IngestError" where
  "createIngestError code message requestId details status =
     \<lparr>in_code = Some code, in_message = message, in_requestId = requestId, in_details = details, in_status = status\<rparr>"

text \<open>A driver error reaches the route as a plain \<open>Error\<close>: no ingest code, no status, no details.\<close>

definition driverError :: "jstr \<Rightarrow> IngestError" where
  "driverError message = \<lparr>in_code = None, in_message = message, in_requestId = [], in_details = None, in_status = 0\<rparr>"

record BatchValidationLimits =
  bl_maxBatchEvents :: nat
  bl_maxEventBytes :: nat
  bl_maxBodyBytes :: nat

definition defaultLimits :: BatchValidationLimits where
  "defaultLimits = \<lparr>bl_maxBatchEvents = 50, bl_maxEventBytes = 128 * 1024, bl_maxBodyBytes = 512 * 1024\<rparr>"

definition PROTOCOL_VERSION :: rat where "PROTOCOL_VERSION = 1"

definition validTypes :: "jstr list" where
  "validTypes = map js [''exception'', ''unhandled_rejection'', ''console_error'', ''network'', ''navigation'',
     ''click'', ''input'', ''message'', ''custom_breadcrumb'', ''sdk'']"

abbreviation malformed :: "jstr \<Rightarrow> jstr \<Rightarrow> IngestError" where
  "malformed requestId message \<equiv> createIngestError MALFORMED_PAYLOAD message requestId None 400"

definition eventAt :: "nat \<Rightarrow> string \<Rightarrow> jstr" where
  "eventAt i message = js ''Event at index '' @ showNat i @ js message"

definition nonemptyString :: "json option \<Rightarrow> bool" where
  "nonemptyString v \<longleftrightarrow> truthy v \<and> typeofString v"

text \<open>One turn of the loop over the events.\<close>

definition validateEvent ::
  "'u ingestEnv \<Rightarrow> jstr \<Rightarrow> BatchValidationLimits \<Rightarrow> nat \<Rightarrow> json \<Rightarrow> IngestError + unit" where
  "validateEvent env requestId limits i event =
     bindE (guardE (truthy (Some event) \<and> typeofObject (Some event))
        (malformed requestId (eventAt i '' is not an object''))) (\<lambda>_.
     let eventBytes = ie_byteSize env event in
     bindE (guardE (\<not> eventBytes > bl_maxEventBytes limits)
        (createIngestError PAYLOAD_TOO_LARGE
           (eventAt i '' exceeds maximum size of '' @ showNat (bl_maxEventBytes limits) @ js '' bytes'') requestId
           (Some (JObj [(js ''index'', JNum (of_nat i)), (js ''received'', JNum (of_nat eventBytes)),
              (js ''max'', JNum (of_nat (bl_maxEventBytes limits)))])) 413)) (\<lambda>_.
     bindE (guardE (nonemptyString (getProp event (js ''event_id'')))
        (malformed requestId (eventAt i '' missing event_id''))) (\<lambda>_.
     bindE (guardE (typeofNumber (getProp event (js ''sequence_number'')))
        (malformed requestId (eventAt i '' missing sequence_number''))) (\<lambda>_.
     bindE (guardE (nonemptyString (getProp event (js ''event_type'')))
        (malformed requestId (eventAt i '' missing event_type''))) (\<lambda>_.
     bindE (guardE (the (map_option strOf (getProp event (js ''event_type''))) \<in> set validTypes)
        (createIngestError UNSUPPORTED_EVENT_TYPE
           (eventAt i '' has unsupported event_type: '' @ the (map_option strOf (getProp event (js ''event_type''))))
           requestId None 400)) (\<lambda>_.
     bindE (guardE (nonemptyString (getProp event (js ''timestamp'')))
        (malformed requestId (eventAt i '' missing timestamp''))) (\<lambda>_.
     guardE (truthy (getProp event (js ''payload'')) \<and> typeofObject (getProp event (js ''payload'')))
        (malformed requestId (eventAt i '' missing payload'')))))))))"

fun validateEvents ::
  "'u ingestEnv \<Rightarrow> jstr \<Rightarrow> BatchValidationLimits \<Rightarrow> nat \<Rightarrow> json list \<Rightarrow> IngestError + unit" where
  "validateEvents env requestId limits i [] = Inr ()"
| "validateEvents env requestId limits i (e # es) =
     bindE (validateEvent env requestId limits i e) (\<lambda>_. validateEvents env requestId limits (i + 1) es)"

fun arrayOf :: "json option \<Rightarrow> json list option" where
  "arrayOf (Some (JArr xs)) = Some xs"
| "arrayOf v = None"

definition validateBatchRequest ::
  "'u ingestEnv \<Rightarrow> json \<Rightarrow> jstr \<Rightarrow> BatchValidationLimits \<Rightarrow> IngestError + json" where
  "validateBatchRequest env body requestId limits =
     bindE (guardE (truthy (Some body) \<and> typeofObject (Some body))
        (malformed requestId (js ''Request body must be a JSON object''))) (\<lambda>_.
     let bodyBytes = ie_byteSize env body in
     bindE (guardE (\<not> bodyBytes > bl_maxBodyBytes limits)
        (createIngestError PAYLOAD_TOO_LARGE
           (js ''Request body exceeds the maximum size of '' @ showNat (bl_maxBodyBytes limits) @ js '' bytes'')
           requestId (Some (JObj [(js ''received'', JNum (of_nat bodyBytes)),
             (js ''max'', JNum (of_nat (bl_maxBodyBytes limits)))])) 413)) (\<lambda>_.
     bindE (guardE (getProp body (js ''protocol_version'') = Some (JNum PROTOCOL_VERSION))
        (createIngestError UNSUPPORTED_PROTOCOL_VERSION (js ''Unsupported protocol version. Expected 1'')
           requestId (Some (objectOf [(js ''received'', getProp body (js ''protocol_version''))])) 400)) (\<lambda>_.
     case arrayOf (getProp body (js ''events'')) of
       None \<Rightarrow> Inl (malformed requestId (js ''Missing or invalid events array''))
     | Some events \<Rightarrow>
         bindE (guardE (length events \<noteq> 0) (malformed requestId (js ''Events array cannot be empty''))) (\<lambda>_.
         bindE (guardE (\<not> length events > bl_maxBatchEvents limits)
            (createIngestError PAYLOAD_TOO_LARGE
               (js ''Too many events in batch. Maximum '' @ showNat (bl_maxBatchEvents limits)) requestId
               (Some (JObj [(js ''received'', JNum (of_nat (length events))),
                  (js ''max'', JNum (of_nat (bl_maxBatchEvents limits)))])) 413)) (\<lambda>_.
         let session = getProp body (js ''session'') in
         bindE (guardE (truthy session \<and> typeofObject session)
            (malformed requestId (js ''Missing or invalid session metadata''))) (\<lambda>_.
         bindE (guardE (nonemptyString (getProp (the session) (js ''sdk_session_id'')))
            (malformed requestId (js ''Missing or invalid sdk_session_id''))) (\<lambda>_.
         bindE (guardE (nonemptyString (getProp (the session) (js ''initial_url'')))
            (malformed requestId (js ''Missing or invalid initial_url''))) (\<lambda>_.
         bindE (validateEvents env requestId limits 0 events) (\<lambda>_. Inr body))))))))) "

subsection \<open>The sanitized batch\<close>

definition sanitizeBatchEvent :: "'u urlApi \<Rightarrow> json \<Rightarrow> json" where
  "sanitizeBatchEvent api event =
     (if truthy (Some event) \<and> typeofObject (Some event) then
        (let e = JObj (entries event);
             breadcrumbs = (case getProp e (js ''breadcrumbs'') of
                Some (JArr bs) \<Rightarrow> Some (JArr (lastn MAX_BREADCRUMBS bs)) | b \<Rightarrow> b);
             context = (if truthy (getProp e (js ''context''))
                then Some (sanitizeContext (the (getProp e (js ''context'')))) else None);
             payload = (if truthy (getProp e (js ''payload''))
                then Some (sanitizeEventPayload api (the (getProp e (js ''payload'')))) else None)
         in putProp (js ''payload'') payload (putProp (js ''context'') context (putProp (js ''breadcrumbs'') breadcrumbs e)))
      else event)"

definition sanitizeBatchRequest :: "'u urlApi \<Rightarrow> json \<Rightarrow> json" where
  "sanitizeBatchRequest api batch =
     (let result = (case getProp batch (js ''events'') of
            Some (JArr es) \<Rightarrow> putProp (js ''events'') (Some (JArr (map (sanitizeBatchEvent api) es))) batch
          | _ \<Rightarrow> batch)
      in case getProp result (js ''session'') of
           Some (JObj m) \<Rightarrow>
             (case getProp (JObj m) (js ''initial_url'') of
                Some (JStr u) \<Rightarrow>
                  (if u = [] then result
                   else putProp (js ''session'')
                     (Some (putProp (js ''initial_url'') (Some (JStr (sanitizeUrl api u))) (JObj m))) result)
              | _ \<Rightarrow> result)
         | _ \<Rightarrow> result)"

text \<open>The first pass, which \<open>ingestBatch\<close> makes itself before it calls \<open>sanitizeBatchRequest\<close>.\<close>

definition presanitizeEvent :: "'u urlApi \<Rightarrow> json \<Rightarrow> json" where
  "presanitizeEvent api e =
     putProp (js ''payload'')
       (if truthy (getProp e (js ''payload'')) then Some (sanitizeEventPayload api (the (getProp e (js ''payload'')))) else None)
       (putProp (js ''context'')
         (if truthy (getProp e (js ''context'')) then Some (sanitizeContext (the (getProp e (js ''context'')))) else None)
         (JObj (entries e)))"

definition strProp :: "json \<Rightarrow> string \<Rightarrow> jstr" where
  "strProp j k = strOf (case getProp j (js k) of None \<Rightarrow> JNull | Some v \<Rightarrow> v)"

definition sanitizedBatchOf :: "'u urlApi \<Rightarrow> json \<Rightarrow> json" where
  "sanitizedBatchOf api batch =
     (let session = (case getProp batch (js ''session'') of None \<Rightarrow> JObj [] | Some s \<Rightarrow> s);
          events = (case arrayOf (getProp batch (js ''events'')) of None \<Rightarrow> [] | Some es \<Rightarrow> es)
      in sanitizeBatchRequest api (objectOf [
           (js ''protocol_version'', getProp batch (js ''protocol_version'')),
           (js ''sdk_name'', getProp batch (js ''sdk_name'')),
           (js ''sdk_version'', getProp batch (js ''sdk_version'')),
           (js ''session'', Some (putProp (js ''initial_url'')
              (Some (JStr (sanitizeUrl api (strProp session ''initial_url'')))) (JObj (entries session)))),
           (js ''events'', Some (JArr (map (presanitizeEvent api) events)))]))"

subsection \<open>Rows\<close>

record CreateTelemetrySessionInput =
  cs_projectId :: jstr
  cs_sdkSessionId :: jstr
  cs_anonymousUserHash :: "jstr option"
  cs_environment :: jstr
  cs_release :: "jstr option"
  cs_initialUrl :: jstr
  cs_browserName :: "json option"
  cs_browserVersion :: "json option"
  cs_osName :: "json option"
  cs_osVersion :: "json option"
  cs_deviceType :: "json option"
  cs_viewportWidth :: "json option"
  cs_viewportHeight :: "json option"
  cs_sdkVersion :: "json option"

record NewEvent =
  ne_projectId :: jstr
  ne_telemetrySessionId :: jstr
  ne_clientEventId :: jstr
  ne_sequenceNumber :: rat
  ne_eventType :: jstr
  ne_occurredAt :: int
  ne_environment :: jstr
  ne_release :: "jstr option"
  ne_pageUrl :: jstr
  ne_payload :: json

text \<open>
  What PostgreSQL accepts in the columns of the two tables (integer ranges, no zero bytes in
  text): parameters on the values bound to the statement, without the generated ids.
\<close>

record dbTypes =
  db_session :: "CreateTelemetrySessionInput \<Rightarrow> bool"
  db_event :: "NewEvent \<Rightarrow> bool"

definition isSession :: "jstr \<Rightarrow> jstr \<Rightarrow> TelemetrySessionRow \<Rightarrow> bool" where
  "isSession pid sid s \<longleftrightarrow> ts_projectId s = pid \<and> ts_sdkSessionId s = sid"

definition touchSession :: "nat \<Rightarrow> CreateTelemetrySessionInput \<Rightarrow> TelemetrySessionRow \<Rightarrow> TelemetrySessionRow" where
  "touchSession now input s =
     s\<lparr>ts_lastSeenAt := now, ts_anonymousUserHash := cs_anonymousUserHash input,
       ts_environment := cs_environment input, ts_release := cs_release input\<rparr>"

definition newSessionRow :: "jstr \<Rightarrow> nat \<Rightarrow> CreateTelemetrySessionInput \<Rightarrow> TelemetrySessionRow" where
  "newSessionRow i now input =
     \<lparr>ts_id = i, ts_projectId = cs_projectId input, ts_sdkSessionId = cs_sdkSessionId input,
      ts_anonymousUserHash = cs_anonymousUserHash input, ts_environment = cs_environment input,
      ts_release = cs_release input, ts_startedAt = now, ts_lastSeenAt = now,
      ts_initialUrl = cs_initialUrl input, ts_browserName = cs_browserName input,
      ts_browserVersion = cs_browserVersion input, ts_osName = cs_osName input,
      ts_osVersion = cs_osVersion input, ts_deviceType = cs_deviceType input,
      ts_viewportWidth = cs_viewportWidth input, ts_viewportHeight = cs_viewportHeight input,
      ts_sdkVersion = cs_sdkVersion input\<rparr>"

definition upsertTelemetrySession ::
  "dbTypes \<Rightarrow> nat \<Rightarrow> CreateTelemetrySessionInput \<Rightarrow> tdb \<Rightarrow> jstr + TelemetrySessionRow \<times> tdb" where
  "upsertTelemetrySession types now input db =
     (if \<not> db_session types input then Inl (js ''invalid value for a column of telemetry_sessions'')
      else case List.find (isSession (cs_projectId input) (cs_sdkSessionId input)) (t_sessions db) of
        Some s \<Rightarrow> Inr (touchSession now input s,
          db\<lparr>t_sessions := map (\<lambda>s. if isSession (cs_projectId input) (cs_sdkSessionId input) s
                then touchSession now input s else s) (t_sessions db)\<rparr>)
      | None \<Rightarrow> let s = newSessionRow [t_next db] now input
                in Inr (s, db\<lparr>t_sessions := t_sessions db @ [s], t_next := t_next db + 1\<rparr>))"

definition findTelemetrySession :: "tdb \<Rightarrow> jstr \<Rightarrow> jstr \<Rightarrow> TelemetrySessionRow option" where
  "findTelemetrySession db pid sid = List.find (isSession pid sid) (t_sessions db)"

definition isEvent :: "jstr \<Rightarrow> jstr \<Rightarrow> IngestedRow \<Rightarrow> bool" where
  "isEvent pid cid e \<longleftrightarrow> ev_projectId e = pid \<and> ev_clientEventId e = cid"

definition eventExists :: "tdb \<Rightarrow> jstr \<Rightarrow> jstr \<Rightarrow> bool" where
  "eventExists db pid cid = list_ex (isEvent pid cid) (t_events db)"

definition newEventRow :: "jstr \<Rightarrow> nat \<Rightarrow> NewEvent \<Rightarrow> IngestedRow" where
  "newEventRow i now v =
     \<lparr>ev_id = i, ev_projectId = ne_projectId v, ev_session = ne_telemetrySessionId v, ev_type = ne_eventType v,
      ev_occurredAt = ne_occurredAt v, ev_release = ne_release v, ev_payload = ne_payload v,
      ev_fingerprint = None, ev_issueId = None, ev_symbolication = None, ev_state = Pending,
      ev_rejection = None, ev_clientEventId = ne_clientEventId v, ev_sequence = ne_sequenceNumber v,
      ev_environment = ne_environment v, ev_pageUrl = ne_pageUrl v, ev_receivedAt = now\<rparr>"

text \<open>\<open>ON CONFLICT DO NOTHING\<close>: no row is returned for a duplicate.\<close>

definition insertEvent :: "dbTypes \<Rightarrow> nat \<Rightarrow> NewEvent \<Rightarrow> tdb \<Rightarrow> jstr + IngestedRow option \<times> tdb" where
  "insertEvent types now values db =
     (if \<not> db_event types (values\<lparr>ne_telemetrySessionId := []\<rparr>) then Inl (js ''invalid value for a column of events'')
      else if eventExists db (ne_projectId values) (ne_clientEventId values) then Inr (None, db)
      else let row = newEventRow [t_next db] now values
           in Inr (Some row, db\<lparr>t_events := t_events db @ [row], t_next := t_next db + 1\<rparr>))"

definition insertOutbox :: "nat \<Rightarrow> jstr \<Rightarrow> tdb \<Rightarrow> jstr + tdb" where
  "insertOutbox now eventId db = bindE (insertRow now eventId (t_outbox db)) (\<lambda>t. Inr (db\<lparr>t_outbox := t\<rparr>))"

subsection \<open>Ingesting a batch\<close>

datatype txFault = NoFault | FailsFirst | FailsAtCommit

record IngestResult =
  ir_accepted :: nat
  ir_duplicate :: nat
  ir_rejected :: nat
  ir_requestId :: jstr

record IngestContext =
  ic_projectId :: jstr
  ic_keyPrefix :: jstr
  ic_requestId :: jstr

record IngestConfig =
  ig_maxRequestsPerMinute :: nat
  ig_maxEventsPerMinute :: nat
  ig_userHmacSecret :: jstr

definition orUnknown :: "'u ingestEnv \<Rightarrow> json option \<Rightarrow> jstr" where
  "orUnknown env v = ie_column env (orJson v (JStr (js ''unknown'')))"

definition orNull :: "json option \<Rightarrow> json option" where
  "orNull v = (if truthy v then v else None)"

definition browserProp :: "json \<Rightarrow> string \<Rightarrow> json option" where
  "browserProp session k =
     orNull (case getProp session (js ''browser'') of None \<Rightarrow> None | Some b \<Rightarrow> getProp b (js k))"

definition anonymousUserHashOf :: "'u ingestEnv \<Rightarrow> IngestConfig \<Rightarrow> jstr \<Rightarrow> json \<Rightarrow> jstr option" where
  "anonymousUserHashOf env config projectId session =
     (let rawUserId = getProp session (js ''user_id'') in
      if truthy rawUserId
      then (case deriveAnonymousUserHash (ie_hmac env) (ie_numText env) projectId (the rawUserId) (ig_userHmacSecret config) of
              Inl _ \<Rightarrow> None | Inr h \<Rightarrow> Some h)
      else None)"

definition sessionInput ::
  "'u ingestEnv \<Rightarrow> IngestConfig \<Rightarrow> jstr \<Rightarrow> json \<Rightarrow> CreateTelemetrySessionInput" where
  "sessionInput env config projectId batch =
     (let session = (case getProp batch (js ''session'') of None \<Rightarrow> JNull | Some s \<Rightarrow> s) in
      \<lparr>cs_projectId = projectId, cs_sdkSessionId = strProp session ''sdk_session_id'',
       cs_anonymousUserHash = anonymousUserHashOf env config projectId session,
       cs_environment = orUnknown env (getProp session (js ''environment'')),
       cs_release = map_option (ie_column env) (orNull (getProp session (js ''release''))),
       cs_initialUrl = strProp session ''initial_url'',
       cs_browserName = browserProp session ''name'', cs_browserVersion = browserProp session ''version'',
       cs_osName = browserProp session ''os_name'', cs_osVersion = browserProp session ''os_version'',
       cs_deviceType = browserProp session ''device_type'',
       cs_viewportWidth = browserProp session ''viewport_width'',
       cs_viewportHeight = browserProp session ''viewport_height'',
       cs_sdkVersion = getProp batch (js ''sdk_version'')\<rparr>)"

definition pageUrlOf :: "'u ingestEnv \<Rightarrow> json \<Rightarrow> json option \<Rightarrow> jstr" where
  "pageUrlOf env session payload =
     (case payload of
        Some p \<Rightarrow>
          (if typeofObject (Some p) \<and> getProp p (js ''page_url'') \<noteq> None
           then stringOf (ie_numText env) (the (getProp p (js ''page_url''))) else strProp session ''initial_url'')
      | None \<Rightarrow> strProp session ''initial_url'')"

definition numOf :: "json option \<Rightarrow> rat" where
  "numOf v = (case v of Some (JNum q) \<Rightarrow> q | _ \<Rightarrow> 0)"

text \<open>The values of the insert; \<open>None\<close> for an invalid date, which the driver refuses to serialize.\<close>

definition eventValues ::
  "'u ingestEnv \<Rightarrow> jstr \<Rightarrow> json \<Rightarrow> jstr \<Rightarrow> json \<Rightarrow> NewEvent option" where
  "eventValues env projectId batch sessionId event =
     (let session = (case getProp batch (js ''session'') of None \<Rightarrow> JNull | Some s \<Rightarrow> s) in
      case ie_parseDate env (strProp event ''timestamp'') of
        None \<Rightarrow> None
      | Some occurredAt \<Rightarrow> Some
          \<lparr>ne_projectId = projectId, ne_telemetrySessionId = sessionId,
           ne_clientEventId = strProp event ''event_id'',
           ne_sequenceNumber = numOf (getProp event (js ''sequence_number'')),
           ne_eventType = strProp event ''event_type'', ne_occurredAt = occurredAt,
           ne_environment = orUnknown env (getProp session (js ''environment'')),
           ne_release = map_option (ie_column env) (orNull (getProp session (js ''release''))),
           ne_pageUrl = pageUrlOf env session (getProp event (js ''payload'')),
           ne_payload = (case getProp event (js ''payload'') of None \<Rightarrow> JNull | Some p \<Rightarrow> p)\<rparr>)"

text \<open>The callback of one event's transaction: whether the event was new, and the new state.\<close>

definition eventTx ::
  "'u ingestEnv \<Rightarrow> dbTypes \<Rightarrow> IngestConfig \<Rightarrow> nat \<Rightarrow> jstr \<Rightarrow> json \<Rightarrow> json \<Rightarrow> tdb \<Rightarrow> jstr + bool \<times> tdb" where
  "eventTx env types config now projectId batch event db =
     bindE (upsertTelemetrySession types now (sessionInput env config projectId batch) db) (\<lambda>(telemetrySession, db1).
     if eventExists db1 projectId (strProp event ''event_id'') then Inr (False, db1)
     else case eventValues env projectId batch (ts_id telemetrySession) event of
       None \<Rightarrow> Inl (js ''Invalid time value'')
     | Some values \<Rightarrow>
         bindE (insertEvent types now values db1) (\<lambda>(inserted, db2).
         case inserted of
           None \<Rightarrow> Inr (False, db2)
         | Some row \<Rightarrow> bindE (insertOutbox now (ev_id row) db2) (\<lambda>db3. Inr (True, db3))))"

definition countOutcome :: "bool \<Rightarrow> IngestResult \<Rightarrow> IngestResult" where
  "countOutcome isNew res =
     (if isNew then res\<lparr>ir_accepted := ir_accepted res + 1\<rparr> else res\<lparr>ir_duplicate := ir_duplicate res + 1\<rparr>)"

definition countRejected :: "IngestResult \<Rightarrow> IngestResult" where
  "countRejected res = res\<lparr>ir_rejected := ir_rejected res + 1\<rparr>"

text \<open>
  One turn of the loop. The callback counts before the commit, so a commit that fails leaves
  its count standing and adds a rejection.
\<close>

definition ingestOne ::
  "'u ingestEnv \<Rightarrow> dbTypes \<Rightarrow> IngestConfig \<Rightarrow> nat \<Rightarrow> jstr \<Rightarrow> json \<Rightarrow> txFault \<Rightarrow> json \<Rightarrow> IngestResult \<Rightarrow> tdb
    \<Rightarrow> IngestResult \<times> tdb" where
  "ingestOne env types config now projectId batch fault event res db =
     (if fault = FailsFirst then (countRejected res, db)
      else case eventTx env types config now projectId batch event db of
        Inl e \<Rightarrow> (countRejected res, db)
      | Inr (isNew, db') \<Rightarrow>
          if fault = FailsAtCommit then (countRejected (countOutcome isNew res), db)
          else (countOutcome isNew res, db'))"

fun ingestEvents ::
  "'u ingestEnv \<Rightarrow> dbTypes \<Rightarrow> IngestConfig \<Rightarrow> nat \<Rightarrow> jstr \<Rightarrow> json \<Rightarrow> (nat \<Rightarrow> txFault) \<Rightarrow> nat \<Rightarrow> json list
    \<Rightarrow> IngestResult \<Rightarrow> tdb \<Rightarrow> IngestResult \<times> tdb" where
  "ingestEvents env types config now projectId batch faults i [] res db = (res, db)"
| "ingestEvents env types config now projectId batch faults i (event # es) res db =
     (case ingestOne env types config now projectId batch (faults i) event res db of
        (res', db') \<Rightarrow> ingestEvents env types config now projectId batch faults (i + 1) es res' db')"

definition eventsOf :: "json \<Rightarrow> json list" where
  "eventsOf batch = (case arrayOf (getProp batch (js ''events'')) of None \<Rightarrow> [] | Some es \<Rightarrow> es)"

definition noIngest :: "jstr \<Rightarrow> IngestResult" where
  "noIngest requestId = \<lparr>ir_accepted = 0, ir_duplicate = 0, ir_rejected = 0, ir_requestId = requestId\<rparr>"

definition ingestBatch ::
  "'u ingestEnv \<Rightarrow> dbTypes \<Rightarrow> nat \<Rightarrow> (nat \<Rightarrow> txFault) \<Rightarrow> IngestContext \<Rightarrow> json \<Rightarrow> IngestConfig \<Rightarrow> tdb
    \<Rightarrow> (IngestError + IngestResult) \<times> tdb" where
  "ingestBatch env types now faults context batch config db =
     (case checkRateLimit now (ic_projectId context) (ic_keyPrefix context) (length (eventsOf batch))
             (ig_maxRequestsPerMinute config) (ig_maxEventsPerMinute config) db of
        ((allowed, retryAfter), db1) \<Rightarrow>
          if \<not> allowed
          then (Inl (createIngestError RATE_LIMITED (js ''Rate limit exceeded'') (ic_requestId context)
                  (Some (JObj [(js ''retryAfterSeconds'', (case retryAfter of None \<Rightarrow> JNull | Some n \<Rightarrow> JNum (of_nat n)))])) 429), db1)
          else (let sanitizedBatch = sanitizedBatchOf (ie_url env) batch in
                case ingestEvents env types config now (ic_projectId context) sanitizedBatch faults 0
                       (eventsOf sanitizedBatch) (noIngest (ic_requestId context)) db1 of
                  (res, db2) \<Rightarrow> (Inr res, db2)))"

subsection \<open>The route\<close>

record IngestRequest =
  rq_id :: jstr
  rq_key :: "jstr option"
  rq_origin :: "jstr option"
  rq_body :: json

text \<open>The reply: status, \<open>Retry-After\<close>, whether any origin may read it, and the body.\<close>

record IngestReply =
  rp_status :: nat
  rp_retryAfter :: "json option"
  rp_readable :: bool
  rp_body :: "IngestError + IngestResult"

definition sendIngestError :: "bool \<Rightarrow> IngestError \<Rightarrow> IngestReply" where
  "sendIngestError readable error =
     (let retryAfter = (case in_details error of None \<Rightarrow> None | Some d \<Rightarrow> getProp d (js ''retryAfterSeconds''))
      in \<lparr>rp_status = (if in_status error = 0 then 400 else in_status error),
          rp_retryAfter = (if truthy retryAfter then retryAfter else None),
          rp_readable = readable, rp_body = Inl error\<rparr>)"

text \<open>The query before the events that may meet a database that is down.\<close>

datatype outage = Up | KeyLookupFails | OriginLookupFails | BucketFails

definition postBatch ::
  "'u ingestEnv \<Rightarrow> dbTypes \<Rightarrow> nat \<Rightarrow> outage \<Rightarrow> (nat \<Rightarrow> txFault) \<Rightarrow> BatchValidationLimits \<Rightarrow> IngestConfig \<Rightarrow> kdb
    \<Rightarrow> IngestRequest \<Rightarrow> tdb \<Rightarrow> IngestReply \<times> tdb" where
  "postBatch env types now down faults limits config kd request db =
     (case parseAndValidatePublicKey (rq_key request) of
        None \<Rightarrow> (sendIngestError False (createIngestError INVALID_PUBLIC_KEY
                  (js ''Missing or invalid X-ReplayBug-Key header'') (rq_id request) None 401), db)
      | Some (prefix, fullKey) \<Rightarrow>
          if down = KeyLookupFails then (sendIngestError False (driverError (js ''connection terminated'')), db)
          else (case verifyIngestKey (ie_sha256 env) kd prefix fullKey of
             None \<Rightarrow> (sendIngestError False (createIngestError REVOKED_PUBLIC_KEY
                       (js ''Invalid or revoked public key'') (rq_id request) None 401), db)
           | Some (projectId, keyId) \<Rightarrow>
               if down = OriginLookupFails \<and> truthy (map_option JStr (rq_origin request))
               then (sendIngestError False (driverError (js ''connection terminated'')), db)
               else if \<not> validateOrigin kd projectId (rq_origin request)
               then (sendIngestError False (createIngestError DISALLOWED_ORIGIN
                       (js ''Origin not allowed for this project'') (rq_id request) None 403), db)
               else (case validateBatchRequest env (rq_body request) (rq_id request) limits of
                  Inl e \<Rightarrow> (sendIngestError True e, db)
                | Inr batch \<Rightarrow>
                    if down = BucketFails then (sendIngestError True (driverError (js ''connection terminated'')), db)
                    else (case ingestBatch env types now faults \<lparr>ic_projectId = projectId, ic_keyPrefix = prefix,
                            ic_requestId = rq_id request\<rparr> batch config db of
                       (Inl e, db') \<Rightarrow> (sendIngestError True e, db')
                     | (Inr result, db') \<Rightarrow>
                         (\<lparr>rp_status = 200, rp_retryAfter = None, rp_readable = True, rp_body = Inr result\<rparr>, db')))))"

end
