(* ===== verification/IngestLaws.thy ===== *)
theory IngestLaws
  imports Ingest
begin

text \<open>
  What ingestion guarantees. One event's transaction either fails, finds the event stored, or
  stores it with its outbox row (\<open>eventTx_cases\<close>); from this follow the invariant of the four
  tables, the set of stored events after a run with any faults and after a clean retry, and the
  composition with the outbox dispatcher. The rate limiter and the route have their own sections.
\<close>

subsection \<open>The invariant\<close>

definition eventKey :: "IngestedRow \<Rightarrow> jstr \<times> jstr" where
  "eventKey e = (ev_projectId e, ev_clientEventId e)"

definition storedKeys :: "tdb \<Rightarrow> (jstr \<times> jstr) set" where
  "storedKeys db = eventKey ` set (t_events db)"

definition suppliedId :: "nat \<Rightarrow> jstr \<Rightarrow> bool" where
  "suppliedId n i \<longleftrightarrow> (\<exists>k < n. i = [k])"

definition ingestOk :: "tdb \<Rightarrow> bool" where
  "ingestOk db \<longleftrightarrow> distinct (map eventKey (t_events db)) \<and> distinct (map ev_id (t_events db))
     \<and> distinct (map o_id (t_outbox db)) \<and> o_id ` set (t_outbox db) = ev_id ` set (t_events db)
     \<and> (\<forall>e \<in> set (t_events db). suppliedId (t_next db) (ev_id e)
          \<and> (\<exists>s \<in> set (t_sessions db). ts_id s = ev_session e \<and> ts_projectId s = ev_projectId e))"

lemma suppliedId_mono: "suppliedId n i \<Longrightarrow> n \<le> m \<Longrightarrow> suppliedId m i"
  by (auto simp: suppliedId_def)

lemma suppliedId_fresh: "\<not> suppliedId n [n]"
  by (auto simp: suppliedId_def)

lemma ingestOk_fresh: "ingestOk db \<Longrightarrow> [t_next db] \<notin> ev_id ` set (t_events db)"
  unfolding ingestOk_def using suppliedId_fresh by (metis image_iff)

lemma eventExists_iff: "eventExists db pid cid \<longleftrightarrow> (pid, cid) \<in> storedKeys db"
  by (auto simp: eventExists_def storedKeys_def eventKey_def isEvent_def list_ex_iff)

subsection \<open>The session upsert\<close>

definition sameRest :: "tdb \<Rightarrow> tdb \<Rightarrow> bool" where
  "sameRest db db' \<longleftrightarrow> t_events db' = t_events db \<and> t_outbox db' = t_outbox db \<and> t_buckets db' = t_buckets db
     \<and> t_next db \<le> t_next db'
     \<and> (\<forall>s \<in> set (t_sessions db). \<exists>s' \<in> set (t_sessions db'). ts_id s' = ts_id s \<and> ts_projectId s' = ts_projectId s)"

lemma touchSession_fields [simp]:
  "ts_id (touchSession now input s) = ts_id s" "ts_projectId (touchSession now input s) = ts_projectId s"
  "ts_sdkSessionId (touchSession now input s) = ts_sdkSessionId s"
  by (simp_all add: touchSession_def)

lemma upsert_ok:
  assumes "upsertTelemetrySession types now input db = Inr (s, db')"
  shows "db_session types input" "sameRest db db'" "s \<in> set (t_sessions db')" "ts_projectId s = cs_projectId input"
proof -
  show t: "db_session types input"
    using assms by (auto simp: upsertTelemetrySession_def split: if_splits)
  have "sameRest db db' \<and> s \<in> set (t_sessions db') \<and> ts_projectId s = cs_projectId input"
  proof (cases "List.find (isSession (cs_projectId input) (cs_sdkSessionId input)) (t_sessions db)")
    case None
    with assms t show ?thesis
      by (auto simp: upsertTelemetrySession_def Let_def sameRest_def newSessionRow_def)
  next
    case (Some s0)
    from find_SomeD [OF Some] have s0: "s0 \<in> set (t_sessions db)" "isSession (cs_projectId input) (cs_sdkSessionId input) s0"
      by auto
    from Some assms t have e: "s = touchSession now input s0"
      "db' = db\<lparr>t_sessions := map (\<lambda>s. if isSession (cs_projectId input) (cs_sdkSessionId input) s
          then touchSession now input s else s) (t_sessions db)\<rparr>"
      by (auto simp: upsertTelemetrySession_def)
    let ?f = "\<lambda>s. if isSession (cs_projectId input) (cs_sdkSessionId input) s then touchSession now input s else s"
    have sess: "t_sessions db' = map ?f (t_sessions db)" by (simp add: e(2))
    have "s = ?f s0" using s0(2) by (simp add: e(1))
    then have "s \<in> set (t_sessions db')" using s0(1) by (simp only: sess set_map image_eqI)
    moreover from s0 have "ts_projectId s = cs_projectId input" by (simp add: e(1) isSession_def)
    moreover have "\<exists>s' \<in> set (t_sessions db'). ts_id s' = ts_id x \<and> ts_projectId s' = ts_projectId x"
      if "x \<in> set (t_sessions db)" for x
    proof (rule bexI [of _ "?f x"])
      show "?f x \<in> set (t_sessions db')" using that by (simp only: sess set_map image_eqI)
    qed simp
    then have "sameRest db db'" by (simp add: sameRest_def e(2))
    ultimately show ?thesis by simp
  qed
  then show "sameRest db db'" "s \<in> set (t_sessions db')" "ts_projectId s = cs_projectId input" by simp_all
qed

lemma upsert_total: "db_session types input \<Longrightarrow> \<exists>s db'. upsertTelemetrySession types now input db = Inr (s, db')"
  by (auto simp: upsertTelemetrySession_def Let_def split: option.split)

lemma sameRest_ok: "sameRest db db' \<Longrightarrow> ingestOk db \<Longrightarrow> ingestOk db'"
  unfolding ingestOk_def sameRest_def
  by (metis (no_types, lifting) suppliedId_mono)

lemma sameRest_keys: "sameRest db db' \<Longrightarrow> storedKeys db' = storedKeys db"
  by (simp add: sameRest_def storedKeys_def)

subsection \<open>One event\<close>

definition admissible :: "'u ingestEnv \<Rightarrow> dbTypes \<Rightarrow> IngestConfig \<Rightarrow> jstr \<Rightarrow> json \<Rightarrow> json \<Rightarrow> bool" where
  "admissible env types config pid batch event \<longleftrightarrow>
     db_session types (sessionInput env config pid batch)
     \<and> (case eventValues env pid batch [] event of None \<Rightarrow> False | Some v \<Rightarrow> db_event types v)"

definition clientKey :: "jstr \<Rightarrow> json \<Rightarrow> jstr \<times> jstr" where
  "clientKey pid event = (pid, strProp event ''event_id'')"

lemma eventValues_session:
  "eventValues env pid batch sid event = map_option (\<lambda>v. v\<lparr>ne_telemetrySessionId := sid\<rparr>) (eventValues env pid batch [] event)"
  by (simp add: eventValues_def Let_def split: option.split)

lemma eventValues_fields:
  "eventValues env pid batch sid event = Some v \<Longrightarrow>
   ne_projectId v = pid \<and> ne_clientEventId v = strProp event ''event_id'' \<and> ne_telemetrySessionId v = sid"
  by (auto simp: eventValues_def Let_def split: option.splits)

lemma sessionInput_project [simp]: "cs_projectId (sessionInput env config pid batch) = pid"
  by (simp add: sessionInput_def Let_def)

text \<open>The three outcomes of the callback.\<close>

lemma eventTx_stored:
  assumes "clientKey pid event \<in> storedKeys db" "eventTx env types config now pid batch event db = Inr (b, db')"
  shows "\<not> b \<and> sameRest db db'"
proof -
  obtain s db1 where u: "upsertTelemetrySession types now (sessionInput env config pid batch) db = Inr (s, db1)"
    using assms(2) by (auto simp: eventTx_def bindE_Inr)
  from upsert_ok(2) [OF u] have "sameRest db db1" .
  with assms u sameRest_keys [OF this] show ?thesis
    by (auto simp: eventTx_def eventExists_iff clientKey_def)
qed

lemma eventTx_new:
  assumes "ingestOk db" "clientKey pid event \<notin> storedKeys db" "eventTx env types config now pid batch event db = Inr (b, db')"
  shows "b \<and> admissible env types config pid batch event \<and> ingestOk db'
    \<and> storedKeys db' = insert (clientKey pid event) (storedKeys db)
    \<and> (\<exists>i. insertRow now i (t_outbox db) = Inr (t_outbox db'))
    \<and> (\<exists>e. t_events db' = t_events db @ [e] \<and> ev_state e = Pending \<and> ev_issueId e = None)"
proof -
  let ?in = "sessionInput env config pid batch"
  obtain s db1 where u: "upsertTelemetrySession types now ?in db = Inr (s, db1)"
    using assms(3) by (auto simp: eventTx_def bindE_Inr)
  note up = upsert_ok [OF u]
  have keys: "storedKeys db1 = storedKeys db" by (rule sameRest_keys [OF up(2)])
  then have ne: "\<not> eventExists db1 pid (strProp event ''event_id'')"
    using assms(2) by (simp add: eventExists_iff clientKey_def)
  obtain v where v: "eventValues env pid batch (ts_id s) event = Some v"
    using assms(3) u ne by (auto simp: eventTx_def split: option.splits)
  note vf = eventValues_fields [OF v]
  obtain v0 where v0: "eventValues env pid batch [] event = Some v0" and vv: "v = v0\<lparr>ne_telemetrySessionId := ts_id s\<rparr>"
    using v eventValues_session [of env pid batch "ts_id s" event] by auto
  have vnone: "v\<lparr>ne_telemetrySessionId := []\<rparr> = v0"
    using vv eventValues_fields [OF v0] by (cases v0) simp
  have acc: "db_event types v0"
    using assms(3) u ne v vnone by (auto simp: eventTx_def bindE_Inr insertEvent_def split: if_splits)
  let ?row = "newEventRow [t_next db1] now v"
  let ?db2 = "db1\<lparr>t_events := t_events db1 @ [?row], t_next := t_next db1 + 1\<rparr>"
  have ins: "insertEvent types now v db1 = Inr (Some ?row, ?db2)"
    using acc vnone vf ne by (simp add: insertEvent_def Let_def)
  have ok1: "ingestOk db1" by (rule sameRest_ok [OF up(2) assms(1)])
  then have fresh: "[t_next db1] \<notin> ev_id ` set (t_events db1)"
    by (rule ingestOk_fresh)
  then have out: "insertRow now [t_next db1] (t_outbox db1) = Inr (t_outbox db1 @ [newOutboxRow now [t_next db1]])"
    using ok1 by (simp add: insertRow_def ingestOk_def)
  then have res: "b" "db' = ?db2\<lparr>t_outbox := t_outbox db1 @ [newOutboxRow now [t_next db1]]\<rparr>"
    using assms(3) u ne v ins by (simp_all add: eventTx_def insertOutbox_def newEventRow_def)
  have row: "ev_id ?row = [t_next db1]" "eventKey ?row = clientKey pid event" "ev_session ?row = ts_id s" "ev_projectId ?row = pid"
    using vf by (simp_all add: newEventRow_def eventKey_def clientKey_def)
  have "ingestOk db'"
    using ok1 fresh assms(2) keys up(3,4) row
    by (auto simp: res ingestOk_def storedKeys_def newOutboxRow_def suppliedId_def intro: less_SucI)
  moreover have "storedKeys db' = insert (clientKey pid event) (storedKeys db)"
    using keys row by (simp add: res storedKeys_def)
  moreover have "t_outbox db1 = t_outbox db" "t_events db1 = t_events db" using up(2) by (simp_all add: sameRest_def)
  ultimately show ?thesis
    using res acc v0 out up(1) by (auto simp: admissible_def newEventRow_def)
qed

lemma eventTx_admissible:
  assumes "ingestOk db" "admissible env types config pid batch event"
  shows "\<exists>b db'. eventTx env types config now pid batch event db = Inr (b, db')"
proof -
  let ?in = "sessionInput env config pid batch"
  obtain s db1 where u: "upsertTelemetrySession types now ?in db = Inr (s, db1)"
    using assms(2) unfolding admissible_def by (metis upsert_total)
  obtain v0 where v0: "eventValues env pid batch [] event = Some v0" "db_event types v0"
    using assms(2) by (auto simp: admissible_def split: option.splits)
  let ?v = "v0\<lparr>ne_telemetrySessionId := ts_id s\<rparr>"
  have v: "eventValues env pid batch (ts_id s) event = Some ?v"
    using eventValues_session [of env pid batch "ts_id s" event] v0 by simp
  have vnone: "?v\<lparr>ne_telemetrySessionId := []\<rparr> = v0"
    using eventValues_fields [OF v0(1)] by (cases v0) simp
  have ok1: "ingestOk db1" by (rule sameRest_ok [OF upsert_ok(2) [OF u] assms(1)])
  then have "[t_next db1] \<notin> o_id ` set (t_outbox db1)"
    using ingestOk_fresh by (simp add: ingestOk_def)
  then show ?thesis
    using u v v0(2) vnone
    by (auto simp: eventTx_def insertEvent_def Let_def insertOutbox_def insertRow_def newEventRow_def)
qed

subsection \<open>A run over the events of a batch\<close>

definition acceptable :: "'u ingestEnv \<Rightarrow> dbTypes \<Rightarrow> IngestConfig \<Rightarrow> jstr \<Rightarrow> json \<Rightarrow> json list \<Rightarrow> (jstr \<times> jstr) set" where
  "acceptable env types config pid batch es =
     clientKey pid ` set (filter (admissible env types config pid batch) es)"

definition tally :: "IngestResult \<Rightarrow> nat" where
  "tally r = ir_accepted r + ir_duplicate r + ir_rejected r"

lemma count_simps [simp]:
  "tally (countOutcome b r) = tally r + 1" "tally (countRejected r) = tally r + 1"
  "ir_accepted (countRejected r) = ir_accepted r" "ir_accepted (countOutcome False r) = ir_accepted r"
  "ir_accepted (countOutcome True r) = ir_accepted r + 1"
  by (simp_all add: tally_def countOutcome_def countRejected_def)

text \<open>What one turn does to the tables: nothing to events and outbox, or one event with its row.\<close>

definition turnOk :: "nat \<Rightarrow> jstr \<times> jstr \<Rightarrow> bool \<Rightarrow> tdb \<Rightarrow> tdb \<Rightarrow> bool" where
  "turnOk now key adm db db' \<longleftrightarrow>
     t_events db' = t_events db \<and> t_outbox db' = t_outbox db
     \<or> adm \<and> key \<notin> storedKeys db \<and> storedKeys db' = insert key (storedKeys db)
       \<and> (\<exists>i. insertRow now i (t_outbox db) = Inr (t_outbox db'))"

lemma ingestOne_cases:
  assumes "ingestOk db" "ingestOne env types config now pid batch fault event res db = (res', db')"
  shows "ingestOk db'" "turnOk now (clientKey pid event) (admissible env types config pid batch event) db db'"
    "t_buckets db' = t_buckets db"
    "fault = NoFault \<Longrightarrow> admissible env types config pid batch event \<Longrightarrow> clientKey pid event \<in> storedKeys db'"
    "fault = NoFault \<Longrightarrow> tally res' = tally res + 1"
    "fault \<noteq> FailsAtCommit \<Longrightarrow> ir_accepted res' = ir_accepted res + (card (storedKeys db') - card (storedKeys db))"
proof -
  let ?tx = "eventTx env types config now pid batch event db"
  have fin: "finite (storedKeys db)" by (simp add: storedKeys_def)
  have "ingestOk db' \<and> turnOk now (clientKey pid event) (admissible env types config pid batch event) db db'
    \<and> t_buckets db' = t_buckets db
    \<and> (fault = NoFault \<longrightarrow> admissible env types config pid batch event \<longrightarrow> clientKey pid event \<in> storedKeys db')
    \<and> (fault = NoFault \<longrightarrow> tally res' = tally res + 1)
    \<and> (fault \<noteq> FailsAtCommit \<longrightarrow> ir_accepted res' = ir_accepted res + (card (storedKeys db') - card (storedKeys db)))"
  proof (cases "fault = FailsFirst \<or> (\<exists>e. ?tx = Inl e)")
    case True
    then have "res' = countRejected res" "db' = db" "fault = NoFault \<Longrightarrow> \<exists>e. ?tx = Inl e"
      using assms(2) by (auto simp: ingestOne_def split: if_splits)
    moreover have "fault = NoFault \<Longrightarrow> \<not> admissible env types config pid batch event"
      using calculation(3) eventTx_admissible [OF assms(1), of env types config pid batch event now] by auto
    ultimately show ?thesis using assms(1) by (auto simp: turnOk_def)
  next
    case False
    then obtain b db1 where tx: "?tx = Inr (b, db1)" by (metis surj_pair sum.exhaust)
    have r: "fault = NoFault \<Longrightarrow> res' = countOutcome b res \<and> db' = db1" "fault = FailsAtCommit \<Longrightarrow> db' = db"
      using assms(2) False tx by (auto simp: ingestOne_def)
    have f: "fault = NoFault \<or> fault = FailsAtCommit" using False by (cases fault) auto
    show ?thesis
    proof (cases "clientKey pid event \<in> storedKeys db")
      case True
      from eventTx_stored [OF True tx] have b: "\<not> b" "sameRest db db1" by auto
      then have "ingestOk db1" "storedKeys db1 = storedKeys db" "t_events db1 = t_events db" "t_outbox db1 = t_outbox db" "t_buckets db1 = t_buckets db"
        using sameRest_ok [OF b(2) assms(1)] sameRest_keys [OF b(2)] by (simp_all add: sameRest_def)
      with b(1) r f True assms(1) show ?thesis by (auto simp: turnOk_def)
    next
      case new: False
      note n = eventTx_new [OF assms(1) new tx]
      have bk: "t_buckets db1 = t_buckets db"
        using tx by (auto simp: eventTx_def bindE_Inr insertEvent_def insertOutbox_def Let_def
            dest!: upsert_ok(2) split: if_splits option.splits) (simp_all add: sameRest_def)
      from n r f new fin bk assms(1) show ?thesis
        by (cases "fault = NoFault") (auto simp: turnOk_def)
    qed
  qed
  then show "ingestOk db'" "turnOk now (clientKey pid event) (admissible env types config pid batch event) db db'"
    "t_buckets db' = t_buckets db"
    "fault = NoFault \<Longrightarrow> admissible env types config pid batch event \<Longrightarrow> clientKey pid event \<in> storedKeys db'"
    "fault = NoFault \<Longrightarrow> tally res' = tally res + 1"
    "fault \<noteq> FailsAtCommit \<Longrightarrow> ir_accepted res' = ir_accepted res + (card (storedKeys db') - card (storedKeys db))"
    by simp_all
qed

lemma turnOk_keys:
  assumes "turnOk now key adm db db'"
  shows "storedKeys db \<subseteq> storedKeys db'" "storedKeys db' \<subseteq> storedKeys db \<union> (if adm then {key} else {})"
    "storedKeys db' = storedKeys db \<Longrightarrow> t_events db' = t_events db \<and> t_outbox db' = t_outbox db"
  using assms by (auto simp: turnOk_def storedKeys_def)

lemma ingestEvents_run:
  assumes "ingestOk db" "ingestEvents env types config now pid batch faults i es res db = (res', db')"
  shows "ingestOk db' \<and> storedKeys db \<subseteq> storedKeys db'
    \<and> storedKeys db' \<subseteq> storedKeys db \<union> acceptable env types config pid batch es
    \<and> (storedKeys db' = storedKeys db \<longrightarrow> t_events db' = t_events db \<and> t_outbox db' = t_outbox db)
    \<and> t_buckets db' = t_buckets db
    \<and> ((\<forall>k. faults k = NoFault) \<longrightarrow> acceptable env types config pid batch es \<subseteq> storedKeys db'
         \<and> tally res' = tally res + length es)
    \<and> ((\<forall>k. faults k \<noteq> FailsAtCommit) \<longrightarrow> ir_accepted res' = ir_accepted res + (card (storedKeys db') - card (storedKeys db)))"
  using assms
proof (induction es arbitrary: i res db)
  case Nil then show ?case by (simp add: acceptable_def)
next
  case (Cons event es)
  obtain res1 db1 where one: "ingestOne env types config now pid batch (faults i) event res db = (res1, db1)"
    by fastforce
  note o = ingestOne_cases [OF Cons.prems(1) one]
  note k = turnOk_keys [OF o(2)]
  have rest: "ingestEvents env types config now pid batch faults (i + 1) es res1 db1 = (res', db')"
    using Cons.prems(2) one by simp
  note IH = Cons.IH [OF o(1) rest]
  let ?acc = "acceptable env types config pid batch"
  have acc: "?acc (event # es) = (if admissible env types config pid batch event then {clientKey pid event} else {}) \<union> ?acc es"
    by (simp add: acceptable_def)
  have fin: "finite (storedKeys x)" for x by (simp add: storedKeys_def)
  have card: "card (storedKeys db) \<le> card (storedKeys db1)" "card (storedKeys db1) \<le> card (storedKeys db')"
    using k(1) IH fin by (auto intro: card_mono)
  have same: "storedKeys db' = storedKeys db \<Longrightarrow> t_events db' = t_events db \<and> t_outbox db' = t_outbox db"
    using k(1,3) IH by (metis subset_antisym)
  show ?case
    using IH k(1,2) same o(3-6) card unfolding acc by (auto split: if_splits)
qed

lemma ingestEvents_inv:
  assumes "ingestOk db" "ob.inv jobs (t_outbox db) q"
    and "ingestEvents env types config now pid batch faults i es res db = (res', db')"
  shows "ob.inv jobs (t_outbox db') q"
  using assms
proof (induction es arbitrary: i res db)
  case Nil then show ?case by simp
next
  case (Cons event es)
  obtain res1 db1 where one: "ingestOne env types config now pid batch (faults i) event res db = (res1, db1)"
    by fastforce
  note o = ingestOne_cases [OF Cons.prems(1) one]
  have "ob.inv jobs (t_outbox db1) q"
    using o(2) Cons.prems(2) inv_insert by (auto simp: turnOk_def)
  with Cons.IH [OF o(1)] Cons.prems(3) one show ?case by simp
qed

lemma checkRateLimit_frame:
  "checkRateLimit now pid prefix n mr me db = (r, db') \<Longrightarrow>
     t_events db' = t_events db \<and> t_outbox db' = t_outbox db \<and> t_sessions db' = t_sessions db \<and> t_next db' = t_next db"
  by (auto simp: checkRateLimit_def checkAndIncrementRateLimit_def Let_def split: prod.splits)

lemma ingestOk_buckets:
  assumes "t_events db' = t_events db \<and> t_outbox db' = t_outbox db \<and> t_sessions db' = t_sessions db \<and> t_next db' = t_next db"
  shows "ingestOk db' = ingestOk db" "storedKeys db' = storedKeys db"
  using assms by (simp_all add: ingestOk_def storedKeys_def)

lemma ingestBatch_run:
  assumes "ingestBatch env types now faults ctx batch config db = (x, db')"
  obtains db1 where "t_events db1 = t_events db \<and> t_outbox db1 = t_outbox db \<and> t_sessions db1 = t_sessions db \<and> t_next db1 = t_next db"
    "(\<exists>e. x = Inl e) \<and> db' = db1 \<or> (\<exists>res. x = Inr res \<and>
       ingestEvents env types config now (ic_projectId ctx) (sanitizedBatchOf (ie_url env) batch) faults 0
         (eventsOf (sanitizedBatchOf (ie_url env) batch)) (noIngest (ic_requestId ctx)) db1 = (res, db'))"
proof -
  obtain a r db1 where c: "checkRateLimit now (ic_projectId ctx) (ic_keyPrefix ctx) (length (eventsOf batch))
      (ig_maxRequestsPerMinute config) (ig_maxEventsPerMinute config) db = ((a, r), db1)"
    by (metis surj_pair)
  show ?thesis
    by (rule that [OF checkRateLimit_frame [OF c]])
       (use assms c in \<open>auto simp: ingestBatch_def Let_def split: if_splits prod.splits\<close>)
qed

lemma postBatch_cases:
  assumes "postBatch env types now down faults limits config kd request db = (rp, db')"
  obtains "db' = db" "\<exists>e. rp_body rp = Inl e"
  | prefix fullKey projectId keyId batch x where
    "parseAndValidatePublicKey (rq_key request) = Some (prefix, fullKey)"
    "verifyIngestKey (ie_sha256 env) kd prefix fullKey = Some (projectId, keyId)"
    "validateOrigin kd projectId (rq_origin request)"
    "validateBatchRequest env (rq_body request) (rq_id request) limits = Inr batch"
    "ingestBatch env types now faults \<lparr>ic_projectId = projectId, ic_keyPrefix = prefix, ic_requestId = rq_id request\<rparr>
       batch config db = (x, db')" "rp_body rp = x"
  using assms unfolding postBatch_def
  by (auto simp: sendIngestError_def Let_def split: option.splits prod.splits sum.splits if_splits)

lemma postBatch_inv:
  assumes "ingestOk db" "ob.inv jobs (t_outbox db) q"
    and "postBatch env types now down faults limits config kd request db = (rp, db')"
  shows "ingestOk db' \<and> ob.inv jobs (t_outbox db') q"
  using assms(3)
proof (cases rule: postBatch_cases)
  case 1 then show ?thesis using assms(1,2) by simp
next
  case (2 prefix fullKey projectId keyId batch x)
  let ?ctx = "\<lparr>ic_projectId = projectId, ic_keyPrefix = prefix, ic_requestId = rq_id request\<rparr>"
  from 2(5) obtain db1 where d: "t_events db1 = t_events db \<and> t_outbox db1 = t_outbox db \<and> t_sessions db1 = t_sessions db \<and> t_next db1 = t_next db"
    and x: "(\<exists>e. x = Inl e) \<and> db' = db1 \<or> (\<exists>res. x = Inr res \<and>
       ingestEvents env types config now (ic_projectId ?ctx) (sanitizedBatchOf (ie_url env) batch) faults 0
         (eventsOf (sanitizedBatchOf (ie_url env) batch)) (noIngest (ic_requestId ?ctx)) db1 = (res, db'))"
    by (rule ingestBatch_run)
  have "ingestOk db1" "ob.inv jobs (t_outbox db1) q" using assms(1,2) ingestOk_buckets(1) [OF d] d by simp_all
  note ok = this
  from x show ?thesis
  proof (elim disjE exE conjE)
    assume "db' = db1" with ok show ?thesis by simp
  next
    fix res
    assume run: "ingestEvents env types config now (ic_projectId ?ctx) (sanitizedBatchOf (ie_url env) batch) faults 0
         (eventsOf (sanitizedBatchOf (ie_url env) batch)) (noIngest (ic_requestId ?ctx)) db1 = (res, db')"
    show ?thesis using ingestEvents_run [OF ok(1) run] ingestEvents_inv [OF ok run] by blast
  qed
qed

subsection \<open>Ingestion and dispatch together\<close>

text \<open>
  The API posts batches while workers run passes over the event outbox. An outbox step that
  keeps the number of rows is one of a worker; inserts are the ingestion's.
\<close>

inductive pipeline ::
  "'u ingestEnv \<Rightarrow> dbTypes \<Rightarrow> 'q publisher \<Rightarrow> tdb \<times> 'q \<Rightarrow> tdb \<times> 'q \<Rightarrow> bool"
  for env types pub where
  startP: "pipeline env types pub s s"
| postP: "pipeline env types pub s (db, q) \<Longrightarrow>
     postBatch env types now down faults limits config kd request db = (reply, db') \<Longrightarrow>
     pipeline env types pub s (db', q)"
| workerP: "pipeline env types pub s (db, q) \<Longrightarrow>
     outboxStep EventOutbox pub (t_outbox db, q) (t', q') \<Longrightarrow> length t' = length (t_outbox db) \<Longrightarrow>
     pipeline env types pub s (db\<lparr>t_outbox := t'\<rparr>, q')"

lemma same_ids:
  assumes "distinct (map o_id t)" "distinct (map o_id t')" "rowIdsOf t \<subseteq> rowIdsOf t'" "length t' = length t"
  shows "rowIdsOf t' = rowIdsOf t"
proof -
  have "card (rowIdsOf x) = length x" if "distinct (map o_id x)" for x :: "outboxRow list"
    using distinct_card [OF that] by (simp add: rowIdsOf_def)
  from this [OF assms(1)] this [OF assms(2)] have "card (rowIdsOf t) = card (rowIdsOf t')" using assms(4) by simp
  from card_subset_eq [OF _ assms(3) this] show ?thesis by (simp add: rowIdsOf_def)
qed

lemma pipeline_inv:
  assumes "pgBoss pub jobs" "pipeline env types pub s s'"
    and "ingestOk (fst s)" "ob.inv jobs (t_outbox (fst s)) (snd s)"
  shows "ingestOk (fst s') \<and> ob.inv jobs (t_outbox (fst s')) (snd s')"
  using assms(2,3,4)
proof (induction rule: pipeline.induct)
  case (startP s) then show ?case by simp
next
  case (postP s db q now down faults limits config kd request reply db')
  have i: "ingestOk db" "ob.inv jobs (t_outbox db) q" using postP by simp_all
  show ?case using postBatch_inv [OF i postP.hyps(2)] by simp
next
  case (workerP s db q t' q')
  have i: "ingestOk db" "ob.inv jobs (t_outbox db) q" using workerP by simp_all
  have i': "ob.inv jobs t' q'"
    using outboxStep_inv [OF assms(1) workerP.hyps(2)] i(2) by simp
  have "outboxReach EventOutbox pub (t_outbox db, q) (t', q')"
    by (rule stepR [OF startR workerP.hyps(2)])
  from outboxReach_mono [OF this] have "rowIdsOf (t_outbox db) \<subseteq> rowIdsOf t'" by simp
  moreover have "distinct (map o_id t')" "distinct (map o_id (t_outbox db))"
    using i i' by (simp_all add: ob.inv_def rowsOk_def)
  ultimately have "rowIdsOf t' = rowIdsOf (t_outbox db)"
    using workerP.hyps(3) by (intro same_ids)
  with i(1) \<open>distinct (map o_id t')\<close> have "ingestOk (db\<lparr>t_outbox := t'\<rparr>)"
    by (simp add: ingestOk_def rowIdsOf_def)
  with i' show ?case by simp
qed

subsection \<open>The rate limiter\<close>

type_synonym limiterCall = "jstr \<times> jstr \<times> nat \<times> nat"

definition limiterCheck :: "nat \<Rightarrow> nat \<Rightarrow> limiterCall \<Rightarrow> tdb \<Rightarrow> RateLimitCheckResult \<times> tdb" where
  "limiterCheck maxReq maxEv c db =
     (case c of (pid, prefix, now, n) \<Rightarrow> checkAndIncrementRateLimit now pid prefix maxReq maxEv n db)"

text \<open>The calls that are let through, in a sequence of calls of any projects, keys and times.\<close>

fun granted :: "nat \<Rightarrow> nat \<Rightarrow> limiterCall list \<Rightarrow> tdb \<Rightarrow> limiterCall list" where
  "granted maxReq maxEv [] db = []"
| "granted maxReq maxEv (c # cs) db =
     (case limiterCheck maxReq maxEv c db of (r, db') \<Rightarrow>
        (if rl_allowed r then [c] else []) @ granted maxReq maxEv cs db')"

definition inWindow :: "jstr \<Rightarrow> jstr \<Rightarrow> nat \<Rightarrow> limiterCall \<Rightarrow> bool" where
  "inWindow pid prefix w c \<longleftrightarrow> (case c of (p, k, now, n) \<Rightarrow> p = pid \<and> k = prefix \<and> bucketStart now = w)"

definition callEvents :: "limiterCall \<Rightarrow> nat" where "callEvents c = snd (snd (snd c))"

definition usedIn :: "jstr \<Rightarrow> jstr \<Rightarrow> nat \<Rightarrow> tdb \<Rightarrow> nat \<times> nat" where
  "usedIn pid prefix w db =
     (case List.find (isBucket pid prefix w) (t_buckets db) of None \<Rightarrow> (0, 0) | Some b \<Rightarrow> (b_requests b, b_events b))"

lemma isBucket_bump [simp]: "isBucket p k w (bumpBucket n b) = isBucket p k w b"
  by (simp add: isBucket_def bumpBucket_def)

lemma find_map_keep:
  "(\<And>x. P (f x) = P x) \<Longrightarrow> List.find P (map f xs) = map_option f (List.find P xs)"
  by (induction xs) auto

lemma find_snoc: "List.find P (xs @ [y]) = (case List.find P xs of Some x \<Rightarrow> Some x | None \<Rightarrow> if P y then Some y else None)"
  by (induction xs) auto

lemma usedIn_check:
  assumes "checkAndIncrementRateLimit now p k mr me n db = (r, db')"
  shows "usedIn pid prefix w db' = (if inWindow pid prefix w (p, k, now, n)
      then (fst (usedIn pid prefix w db) + 1, snd (usedIn pid prefix w db) + n) else usedIn pid prefix w db)"
    and "inWindow pid prefix w (p, k, now, n) \<Longrightarrow> rl_allowed r \<longleftrightarrow>
      fst (usedIn pid prefix w db) + 1 \<le> mr \<and> snd (usedIn pid prefix w db) + n \<le> me"
proof -
  let ?w = "bucketStart now"
  have ex: "isBucket pid prefix w b \<longleftrightarrow> isBucket p k ?w b" if "inWindow pid prefix w (p, k, now, n)" for b
    using that by (auto simp: inWindow_def isBucket_def)
  have dis: "isBucket pid prefix w b \<Longrightarrow> \<not> isBucket p k ?w b" if "\<not> inWindow pid prefix w (p, k, now, n)" for b
    using that by (auto simp: inWindow_def isBucket_def)
  let ?bump = "\<lambda>b. if isBucket p k ?w b then bumpBucket n b else b"
  have "usedIn pid prefix w db' = (if inWindow pid prefix w (p, k, now, n)
      then (fst (usedIn pid prefix w db) + 1, snd (usedIn pid prefix w db) + n) else usedIn pid prefix w db)
    \<and> (inWindow pid prefix w (p, k, now, n) \<longrightarrow> (rl_allowed r \<longleftrightarrow>
      fst (usedIn pid prefix w db) + 1 \<le> mr \<and> snd (usedIn pid prefix w db) + n \<le> me))"
  proof (cases "List.find (isBucket p k ?w) (t_buckets db)")
    case None
    define b where "b = \<lparr>b_projectId = p, b_keyPrefix = k, b_start = ?w, b_requests = 1, b_events = n\<rparr>"
    have t: "t_buckets db' = t_buckets db @ [b]" and r: "rl_allowed r = (1 \<le> mr \<and> n \<le> me)"
      using assms None by (auto simp: checkAndIncrementRateLimit_def upsertBucket_def Let_def b_def)
    show ?thesis
    proof (cases "inWindow pid prefix w (p, k, now, n)")
      case True
      then have "isBucket pid prefix w = isBucket p k ?w" using ex by (simp add: fun_eq_iff)
      then show ?thesis using True None r by (simp add: usedIn_def t find_snoc) (simp add: b_def isBucket_def)
    next
      case False
      have "\<not> isBucket pid prefix w b" using dis [OF False, of b] by (auto simp: b_def isBucket_def)
      then show ?thesis using False by (simp add: usedIn_def t find_snoc split: option.split)
    qed
  next
    case (Some b0)
    have t: "t_buckets db' = map ?bump (t_buckets db)"
      and r: "rl_allowed r = (b_requests b0 + 1 \<le> mr \<and> b_events b0 + n \<le> me)"
      using assms Some by (auto simp: checkAndIncrementRateLimit_def upsertBucket_def Let_def bumpBucket_def)
    have f: "List.find (isBucket pid prefix w) (t_buckets db') = map_option ?bump (List.find (isBucket pid prefix w) (t_buckets db))"
      unfolding t by (rule find_map_keep) simp
    show ?thesis
    proof (cases "inWindow pid prefix w (p, k, now, n)")
      case True
      then have "isBucket pid prefix w = isBucket p k ?w" using ex by (simp add: fun_eq_iff)
      moreover have "isBucket p k ?w b0" using find_SomeD [OF Some] by simp
      ultimately show ?thesis using True Some r f by (simp add: usedIn_def bumpBucket_def)
    next
      case False
      have "?bump b = b" if "List.find (isBucket pid prefix w) (t_buckets db) = Some b" for b
        using find_SomeD [OF that] dis [OF False] by auto
      then show ?thesis using False f
        by (auto simp: usedIn_def split: option.split)
    qed
  qed
  then show "usedIn pid prefix w db' = (if inWindow pid prefix w (p, k, now, n)
      then (fst (usedIn pid prefix w db) + 1, snd (usedIn pid prefix w db) + n) else usedIn pid prefix w db)"
    "inWindow pid prefix w (p, k, now, n) \<Longrightarrow> rl_allowed r \<longleftrightarrow>
      fst (usedIn pid prefix w db) + 1 \<le> mr \<and> snd (usedIn pid prefix w db) + n \<le> me"
    by blast+
qed

lemma granted_bound:
  "length (filter (inWindow pid prefix w) (granted mr me calls db)) \<le> mr - fst (usedIn pid prefix w db)
   \<and> sum_list (map callEvents (filter (inWindow pid prefix w) (granted mr me calls db))) \<le> me - snd (usedIn pid prefix w db)"
proof (induction calls arbitrary: db)
  case Nil then show ?case by simp
next
  case (Cons c calls)
  obtain p k now n where c: "c = (p, k, now, n)" by (cases c)
  obtain r db1 where one: "checkAndIncrementRateLimit now p k mr me n db = (r, db1)" by fastforce
  note u = usedIn_check [OF one, of pid prefix w]
  let ?rest = "filter (inWindow pid prefix w) (granted mr me calls db1)"
  have g: "granted mr me (c # calls) db = (if rl_allowed r then [c] else []) @ granted mr me calls db1"
    by (simp add: limiterCheck_def c one)
  show ?case
  proof (cases "inWindow pid prefix w (p, k, now, n)")
    case False
    then have "filter (inWindow pid prefix w) (granted mr me (c # calls) db) = ?rest"
      unfolding g by (simp add: c)
    with Cons.IH [of db1] u(1) False show ?thesis by simp
  next
    case True
    have f: "filter (inWindow pid prefix w) (granted mr me (c # calls) db) = (if rl_allowed r then [c] else []) @ ?rest"
      unfolding g using True by (simp add: c)
    have u': "fst (usedIn pid prefix w db1) = fst (usedIn pid prefix w db) + 1"
      "snd (usedIn pid prefix w db1) = snd (usedIn pid prefix w db) + n"
      using u(1) True by simp_all
    have "length ?rest \<le> mr - (fst (usedIn pid prefix w db) + 1)"
      "sum_list (map callEvents ?rest) \<le> me - (snd (usedIn pid prefix w db) + n)"
      using Cons.IH [of db1] u' by simp_all
    note bounds = this
    define L S where "L = length ?rest" and "S = sum_list (map callEvents ?rest)"
    have "(if rl_allowed r then L + 1 else L) \<le> mr - fst (usedIn pid prefix w db)
      \<and> (if rl_allowed r then n + S else S) \<le> me - snd (usedIn pid prefix w db)"
      using u(2) [OF True] bounds [folded L_def S_def] by (cases "rl_allowed r") auto
    moreover have "callEvents c = n" by (simp add: callEvents_def c)
    ultimately show ?thesis unfolding f L_def S_def by (cases "rl_allowed r") simp_all
  qed
qed

definition retryWait :: "nat \<Rightarrow> nat" where
  "retryWait now = (bucketStart now + 60000 - now + 999) div 1000"

lemma retryAfter_eq:
  "rl_retryAfterSeconds (fst (checkAndIncrementRateLimit now pid prefix mr me n db)) =
     (if rl_allowed (fst (checkAndIncrementRateLimit now pid prefix mr me n db)) then None else Some (retryWait now))"
  by (simp add: checkAndIncrementRateLimit_def Let_def retryWait_def split: prod.split)

lemma retry_seconds:
  fixes now :: nat
  defines "s \<equiv> retryWait now"
  shows "1 \<le> s" "s \<le> 60" "bucketStart now < bucketStart (now + 1000 * s)"
proof -
  define m where "m = now mod 60000"
  have m: "m < 60000" "m \<le> now" by (simp_all add: m_def)
  have d: "bucketStart now + 60000 - now + 999 = 60999 - m"
    using m by (simp add: bucketStart_def m_def [symmetric])
  show "1 \<le> s" "s \<le> 60" using m unfolding s_def retryWait_def d by linarith+
  have "60000 - m \<le> 1000 * s" using m unfolding s_def retryWait_def d by linarith
  then have "now div 60000 * 60000 + 60000 \<le> now + 1000 * s"
    using m(1) div_mult_mod_eq [of now 60000] unfolding m_def by linarith
  then have "now div 60000 + 1 \<le> (now + 1000 * s) div 60000"
    by (simp add: less_eq_div_iff_mult_less_eq)
  then have "now div 60000 < (now + 1000 * s) div 60000" by linarith
  then show "bucketStart now < bucketStart (now + 1000 * s)"
    by (simp add: bucketStart_def minus_mod_eq_div_mult)
qed

subsection \<open>Properties\<close>

definition acceptedKeys :: "'u ingestEnv \<Rightarrow> dbTypes \<Rightarrow> IngestConfig \<Rightarrow> jstr \<Rightarrow> json \<Rightarrow> (jstr \<times> jstr) set" where
  "acceptedKeys env types config pid batch =
     (let sb = sanitizedBatchOf (ie_url env) batch in acceptable env types config pid sb (eventsOf sb))"

lemma ingestBatch_Inr:
  assumes "ingestOk db" "ingestBatch env types now faults ctx batch config db = (Inr r, db')"
  shows "ingestOk db' \<and> storedKeys db \<subseteq> storedKeys db'
    \<and> storedKeys db' \<subseteq> storedKeys db \<union> acceptedKeys env types config (ic_projectId ctx) batch
    \<and> (storedKeys db' = storedKeys db \<longrightarrow> t_events db' = t_events db \<and> t_outbox db' = t_outbox db)
    \<and> ((\<forall>k. faults k = NoFault) \<longrightarrow> acceptedKeys env types config (ic_projectId ctx) batch \<subseteq> storedKeys db'
         \<and> tally r = length (eventsOf (sanitizedBatchOf (ie_url env) batch)))
    \<and> ((\<forall>k. faults k \<noteq> FailsAtCommit) \<longrightarrow> ir_accepted r = card (storedKeys db') - card (storedKeys db))"
proof -
  let ?sb = "sanitizedBatchOf (ie_url env) batch"
  obtain db1 where d: "t_events db1 = t_events db \<and> t_outbox db1 = t_outbox db \<and> t_sessions db1 = t_sessions db \<and> t_next db1 = t_next db"
    and run: "ingestEvents env types config now (ic_projectId ctx) ?sb faults 0 (eventsOf ?sb) (noIngest (ic_requestId ctx)) db1 = (r, db')"
    using ingestBatch_run [OF assms(2)] by (metis Inl_Inr_False sum.inject(2))
  have ok: "ingestOk db1" "storedKeys db1 = storedKeys db" using ingestOk_buckets [OF d] assms(1) by simp_all
  have z: "tally (noIngest q) = 0" "ir_accepted (noIngest q) = 0" for q by (simp_all add: tally_def noIngest_def)
  from ingestEvents_run [OF ok(1) run] d ok(2) z show ?thesis
    by (simp add: acceptedKeys_def Let_def)
qed


definition demoEnv :: "unit ingestEnv" where
  "demoEnv = \<lparr>ie_url = \<lparr>url_parse = \<lambda>_. None, url_dropUserinfo = id, url_searchPairs = \<lambda>_. [],
       url_setSearch = \<lambda>_ u. u, url_href = \<lambda>_. []\<rparr>, ie_byteSize = \<lambda>_. 10, ie_numText = \<lambda>_. [],
     ie_column = \<lambda>_. [], ie_parseDate = \<lambda>_. Some 0, ie_sha256 = \<lambda>bs. [], ie_hmac = \<lambda>_ _. []\<rparr>"

definition demoTypes :: dbTypes where "demoTypes = \<lparr>db_session = \<lambda>_. True, db_event = \<lambda>_. True\<rparr>"

definition emptyTdb :: tdb where
  "emptyTdb = \<lparr>t_sessions = [], t_events = [], t_outbox = [], t_buckets = [], t_next = 0\<rparr>"

definition demoCtx :: IngestContext where
  "demoCtx = \<lparr>ic_projectId = [1], ic_keyPrefix = [2], ic_requestId = [3]\<rparr>"

definition demoConfig :: IngestConfig where
  "demoConfig = \<lparr>ig_maxRequestsPerMinute = 100, ig_maxEventsPerMinute = 100, ig_userHmacSecret = []\<rparr>"

lemma emptyTdb_ok: "ingestOk emptyTdb"
  by (simp add: ingestOk_def emptyTdb_def)

definition demoBatch :: json where
  "demoBatch = JObj [(js ''events'', JArr [JObj [(js ''event_id'', JStr (js ''e''))]])]"

lemma demo_ingest:
  assumes "ingestOk db" "usedIn [1] [2] 0 db = (m, m)" "m \<le> 50"
  shows "\<exists>r db'. ingestBatch demoEnv demoTypes 0 f demoCtx demoBatch demoConfig db = (Inr r, db')
    \<and> ingestOk db' \<and> usedIn [1] [2] 0 db' = (m + 1, m + 1)"
proof -
  have n: "length (eventsOf demoBatch) = 1" by (simp add: demoBatch_def eventsOf_def)
  obtain c db1 where one: "checkAndIncrementRateLimit 0 [1] [2] 100 100 1 db = (c, db1)" by fastforce
  have w: "inWindow [1] [2] 0 ([1], [2], 0, 1)" by (simp add: inWindow_def bucketStart_def)
  note u = usedIn_check [OF one, of "[1]" "[2]" 0]
  have allowed: "rl_allowed c" "usedIn [1] [2] 0 db1 = (m + 1, m + 1)"
    using u(1) u(2) [OF w] assms(2,3) w by simp_all
  have lim: "checkRateLimit 0 [1] [2] 1 100 100 db = ((True, rl_retryAfterSeconds c), db1)"
    using one allowed(1) by (simp add: checkRateLimit_def)
  have ok1: "ingestOk db1" using ingestOk_buckets(1) [OF checkRateLimit_frame [OF lim]] assms(1) by simp
  let ?sb = "sanitizedBatchOf (ie_url demoEnv) demoBatch"
  obtain r db' where run: "ingestEvents demoEnv demoTypes demoConfig 0 [1] ?sb f 0 (eventsOf ?sb) (noIngest [3]) db1 = (r, db')"
    by fastforce
  have "t_buckets db' = t_buckets db1" "ingestOk db'" using ingestEvents_run [OF ok1 run] by simp_all
  moreover have "ingestBatch demoEnv demoTypes 0 f demoCtx demoBatch demoConfig db = (Inr r, db')"
    using lim run n by (simp add: ingestBatch_def demoCtx_def demoConfig_def Let_def)
  ultimately show ?thesis using allowed(2) by (simp add: usedIn_def)
qed




text \<open>
  C32: in any sequence of requests, of any projects and keys at any times, the requests of one
  key that are let through in one minute, and their events, stay within what the configured
  limits leave; a refused request is told to wait between 1 and 60 seconds, and after that
  wait a new window has begun.
\<close>

theorem rate_limit_window_bound:
  "length (filter (inWindow pid prefix w) (granted mr me calls db)) \<le> mr - fst (usedIn pid prefix w db)
   \<and> sum_list (map callEvents (filter (inWindow pid prefix w) (granted mr me calls db))) \<le> me - snd (usedIn pid prefix w db)
   \<and> (case rl_retryAfterSeconds (fst (checkAndIncrementRateLimit now pid prefix mr me n db)) of
        None \<Rightarrow> rl_allowed (fst (checkAndIncrementRateLimit now pid prefix mr me n db))
      | Some s \<Rightarrow> \<not> rl_allowed (fst (checkAndIncrementRateLimit now pid prefix mr me n db))
          \<and> 1 \<le> s \<and> s \<le> 60 \<and> bucketStart now < bucketStart (now + 1000 * s))"
  using granted_bound [of pid prefix w mr me calls db] retry_seconds [of now]
  by (simp add: retryAfter_eq)

text \<open>
  C33: a request changes the telemetry tables only with an active ingest key of the project whose
  stored hash it matches, from an enabled origin of that project, and with a body within the
  limits that has one to the maximum number of events; otherwise every table is as before and
  the reply is an error.
\<close>

definition guardedRequest :: "'u ingestEnv \<Rightarrow> BatchValidationLimits \<Rightarrow> kdb \<Rightarrow> IngestRequest \<Rightarrow> bool" where
  "guardedRequest env limits kd request \<longleftrightarrow>
     (\<exists>row \<in> set (kd_keys kd). \<exists>key o'. k_revokedAt row = None \<and> k_kind row = js ''public_ingest''
        \<and> verifyPublicKey (ie_sha256 env) key (k_keyHash row)
        \<and> (rq_key request = Some key \<or> rq_key request = Some (bearer @ key))
        \<and> rq_origin request = Some o'
        \<and> (\<exists>og \<in> set (kd_origins kd). og_projectId og = k_projectId row \<and> og_origin og = o' \<and> og_isEnabled og))
     \<and> ie_byteSize env (rq_body request) \<le> bl_maxBodyBytes limits
     \<and> length (eventsOf (rq_body request)) \<in> {1..bl_maxBatchEvents limits}"

lemma validateBatch_Inr:
  assumes "validateBatchRequest env body requestId limits = Inr batch"
  shows "batch = body" "ie_byteSize env body \<le> bl_maxBodyBytes limits"
    "length (eventsOf body) \<in> {1..bl_maxBatchEvents limits}"
  using assms by (auto simp: validateBatchRequest_def bindE_Inr Let_def eventsOf_def Suc_le_eq split: option.splits)

lemma guarded:
  assumes "parseAndValidatePublicKey (rq_key request) = Some (prefix, fullKey)"
    "verifyIngestKey (ie_sha256 env) kd prefix fullKey = Some (projectId, keyId)"
    "validateOrigin kd projectId (rq_origin request)"
    "validateBatchRequest env (rq_body request) (rq_id request) limits = Inr batch"
  shows "guardedRequest env limits kd request"
proof -
  obtain row where row: "findKeyByPrefix kd prefix = Some row" "k_revokedAt row = None" "k_kind row = js ''public_ingest''"
    "verifyPublicKey (ie_sha256 env) fullKey (k_keyHash row)" "projectId = k_projectId row"
    using assms(2) by (auto simp: verifyIngestKey_def split: option.splits if_splits)
  have r: "row \<in> set (kd_keys kd)" using row(1) find_SomeD by (fastforce simp: findKeyByPrefix_def)
  have k: "rq_key request = Some fullKey \<or> rq_key request = Some (bearer @ fullKey)"
    using assms(1) by (auto simp: parseAndValidatePublicKey_def Let_def startsWith_append bearer_def js_eval
        split: option.splits if_splits)
  obtain o' where o': "rq_origin request = Some o'"
    "\<exists>og \<in> set (kd_origins kd). og_projectId og = k_projectId row \<and> og_origin og = o' \<and> og_isEnabled og"
    using assms(3) row(5) by (fastforce simp: validateOrigin_def listOriginsByProject_def split: option.splits if_splits)
  from r row k o' validateBatch_Inr [OF assms(4)] show ?thesis
    unfolding guardedRequest_def by blast
qed


end
