(* ===== verification/IngestClient.thy ===== *)
theory IngestClient
  imports IngestLaws EventQueue
begin

text \<open>
  The ingest route as the SDK sees it: the status of a reply against the retry policy of
  \<open>packages/sdk/src/queue.ts\<close>.
\<close>



end
