(* ===== verification/Releases.thy ===== *)
theory Releases
  imports UploadPolicy Text Errors
begin

text \<open>
  Releases and their artifacts: the validators (\<open>packages/db/src/releases.ts\<close>), the repository
  (\<open>repositories/releases.ts\<close>), the durable list of blobs to delete
  (\<open>repositories/artifact-deletion.ts\<close>) and the CLI service (\<open>apps/api/src/services/releases.ts\<close>).
  The three tables are one record; a generated id and the clock are arguments, and a unique
  violation is a branch.
\<close>

subsection \<open>Validators\<close>

datatype ReleaseValidationError = ReleaseValidationError (rv_field: jstr) (rv_message: jstr)

definition RELEASE_VERSION_MAX_LENGTH :: nat where "RELEASE_VERSION_MAX_LENGTH = 128"
definition REPOSITORY_URL_MAX_LENGTH :: nat where "REPOSITORY_URL_MAX_LENGTH = 2048"
definition REL_ARTIFACT_PATH_MAX_LENGTH :: nat where "REL_ARTIFACT_PATH_MAX_LENGTH = 1024"
definition REL_STORAGE_KEY_MAX_LENGTH :: nat where "REL_STORAGE_KEY_MAX_LENGTH = 1024"

definition relFail :: "string \<Rightarrow> string \<Rightarrow> ReleaseValidationError + 'a" where
  "relFail f m = Inl (ReleaseValidationError (js f) (js m))"

definition validateReleaseVersion :: "json option \<Rightarrow> ReleaseValidationError + jstr" where
  "validateReleaseVersion input =
     (case input of Some (JStr s) \<Rightarrow>
        if length s < 1 \<or> RELEASE_VERSION_MAX_LENGTH < length s then relFail ''version'' ''Version must be 1-128 characters''
        else if hasControlChars s then relFail ''version'' ''Version contains invalid characters''
        else Inr s
      | _ \<Rightarrow> relFail ''version'' ''Version must be a string'')"

definition nullish :: "json option \<Rightarrow> bool" where
  "nullish v \<longleftrightarrow> v = None \<or> v = Some JNull"

definition COMMIT_SHA_PATTERN :: "jstr \<Rightarrow> bool" where
  "COMMIT_SHA_PATTERN s \<longleftrightarrow> 7 \<le> length s \<and> length s \<le> 64 \<and> list_all isHex s"

definition validateCommitSha :: "json option \<Rightarrow> ReleaseValidationError + jstr option" where
  "validateCommitSha input =
     (if nullish input then Inr None
      else case input of
          Some (JStr s) \<Rightarrow> if COMMIT_SHA_PATTERN s then Inr (Some s)
            else relFail ''commitSha'' ''Commit SHA must be 7-64 hex characters''
        | _ \<Rightarrow> relFail ''commitSha'' ''Commit SHA must be 7-64 hex characters'')"

definition validateRepositoryUrl :: "json option \<Rightarrow> ReleaseValidationError + jstr option" where
  "validateRepositoryUrl input =
     (if nullish input then Inr None
      else case input of
          Some (JStr s) \<Rightarrow>
            if length s < 1 \<or> REPOSITORY_URL_MAX_LENGTH < length s
            then relFail ''repositoryUrl'' ''Repository URL must be 1-2048 characters''
            else if hasControlChars s then relFail ''repositoryUrl'' ''Repository URL contains invalid characters''
            else let rest = (if take 8 s = js ''https://'' then Some (drop 8 s)
                             else if take 7 s = js ''http://'' then Some (drop 7 s) else None)
                 in case rest of
                      None \<Rightarrow> relFail ''repositoryUrl'' ''Repository URL must be an http(s) URL''
                    | Some r \<Rightarrow> if r = [] \<or> 32 \<in> set r
                        then relFail ''repositoryUrl'' ''Repository URL must be an http(s) URL'' else Inr (Some s)
        | _ \<Rightarrow> relFail ''repositoryUrl'' ''Repository URL must be a string'')"

definition rel_validateArtifactPath :: "json option \<Rightarrow> ReleaseValidationError + jstr" where
  "rel_validateArtifactPath input =
     (case input of Some (JStr s) \<Rightarrow>
        if length s < 1 \<or> REL_ARTIFACT_PATH_MAX_LENGTH < length s
        then relFail ''artifactPath'' ''Artifact path must be 1-1024 characters''
        else if 0 \<in> set s then relFail ''artifactPath'' ''Artifact path contains invalid characters''
        else Inr s
      | _ \<Rightarrow> relFail ''artifactPath'' ''Artifact path must be a string'')"

definition validateContentHash :: "json option \<Rightarrow> ReleaseValidationError + jstr" where
  "validateContentHash input =
     (case input of Some (JStr s) \<Rightarrow>
        if CONTENT_HASH_PATTERN s then Inr s
        else relFail ''contentHash'' ''Content hash must be 64 lowercase hex characters''
      | _ \<Rightarrow> relFail ''contentHash'' ''Content hash must be 64 lowercase hex characters'')"

definition validateArtifactType :: "json option \<Rightarrow> ReleaseValidationError + UploadArtifactType" where
  "validateArtifactType input =
     (if input = Some (JStr (js ''source_map'')) then Inr source_map
      else if input = Some (JStr (js ''minified_asset'')) then Inr minified_asset
      else Inl (ReleaseValidationError (js ''artifactType'')
        (js ''Artifact type must be '' @ [39] @ js ''source_map'' @ [39] @ js '' or '' @ [39] @ js ''minified_asset'' @ [39])))"

definition validateSizeBytes :: "json option \<Rightarrow> ReleaseValidationError + nat" where
  "validateSizeBytes input =
     (case input of Some (JNum r) \<Rightarrow>
        if r = of_int \<lfloor>r\<rfloor> \<and> 0 \<le> r then Inr (nat \<lfloor>r\<rfloor>)
        else relFail ''sizeBytes'' ''Size must be a non-negative integer''
      | _ \<Rightarrow> relFail ''sizeBytes'' ''Size must be a non-negative integer'')"

definition rel_validateStorageKey :: "json option \<Rightarrow> ReleaseValidationError + jstr" where
  "rel_validateStorageKey input =
     (case input of Some (JStr s) \<Rightarrow>
        if length s < 1 \<or> REL_STORAGE_KEY_MAX_LENGTH < length s
        then relFail ''storageKey'' ''Storage key must be 1-1024 characters'' else Inr s
      | _ \<Rightarrow> relFail ''storageKey'' ''Storage key must be a string'')"

subsection \<open>Rows\<close>

record ReleaseRow =
  rl_id :: jstr
  rl_projectId :: jstr
  rl_version :: jstr
  rl_commitSha :: "jstr option"
  rl_repositoryUrl :: "jstr option"
  rl_createdAt :: int

record ReleaseArtifactRow =
  ra_id :: jstr
  ra_releaseId :: jstr
  ra_artifactPath :: jstr
  ra_storageKey :: jstr
  ra_contentHash :: jstr
  ra_sizeBytes :: nat
  ra_artifactType :: UploadArtifactType
  ra_createdAt :: int

record DeletionRow =
  do_id :: jstr
  do_projectId :: "jstr option"
  do_storageKey :: jstr
  do_attemptCount :: nat
  do_createdAt :: int
  do_lastAttemptAt :: "int option"
  do_completedAt :: "int option"
  do_lastError :: "jstr option"

record rdb =
  rd_projects :: "jstr list"
  rd_releases :: "ReleaseRow list"
  rd_artifacts :: "ReleaseArtifactRow list"
  rd_deletions :: "DeletionRow list"

subsection \<open>Releases\<close>

definition findReleaseByProjectAndVersion :: "rdb \<Rightarrow> jstr \<Rightarrow> jstr \<Rightarrow> ReleaseRow option" where
  "findReleaseByProjectAndVersion db p v = find (\<lambda>r. rl_projectId r = p \<and> rl_version r = v) (rd_releases db)"

definition findReleaseByIdInProject :: "rdb \<Rightarrow> jstr \<Rightarrow> jstr \<Rightarrow> ReleaseRow option" where
  "findReleaseByIdInProject db p i = find (\<lambda>r. rl_projectId r = p \<and> rl_id r = i) (rd_releases db)"

datatype releaseError = RelInvalid ReleaseValidationError | ReleaseVersionConflictError ReleaseRow | RelDb

text \<open>
  The insert under the unique constraint on project and version and the foreign key to the
  project. \<open>dbUp\<close> is false when the statement fails for another reason.
\<close>

datatype insertResult = Inserted | UniqueViolation | OtherDbError

definition insertReleaseRow :: "bool \<Rightarrow> ReleaseRow \<Rightarrow> rdb \<Rightarrow> insertResult \<times> rdb" where
  "insertReleaseRow dbUp row db =
     (if \<not> dbUp \<or> rl_projectId row \<notin> set (rd_projects db) then (OtherDbError, db)
      else if findReleaseByProjectAndVersion db (rl_projectId row) (rl_version row) \<noteq> None then (UniqueViolation, db)
      else (Inserted, db\<lparr>rd_releases := rd_releases db @ [row]\<rparr>))"

record CreateReleaseInput =
  cr_projectId :: jstr
  cr_version :: "json option"
  cr_commitSha :: "json option"
  cr_repositoryUrl :: "json option"

text \<open>
  \<open>others\<close> are the commits of other requests between the failed insert and the read that follows.
\<close>

definition createRelease ::
    "(rdb \<Rightarrow> rdb) \<Rightarrow> bool \<Rightarrow> jstr \<Rightarrow> int \<Rightarrow> CreateReleaseInput \<Rightarrow> rdb \<Rightarrow> (releaseError + ReleaseRow \<times> bool) \<times> rdb" where
  "createRelease others dbUp newId now input db =
     (case validateReleaseVersion (cr_version input) of
        Inl e \<Rightarrow> (Inl (RelInvalid e), db)
      | Inr version \<Rightarrow>
        (case validateCommitSha (cr_commitSha input) of
           Inl e \<Rightarrow> (Inl (RelInvalid e), db)
         | Inr commitSha \<Rightarrow>
           (case validateRepositoryUrl (cr_repositoryUrl input) of
              Inl e \<Rightarrow> (Inl (RelInvalid e), db)
            | Inr repositoryUrl \<Rightarrow>
                let row = \<lparr>rl_id = newId, rl_projectId = cr_projectId input, rl_version = version,
                           rl_commitSha = commitSha, rl_repositoryUrl = repositoryUrl, rl_createdAt = now\<rparr>
                in case insertReleaseRow dbUp row db of
                     (Inserted, db1) \<Rightarrow> (Inr (row, True), db1)
                   | (OtherDbError, db1) \<Rightarrow> (Inl RelDb, db1)
                   | (UniqueViolation, db1) \<Rightarrow>
                       let db2 = others db1
                       in case findReleaseByProjectAndVersion db2 (cr_projectId input) version of
                            None \<Rightarrow> (Inl RelDb, db2)
                          | Some existing \<Rightarrow>
                              if rl_commitSha existing \<noteq> commitSha \<or> rl_repositoryUrl existing \<noteq> repositoryUrl
                              then (Inl (ReleaseVersionConflictError existing), db2)
                              else (Inr (existing, False), db2))))"

text \<open>The service: repository errors become domain errors.\<close>

definition releaseVersionConflict :: DomainError where
  "releaseVersionConflict = DomainError RELEASE_VERSION_CONFLICT (js ''Release version already exists with different metadata'')"

definition createCliRelease ::
    "(rdb \<Rightarrow> rdb) \<Rightarrow> bool \<Rightarrow> jstr \<Rightarrow> int \<Rightarrow> jstr \<Rightarrow> json option \<Rightarrow> json option \<Rightarrow> json option \<Rightarrow> rdb
      \<Rightarrow> (thrown + ReleaseRow \<times> bool) \<times> rdb" where
  "createCliRelease others dbUp newId now projectId version commitSha repositoryUrl db =
     (case createRelease others dbUp newId now \<lparr>cr_projectId = projectId, cr_version = version,
             cr_commitSha = commitSha, cr_repositoryUrl = repositoryUrl\<rparr> db of
        (Inr r, db1) \<Rightarrow> (Inr r, db1)
      | (Inl (RelInvalid e), db1) \<Rightarrow> (Inl (Domain (validationError (rv_message e))), db1)
      | (Inl (ReleaseVersionConflictError row), db1) \<Rightarrow> (Inl (Domain releaseVersionConflict), db1)
      | (Inl RelDb, db1) \<Rightarrow> (Inl (PlainError (js ''Failed to insert release'')), db1))"

definition lockReleasesByProjects :: "rdb \<Rightarrow> jstr list \<Rightarrow> ReleaseRow list" where
  "lockReleasesByProjects db ps =
     sort_key (\<lambda>r. (rl_projectId r, rl_id r)) (filter (\<lambda>r. rl_projectId r \<in> set ps) (rd_releases db))"

definition lockArtifactsByReleases :: "rdb \<Rightarrow> jstr list \<Rightarrow> ReleaseArtifactRow list" where
  "lockArtifactsByReleases db rs =
     sort_key (\<lambda>a. (ra_releaseId a, ra_artifactPath a, ra_id a)) (filter (\<lambda>a. ra_releaseId a \<in> set rs) (rd_artifacts db))"

subsection \<open>Artifacts\<close>

definition findArtifactByReleaseAndPath :: "rdb \<Rightarrow> jstr \<Rightarrow> jstr \<Rightarrow> ReleaseArtifactRow option" where
  "findArtifactByReleaseAndPath db r p = find (\<lambda>a. ra_releaseId a = r \<and> ra_artifactPath a = p) (rd_artifacts db)"

definition listArtifactsByRelease :: "rdb \<Rightarrow> jstr \<Rightarrow> ReleaseArtifactRow list" where
  "listArtifactsByRelease db r = sort_key ra_artifactPath (filter (\<lambda>a. ra_releaseId a = r) (rd_artifacts db))"

record InsertReleaseArtifactInput =
  ia_releaseId :: jstr
  ia_artifactPath :: jstr
  ia_storageKey :: jstr
  ia_contentHash :: jstr
  ia_sizeBytes :: nat
  ia_artifactType :: UploadArtifactType

text \<open>The validators run on values that are already of their type; they can still refuse.\<close>

definition insertReleaseArtifact ::
    "bool \<Rightarrow> jstr \<Rightarrow> int \<Rightarrow> InsertReleaseArtifactInput \<Rightarrow> rdb \<Rightarrow> (insertResult \<times> ReleaseArtifactRow option) \<times> rdb" where
  "insertReleaseArtifact dbUp newId now input db =
     (case (rel_validateArtifactPath (Some (JStr (ia_artifactPath input))),
            rel_validateStorageKey (Some (JStr (ia_storageKey input))),
            validateContentHash (Some (JStr (ia_contentHash input)))) of
        (Inr path, Inr key, Inr hash) \<Rightarrow>
          if \<not> dbUp \<or> ia_releaseId input \<notin> rl_id ` set (rd_releases db) then ((OtherDbError, None), db)
          else if findArtifactByReleaseAndPath db (ia_releaseId input) path \<noteq> None then ((UniqueViolation, None), db)
          else let row = \<lparr>ra_id = newId, ra_releaseId = ia_releaseId input, ra_artifactPath = path, ra_storageKey = key,
                          ra_contentHash = hash, ra_sizeBytes = ia_sizeBytes input, ra_artifactType = ia_artifactType input,
                          ra_createdAt = now\<rparr>
               in ((Inserted, Some row), db\<lparr>rd_artifacts := rd_artifacts db @ [row]\<rparr>)
      | _ \<Rightarrow> ((OtherDbError, None), db))"

definition countArtifactsByReleaseIds :: "rdb \<Rightarrow> jstr list \<Rightarrow> jstr \<Rightarrow> nat option" where
  "countArtifactsByReleaseIds db ids i =
     (let n = length (filter (\<lambda>a. ra_releaseId a = i) (rd_artifacts db))
      in if i \<in> set ids \<and> 0 < n then Some n else None)"

subsection \<open>Blobs to delete\<close>

record ParsedDeletionKey =
  pd_key :: jstr
  pd_projectId :: jstr
  pd_releaseId :: jstr
  pd_contentHash :: jstr

definition parseArtifactDeletionStorageKey :: "json option \<Rightarrow> ReleaseValidationError + ParsedDeletionKey" where
  "parseArtifactDeletionStorageKey input =
     bindE (rel_validateStorageKey input) (\<lambda>key.
       case split_on 47 key of
         [p, r, h] \<Rightarrow>
           if \<not> UUID_PATTERN p \<or> \<not> UUID_PATTERN r
           then relFail ''storageKey'' ''Artifact storage key ids must be UUIDs''
           else bindE (validateContentHash (Some (JStr h))) (\<lambda>_.
                  Inr \<lparr>pd_key = key, pd_projectId = p, pd_releaseId = r, pd_contentHash = h\<rparr>)
       | _ \<Rightarrow> relFail ''storageKey'' ''Artifact storage key must have exactly three segments'')"

definition findDeletion :: "rdb \<Rightarrow> jstr \<Rightarrow> DeletionRow option" where
  "findDeletion db key = find (\<lambda>d. do_storageKey d = key) (rd_deletions db)"

definition insertArtifactDeletionOutbox :: "jstr \<Rightarrow> int \<Rightarrow> jstr option \<Rightarrow> jstr \<Rightarrow> rdb \<Rightarrow> (ReleaseValidationError + DeletionRow) \<times> rdb" where
  "insertArtifactDeletionOutbox newId now projectId storageKey db =
     (case parseArtifactDeletionStorageKey (Some (JStr storageKey)) of
        Inl e \<Rightarrow> (Inl e, db)
      | Inr parsed \<Rightarrow>
          (case findDeletion db (pd_key parsed) of
             Some existing \<Rightarrow> (Inr existing, db)
           | None \<Rightarrow>
               let row = \<lparr>do_id = newId, do_projectId = projectId, do_storageKey = pd_key parsed, do_attemptCount = 0,
                          do_createdAt = now, do_lastAttemptAt = None, do_completedAt = None, do_lastError = None\<rparr>
               in (Inr row, db\<lparr>rd_deletions := rd_deletions db @ [row]\<rparr>)))"

definition MAX_ARTIFACT_DELETION_BATCH_SIZE :: int where "MAX_ARTIFACT_DELETION_BATCH_SIZE = 100"
definition MAX_ARTIFACT_DELETION_ERROR_LENGTH :: nat where "MAX_ARTIFACT_DELETION_ERROR_LENGTH = 2000"

text \<open>\<open>locked\<close> are the rows another worker holds; a bad size throws a \<open>RangeError\<close>.\<close>

definition claimPendingArtifactDeletionBatch :: "jstr set \<Rightarrow> int \<Rightarrow> rdb \<Rightarrow> DeletionRow list option" where
  "claimPendingArtifactDeletionBatch locked limit db =
     (if limit < 1 \<or> MAX_ARTIFACT_DELETION_BATCH_SIZE < limit then None
      else Some (take (nat limit) (filter (\<lambda>d. do_id d \<notin> locked)
             (sort_key (\<lambda>d. (do_createdAt d, do_id d)) (filter (\<lambda>d. do_completedAt d = None) (rd_deletions db))))))"

definition updateDeletion :: "jstr \<Rightarrow> (DeletionRow \<Rightarrow> DeletionRow) \<Rightarrow> rdb \<Rightarrow> rdb" where
  "updateDeletion i f db =
     db\<lparr>rd_deletions := map (\<lambda>d. if do_id d = i \<and> do_completedAt d = None then f d else d) (rd_deletions db)\<rparr>"

definition markArtifactDeletionCompleted :: "int \<Rightarrow> jstr \<Rightarrow> rdb \<Rightarrow> bool \<times> rdb" where
  "markArtifactDeletionCompleted now i db =
     (list_ex (\<lambda>d. do_id d = i \<and> do_completedAt d = None) (rd_deletions db),
      updateDeletion i (\<lambda>d. d\<lparr>do_completedAt := Some now, do_lastAttemptAt := Some now, do_lastError := None\<rparr>) db)"

definition sanitizeArtifactDeletionError :: "jstr \<Rightarrow> jstr" where
  "sanitizeArtifactDeletionError errorMessage =
     (let compact = trim errorMessage
      in case compact of [] \<Rightarrow> js ''artifact_deletion_failed''
         | c # cs \<Rightarrow> if isAlnum c \<and> length cs \<le> 199 \<and> list_all (\<lambda>d. isAlnum d \<or> d \<in> {95, 46, 58, 45}) cs
                     then compact else js ''artifact_deletion_failed'')"

definition recordArtifactDeletionFailure :: "int \<Rightarrow> jstr \<Rightarrow> jstr \<Rightarrow> rdb \<Rightarrow> rdb" where
  "recordArtifactDeletionFailure now i errorMessage db =
     (let lastError = take MAX_ARTIFACT_DELETION_ERROR_LENGTH (sanitizeArtifactDeletionError errorMessage)
      in updateDeletion i (\<lambda>d. d\<lparr>do_attemptCount := do_attemptCount d + 1, do_lastAttemptAt := Some now,
           do_lastError := Some lastError\<rparr>) db)"

end
