(* ===== verification/Uploads.thy ===== *)
theory Uploads
  imports Releases
begin

text \<open>
  The artifact upload pipeline (\<open>apps/api/src/services/artifacts.ts\<close>): the preflight check, the
  staged stream and the finalizer with its compensation. The blob store is an argument, as in the
  source. The lemmas follow the blobs: which rows keep theirs, and which can lose it.
\<close>

subsection \<open>Errors of the pipeline\<close>

definition artifactPathInvalid :: "jstr \<Rightarrow> DomainError" where "artifactPathInvalid m = DomainError ARTIFACT_PATH_INVALID m"
definition artifactPathConflict :: DomainError where
  "artifactPathConflict = DomainError ARTIFACT_PATH_CONFLICT (js ''Artifact path already exists with different content'')"
definition invalidArtifactType :: "jstr \<Rightarrow> DomainError" where "invalidArtifactType m = DomainError INVALID_ARTIFACT_TYPE m"
definition invalidSourceMap :: "jstr \<Rightarrow> DomainError" where "invalidSourceMap m = DomainError INVALID_SOURCE_MAP m"
definition artifactTooLarge :: "jstr \<Rightarrow> DomainError" where "artifactTooLarge m = DomainError ARTIFACT_TOO_LARGE m"
definition artifactStorageUnavailable :: DomainError where
  "artifactStorageUnavailable = DomainError ARTIFACT_STORAGE_UNAVAILABLE (js ''Artifact storage is temporarily unavailable'')"

text \<open>An error the caller does not translate is thrown on as it is.\<close>

definition rethrow :: "ArtifactError \<Rightarrow> thrown + 'a" where
  "rethrow e = Inl (PlainError (artifactErrorCode e))"

definition domainE :: "DomainError \<Rightarrow> thrown + 'a" where "domainE e = Inl (Domain e)"

definition sizeCapMessage :: "int \<Rightarrow> jstr" where
  "sizeCapMessage m = js ''Artifact exceeds the '' @ showNat (nat m) @ js ''-byte per-file cap''"

record uploadEnv =
  ue_cwd :: "jstr list"
  ue_sha256 :: "nat list \<Rightarrow> nat list"
  ue_asString :: "json \<Rightarrow> jstr"
  ue_parseJSON :: "jstr \<Rightarrow> json option"

subsection \<open>Checks\<close>

definition quoted :: "jstr \<Rightarrow> jstr" where "quoted s = [34] @ s @ [34]"

definition typeName :: "UploadArtifactType \<Rightarrow> jstr" where
  "typeName t = (case t of source_map \<Rightarrow> js ''source_map'' | minified_asset \<Rightarrow> js ''minified_asset'')"

definition canonicalizeUploadPath :: "uploadEnv \<Rightarrow> json option \<Rightarrow> thrown + jstr" where
  "canonicalizeUploadPath env artifactPath =
     (case canonicalizeArtifactPath (ue_cwd env) None (case artifactPath of None \<Rightarrow> JNull | Some j \<Rightarrow> j) of
        Inr p \<Rightarrow> Inr p
      | Inl (ArtifactPathError m) \<Rightarrow> domainE (artifactPathInvalid m)
      | Inl e \<Rightarrow> rethrow e)"

definition expectedType :: "jstr \<Rightarrow> ArtifactError + UploadArtifactType" where
  "expectedType canonical = bindE (validateArtifactExtension canonical) artifactTypeForExtension"

definition validateUploadType :: "json option \<Rightarrow> jstr \<Rightarrow> thrown + UploadArtifactType" where
  "validateUploadType artifactType canonical =
     (case validateArtifactType artifactType of
        Inl e \<Rightarrow> domainE (validationError (rv_message e))
      | Inr declared \<Rightarrow>
          (case expectedType canonical of
             Inl (InvalidArtifactTypeError m) \<Rightarrow> domainE (invalidArtifactType m)
           | Inl e \<Rightarrow> rethrow e
           | Inr expected \<Rightarrow>
               if declared \<noteq> expected
               then domainE (invalidArtifactType (js ''Declared type '' @ quoted (typeName declared)
                      @ js '' does not match path type '' @ quoted (typeName expected)))
               else Inr declared))"

definition validateUploadMime :: "json option \<Rightarrow> thrown + unit" where
  "validateUploadMime mimeType =
     (case validateArtifactMimeType (case mimeType of None \<Rightarrow> JNull | Some j \<Rightarrow> j) [] of
        Inr u \<Rightarrow> Inr u
      | Inl (InvalidArtifactTypeError m) \<Rightarrow> domainE (invalidArtifactType m)
      | Inl e \<Rightarrow> rethrow e)"

definition validateUploadContent :: "uploadEnv \<Rightarrow> nat list \<Rightarrow> jstr \<Rightarrow> thrown + unit" where
  "validateUploadContent env bs canonical =
     (if endsWith (toLower canonical) (js ''.map'') then
        (case validateSourceMapBytes decodeText (ue_parseJSON env) bs of
           Inr _ \<Rightarrow> Inr ()
         | Inl (InvalidSourceMapError m) \<Rightarrow> domainE (invalidSourceMap m)
         | Inl e \<Rightarrow> rethrow e)
      else (case assertSafeAssetContent bs of
           Inr u \<Rightarrow> Inr u
         | Inl (InvalidArtifactTypeError m) \<Rightarrow> domainE (invalidArtifactType m)
         | Inl e \<Rightarrow> rethrow e))"

subsection \<open>Preflight\<close>

definition PREFLIGHT_MAX_ENTRIES :: nat where "PREFLIGHT_MAX_ENTRIES = 500"
definition UPLOAD_AGGREGATE_MAX_BYTES :: int where "UPLOAD_AGGREGATE_MAX_BYTES = 250 * 1024 * 1024"

datatype PreflightVerdict = verdict_upload | verdict_exists | verdict_conflict

record PreflightEntry =
  pe_artifactPath :: jstr
  pe_artifactType :: UploadArtifactType
  pe_contentHash :: jstr
  pe_sizeBytes :: nat

record PreflightLimits =
  pl_maxFileBytes :: int
  pl_maxEntries :: "nat option"
  pl_aggregateMaxBytes :: "int option"

definition extractPreflightEntries :: "json option \<Rightarrow> nat \<Rightarrow> thrown + json list" where
  "extractPreflightEntries input maxEntries =
     (if \<not> typeofObject input \<or> input = Some JNull then domainE (validationError (js ''Preflight body must be an object''))
      else case getProp (the input) (js ''artifacts'') of
          Some (JArr entries) \<Rightarrow>
            if length entries < 1 \<or> maxEntries < length entries
            then domainE (validationError (js ''Preflight manifest must contain 1-'' @ showNat maxEntries @ js '' entries''))
            else Inr entries
        | _ \<Rightarrow> domainE (validationError (js ''Preflight body must contain an artifacts array'')))"

definition entryText :: "nat \<Rightarrow> jstr" where "entryText index = js ''Preflight entry '' @ showNat index"

definition validateEntryArtifactType :: "json option \<Rightarrow> jstr \<Rightarrow> nat \<Rightarrow> thrown + UploadArtifactType" where
  "validateEntryArtifactType artifactType cpath index =
     (case validateArtifactType artifactType of
        Inl e \<Rightarrow> domainE (validationError (entryText index @ js '': '' @ rv_message e))
      | Inr declared \<Rightarrow>
          (case expectedType cpath of
             Inl (InvalidArtifactTypeError m) \<Rightarrow> domainE (invalidArtifactType (entryText index @ js '': '' @ m))
           | Inl e \<Rightarrow> rethrow e
           | Inr expected \<Rightarrow>
               if declared \<noteq> expected
               then domainE (invalidArtifactType (entryText index @ js '' declares type '' @ quoted (typeName declared)
                      @ js '' for a '' @ quoted (typeName expected) @ js '' path''))
               else Inr declared))"

definition validatePreflightEntry :: "uploadEnv \<Rightarrow> int \<Rightarrow> nat \<Rightarrow> json \<Rightarrow> thrown + PreflightEntry" where
  "validatePreflightEntry env maxFileBytes index entry =
     (if \<not> typeofObject (Some entry) \<or> entry = JNull
      then domainE (validationError (entryText index @ js '' must be an object''))
      else case canonicalizeArtifactPath (ue_cwd env) None (case getProp entry (js ''artifactPath'') of None \<Rightarrow> JNull | Some j \<Rightarrow> j) of
          Inl (ArtifactPathError m) \<Rightarrow> domainE (artifactPathInvalid (entryText index @ js '' has an invalid artifact path''))
        | Inl e \<Rightarrow> rethrow e
        | Inr path \<Rightarrow>
            bindE (validateEntryArtifactType (getProp entry (js ''artifactType'')) path index) (\<lambda>ty.
              case validateContentHash (getProp entry (js ''contentHash'')) of
                Inl e \<Rightarrow> domainE (validationError (entryText index @ js '': '' @ rv_message e))
              | Inr hash \<Rightarrow>
                  (case validateSizeBytes (getProp entry (js ''sizeBytes'')) of
                     Inl e \<Rightarrow> domainE (validationError (entryText index @ js '': '' @ rv_message e))
                   | Inr n \<Rightarrow>
                       if maxFileBytes < int n
                       then domainE (validationError (entryText index @ js '' declares '' @ showNat n @ js '' bytes, above the ''
                              @ showNat (nat maxFileBytes) @ js ''-byte per-file cap''))
                       else Inr \<lparr>pe_artifactPath = path, pe_artifactType = ty, pe_contentHash = hash, pe_sizeBytes = n\<rparr>)))"

fun validateEntries :: "uploadEnv \<Rightarrow> int \<Rightarrow> nat \<Rightarrow> json list \<Rightarrow> thrown + PreflightEntry list" where
  "validateEntries env m i [] = Inr []"
| "validateEntries env m i (e # es) =
     bindE (validatePreflightEntry env m i e) (\<lambda>x. bindE (validateEntries env m (Suc i) es) (\<lambda>xs. Inr (x # xs)))"

text \<open>The first path that occurs a second time.\<close>

fun duplicatePath :: "jstr set \<Rightarrow> PreflightEntry list \<Rightarrow> jstr option" where
  "duplicatePath seen [] = None"
| "duplicatePath seen (e # es) =
     (if pe_artifactPath e \<in> seen then Some (pe_artifactPath e)
      else duplicatePath (insert (pe_artifactPath e) seen) es)"

definition preflightVerdict :: "rdb \<Rightarrow> jstr \<Rightarrow> PreflightEntry \<Rightarrow> PreflightVerdict" where
  "preflightVerdict db releaseId e =
     (case findArtifactByReleaseAndPath db releaseId (pe_artifactPath e) of
        None \<Rightarrow> verdict_upload
      | Some existing \<Rightarrow> if ra_contentHash existing = pe_contentHash e then verdict_exists else verdict_conflict)"

definition checkArtifactPreflight ::
    "uploadEnv \<Rightarrow> rdb \<Rightarrow> jstr \<Rightarrow> json option \<Rightarrow> PreflightLimits \<Rightarrow> thrown + (PreflightEntry \<times> PreflightVerdict) list" where
  "checkArtifactPreflight env db releaseId input limits =
     (let maxEntries = (case pl_maxEntries limits of None \<Rightarrow> PREFLIGHT_MAX_ENTRIES | Some n \<Rightarrow> n);
          aggregateMaxBytes = (case pl_aggregateMaxBytes limits of None \<Rightarrow> UPLOAD_AGGREGATE_MAX_BYTES | Some n \<Rightarrow> n)
      in bindE (extractPreflightEntries input maxEntries) (\<lambda>entries.
           bindE (validateEntries env (pl_maxFileBytes limits) 0 entries) (\<lambda>validated.
             case duplicatePath {} validated of
               Some p \<Rightarrow> domainE (validationError (js ''Duplicate artifact path in manifest: '' @ quoted p))
             | None \<Rightarrow>
                 let aggregate = sum_list (map (int \<circ> pe_sizeBytes) validated)
                 in if aggregateMaxBytes < aggregate
                    then domainE (artifactTooLarge (js ''Preflight manifest declares '' @ showNat (nat aggregate)
                           @ js '' bytes, above the '' @ showNat (nat aggregateMaxBytes) @ js ''-byte aggregate cap''))
                    else Inr (map (\<lambda>e. (e, preflightVerdict db releaseId e)) validated))))"

subsection \<open>Staging\<close>

text \<open>
  The upload stream: chunks, then its end or an error. \<open>aborted i\<close> and \<open>writes i\<close> are the abort
  signal and the success of the writes when chunk \<open>i\<close> is handled. The result is what the temporary
  file holds; a throw has removed it.
\<close>

fun stageChunks :: "int \<Rightarrow> (nat \<Rightarrow> bool) \<Rightarrow> (nat \<Rightarrow> bool) \<Rightarrow> nat \<Rightarrow> nat list \<Rightarrow> nat list list \<Rightarrow> bool \<Rightarrow> thrown + nat list" where
  "stageChunks m aborted writes i acc [] ends =
     (if ends then Inr acc else Inl (PlainError (js ''stream failed'')))"
| "stageChunks m aborted writes i acc (c # cs) ends =
     (if aborted i then domainE (internalError (js ''Artifact upload aborted by client disconnect''))
      else if m < int (length acc + length c) then domainE (artifactTooLarge (sizeCapMessage m))
      else if c \<noteq> [] \<and> \<not> writes i then domainE (internalError (js ''Failed to stage artifact upload''))
      else stageChunks m aborted writes (Suc i) (acc @ c) cs ends)"

definition stageRawUpload ::
    "int \<Rightarrow> bool \<Rightarrow> (nat \<Rightarrow> bool) \<Rightarrow> (nat \<Rightarrow> bool) \<Rightarrow> nat list list \<times> bool \<Rightarrow> thrown + nat list" where
  "stageRawUpload maxFileBytes opens aborted writes source =
     (if maxFileBytes \<le> 0 then domainE (internalError (js ''Invalid artifact size policy''))
      else if aborted 0 then domainE (internalError (js ''Artifact upload aborted by client disconnect''))
      else if \<not> opens then Inl (PlainError (js ''could not stage''))
      else stageChunks maxFileBytes aborted writes 0 [] (fst source) (snd source))"

subsection \<open>Finalizing\<close>

type_synonym 's world = "rdb \<times> 's"

record ArtifactReleaseRef =
  ar_id :: jstr
  ar_projectId :: jstr

record FinalizeUploadMetadata =
  fm_artifactPath :: "json option"
  fm_artifactType :: "json option"
  fm_mimeType :: "json option"

definition putToStorage :: "(ArtifactError + 'r) \<Rightarrow> thrown + unit" where
  "putToStorage res =
     (case res of Inr _ \<Rightarrow> Inr ()
      | Inl (ArtifactTooLargeError k n m) \<Rightarrow> domainE (artifactTooLarge (sizeCapMessage m))
      | Inl (ArtifactStorageError m) \<Rightarrow> domainE artifactStorageUnavailable
      | Inl e \<Rightarrow> rethrow e)"

text \<open>
  A lost race: the same content is a hit, another content removes the blob just written. A
  failing removal is ignored.
\<close>

definition resolveInsertRace ::
    "(jstr \<Rightarrow> 's \<Rightarrow> (ArtifactError + bool) \<times> 's) \<Rightarrow> jstr \<Rightarrow> jstr \<Rightarrow> jstr \<Rightarrow> jstr \<Rightarrow> 's world
      \<Rightarrow> (thrown + ReleaseArtifactRow \<times> bool) \<times> 's world" where
  "resolveInsertRace remove releaseId canonical storageKey hash w =
     (case findArtifactByReleaseAndPath (fst w) releaseId canonical of
        None \<Rightarrow> (Inl (PlainError (js ''unique violation'')), w)
      | Some existing \<Rightarrow>
          if ra_contentHash existing = hash then (Inr (existing, False), w)
          else (domainE artifactPathConflict, (fst w, snd (remove storageKey (snd w)))))"

text \<open>The insert of the metadata row, and the compensation when it fails.\<close>

definition recordUpload ::
    "(jstr \<Rightarrow> 's \<Rightarrow> (ArtifactError + bool) \<times> 's) \<Rightarrow> bool \<Rightarrow> jstr \<Rightarrow> int \<Rightarrow> InsertReleaseArtifactInput \<Rightarrow> 's world
      \<Rightarrow> (thrown + ReleaseArtifactRow \<times> bool) \<times> 's world" where
  "recordUpload remove dbUp newId now input w =
     (case insertReleaseArtifact dbUp newId now input (fst w) of
        ((Inserted, Some record), db) \<Rightarrow> (Inr (record, True), (db, snd w))
      | ((UniqueViolation, _), db) \<Rightarrow>
          resolveInsertRace remove (ia_releaseId input) (ia_artifactPath input) (ia_storageKey input) (ia_contentHash input) w
      | (_, db) \<Rightarrow> (Inl (PlainError (js ''insert failed'')), (db, snd (remove (ia_storageKey input) (snd w)))))"

text \<open>The checks before anything is looked up or written.\<close>

definition checkUpload :: "uploadEnv \<Rightarrow> nat list \<Rightarrow> FinalizeUploadMetadata \<Rightarrow> int \<Rightarrow> thrown + jstr \<times> UploadArtifactType" where
  "checkUpload env staged metadata maxFileBytes =
     bindE (canonicalizeUploadPath env (fm_artifactPath metadata)) (\<lambda>canonical.
       bindE (validateUploadType (fm_artifactType metadata) canonical) (\<lambda>artifactType.
         bindE (validateUploadMime (fm_mimeType metadata)) (\<lambda>_.
           bindE (if maxFileBytes < int (length staged) then domainE (artifactTooLarge (sizeCapMessage maxFileBytes)) else Inr ())
             (\<lambda>_. bindE (validateUploadContent env staged canonical) (\<lambda>_. Inr (canonical, artifactType))))))"

text \<open>
  \<open>store\<close> and \<open>remove\<close> are the blob store as it behaves in this request; \<open>others\<close> are the commits
  and writes of other requests between the write of the blob and the insert.
\<close>

definition finalizeArtifactUpload ::
    "uploadEnv \<Rightarrow> (jstr \<Rightarrow> nat list list \<times> bool \<Rightarrow> 's \<Rightarrow> (ArtifactError + 'r) \<times> 's)
      \<Rightarrow> (jstr \<Rightarrow> 's \<Rightarrow> (ArtifactError + bool) \<times> 's) \<Rightarrow> ('s world \<Rightarrow> 's world)
      \<Rightarrow> bool \<Rightarrow> jstr \<Rightarrow> int \<Rightarrow> ArtifactReleaseRef \<Rightarrow> nat list \<Rightarrow> FinalizeUploadMetadata \<Rightarrow> int \<Rightarrow> 's world
      \<Rightarrow> (thrown + ReleaseArtifactRow \<times> bool) \<times> 's world" where
  "finalizeArtifactUpload env store remove others dbUp newId now release staged metadata maxFileBytes w =
     (case checkUpload env staged metadata maxFileBytes of
        Inl e \<Rightarrow> (Inl e, w)
      | Inr (canonical, artifactType) \<Rightarrow>
          let hash = toHex (ue_sha256 env staged)
          in case findArtifactByReleaseAndPath (fst w) (ar_id release) canonical of
               Some existing \<Rightarrow>
                 if ra_contentHash existing = hash then (Inr (existing, False), w)
                 else (domainE artifactPathConflict, w)
             | None \<Rightarrow>
                 (case buildArtifactStorageKey (ue_asString env) (JStr (ar_projectId release)) (JStr (ar_id release)) (JStr hash) of
                    Inl e \<Rightarrow> (rethrow e, w)
                  | Inr storageKey \<Rightarrow>
                      (case store storageKey ([staged], True) (snd w) of
                         (res, s1) \<Rightarrow>
                           (case putToStorage res of
                              Inl e \<Rightarrow> (Inl e, (fst w, s1))
                            | Inr _ \<Rightarrow>
                                recordUpload remove dbUp newId now
                                  \<lparr>ia_releaseId = ar_id release, ia_artifactPath = canonical, ia_storageKey = storageKey,
                                   ia_contentHash = hash, ia_sizeBytes = length staged, ia_artifactType = artifactType\<rparr>
                                  (others (fst w, s1))))))"

text \<open>The whole upload of one file.\<close>

definition uploadReleaseArtifact ::
    "uploadEnv \<Rightarrow> (jstr \<Rightarrow> nat list list \<times> bool \<Rightarrow> 's \<Rightarrow> (ArtifactError + 'r) \<times> 's)
      \<Rightarrow> (jstr \<Rightarrow> 's \<Rightarrow> (ArtifactError + bool) \<times> 's) \<Rightarrow> ('s world \<Rightarrow> 's world)
      \<Rightarrow> bool \<Rightarrow> jstr \<Rightarrow> int \<Rightarrow> bool \<Rightarrow> (nat \<Rightarrow> bool) \<Rightarrow> (nat \<Rightarrow> bool) \<Rightarrow> ArtifactReleaseRef \<Rightarrow> nat list list \<times> bool
      \<Rightarrow> FinalizeUploadMetadata \<Rightarrow> int \<Rightarrow> 's world \<Rightarrow> (thrown + ReleaseArtifactRow \<times> bool) \<times> 's world" where
  "uploadReleaseArtifact env store remove others dbUp newId now opens aborted writes release source metadata maxFileBytes w =
     (case stageRawUpload maxFileBytes opens aborted writes source of
        Inl e \<Rightarrow> (Inl e, w)
      | Inr staged \<Rightarrow> finalizeArtifactUpload env store remove others dbUp newId now release staged metadata maxFileBytes w)"

subsection \<open>Rows and their blobs\<close>

definition backed :: "('s \<Rightarrow> jstr \<Rightarrow> nat list option) \<Rightarrow> (nat list \<Rightarrow> nat list) \<Rightarrow> 's \<Rightarrow> ReleaseArtifactRow \<Rightarrow> bool" where
  "backed lookup sha s a \<longleftrightarrow> (\<exists>bs. lookup s (ra_storageKey a) = Some bs \<and> toHex (sha bs) = ra_contentHash a \<and> length bs = ra_sizeBytes a)"

text \<open>Every row names its content in its key and has its blob.\<close>

definition keyedRow :: "ReleaseArtifactRow \<Rightarrow> bool" where
  "keyedRow a \<longleftrightarrow> (\<exists>p r. ra_storageKey a = p @ [47] @ r @ [47] @ ra_contentHash a
     \<and> UUID_PATTERN p \<and> UUID_PATTERN r \<and> CONTENT_HASH_PATTERN (ra_contentHash a))"

definition rowOk :: "('s \<Rightarrow> jstr \<Rightarrow> nat list option) \<Rightarrow> (nat list \<Rightarrow> nat list) \<Rightarrow> 's \<Rightarrow> ReleaseArtifactRow \<Rightarrow> bool" where
  "rowOk lookup sha s a \<longleftrightarrow> keyedRow a \<and> backed lookup sha s a"

definition worldOk :: "('s \<Rightarrow> jstr \<Rightarrow> nat list option) \<Rightarrow> (nat list \<Rightarrow> nat list) \<Rightarrow> 's world \<Rightarrow> bool" where
  "worldOk lookup sha w \<longleftrightarrow> (\<forall>a \<in> set (rd_artifacts (fst w)). rowOk lookup sha (snd w) a)"

text \<open>No stored blob collides with the uploaded one under the digest.\<close>

definition noCollision :: "('s \<Rightarrow> jstr \<Rightarrow> nat list option) \<Rightarrow> (nat list \<Rightarrow> nat list) \<Rightarrow> 's \<Rightarrow> nat list \<Rightarrow> bool" where
  "noCollision lookup sha s bs \<longleftrightarrow> (\<forall>k b. lookup s k = Some b \<and> toHex (sha b) = toHex (sha bs) \<longrightarrow> b = bs)"

text \<open>The key of an upload: the address of its content in the release, whatever its path.\<close>

definition uploadKey :: "uploadEnv \<Rightarrow> ArtifactReleaseRef \<Rightarrow> nat list \<Rightarrow> jstr" where
  "uploadKey env release staged = ar_projectId release @ [47] @ ar_id release @ [47] @ toHex (ue_sha256 env staged)"

lemma find_Some_mem: "find P xs = Some x \<Longrightarrow> x \<in> set xs \<and> P x"
  by (induction xs) (auto split: if_splits)

lemma find_None_iff2: "find P xs = None \<longleftrightarrow> (\<forall>x \<in> set xs. \<not> P x)"
  by (induction xs) auto

lemma insertReleaseArtifact_cases:
  assumes "insertReleaseArtifact dbUp newId now i db = ((r, row), db')"
  shows "(r = Inserted \<and> (\<exists>a. row = Some a \<and> db' = db\<lparr>rd_artifacts := rd_artifacts db @ [a]\<rparr> \<and> ra_storageKey a = ia_storageKey i
      \<and> ra_contentHash a = ia_contentHash i \<and> ra_sizeBytes a = ia_sizeBytes i \<and> ra_releaseId a = ia_releaseId i
      \<and> ra_artifactPath a = ia_artifactPath i) \<and> dbUp
      \<and> findArtifactByReleaseAndPath db (ia_releaseId i) (ia_artifactPath i) = None)
    \<or> (r \<noteq> Inserted \<and> row = None \<and> db' = db)"
  using assms
  by (auto simp: insertReleaseArtifact_def rel_validateArtifactPath_def rel_validateStorageKey_def validateContentHash_def
      relFail_def Let_def split: if_splits)

lemma recordUpload_cases:
  assumes "recordUpload remove dbUp newId now i w = (res, w')"
  shows "(\<exists>a. res = Inr (a, True) \<and> w' = ((fst w)\<lparr>rd_artifacts := rd_artifacts (fst w) @ [a]\<rparr>, snd w) \<and> dbUp
        \<and> ra_storageKey a = ia_storageKey i \<and> ra_contentHash a = ia_contentHash i \<and> ra_sizeBytes a = ia_sizeBytes i
        \<and> ra_releaseId a = ia_releaseId i \<and> ra_artifactPath a = ia_artifactPath i)
    \<or> (\<exists>a. res = Inr (a, False) \<and> w' = w \<and> a \<in> set (rd_artifacts (fst w)) \<and> ra_contentHash a = ia_contentHash i
        \<and> ra_releaseId a = ia_releaseId i \<and> ra_artifactPath a = ia_artifactPath i)
    \<or> (\<exists>e. res = Inl e \<and> w' = w)
    \<or> (\<exists>e. res = Inl e \<and> w' = (fst w, snd (remove (ia_storageKey i) (snd w))))"
proof -
  obtain r row db' where ins: "insertReleaseArtifact dbUp newId now i (fst w) = ((r, row), db')"
    by (metis surj_pair)
  from insertReleaseArtifact_cases [OF ins] show ?thesis
  proof (elim disjE conjE exE)
    fix a
    assume "r = Inserted" "row = Some a" "db' = (fst w)\<lparr>rd_artifacts := rd_artifacts (fst w) @ [a]\<rparr>" "dbUp"
      "ra_storageKey a = ia_storageKey i" "ra_contentHash a = ia_contentHash i" "ra_sizeBytes a = ia_sizeBytes i"
      "ra_releaseId a = ia_releaseId i" "ra_artifactPath a = ia_artifactPath i"
    with assms ins show ?thesis by (intro disjI1 exI [of _ a]) (simp add: recordUpload_def)
  next
    assume o: "r \<noteq> Inserted" "row = None" "db' = fst w"
    show ?thesis
    proof (cases r)
      case UniqueViolation
      with assms ins have race: "resolveInsertRace remove (ia_releaseId i) (ia_artifactPath i) (ia_storageKey i) (ia_contentHash i) w = (res, w')"
        by (simp add: recordUpload_def)
      show ?thesis
      proof (cases "findArtifactByReleaseAndPath (fst w) (ia_releaseId i) (ia_artifactPath i)")
        case None
        with race show ?thesis by (auto simp: resolveInsertRace_def)
      next
        case (Some a)
        then have "a \<in> set (rd_artifacts (fst w)) \<and> ra_releaseId a = ia_releaseId i \<and> ra_artifactPath a = ia_artifactPath i"
          by (auto simp: findArtifactByReleaseAndPath_def dest: find_Some_mem)
        with Some race show ?thesis by (auto simp: resolveInsertRace_def domainE_def split: if_splits)
      qed
    next
      case OtherDbError
      with assms ins o show ?thesis by (auto simp: recordUpload_def)
    qed (use o in simp)
  qed
qed

lemma finalize_cases:
  assumes "finalizeArtifactUpload env store remove others dbUp newId now release staged metadata m w = (res, w')"
  defines "hash \<equiv> toHex (ue_sha256 env staged)" and "key \<equiv> uploadKey env release staged"
  shows "(w' = w \<and> (\<forall>a c. res = Inr (a, c) \<longrightarrow> \<not> c \<and> a \<in> set (rd_artifacts (fst w)) \<and> ra_contentHash a = hash))
    \<or> (\<exists>e e' s1. store key ([staged], True) (snd w) = (Inl e, s1) \<and> w' = (fst w, s1) \<and> res = Inl e')
    \<or> (\<exists>r s1 canonical ty. UUID_PATTERN (ar_projectId release) \<and> UUID_PATTERN (ar_id release) \<and> CONTENT_HASH_PATTERN hash
        \<and> store key ([staged], True) (snd w) = (Inr r, s1)
        \<and> recordUpload remove dbUp newId now \<lparr>ia_releaseId = ar_id release, ia_artifactPath = canonical, ia_storageKey = key,
            ia_contentHash = hash, ia_sizeBytes = length staged, ia_artifactType = ty\<rparr> (others (fst w, s1)) = (res, w'))"
proof (cases "checkUpload env staged metadata m")
  case (Inl e)
  with assms(1) show ?thesis by (intro disjI1) (auto simp: finalizeArtifactUpload_def)
next
  case (Inr ct)
  obtain canonical ty where ct: "ct = (canonical, ty)" by (cases ct)
  note f = assms(1) [unfolded finalizeArtifactUpload_def Inr ct sum.case prod.case Let_def hash_def [symmetric]]
  show ?thesis
  proof (cases "findArtifactByReleaseAndPath (fst w) (ar_id release) canonical")
    case (Some existing)
    then have "existing \<in> set (rd_artifacts (fst w))" by (auto simp: findArtifactByReleaseAndPath_def dest: find_Some_mem)
    with f Some show ?thesis by (auto simp: domainE_def split: if_splits)
  next
    case None
    show ?thesis
    proof (cases "buildArtifactStorageKey (ue_asString env) (JStr (ar_projectId release)) (JStr (ar_id release)) (JStr hash)")
      case (Inl e)
      with f None show ?thesis by (auto simp: rethrow_def)
    next
      case b: (Inr storageKey)
      then have k: "storageKey = key" and pats: "UUID_PATTERN (ar_projectId release)" "UUID_PATTERN (ar_id release)" "CONTENT_HASH_PATTERN hash"
        by (auto simp: buildArtifactStorageKey_def key_def uploadKey_def hash_def split: if_splits)
      obtain r s1 where st: "store key ([staged], True) (snd w) = (r, s1)" by (metis surj_pair)
      show ?thesis
      proof (cases r)
        case (Inl e)
        then have "\<exists>e'. putToStorage r = Inl e'"
          by (cases e) (simp_all add: putToStorage_def domainE_def rethrow_def)
        with f None b k st Inl show ?thesis by auto
      next
        case r: (Inr y)
        with f None b k st have "recordUpload remove dbUp newId now \<lparr>ia_releaseId = ar_id release, ia_artifactPath = canonical,
            ia_storageKey = key, ia_contentHash = hash, ia_sizeBytes = length staged, ia_artifactType = ty\<rparr> (others (fst w, s1)) = (res, w')"
          by (simp add: putToStorage_def)
        with st r pats show ?thesis by blast
      qed
    qed
  qed
qed

text \<open>
  The client of a blob store. \<open>calm\<close>: the other requests keep the rows in order and leave the blob
  of this upload in place.
\<close>

definition calm :: "('s \<Rightarrow> jstr \<Rightarrow> nat list option) \<Rightarrow> (nat list \<Rightarrow> nat list) \<Rightarrow> jstr \<Rightarrow> ('s world \<Rightarrow> 's world) \<Rightarrow> bool" where
  "calm lookup sha key others \<longleftrightarrow> (\<forall>w. worldOk lookup sha w \<longrightarrow> worldOk lookup sha (others w)
     \<and> lookup (snd (others w)) key = lookup (snd w) key)"

lemma same_key_same_hash:
  assumes "keyedRow a" "ra_storageKey a = p @ [47] @ r @ [47] @ h"
    and "UUID_PATTERN p" "UUID_PATTERN r" "CONTENT_HASH_PATTERN h"
  shows "ra_contentHash a = h"
proof -
  from assms(1) obtain p' r' where a: "ra_storageKey a = p' @ [47] @ r' @ [47] @ ra_contentHash a"
    "UUID_PATTERN p'" "UUID_PATTERN r'" "CONTENT_HASH_PATTERN (ra_contentHash a)" by (auto simp: keyedRow_def)
  have "split_on 47 (ra_storageKey a) = [p', r', ra_contentHash a]"
    unfolding a(1) using a(2-4) UUID_no_slash CONTENT_HASH_segment by (intro split_on_three) auto
  moreover have "split_on 47 (ra_storageKey a) = [p, r, h]"
    unfolding assms(2) using assms(3-5) UUID_no_slash CONTENT_HASH_segment by (intro split_on_three) auto
  ultimately show ?thesis by simp
qed

locale artifact_store = blob_store lookup store remove validKey
  for lookup :: "'s \<Rightarrow> jstr \<Rightarrow> nat list option"
    and store :: "'io \<Rightarrow> jstr \<Rightarrow> nat list list \<times> bool \<Rightarrow> 's \<Rightarrow> (ArtifactError + 'r) \<times> 's"
    and remove :: "bool \<Rightarrow> jstr \<Rightarrow> 's \<Rightarrow> (ArtifactError + bool) \<times> 's"
begin

lemma keyed_addr: "keyedRow a \<Longrightarrow> validKey (ra_storageKey a)"
  unfolding keyedRow_def by (metis validKey_built)

lemma removed_blob: "validKey k \<Longrightarrow> k \<noteq> key \<Longrightarrow> lookup (snd (remove u key s)) k = lookup s k"
proof -
  assume a: "validKey k" "k \<noteq> key"
  obtain res s' where r: "remove u key s = (res, s')" by (metis surj_pair)
  show ?thesis
  proof (cases res)
    case (Inl e)
    with remove_fails [of u key s e s'] r show ?thesis by simp
  next
    case (Inr b)
    with remove_ok [OF a(1), of u key s b s'] r a show ?thesis by simp
  qed
qed

lemma rowOk_other:
  "rowOk lookup sha s a \<Longrightarrow> lookup s' (ra_storageKey a) = lookup s (ra_storageKey a) \<Longrightarrow> rowOk lookup sha s' a"
  by (simp add: rowOk_def backed_def)

lemma stored_rows:
  assumes w: "worldOk lookup sha w" and st: "store io key ([bs], True) (snd w) = (Inr r, s1)"
    and key: "key = p @ [47] @ q @ [47] @ toHex (sha bs)" "UUID_PATTERN p" "UUID_PATTERN q" "CONTENT_HASH_PATTERN (toHex (sha bs))"
    and nc: "noCollision lookup sha (snd w) bs"
  shows "worldOk lookup sha (fst w, s1)"
proof -
  have "rowOk lookup sha s1 a" if a: "a \<in> set (rd_artifacts (fst w))" for a
  proof (cases "ra_storageKey a = key")
    case False
    have ok: "rowOk lookup sha (snd w) a" using w a by (simp add: worldOk_def)
    then have "lookup s1 (ra_storageKey a) = lookup (snd w) (ra_storageKey a)"
      using store_other [OF keyed_addr False st] by (simp add: rowOk_def)
    with ok show ?thesis by (rule rowOk_other)
  next
    case True
    have ok: "rowOk lookup sha (snd w) a" using w a by (simp add: worldOk_def)
    then obtain b where b: "lookup (snd w) key = Some b" "toHex (sha b) = ra_contentHash a" "length b = ra_sizeBytes a" and k: "keyedRow a"
      using True by (auto simp: rowOk_def backed_def)
    have "ra_contentHash a = toHex (sha bs)" using same_key_same_hash [OF k] True key by simp
    with nc b have "b = bs" by (simp add: noCollision_def)
    with b k True read_after_store [OF st] show ?thesis by (simp add: rowOk_def backed_def)
  qed
  then show ?thesis by (simp add: worldOk_def)
qed

text \<open>A row keeps its blob unless the upload failed and the row shares its key.\<close>

lemma finalize_backing:
  fixes env release staged
  defines "key \<equiv> uploadKey env release staged" and "sha \<equiv> ue_sha256 env"
  assumes w: "worldOk lookup sha w" and calm: "calm lookup sha key others" and nc: "noCollision lookup sha (snd w) staged"
    and f: "finalizeArtifactUpload env (store io) (remove u) others dbUp newId now release staged metadata m w = (res, w')"
  shows "(\<forall>a \<in> set (rd_artifacts (fst w')). rowOk lookup sha (snd w') a \<or> (isl res \<and> ra_storageKey a = key))
    \<and> (\<forall>a c. res = Inr (a, c) \<longrightarrow> a \<in> set (rd_artifacts (fst w')) \<and> ra_contentHash a = toHex (sha staged))"
  using finalize_cases [OF f, folded key_def sha_def]
proof (elim disjE exE conjE)
  assume "w' = w" "\<forall>a c. res = Inr (a, c) \<longrightarrow> \<not> c \<and> a \<in> set (rd_artifacts (fst w)) \<and> ra_contentHash a = toHex (sha staged)"
  with w show ?thesis by (auto simp: worldOk_def)
next
  fix e e' s1
  assume st: "store io key ([staged], True) (snd w) = (Inl e, s1)" and w': "w' = (fst w, s1)" "res = Inl e'"
  have "rowOk lookup sha s1 a" if "a \<in> set (rd_artifacts (fst w))" for a
  proof -
    have ok: "rowOk lookup sha (snd w) a" using w that by (simp add: worldOk_def)
    then have "lookup s1 (ra_storageKey a) = lookup (snd w) (ra_storageKey a)"
      using store_fails [OF keyed_addr st] by (simp add: rowOk_def)
    with ok show ?thesis by (rule rowOk_other)
  qed
  with w' show ?thesis by simp
next
  fix r s1 canonical ty
  assume pats: "UUID_PATTERN (ar_projectId release)" "UUID_PATTERN (ar_id release)" "CONTENT_HASH_PATTERN (toHex (sha staged))"
    and st: "store io key ([staged], True) (snd w) = (Inr r, s1)"
    and rec: "recordUpload (remove u) dbUp newId now \<lparr>ia_releaseId = ar_id release, ia_artifactPath = canonical, ia_storageKey = key,
          ia_contentHash = toHex (sha staged), ia_sizeBytes = length staged, ia_artifactType = ty\<rparr> (others (fst w, s1)) = (res, w')"
  have k: "key = ar_projectId release @ [47] @ ar_id release @ [47] @ toHex (sha staged)"
    by (simp add: key_def uploadKey_def sha_def)
  have "worldOk lookup sha (fst w, s1)" by (rule stored_rows [OF w st k pats nc])
  then have o: "worldOk lookup sha (others (fst w, s1))" and kb: "lookup (snd (others (fst w, s1))) key = Some staged"
    using calm read_after_store [OF st] by (auto simp: calm_def)
  let ?o = "others (fst w, s1)"
  from recordUpload_cases [OF rec] show ?thesis
  proof (elim disjE exE conjE, goal_cases)
    case (1 a)
    then have "rowOk lookup sha (snd ?o) a" using pats k kb by (auto simp: rowOk_def backed_def keyedRow_def)
    with 1 o show ?case by (auto simp: worldOk_def)
  next
    case (2 a)
    with o show ?case by (auto simp: worldOk_def)
  next
    case (3 e)
    with o show ?case by (auto simp: worldOk_def)
  next
    case (4 e)
    have "rowOk lookup sha (snd w') a" if a: "a \<in> set (rd_artifacts (fst ?o))" "ra_storageKey a \<noteq> key" for a
    proof -
      have ok: "rowOk lookup sha (snd ?o) a" using o a(1) by (simp add: worldOk_def)
      moreover have "lookup (snd (remove u key (snd ?o))) (ra_storageKey a) = lookup (snd ?o) (ra_storageKey a)"
        using ok a(2) by (intro removed_blob keyed_addr) (simp_all add: rowOk_def)
      ultimately show ?thesis using 4 rowOk_other by simp
    qed
    with 4 show ?case by auto
  qed
qed

end

text \<open>The store of the program is one.\<close>

interpretation local_artifacts: artifact_store
    "blobAt cwd rootDir"
    "\<lambda>io. put asString sha cwd rootDir io (js ''.tmp-'' @ suffix)"
    "deleteBlob asString cwd rootDir" for asString sha cwd rootDir suffix
  by (rule artifact_store.intro) (rule local_storage.blob_store_axioms)

text \<open>
  C11: when every artifact row has its blob, an upload keeps it so (a returned row exists, has the
  content's digest and its blob), unless it fails after its write and a row of the same release
  holds the same bytes under another path: both share one storage key, and the compensation of
  the failed upload removes the blob of the other.
\<close>

theorem upload_keeps_rows_backed:
  assumes "worldOk (blobAt cwd rootDir) (ue_sha256 env) w"
    and "calm (blobAt cwd rootDir) (ue_sha256 env) (uploadKey env release staged) others"
    and "noCollision (blobAt cwd rootDir) (ue_sha256 env) (snd w) staged"
    and "finalizeArtifactUpload env (put asString sha cwd rootDir io (js ''.tmp-'' @ suffix)) (deleteBlob asString cwd rootDir u)
       others dbUp newId now release staged metadata m w = (res, w')"
  shows "(\<forall>a \<in> set (rd_artifacts (fst w')). rowOk (blobAt cwd rootDir) (ue_sha256 env) (snd w') a
      \<or> (isl res \<and> ra_storageKey a = uploadKey env release staged))
    \<and> (\<forall>a c. res = Inr (a, c) \<longrightarrow> a \<in> set (rd_artifacts (fst w')) \<and> ra_contentHash a = toHex (ue_sha256 env staged))"
  by (rule local_artifacts.finalize_backing [OF assms])

subsection \<open>A lost blob\<close>

definition demoUuid :: jstr where
  "demoUuid = replicate 8 97 @ [45] @ replicate 4 97 @ [45] @ replicate 4 97 @ [45] @ replicate 4 97 @ [45] @ replicate 12 97"

definition demoUpload :: uploadEnv where
  "demoUpload = \<lparr>ue_cwd = [], ue_sha256 = (\<lambda>_. replicate 32 0), ue_asString = (\<lambda>_. []), ue_parseJSON = (\<lambda>_. None)\<rparr>"

definition demoRelease :: ArtifactReleaseRef where
  "demoRelease = \<lparr>ar_id = demoUuid, ar_projectId = demoUuid\<rparr>"

definition demoArtifact :: ReleaseArtifactRow where
  "demoArtifact = \<lparr>ra_id = [49], ra_releaseId = demoUuid, ra_artifactPath = js ''a.js'', ra_storageKey = uploadKey demoUpload demoRelease [],
     ra_contentHash = toHex (replicate 32 0), ra_sizeBytes = 0, ra_artifactType = minified_asset, ra_createdAt = 0\<rparr>"

definition demoWorld :: "files world" where
  "demoWorld = (\<lparr>rd_projects = [demoUuid],
      rd_releases = [\<lparr>rl_id = demoUuid, rl_projectId = demoUuid, rl_version = [49], rl_commitSha = None, rl_repositoryUrl = None, rl_createdAt = 0\<rparr>],
      rd_artifacts = [demoArtifact], rd_deletions = []\<rparr>,
     [resolveSegs [] [js ''/r''] @ split_on 47 (uploadKey demoUpload demoRelease []) \<mapsto> []])"

lemma demoUuid: "UUID_PATTERN demoUuid"
  by (simp add: demoUuid_def UUID_PATTERN_def eval_nat_numeral isHex_def)

lemma toHex_zeros: "toHex (replicate n 0) = replicate (n + n) 48"
  by (induction n) (simp_all add: hexChar_def)

lemma demoHash: "CONTENT_HASH_PATTERN (toHex (replicate 32 0))"
  by (simp add: CONTENT_HASH_PATTERN_def toHex_zeros isLowerHex_def isDigit_def)

lemma demoKey: "uploadKey demoUpload demoRelease bs = demoUuid @ [47] @ demoUuid @ [47] @ toHex (replicate 32 0)"
  by (simp add: uploadKey_def demoUpload_def demoRelease_def)

lemma demoKey_valid: "validKey (uploadKey demoUpload demoRelease bs)"
  unfolding demoKey by (rule validKey_built [OF demoUuid demoUuid demoHash])

lemma demoKey_built: "buildArtifactStorageKey asString (JStr demoUuid) (JStr demoUuid) (JStr (toHex (replicate 32 0)))
    = Inr (uploadKey demoUpload demoRelease bs)"
  by (simp add: buildArtifactStorageKey_def demoUuid demoHash demoKey)

definition demoMeta :: FinalizeUploadMetadata where
  "demoMeta = \<lparr>fm_artifactPath = Some (JStr (js ''b.js'')), fm_artifactType = Some (JStr (js ''minified_asset'')), fm_mimeType = None\<rparr>"

lemma demo_check: "checkUpload demoUpload [] demoMeta 10 = Inr (js ''b.js'', minified_asset)"
proof -
  have "canonicalizePlain (JStr (js ''b.js'')) = Inr (js ''b.js'')" by (simp add: path_eval)
  then have p: "canonicalizeUploadPath demoUpload (Some (JStr (js ''b.js''))) = Inr (js ''b.js'')"
    by (simp add: canonicalizeUploadPath_def canonicalizeArtifactPath_def)
  have "expectedType (js ''b.js'') = Inr minified_asset"
    by (simp add: expectedType_def validateArtifactExtension_def extensionOfArtifactPath_def artifactTypeForExtension_def
        lastIndexOf_def toLower_def lowerUnit_def isUpper_def js_eval)
  then have t: "validateUploadType (Some (JStr (js ''minified_asset''))) (js ''b.js'') = Inr minified_asset"
    by (simp add: validateUploadType_def validateArtifactType_def js_eval)
  have m: "validateUploadMime None = Inr ()"
    by (simp add: validateUploadMime_def validateArtifactMimeType_def normalizeMimeType_def)
  have c: "validateUploadContent demoUpload [] (js ''b.js'') = Inr ()"
    by (simp add: validateUploadContent_def endsWith_def toLower_def lowerUnit_def isUpper_def js_eval
        assertSafeAssetContent_def detectProhibitedContent_def asciiHead_def opensWith_def trimStart_def)
  show ?thesis by (simp add: checkUpload_def demoMeta_def p t m c)
qed

lemma demo_world_ok:
  "worldOk (blobAt [] (js ''/r'')) (ue_sha256 demoUpload) demoWorld"
  "noCollision (blobAt [] (js ''/r'')) (ue_sha256 demoUpload) (snd demoWorld) []"
proof -
  have "keyedRow demoArtifact"
    unfolding keyedRow_def demoArtifact_def ReleaseArtifactRow.simps demoKey using demoUuid demoHash by blast
  then show "worldOk (blobAt [] (js ''/r'')) (ue_sha256 demoUpload) demoWorld"
    by (simp add: worldOk_def rowOk_def backed_def demoWorld_def blobAt_def demoArtifact_def) (simp add: demoUpload_def)
  show "noCollision (blobAt [] (js ''/r'')) (ue_sha256 demoUpload) (snd demoWorld) []"
    by (auto simp: noCollision_def demoWorld_def blobAt_def split: if_splits)
qed

theorem upload_keeps_rows_backed_witness:
  "\<exists>res w'. finalizeArtifactUpload demoUpload (put (\<lambda>_. []) (\<lambda>_. []) [] (js ''/r'') demoIo (js ''.tmp-'' @ [49]))
        (deleteBlob (\<lambda>_. []) [] (js ''/r'') True) (\<lambda>w. w) False [50] 1 demoRelease [] demoMeta 10 demoWorld = (res, w')
     \<and> rowOk (blobAt [] (js ''/r'')) (ue_sha256 demoUpload) (snd demoWorld) demoArtifact
     \<and> demoArtifact \<in> set (rd_artifacts (fst w')) \<and> \<not> backed (blobAt [] (js ''/r'')) (ue_sha256 demoUpload) (snd w') demoArtifact
     \<and> isl res"
proof -
  let ?put = "put (\<lambda>_. []) (\<lambda>_. []) [] (js ''/r'') demoIo (js ''.tmp-'' @ [49])"
  let ?del = "deleteBlob (\<lambda>_. []) [] (js ''/r'') True"
  let ?key = "uploadKey demoUpload demoRelease []"
  have "\<exists>r s1. ?put ?key ([[]], True) (snd demoWorld) = (Inr r, s1)"
    by (simp add: put_def validateStorageKey_fst [OF demoKey_valid] resolveStoragePath_valid [OF demoKey_valid] Let_def
        demoIo_def renameWithRetry.simps renameDelays_def)
  then obtain r s1 where p: "?put ?key ([[]], True) (snd demoWorld) = (Inr r, s1)" by blast
  have "\<exists>b s2. ?del ?key s1 = (Inr b, s2)"
    by (simp add: deleteBlob_def validateStorageKey_fst [OF demoKey_valid] resolveStoragePath_valid [OF demoKey_valid])
       (metis (full_types))
  then obtain b s2 where d: "?del ?key s1 = (Inr b, s2)" by blast
  have find: "findArtifactByReleaseAndPath (fst demoWorld) (ar_id demoRelease) (js ''b.js'') = None"
    by (simp add: findArtifactByReleaseAndPath_def demoWorld_def demoArtifact_def js_eval)
  have built: "buildArtifactStorageKey (ue_asString demoUpload) (JStr (ar_projectId demoRelease)) (JStr (ar_id demoRelease))
      (JStr (toHex (ue_sha256 demoUpload []))) = Inr ?key"
    using demoKey_built [of "ue_asString demoUpload" "[]"] by (simp add: demoRelease_def demoUpload_def)
  have f: "finalizeArtifactUpload demoUpload ?put ?del (\<lambda>w. w) False [50] 1 demoRelease [] demoMeta 10 demoWorld
      = (Inl (PlainError (js ''insert failed'')), (fst demoWorld, s2))"
    unfolding finalizeArtifactUpload_def demo_check sum.case prod.case Let_def find option.case built p putToStorage_def
    by (auto simp: recordUpload_def insertReleaseArtifact_def d split: sum.split)
  have calm: "calm (blobAt [] (js ''/r'')) (ue_sha256 demoUpload) (uploadKey demoUpload demoRelease []) (\<lambda>w. w)"
    by (simp add: calm_def)
  from upload_keeps_rows_backed [OF demo_world_ok(1) calm demo_world_ok(2) f]
  have row: "demoArtifact \<in> set (rd_artifacts (fst (fst demoWorld, s2)))" by (simp add: demoWorld_def)
  have "blobAt [] (js ''/r'') s2 ?key = None" using local_storage.remove_ok [OF demoKey_valid d] by simp
  then have "\<not> backed (blobAt [] (js ''/r'')) (ue_sha256 demoUpload) s2 demoArtifact"
    by (simp add: backed_def demoArtifact_def)
  moreover have "rowOk (blobAt [] (js ''/r'')) (ue_sha256 demoUpload) (snd demoWorld) demoArtifact"
    using demo_world_ok(1) by (simp add: worldOk_def demoWorld_def)
  ultimately show ?thesis using f row by auto
qed

end
