(* ===== verification/RegexWords.thy ===== *)
theory RegexWords
  imports Regex
begin

text \<open>
  Replacing in a text made of words. A pattern that can match neither a separator nor look past
  it (\<open>confined\<close>) treats the pieces around the separator independently; a class pattern between
  word boundaries replaces a whole word or leaves it.
\<close>

subsection \<open>Patterns confined a set of units\<close>

primrec confined :: "re \<Rightarrow> nat set \<Rightarrow> bool" where
  "confined Emp W = True"
| "confined (Chs P) W = (\<forall>c. P c \<longrightarrow> c \<in> W)"
| "confined (Sq r q) W = (confined r W \<and> confined q W)"
| "confined (Al r q) W = (confined r W \<and> confined q W)"
| "confined (Star r) W = confined r W"
| "confined (LazyStar r) W = False"
| "confined WordB W = True"
| "confined InputEnd W = False"
| "confined (NotAfter P) W = False"
| "confined (Ahead r) W = False"
| "confined (Grp n r) W = False"

lemma confined_simps [simp]:
  "confined (Plus r) W \<longleftrightarrow> confined r W"
  "confined (Opt r) W \<longleftrightarrow> confined r W"
  "confined (anyOf cs) W \<longleftrightarrow> set cs \<subseteq> W"
  by (auto simp: Plus_def Opt_def anyOf_def)

lemma confined_Rep: "confined r W \<Longrightarrow> confined (Rep n r) W"
  by (induction n) auto

lemma confined_AtLeast: "confined r W \<Longrightarrow> confined (AtLeast n r) W"
  by (simp add: AtLeast_def confined_Rep)

lemma confined_Lit: "set l \<subseteq> W \<Longrightarrow> confined (Lit l) W"
  by (induction l) auto

lemma confined_seqs: "(\<And>r. r \<in> set rs \<Longrightarrow> confined r W) \<Longrightarrow> confined (seqs rs) W"
  by (induction rs) auto

text \<open>The text behind the separator, appended to what is ahead and to what is passed.\<close>

definition ahead :: "jstr \<Rightarrow> mst \<Rightarrow> mst" where "ahead t st = (fst st, fst (snd st) @ t, snd (snd st))"
definition behind :: "jstr \<Rightarrow> mst \<Rightarrow> mst" where "behind q st = (fst st @ q, snd st)"

lemma ahead_simps [simp]:
  "fst (ahead t st) = fst st" "fst (snd (ahead t st)) = fst (snd st) @ t"
  "ahead t (p, s, c) = (p, s @ t, c)"
  by (simp_all add: ahead_def)

lemma behind_simps [simp]:
  "snd (behind q st) = snd st" "fst (behind q st) = fst st @ q" "behind q (p, sc) = (p @ q, sc)"
  by (simp_all add: behind_def)

lemma starGreedy_ahead:
  assumes "\<And>st. f (ahead t st) = map (ahead t) (f st)"
  shows "length (fst (snd st)) \<le> n \<Longrightarrow> length (fst (snd st)) \<le> m
    \<Longrightarrow> starGreedy f n (ahead t st) = map (ahead t) (starGreedy f m st)"
proof (induction n arbitrary: m st)
  case 0
  then show ?case by (cases m) (simp_all add: assms)
next
  case (Suc n)
  show ?case
  proof (cases m)
    case 0
    with Suc.prems show ?thesis by (simp add: assms)
  next
    case (Suc m')
    have "starGreedy f n (ahead t u) = map (ahead t) (starGreedy f m' u)"
      if "length (fst (snd u)) < length (fst (snd st))" for u
      using that Suc.IH [of u m'] Suc.prems Suc by simp
    then show ?thesis
      by (auto simp: Suc assms map_concat intro!: arg_cong [of _ _ concat])
  qed
qed

lemma starGreedy_behind:
  assumes "\<And>st. f (behind q st) = map (behind q) (f st)"
  shows "starGreedy f n (behind q st) = map (behind q) (starGreedy f n st)"
  by (induction n arbitrary: st) (auto simp: assms map_concat intro!: arg_cong [of _ _ concat])

definition separates :: "nat \<Rightarrow> re \<Rightarrow> bool" where
  "separates x r \<longleftrightarrow> \<not> isWordChar x \<and> confined r (- {x})"

lemma startsWord_append: "\<not> isWordChar x \<Longrightarrow> startsWord (s @ x # t) = startsWord s"
  by (cases s) (simp_all add: startsWord_def)

lemma matches_ahead:
  assumes "\<not> isWordChar x"
  shows "confined r (- {x}) \<Longrightarrow> matches r (ahead (x # t) st) = map (ahead (x # t)) (matches r st)"
proof (induction r arbitrary: st)
  case (Chs P)
  obtain p s c where st: "st = (p, s, c)" by (cases st)
  show ?case using Chs by (cases s) (auto simp: st)
next
  case (Sq r q)
  then show ?case by (auto simp: map_concat intro!: arg_cong [of _ _ concat])
next
  case (Star r)
  then have "\<And>u. matches r (ahead (x # t) u) = map (ahead (x # t)) (matches r u)" by simp
  from starGreedy_ahead [of "matches r" "x # t", OF this, of st "length (fst (snd (ahead (x # t) st)))" "length (fst (snd st))"]
  show ?case by simp
qed (simp_all add: startsWord_append [OF assms])

lemma matches_behind:
  assumes "\<not> isWordChar x"
  shows "confined r W \<Longrightarrow> matches r (behind (x # q) st) = map (behind (x # q)) (matches r st)"
proof (induction r arbitrary: st)
  case (Chs P)
  obtain p s c where st: "st = (p, s, c)" by (cases st)
  show ?case by (cases s) (auto simp: st)
next
  case (Sq r q)
  then show ?case by (auto simp: map_concat intro!: arg_cong [of _ _ concat])
next
  case (Star r)
  then have "\<And>u. matches r (behind (x # q) u) = map (behind (x # q)) (matches r u)" by simp
  from starGreedy_behind [of "matches r" "x # q", OF this] show ?case by simp
qed (simp_all add: startsWord_append [OF assms])

lemma matchAt_ahead:
  "separates x r \<Longrightarrow> matchAt r p (s @ x # t) = map_option (ahead (x # t)) (matchAt r p s)"
  using matches_ahead [of x r t "(p, s, [])"]
  by (auto simp: matchAt_def separates_def split: list.splits)

lemma matchAt_behind:
  "separates x r \<Longrightarrow> matchAt r (p @ x # q) s = map_option (behind (x # q)) (matchAt r p s)"
  using matches_behind [of x r "- {x}" q "(p, s, [])"]
  by (auto simp: matchAt_def separates_def split: list.splits)

lemma replaceFrom_behind:
  assumes "separates x r"
  shows "replaceFrom r f (p @ x # q) s = replaceFrom r f p s"
proof (induction "length s" arbitrary: p s rule: less_induct)
  case less
  have tl: "replaceFrom r f (y # p @ x # q) s' = replaceFrom r f (y # p) s'" if "s = y # s'" for y s'
    using less [of s' "y # p"] that by simp
  show ?case
  proof (cases "matchAt r p s")
    case None
    then show ?thesis
      by (simp add: replaceFrom.simps [of r f _ s] matchAt_behind [OF assms] tl split: list.split)
  next
    case (Some st)
    obtain p' s' c where st: "st = (p', s', c)" by (cases st)
    have "length s' < length s \<Longrightarrow> replaceFrom r f (p' @ x # q) s' = replaceFrom r f p' s'"
      using less by simp
    then show ?thesis
      by (simp add: replaceFrom.simps [of r f _ s] matchAt_behind [OF assms] Some st tl split: list.split)
  qed
qed

lemma replaceFrom_ahead:
  assumes "separates x r"
  shows "replaceFrom r f p (s @ x # t) = replaceFrom r f p s @ x # replaceAll r f t"
proof (induction "length s" arbitrary: p s rule: less_induct)
  case less
  have rest: "replaceFrom r f (x # q) t = replaceAll r f t" for q
    using replaceFrom_behind [OF assms, of f "[]" q t] by (simp add: replaceAll_def)
  have tl: "replaceFrom r f (y # p) (s' @ x # t) = replaceFrom r f (y # p) s' @ x # replaceAll r f t"
    if "s = y # s'" for y s'
    using less [of s' "y # p"] that by simp
  show ?case
  proof (cases "matchAt r p s")
    case None
    then have "matchAt r p (s @ x # t) = None" by (simp add: matchAt_ahead [OF assms])
    with None show ?thesis
      by (subst (1 2) replaceFrom.simps, cases s) (simp_all add: rest tl)
  next
    case (Some st)
    obtain p' s' c where st: "st = (p', s', c)" by (cases st)
    obtain w where w: "s = w @ s'" using matchAt_passes [OF Some [unfolded st]] by blast
    have IH: "length s' < length s \<Longrightarrow> replaceFrom r f p' (s' @ x # t) = replaceFrom r f p' s' @ x # replaceAll r f t"
      using less by simp
    show ?thesis
    proof (cases s)
      case Nil
      with Some st w show ?thesis
        by (subst (1 2) replaceFrom.simps)
           (simp add: matchAt_ahead [OF assms, of p "[]", simplified] rest)
    next
      case (Cons y ys)
      have "matchAt r p (s @ x # t) = Some (p', s' @ x # t, c)"
        by (simp add: matchAt_ahead [OF assms] Some st)
      then show ?thesis
        by (subst (1 2) replaceFrom.simps) (use Some st w IH tl Cons in auto)
    qed
  qed
qed

lemma replaceAll_separated:
  "separates x r \<Longrightarrow> replaceAll r f (s @ x # t) = replaceAll r f s @ x # replaceAll r f t"
  by (simp add: replaceFrom_ahead replaceAll_def [of r f "s @ x # t"] replaceAll_def [of r f s])

lemma replaceAll_join:
  "separates x r \<Longrightarrow> ws \<noteq> [] \<Longrightarrow> replaceAll r f (join [x] ws) = join [x] (map (replaceAll r f) ws)"
  by (induction "[x]" ws rule: join.induct) (simp_all add: replaceAll_separated)

subsection \<open>The length of a match\<close>

primrec minLen :: "re \<Rightarrow> nat" where
  "minLen Emp = 0"
| "minLen (Chs P) = 1"
| "minLen (Sq r q) = minLen r + minLen q"
| "minLen (Al r q) = min (minLen r) (minLen q)"
| "minLen (Star r) = 0"
| "minLen (LazyStar r) = 0"
| "minLen WordB = 0"
| "minLen InputEnd = 0"
| "minLen (NotAfter P) = 0"
| "minLen (Ahead r) = 0"
| "minLen (Grp n r) = minLen r"

lemma minLen_Rep [simp]: "minLen (Rep n r) = n * minLen r"
  by (induction n) auto

lemma minLen_match: "st' \<in> set (matches r st) \<Longrightarrow> length (fst (snd st')) + minLen r \<le> length (fst (snd st))"
proof (induction r arbitrary: st st')
  case (Chs P)
  then show ?case by (auto split: list.splits prod.splits if_splits)
next
  case (Sq r q)
  then obtain u where "u \<in> set (matches r st)" "st' \<in> set (matches q u)" by auto
  with Sq.IH(1) [of u st] Sq.IH(2) [of st' u] show ?case by simp
next
  case (Al r q)
  then have "st' \<in> set (matches r st) \<or> st' \<in> set (matches q st)" by simp
  with Al.IH [of st' st] show ?case by (auto simp: min_def)
next
  case (Star r)
  with matches_passes [of st' "Star r" st] show ?case by (auto simp: passes_def)
next
  case (LazyStar r)
  with matches_passes [of st' "LazyStar r" st] show ?case by (auto simp: passes_def)
next
  case (NotAfter P)
  then show ?case by (auto split: list.splits if_splits)
next
  case (Ahead r)
  then show ?case by (auto split: list.splits)
next
  case (Grp n r)
  then obtain p' s' c' where "(p', s', c') \<in> set (matches r st)" "fst (snd st') = s'" by auto
  with Grp.IH [of "(p', s', c')" st] show ?case by simp
qed (auto split: if_splits)

lemma short_no_match: "length s < minLen r \<Longrightarrow> \<not> searchFrom r p s"
proof (induction s arbitrary: p)
  case Nil
  then have "matches r (p, [], []) = []"
    using minLen_match [of _ r "(p, [], [])"] by (cases "matches r (p, [], [])") auto
  then show ?case by (simp add: matchAt_def)
next
  case (Cons x s)
  then have "matches r (p, x # s, []) = []"
    using minLen_match [of _ r "(p, x # s, [])"] by (cases "matches r (p, x # s, [])") auto
  with Cons show ?case by (simp add: matchAt_def)
qed

lemma short_replaceAll: "length s < minLen r \<Longrightarrow> replaceAll r f s = s"
  by (simp add: replaceAll_no_match test_def short_no_match)

subsection \<open>Runs of one class\<close>

lemma matches_Rep_Chs:
  "matches (Rep n (Chs P)) (p, s, c) =
     (if n \<le> length s \<and> list_all P (take n s) then [(rev (take n s) @ p, drop n s, c)] else [])"
proof (induction n arbitrary: p s)
  case (Suc n)
  then show ?case by (cases s) auto
qed simp

lemma starGreedy_class:
  assumes f: "\<And>p c. f (p, [], c) = []" "\<And>p x s c. f (p, x # s, c) = (if P x then [(x # p, s, c)] else [])"
  shows "length s \<le> n \<Longrightarrow> starGreedy f n (p, s, c) =
     map (\<lambda>k. (rev (take k s) @ p, drop k s, c)) (rev [0..<Suc (length (takeWhile P s))])"
proof (induction n arbitrary: p s)
  case (Suc n)
  show ?case
  proof (cases s)
    case (Cons x t)
    with Suc.prems have IH: "starGreedy f n (x # p, t, c) =
        map (\<lambda>k. (rev (take k t) @ x # p, drop k t, c)) (rev [0..<Suc (length (takeWhile P t))])"
      using Suc.IH [of t "x # p"] by simp
    have up: "rev [0..<Suc (Suc m)] = map Suc (rev [0..<Suc m]) @ [0]" for m
      by (metis map_Suc_upt rev.simps(2) rev_map upt_conv_Cons zero_less_Suc)
    have one: "[0..<Suc 0] = [0]" by simp
    show ?thesis
      by (cases "P x") (use Cons IH one in \<open>simp_all add: f up comp_def del: upt_Suc\<close>)
  qed (simp add: f)
qed simp

lemma matches_Star_Chs:
  "matches (Star (Chs P)) (p, s, c) =
     map (\<lambda>k. (rev (take k s) @ p, drop k s, c)) (rev [0..<Suc (length (takeWhile P s))])"
  using starGreedy_class [of "matches (Chs P)" P s "length s" p c] by (simp del: upt_Suc)

text \<open>The shape \<open>\b[P]{n,}\b\<close>.\<close>

definition wordPattern :: "nat \<Rightarrow> (nat \<Rightarrow> bool) \<Rightarrow> re" where
  "wordPattern n P = Sq WordB (Sq (AtLeast n (Chs P)) WordB)"

lemma separates_wordPattern: "\<not> isWordChar x \<Longrightarrow> \<not> P x \<Longrightarrow> separates x (wordPattern n P)"
  by (auto simp: separates_def wordPattern_def intro!: confined_AtLeast)

lemma minLen_wordPattern [simp]: "minLen (wordPattern n P) = n"
  by (simp add: wordPattern_def AtLeast_def)

lemma startsWord_rev_take: "list_all isWordChar w \<Longrightarrow> 0 < k \<Longrightarrow> w \<noteq> [] \<Longrightarrow> startsWord (rev (take k w))"
proof (induction w rule: rev_induct)
  case (snoc x w)
  then show ?case by (cases "k \<le> length w"; cases "w = []") (auto simp: startsWord_def)
qed simp

lemma startsWord_word: "list_all isWordChar s \<Longrightarrow> startsWord s \<longleftrightarrow> s \<noteq> []"
  by (cases s) (simp_all add: startsWord_def)

lemma wordPattern_inside:
  "startsWord p \<Longrightarrow> list_all isWordChar s \<Longrightarrow> 0 < n \<Longrightarrow> \<not> searchFrom (wordPattern n P) p s"
proof (induction s arbitrary: p)
  case Nil
  then show ?case by (intro short_no_match) simp
next
  case (Cons x s)
  then have "matchAt (wordPattern n P) p (x # s) = None"
    by (simp add: matchAt_def wordPattern_def startsWord_def [of "x # s"])
  with Cons show ?case by (simp add: startsWord_def)
qed

lemma list_all_takeWhile: "length (takeWhile P s) = length s \<longleftrightarrow> list_all P s"
  by (induction s) auto

lemma wordPattern_whole:
  assumes w: "list_all isWordChar w" "w \<noteq> []" and n: "0 < n"
  shows "matches (wordPattern n P) ([], w, c) =
    (if n \<le> length w \<and> list_all P w then [(rev w, [], c)] else [])"
proof (cases "n \<le> length w \<and> list_all P (take n w)")
  case True
  let ?m = "length (takeWhile P (drop n w))"
  have all: "list_all P w \<longleftrightarrow> ?m = length w - n"
    using True list_all_takeWhile [of P "drop n w"]
    by (metis append_take_drop_id length_drop list_all_append)
  have m: "?m \<le> length w - n"
    by (metis length_drop length_takeWhile_le)
  have ends: "startsWord (rev (take k (drop n w)) @ rev (take n w))" for k
  proof -
    have "rev (take k (drop n w)) @ rev (take n w) = rev (take (n + k) w)" by (simp add: take_add)
    with startsWord_rev_take [OF w(1), of "n + k"] w(2) n show ?thesis by simp
  qed
  have wd: "startsWord (drop (k + n) w) \<longleftrightarrow> k + n < length w" for k
  proof -
    have "list_all isWordChar (drop (k + n) w)" using w(1) by (auto simp: list_all_iff dest: in_set_dropD)
    then show ?thesis by (simp add: startsWord_word not_le)
  qed
  have sel: "concat (map (\<lambda>k. if \<not> k + n < length w then [g k] else []) (rev [0..<Suc ?m]))
      = (if ?m = length w - n then [g ?m] else [])" for g :: "nat \<Rightarrow> mst"
  proof -
    have z: "concat (map (\<lambda>k. if \<not> k + n < length w then [g k] else []) (rev [0..<?m])) = []"
      using m by (auto simp: concat_eq_Nil_conv)
    show ?thesis using m True z by auto
  qed
  have "matches (wordPattern n P) ([], w, c) =
      concat (map (\<lambda>k. if \<not> k + n < length w then [(rev (take k (drop n w)) @ rev (take n w), drop (k + n) w, c)] else [])
        (rev [0..<Suc ?m]))"
    using True w startsWord_word [OF w(1)]
    by (auto simp: wordPattern_def AtLeast_def matches_Rep_Chs matches_Star_Chs startsWord_def [of "[]"] ends wd
        comp_def simp del: upt_Suc matches.simps(5) intro!: arg_cong [of _ _ concat])
  also have "\<dots> = (if ?m = length w - n then [(rev (take ?m (drop n w)) @ rev (take n w), drop (?m + n) w, c)] else [])"
    by (rule sel)
  also have "\<dots> = (if n \<le> length w \<and> list_all P w then [(rev w, [], c)] else [])"
    using True all by (auto simp flip: rev_append)
  finally show ?thesis .
next
  case False
  then have "\<not> (n \<le> length w \<and> list_all P w)"
    by (auto simp: list_all_iff dest: in_set_takeD)
  with False show ?thesis by (auto simp: wordPattern_def AtLeast_def matches_Rep_Chs)
qed

lemma replaceAll_wordPattern:
  assumes "list_all isWordChar w" "0 < n"
  shows "replaceAll (wordPattern n P) f w = (if n \<le> length w \<and> list_all P w then f w [] else w)"
proof (cases w)
  case Nil
  with assms show ?thesis by (simp add: short_replaceAll)
next
  case (Cons x s)
  have m: "matchAt (wordPattern n P) [] w = (if n \<le> length w \<and> list_all P w then Some (rev w, [], []) else None)"
    using wordPattern_whole [OF assms(1) _ assms(2), of P "[]"] Cons by (simp add: matchAt_def)
  have end_: "replaceFrom (wordPattern n P) f p [] = []" for p
    using assms(2) by (intro replaceFrom_no_match short_no_match) simp
  have tail: "replaceFrom (wordPattern n P) f [x] s = s"
    using assms Cons by (intro replaceFrom_no_match wordPattern_inside) (simp_all add: startsWord_def)
  show ?thesis
    unfolding replaceAll_def
    by (subst replaceFrom.simps) (use m Cons in \<open>simp add: end_ tail\<close>)
qed

end
