(* ===== verification/Normalize.thy ===== *)
theory Normalize
  imports RegexWords Text
begin

text \<open>
  The normalizer of the grouping pipeline (\<open>packages/db/src/domain/normalize.ts\<close>): unstable values
  in messages, paths and stack frames become placeholders. The patterns that other passes build
  on are those of the source; an anchored pattern over one character class is written as a
  predicate. The lemmas say what the whole chain of replacements does to a text made of words.
\<close>

subsection \<open>Placeholders and patterns\<close>

definition ph_id :: jstr where "ph_id = js '':id''"
definition ph_timestamp :: jstr where "ph_timestamp = js '':timestamp''"
definition ph_hex :: jstr where "ph_hex = js '':hex''"
definition ph_address :: jstr where "ph_address = js '':addr''"
definition ph_token :: jstr where "ph_token = js '':token''"
definition ph_hash :: jstr where "ph_hash = js '':hash''"

definition isHexDigit :: "nat \<Rightarrow> bool" where
  "isHexDigit c \<longleftrightarrow> isDigit c \<or> (97 \<le> c \<and> c \<le> 102) \<or> (65 \<le> c \<and> c \<le> 70)"

definition isTokenChar :: "nat \<Rightarrow> bool" where
  "isTokenChar c \<longleftrightarrow> isAlnum c \<or> c = 95 \<or> c = 45"

definition UUID_TEXT_PATTERN :: re where
  "UUID_TEXT_PATTERN = seqs [Rep 8 (Chs isHexDigit), Lit [45], Rep 4 (Chs isHexDigit), Lit [45],
     Rep 4 (Chs isHexDigit), Lit [45], Rep 4 (Chs isHexDigit), Lit [45], Rep 12 (Chs isHexDigit)]"

definition ISO_TIMESTAMP_PATTERN :: re where
  "ISO_TIMESTAMP_PATTERN = seqs [Rep 4 Digit, Lit [45], Rep 2 Digit, Lit [45], Rep 2 Digit,
     anyOf [84, 32], Rep 2 Digit, Lit [58], Rep 2 Digit,
     Opt (Sq (Lit [58]) (Rep 2 Digit)),
     Opt (Sq (Lit [46]) (Between 1 6 Digit)),
     Opt (Al (Lit [90]) (seqs [anyOf [43, 45], Rep 2 Digit, Opt (Lit [58]), Rep 2 Digit]))]"

definition MEMORY_ADDRESS_PATTERN :: re where
  "MEMORY_ADDRESS_PATTERN = Sq (Lit [48, 120]) (AtLeast 6 (Chs isHexDigit))"

definition LONG_INTEGER_PATTERN :: re where "LONG_INTEGER_PATTERN = wordPattern 5 isDigit"
definition LONG_HEX_PATTERN :: re where "LONG_HEX_PATTERN = wordPattern 8 isHexDigit"
definition OPAQUE_TOKEN_PATTERN :: re where "OPAQUE_TOKEN_PATTERN = wordPattern 20 isTokenChar"

definition UUID_EXACT :: "jstr \<Rightarrow> bool" where
  "UUID_EXACT s = test (Sq (NotAfter (\<lambda>_. True)) (Sq UUID_TEXT_PATTERN InputEnd)) s"

text \<open>\<open>/^[P]{n,}$/\<close>\<close>

definition allOf :: "(nat \<Rightarrow> bool) \<Rightarrow> nat \<Rightarrow> jstr \<Rightarrow> bool" where
  "allOf P n s \<longleftrightarrow> n \<le> length s \<and> list_all P s"

definition NUMERIC_SEGMENT :: "jstr \<Rightarrow> bool" where "NUMERIC_SEGMENT s = allOf isDigit 5 s"
definition HEX_SEGMENT :: "jstr \<Rightarrow> bool" where "HEX_SEGMENT s = allOf isHexDigit 8 s"
definition OPAQUE_SEGMENT :: "jstr \<Rightarrow> bool" where "OPAQUE_SEGMENT s = allOf isTokenChar 20 s"

definition fileExtension :: re where
  "fileExtension = Sq (Lit [46]) (Sq (Between 1 8 (Chs isAlnum)) InputEnd)"

definition EMBEDDED_HASH_PATTERN :: re where
  "EMBEDDED_HASH_PATTERN =
     Sq (Grp 1 (anyOf [46, 95, 45])) (Sq (Grp 2 (AtLeast 6 (Chs isAlnum))) (Ahead fileExtension))"

definition containsAsciiDigit :: "jstr \<Rightarrow> bool" where "containsAsciiDigit s = list_ex isDigit s"
definition containsAsciiLetter :: "jstr \<Rightarrow> bool" where "containsAsciiLetter s = list_ex isLetter s"

subsection \<open>URL-like tokens\<close>

definition isUrlDelimiter :: "nat \<Rightarrow> bool" where
  "isUrlDelimiter c \<longleftrightarrow> c \<in> {32, 9, 10, 11, 12, 13, 34, 39, 96, 60, 62, 40, 41, 91, 93, 123, 125, 92}"

definition isSchemeCharCode :: "nat \<Rightarrow> bool" where
  "isSchemeCharCode c \<longleftrightarrow> isLetter c \<or> isDigit c \<or> c = 43 \<or> c = 46 \<or> c = 45"

text \<open>
  The scan, from the character at \<open>i\<close> on. What the source copies later with one \<open>slice(cursor, i)\<close>
  is emitted at once.
\<close>

definition urlContentFollows :: "jstr \<Rightarrow> bool" where
  "urlContentFollows s = (case s of c # _ \<Rightarrow> \<not> isUrlDelimiter c | [] \<Rightarrow> False)"

function replaceUrlLikeTokens :: "(jstr \<Rightarrow> jstr) \<Rightarrow> jstr \<Rightarrow> jstr" where
  "replaceUrlLikeTokens rep [] = []"
| "replaceUrlLikeTokens rep (c # s) =
     (if c = 47 then
        if urlContentFollows s
        then rep (c # takeWhile (\<lambda>d. \<not> isUrlDelimiter d) s)
             @ replaceUrlLikeTokens rep (dropWhile (\<lambda>d. \<not> isUrlDelimiter d) s)
        else c # replaceUrlLikeTokens rep s
      else if isLetter c then
        let run = takeWhile isSchemeCharCode s; rest = dropWhile isSchemeCharCode s
        in if startsWith rest [58, 47, 47] \<and> urlContentFollows (drop 3 rest)
           then rep (c # run @ [58, 47, 47] @ takeWhile (\<lambda>d. \<not> isUrlDelimiter d) (drop 3 rest))
                @ replaceUrlLikeTokens rep (dropWhile (\<lambda>d. \<not> isUrlDelimiter d) (drop 3 rest))
           else c # run @ replaceUrlLikeTokens rep rest
      else c # replaceUrlLikeTokens rep s)"
  by pat_completeness auto
termination
proof (relation "measure (\<lambda>(rep, s). length s)")
  show "wf (measure (\<lambda>(rep, s). length s))" by simp
next
  fix rep :: "jstr \<Rightarrow> jstr" and c s run rest
  assume "rest = dropWhile isSchemeCharCode s"
  then have "length rest \<le> length s" by (simp add: length_dropWhile_le)
  then show "((rep, dropWhile (\<lambda>d. \<not> isUrlDelimiter d) (drop 3 rest)), rep, c # s)
      \<in> measure (\<lambda>(rep, s). length s)"
    using length_dropWhile_le [of "\<lambda>d. \<not> isUrlDelimiter d" "drop 3 rest"] by simp
qed (simp_all add: length_dropWhile_le)

subsection \<open>Text helpers\<close>

text \<open>
  The loop runs over code points; every code point it drops is a single code unit outside the
  surrogates, so it drops the same code units.
\<close>

definition stripControlCharacters :: "jstr \<Rightarrow> jstr" where
  "stripControlCharacters s = filter (\<lambda>c. 32 \<le> c \<and> (c < 127 \<or> 159 < c)) s"

definition capText :: "jstr \<Rightarrow> nat \<Rightarrow> jstr" where
  "capText s maxLength =
     (let cleaned = stripControlCharacters s
      in if length cleaned \<le> maxLength then cleaned
         else let cut = take maxLength cleaned
              in if cut \<noteq> [] \<and> isHighSurrogate (last cut) then butlast cut else cut)"

definition trailingPunctuation :: "nat \<Rightarrow> bool" where
  "trailingPunctuation c \<longleftrightarrow> c \<in> {46, 44, 59, 58, 33, 63, 41, 93, 125, 34, 39}"

text \<open>The core and the trailing run.\<close>

definition splitTrailingPunctuation :: "jstr \<Rightarrow> jstr \<times> jstr" where
  "splitTrailingPunctuation s =
     (rev (dropWhile trailingPunctuation (rev s)), rev (takeWhile trailingPunctuation (rev s)))"

definition stripQueryAndFragment :: "jstr \<Rightarrow> jstr" where
  "stripQueryAndFragment path = takeWhile (\<lambda>c. c \<noteq> 63 \<and> c \<noteq> 35) path"

subsection \<open>Paths, messages and frames\<close>

definition hashedName :: "jstr \<Rightarrow> (nat \<times> jstr) list \<Rightarrow> jstr" where
  "hashedName m caps =
     (if containsAsciiDigit (groupOf 2 caps) \<and> containsAsciiLetter (groupOf 2 caps)
      then groupOf 1 caps @ ph_hash else m)"

definition normalizePathSegment :: "jstr \<Rightarrow> jstr" where
  "normalizePathSegment segment =
     (if segment = [] \<or> segment = [46] \<or> segment = [46, 46] then segment
      else if UUID_EXACT segment then ph_id
      else if NUMERIC_SEGMENT segment then ph_id
      else if HEX_SEGMENT segment \<and> containsAsciiDigit segment then ph_hex
      else if OPAQUE_SEGMENT segment \<and> containsAsciiDigit segment \<and> containsAsciiLetter segment then ph_token
      else if test fileExtension segment then replaceAll EMBEDDED_HASH_PATTERN hashedName segment
      else segment)"

text \<open>\<open>/^[a-zA-Z][a-zA-Z0-9+.-]*:\/\//\<close>\<close>

definition hasScheme :: "jstr \<Rightarrow> bool" where
  "hasScheme path =
     (case path of [] \<Rightarrow> False
      | c # s \<Rightarrow> isLetter c \<and> startsWith (dropWhile isSchemeCharCode s) [58, 47, 47])"

text \<open>What follows the first \<open>://\<close>, and what starts at the first slash.\<close>

fun afterScheme :: "jstr \<Rightarrow> jstr" where
  "afterScheme [] = []"
| "afterScheme (c # s) = (if startsWith (c # s) [58, 47, 47] then drop 3 (c # s) else afterScheme s)"

definition fromSlash :: "jstr \<Rightarrow> jstr" where
  "fromSlash s = (let t = dropWhile (\<lambda>c. c \<noteq> 47) s in if t = [] then [47] else t)"

definition normalizePath :: "jstr \<Rightarrow> jstr" where
  "normalizePath rawPath =
     (let path = trim rawPath;
          located = (if hasScheme path then fromSlash (afterScheme path)
                     else if startsWith path [47, 47] then fromSlash (drop 2 path)
                     else path)
      in join [47] (map normalizePathSegment (split_on 47 (stripQueryAndFragment located))))"

definition normalizeFilename :: "jstr \<Rightarrow> jstr" where
  "normalizeFilename filename =
     (let trimmed = trim filename
      in if trimmed = [] then []
         else if startsWith trimmed (js ''chrome-extension://'')
                 \<or> startsWith trimmed (js ''moz-extension://'')
                 \<or> startsWith trimmed (js ''safari-extension://'') then js ''browser-extension''
         else normalizePath (fst (splitTrailingPunctuation trimmed)))"

definition urlToken :: "jstr \<Rightarrow> jstr" where
  "urlToken m = (case splitTrailingPunctuation m of (core, trailing) \<Rightarrow> normalizePath core @ trailing)"

definition hexOrSame :: "jstr \<Rightarrow> (nat \<times> jstr) list \<Rightarrow> jstr" where
  "hexOrSame m caps = (if containsAsciiDigit m then ph_hex else m)"

definition tokenOrSame :: "jstr \<Rightarrow> (nat \<times> jstr) list \<Rightarrow> jstr" where
  "tokenOrSame m caps = (if containsAsciiDigit m \<and> containsAsciiLetter m then ph_token else m)"

definition normalizeMessage :: "jstr \<Rightarrow> jstr" where
  "normalizeMessage message =
     (let o0 = trim (collapseWs message);
          o1 = replaceUrlLikeTokens urlToken o0;
          o2 = replaceAll UUID_TEXT_PATTERN (\<lambda>_ _. ph_id) o1;
          o3 = replaceAll ISO_TIMESTAMP_PATTERN (\<lambda>_ _. ph_timestamp) o2;
          o4 = replaceAll MEMORY_ADDRESS_PATTERN (\<lambda>_ _. ph_address) o3;
          o5 = replaceAll LONG_INTEGER_PATTERN (\<lambda>_ _. ph_id) o4;
          o6 = replaceAll LONG_HEX_PATTERN hexOrSame o5
      in replaceAll OPAQUE_TOKEN_PATTERN tokenOrSame o6)"

record NormalizableStackFrame =
  fr_filename :: "jstr option"
  fr_function :: "jstr option"
  fr_lineno :: "nat option"
  fr_colno :: "nat option"
  fr_in_app :: "bool option"

record CanonicalStackFrame =
  cf_function :: jstr
  cf_file :: jstr
  cf_line :: "nat option"

definition normalizeStackFrame :: "NormalizableStackFrame \<Rightarrow> CanonicalStackFrame option" where
  "normalizeStackFrame frame =
     (let file = (case fr_filename frame of None \<Rightarrow> [] | Some f \<Rightarrow> if f = [] then [] else normalizeFilename f);
          rawFunction = (case fr_function frame of None \<Rightarrow> [] | Some f \<Rightarrow> trim f)
      in if file = [] \<and> rawFunction = [] then None
         else Some \<lparr>cf_function = (if rawFunction = [] then js ''<anonymous>'' else capText rawFunction 120),
                    cf_file = file,
                    cf_line = (case fr_lineno frame of None \<Rightarrow> None | Some n \<Rightarrow> if 0 < n then Some n else None)\<rparr>)"

definition formatStackFrame :: "CanonicalStackFrame \<Rightarrow> jstr" where
  "formatStackFrame frame =
     cf_function frame @ [64] @
     (case cf_line frame of None \<Rightarrow> cf_file frame | Some n \<Rightarrow> cf_file frame @ [58] @ showNat n)"

text \<open>The loop of \<open>selectTopFrames\<close>: the limit is checked after every frame.\<close>

fun pickFrames :: "nat \<Rightarrow> CanonicalStackFrame list \<Rightarrow> NormalizableStackFrame list \<Rightarrow> CanonicalStackFrame list" where
  "pickFrames limit selected [] = selected"
| "pickFrames limit selected (f # fs) =
     (let selected' = (case normalizeStackFrame f of None \<Rightarrow> selected | Some c \<Rightarrow> selected @ [c])
      in if limit \<le> length selected' then selected' else pickFrames limit selected' fs)"

definition selectTopFrames :: "nat \<Rightarrow> NormalizableStackFrame list \<Rightarrow> CanonicalStackFrame list" where
  "selectTopFrames limit frames =
     (let inApplication = filter (\<lambda>f. fr_in_app f = Some True) frames
      in pickFrames limit [] (if inApplication \<noteq> [] then inApplication else frames))"

subsection \<open>Messages made of words\<close>

text \<open>
  What the chain of replacements is meant to do to one word: identifiers, addresses, long numbers,
  long hexadecimal words with a digit and long mixed tokens collapse, everything else stays.
\<close>

definition addressWord :: "jstr \<Rightarrow> bool" where
  "addressWord w \<longleftrightarrow> startsWith w [48, 120] \<and> allOf isHexDigit 6 (drop 2 w)"

definition stableWord :: "jstr \<Rightarrow> jstr" where
  "stableWord w =
     (if UUID_EXACT w then ph_id
      else if addressWord w then ph_address
      else if allOf isDigit 5 w then ph_id
      else if allOf isHexDigit 8 w \<and> containsAsciiDigit w then ph_hex
      else if 20 \<le> length w \<and> containsAsciiDigit w \<and> containsAsciiLetter w then ph_token
      else w)"

definition plainWord :: "jstr \<Rightarrow> bool" where
  "plainWord w \<longleftrightarrow> w \<noteq> []
     \<and> (UUID_EXACT w \<or> addressWord w \<or> (list_all isAlnum w \<and> \<not> includesStr w [48, 120]))"

lemmas ph_defs = ph_id_def ph_hex_def ph_token_def ph_address_def

lemma ph_eval:
  "ph_id = [58, 105, 100]" "ph_hex = [58, 104, 101, 120]" "ph_token = [58, 116, 111, 107, 101, 110]"
  "ph_address = [58, 97, 100, 100, 114]"
  by (simp_all add: ph_defs js_eval)

lemma class_bounds:
  "isDigit c \<Longrightarrow> isHexDigit c" "isHexDigit c \<Longrightarrow> isAlnum c" "isAlnum c \<Longrightarrow> isTokenChar c"
  "isAlnum c \<Longrightarrow> isWordChar c"
  by (auto simp: isHexDigit_def isTokenChar_def isWordChar_def char_class_defs)

text \<open>Every match of a UUID has 36 units.\<close>

primrec sizedRe :: "re \<Rightarrow> nat \<Rightarrow> bool" where
  "sizedRe Emp n = (n = 0)"
| "sizedRe (Chs P) n = (n = 1)"
| "sizedRe (Sq r q) n = (\<exists>k \<le> n. sizedRe r k \<and> sizedRe q (n - k))"
| "sizedRe (Al r q) n = (sizedRe r n \<and> sizedRe q n)"
| "sizedRe (Star r) n = False"
| "sizedRe (LazyStar r) n = False"
| "sizedRe WordB n = (n = 0)"
| "sizedRe InputEnd n = (n = 0)"
| "sizedRe (NotAfter P) n = (n = 0)"
| "sizedRe (Ahead r) n = (n = 0)"
| "sizedRe (Grp k r) n = sizedRe r n"

lemma sizedRe_match:
  "sizedRe r n \<Longrightarrow> st' \<in> set (matches r st) \<Longrightarrow> length (fst (snd st)) = length (fst (snd st')) + n"
proof (induction r arbitrary: n st st')
  case (Chs P)
  then show ?case by (auto split: list.splits prod.splits if_splits)
next
  case (Sq r q)
  then obtain k u where k: "k \<le> n" "sizedRe r k" "sizedRe q (n - k)"
    and u: "u \<in> set (matches r st)" "st' \<in> set (matches q u)" by auto
  from Sq.IH(1) [OF k(2) u(1)] Sq.IH(2) [OF k(3) u(2)] k(1) show ?case by simp
next
  case (NotAfter P)
  then show ?case by (auto split: list.splits if_splits)
next
  case (Ahead r)
  then show ?case by (auto split: list.splits)
next
  case (Grp k r)
  then obtain p' s' c' where "(p', s', c') \<in> set (matches r st)" "fst (snd st') = s'" by auto
  with Grp.IH [of n "(p', s', c')" st] Grp.prems(1) show ?case by simp
qed (auto split: if_splits)

lemma sizedRe_Sq: "sizedRe r k \<Longrightarrow> sizedRe q m \<Longrightarrow> sizedRe (Sq r q) (k + m)"
  by (auto intro!: exI [of _ k])

lemma sizedRe_Rep: "sizedRe (Rep n (Chs P)) n"
proof (induction n)
  case (Suc n)
  from sizedRe_Sq [OF _ Suc.IH, of "Chs P" 1] show ?case by simp
qed simp

lemma sizedRe_UUID: "sizedRe UUID_TEXT_PATTERN 36"
proof -
  have l: "sizedRe (Lit [45]) 1" by simp
  note r = sizedRe_Rep [of _ isHexDigit]
  have "sizedRe UUID_TEXT_PATTERN (8 + (1 + (4 + (1 + (4 + (1 + (4 + (1 + (12 + 0)))))))))"
    unfolding UUID_TEXT_PATTERN_def seqs.simps by (intro sizedRe_Sq l r) simp
  then show ?thesis by simp
qed

lemma matchAt_mem: "matchAt r p s = Some st \<Longrightarrow> st \<in> set (matches r (p, s, []))"
  by (auto simp: matchAt_def split: list.splits)

lemma UUID_EXACT_match:
  assumes "UUID_EXACT w"
  shows "\<exists>c. matchAt UUID_TEXT_PATTERN [] w = Some (rev w, [], c)"
proof -
  have no: "\<not> searchFrom (Sq (NotAfter (\<lambda>_. True)) r) (y # p) s" for r y p s
    by (induction s arbitrary: y p) (simp_all add: matchAt_def)
  have "matchAt (Sq (NotAfter (\<lambda>_. True)) (Sq UUID_TEXT_PATTERN InputEnd)) [] w \<noteq> None"
    using assms no by (cases w) (simp_all add: UUID_EXACT_def test_def)
  then obtain st where "st \<in> set (matches (Sq (NotAfter (\<lambda>_. True)) (Sq UUID_TEXT_PATTERN InputEnd)) ([], w, []))"
    by (auto dest: matchAt_mem)
  then have "st \<in> set (concat (map (matches InputEnd) (matches UUID_TEXT_PATTERN ([], w, []))))" by simp
  then obtain u where u: "u \<in> set (matches UUID_TEXT_PATTERN ([], w, []))" "st \<in> set (matches InputEnd u)"
    by (simp only: set_concat set_map) blast
  then have u2: "fst (snd u) = []" by (simp split: if_splits)
  then have w: "length w = 36" using sizedRe_match [OF sizedRe_UUID u(1)] u2 by simp
  from u(1) obtain v vs where v: "matches UUID_TEXT_PATTERN ([], w, []) = v # vs"
    by (cases "matches UUID_TEXT_PATTERN ([], w, [])") auto
  then have "fst (snd v) = []" "fst v = rev w"
    using sizedRe_match [OF sizedRe_UUID, of v "([], w, [])"] w matches_passes [of v UUID_TEXT_PATTERN "([], w, [])"]
    by (auto simp: passes_def)
  then show ?thesis using v by (cases v) (simp add: matchAt_def)
qed

lemma replaceAll_whole:
  assumes "matchAt r [] w = Some (rev w, [], c)" "w \<noteq> []" "0 < minLen r"
  shows "replaceAll r f w = f w c"
proof -
  have "replaceFrom r f (rev w) [] = []"
    using assms(3) by (intro replaceFrom_no_match short_no_match) simp
  then show ?thesis
    unfolding replaceAll_def by (subst replaceFrom.simps) (use assms in simp)
qed

lemma UUID_EXACT_length: "UUID_EXACT w \<Longrightarrow> length w = 36"
  by (auto dest!: UUID_EXACT_match matchAt_mem sizedRe_match [OF sizedRe_UUID])

lemma UUID_no_space: "needs UUID_TEXT_PATTERN {45}"
  by (simp add: UUID_TEXT_PATTERN_def needs_seqs)

lemma UUID_EXACT_dash: "UUID_EXACT w \<Longrightarrow> 45 \<in> set w"
  by (auto dest!: UUID_EXACT_match matchAt_mem needs_match [OF UUID_no_space])

lemma separates_space:
  "separates 32 UUID_TEXT_PATTERN" "separates 32 MEMORY_ADDRESS_PATTERN" "separates 32 LONG_INTEGER_PATTERN"
  "separates 32 LONG_HEX_PATTERN" "separates 32 OPAQUE_TOKEN_PATTERN"
proof -
  have sp: "\<not> isWordChar 32" "\<not> isHexDigit 32" "\<not> isDigit 32" "\<not> isTokenChar 32"
    by (simp_all add: isWordChar_def isHexDigit_def isTokenChar_def char_class_defs)
  have h: "confined (Chs isHexDigit) (- {32})" using sp by auto
  have l: "confined (Lit [45]) (- {32})" by simp
  note r = confined_Rep [OF h]
  have "confined UUID_TEXT_PATTERN (- {32})"
    unfolding UUID_TEXT_PATTERN_def seqs.simps confined.simps by (intro conjI TrueI l r)
  with sp show "separates 32 UUID_TEXT_PATTERN" by (simp add: separates_def)
  show "separates 32 MEMORY_ADDRESS_PATTERN"
    using sp h by (simp add: separates_def MEMORY_ADDRESS_PATTERN_def confined_AtLeast)
  show "separates 32 LONG_INTEGER_PATTERN" "separates 32 LONG_HEX_PATTERN" "separates 32 OPAQUE_TOKEN_PATTERN"
    unfolding LONG_INTEGER_PATTERN_def LONG_HEX_PATTERN_def OPAQUE_TOKEN_PATTERN_def
    using sp by (simp_all add: separates_wordPattern)
qed

lemma address_no_match:
  "\<not> includesStr w [48, 120] \<Longrightarrow> \<not> searchFrom MEMORY_ADDRESS_PATTERN p w"
proof (induction w arbitrary: p)
  case Nil
  then show ?case by (intro short_no_match) (simp add: MEMORY_ADDRESS_PATTERN_def AtLeast_def)
next
  case (Cons x w)
  then have "matches MEMORY_ADDRESS_PATTERN (p, x # w, []) = []"
    by (cases w) (auto simp: MEMORY_ADDRESS_PATTERN_def)
  with Cons show ?case by (simp add: matchAt_def)
qed

lemma address_match:
  assumes "addressWord w"
  shows "matchAt MEMORY_ADDRESS_PATTERN [] w = Some (rev w, [], [])"
proof -
  from assms obtain h where w: "w = 48 # 120 # h" and h: "6 \<le> length h" "list_all isHexDigit h"
    by (auto simp: addressWord_def startsWith_append allOf_def)
  have take: "list_all isHexDigit (take 6 h)" and drop: "takeWhile isHexDigit (drop 6 h) = drop 6 h"
    using h(2) by (auto simp: list_all_iff takeWhile_eq_all_conv dest: in_set_takeD in_set_dropD)
  have len: "length (takeWhile isHexDigit (drop 6 h)) = length h - 6" by (simp add: drop)
  have up: "rev [0..<Suc n] = n # rev [0..<n]" for n by simp
  have bk: "rev (drop 6 h) @ rev (take 6 h) = rev h" by (simp flip: rev_append)
  have bk2: "rev (drop 6 h) @ rev (take 6 h) @ q = rev h @ q" for q
    using arg_cong [OF bk, of "\<lambda>z. z @ q"] by simp
  show ?thesis
    using h take
    by (simp add: w matchAt_def len up bk2 MEMORY_ADDRESS_PATTERN_def AtLeast_def matches_Rep_Chs matches_Star_Chs
        del: matches.simps(5) Rep_numeral upt_Suc)
qed

lemma replaceUrlLikeTokens_id: "47 \<notin> set s \<Longrightarrow> replaceUrlLikeTokens rep s = s"
proof (induction rep s rule: replaceUrlLikeTokens.induct)
  case (2 rep c s)
  have run: "\<not> startsWith (dropWhile isSchemeCharCode s) [58, 47, 47]"
  proof
    assume "startsWith (dropWhile isSchemeCharCode s) [58, 47, 47]"
    then have "47 \<in> set (dropWhile isSchemeCharCode s)" by (auto simp: startsWith_append)
    with 2 show False by (auto dest: set_dropWhileD)
  qed
  have "47 \<notin> set (dropWhile isSchemeCharCode s)" using 2 by (auto dest: set_dropWhileD)
  with 2 run show ?case by (auto simp: Let_def)
qed simp

text \<open>One word under each pass.\<close>

lemma alnum_dash: "list_all isAlnum w \<Longrightarrow> 45 \<notin> set w"
  by (auto simp: list_all_iff char_class_defs)

lemma plain_dash: "plainWord w \<Longrightarrow> \<not> UUID_EXACT w \<Longrightarrow> 45 \<notin> set w \<and> list_all isAlnum w"
proof -
  have "list_all isAlnum w" if "addressWord w"
  proof -
    from that obtain h where "w = 48 # 120 # h" "list_all isHexDigit h"
      by (auto simp: addressWord_def startsWith_append allOf_def)
    then show ?thesis using class_bounds(2) by (auto simp: list_all_iff char_class_defs)
  qed
  then show "plainWord w \<Longrightarrow> \<not> UUID_EXACT w \<Longrightarrow> 45 \<notin> set w \<and> list_all isAlnum w"
    using alnum_dash by (auto simp: plainWord_def)
qed

definition afterUuid :: "jstr \<Rightarrow> jstr" where "afterUuid w = (if UUID_EXACT w then ph_id else w)"
definition afterAddress :: "jstr \<Rightarrow> jstr" where
  "afterAddress w = (if UUID_EXACT w then ph_id else if addressWord w then ph_address else w)"
definition afterInteger :: "jstr \<Rightarrow> jstr" where
  "afterInteger w = (if UUID_EXACT w then ph_id else if addressWord w then ph_address
     else if allOf isDigit 5 w then ph_id else w)"
definition afterHex :: "jstr \<Rightarrow> jstr" where
  "afterHex w = (if UUID_EXACT w then ph_id else if addressWord w then ph_address
     else if allOf isDigit 5 w then ph_id
     else if allOf isHexDigit 8 w \<and> containsAsciiDigit w then ph_hex else w)"

lemma uuid_word: "plainWord w \<Longrightarrow> replaceAll UUID_TEXT_PATTERN (\<lambda>_ _. ph_id) w = afterUuid w"
proof (cases "UUID_EXACT w")
  case True
  have "0 < minLen UUID_TEXT_PATTERN" by (simp add: UUID_TEXT_PATTERN_def)
  with True UUID_EXACT_match [OF True] UUID_EXACT_length [OF True] show ?thesis
    by (auto simp: afterUuid_def intro!: replaceAll_whole)
next
  case False
  assume "plainWord w"
  with False plain_dash have "set w \<inter> {45} = {}" by blast
  with False needs_replaceAll [OF UUID_no_space] show ?thesis by (simp add: afterUuid_def)
qed

lemma ph_untouched:
  assumes "w \<in> {ph_id, ph_address, ph_hex}"
  shows "replaceAll MEMORY_ADDRESS_PATTERN f w = w" "replaceAll LONG_INTEGER_PATTERN f w = w"
    "replaceAll LONG_HEX_PATTERN f w = w" "replaceAll OPAQUE_TOKEN_PATTERN f w = w"
proof -
  have short: "length w \<le> 5" using assms by (auto simp: ph_eval)
  then show "replaceAll MEMORY_ADDRESS_PATTERN f w = w"
    by (intro short_replaceAll) (simp add: MEMORY_ADDRESS_PATTERN_def AtLeast_def)
  show "replaceAll LONG_HEX_PATTERN f w = w" "replaceAll OPAQUE_TOKEN_PATTERN f w = w"
    using short by (simp_all add: short_replaceAll LONG_HEX_PATTERN_def OPAQUE_TOKEN_PATTERN_def)
  have "needs LONG_INTEGER_PATTERN {c. isDigit c}"
    by (simp add: LONG_INTEGER_PATTERN_def wordPattern_def)
  moreover have "set w \<inter> {c. isDigit c} = {}" using assms by (auto simp: ph_eval isDigit_def)
  ultimately show "replaceAll LONG_INTEGER_PATTERN f w = w" by (rule needs_replaceAll)
qed

lemma address_word: "plainWord w \<Longrightarrow> replaceAll MEMORY_ADDRESS_PATTERN (\<lambda>_ _. ph_address) (afterUuid w) = afterAddress w"
proof -
  assume w: "plainWord w"
  consider (uuid) "UUID_EXACT w" | (addr) "\<not> UUID_EXACT w" "addressWord w" | (word) "\<not> UUID_EXACT w" "\<not> addressWord w"
    by blast
  then show ?thesis
  proof cases
    case uuid
    then show ?thesis by (simp add: afterUuid_def afterAddress_def ph_untouched)
  next
    case addr
    have "w \<noteq> []" "0 < minLen MEMORY_ADDRESS_PATTERN"
      using w by (auto simp: plainWord_def MEMORY_ADDRESS_PATTERN_def)
    with replaceAll_whole [OF address_match [OF addr(2)]] addr show ?thesis
      by (simp add: afterUuid_def afterAddress_def)
  next
    case word
    with w have "\<not> includesStr w [48, 120]" by (auto simp: plainWord_def)
    with word address_no_match show ?thesis
      by (simp add: afterUuid_def afterAddress_def replaceAll_no_match test_def)
  qed
qed

lemma plain_wordChars: "plainWord w \<Longrightarrow> \<not> UUID_EXACT w \<Longrightarrow> list_all isWordChar w \<and> list_all isTokenChar w"
  using plain_dash [of w] class_bounds(3,4) by (auto simp: list_all_iff)

lemma whole_words:
  assumes "list_all isWordChar w"
  shows "replaceAll LONG_INTEGER_PATTERN f w = (if allOf isDigit 5 w then f w [] else w)"
    "replaceAll LONG_HEX_PATTERN f w = (if allOf isHexDigit 8 w then f w [] else w)"
    "replaceAll OPAQUE_TOKEN_PATTERN f w = (if allOf isTokenChar 20 w then f w [] else w)"
  using assms
  by (simp_all add: LONG_INTEGER_PATTERN_def LONG_HEX_PATTERN_def OPAQUE_TOKEN_PATTERN_def replaceAll_wordPattern allOf_def)

lemma integer_word: "plainWord w \<Longrightarrow> replaceAll LONG_INTEGER_PATTERN (\<lambda>_ _. ph_id) (afterAddress w) = afterInteger w"
  using plain_wordChars [of w] by (auto simp: afterAddress_def afterInteger_def ph_untouched whole_words)

lemma hex_word: "plainWord w \<Longrightarrow> replaceAll LONG_HEX_PATTERN hexOrSame (afterInteger w) = afterHex w"
  using plain_wordChars [of w]
  by (auto simp: afterInteger_def afterHex_def ph_untouched whole_words hexOrSame_def)

lemma token_word: "plainWord w \<Longrightarrow> replaceAll OPAQUE_TOKEN_PATTERN tokenOrSame (afterHex w) = stableWord w"
  using plain_wordChars [of w]
  by (auto simp: afterHex_def stableWord_def ph_untouched whole_words tokenOrSame_def allOf_def)

subsection \<open>The text around the words\<close>

lemma no_ws_alnum: "isAlnum c \<or> c = 45 \<Longrightarrow> \<not> isWs c \<and> c \<noteq> 47 \<and> c \<noteq> 32"
  by (auto simp: char_class_defs)

lemma uuid_units: "sizedRe r n \<Longrightarrow> confined r W \<Longrightarrow> (p', s', c') \<in> set (matches r (p, s, c)) \<Longrightarrow> set (take n s) \<subseteq> W"
proof (induction r arbitrary: n p s c p' s' c')
  case (Al r q)
  then have "(p', s', c') \<in> set (matches r (p, s, c)) \<or> (p', s', c') \<in> set (matches q (p, s, c))" by simp
  with Al.IH(1) [of n p' s' c' p s c] Al.IH(2) [of n p' s' c' p s c] Al.prems(1,2) show ?case
    by (metis confined.simps(4) sizedRe.simps(4))
next
  case (Chs P)
  then show ?case by (cases s) (auto split: if_splits)
next
  case (Sq r q)
  then obtain k where k: "k \<le> n" "sizedRe r k" "sizedRe q (n - k)" by auto
  from Sq.prems obtain p1 s1 c1 where u: "(p1, s1, c1) \<in> set (matches r (p, s, c))" "(p', s', c') \<in> set (matches q (p1, s1, c1))"
    by (auto simp: prod_cases3)
  obtain v where v: "s = v @ s1" using matches_passes [OF u(1)] by (auto simp: passes_def)
  have "length v = k" using sizedRe_match [OF k(2) u(1)] v by simp
  then have "take n s = take k s @ take (n - k) s1" using v k(1) by simp
  with Sq.IH(1) [OF k(2) _ u(1)] Sq.IH(2) [OF k(3) _ u(2)] Sq.prems(2) show ?case by auto
qed auto

lemma plain_units: "plainWord w \<Longrightarrow> c \<in> set w \<Longrightarrow> isAlnum c \<or> c = 45"
proof (cases "UUID_EXACT w")
  case True
  assume "c \<in> set w"
  obtain k where "matchAt UUID_TEXT_PATTERN [] w = Some (rev w, [], k)" using UUID_EXACT_match [OF True] by blast
  then have m: "(rev w, [], k) \<in> set (matches UUID_TEXT_PATTERN ([], w, []))" by (rule matchAt_mem)
  have h: "confined (Chs isHexDigit) ({c. isHexDigit c} \<union> {45})" "confined (Lit [45]) ({c. isHexDigit c} \<union> {45})" by auto
  have "confined UUID_TEXT_PATTERN ({c. isHexDigit c} \<union> {45})"
    unfolding UUID_TEXT_PATTERN_def seqs.simps confined.simps by (intro conjI TrueI h confined_Rep)
  from uuid_units [OF sizedRe_UUID this m] UUID_EXACT_length [OF True] \<open>c \<in> set w\<close>
  have "isHexDigit c \<or> c = 45" by auto
  then show ?thesis using class_bounds(2) by blast
next
  case False
  assume "plainWord w" "c \<in> set w"
  with False plain_dash show ?thesis by (auto simp: list_all_iff)
qed

lemma collapse_words:
  assumes "list_all plainWord ws" "ws \<noteq> []"
  shows "collapseWs (join [32] ws) = join [32] ws"
proof -
  have word: "collapseWs (w @ s) = w @ collapseWs s" if "\<forall>c \<in> set w. \<not> isWs c" for w s
    using that by (induction w) auto
  have first: "\<exists>c u. join [32] (w # ws') = c # u \<and> \<not> isWs c" if "plainWord w" for w ws'
    using that plain_units [OF that] no_ws_alnum by (cases w; cases ws') (auto simp: plainWord_def)
  have nows: "plainWord w \<Longrightarrow> \<forall>c \<in> set w. \<not> isWs c" for w using plain_units no_ws_alnum by blast
  show ?thesis
    using assms
  proof (induction "[32::nat]" ws rule: join.induct)
    case (2 w)
    with word [OF nows, of w "[]"] show ?case by simp
  next
    case (3 w v ws)
    then obtain c u where j: "join [32] (v # ws) = c # u" "\<not> isWs c" using first [of v ws] by auto
    have "isWs 32" by (simp add: isWs_def)
    with j(2) have "collapseWs (32 # c # u) = 32 # collapseWs (c # u)" by simp
    moreover have "collapseWs (c # u) = c # u" using 3 j by simp
    ultimately show ?case using 3 word [OF nows, of w] by (simp add: j)
  qed simp
qed

lemma trim_words:
  assumes "list_all plainWord ws" "ws \<noteq> []"
  shows "trim (join [32] ws) = join [32] ws"
proof -
  have ends: "w \<noteq> [] \<and> \<not> isWs (hd w) \<and> \<not> isWs (last w)" if "plainWord w" for w
    using that plain_units [OF that] no_ws_alnum by (auto simp: plainWord_def)
  have h: "join [32] ws \<noteq> [] \<and> hd (join [32] ws) = hd (hd ws)"
    using assms ends by (cases ws; cases "tl ws") auto
  have l: "last (join [32] ws) = last (last ws)"
    using assms
  proof (induction "[32::nat]" ws rule: join.induct)
    case (3 w v ws)
    have "join [32] (v # ws) \<noteq> []" using 3 ends [of v] by (cases ws) auto
    with 3 show ?case by simp
  qed simp_all
  have "\<not> isWs (hd (join [32] ws))" "\<not> isWs (last (join [32] ws))"
    using h l assms ends by (auto simp: list_all_iff)
  then have "dropWhile isWs (join [32] ws) = join [32] ws" "dropWhile isWs (rev (join [32] ws)) = rev (join [32] ws)"
    using h by (simp_all add: dropWhile_eq_self_iff hd_rev)
  then show ?thesis by (simp add: trim_def trimStart_def trimEnd_def)
qed

lemma message_of_words:
  assumes ws: "list_all plainWord ws"
  shows "normalizeMessage (join [32] ws) = join [32] (map stableWord ws)"
proof (cases "ws = []")
  case True
  have "replaceAll r f [] = []" if "0 < minLen r" for r f using that by (simp add: short_replaceAll)
  with True show ?thesis
    by (simp add: normalizeMessage_def trim_def trimStart_def trimEnd_def UUID_TEXT_PATTERN_def ISO_TIMESTAMP_PATTERN_def
        MEMORY_ADDRESS_PATTERN_def LONG_INTEGER_PATTERN_def LONG_HEX_PATTERN_def OPAQUE_TOKEN_PATTERN_def)
next
  case False
  have pass: "replaceAll r F (join [32] (map g ws)) = join [32] (map h ws)"
    if "separates 32 r" "\<And>w. plainWord w \<Longrightarrow> replaceAll r F (g w) = h w" for r F g h
  proof -
    have "map (replaceAll r F) (map g ws) = map h ws" using that(2) ws by (auto simp: list_all_iff)
    then show ?thesis using replaceAll_join [OF that(1), of "map g ws" F] False by (simp only: map_is_Nil_conv simp_thms)
  qed
  have "47 \<notin> set (join [32] ws)"
  proof
    assume "47 \<in> set (join [32] ws)"
    then obtain w where "w \<in> set ws" "47 \<in> set w" using set_join [of "[32]" ws] by auto
    with ws plain_units [of w 47] no_ws_alnum [of 47] show False by (auto simp: list_all_iff)
  qed
  then have o1: "replaceUrlLikeTokens urlToken (trim (collapseWs (join [32] ws))) = join [32] ws"
    using collapse_words [OF ws False] trim_words [OF ws False] by (simp add: replaceUrlLikeTokens_id)
  have o2: "replaceAll UUID_TEXT_PATTERN (\<lambda>_ _. ph_id) (join [32] ws) = join [32] (map afterUuid ws)"
    using pass [of UUID_TEXT_PATTERN "\<lambda>_ _. ph_id" "\<lambda>w. w" afterUuid] separates_space(1) uuid_word by simp
  have "45 \<notin> set (join [32] (map afterUuid ws))"
  proof -
    have "45 \<notin> set (afterUuid w)" if "plainWord w" for w
      using plain_dash [OF that] by (simp add: afterUuid_def ph_eval)
    then show ?thesis using set_join [of "[32]" "map afterUuid ws"] ws by (fastforce simp: list_all_iff)
  qed
  moreover have "needs ISO_TIMESTAMP_PATTERN {45}" by (simp add: ISO_TIMESTAMP_PATTERN_def needs_seqs)
  ultimately have o3: "replaceAll ISO_TIMESTAMP_PATTERN f (join [32] (map afterUuid ws)) = join [32] (map afterUuid ws)" for f
    by (simp add: needs_replaceAll)
  have o4: "replaceAll MEMORY_ADDRESS_PATTERN (\<lambda>_ _. ph_address) (join [32] (map afterUuid ws)) = join [32] (map afterAddress ws)"
    by (rule pass [OF separates_space(2) address_word])
  have o5: "replaceAll LONG_INTEGER_PATTERN (\<lambda>_ _. ph_id) (join [32] (map afterAddress ws)) = join [32] (map afterInteger ws)"
    by (rule pass [OF separates_space(3) integer_word])
  have o6: "replaceAll LONG_HEX_PATTERN hexOrSame (join [32] (map afterInteger ws)) = join [32] (map afterHex ws)"
    by (rule pass [OF separates_space(4) hex_word])
  have o7: "replaceAll OPAQUE_TOKEN_PATTERN tokenOrSame (join [32] (map afterHex ws)) = join [32] (map stableWord ws)"
    by (rule pass [OF separates_space(5) token_word])
  show ?thesis by (simp add: normalizeMessage_def Let_def o1 o2 o3 o4 o5 o6 o7)
qed

lemma stableWord_no_space: "plainWord w \<Longrightarrow> 32 \<notin> set (stableWord w)"
  using plain_units [of w 32] no_ws_alnum [of 32] by (auto simp: stableWord_def ph_eval)

lemma message_groups:
  assumes "list_all plainWord ws" "list_all plainWord vs"
  shows "normalizeMessage (join [32] ws) = normalizeMessage (join [32] vs) \<longleftrightarrow> map stableWord ws = map stableWord vs"
proof -
  have sp: "split_on 32 (join [32] (map stableWord us)) = (if us = [] then [[]] else map stableWord us)"
    if "list_all plainWord us" for us
    using that stableWord_no_space by (auto simp: list_all_iff intro!: split_on_join)
  have ne: "stableWord w \<noteq> []" if "plainWord w" for w
    using that by (auto simp: stableWord_def ph_eval plainWord_def)
  have single: "map stableWord us \<noteq> [[]]" if "list_all plainWord us" for us
    using that ne by (cases us) auto
  have "map stableWord ws = map stableWord vs"
    if e: "join [32] (map stableWord ws) = join [32] (map stableWord vs)"
  proof -
    have "(if ws = [] then [[]] else map stableWord ws) = (if vs = [] then [[]] else map stableWord vs)"
      using sp [OF assms(1)] sp [OF assms(2)] by (simp only: e)
    then show ?thesis using single [OF assms(1)] single [OF assms(2)] by (auto split: if_splits)
  qed
  then show ?thesis
    unfolding message_of_words [OF assms(1)] message_of_words [OF assms(2)] by (metis (no_types))
qed

text \<open>
  C21: \<open>normalizeMessage\<close> on a message of words: each word is replaced on its own by the rule of its
  kind (a UUID, an address, a number of five digits or more, a hexadecimal word of eight or more
  with a digit, a mixed word of twenty or more) or kept; two such messages become the same text
  exactly when their words agree up to these placeholders.
\<close>

theorem normalization_groups_by_stable_words:
  assumes "list_all plainWord ws" "list_all plainWord vs"
  shows "normalizeMessage (join [32] ws) = join [32] (map stableWord ws)
    \<and> (normalizeMessage (join [32] ws) = normalizeMessage (join [32] vs) \<longleftrightarrow> map stableWord ws = map stableWord vs)"
  using message_of_words [OF assms(1)] message_groups [OF assms] by (intro conjI)

lemma not_uuid: "length w \<noteq> 36 \<Longrightarrow> \<not> UUID_EXACT w"
  using UUID_EXACT_length by blast

lemmas word_eval = plainWord_def stableWord_def not_uuid addressWord_def allOf_def js_eval isDigit_def isUpper_def
  isLower_def isHexDigit_def containsAsciiDigit_def containsAsciiLetter_def

theorem normalization_groups_by_stable_words_witness:
  "normalizeMessage (join [32] [js ''Order'', js ''4711123'', js ''500'']) = join [32] [js ''Order'', ph_id, js ''500'']
    \<and> normalizeMessage (join [32] [js ''Order'', js ''4711123'', js ''500''])
        \<noteq> normalizeMessage (join [32] [js ''Order'', js ''81234'', js ''404''])"
proof -
  have w: "list_all plainWord [js ''Order'', js ''4711123'', js ''500'']" "list_all plainWord [js ''Order'', js ''81234'', js ''404'']"
    by (simp_all add: word_eval)
  have m: "map stableWord [js ''Order'', js ''4711123'', js ''500''] = [js ''Order'', ph_id, js ''500'']"
    "map stableWord [js ''Order'', js ''4711123'', js ''500''] \<noteq> map stableWord [js ''Order'', js ''81234'', js ''404'']"
    by (simp_all add: word_eval ph_eval)
  from normalization_groups_by_stable_words [OF w] m show ?thesis by (metis (no_types))
qed

subsection \<open>Bounded text\<close>

lemma strip_idem [simp]: "stripControlCharacters (stripControlCharacters s) = stripControlCharacters s"
  by (simp add: stripControlCharacters_def)

lemma strip_sublist: "stripControlCharacters s = s \<Longrightarrow> set t \<subseteq> set s \<Longrightarrow> stripControlCharacters t = t"
  unfolding stripControlCharacters_def by (auto simp: filter_id_conv)

lemma capText_bounds: "length (capText s n) \<le> n" "stripControlCharacters (capText s n) = capText s n"
proof -
  let ?c = "stripControlCharacters s"
  have sub: "set (capText s n) \<subseteq> set ?c"
    by (auto simp: capText_def Let_def dest: in_set_butlastD in_set_takeD split: if_splits)
  then show "stripControlCharacters (capText s n) = capText s n" by (rule strip_sublist [OF strip_idem])
  show "length (capText s n) \<le> n" by (auto simp: capText_def Let_def)
qed

lemma capText_fits: "stripControlCharacters s = s \<Longrightarrow> length s \<le> n \<Longrightarrow> capText s n = s"
  by (simp add: capText_def)

lemma capText_idem: "capText (capText s n) n = capText s n"
  by (rule capText_fits) (rule capText_bounds)+

end
