(* ===== verification/JsonText.thy ===== *)
theory JsonText
  imports Text
begin

text \<open>
  \<open>JSON.stringify\<close> of a list of strings: the quoting of the language standard (escapes for the
  control characters, the quote and the backslash, and for surrogates that stand alone). The text
  determines the list, and its UTF-8 encoding determines the text.
\<close>

definition nibble :: "nat \<Rightarrow> nat \<Rightarrow> nat" where "nibble k c = c div 16 ^ k mod 16"

definition hex4 :: "nat \<Rightarrow> jstr" where
  "hex4 c = [hexChar (nibble 3 c), hexChar (nibble 2 c), hexChar (nibble 1 c), hexChar (nibble 0 c)]"

definition quoteUnit :: "nat \<Rightarrow> jstr" where
  "quoteUnit c =
     (if c = 34 \<or> c = 92 then [92, c]
      else if c = 8 then [92, 98] else if c = 9 then [92, 116] else if c = 10 then [92, 110]
      else if c = 12 then [92, 102] else if c = 13 then [92, 114]
      else if c < 32 \<or> isHighSurrogate c \<or> isLowSurrogate c then [92, 117] @ hex4 c
      else [c])"

fun quoteUnits :: "jstr \<Rightarrow> jstr" where
  "quoteUnits [] = []"
| "quoteUnits [a] = quoteUnit a"
| "quoteUnits (a # b # r) =
     (if isHighSurrogate a \<and> isLowSurrogate b then a # b # quoteUnits r
      else quoteUnit a @ quoteUnits (b # r))"

definition quoteJson :: "jstr \<Rightarrow> jstr" where "quoteJson s = [34] @ quoteUnits s @ [34]"

definition stringifyStrings :: "jstr list \<Rightarrow> jstr" where
  "stringifyStrings xs = [91] @ join [44] (map quoteJson xs) @ [93]"

subsection \<open>Reading a quoted string\<close>

definition unhex4 :: "nat \<Rightarrow> nat \<Rightarrow> nat \<Rightarrow> nat \<Rightarrow> nat" where
  "unhex4 a b c d = the (hexVal a) * 4096 + the (hexVal b) * 256 + the (hexVal c) * 16 + the (hexVal d)"

definition unescape :: "nat \<Rightarrow> nat" where
  "unescape e = (if e = 98 then 8 else if e = 116 then 9 else if e = 110 then 10 else if e = 102 then 12
     else if e = 114 then 13 else e)"

function readString :: "jstr \<Rightarrow> jstr \<times> jstr" where
  "readString [] = ([], [])"
| "readString (c # t) =
     (if c = 34 then ([], t)
      else if c = 92 then
        (case t of [] \<Rightarrow> ([], [])
         | e # u \<Rightarrow>
             if e = 117 then
               (case u of p # q # x # y # v \<Rightarrow> (case readString v of (s, w) \<Rightarrow> (unhex4 p q x y # s, w)) | _ \<Rightarrow> ([], []))
             else (case readString u of (s, w) \<Rightarrow> (unescape e # s, w)))
      else (case readString t of (s, w) \<Rightarrow> (c # s, w)))"
  by pat_completeness auto
termination by (relation "measure length") auto

declare readString.simps [simp del]

lemma readString_simps [simp]:
  "readString (34 # t) = ([], t)"
  "readString (92 # 117 # p # q # x # y # v) = (case readString v of (s, w) \<Rightarrow> (unhex4 p q x y # s, w))"
  "e \<noteq> 117 \<Longrightarrow> readString (92 # e # u) = (case readString u of (s, w) \<Rightarrow> (unescape e # s, w))"
  "c \<noteq> 34 \<Longrightarrow> c \<noteq> 92 \<Longrightarrow> readString (c # t) = (case readString t of (s, w) \<Rightarrow> (c # s, w))"
  by (simp_all add: readString.simps)

lemma nibble_less [simp]: "nibble k c < 16"
  by (simp add: nibble_def)

lemma nibbles: "c < 65536 \<Longrightarrow> nibble 3 c * 4096 + nibble 2 c * 256 + nibble 1 c * 16 + nibble 0 c = c"
proof -
  assume c: "c < 65536"
  define x y z where "x = c div 16" and "y = x div 16" and "z = y div 16"
  have "c = x * 16 + c mod 16" "x = y * 16 + x mod 16" "y = z * 16 + y mod 16" by (simp_all add: x_def y_def z_def)
  moreover have "nibble 0 c = c mod 16" "nibble 1 c = x mod 16" "nibble 2 c = y mod 16" "nibble 3 c = z mod 16"
    by (simp_all add: nibble_def x_def y_def z_def flip: div_mult2_eq)
  moreover have "z mod 16 = z"
  proof -
    have "x < 4096" using c by (simp add: x_def less_mult_imp_div_less)
    then have "y < 256" by (simp add: y_def less_mult_imp_div_less)
    then have "z < 16" by (simp add: z_def less_mult_imp_div_less)
    then show ?thesis by simp
  qed
  ultimately show ?thesis by linarith
qed

lemma unhex4_hex4:
  assumes "c < 65536"
  shows "unhex4 (hexChar (nibble 3 c)) (hexChar (nibble 2 c)) (hexChar (nibble (Suc 0) c)) (hexChar (nibble 0 c)) = c"
  using nibbles [OF assms] by (simp add: unhex4_def)

lemma readString_quoteUnit:
  "readString (quoteUnit c @ t) = (case readString t of (s, w) \<Rightarrow> (c # s, w))"
  by (auto simp: quoteUnit_def hex4_def unhex4_hex4 unescape_def isHighSurrogate_def isLowSurrogate_def)

lemma readString_quoteUnits: "readString (quoteUnits s @ 34 # t) = (s, t)"
proof (induction s rule: quoteUnits.induct)
  case (2 a)
  then show ?case by (simp add: wf16_def readString_quoteUnit)
next
  case (3 a b r)
  show ?case
  proof (cases "isHighSurrogate a \<and> isLowSurrogate b")
    case True
    then have "a \<noteq> 34" "a \<noteq> 92" "b \<noteq> 34" "b \<noteq> 92" by (auto simp: isHighSurrogate_def isLowSurrogate_def)
    with True 3 show ?thesis by (simp add: wf16_def)
  next
    case False
    then have "quoteUnits (a # b # r) = quoteUnit a @ quoteUnits (b # r)" by auto
    with 3 False show ?thesis by (simp add: wf16_def readString_quoteUnit)
  qed
qed simp

lemma quoteJson_inj:
  assumes "quoteJson a @ s = quoteJson b @ t"
  shows "a = b \<and> s = t"
proof -
  from assms have "quoteUnits a @ 34 # s = quoteUnits b @ 34 # t" by (simp add: quoteJson_def)
  with readString_quoteUnits [of a s] readString_quoteUnits [of b t] show ?thesis
    by (metis prod.inject)
qed

lemma join_quoted_inj:
  "join [44] (map quoteJson xs) @ [93] = join [44] (map quoteJson ys) @ [93] \<Longrightarrow> xs = ys"
proof (induction xs arbitrary: ys)
  case Nil
  then show ?case by (cases ys rule: remdups_adj.cases) (simp_all add: quoteJson_def)
next
  case (Cons x xs)
  have tail: "join [44] (map quoteJson (z # zs)) @ [93] = quoteJson z @ (if zs = [] then [93] else 44 # join [44] (map quoteJson zs) @ [93])" for z zs
    by (cases zs) simp_all
  obtain y ys' where ys: "ys = y # ys'"
  proof (cases ys)
    case Nil
    with Cons.prems have "quoteJson x @ (if xs = [] then [93] else 44 # join [44] (map quoteJson xs) @ [93]) = [93]"
      by (simp only: tail) simp
    then have False by (simp add: quoteJson_def split: if_splits)
    then show thesis ..
  qed (rule that)
  from Cons.prems have e: "quoteJson x @ (if xs = [] then [93] else 44 # join [44] (map quoteJson xs) @ [93])
      = quoteJson y @ (if ys' = [] then [93] else 44 # join [44] (map quoteJson ys') @ [93])"
    by (simp only: ys tail)
  from quoteJson_inj [OF e] have "x = y" and r: "(if xs = [] then [93] else 44 # join [44] (map quoteJson xs) @ [93]) =
      (if ys' = [] then [93] else 44 # join [44] (map quoteJson ys') @ [93])"
    by blast+
  moreover have "xs = ys'"
  proof (cases "xs = [] \<or> ys' = []")
    case True
    with r show ?thesis by (auto split: if_splits)
  next
    case False
    with r Cons.IH [of ys'] Cons.prems ys show ?thesis by simp
  qed
  ultimately show ?case using ys by simp
qed

lemma stringifyStrings_inj:
  "stringifyStrings xs = stringifyStrings ys \<longleftrightarrow> xs = ys"
  using join_quoted_inj [of xs ys] by (auto simp: stringifyStrings_def)

subsection \<open>The encoded text\<close>

lemma hexChar_bounds: "n < 16 \<Longrightarrow> 48 \<le> hexChar n \<and> hexChar n < 127"
  by (simp add: hexChar_def)

lemma set_hex4: "u \<in> set (hex4 c) \<Longrightarrow> u < 127"
  using hexChar_bounds [OF nibble_less, of _ c] by (auto simp: hex4_def)

lemma quoteUnit_plain:
  assumes "u \<in> set (quoteUnit c)"
  shows "\<not> isHighSurrogate u \<and> \<not> isLowSurrogate u"
proof -
  from assms have "u < 127 \<or> (u = c \<and> \<not> isHighSurrogate c \<and> \<not> isLowSurrogate c)"
    using set_hex4 [of u c] by (simp add: quoteUnit_def split: if_splits) auto
  then show ?thesis by (auto simp: isHighSurrogate_def isLowSurrogate_def)
qed

lemma wellPaired_plain: "\<forall>u \<in> set s. \<not> isHighSurrogate u \<and> \<not> isLowSurrogate u \<Longrightarrow> wellPaired (s @ t) = wellPaired t"
proof (induction s)
  case (Cons a s)
  then show ?case by (cases "s @ t") auto
qed simp

lemma wellPaired_unit: "\<not> isHighSurrogate u \<Longrightarrow> \<not> isLowSurrogate u \<Longrightarrow> wellPaired (u # t) = wellPaired t"
  using wellPaired_plain [of "[u]" t] by simp

lemma wellPaired_quoteUnits: "wellPaired (quoteUnits s @ t) = wellPaired t"
proof (induction s rule: quoteUnits.induct)
  case (2 a)
  then show ?case using quoteUnit_plain by (simp add: wellPaired_plain)
next
  case (3 a b r)
  show ?case
  proof (cases "isHighSurrogate a \<and> isLowSurrogate b")
    case True
    with 3 show ?thesis by simp
  next
    case False
    then have "quoteUnits (a # b # r) @ t = quoteUnit a @ (quoteUnits (b # r) @ t)" by auto
    moreover have "wellPaired (quoteUnit a @ (quoteUnits (b # r) @ t)) = wellPaired (quoteUnits (b # r) @ t)"
      by (rule wellPaired_plain) (use quoteUnit_plain in blast)
    ultimately show ?thesis using 3(2) [OF False] by simp
  qed
qed simp

lemma wellPaired_quoteJson: "wellPaired (quoteJson s @ t) = wellPaired t"
  by (simp add: quoteJson_def wellPaired_unit wellPaired_quoteUnits isHighSurrogate_def isLowSurrogate_def)

lemma wellPaired_stringify: "wellPaired (stringifyStrings xs)"
proof -
  have "wellPaired (join [44] (map quoteJson ys) @ t) = wellPaired t" for ys t
    by (induction "[44::nat]" ys rule: join.induct)
       (simp_all add: wellPaired_quoteJson wellPaired_unit isHighSurrogate_def isLowSurrogate_def)
  then show ?thesis
    by (simp add: stringifyStrings_def wellPaired_unit isHighSurrogate_def isLowSurrogate_def)
qed

lemma utf8_inj:
  assumes "wf16 a" "wellPaired a" "wf16 b" "wellPaired b"
  shows "utf8 a = utf8 b \<longleftrightarrow> a = b"
proof
  assume "utf8 a = utf8 b"
  then have "decodeCps (encodeCps (codePoints a)) = decodeCps (encodeCps (codePoints b))" by (simp add: utf8_def)
  then have "codePoints a = codePoints b"
    using scalar_codePoints [OF assms(1)] scalar_codePoints [OF assms(3)] by (simp add: decodeCps_encodeCps)
  with toUnits_codePoints [OF assms(1,2)] toUnits_codePoints [OF assms(3,4)] show "a = b" by metis
qed simp

lemma toHex_inj: "octets a \<Longrightarrow> octets b \<Longrightarrow> toHex a = toHex b \<longleftrightarrow> a = b"
  by (metis fromHex_toHex)

end
