(* ===== verification/Fingerprint.thy ===== *)
theory Fingerprint
  imports Normalize JsonText IssueLifecycle
begin

text \<open>
  Issue descriptors and fingerprints (\<open>packages/db/src/domain/fingerprint.ts\<close>) and the choice of
  mapped frames (\<open>apps/worker/src/symbolication/fingerprint-frames.ts\<close>). SHA-256, the upper case
  of a text and the payload parsers of the telemetry contract (zod) are parameters. The lemmas show
  that a fingerprint stands for a project and a list of components.
\<close>

subsection \<open>Payloads\<close>

record ExceptionValue =
  ex_type :: jstr
  ex_value :: jstr
  ex_frames :: "NormalizableStackFrame list option"

record ExceptionEventPayload =
  xp_values :: "ExceptionValue list"
  xp_fingerprint :: "jstr list option"

record NetworkEventPayload =
  np_url :: jstr
  np_method :: jstr
  np_status_code :: "nat option"
  np_failure_type :: "jstr option"

datatype MessageLevel = lvl_debug | lvl_info | lvl_warning | lvl_error | lvl_critical

definition levelText :: "MessageLevel \<Rightarrow> jstr" where
  "levelText l = (case l of lvl_debug \<Rightarrow> js ''debug'' | lvl_info \<Rightarrow> js ''info'' | lvl_warning \<Rightarrow> js ''warning''
     | lvl_error \<Rightarrow> js ''error'' | lvl_critical \<Rightarrow> js ''critical'')"

text \<open>The parsers: \<open>None\<close> where \<open>safeParse\<close> fails.\<close>

record 'p groupingEnv =
  ge_sha256 :: "nat list \<Rightarrow> nat list"
  ge_toUpper :: "jstr \<Rightarrow> jstr"
  ge_exception :: "'p \<Rightarrow> ExceptionEventPayload option"
  ge_rejection :: "'p \<Rightarrow> jstr option"
  ge_console :: "'p \<Rightarrow> jstr list option"
  ge_network :: "'p \<Rightarrow> NetworkEventPayload option"
  ge_message :: "'p \<Rightarrow> (jstr \<times> MessageLevel) option"

subsection \<open>Signatures and hashes\<close>

definition CUSTOM_FINGERPRINT_MAX_ITEMS :: nat where "CUSTOM_FINGERPRINT_MAX_ITEMS = 5"
definition CUSTOM_FINGERPRINT_MAX_ITEM_LENGTH :: nat where "CUSTOM_FINGERPRINT_MAX_ITEM_LENGTH = 256"
definition TITLE_MAX_LENGTH :: nat where "TITLE_MAX_LENGTH = 200"
definition NORMALIZED_MESSAGE_MAX_LENGTH :: nat where "NORMALIZED_MESSAGE_MAX_LENGTH = 1000"

definition buildFingerprintSignature :: "jstr list \<Rightarrow> jstr" where
  "buildFingerprintSignature components =
     stringifyStrings (map (\<lambda>c. capText c NORMALIZED_MESSAGE_MAX_LENGTH) components)"

definition hashFingerprint :: "(nat list \<Rightarrow> nat list) \<Rightarrow> jstr \<Rightarrow> jstr \<Rightarrow> jstr" where
  "hashFingerprint sha256 projectId signature = toHex (sha256 (utf8 (projectId @ [58] @ signature)))"

text \<open>The loop: an entry is kept when it is not blank, and the limit is checked after each one kept.\<close>

fun cleanCustom :: "jstr list \<Rightarrow> jstr list \<Rightarrow> jstr list" where
  "cleanCustom cleaned [] = cleaned"
| "cleanCustom cleaned (v # vs) =
     (let trimmed = trim (collapseWs v)
      in if trimmed = [] then cleanCustom cleaned vs
         else let cleaned' = cleaned @ [capText trimmed CUSTOM_FINGERPRINT_MAX_ITEM_LENGTH]
              in if CUSTOM_FINGERPRINT_MAX_ITEMS \<le> length cleaned' then cleaned' else cleanCustom cleaned' vs)"

definition normalizeCustomFingerprint :: "jstr list option \<Rightarrow> jstr list" where
  "normalizeCustomFingerprint vs = (case vs of None \<Rightarrow> [] | Some xs \<Rightarrow> cleanCustom [] xs)"

subsection \<open>Plans\<close>

record 'p DeriveEventInput =
  di_projectId :: jstr
  di_eventType :: jstr
  di_payload :: 'p
  di_mappedFrames :: "NormalizableStackFrame list option"

definition malformed_payload :: jstr where "malformed_payload = js ''malformed_payload''"
definition unsupported_event_type :: jstr where "unsupported_event_type = js ''unsupported_event_type''"

definition parsePayload :: "('p \<Rightarrow> 'a option) \<Rightarrow> 'p \<Rightarrow> planError + 'a" where
  "parsePayload schema payload =
     (case schema payload of None \<Rightarrow> Inl (StoredEventPayloadError malformed_payload) | Some x \<Rightarrow> Inr x)"

definition buildDescriptor ::
    "'p groupingEnv \<Rightarrow> 'p DeriveEventInput \<Rightarrow> IssueType \<Rightarrow> jstr \<Rightarrow> jstr \<Rightarrow> IssueSeverity \<Rightarrow> jstr \<Rightarrow> Grouping \<Rightarrow> IssueDescriptor" where
  "buildDescriptor env input ty title message severity signature grouping =
     \<lparr>de_type = ty, de_title = title, de_message = message, de_severity = severity, de_signature = signature,
      de_fingerprint = hashFingerprint (ge_sha256 env) (di_projectId input) signature, de_grouping = grouping\<rparr>"

definition selectExceptionFingerprintFrames ::
    "NormalizableStackFrame list \<Rightarrow> NormalizableStackFrame list option \<Rightarrow> NormalizableStackFrame list" where
  "selectExceptionFingerprintFrames rawFrames mappedFrames =
     (case mappedFrames of None \<Rightarrow> rawFrames
      | Some fs \<Rightarrow>
          if fs = [] then rawFrames
          else if list_ex (\<lambda>f. fr_in_app f = Some True \<and> normalizeStackFrame f \<noteq> None) fs then fs else rawFrames)"

definition deriveException :: "'p groupingEnv \<Rightarrow> 'p DeriveEventInput \<Rightarrow> planError + EventProcessingPlan" where
  "deriveException env input =
     bindE (parsePayload (ge_exception env) (di_payload input)) (\<lambda>payload.
       case xp_values payload of
         [] \<Rightarrow> Inl (StoredEventPayloadError malformed_payload)
       | primary # _ \<Rightarrow>
           let exceptionClass = (if trim (ex_type primary) = [] then js ''Error'' else trim (ex_type primary));
               message = normalizeMessage (ex_value primary);
               rawFrames = (case ex_frames primary of None \<Rightarrow> [] | Some fs \<Rightarrow> fs);
               frames = selectTopFrames 5 (selectExceptionFingerprintFrames rawFrames (di_mappedFrames input));
               custom = normalizeCustomFingerprint (xp_fingerprint payload);
               components = (if custom \<noteq> [] then js ''custom'' # custom
                             else [js ''exception'', exceptionClass, message] @ map formatStackFrame frames)
           in Inr (PlanIssue (buildDescriptor env input type_exception
                (capText (exceptionClass @ js '': '' @ message) TITLE_MAX_LENGTH)
                (capText message NORMALIZED_MESSAGE_MAX_LENGTH) sev_error
                (buildFingerprintSignature components)
                (if custom \<noteq> [] then GroupCustom else GroupAutomatic))))"

definition deriveUnhandledRejection :: "'p groupingEnv \<Rightarrow> 'p DeriveEventInput \<Rightarrow> planError + EventProcessingPlan" where
  "deriveUnhandledRejection env input =
     bindE (parsePayload (ge_rejection env) (di_payload input)) (\<lambda>payload_reason.
       let reason = normalizeMessage payload_reason;
           message = (if reason = [] then js ''(no reason)'' else reason)
       in Inr (PlanIssue (buildDescriptor env input type_unhandled_rejection
            (capText (js ''Unhandled rejection: '' @ message) TITLE_MAX_LENGTH)
            (capText message NORMALIZED_MESSAGE_MAX_LENGTH) sev_error
            (buildFingerprintSignature [js ''unhandled_rejection'', message]) GroupAutomatic)))"

definition deriveConsoleError :: "'p groupingEnv \<Rightarrow> 'p DeriveEventInput \<Rightarrow> planError + EventProcessingPlan" where
  "deriveConsoleError env input =
     bindE (parsePayload (ge_console env) (di_payload input)) (\<lambda>args.
       let text = normalizeMessage (join [32] args);
           message = (if text = [] then js ''(empty console error)'' else text)
       in Inr (PlanIssue (buildDescriptor env input type_console_error
            (capText (js ''Console error: '' @ message) TITLE_MAX_LENGTH)
            (capText message NORMALIZED_MESSAGE_MAX_LENGTH) sev_error
            (buildFingerprintSignature [js ''console_error'', message]) GroupAutomatic)))"

definition deriveNetwork :: "'p groupingEnv \<Rightarrow> 'p DeriveEventInput \<Rightarrow> planError + EventProcessingPlan" where
  "deriveNetwork env input =
     bindE (parsePayload (ge_network env) (di_payload input)) (\<lambda>payload.
       let method = ge_toUpper env (trim (np_method payload));
           normalizedMethod = (if method = [] then js ''GET'' else method);
           path = normalizePath (np_url payload);
           statusCode = np_status_code payload;
           failureType = np_failure_type payload;
           isFailure = (statusCode = None \<or> statusCode = Some 0 \<or> (\<exists>n \<in> set_option statusCode. 400 \<le> n) \<or> failureType \<noteq> None)
       in if \<not> isFailure then Inr PlanNonIssue
          else let statusLabel = (case statusCode of
                     Some n \<Rightarrow> if 0 < n then showNat n else (case failureType of None \<Rightarrow> js ''failed'' | Some t \<Rightarrow> t)
                   | None \<Rightarrow> (case failureType of None \<Rightarrow> js ''failed'' | Some t \<Rightarrow> t));
                   message = normalizedMethod @ [32] @ path @ [32, 8594, 32] @ statusLabel
               in Inr (PlanIssue (buildDescriptor env input type_network
                    (capText message TITLE_MAX_LENGTH) (capText message NORMALIZED_MESSAGE_MAX_LENGTH) sev_error
                    (buildFingerprintSignature [js ''network'', normalizedMethod, path, statusLabel]) GroupAutomatic)))"

definition deriveMessageEvent :: "'p groupingEnv \<Rightarrow> 'p DeriveEventInput \<Rightarrow> planError + EventProcessingPlan" where
  "deriveMessageEvent env input =
     bindE (parsePayload (ge_message env) (di_payload input)) (\<lambda>(payload_message, level).
       if level \<noteq> lvl_warning \<and> level \<noteq> lvl_error \<and> level \<noteq> lvl_critical then Inr PlanNonIssue
       else let text = normalizeMessage payload_message;
                message = (if text = [] then js ''(empty message)'' else text);
                severity = (if level = lvl_warning then sev_warning else sev_error);
                prefix = (if level = lvl_warning then js ''Warning'' else js ''Error'')
            in Inr (PlanIssue (buildDescriptor env input type_message
                 (capText (prefix @ js '': '' @ message) TITLE_MAX_LENGTH)
                 (capText message NORMALIZED_MESSAGE_MAX_LENGTH) severity
                 (buildFingerprintSignature [js ''message'', levelText level, message]) GroupAutomatic)))"

definition NON_ISSUE_EVENT_TYPES :: "jstr list" where
  "NON_ISSUE_EVENT_TYPES = [js ''navigation'', js ''click'', js ''input'', js ''custom_breadcrumb'', js ''sdk'']"

definition derivePlan :: "'p groupingEnv \<Rightarrow> 'p DeriveEventInput \<Rightarrow> planError + EventProcessingPlan" where
  "derivePlan env input =
     (let t = di_eventType input
      in if t = js ''exception'' then deriveException env input
         else if t = js ''unhandled_rejection'' then deriveUnhandledRejection env input
         else if t = js ''console_error'' then deriveConsoleError env input
         else if t = js ''network'' then deriveNetwork env input
         else if t = js ''message'' then deriveMessageEvent env input
         else if t \<in> set NON_ISSUE_EVENT_TYPES then Inr PlanNonIssue
         else Inl (StoredEventPayloadError unsupported_event_type))"

subsection \<open>What a fingerprint stands for\<close>

lemma signature_inj:
  "buildFingerprintSignature a = buildFingerprintSignature b \<longleftrightarrow>
     map (\<lambda>c. capText c NORMALIZED_MESSAGE_MAX_LENGTH) a = map (\<lambda>c. capText c NORMALIZED_MESSAGE_MAX_LENGTH) b"
  by (simp add: buildFingerprintSignature_def stringifyStrings_inj)

text \<open>A plan with a descriptor: the parts of the descriptor the group is made of.\<close>

definition tags :: "(IssueType \<times> Grouping) \<Rightarrow> jstr" where
  "tags tg = (case tg of (type_exception, GroupCustom) \<Rightarrow> js ''custom''
     | (type_exception, _) \<Rightarrow> js ''exception'' | (type_unhandled_rejection, _) \<Rightarrow> js ''unhandled_rejection''
     | (type_console_error, _) \<Rightarrow> js ''console_error'' | (type_network, _) \<Rightarrow> js ''network''
     | (type_message, _) \<Rightarrow> js ''message'')"

definition describes :: "'p groupingEnv \<Rightarrow> 'p DeriveEventInput \<Rightarrow> IssueDescriptor \<Rightarrow> jstr list \<Rightarrow> bool" where
  "describes env input d cs \<longleftrightarrow>
     de_signature d = buildFingerprintSignature (tags (de_type d, de_grouping d) # cs)
     \<and> de_fingerprint d = hashFingerprint (ge_sha256 env) (di_projectId input) (de_signature d)
     \<and> (de_grouping d = GroupCustom \<longrightarrow> de_type d = type_exception)
     \<and> length (de_title d) \<le> TITLE_MAX_LENGTH \<and> length (de_message d) \<le> NORMALIZED_MESSAGE_MAX_LENGTH
     \<and> stripControlCharacters (de_title d) = de_title d \<and> stripControlCharacters (de_message d) = de_message d"

lemma describesI:
  assumes "d = buildDescriptor env input ty (capText t TITLE_MAX_LENGTH) (capText m NORMALIZED_MESSAGE_MAX_LENGTH) sev
      (buildFingerprintSignature (tags (ty, g) # cs)) g" "g = GroupCustom \<Longrightarrow> ty = type_exception"
  shows "describes env input d cs"
  using assms by (simp add: describes_def buildDescriptor_def capText_bounds)

lemma parsePayload_Inr: "parsePayload f p = Inr x \<longleftrightarrow> f p = Some x"
  by (auto simp: parsePayload_def split: option.split)

lemma exception_describes:
  assumes "deriveException env input = Inr (PlanIssue d)"
  shows "\<exists>cs. describes env input d cs \<and> (\<exists>p v vs. ge_exception env (di_payload input) = Some p \<and> xp_values p = v # vs
    \<and> de_type d = type_exception
    \<and> (de_grouping d = GroupCustom \<longleftrightarrow> normalizeCustomFingerprint (xp_fingerprint p) \<noteq> [])
    \<and> cs = (if normalizeCustomFingerprint (xp_fingerprint p) \<noteq> [] then normalizeCustomFingerprint (xp_fingerprint p)
            else [if trim (ex_type v) = [] then js ''Error'' else trim (ex_type v), normalizeMessage (ex_value v)]
              @ map formatStackFrame (selectTopFrames 5 (selectExceptionFingerprintFrames
                  (case ex_frames v of None \<Rightarrow> [] | Some fs \<Rightarrow> fs) (di_mappedFrames input)))))"
proof -
  from assms obtain p v vs where p: "ge_exception env (di_payload input) = Some p" "xp_values p = v # vs"
    by (cases "ge_exception env (di_payload input)"; cases "xp_values (the (ge_exception env (di_payload input)))")
       (simp_all add: deriveException_def parsePayload_def)
  show ?thesis
  proof (cases "normalizeCustomFingerprint (xp_fingerprint p) = []")
    case True
    with assms p show ?thesis
      by (auto simp: deriveException_def parsePayload_def Let_def tags_def buildDescriptor_def describes_def capText_bounds)
  next
    case False
    with assms p show ?thesis
      by (auto simp: deriveException_def parsePayload_def Let_def tags_def buildDescriptor_def describes_def capText_bounds)
  qed
qed

lemma plan_describes:
  assumes "derivePlan env input = Inr (PlanIssue d)"
  shows "\<exists>cs. describes env input d cs"
proof -
  have tag: "js ''unhandled_rejection'' = tags (type_unhandled_rejection, GroupAutomatic)"
    "js ''console_error'' = tags (type_console_error, GroupAutomatic)"
    "js ''network'' = tags (type_network, GroupAutomatic)" "js ''message'' = tags (type_message, GroupAutomatic)"
    by (simp_all add: tags_def)
  consider "deriveException env input = Inr (PlanIssue d)" | "deriveUnhandledRejection env input = Inr (PlanIssue d)"
    | "deriveConsoleError env input = Inr (PlanIssue d)" | "deriveNetwork env input = Inr (PlanIssue d)"
    | "deriveMessageEvent env input = Inr (PlanIssue d)"
    using assms by (auto simp: derivePlan_def Let_def split: if_splits)
  then show ?thesis
  proof cases
    case 1
    then show ?thesis using exception_describes by blast
  next
    case 2
    then obtain r where "ge_rejection env (di_payload input) = Some r"
      by (cases "ge_rejection env (di_payload input)") (simp_all add: deriveUnhandledRejection_def parsePayload_def)
    with 2 show ?thesis
      by (auto simp: deriveUnhandledRejection_def parsePayload_def Let_def tag buildDescriptor_def describes_def capText_bounds)
  next
    case 3
    then obtain r where "ge_console env (di_payload input) = Some r"
      by (cases "ge_console env (di_payload input)") (simp_all add: deriveConsoleError_def parsePayload_def)
    with 3 show ?thesis
      by (auto simp: deriveConsoleError_def parsePayload_def Let_def tag buildDescriptor_def describes_def capText_bounds)
  next
    case 4
    then obtain r where "ge_network env (di_payload input) = Some r"
      by (cases "ge_network env (di_payload input)") (simp_all add: deriveNetwork_def parsePayload_def)
    with 4 obtain m t l where "d = buildDescriptor env input type_network (capText t TITLE_MAX_LENGTH)
        (capText m NORMALIZED_MESSAGE_MAX_LENGTH) sev_error (buildFingerprintSignature (js ''network'' # l)) GroupAutomatic"
      by (fastforce simp: deriveNetwork_def parsePayload_def Let_def split: if_splits)
    then show ?thesis using describesI [of d env input type_network t m sev_error GroupAutomatic l] by (auto simp: tag)
  next
    case 5
    then obtain r l where "ge_message env (di_payload input) = Some (r, l)"
      by (cases "ge_message env (di_payload input)") (auto simp: deriveMessageEvent_def parsePayload_def)
    with 5 obtain m t sev l where "d = buildDescriptor env input type_message (capText t TITLE_MAX_LENGTH)
        (capText m NORMALIZED_MESSAGE_MAX_LENGTH) sev (buildFingerprintSignature (js ''message'' # l)) GroupAutomatic"
      by (fastforce simp: deriveMessageEvent_def parsePayload_def Let_def split: if_splits)
    then show ?thesis using describesI [of d env input type_message t m sev GroupAutomatic l] by (auto simp: tag)
  qed
qed

lemma cap_tag: "capText (tags tg) NORMALIZED_MESSAGE_MAX_LENGTH = tags tg"
  by (rule capText_fits)
     (auto simp: tags_def js_eval stripControlCharacters_def NORMALIZED_MESSAGE_MAX_LENGTH_def split: IssueType.split Grouping.split prod.split)

lemma tags_inj:
  "(g = GroupCustom \<longrightarrow> t = type_exception) \<Longrightarrow> (g' = GroupCustom \<longrightarrow> t' = type_exception)
   \<Longrightarrow> tags (t, g) = tags (t', g') \<longleftrightarrow> t = t' \<and> g = g'"
  by (cases t; cases t'; cases g; cases g') (simp_all add: tags_def js_eval)

abbreviation capped :: "jstr list \<Rightarrow> jstr list" where
  "capped \<equiv> map (\<lambda>c. capText c NORMALIZED_MESSAGE_MAX_LENGTH)"

lemma signature_eq:
  assumes "describes env i d cs" "describes env' i' d' cs'"
  shows "de_signature d = de_signature d' \<longleftrightarrow>
    de_type d = de_type d' \<and> de_grouping d = de_grouping d' \<and> capped cs = capped cs'"
  using assms by (auto simp: describes_def signature_inj cap_tag tags_inj)

text \<open>The text that is hashed, and the project ids that keep it readable.\<close>

definition hashedText :: "'p DeriveEventInput \<Rightarrow> IssueDescriptor \<Rightarrow> nat list" where
  "hashedText input d = utf8 (di_projectId input @ [58] @ de_signature d)"

definition plainId :: "jstr \<Rightarrow> bool" where "plainId p \<longleftrightarrow> list_all (\<lambda>c. c < 128 \<and> c \<noteq> 58) p"

lemma cut_at_first: "x \<notin> set a \<Longrightarrow> x \<notin> set b \<Longrightarrow> a @ x # s = b @ x # t \<longleftrightarrow> a = b \<and> s = t"
proof (induction a arbitrary: b)
  case Nil
  then show ?case by (cases b) auto
next
  case (Cons y a)
  then show ?case by (cases b) auto
qed

lemma hashedText_inj:
  assumes "describes env i d cs" "describes env' i' d' cs'" "wf16 (de_signature d)" "wf16 (de_signature d')"
    and "plainId (di_projectId i)" "plainId (di_projectId i')"
  shows "hashedText i d = hashedText i' d' \<longleftrightarrow> di_projectId i = di_projectId i' \<and> de_signature d = de_signature d'"
proof -
  have ok: "wf16 (di_projectId i @ [58] @ de_signature d)" "wellPaired (di_projectId i @ [58] @ de_signature d)"
    if "describes env i d cs" "wf16 (de_signature d)" "plainId (di_projectId i)" for env :: "'z groupingEnv" and i d cs
  proof -
    have p: "\<forall>u \<in> set (di_projectId i @ [58]). \<not> isHighSurrogate u \<and> \<not> isLowSurrogate u" "wf16 (di_projectId i)"
      using that(3) by (auto simp: plainId_def list_all_iff isHighSurrogate_def isLowSurrogate_def wf16_def)
    then show "wf16 (di_projectId i @ [58] @ de_signature d)" using that(2) by (auto simp: wf16_def)
    have "wellPaired (de_signature d)"
      using that(1) wellPaired_stringify by (simp add: describes_def buildFingerprintSignature_def)
    with wellPaired_plain [OF p(1), of "de_signature d"] show "wellPaired (di_projectId i @ [58] @ de_signature d)" by simp
  qed
  have colon: "58 \<notin> set (di_projectId i)" "58 \<notin> set (di_projectId i')"
    using assms(5,6) by (auto simp: plainId_def list_all_iff)
  have "hashedText i d = hashedText i' d' \<longleftrightarrow> di_projectId i @ 58 # de_signature d = di_projectId i' @ 58 # de_signature d'"
    unfolding hashedText_def
    using utf8_inj [OF ok [OF assms(1,3,5)] ok [OF assms(2,4,6)]] by simp
  also have "\<dots> \<longleftrightarrow> di_projectId i = di_projectId i' \<and> de_signature d = de_signature d'"
    by (rule cut_at_first [OF colon])
  finally show ?thesis .
qed

lemma fingerprint_eq:
  assumes "describes env i d cs" "describes env i' d' cs'"
    and "\<And>bs. octets (ge_sha256 env bs)" "inj_on (ge_sha256 env) {hashedText i d, hashedText i' d'}"
    and "wf16 (de_signature d)" "wf16 (de_signature d')" "plainId (di_projectId i)" "plainId (di_projectId i')"
  shows "de_fingerprint d = de_fingerprint d' \<longleftrightarrow> di_projectId i = di_projectId i' \<and> de_signature d = de_signature d'"
proof -
  have "de_fingerprint d = toHex (ge_sha256 env (hashedText i d))" "de_fingerprint d' = toHex (ge_sha256 env (hashedText i' d'))"
    using assms(1,2) by (simp_all add: describes_def hashFingerprint_def hashedText_def)
  then have "de_fingerprint d = de_fingerprint d' \<longleftrightarrow> hashedText i d = hashedText i' d'"
    using toHex_inj [OF assms(3,3)] inj_on_eq_iff [OF assms(4)] by simp
  with hashedText_inj [OF assms(1,2,5-8)] show ?thesis by simp
qed

text \<open>
  C10: while SHA-256 does not collide on the two texts hashed, two issue descriptors carry the same
  fingerprint exactly when they belong to the same project and have the same signature; equal
  signatures mean the same event type and the same kind of grouping, so no issue ever mixes event
  types or projects, nor a developer's key with an automatic one.
\<close>

theorem fingerprint_identifies_project_and_signature:
  assumes "derivePlan env i = Inr (PlanIssue d)" "derivePlan env i' = Inr (PlanIssue d')"
    and "\<And>bs. octets (ge_sha256 env bs)" "inj_on (ge_sha256 env) {hashedText i d, hashedText i' d'}"
    and "wf16 (de_signature d)" "wf16 (de_signature d')" "plainId (di_projectId i)" "plainId (di_projectId i')"
  shows "(de_fingerprint d = de_fingerprint d' \<longleftrightarrow> di_projectId i = di_projectId i' \<and> de_signature d = de_signature d')
    \<and> (de_signature d = de_signature d' \<longrightarrow> de_type d = de_type d' \<and> de_grouping d = de_grouping d')"
proof -
  from plan_describes [OF assms(1)] plan_describes [OF assms(2)] obtain cs cs'
    where D: "describes env i d cs" "describes env i' d' cs'" by blast
  from fingerprint_eq [OF D assms(3-8)] signature_eq [OF D] show ?thesis by blast
qed

text \<open>
  C20: two exceptions of a project: a developer's fingerprint decides alone, whatever message,
  class, stack or mapped frames say, and never meets an automatic group; without one the group is
  the class, the normalized message and the selected frames, each cut at 1000 units.
\<close>

theorem exceptions_group_by_custom_key_or_content:
  assumes "deriveException env i = Inr (PlanIssue d)" "deriveException env i' = Inr (PlanIssue d')"
    and "ge_exception env (di_payload i) = Some p" "xp_values p = v # vs"
    and "ge_exception env (di_payload i') = Some p'" "xp_values p' = v' # vs'"
    and "c = normalizeCustomFingerprint (xp_fingerprint p)" "c' = normalizeCustomFingerprint (xp_fingerprint p')"
  shows "de_signature d = de_signature d' \<longleftrightarrow>
    (if c \<noteq> [] \<or> c' \<noteq> [] then capped c = capped c'
     else capped [if trim (ex_type v) = [] then js ''Error'' else trim (ex_type v), normalizeMessage (ex_value v)]
            = capped [if trim (ex_type v') = [] then js ''Error'' else trim (ex_type v'), normalizeMessage (ex_value v')]
          \<and> capped (map formatStackFrame (selectTopFrames 5 (selectExceptionFingerprintFrames
              (case ex_frames v of None \<Rightarrow> [] | Some fs \<Rightarrow> fs) (di_mappedFrames i))))
            = capped (map formatStackFrame (selectTopFrames 5 (selectExceptionFingerprintFrames
              (case ex_frames v' of None \<Rightarrow> [] | Some fs \<Rightarrow> fs) (di_mappedFrames i')))))"
proof -
  from exception_describes [OF assms(1)] assms(3,4,7) obtain cs where
    D: "describes env i d cs" "de_type d = type_exception" "de_grouping d = GroupCustom \<longleftrightarrow> c \<noteq> []"
    "cs = (if c \<noteq> [] then c else [if trim (ex_type v) = [] then js ''Error'' else trim (ex_type v), normalizeMessage (ex_value v)]
      @ map formatStackFrame (selectTopFrames 5 (selectExceptionFingerprintFrames
          (case ex_frames v of None \<Rightarrow> [] | Some fs \<Rightarrow> fs) (di_mappedFrames i))))"
    by auto
  from exception_describes [OF assms(2)] assms(5,6,8) obtain cs' where
    D': "describes env i' d' cs'" "de_type d' = type_exception" "de_grouping d' = GroupCustom \<longleftrightarrow> c' \<noteq> []"
    "cs' = (if c' \<noteq> [] then c' else [if trim (ex_type v') = [] then js ''Error'' else trim (ex_type v'), normalizeMessage (ex_value v')]
      @ map formatStackFrame (selectTopFrames 5 (selectExceptionFingerprintFrames
          (case ex_frames v' of None \<Rightarrow> [] | Some fs \<Rightarrow> fs) (di_mappedFrames i'))))"
    by auto
  have g: "de_grouping d = de_grouping d' \<longleftrightarrow> (c \<noteq> [] \<longleftrightarrow> c' \<noteq> [])"
    using D(3) D'(3) by (cases "de_grouping d"; cases "de_grouping d'") auto
  show ?thesis
    unfolding signature_eq [OF D(1) D'(1)] g D(2) D'(2) D(4) D'(4) by (cases "c = []"; cases "c' = []") auto
qed

subsection \<open>Witnesses\<close>

definition exampleEnv :: "ExceptionEventPayload groupingEnv" where
  "exampleEnv = \<lparr>ge_sha256 = map (\<lambda>b. b mod 256), ge_toUpper = id, ge_exception = Some, ge_rejection = (\<lambda>_. None),
     ge_console = (\<lambda>_. None), ge_network = (\<lambda>_. None), ge_message = (\<lambda>_. None)\<rparr>"

definition exampleInput :: "string \<Rightarrow> string \<Rightarrow> ExceptionEventPayload DeriveEventInput" where
  "exampleInput p m = \<lparr>di_projectId = js p, di_eventType = js ''exception'',
     di_payload = \<lparr>xp_values = [\<lparr>ex_type = js ''Error'', ex_value = js m, ex_frames = None\<rparr>],
       xp_fingerprint = Some [js ''pay'']\<rparr>, di_mappedFrames = None\<rparr>"

definition exampleDescriptor :: "string \<Rightarrow> string \<Rightarrow> IssueDescriptor" where
  "exampleDescriptor p m = (case deriveException exampleEnv (exampleInput p m) of Inr (PlanIssue d) \<Rightarrow> d)"

lemma example_fits: "length s \<le> n \<Longrightarrow> list_all (\<lambda>c. 32 < c \<and> c < 127) s \<Longrightarrow> capText s n = s"
  by (rule capText_fits) (auto simp: stripControlCharacters_def list_all_iff filter_id_conv)

lemma example_custom: "normalizeCustomFingerprint (Some [js ''pay'']) = [js ''pay'']"
  by (simp add: normalizeCustomFingerprint_def js_eval isWs_def trim_def trimStart_def trimEnd_def example_fits
    CUSTOM_FINGERPRINT_MAX_ITEM_LENGTH_def CUSTOM_FINGERPRINT_MAX_ITEMS_def)

lemma example_exception: "deriveException exampleEnv (exampleInput p m) = Inr (PlanIssue (exampleDescriptor p m))"
  by (simp add: exampleDescriptor_def deriveException_def parsePayload_def exampleEnv_def exampleInput_def Let_def)

lemma example_plan: "derivePlan exampleEnv (exampleInput p m) = Inr (PlanIssue (exampleDescriptor p m))"
  using example_exception by (simp add: derivePlan_def exampleInput_def)

lemma example_signature:
  "de_signature (exampleDescriptor p m) = [91, 34, 99, 117, 115, 116, 111, 109, 34, 44, 34, 112, 97, 121, 34, 93]"
proof -
  have "de_signature (exampleDescriptor p m) = buildFingerprintSignature [js ''custom'', js ''pay'']"
    by (simp add: exampleDescriptor_def deriveException_def parsePayload_def exampleEnv_def exampleInput_def Let_def
      example_custom buildDescriptor_def)
  also have "\<dots> = [91, 34, 99, 117, 115, 116, 111, 109, 34, 44, 34, 112, 97, 121, 34, 93]"
    by (simp add: buildFingerprintSignature_def stringifyStrings_def quoteJson_def js_eval example_fits
      NORMALIZED_MESSAGE_MAX_LENGTH_def quoteUnit_def isHighSurrogate_def isLowSurrogate_def)
  finally show ?thesis .
qed

lemma example_hashed:
  "hashedText (exampleInput p m) (exampleDescriptor p m) = utf8 (js p @ [58] @ de_signature (exampleDescriptor ''a'' ''b''))"
  by (simp add: hashedText_def example_signature exampleInput_def)

lemma fingerprint_identifies_project_and_signature_witness:
  "\<exists>d d'. derivePlan exampleEnv (exampleInput ''p'' ''one'') = Inr (PlanIssue d)
     \<and> derivePlan exampleEnv (exampleInput ''p'' ''two'') = Inr (PlanIssue d') \<and> de_fingerprint d = de_fingerprint d'"
proof -
  note T = fingerprint_identifies_project_and_signature
    [of exampleEnv "exampleInput ''p'' ''one''" "exampleDescriptor ''p'' ''one''" "exampleInput ''p'' ''two''" "exampleDescriptor ''p'' ''two''",
     OF example_plan example_plan]
  have "de_fingerprint (exampleDescriptor ''p'' ''one'') = de_fingerprint (exampleDescriptor ''p'' ''two'')"
  proof (rule iffD2 [OF conjunct1 [OF T]])
    show "octets (ge_sha256 exampleEnv bs)" for bs by (simp add: exampleEnv_def octets_def list_all_iff)
    show "inj_on (ge_sha256 exampleEnv) {hashedText (exampleInput ''p'' ''one'') (exampleDescriptor ''p'' ''one''),
        hashedText (exampleInput ''p'' ''two'') (exampleDescriptor ''p'' ''two'')}"
      by (simp add: example_hashed)
    show "wf16 (de_signature (exampleDescriptor ''p'' ''one''))" "wf16 (de_signature (exampleDescriptor ''p'' ''two''))"
      by (simp_all add: example_signature wf16_def)
    show "plainId (di_projectId (exampleInput ''p'' ''one''))" "plainId (di_projectId (exampleInput ''p'' ''two''))"
      by (simp_all add: exampleInput_def plainId_def js_eval)
    show "di_projectId (exampleInput ''p'' ''one'') = di_projectId (exampleInput ''p'' ''two'')
      \<and> de_signature (exampleDescriptor ''p'' ''one'') = de_signature (exampleDescriptor ''p'' ''two'')"
      by (simp add: exampleInput_def example_signature)
  qed
  then show ?thesis using example_plan by blast
qed

lemma exceptions_group_by_custom_key_or_content_witness:
  "de_signature (exampleDescriptor ''p'' ''one'') = de_signature (exampleDescriptor ''q'' ''two'')"
proof (rule iffD2 [OF exceptions_group_by_custom_key_or_content [OF example_exception example_exception]])
  show "ge_exception exampleEnv (di_payload (exampleInput ''p'' ''one'')) = Some (di_payload (exampleInput ''p'' ''one''))"
    "ge_exception exampleEnv (di_payload (exampleInput ''q'' ''two'')) = Some (di_payload (exampleInput ''q'' ''two''))"
    by (simp_all add: exampleEnv_def)
  show "xp_values (di_payload (exampleInput ''p'' ''one'')) = [\<lparr>ex_type = js ''Error'', ex_value = js ''one'', ex_frames = None\<rparr>]"
    "xp_values (di_payload (exampleInput ''q'' ''two'')) = [\<lparr>ex_type = js ''Error'', ex_value = js ''two'', ex_frames = None\<rparr>]"
    by (simp_all add: exampleInput_def)
qed (simp_all add: exampleInput_def example_custom, simp add: js_eval)

end
