(* ===== verification/Symbolicate.thy ===== *)
theory Symbolicate
  imports Fingerprint Releases
begin

text \<open>
  Stack symbolication in the worker (\<open>apps/worker/src/symbolication/\<close>). The trace-mapping library,
  the parser of \<open>JSON.parse\<close>, the database and the blob store are arguments; a database read may
  fail and a blob read may move the world. The lemmas say where a mapped frame comes from and
  what a run reads.
\<close>

subsection \<open>Columns\<close>

definition DISPLAY_TO_GENERATED_COLUMN_OFFSET :: int where "DISPLAY_TO_GENERATED_COLUMN_OFFSET = 1"

definition displayColumnToGenerated :: "int \<Rightarrow> int" where
  "displayColumnToGenerated displayColumn = max 0 (displayColumn - DISPLAY_TO_GENERATED_COLUMN_OFFSET)"

definition generatedColumnToDisplay :: "int \<Rightarrow> int" where
  "generatedColumnToDisplay generatedColumn = max 0 generatedColumn + 1"

lemma columns_roundtrip:
  "0 \<le> g \<Longrightarrow> displayColumnToGenerated (generatedColumnToDisplay g) = g"
  "1 \<le> d \<Longrightarrow> generatedColumnToDisplay (displayColumnToGenerated d) = d"
  by (simp_all add: displayColumnToGenerated_def generatedColumnToDisplay_def DISPLAY_TO_GENERATED_COLUMN_OFFSET_def)

subsection \<open>Generated URLs and map references\<close>

text \<open>\<open>/^[a-zA-Z][a-zA-Z0-9+.-]*:/\<close>, and what follows its match.\<close>

definition afterSchemeColon :: "jstr \<Rightarrow> jstr option" where
  "afterSchemeColon s =
     (case s of [] \<Rightarrow> None
      | c # r \<Rightarrow>
          let t = dropWhile isSchemeCharCode r
          in if isLetter c \<and> startsWith t [58] then Some (drop 1 t) else None)"

definition cutAt :: "nat \<Rightarrow> jstr \<Rightarrow> jstr" where "cutAt c s = takeWhile (\<lambda>x. x \<noteq> c) s"

text \<open>The part from the first slash on, if there is one.\<close>

definition pathOf :: "jstr \<Rightarrow> jstr option" where
  "pathOf s = (let t = dropWhile (\<lambda>c. c \<noteq> 47) s in if t = [] then None else Some t)"

definition DATA_OR_BLOB_PATTERN :: "jstr \<Rightarrow> bool" where
  "DATA_OR_BLOB_PATTERN s \<longleftrightarrow>
     (\<exists>p \<in> {js ''data:'', js ''blob:''}. map (\<lambda>c. if isUpper c then c + 32 else c) (take 5 s) = p)"

definition normalizeGeneratedUrl :: "jstr \<Rightarrow> jstr option" where
  "normalizeGeneratedUrl filename =
     (let v = trim filename
      in if v = [] then None
         else if DATA_OR_BLOB_PATTERN v then None
         else let v1 = trim (cutAt 63 (cutAt 35 v))
              in if v1 = [] then None
                 else case (if hasScheme v1 then (case afterSchemeColon v1 of None \<Rightarrow> None | Some r \<Rightarrow> pathOf (drop 2 r))
                            else if startsWith v1 [47, 47] then pathOf (drop 2 v1) else Some v1) of
                        None \<Rightarrow> None
                      | Some v2 \<Rightarrow>
                          let v3 = (if startsWith v2 [47] then drop 1 v2 else v2)
                          in if v3 = [] then None
                             else if 92 \<in> set v3 then None
                             else if list_ex (\<lambda>seg. seg = [] \<or> seg = [46] \<or> seg = [46, 46]) (split_on 47 v3) then None
                             else Some v3)"

definition isRemoteSourceMappingUrl :: "jstr \<Rightarrow> bool" where
  "isRemoteSourceMappingUrl v =
     (let trimmed = trim v
      in if trimmed = [] then False
         else if startsWith trimmed [47, 47] then True
         else afterSchemeColon trimmed \<noteq> None)"

text \<open>
  \<open>/sourceMappingURL\s*=\s*([^\s'"`)\\]+)/\<close> at the head of a text: the group and what follows. The
  classes on both sides of a repetition are disjoint, so giving back never helps.
\<close>

definition referenceUnit :: "nat \<Rightarrow> bool" where
  "referenceUnit c \<longleftrightarrow> \<not> isWs c \<and> c \<notin> {39, 34, 96, 41, 92}"

definition SOURCE_MAPPING_URL_PATTERN :: "jstr \<Rightarrow> (jstr \<times> jstr) option" where
  "SOURCE_MAPPING_URL_PATTERN s =
     (if startsWith s (js ''sourceMappingURL'')
      then let t = dropWhile isWs (drop 16 s)
           in case t of [] \<Rightarrow> None
              | e # r \<Rightarrow>
                  if e \<noteq> 61 then None
                  else let u = dropWhile isWs r; g = takeWhile referenceUnit u
                       in if g = [] then None else Some (g, dropWhile referenceUnit u)
      else None)"

lemma pattern_shorter: "SOURCE_MAPPING_URL_PATTERN s = Some (g, r) \<Longrightarrow> length r < length s"
proof -
  assume a: "SOURCE_MAPPING_URL_PATTERN s = Some (g, r)"
  then obtain e t where t: "dropWhile isWs (drop 16 s) = e # t" "r = dropWhile referenceUnit (dropWhile isWs t)"
    by (auto simp: SOURCE_MAPPING_URL_PATTERN_def Let_def split: if_splits list.splits)
  have "length r \<le> length t" unfolding t(2) by (meson le_trans length_dropWhile_le)
  moreover have "length (e # t) \<le> length s" unfolding t(1) [symmetric]
    by (metis diff_le_self dual_order.trans length_drop length_dropWhile_le)
  ultimately show ?thesis by simp
qed

function lastReference :: "jstr option \<Rightarrow> jstr \<Rightarrow> jstr option" where
  "lastReference acc s =
     (if s = [] then acc
      else case SOURCE_MAPPING_URL_PATTERN s of
             Some (raw, r) \<Rightarrow> lastReference (if trim raw \<noteq> [] then Some (trim raw) else acc) r
           | None \<Rightarrow> lastReference acc (tl s))"
  by pat_completeness auto

termination
  by (relation "measure (\<lambda>(acc, s). length s)") (auto dest: pattern_shorter)

declare lastReference.simps [simp del]

definition parseTrailingSourceMappingURL :: "jstr \<Rightarrow> jstr option" where
  "parseTrailingSourceMappingURL assetText = lastReference None assetText"

text \<open>\<open>path.posix.normalize\<close> of an absolute path.\<close>

definition posixNormalizeAbsolute :: "jstr \<Rightarrow> jstr" where
  "posixNormalizeAbsolute p =
     (let s = join [47] (walk [] p)
      in if s = [] then [47] else [47] @ s @ (if endsWith p [47] then [47] else []))"

fun staysInside :: "int \<Rightarrow> jstr list \<Rightarrow> bool" where
  "staysInside depth [] = True"
| "staysInside depth (seg # segs) =
     (if seg = [46, 46] then (if depth - 1 < 0 then False else staysInside (depth - 1) segs)
      else if seg \<noteq> [46] \<and> seg \<noteq> [] then staysInside (depth + 1) segs
      else staysInside depth segs)"

definition dirOf :: "jstr \<Rightarrow> jstr" where
  "dirOf p = (if 47 \<in> set p then rev (drop 1 (dropWhile (\<lambda>c. c \<noteq> 47) (rev p))) else [])"

definition resolveRelativeMapReference :: "jstr \<Rightarrow> jstr \<Rightarrow> jstr option" where
  "resolveRelativeMapReference fromArtifactPath reference =
     (if trim fromArtifactPath = [] then None
      else let trimmed = trim reference
           in if trimmed = [] then None
              else let clean = trim (cutAt 63 (cutAt 35 trimmed))
                   in if clean = [] then None
                      else if startsWith clean [47, 47] \<or> afterSchemeColon clean \<noteq> None then None
                      else if startsWith clean [47] then None
                      else if 92 \<in> set clean then None
                      else let fromDir = dirOf fromArtifactPath;
                               baseDepth = (if fromDir = [] then 0 else int (length (split_on 47 fromDir)))
                           in if \<not> staysInside baseDepth (split_on 47 clean) then None
                              else let joined = posixNormalizeAbsolute
                                         (if fromDir = [] then [47] @ clean else [47] @ fromDir @ [47] @ clean)
                                   in if joined = [47] \<or> joined = [47, 46, 46] \<or> startsWith joined [47, 46, 46, 47] then None
                                      else let candidate = drop 1 joined
                                           in if list_ex (\<lambda>seg. seg = [] \<or> seg = [46] \<or> seg = [46, 46]
                                                  \<or> endsWith seg [46] \<or> endsWith seg [32]) (split_on 47 candidate)
                                              then None else Some candidate)"

subsection \<open>Frames\<close>

record RawSymbolicationFrame =
  rf_filename :: jstr
  rf_function :: jstr
  rf_lineno :: int
  rf_colno :: int
  rf_inApp :: bool

record MappedSymbolicationFrame =
  mf_filename :: jstr
  mf_source :: jstr
  mf_function :: jstr
  mf_name :: "jstr option"
  mf_line :: int
  mf_column :: int
  mf_inApplication :: bool
  mf_mapped :: bool

datatype SymbolicationStatus =
  sym_mapped | sym_partially_mapped | sym_no_release | sym_release_not_found
  | sym_map_not_found | sym_invalid_map | sym_storage_unavailable

record SymbolicationResult =
  sr_status :: SymbolicationStatus
  sr_rawFrames :: "RawSymbolicationFrame list"
  sr_mappedFrames :: "MappedSymbolicationFrame list"
  sr_mappedFrameCount :: nat

definition unmappedFrame :: "RawSymbolicationFrame \<Rightarrow> MappedSymbolicationFrame" where
  "unmappedFrame raw =
     \<lparr>mf_filename = rf_filename raw, mf_source = rf_filename raw, mf_function = rf_function raw, mf_name = None,
      mf_line = rf_lineno raw, mf_column = rf_colno raw, mf_inApplication = rf_inApp raw, mf_mapped = False\<rparr>"

definition unmappedResult :: "SymbolicationStatus \<Rightarrow> RawSymbolicationFrame list \<Rightarrow> SymbolicationResult" where
  "unmappedResult status rawFrames =
     \<lparr>sr_status = status, sr_rawFrames = rawFrames, sr_mappedFrames = map unmappedFrame rawFrames, sr_mappedFrameCount = 0\<rparr>"

definition toNonNegativeInt :: "json option \<Rightarrow> int" where
  "toNonNegativeInt v = (case v of Some (JNum r) \<Rightarrow> max 0 \<lfloor>r\<rfloor> | _ \<Rightarrow> 0)"

definition stringOr :: "json option \<Rightarrow> jstr" where
  "stringOr v = (case v of Some (JStr s) \<Rightarrow> s | _ \<Rightarrow> [])"

definition valuesOf :: "json option \<Rightarrow> json list" where
  "valuesOf v = (case v of Some (JArr xs) \<Rightarrow> xs | _ \<Rightarrow> [])"

definition rawFrame :: "json \<Rightarrow> RawSymbolicationFrame list" where
  "rawFrame entry =
     (if \<not> typeofObject (Some entry) \<or> entry = JNull then []
      else [\<lparr>rf_filename = stringOr (getProp entry (js ''filename'')), rf_function = stringOr (getProp entry (js ''function'')),
             rf_lineno = toNonNegativeInt (getProp entry (js ''lineno'')), rf_colno = toNonNegativeInt (getProp entry (js ''colno'')),
             rf_inApp = (getProp entry (js ''in_app'') = Some (JBool True))\<rparr>])"

text \<open>A property of anything but a record is undefined, so it has no frames.\<close>

definition framesOfValue :: "json \<Rightarrow> RawSymbolicationFrame list" where
  "framesOfValue v =
     (case getProp v (js ''stacktrace'') of None \<Rightarrow> []
      | Some st \<Rightarrow> concat (map rawFrame (valuesOf (getProp st (js ''frames'')))))"

definition extractRawFrames :: "json \<Rightarrow> RawSymbolicationFrame list" where
  "extractRawFrames payload = concat (map framesOfValue (valuesOf (getProp payload (js ''values''))))"

subsection \<open>Bytes to text\<close>

text \<open>
  \<open>Buffer.toString("utf8")\<close>: well-formed sequences as they are, and one replacement character for
  every maximal part of one (the first byte, and the continuation bytes that still fit it).
\<close>

definition fitsSecond :: "nat \<Rightarrow> nat \<Rightarrow> bool" where
  "fitsSecond a b \<longleftrightarrow> cont b \<and> (a = 224 \<longrightarrow> 160 \<le> b) \<and> (a = 237 \<longrightarrow> b < 160) \<and> (a = 240 \<longrightarrow> 144 \<le> b) \<and> (a = 244 \<longrightarrow> b < 144)"

definition brokenLength :: "nat list \<Rightarrow> nat" where
  "brokenLength bs =
     (case bs of
        a # b # r \<Rightarrow>
          if 224 \<le> a \<and> a < 245 \<and> fitsSecond a b
          then (case r of c # _ \<Rightarrow> if 240 \<le> a \<and> cont c then 3 else 2 | [] \<Rightarrow> 2)
          else 1
      | _ \<Rightarrow> 1)"

lemma brokenLength_pos: "1 \<le> brokenLength bs"
  by (simp add: brokenLength_def split: list.split)

function lossyCps :: "nat list \<Rightarrow> nat list" where
  "lossyCps bs =
     (if bs = [] then []
      else case decode1 bs of
             Some (c, r) \<Rightarrow> c # lossyCps r
           | None \<Rightarrow> 65533 # lossyCps (drop (brokenLength bs) bs))"
  by pat_completeness auto

termination
proof (relation "measure length")
  show "(drop (brokenLength bs) bs, bs) \<in> measure length" if "bs \<noteq> []" for bs
  proof -
    have "0 < brokenLength bs" "0 < length bs" using brokenLength_pos [of bs] that by auto
    then show ?thesis by simp
  qed
qed (auto dest: decode1_shorter)

declare lossyCps.simps [simp del]

definition lossyText :: "nat list \<Rightarrow> jstr" where "lossyText bs = toUnits (lossyCps bs)"

lemma lossyCps_valid: "decodeCps bs = Some cs \<Longrightarrow> lossyCps bs = cs"
proof (induction bs arbitrary: cs rule: lossyCps.induct)
  case (1 bs)
  show ?case
  proof (cases "bs = []")
    case True
    with 1 show ?thesis by (simp add: lossyCps.simps)
  next
    case False
    with 1(3) obtain c r ds where d: "decode1 bs = Some (c, r)" "decodeCps r = Some ds" "cs = c # ds"
      by (subst (asm) decodeCps.simps) (auto split: option.splits)
    have "lossyCps bs = c # lossyCps r" using False d(1) by (subst lossyCps.simps) simp
    with 1(2) [OF False d(1) refl d(2)] d(3) show ?thesis by simp
  qed
qed

subsection \<open>Steps over the cache and the world\<close>

text \<open>A step reads and moves the map cache and the world; \<open>None\<close> is an exception that leaves the function.\<close>

definition bindS :: "('s \<Rightarrow> ('a \<times> 's) option) \<Rightarrow> ('a \<Rightarrow> 's \<Rightarrow> ('b \<times> 's) option) \<Rightarrow> 's \<Rightarrow> ('b \<times> 's) option" where
  "bindS m k s = (case m s of None \<Rightarrow> None | Some (x, s') \<Rightarrow> k x s')"

definition returnS :: "'a \<Rightarrow> 's \<Rightarrow> ('a \<times> 's) option" where "returnS x s = Some (x, s)"

definition throwS :: "'s \<Rightarrow> ('a \<times> 's) option" where "throwS s = None"

record 't LoadedMap =
  lm_artifactPath :: jstr
  lm_traceMap :: "'t option"
  lm_invalid :: bool

datatype 't loadResult = LoadUnavailable | LoadDone "'t LoadedMap"

datatype 't PathOutcome = PathMapped "'t LoadedMap" | PathMissing | PathInvalid | PathUnavailable

record OriginalPosition =
  op_source :: "jstr option"
  op_line :: "int option"
  op_column :: "int option"
  op_name :: "jstr option"

text \<open>
  The database as it answers in a world, the stream of a blob, \<open>JSON.parse\<close>, and the library:
  the constructor of \<open>TraceMap\<close>, its \<open>file\<close> when that is a string, and \<open>originalPositionFor\<close>. \<open>None\<close>
  is a throw.
\<close>

record ('w, 't) symEnv =
  se_db :: "'w \<Rightarrow> rdb option"
  se_get :: "jstr \<Rightarrow> 'w \<Rightarrow> (ArtifactError + nat list list) \<times> 'w"
  se_parseJSON :: "jstr \<Rightarrow> json option"
  se_traceMap :: "json \<Rightarrow> jstr \<Rightarrow> 't option"
  se_file :: "'t \<Rightarrow> jstr option"
  se_origin :: "'t \<Rightarrow> int \<times> int \<Rightarrow> OriginalPosition option"

type_synonym ('a, 'w, 't) symStep = "(jstr \<Rightarrow> 't LoadedMap option) \<times> 'w \<Rightarrow> ('a \<times> (jstr \<Rightarrow> 't LoadedMap option) \<times> 'w) option"

definition readDb :: "('w, 't) symEnv \<Rightarrow> (rdb \<Rightarrow> 'a) \<Rightarrow> ('a, 'w, 't) symStep" where
  "readDb env f s = (case se_db env (snd s) of None \<Rightarrow> None | Some d \<Rightarrow> Some (f d, s))"

definition readBlob :: "('w, 't) symEnv \<Rightarrow> jstr \<Rightarrow> (ArtifactError + nat list, 'w, 't) symStep" where
  "readBlob env key s =
     (case se_get env key (snd s) of (res, w') \<Rightarrow> Some (readArtifactToBuffer (\<lambda>_. res) key None, fst s, w'))"

definition remember :: "'t LoadedMap \<Rightarrow> ('t loadResult, 'w, 't) symStep" where
  "remember m s = Some (LoadDone m, (fst s)(lm_artifactPath m \<mapsto> m), snd s)"

subsection \<open>Loading maps\<close>

definition invalidMap :: "jstr \<Rightarrow> 't LoadedMap" where
  "invalidMap p = \<lparr>lm_artifactPath = p, lm_traceMap = None, lm_invalid = True\<rparr>"

text \<open>The map of some bytes: \<open>None\<close> where an unexpected error leaves the function.\<close>

definition mapOfBytes :: "('w, 't) symEnv \<Rightarrow> jstr \<Rightarrow> nat list \<Rightarrow> 't LoadedMap option" where
  "mapOfBytes env p bs =
     (case se_parseJSON env (lossyText bs) of
        None \<Rightarrow> Some (invalidMap p)
      | Some parsed \<Rightarrow>
          (case validateSourceMapBytes decodeText (se_parseJSON env) bs of
             Inl (InvalidSourceMapError m) \<Rightarrow> Some (invalidMap p)
           | Inl e \<Rightarrow> None
           | Inr _ \<Rightarrow>
               (case se_traceMap env parsed p of
                  None \<Rightarrow> Some (invalidMap p)
                | Some t \<Rightarrow> Some \<lparr>lm_artifactPath = p, lm_traceMap = Some t, lm_invalid = False\<rparr>)))"

definition loadMap :: "('w, 't) symEnv \<Rightarrow> ReleaseArtifactRow \<Rightarrow> ('t loadResult, 'w, 't) symStep" where
  "loadMap env artifact s =
     (case fst s (ra_artifactPath artifact) of
        Some cached \<Rightarrow> Some (LoadDone cached, s)
      | None \<Rightarrow>
          bindS (readBlob env (ra_storageKey artifact)) (\<lambda>res.
            case res of
              Inl e \<Rightarrow> returnS LoadUnavailable
            | Inr bs \<Rightarrow>
                (case mapOfBytes env (ra_artifactPath artifact) bs of None \<Rightarrow> throwS | Some m \<Rightarrow> remember m)) s)"

definition outcomeOf :: "'t loadResult \<Rightarrow> 't PathOutcome" where
  "outcomeOf l = (case l of LoadUnavailable \<Rightarrow> PathUnavailable
     | LoadDone m \<Rightarrow> if lm_invalid m then PathInvalid else PathMapped m)"

definition mapFromAssetComment ::
    "('w, 't) symEnv \<Rightarrow> jstr \<Rightarrow> ReleaseArtifactRow \<Rightarrow> jstr \<Rightarrow> ('t PathOutcome option, 'w, 't) symStep" where
  "mapFromAssetComment env rel asset generatedPath =
     bindS (readBlob env (ra_storageKey asset)) (\<lambda>res.
       case res of
         Inl (ArtifactNotFoundError k) \<Rightarrow> returnS None
       | Inl e \<Rightarrow> returnS (Some PathUnavailable)
       | Inr bs \<Rightarrow>
           (case parseTrailingSourceMappingURL (lossyText bs) of
              None \<Rightarrow> returnS None
            | Some reference \<Rightarrow>
                if isRemoteSourceMappingUrl reference then returnS None
                else case resolveRelativeMapReference generatedPath reference of
                       None \<Rightarrow> returnS None
                     | Some resolved \<Rightarrow>
                         bindS (readDb env (\<lambda>d. findArtifactByReleaseAndPath d rel resolved)) (\<lambda>target.
                           case target of
                             None \<Rightarrow> returnS None
                           | Some a \<Rightarrow>
                               if ra_artifactType a \<noteq> source_map then returnS None
                               else bindS (loadMap env a) (\<lambda>l. returnS (Some (outcomeOf l))))))"

definition provesCorrespondence :: "('w, 't) symEnv \<Rightarrow> jstr \<Rightarrow> 't LoadedMap \<Rightarrow> jstr \<Rightarrow> bool" where
  "provesCorrespondence env mapArtifactPath loaded generatedPath =
     (case lm_traceMap loaded of None \<Rightarrow> False
      | Some t \<Rightarrow>
          (case se_file env t of None \<Rightarrow> False
           | Some f \<Rightarrow> trim f \<noteq> [] \<and> resolveRelativeMapReference mapArtifactPath f = Some generatedPath))"

text \<open>Step 3 of the lookup: the other maps of the release, in path order.\<close>

fun scanMaps ::
    "('w, 't) symEnv \<Rightarrow> jstr \<Rightarrow> jstr \<Rightarrow> bool \<Rightarrow> bool \<Rightarrow> ReleaseArtifactRow list \<Rightarrow> ('t PathOutcome, 'w, 't) symStep" where
  "scanMaps env siblingPath generatedPath sawUnavailable sawInvalid [] s =
     Some (if sawUnavailable then PathUnavailable else if sawInvalid then PathInvalid else PathMissing, s)"
| "scanMaps env siblingPath generatedPath sawUnavailable sawInvalid (c # cs) s =
     (if ra_artifactPath c = siblingPath then scanMaps env siblingPath generatedPath sawUnavailable sawInvalid cs s
      else bindS (loadMap env c) (\<lambda>l.
        case l of
          LoadUnavailable \<Rightarrow> scanMaps env siblingPath generatedPath True sawInvalid cs
        | LoadDone m \<Rightarrow>
            if lm_invalid m then scanMaps env siblingPath generatedPath sawUnavailable True cs
            else if provesCorrespondence env (ra_artifactPath c) m generatedPath then returnS (PathMapped m)
            else scanMaps env siblingPath generatedPath sawUnavailable sawInvalid cs) s)"

definition listMaps :: "rdb \<Rightarrow> jstr \<Rightarrow> ReleaseArtifactRow list" where
  "listMaps d rel = filter (\<lambda>a. ra_artifactType a = source_map) (listArtifactsByRelease d rel)"

definition resolveMapForGeneratedPath :: "('w, 't) symEnv \<Rightarrow> jstr \<Rightarrow> jstr \<Rightarrow> ('t PathOutcome, 'w, 't) symStep" where
  "resolveMapForGeneratedPath env rel generatedPath =
     bindS (readDb env (\<lambda>d. findArtifactByReleaseAndPath d rel generatedPath)) (\<lambda>asset.
       bindS (case asset of
                Some a \<Rightarrow> if ra_artifactType a = minified_asset then mapFromAssetComment env rel a generatedPath else returnS None
              | None \<Rightarrow> returnS None) (\<lambda>fromComment.
         case fromComment of
           Some outcome \<Rightarrow> returnS outcome
         | None \<Rightarrow>
             let siblingPath = generatedPath @ js ''.map''
             in bindS (readDb env (\<lambda>d. findArtifactByReleaseAndPath d rel siblingPath)) (\<lambda>sibling.
                  if (case sibling of None \<Rightarrow> False | Some a \<Rightarrow> ra_artifactType a = source_map)
                  then bindS (loadMap env (the sibling)) (\<lambda>l. returnS (outcomeOf l))
                  else bindS (readDb env (\<lambda>d. listMaps d rel)) (\<lambda>candidates.
                         scanMaps env siblingPath generatedPath False False candidates))))"

definition applyMap :: "('w, 't) symEnv \<Rightarrow> 't LoadedMap \<Rightarrow> RawSymbolicationFrame \<Rightarrow> MappedSymbolicationFrame option" where
  "applyMap env loaded raw =
     (case lm_traceMap loaded of None \<Rightarrow> None
      | Some t \<Rightarrow>
          if rf_lineno raw < 1 then None
          else (case se_origin env t (rf_lineno raw, displayColumnToGenerated (rf_colno raw)) of
                  None \<Rightarrow> None
                | Some position \<Rightarrow>
                    (case (op_source position, op_line position, op_column position) of
                       (Some src, Some line, Some col) \<Rightarrow>
                         Some \<lparr>mf_filename = src, mf_source = src,
                           mf_function = (case op_name position of None \<Rightarrow> rf_function raw | Some n \<Rightarrow> n),
                           mf_name = op_name position, mf_line = line, mf_column = generatedColumnToDisplay col,
                           mf_inApplication = rf_inApp raw, mf_mapped = True\<rparr>
                     | _ \<Rightarrow> None)))"

subsection \<open>The event\<close>

text \<open>The loop over the frames, with the two flags and the frames so far.\<close>

fun mapFrames ::
    "('w, 't) symEnv \<Rightarrow> jstr \<Rightarrow> bool \<Rightarrow> bool \<Rightarrow> MappedSymbolicationFrame list \<Rightarrow> RawSymbolicationFrame list
      \<Rightarrow> (bool \<times> bool \<times> MappedSymbolicationFrame list, 'w, 't) symStep" where
  "mapFrames env rel sawUnavailable sawInvalid sofar [] s = Some ((sawUnavailable, sawInvalid, sofar), s)"
| "mapFrames env rel sawUnavailable sawInvalid sofar (raw # raws) s =
     (case (if rf_filename raw = [] then None else normalizeGeneratedUrl (rf_filename raw)) of
        None \<Rightarrow> mapFrames env rel sawUnavailable sawInvalid (sofar @ [unmappedFrame raw]) raws s
      | Some generatedPath \<Rightarrow>
          bindS (resolveMapForGeneratedPath env rel generatedPath) (\<lambda>outcome.
            case outcome of
              PathUnavailable \<Rightarrow> mapFrames env rel True sawInvalid (sofar @ [unmappedFrame raw]) raws
            | PathInvalid \<Rightarrow> mapFrames env rel sawUnavailable True (sofar @ [unmappedFrame raw]) raws
            | PathMissing \<Rightarrow> mapFrames env rel sawUnavailable sawInvalid (sofar @ [unmappedFrame raw]) raws
            | PathMapped m \<Rightarrow>
                mapFrames env rel sawUnavailable sawInvalid
                  (sofar @ [case applyMap env m raw of None \<Rightarrow> unmappedFrame raw | Some f \<Rightarrow> f]) raws) s)"

definition statusOf :: "bool \<Rightarrow> bool \<Rightarrow> MappedSymbolicationFrame list \<Rightarrow> SymbolicationStatus" where
  "statusOf sawUnavailable sawInvalid frames =
     (let n = length (filter mf_mapped frames)
      in if n = length frames \<and> 0 < length frames then sym_mapped
         else if 0 < n then sym_partially_mapped
         else if sawUnavailable then sym_storage_unavailable
         else if sawInvalid then sym_invalid_map else sym_map_not_found)"

definition symbolicate ::
    "('w, 't) symEnv \<Rightarrow> jstr \<Rightarrow> jstr option \<Rightarrow> json \<Rightarrow> 'w \<Rightarrow> (SymbolicationResult \<times> 'w) option" where
  "symbolicate env projectId release payload w =
     (let rawFrames = extractRawFrames payload
      in if (case release of None \<Rightarrow> True | Some v \<Rightarrow> trim v = []) then Some (unmappedResult sym_no_release rawFrames, w)
         else case se_db env w of
                None \<Rightarrow> None
              | Some d \<Rightarrow>
                  (case findReleaseByProjectAndVersion d projectId (the release) of
                     None \<Rightarrow> Some (unmappedResult sym_release_not_found rawFrames, w)
                   | Some row \<Rightarrow>
                       if rawFrames = [] then Some (\<lparr>sr_status = sym_mapped, sr_rawFrames = rawFrames, sr_mappedFrames = [],
                         sr_mappedFrameCount = 0\<rparr>, w)
                       else (case mapFrames env (rl_id row) False False [] rawFrames (\<lambda>_. None, w) of
                          None \<Rightarrow> None
                        | Some ((u, i, frames), (_, w')) \<Rightarrow>
                            Some (\<lparr>sr_status = statusOf u i frames, sr_rawFrames = rawFrames, sr_mappedFrames = frames,
                              sr_mappedFrameCount = length (filter mf_mapped frames)\<rparr>, w'))))"

subsection \<open>Frames for the fingerprint\<close>

definition mappedFingerprintFrame :: "MappedSymbolicationFrame \<Rightarrow> RawSymbolicationFrame \<Rightarrow> NormalizableStackFrame" where
  "mappedFingerprintFrame m raw =
     (if mf_mapped m
      then \<lparr>fr_filename = Some (mf_source m), fr_function = Some (mf_function m), fr_lineno = Some (nat (mf_line m)),
            fr_colno = Some (nat (mf_column m)), fr_in_app = Some (mf_inApplication m)\<rparr>
      else \<lparr>fr_filename = Some (rf_filename raw), fr_function = Some (rf_function raw), fr_lineno = Some (nat (rf_lineno raw)),
            fr_colno = Some (nat (rf_colno raw)), fr_in_app = Some (rf_inApp raw)\<rparr>)"

definition selectMappedFingerprintFrames :: "SymbolicationResult \<Rightarrow> NormalizableStackFrame list option" where
  "selectMappedFingerprintFrames result =
     (let rawFrames = sr_rawFrames result; mappedFrames = sr_mappedFrames result
      in if rawFrames = [] \<or> mappedFrames = [] then None
         else if length rawFrames \<noteq> length mappedFrames then None
         else if \<not> list_ex (\<lambda>f. mf_mapped f \<and> mf_inApplication f) mappedFrames then None
         else Some (map2 mappedFingerprintFrame mappedFrames rawFrames))"

subsection \<open>Where a mapped frame comes from\<close>

definition artifactsOf :: "rdb \<Rightarrow> jstr \<Rightarrow> ReleaseArtifactRow list" where
  "artifactsOf d rel = filter (\<lambda>a. ra_releaseId a = rel) (rd_artifacts d)"

definition blobGives :: "('w, 't) symEnv \<Rightarrow> ReleaseArtifactRow \<Rightarrow> nat list \<Rightarrow> bool" where
  "blobGives env a bs \<longleftrightarrow> (\<exists>w chunks. fst (se_get env (ra_storageKey a) w) = Inr chunks \<and> bs = concat chunks)"

text \<open>The map was built from the blob of a source map of the release.\<close>

definition fromRelease :: "('w, 't) symEnv \<Rightarrow> rdb \<Rightarrow> jstr \<Rightarrow> 't LoadedMap \<Rightarrow> bool" where
  "fromRelease env d rel m \<longleftrightarrow>
     (\<exists>a \<in> set (artifactsOf d rel). \<exists>bs. ra_artifactType a = source_map \<and> ra_artifactPath a = lm_artifactPath m
        \<and> blobGives env a bs \<and> mapOfBytes env (ra_artifactPath a) bs = Some m)"

text \<open>The map belongs to the generated file: its sibling, its local reference, or the map says so.\<close>

definition belongsTo :: "('w, 't) symEnv \<Rightarrow> rdb \<Rightarrow> jstr \<Rightarrow> jstr \<Rightarrow> 't LoadedMap \<Rightarrow> bool" where
  "belongsTo env d rel generatedPath m \<longleftrightarrow>
     lm_artifactPath m = generatedPath @ js ''.map''
     \<or> (\<exists>a \<in> set (artifactsOf d rel). \<exists>bs reference. ra_artifactPath a = generatedPath \<and> ra_artifactType a = minified_asset
          \<and> blobGives env a bs \<and> parseTrailingSourceMappingURL (lossyText bs) = Some reference
          \<and> \<not> isRemoteSourceMappingUrl reference \<and> resolveRelativeMapReference generatedPath reference = Some (lm_artifactPath m))
     \<or> provesCorrespondence env (lm_artifactPath m) m generatedPath"

definition cacheOk :: "('w, 't) symEnv \<Rightarrow> rdb \<Rightarrow> jstr \<Rightarrow> (jstr \<Rightarrow> 't LoadedMap option) \<Rightarrow> bool" where
  "cacheOk env d rel c \<longleftrightarrow> (\<forall>p m. c p = Some m \<longrightarrow> lm_artifactPath m = p \<and> fromRelease env d rel m)"

definition constantDb :: "('w, 't) symEnv \<Rightarrow> rdb \<Rightarrow> bool" where
  "constantDb env d \<longleftrightarrow> (\<forall>w d'. se_db env w = Some d' \<longrightarrow> d' = d)"

lemma bindS_Some: "bindS m k s = Some (y, s') \<longleftrightarrow> (\<exists>x t. m s = Some (x, t) \<and> k x t = Some (y, s'))"
  by (auto simp: bindS_def split: option.split)

lemma bindS_E: "bindS m k s = Some (y, s') \<Longrightarrow> (\<And>x t. m s = Some (x, t) \<Longrightarrow> k x t = Some (y, s') \<Longrightarrow> thesis) \<Longrightarrow> thesis"
  by (auto simp: bindS_Some)

lemma returnS_Some [simp]: "returnS x s = Some (y, s') \<longleftrightarrow> y = x \<and> s' = s"
  by (auto simp: returnS_def)

lemma throwS_Some [simp]: "throwS s \<noteq> Some y" by (simp add: throwS_def)

lemma readDb_Some: "constantDb env d \<Longrightarrow> readDb env f s = Some (x, s') \<Longrightarrow> x = f d \<and> s' = s"
  by (auto simp: readDb_def constantDb_def split: option.splits)

lemma readBlob_Some:
  assumes "readBlob env (ra_storageKey a) s = Some (x, s')"
  shows "fst s' = fst s \<and> (\<forall>bs. x = Inr bs \<longrightarrow> blobGives env a bs)"
proof -
  obtain res w' where g: "se_get env (ra_storageKey a) (snd s) = (res, w')" by (cases "se_get env (ra_storageKey a) (snd s)")
  with assms have x: "x = readArtifactToBuffer (\<lambda>_. res) (ra_storageKey a) None" "fst s' = fst s"
    by (auto simp: readBlob_def)
  have "blobGives env a bs" if "x = Inr bs" for bs
  proof -
    from that x(1) obtain cs where cs: "res = Inr cs" "readCapped (ra_storageKey a) DEFAULT_ARTIFACT_MAX_FILE_BYTES 0 cs [] = Inr bs"
      by (cases res) (auto simp: readArtifactToBuffer_def split: if_splits)
    from readCapped_eq [OF cs(2)] cs(1) g show ?thesis by (auto simp: blobGives_def intro!: exI [of _ "snd s"])
  qed
  with x show ?thesis by blast
qed

lemma mapOfBytes_path: "mapOfBytes env p bs = Some m \<Longrightarrow> lm_artifactPath m = p"
  by (auto simp: mapOfBytes_def invalidMap_def split: option.splits sum.splits ArtifactError.splits)

lemma loadMap_ok:
  assumes "loadMap env a s = Some (l, s')" "cacheOk env d rel (fst s)" "a \<in> set (artifactsOf d rel)" "ra_artifactType a = source_map"
  shows "cacheOk env d rel (fst s') \<and> (\<forall>m. l = LoadDone m \<longrightarrow> lm_artifactPath m = ra_artifactPath a \<and> fromRelease env d rel m)"
proof (cases "fst s (ra_artifactPath a)")
  case (Some c)
  with assms(1,2) show ?thesis by (auto simp: loadMap_def cacheOk_def)
next
  case None
  with assms(1) obtain x t where x: "readBlob env (ra_storageKey a) s = Some (x, t)"
    and k: "(case x of Inl e \<Rightarrow> returnS LoadUnavailable
      | Inr bs \<Rightarrow> (case mapOfBytes env (ra_artifactPath a) bs of None \<Rightarrow> throwS | Some m \<Rightarrow> remember m)) t = Some (l, s')"
    by (auto simp: loadMap_def bindS_Some)
  from readBlob_Some [OF x] have t: "fst t = fst s" "\<And>bs. x = Inr bs \<Longrightarrow> blobGives env a bs" by auto
  show ?thesis
  proof (cases x)
    case (Inl e)
    with k t(1) assms(2) show ?thesis by simp
  next
    case (Inr bs)
    with k obtain m where m: "mapOfBytes env (ra_artifactPath a) bs = Some m" "remember m t = Some (l, s')"
      by (cases "mapOfBytes env (ra_artifactPath a) bs") auto
    have p: "lm_artifactPath m = ra_artifactPath a" by (rule mapOfBytes_path [OF m(1)])
    have "fromRelease env d rel m" using assms(3,4) m(1) t(2) [OF Inr] p by (auto simp: fromRelease_def)
    with m(2) p t(1) assms(2) show ?thesis by (auto simp: remember_def cacheOk_def split: if_splits)
  qed
qed

lemma find_release: "findArtifactByReleaseAndPath d rel p = Some a \<Longrightarrow> a \<in> set (artifactsOf d rel) \<and> ra_artifactPath a = p"
  by (auto simp: findArtifactByReleaseAndPath_def artifactsOf_def find_Some_iff in_set_conv_nth)

lemma listMaps_release: "a \<in> set (listMaps d rel) \<Longrightarrow> a \<in> set (artifactsOf d rel) \<and> ra_artifactType a = source_map"
  by (auto simp: listMaps_def listArtifactsByRelease_def artifactsOf_def)

definition outcomeOk :: "('w, 't) symEnv \<Rightarrow> rdb \<Rightarrow> jstr \<Rightarrow> jstr \<Rightarrow> 't PathOutcome \<Rightarrow> bool" where
  "outcomeOk env d rel generatedPath out \<longleftrightarrow> (\<forall>m. out = PathMapped m \<longrightarrow> fromRelease env d rel m \<and> belongsTo env d rel generatedPath m)"

lemma mapFromAssetComment_ok:
  assumes "constantDb env d" "mapFromAssetComment env rel a gp s = Some (r, s')" "cacheOk env d rel (fst s)"
    and a: "a \<in> set (artifactsOf d rel)" "ra_artifactPath a = gp" "ra_artifactType a = minified_asset"
  shows "cacheOk env d rel (fst s') \<and> (\<forall>out. r = Some out \<longrightarrow> outcomeOk env d rel gp out)"
proof -
  from assms(2) obtain x t where x: "readBlob env (ra_storageKey a) s = Some (x, t)"
    and k: "(case x of Inl (ArtifactNotFoundError k) \<Rightarrow> returnS None | Inl e \<Rightarrow> returnS (Some PathUnavailable)
       | Inr bs \<Rightarrow> (case parseTrailingSourceMappingURL (lossyText bs) of None \<Rightarrow> returnS None
            | Some reference \<Rightarrow>
                if isRemoteSourceMappingUrl reference then returnS None
                else case resolveRelativeMapReference gp reference of None \<Rightarrow> returnS None
                     | Some resolved \<Rightarrow>
                         bindS (readDb env (\<lambda>d. findArtifactByReleaseAndPath d rel resolved)) (\<lambda>target.
                           case target of None \<Rightarrow> returnS None
                           | Some a \<Rightarrow> if ra_artifactType a \<noteq> source_map then returnS None
                               else bindS (loadMap env a) (\<lambda>l. returnS (Some (outcomeOf l)))))) t = Some (r, s')"
    by (auto simp: mapFromAssetComment_def bindS_Some)
  from readBlob_Some [OF x] have t: "fst t = fst s" "\<And>bs. x = Inr bs \<Longrightarrow> blobGives env a bs" by auto
  have quiet: ?thesis if "r = None \<or> r = Some PathUnavailable" "s' = t"
    using that t(1) assms(3) by (auto simp: outcomeOk_def)
  show ?thesis
  proof (cases x)
    case (Inl e)
    with k quiet show ?thesis by (cases e) auto
  next
    case (Inr bs)
    show ?thesis
    proof (cases "\<exists>reference resolved b. parseTrailingSourceMappingURL (lossyText bs) = Some reference
        \<and> \<not> isRemoteSourceMappingUrl reference \<and> resolveRelativeMapReference gp reference = Some resolved
        \<and> findArtifactByReleaseAndPath d rel resolved = Some b \<and> ra_artifactType b = source_map")
      case False
      with Inr k have "r = None \<and> s' = t"
        by (auto simp: bindS_Some split: option.splits if_splits dest!: readDb_Some [OF assms(1)])
      with quiet show ?thesis by blast
    next
      case True
      then obtain reference resolved b where r: "parseTrailingSourceMappingURL (lossyText bs) = Some reference"
        "\<not> isRemoteSourceMappingUrl reference" "resolveRelativeMapReference gp reference = Some resolved"
        "findArtifactByReleaseAndPath d rel resolved = Some b" "ra_artifactType b = source_map"
        by blast
      from k Inr r(1-3) obtain y t' where y: "readDb env (\<lambda>d. findArtifactByReleaseAndPath d rel resolved) t = Some (y, t')"
        "(case y of None \<Rightarrow> returnS None | Some a \<Rightarrow> if ra_artifactType a \<noteq> source_map then returnS None
           else bindS (loadMap env a) (\<lambda>l. returnS (Some (outcomeOf l)))) t' = Some (r, s')"
        by (auto simp: bindS_Some)
      from readDb_Some [OF assms(1) y(1)] r(4,5) y(2) obtain l where l: "loadMap env b t = Some (l, s')" "r = Some (outcomeOf l)"
        by (auto simp: bindS_Some)
      from find_release [OF r(4)] have b: "b \<in> set (artifactsOf d rel)" "ra_artifactPath b = resolved" by auto
      have L: "cacheOk env d rel (fst s')" "\<And>m. l = LoadDone m \<Longrightarrow> lm_artifactPath m = resolved \<and> fromRelease env d rel m"
        using loadMap_ok [OF l(1) _ b(1) r(5)] t(1) assms(3) b(2) by auto
      have "outcomeOk env d rel gp (outcomeOf l)"
      proof (cases l)
        case (LoadDone m)
        have "belongsTo env d rel gp m"
          using a t(2) [OF Inr] r(1-3) L(2) [OF LoadDone] unfolding belongsTo_def by blast
        with L(2) [OF LoadDone] LoadDone show ?thesis by (simp add: outcomeOk_def outcomeOf_def)
      qed (simp add: outcomeOk_def outcomeOf_def)
      with L(1) l(2) show ?thesis by simp
    qed
  qed
qed

lemma scanMaps_ok:
  assumes "scanMaps env sib gp u i cs s = Some (out, s')" "cacheOk env d rel (fst s)"
    and "\<forall>c \<in> set cs. c \<in> set (artifactsOf d rel) \<and> ra_artifactType c = source_map"
  shows "cacheOk env d rel (fst s') \<and> outcomeOk env d rel gp out"
  using assms
proof (induction env sib gp u i cs s rule: scanMaps.induct)
  case (1 env sib gp u i s)
  then show ?case by (auto simp: outcomeOk_def split: if_splits)
next
  case (2 env sib gp u i c cs s)
  show ?case
  proof (cases "ra_artifactPath c = sib")
    case True
    with 2 show ?thesis by simp
  next
    case False
    with 2(5) obtain l t where l: "loadMap env c s = Some (l, t)"
      and k: "(case l of LoadUnavailable \<Rightarrow> scanMaps env sib gp True i cs
        | LoadDone m \<Rightarrow> if lm_invalid m then scanMaps env sib gp u True cs
            else if provesCorrespondence env (ra_artifactPath c) m gp then returnS (PathMapped m)
            else scanMaps env sib gp u i cs) t = Some (out, s')"
      by (auto simp: bindS_Some)
    from 2(7) have c: "c \<in> set (artifactsOf d rel)" "ra_artifactType c = source_map" by auto
    from loadMap_ok [OF l 2(6) c]
    have L: "cacheOk env d rel (fst t)" "\<And>m. l = LoadDone m \<Longrightarrow> lm_artifactPath m = ra_artifactPath c \<and> fromRelease env d rel m"
      by auto
    have p: "outcomeOk env d rel gp (PathMapped m)" if "l = LoadDone m" "provesCorrespondence env (ra_artifactPath c) m gp" for m
      using L(2) [OF that(1)] that(2) by (simp add: outcomeOk_def belongsTo_def)
    show ?thesis
      using 2(2,3,4) [OF False] L(1) k 2(7) p by (cases l; cases t) (auto split: if_splits)
  qed
qed

lemma resolveMap_ok:
  assumes "constantDb env d" "resolveMapForGeneratedPath env rel gp s = Some (out, s')" "cacheOk env d rel (fst s)"
  shows "cacheOk env d rel (fst s') \<and> outcomeOk env d rel gp out"
proof -
  let ?asset = "findArtifactByReleaseAndPath d rel gp"
  obtain x t0 where x: "readDb env (\<lambda>d. findArtifactByReleaseAndPath d rel gp) s = Some (x, t0)"
    and r: "bindS (case x of Some a \<Rightarrow> if ra_artifactType a = minified_asset then mapFromAssetComment env rel a gp else returnS None
        | None \<Rightarrow> returnS None) (\<lambda>fc. case fc of Some outcome \<Rightarrow> returnS outcome
      | None \<Rightarrow> let siblingPath = gp @ js ''.map''
          in bindS (readDb env (\<lambda>d. findArtifactByReleaseAndPath d rel siblingPath)) (\<lambda>sibling.
               if (case sibling of None \<Rightarrow> False | Some a \<Rightarrow> ra_artifactType a = source_map)
               then bindS (loadMap env (the sibling)) (\<lambda>l. returnS (outcomeOf l))
               else bindS (readDb env (\<lambda>d. listMaps d rel)) (\<lambda>candidates.
                 scanMaps env siblingPath gp False False candidates))) t0 = Some (out, s')"
    by (rule bindS_E [OF assms(2) [unfolded resolveMapForGeneratedPath_def]])
  from readDb_Some [OF assms(1) x] have xs: "x = ?asset" "t0 = s" by auto
  obtain fc t where fc:
    "(case ?asset of Some a \<Rightarrow> if ra_artifactType a = minified_asset then mapFromAssetComment env rel a gp else returnS None
      | None \<Rightarrow> returnS None) s = Some (fc, t)"
    and k: "(case fc of Some outcome \<Rightarrow> returnS outcome
      | None \<Rightarrow> let siblingPath = gp @ js ''.map''
          in bindS (readDb env (\<lambda>d. findArtifactByReleaseAndPath d rel siblingPath)) (\<lambda>sibling.
               if (case sibling of None \<Rightarrow> False | Some a \<Rightarrow> ra_artifactType a = source_map)
               then bindS (loadMap env (the sibling)) (\<lambda>l. returnS (outcomeOf l))
               else bindS (readDb env (\<lambda>d. listMaps d rel)) (\<lambda>candidates.
                 scanMaps env siblingPath gp False False candidates))) t = Some (out, s')"
    by (rule bindS_E [OF r [unfolded xs]])
  have C: "cacheOk env d rel (fst t) \<and> (\<forall>o1. fc = Some o1 \<longrightarrow> outcomeOk env d rel gp o1)"
    using fc assms(3) mapFromAssetComment_ok [OF assms(1) _ assms(3)] find_release [of d rel gp]
    by (auto split: option.splits if_splits)
  show ?thesis
  proof (cases fc)
    case (Some o1)
    with k C show ?thesis by simp
  next
    case None
    let ?sib = "findArtifactByReleaseAndPath d rel (gp @ js ''.map'')"
    show ?thesis
    proof (cases "\<exists>a. ?sib = Some a \<and> ra_artifactType a = source_map")
      case True
      then obtain a where a: "?sib = Some a" "ra_artifactType a = source_map" by blast
      with None k obtain l where l: "loadMap env a t = Some (l, s')" "out = outcomeOf l"
        by (auto simp: bindS_Some Let_def dest!: readDb_Some [OF assms(1)])
      from find_release [OF a(1)] loadMap_ok [OF l(1) conjunct1 [OF C] _ a(2)] l(2) show ?thesis
        by (cases l) (auto simp: outcomeOk_def outcomeOf_def belongsTo_def)
    next
      case False
      with None k have "scanMaps env (gp @ js ''.map'') gp False False (listMaps d rel) t = Some (out, s')"
        by (auto simp: bindS_Some Let_def split: option.splits dest!: readDb_Some [OF assms(1)])
      from scanMaps_ok [OF this conjunct1 [OF C]] listMaps_release show ?thesis by blast
    qed
  qed
qed

text \<open>What the loop says of each frame.\<close>

definition frameOk :: "('w, 't) symEnv \<Rightarrow> rdb \<Rightarrow> jstr \<Rightarrow> RawSymbolicationFrame \<Rightarrow> MappedSymbolicationFrame \<Rightarrow> bool" where
  "frameOk env d rel raw f \<longleftrightarrow>
     (if mf_mapped f
      then \<exists>gp m. normalizeGeneratedUrl (rf_filename raw) = Some gp \<and> fromRelease env d rel m \<and> belongsTo env d rel gp m
             \<and> applyMap env m raw = Some f
      else f = unmappedFrame raw)"

lemma applyMap_mapped: "applyMap env m raw = Some f \<Longrightarrow> mf_mapped f"
  by (auto simp: applyMap_def split: option.splits if_splits)

lemma unmapped_ok: "frameOk env d rel raw (unmappedFrame raw)"
  by (simp add: frameOk_def unmappedFrame_def)

lemma mapFrames_ok:
  assumes "constantDb env d" "mapFrames env rel u i sofar raws s = Some ((u', i', frames), s')" "cacheOk env d rel (fst s)"
  shows "\<exists>fs. frames = sofar @ fs \<and> list_all2 (frameOk env d rel) raws fs"
  using assms(2,3)
proof (induction raws arbitrary: u i sofar s)
  case Nil
  then show ?case by simp
next
  case (Cons raw raws)
  have step: ?case if "mapFrames env rel u2 i2 (sofar @ [f]) raws s2 = Some ((u', i', frames), s')" "cacheOk env d rel (fst s2)"
      "frameOk env d rel raw f" for u2 i2 f s2
  proof -
    from Cons.IH [OF that(1,2)] obtain fs where "frames = (sofar @ [f]) @ fs" "list_all2 (frameOk env d rel) raws fs" by blast
    with that(3) show ?thesis by (intro exI [of _ "f # fs"]) simp
  qed
  show ?case
  proof (cases "if rf_filename raw = [] then None else normalizeGeneratedUrl (rf_filename raw)")
    case None
    with Cons.prems(1) have "mapFrames env rel u i (sofar @ [unmappedFrame raw]) raws s = Some ((u', i', frames), s')"
      by (simp only: mapFrames.simps option.case)
    then show ?thesis by (rule step [OF _ Cons.prems(2) unmapped_ok])
  next
    case (Some gp)
    with Cons.prems(1) obtain out t where o: "resolveMapForGeneratedPath env rel gp s = Some (out, t)"
      and k: "(case out of PathUnavailable \<Rightarrow> mapFrames env rel True i (sofar @ [unmappedFrame raw]) raws
            | PathInvalid \<Rightarrow> mapFrames env rel u True (sofar @ [unmappedFrame raw]) raws
            | PathMissing \<Rightarrow> mapFrames env rel u i (sofar @ [unmappedFrame raw]) raws
            | PathMapped m \<Rightarrow> mapFrames env rel u i
                (sofar @ [case applyMap env m raw of None \<Rightarrow> unmappedFrame raw | Some f \<Rightarrow> f]) raws) t
          = Some ((u', i', frames), s')"
      by (auto simp: bindS_Some)
    from resolveMap_ok [OF assms(1) o Cons.prems(2)] have R: "cacheOk env d rel (fst t)" "outcomeOk env d rel gp out" by auto
    have f: "frameOk env d rel raw (case applyMap env m raw of None \<Rightarrow> unmappedFrame raw | Some f \<Rightarrow> f)" if "out = PathMapped m" for m
    proof (cases "applyMap env m raw")
      case (Some g)
      have "normalizeGeneratedUrl (rf_filename raw) = Some gp"
        using \<open>(if rf_filename raw = [] then None else normalizeGeneratedUrl (rf_filename raw)) = Some gp\<close>
        by (simp split: if_splits)
      with Some R(2) that applyMap_mapped [OF Some] show ?thesis by (auto simp: outcomeOk_def frameOk_def)
    qed (simp add: unmapped_ok)
    show ?thesis
      using k by (cases out) (auto intro: step [OF _ R(1) unmapped_ok] step [OF _ R(1) f])
  qed
qed

text \<open>A mapped frame is what a map of the event's release that belongs to the file says; the others are raw.\<close>

definition provenFrame ::
    "('w, 't) symEnv \<Rightarrow> rdb \<Rightarrow> jstr \<Rightarrow> jstr option \<Rightarrow> RawSymbolicationFrame \<Rightarrow> MappedSymbolicationFrame \<Rightarrow> bool" where
  "provenFrame env d pid release raw f \<longleftrightarrow>
     (if mf_mapped f
      then \<exists>row gp m. findReleaseByProjectAndVersion d pid (the release) = Some row
             \<and> normalizeGeneratedUrl (rf_filename raw) = Some gp \<and> fromRelease env d (rl_id row) m
             \<and> belongsTo env d (rl_id row) gp m \<and> applyMap env m raw = Some f
      else f = unmappedFrame raw)"

text \<open>
  C6: when symbolication returns, the raw frames are echoed, every position has one frame, and a
  mapped one is the position a map gives for the raw line and the column less one, the map being
  built from a source map of this release that is the sibling of the generated file, its local
  reference, or names it; every other frame is the raw one. The status and the count say how many
  positions are mapped.
\<close>

theorem symbolication_never_fabricates:
  assumes "symbolicate env pid release payload w = Some (r, w')" "constantDb env d"
  shows "sr_rawFrames r = extractRawFrames payload
    \<and> list_all2 (provenFrame env d pid release) (sr_rawFrames r) (sr_mappedFrames r)
    \<and> sr_mappedFrameCount r = length (filter mf_mapped (sr_mappedFrames r))
    \<and> (sr_status r = sym_mapped \<longrightarrow> sr_mappedFrameCount r = length (sr_rawFrames r))
    \<and> (sr_status r = sym_partially_mapped \<longleftrightarrow> 0 < sr_mappedFrameCount r \<and> sr_mappedFrameCount r < length (sr_rawFrames r))"
proof -
  let ?raws = "extractRawFrames payload"
  have plain: "list_all2 (provenFrame env d pid release) raws (map unmappedFrame raws)" for raws
    by (induction raws) (simp_all add: provenFrame_def unmappedFrame_def)
  have none: "filter mf_mapped (map unmappedFrame raws) = []" for raws
    by (induction raws) (simp_all add: unmappedFrame_def)
  consider (unmapped) st where "r = unmappedResult st ?raws" "st \<in> {sym_no_release, sym_release_not_found}"
    | (empty) "r = \<lparr>sr_status = sym_mapped, sr_rawFrames = ?raws, sr_mappedFrames = [], sr_mappedFrameCount = 0\<rparr>" "?raws = []"
    | (looped) row u i frames s' where "findReleaseByProjectAndVersion d pid (the release) = Some row"
      "mapFrames env (rl_id row) False False [] ?raws (\<lambda>_. None, w) = Some ((u, i, frames), s')" "?raws \<noteq> []"
      "r = \<lparr>sr_status = statusOf u i frames, sr_rawFrames = ?raws, sr_mappedFrames = frames,
            sr_mappedFrameCount = length (filter mf_mapped frames)\<rparr>"
    using assms unfolding symbolicate_def constantDb_def Let_def
    by (auto split: if_splits option.splits prod.splits)
  then show ?thesis
  proof cases
    case unmapped
    then show ?thesis using plain [of ?raws] none [of ?raws] by (auto simp: unmappedResult_def)
  next
    case empty
    then show ?thesis by simp
  next
    case looped
    from mapFrames_ok [OF assms(2) looped(2)] have F: "list_all2 (frameOk env d (rl_id row)) ?raws frames"
      by (auto simp: cacheOk_def)
    have n: "length frames = length ?raws" using list_all2_lengthD [OF F] by simp
    have le: "length (filter mf_mapped frames) \<le> length frames" by simp
    have "list_all2 (provenFrame env d pid release) ?raws frames"
      by (rule list_all2_mono [OF F]) (auto simp: frameOk_def provenFrame_def looped(1) split: if_splits)
    moreover have "statusOf u i frames = sym_mapped \<longrightarrow> length (filter mf_mapped frames) = length ?raws"
      "statusOf u i frames = sym_partially_mapped \<longleftrightarrow>
        0 < length (filter mf_mapped frames) \<and> length (filter mf_mapped frames) < length ?raws"
      using n le looped(3) by (auto simp: statusOf_def Let_def)
    ultimately show ?thesis using looped(4) by auto
  qed
qed

subsection \<open>What a run reads\<close>

text \<open>Two environments that agree on the release, the rows it has and their blobs.\<close>

definition agreeOn :: "('w, 't) symEnv \<Rightarrow> ('w, 't) symEnv \<Rightarrow> rdb \<Rightarrow> rdb \<Rightarrow> jstr \<Rightarrow> bool" where
  "agreeOn env env' d d' rel \<longleftrightarrow>
     (\<forall>w. se_db env w = None \<longleftrightarrow> se_db env' w = None) \<and> constantDb env d \<and> constantDb env' d'
     \<and> artifactsOf d rel = artifactsOf d' rel
     \<and> (\<forall>a \<in> set (artifactsOf d rel). se_get env (ra_storageKey a) = se_get env' (ra_storageKey a))
     \<and> se_parseJSON env = se_parseJSON env' \<and> se_traceMap env = se_traceMap env'
     \<and> se_file env = se_file env' \<and> se_origin env = se_origin env'"

lemma find_filter: "find (\<lambda>x. P x \<and> Q x) xs = find Q (filter P xs)"
  by (induction xs) auto

lemma findArtifact_artifactsOf:
  "findArtifactByReleaseAndPath d rel p = find (\<lambda>a. ra_artifactPath a = p) (artifactsOf d rel)"
  by (simp add: findArtifactByReleaseAndPath_def artifactsOf_def find_filter)

lemma listMaps_artifactsOf:
  "listMaps d rel = filter (\<lambda>a. ra_artifactType a = source_map) (sort_key ra_artifactPath (artifactsOf d rel))"
  by (simp add: listMaps_def listArtifactsByRelease_def artifactsOf_def)

lemma bindS_cong: "m s = m' s \<Longrightarrow> (\<And>x t. m' s = Some (x, t) \<Longrightarrow> k x t = k' x t) \<Longrightarrow> bindS m k s = bindS m' k' s"
  by (auto simp: bindS_def split: option.split)

lemma agreeD:
  assumes "agreeOn env env' d d' rel"
  shows "se_db env w = None \<longleftrightarrow> se_db env' w = None" "constantDb env d" "constantDb env' d'"
    "artifactsOf d' rel = artifactsOf d rel" "a \<in> set (artifactsOf d rel) \<Longrightarrow> se_get env (ra_storageKey a) = se_get env' (ra_storageKey a)"
    "se_parseJSON env' = se_parseJSON env" "se_traceMap env' = se_traceMap env" "se_file env' = se_file env" "se_origin env' = se_origin env"
proof -
  note A = assms [unfolded agreeOn_def]
  show "se_db env w = None \<longleftrightarrow> se_db env' w = None" "constantDb env d" "constantDb env' d'"
    "a \<in> set (artifactsOf d rel) \<Longrightarrow> se_get env (ra_storageKey a) = se_get env' (ra_storageKey a)"
    using A by (blast, blast, blast, blast)
  show "artifactsOf d' rel = artifactsOf d rel" "se_parseJSON env' = se_parseJSON env" "se_traceMap env' = se_traceMap env"
    "se_file env' = se_file env" "se_origin env' = se_origin env"
    using A by - (elim conjE, erule sym)+
qed

lemma readDb_cong:
  assumes "agreeOn env env' d d' rel" "f d = g d'"
  shows "readDb env f s = readDb env' g s"
proof (cases "se_db env (snd s)")
  case None
  with agreeD(1) [OF assms(1), of "snd s"] show ?thesis by (simp add: readDb_def)
next
  case (Some x)
  with agreeD(1) [OF assms(1), of "snd s"] obtain y where y: "se_db env' (snd s) = Some y" by (cases "se_db env' (snd s)") simp_all
  have "x = d" "y = d'" using Some y agreeD(2,3) [OF assms(1)] unfolding constantDb_def by blast+
  with Some y assms(2) show ?thesis by (simp add: readDb_def)
qed

lemma agree_read:
  "agreeOn env env' d d' rel \<Longrightarrow> a \<in> set (artifactsOf d rel) \<Longrightarrow> readBlob env (ra_storageKey a) s = readBlob env' (ra_storageKey a) s"
  using agreeD(5) by (fastforce simp: readBlob_def)

lemma agree_mapOfBytes: "agreeOn env env' d d' rel \<Longrightarrow> mapOfBytes env' = mapOfBytes env"
  by (intro ext) (simp add: mapOfBytes_def agreeD cong del: option.case_cong_weak sum.case_cong_weak)

lemma agree_loadMap:
  assumes "agreeOn env env' d d' rel" "a \<in> set (artifactsOf d rel)"
  shows "loadMap env a s = loadMap env' a s"
  unfolding loadMap_def agree_mapOfBytes [OF assms(1)]
  by (intro option.case_cong refl bindS_cong agree_read [OF assms])

lemma agree_find:
  assumes "agreeOn env env' d d' rel"
  shows "readDb env (\<lambda>d. findArtifactByReleaseAndPath d rel p) s = readDb env' (\<lambda>d. findArtifactByReleaseAndPath d rel p) s"
  using assms by (intro readDb_cong [OF assms]) (simp add: findArtifact_artifactsOf agreeOn_def)

lemma readDb_found:
  assumes "agreeOn env env' d d' rel" "readDb env' (\<lambda>d. findArtifactByReleaseAndPath d rel p) s = Some (Some a, t)"
  shows "a \<in> set (artifactsOf d rel)"
proof -
  have "constantDb env' d'" "artifactsOf d rel = artifactsOf d' rel" using assms(1) by (auto simp: agreeOn_def)
  with readDb_Some [OF _ assms(2)] find_release show ?thesis by metis
qed

lemma agree_comment:
  assumes "agreeOn env env' d d' rel" "a \<in> set (artifactsOf d rel)"
  shows "mapFromAssetComment env rel a gp s = mapFromAssetComment env' rel a gp s"
  unfolding mapFromAssetComment_def
  by (rule bindS_cong [OF agree_read [OF assms]])
     (auto intro!: bindS_cong agree_find [OF assms(1)] agree_loadMap [OF assms(1)] dest: readDb_found [OF assms(1)]
       split: sum.split ArtifactError.split option.split)

lemma agree_proves: "agreeOn env env' d d' rel \<Longrightarrow> provesCorrespondence env = provesCorrespondence env'"
  by (intro ext) (simp add: provesCorrespondence_def agreeD cong del: option.case_cong_weak)

lemma agree_scan:
  assumes A: "agreeOn env env' d d' rel" and "set cs \<subseteq> set (artifactsOf d rel)"
  shows "scanMaps env sib gp u i cs s = scanMaps env' sib gp u i cs s"
  using assms(2)
proof (induction cs arbitrary: u i s)
  case Nil
  then show ?case by simp
next
  case (Cons c cs)
  then have l: "loadMap env c s = loadMap env' c s" for s using agree_loadMap [OF A] by simp
  have IH: "scanMaps env sib gp u i cs s = scanMaps env' sib gp u i cs s" for u i s
    using Cons by simp
  show ?case
    by (auto intro!: bindS_cong l simp: IH agree_proves [OF A] split: loadResult.split)
qed

lemma agree_resolve:
  assumes A: "agreeOn env env' d d' rel"
  shows "resolveMapForGeneratedPath env rel gp s = resolveMapForGeneratedPath env' rel gp s"
proof -
  have maps: "readDb env (\<lambda>d. listMaps d rel) s = readDb env' (\<lambda>d. listMaps d rel) s" for s
    using A by (intro readDb_cong [OF A]) (simp add: listMaps_artifactsOf agreeOn_def)
  have listed: "set cs \<subseteq> set (artifactsOf d rel)" if "readDb env' (\<lambda>d. listMaps d rel) s = Some (cs, t)" for cs s t
  proof -
    have "constantDb env' d'" "artifactsOf d rel = artifactsOf d' rel" using A by (auto simp: agreeOn_def)
    with readDb_Some [OF _ that] listMaps_release [of _ d' rel] show ?thesis by auto
  qed
  have tail: "bindS (readDb env (\<lambda>d. findArtifactByReleaseAndPath d rel p)) (\<lambda>sibling.
        if (case sibling of None \<Rightarrow> False | Some a \<Rightarrow> ra_artifactType a = source_map)
        then bindS (loadMap env (the sibling)) (\<lambda>l. returnS (outcomeOf l))
        else bindS (readDb env (\<lambda>d. listMaps d rel)) (scanMaps env p gp False False)) t
      = bindS (readDb env' (\<lambda>d. findArtifactByReleaseAndPath d rel p)) (\<lambda>sibling.
        if (case sibling of None \<Rightarrow> False | Some a \<Rightarrow> ra_artifactType a = source_map)
        then bindS (loadMap env' (the sibling)) (\<lambda>l. returnS (outcomeOf l))
        else bindS (readDb env' (\<lambda>d. listMaps d rel)) (scanMaps env' p gp False False)) t" for p t
  proof (rule bindS_cong [OF agree_find [OF A]], goal_cases)
    case (1 y u)
    have scan: "bindS (readDb env (\<lambda>d. listMaps d rel)) (scanMaps env p gp False False) u
        = bindS (readDb env' (\<lambda>d. listMaps d rel)) (scanMaps env' p gp False False) u"
      by (rule bindS_cong [OF maps]) (rule agree_scan [OF A listed])
    show ?case
    proof (cases y)
      case (Some b)
      with readDb_found [OF A] 1 have "b \<in> set (artifactsOf d rel)" by blast
      then have "bindS (loadMap env b) (\<lambda>l. returnS (outcomeOf l)) u = bindS (loadMap env' b) (\<lambda>l. returnS (outcomeOf l)) u"
        by (intro bindS_cong agree_loadMap [OF A] refl)
      with Some scan show ?thesis by simp
    qed (simp add: scan)
  qed
  show ?thesis
    unfolding resolveMapForGeneratedPath_def Let_def
  proof (rule bindS_cong [OF agree_find [OF A]], goal_cases)
    case (1 x t)
    have "(case x of Some a \<Rightarrow> if ra_artifactType a = minified_asset then mapFromAssetComment env rel a gp else returnS None
        | None \<Rightarrow> returnS None) t
      = (case x of Some a \<Rightarrow> if ra_artifactType a = minified_asset then mapFromAssetComment env' rel a gp else returnS None
        | None \<Rightarrow> returnS None) t"
      using agree_comment [OF A] readDb_found [OF A] 1 by (cases x) auto
    then show ?case by (rule bindS_cong) (simp add: tail split: option.split)
  qed
qed

lemma agree_mapFrames:
  assumes A: "agreeOn env env' d d' rel"
  shows "mapFrames env rel u i sofar raws s = mapFrames env' rel u i sofar raws s"
proof (induction raws arbitrary: u i sofar s)
  case (Cons raw raws)
  have "applyMap env = applyMap env'" by (intro ext) (simp add: applyMap_def agreeD [OF A] cong del: option.case_cong_weak if_weak_cong)
  then show ?case
    by (auto intro!: bindS_cong agree_resolve [OF A] simp: Cons.IH split: option.split PathOutcome.split)
qed simp

text \<open>
  C7: the result for an event depends on nothing but the artifact rows of the release registered in
  the event's own project under the event's exact version, and on the blobs of those rows: whatever
  other projects, other releases and other blobs hold, the result and the exceptions are the same.
\<close>

theorem symbolication_reads_only_its_release:
  assumes "agreeOn env env' d d' rel"
    and "findReleaseByProjectAndVersion d pid (the release) = Some row" "rl_id row = rel"
    and "findReleaseByProjectAndVersion d' pid (the release) = Some row"
  shows "symbolicate env pid release payload w = symbolicate env' pid release payload w"
proof -
  have db: "se_db env w = None \<longleftrightarrow> se_db env' w = None" "se_db env w = Some x \<Longrightarrow> x = d" "se_db env' w = Some y \<Longrightarrow> y = d'" for x y
    using assms(1) by (auto simp: agreeOn_def constantDb_def)
  show ?thesis
  proof (cases "se_db env w")
    case None
    with db(1) show ?thesis by (simp add: symbolicate_def Let_def)
  next
    case (Some x)
    then obtain y where y: "se_db env' w = Some y" using db(1) by fastforce
    from Some y db(2,3) assms(2-4) agree_mapFrames [OF assms(1)] show ?thesis
      by (simp add: symbolicate_def Let_def)
  qed
qed

subsection \<open>Witnesses\<close>

definition exampleDoc :: json where
  "exampleDoc = JObj [(js ''version'', JNum 3), (js ''sources'', JArr []), (js ''mappings'', JStr [])]"

definition exampleRelease :: ReleaseRow where
  "exampleRelease = \<lparr>rl_id = [1], rl_projectId = [80], rl_version = [118], rl_commitSha = None, rl_repositoryUrl = None, rl_createdAt = 0\<rparr>"

definition exampleMapRow :: ReleaseArtifactRow where
  "exampleMapRow = \<lparr>ra_id = [2], ra_releaseId = [1], ra_artifactPath = js ''a.map'', ra_storageKey = [107], ra_contentHash = [],
     ra_sizeBytes = 0, ra_artifactType = source_map, ra_createdAt = 0\<rparr>"

definition exampleRdb :: "ReleaseArtifactRow list \<Rightarrow> rdb" where
  "exampleRdb extra = \<lparr>rd_projects = [[80]], rd_releases = [exampleRelease], rd_artifacts = exampleMapRow # extra, rd_deletions = []\<rparr>"

definition exampleSym :: "ReleaseArtifactRow list \<Rightarrow> (unit, unit) symEnv" where
  "exampleSym extra = \<lparr>se_db = (\<lambda>_. Some (exampleRdb extra)), se_get = (\<lambda>_ w. (Inr [], w)), se_parseJSON = (\<lambda>_. Some exampleDoc),
     se_traceMap = (\<lambda>_ _. Some ()), se_file = (\<lambda>_. None),
     se_origin = (\<lambda>_ _. Some \<lparr>op_source = Some [115], op_line = Some 10, op_column = Some 5, op_name = None\<rparr>)\<rparr>"

definition exampleStack :: json where
  "exampleStack = JObj [(js ''values'', JArr [JObj [(js ''stacktrace'', JObj [(js ''frames'',
     JArr [JObj [(js ''filename'', JStr (js ''/a'')), (js ''lineno'', JNum 1), (js ''colno'', JNum 11)]])])]])]"

lemmas example_sym_eval = symbolicate_def exampleSym_def exampleRdb_def exampleRelease_def exampleMapRow_def exampleStack_def exampleDoc_def
  extractRawFrames_def framesOfValue_def rawFrame_def valuesOf_def stringOr_def toNonNegativeInt_def typeofObject_def
  findReleaseByProjectAndVersion_def js_eval trim_def trimStart_def trimEnd_def isWs_def normalizeGeneratedUrl_def
  DATA_OR_BLOB_PATTERN_def cutAt_def hasScheme_def char_class_defs startsWith_def
  resolveMapForGeneratedPath_def bindS_def readDb_def returnS_def findArtifactByReleaseAndPath_def loadMap_def readBlob_def
  readArtifactToBuffer_def DEFAULT_ARTIFACT_MAX_FILE_BYTES_def mapOfBytes_def validateSourceMapBytes_def decodeText_def
  stripBom_def isStringArray_def typeofString_def sourcesContentOk_def remember_def outcomeOf_def applyMap_def
  displayColumnToGenerated_def DISPLAY_TO_GENERATED_COLUMN_OFFSET_def generatedColumnToDisplay_def statusOf_def Let_def

lemma example_symbolicate:
  "symbolicate (exampleSym []) [80] (Some [118]) exampleStack () =
     Some (\<lparr>sr_status = sym_mapped, sr_rawFrames = extractRawFrames exampleStack,
       sr_mappedFrames = [\<lparr>mf_filename = [115], mf_source = [115], mf_function = [], mf_name = None, mf_line = 10,
         mf_column = 6, mf_inApplication = False, mf_mapped = True\<rparr>], sr_mappedFrameCount = 1\<rparr>, ())"
  by (simp add: example_sym_eval)

lemma example_constant: "constantDb (exampleSym xs) (exampleRdb xs)"
  by (simp add: constantDb_def exampleSym_def)

lemma symbolication_never_fabricates_witness:
  "\<exists>r. symbolicate (exampleSym []) [80] (Some [118]) exampleStack () = Some (r, ()) \<and> sr_status r = sym_mapped
     \<and> sr_mappedFrameCount r = length (sr_rawFrames r)
     \<and> list_all2 (provenFrame (exampleSym []) (exampleRdb []) [80] (Some [118])) (sr_rawFrames r) (sr_mappedFrames r)"
  using symbolication_never_fabricates [OF example_symbolicate example_constant] example_symbolicate by fastforce

lemma symbolication_reads_only_its_release_witness:
  "symbolicate (exampleSym []) [80] (Some [118]) exampleStack () =
     symbolicate (exampleSym [exampleMapRow\<lparr>ra_releaseId := [9]\<rparr>]) [80] (Some [118]) exampleStack ()"
proof (rule symbolication_reads_only_its_release)
  show "agreeOn (exampleSym []) (exampleSym [exampleMapRow\<lparr>ra_releaseId := [9]\<rparr>]) (exampleRdb [])
      (exampleRdb [exampleMapRow\<lparr>ra_releaseId := [9]\<rparr>]) [1]"
    using example_constant by (simp add: agreeOn_def) (simp add: exampleSym_def exampleRdb_def exampleMapRow_def artifactsOf_def)
  show "findReleaseByProjectAndVersion (exampleRdb []) [80] (the (Some [118])) = Some exampleRelease"
    "findReleaseByProjectAndVersion (exampleRdb [exampleMapRow\<lparr>ra_releaseId := [9]\<rparr>]) [80] (the (Some [118])) = Some exampleRelease"
    "rl_id exampleRelease = [1]"
    by (simp_all add: findReleaseByProjectAndVersion_def exampleRdb_def exampleRelease_def)
qed

end
