(* ===== verification/Grouping.thy ===== *)
theory Grouping
  imports Symbolicate
begin

text \<open>
  Grouping end to end: the worker's transaction (\<open>IssueLifecycle\<close>) run with the derivation of
  \<open>Fingerprint\<close> on the frames that \<open>Symbolicate\<close> selects, as \<open>apps/worker/src/processors/process-event.ts\<close>
  wires them. The lemmas carry the derivation of every associated event through all runs.
\<close>

subsection \<open>The worker's dependencies\<close>

definition derivationInput :: "jstr \<Rightarrow> jstr \<Rightarrow> json \<Rightarrow> SymbolicationResult \<Rightarrow> json DeriveEventInput" where
  "derivationInput projectId eventType payload symbolication =
     \<lparr>di_projectId = projectId, di_eventType = eventType, di_payload = payload,
      di_mappedFrames = selectMappedFingerprintFrames symbolication\<rparr>"

text \<open>\<open>symbolication\<close> is what symbolicating a stored event gives in this run, \<open>None\<close> when it throws.\<close>

definition workerDeps ::
    "json groupingEnv \<Rightarrow> ((json, SymbolicationResult) EventRow \<Rightarrow> SymbolicationResult option) \<Rightarrow> (json, SymbolicationResult) deps" where
  "workerDeps genv symbolication =
     \<lparr>symbolicateEvent = symbolication,
      deriveEventProcessingPlan = (\<lambda>p t payload s. derivePlan genv (derivationInput p t payload s))\<rparr>"

subsection \<open>Associated events carry their derivation\<close>

definition derivedRow :: "('p, 's) deps \<Rightarrow> ('p, 's) EventRow \<Rightarrow> bool" where
  "derivedRow dep e \<longleftrightarrow> (\<forall>k. ev_issueId e = Some k \<longrightarrow>
     (\<exists>s d. ev_symbolication e = Some s \<and> ev_fingerprint e = Some (de_fingerprint d)
        \<and> deriveEventProcessingPlan dep (ev_projectId e) (ev_type e) (ev_payload e) s = Inr (PlanIssue d)))"

definition allDerived :: "('p, 's) deps \<Rightarrow> ('p, 's) idb \<Rightarrow> bool" where
  "allDerived dep db \<longleftrightarrow> (\<forall>e \<in> set (d_events db). derivedRow dep e)"

definition derivedDb :: "('p, 's) deps \<Rightarrow> ('p, 's) idb \<Rightarrow> bool" where
  "derivedDb dep db \<longleftrightarrow> dbOk db \<and> allDerived dep db"

lemma lockOrCreateIssue_events:
  "lockOrCreateIssue others db inp = (r, db') \<Longrightarrow> d_events db' = d_events db \<or> d_events db' = d_events (others db)"
  by (auto simp: lockOrCreateIssue_def insertIssueIfAbsent_def Let_def split: option.splits if_splits)

lemma derived_record:
  assumes ev: "fp_row ev \<in> set (d_events db1)" "keysOk db1"
    and old: "allDerived dep db1"
    and plan: "deriveEventProcessingPlan dep (ev_projectId (fp_row ev)) (ev_type (fp_row ev)) (ev_payload (fp_row ev)) s = Inr (PlanIssue d)"
  shows "allDerived dep (recordOnIssue ev d s issue created db1)"
  unfolding allDerived_def
proof
  fix x assume "x \<in> set (d_events (recordOnIssue ev d s issue created db1))"
  then obtain y where y: "y \<in> set (d_events db1)"
    "x = (if ev_id y = ev_id (fp_row ev) then doneRow y s (de_fingerprint d) (i_id issue) else y)"
    by (auto simp: recordOnIssue_tables(1))
  have "y = fp_row ev" if "ev_id y = ev_id (fp_row ev)"
    using ev y(1) that by (auto simp: keysOk_def distinct_map inj_on_def)
  with y old plan show "derivedRow dep x"
    unfolding allDerived_def by (cases "ev_id y = ev_id (fp_row ev)") (auto simp: derivedRow_def doneRow_def)
qed

lemma processTx_derived:
  assumes ok: "derivedDb dep db" "derivedDb dep (others db)" and h: "harmless eid others"
  shows "allDerived dep (snd (processTx dep others s eid db))"
proof (cases "lockEventForProcessing db eid")
  case None
  with ok show ?thesis by (simp add: processTx_def derivedDb_def)
next
  case (Some ev)
  let ?e = "fp_row ev"
  note row = lockEventForProcessing_Some [OF Some]
  show ?thesis
  proof (cases "ev_state ?e")
    case Pending
    have none: "ev_issueId x = None" if "x \<in> set (d_events db)" "ev_id x = eid" for x
    proof -
      have "x = ?e" using ok row that by (auto simp: derivedDb_def dbOk_def keysOk_def distinct_map inj_on_def)
      with Pending ok row show ?thesis by (auto simp: derivedDb_def dbOk_def keysOk_def)
    qed
    have two: "allDerived dep (updateEvent (updateEvent db eid f) eid g)"
      if "\<And>x. ev_id (f x) = ev_id x" "\<And>x. ev_issueId x = None \<Longrightarrow> ev_issueId (g (f x)) = None" for f g
      using ok(1) none that by (auto simp: derivedDb_def allDerived_def derivedRow_def)
    show ?thesis
    proof (cases "deriveEventProcessingPlan dep (ev_projectId ?e) (ev_type ?e) (ev_payload ?e) s")
      case (Inl err)
      then show ?thesis
        using Some Pending ok two
        by (cases err) (simp_all add: processTx_def markEventRejected_def persistEventSymbolication_def derivedDb_def)
    next
      case (Inr plan)
      show ?thesis
      proof (cases plan)
        case PlanNonIssue
        then show ?thesis
          using Some Pending Inr two by (simp add: processTx_def markEventProcessed_def persistEventSymbolication_def)
      next
        case (PlanIssue d)
        obtain r db1 where l: "lockOrCreateIssue others db (descriptorInput ?e d) = (r, db1)"
          by (cases "lockOrCreateIssue others db (descriptorInput ?e d)")
        have old: "allDerived dep db1"
          using lockOrCreateIssue_events [OF l] ok by (auto simp: derivedDb_def allDerived_def)
        show ?thesis
        proof (cases r)
          case None
          with Some Pending Inr PlanIssue l old show ?thesis by (simp add: processTx_def)
        next
          case (Some ic)
          obtain issue created where ic: "ic = (issue, created)" by (cases ic)
          have dok: "dbOk db" "dbOk (others db)" using ok by (auto simp: derivedDb_def)
          note f = lockOrCreateIssue_fit [OF dok l [unfolded Some ic]]
          have "?e \<in> set (d_events db1)" "keysOk db1"
            using f row h dok by (auto simp: harmless_def fit_def)
          from derived_record [OF this old Inr [unfolded PlanIssue]] show ?thesis
            using \<open>lockEventForProcessing db eid = Some ev\<close> Pending Inr PlanIssue l Some ic by (simp add: processTx_def)
        qed
      qed
    qed
  qed (use Some ok in \<open>simp_all add: processTx_def derivedDb_def\<close>)
qed

lemma processEvent_derived:
  assumes "derivedDb dep db" "derivedDb dep (others db)" "harmless eid others"
  shows "derivedDb dep (snd (processEvent dep others eid db))"
proof -
  have "dbOk (snd (processEvent dep others eid db))"
    using processEvent_ok [of db eid others dep] assms by (simp add: derivedDb_def)
  with processTx_derived [OF assms] assms(1) show ?thesis
    by (auto simp: derivedDb_def processEvent_def split: option.splits)
qed

lemma act_derived: "derivedDb dep db \<Longrightarrow> derivedDb dep (act dep a db)"
proof (cases a)
  case (Process eid)
  assume "derivedDb dep db"
  with Process show ?thesis by (simp add: processEvent_derived harmless_id)
next
  case (SetStatus now user k st)
  assume d: "derivedDb dep db"
  moreover have "d_events (act dep a db) = d_events db"
    using SetStatus by (auto simp: updateIssueStatus_def updateIssueRow_def Let_def split: sum.splits option.splits prod.splits)
  ultimately show ?thesis by (simp add: derivedDb_def allDerived_def act_ok)
next
  case (SetAssignee user k v)
  assume d: "derivedDb dep db"
  moreover have "d_events (act dep a db) = d_events db"
    using SetAssignee by (auto simp: updateIssueAssignee_def updateIssueRow_def Let_def split: sum.splits option.splits prod.splits)
  ultimately show ?thesis by (simp add: derivedDb_def allDerived_def act_ok)
next
  case (Ingest e)
  assume d: "derivedDb dep db"
  with Ingest act_ok [of db dep a] show ?thesis by (auto simp: derivedDb_def allDerived_def derivedRow_def)
qed

lemma sysRun_derived: "derivedDb dep db \<Longrightarrow> derivedDb dep (sysRun dep as db)"
proof (induction as arbitrary: db)
  case (Cons a as)
  have many: "derivedDb dep (acts dep bs db)" for bs
    using Cons.prems by (induction bs arbitrary: db) (simp_all add: acts_def act_derived)
  have "derivedDb dep (sysAct dep a db)"
    by (cases a) (simp_all add: Cons.prems act_derived processEvent_derived acts_harmless many)
  then show ?case using Cons.IH by (simp add: sysRun_def)
qed (simp add: sysRun_def)

subsection \<open>Issues are the classes of project and signature\<close>

definition storedInput :: "(json, SymbolicationResult) EventRow \<Rightarrow> json DeriveEventInput" where
  "storedInput e = derivationInput (ev_projectId e) (ev_type e) (ev_payload e) (the (ev_symbolication e))"

text \<open>The texts hashed for the stored events do not collide, and are well-formed.\<close>

definition hashesApart :: "json groupingEnv \<Rightarrow> (json, SymbolicationResult) EventRow list \<Rightarrow> bool" where
  "hashesApart genv es \<longleftrightarrow> (\<forall>bs. octets (ge_sha256 genv bs))
     \<and> inj_on (ge_sha256 genv) {hashedText (storedInput e) d |e d. e \<in> set es \<and> derivePlan genv (storedInput e) = Inr (PlanIssue d)}
     \<and> (\<forall>e \<in> set es. plainId (ev_projectId e) \<and> (\<forall>d. derivePlan genv (storedInput e) = Inr (PlanIssue d) \<longrightarrow> wf16 (de_signature d)))"

lemma derived_stored:
  assumes "derivedDb (workerDeps genv symb) db" "e \<in> set (d_events db)" "ev_issueId e = Some k"
  shows "\<exists>d. derivePlan genv (storedInput e) = Inr (PlanIssue d) \<and> ev_fingerprint e = Some (de_fingerprint d)"
proof -
  from assms obtain s d where "ev_symbolication e = Some s" "ev_fingerprint e = Some (de_fingerprint d)"
    "derivePlan genv (derivationInput (ev_projectId e) (ev_type e) (ev_payload e) s) = Inr (PlanIssue d)"
    by (auto simp: derivedDb_def allDerived_def derivedRow_def workerDeps_def)
  then show ?thesis by (auto simp: storedInput_def)
qed

lemma same_issue_iff:
  assumes ok: "dbOk db" and e: "e \<in> set (d_events db)" "ev_issueId e = Some k" and e': "e' \<in> set (d_events db)" "ev_issueId e' = Some k'"
  shows "k = k' \<longleftrightarrow> ev_projectId e = ev_projectId e' \<and> ev_fingerprint e = ev_fingerprint e'"
proof -
  have iss: "\<exists>i \<in> set (d_issues db). i_id i = m \<and> i_projectId i = ev_projectId x \<and> ev_fingerprint x = Some (i_fingerprint i)"
    if "x \<in> set (d_events db)" "ev_issueId x = Some m" for x m
  proof -
    from ok that obtain i where i: "i \<in> set (d_issues db)" "i_id i = m" by (fastforce simp: dbOk_def keysOk_def)
    with ok that show ?thesis by (auto simp: dbOk_def issueOk_def aggregates_def evsOf_def)
  qed
  from iss [OF e] obtain i where i: "i \<in> set (d_issues db)" "i_id i = k" "i_projectId i = ev_projectId e" "ev_fingerprint e = Some (i_fingerprint i)"
    by blast
  from iss [OF e'] obtain j where j: "j \<in> set (d_issues db)" "i_id j = k'" "i_projectId j = ev_projectId e'" "ev_fingerprint e' = Some (i_fingerprint j)"
    by blast
  have d: "distinct (map i_id (d_issues db))" "distinct (map (\<lambda>i. (i_projectId i, i_fingerprint i)) (d_issues db))"
    using ok by (auto simp: dbOk_def keysOk_def)
  have "i = j" if "k = k'" using d(1) i(1,2) j(1,2) that by (auto simp: distinct_map inj_on_def)
  moreover have "i = j" if "i_projectId i = i_projectId j" "i_fingerprint i = i_fingerprint j"
    using d(2) i(1) j(1) that by (auto simp: distinct_map inj_on_def)
  ultimately show ?thesis using i j by auto
qed

text \<open>
  C5: in every run of ingestion, processing (concurrent too) and triage, two stored events belong to
  the same issue exactly when they belong to the same project and the code derives the same signature
  from their payloads and stored symbolication, while SHA-256 does not collide on the texts of the
  stored events: issues are exactly the classes of the documented grouping key.
\<close>

theorem issues_are_the_signature_classes:
  assumes "db = sysRun (workerDeps genv symb) as (emptyDb ps ms)" "hashesApart genv (d_events db)"
    and "e \<in> set (d_events db)" "ev_issueId e = Some k" "e' \<in> set (d_events db)" "ev_issueId e' = Some k'"
  shows "\<exists>d d'. derivePlan genv (storedInput e) = Inr (PlanIssue d) \<and> derivePlan genv (storedInput e') = Inr (PlanIssue d')
    \<and> (k = k' \<longleftrightarrow> ev_projectId e = ev_projectId e' \<and> de_signature d = de_signature d')"
proof -
  have D: "derivedDb (workerDeps genv symb) db"
    unfolding assms(1) by (rule sysRun_derived) (use emptyDb_ok in \<open>auto simp: derivedDb_def allDerived_def emptyDb_def\<close>)
  then have ok: "dbOk db" by (simp add: derivedDb_def)
  from derived_stored [OF D assms(3,4)] obtain d where d: "derivePlan genv (storedInput e) = Inr (PlanIssue d)" "ev_fingerprint e = Some (de_fingerprint d)"
    by blast
  from derived_stored [OF D assms(5,6)] obtain d' where d': "derivePlan genv (storedInput e') = Inr (PlanIssue d')" "ev_fingerprint e' = Some (de_fingerprint d')"
    by blast
  from plan_describes [OF d(1)] plan_describes [OF d'(1)] obtain cs cs'
    where c: "describes genv (storedInput e) d cs" "describes genv (storedInput e') d' cs'" by blast
  note h = assms(2) [unfolded hashesApart_def]
  have "inj_on (ge_sha256 genv) {hashedText (storedInput e) d, hashedText (storedInput e') d'}"
    by (rule inj_on_subset [OF h [THEN conjunct2, THEN conjunct1]]) (use d d' assms(3,5) in blast)
  from fingerprint_eq [OF c _ this] h d d' assms(3,5)
  have "de_fingerprint d = de_fingerprint d' \<longleftrightarrow> ev_projectId e = ev_projectId e' \<and> de_signature d = de_signature d'"
    by (auto simp: storedInput_def derivationInput_def)
  with same_issue_iff [OF ok assms(3-6)] d d' show ?thesis by auto
qed

subsection \<open>Witness\<close>

definition payGenv :: "json groupingEnv" where
  "payGenv = \<lparr>ge_sha256 = map (\<lambda>b. b mod 256), ge_toUpper = id,
     ge_exception = (\<lambda>j. Some \<lparr>xp_values = [\<lparr>ex_type = js ''Error'', ex_value = strOf j, ex_frames = None\<rparr>],
       xp_fingerprint = Some [js ''pay'']\<rparr>), ge_rejection = (\<lambda>_. None),
     ge_console = (\<lambda>_. None), ge_network = (\<lambda>_. None), ge_message = (\<lambda>_. None)\<rparr>"

definition payDeps :: "(json, SymbolicationResult) deps" where
  "payDeps = workerDeps payGenv (\<lambda>_. Some (unmappedResult sym_no_release []))"

definition payInput :: "string \<Rightarrow> json DeriveEventInput" where
  "payInput m = \<lparr>di_projectId = [80], di_eventType = js ''exception'', di_payload = JStr (js m), di_mappedFrames = None\<rparr>"

definition payDescriptor :: "string \<Rightarrow> IssueDescriptor" where
  "payDescriptor m = (case deriveException payGenv (payInput m) of Inr (PlanIssue d) \<Rightarrow> d)"

definition payFingerprint :: jstr where
  "payFingerprint = hashFingerprint (ge_sha256 payGenv) [80] (buildFingerprintSignature [js ''custom'', js ''pay''])"

lemma pay_plan: "derivePlan payGenv (payInput m) = Inr (PlanIssue (payDescriptor m))"
  by (simp add: payDescriptor_def derivePlan_def payInput_def deriveException_def parsePayload_def payGenv_def Let_def)

lemma pay_project: "di_projectId (payInput m) = [80]"
  by (simp add: payInput_def)

lemma pay_parts:
  "de_fingerprint (payDescriptor m) = payFingerprint"
  "de_signature (payDescriptor m) = [91, 34, 99, 117, 115, 116, 111, 109, 34, 44, 34, 112, 97, 121, 34, 93]"
proof -
  have s: "buildFingerprintSignature [js ''custom'', js ''pay''] = [91, 34, 99, 117, 115, 116, 111, 109, 34, 44, 34, 112, 97, 121, 34, 93]"
    using example_signature [of "''p''" "''m''"]
    by (simp add: exampleDescriptor_def deriveException_def parsePayload_def exampleEnv_def exampleInput_def Let_def
      example_custom buildDescriptor_def)
  show "de_fingerprint (payDescriptor m) = payFingerprint"
    "de_signature (payDescriptor m) = [91, 34, 99, 117, 115, 116, 111, 109, 34, 44, 34, 112, 97, 121, 34, 93]"
    unfolding s [symmetric]
    by (simp_all add: payFingerprint_def payDescriptor_def deriveException_def parsePayload_def payGenv_def payInput_def Let_def
      example_custom buildDescriptor_def)
qed

definition payEvent :: "nat \<Rightarrow> string \<Rightarrow> (json, SymbolicationResult) EventRow" where
  "payEvent k m = \<lparr>ev_id = [k], ev_projectId = [80], ev_session = [5], ev_type = js ''exception'', ev_occurredAt = int k,
     ev_release = None, ev_payload = JStr (js m), ev_fingerprint = None, ev_issueId = None, ev_symbolication = None,
     ev_state = Pending, ev_rejection = None\<rparr>"

definition payDone :: "nat \<Rightarrow> string \<Rightarrow> (json, SymbolicationResult) EventRow" where
  "payDone k m = (payEvent k m)\<lparr>ev_fingerprint := Some payFingerprint, ev_issueId := Some 0,
     ev_symbolication := Some (unmappedResult sym_no_release []), ev_state := Processed\<rparr>"

definition payRun :: "(json, SymbolicationResult) idb" where
  "payRun = sysRun payDeps [Alone (Ingest (payEvent 1 ''one'')), Alone (Ingest (payEvent 2 ''two'')),
     Alone (Process [1]), Alone (Process [2])] (emptyDb [\<lparr>pv_id = [80], pv_workspaceId = [87]\<rparr>] [])"

lemma pay_derive:
  "deriveEventProcessingPlan payDeps [80] (js ''exception'') (JStr (js m)) (unmappedResult sym_no_release []) = Inr (PlanIssue (payDescriptor m))"
  using pay_plan [of m]
  by (simp add: payDeps_def workerDeps_def derivationInput_def selectMappedFingerprintFrames_def unmappedResult_def payInput_def Let_def)

lemma payRun_events: "d_events payRun = [payDone 1 ''one'', payDone 2 ''two'']"
proof -
  have s: "symbolicateEvent payDeps e = Some (unmappedResult sym_no_release [])" for e by (simp add: payDeps_def workerDeps_def)
  show ?thesis
    by (simp add: payRun_def demo_eval payEvent_def payDone_def s pay_derive pay_parts)
qed

lemma pay_done_project: "ev_projectId (payDone k m) = [80]"
  by (simp add: payDone_def payEvent_def)

lemma pay_stored: "storedInput (payDone k m) = payInput m"
  by (simp add: storedInput_def derivationInput_def payDone_def payEvent_def payInput_def selectMappedFingerprintFrames_def
    unmappedResult_def Let_def)

lemma issues_are_the_signature_classes_witness:
  "\<exists>e \<in> set (d_events payRun). \<exists>e' \<in> set (d_events payRun). ev_id e \<noteq> ev_id e' \<and> ev_payload e \<noteq> ev_payload e'
     \<and> ev_issueId e = Some 0 \<and> ev_issueId e' = Some 0
     \<and> (\<exists>d d'. derivePlan payGenv (storedInput e) = Inr (PlanIssue d) \<and> derivePlan payGenv (storedInput e') = Inr (PlanIssue d')
          \<and> de_signature d = de_signature d')"
proof -
  have h: "hashesApart payGenv (d_events payRun)"
    unfolding hashesApart_def payRun_events
  proof (intro conjI allI ballI impI)
    show "octets (ge_sha256 payGenv bs)" for bs by (simp add: payGenv_def octets_def list_all_iff)
    have "{hashedText (storedInput e) d |e d. e \<in> set [payDone 1 ''one'', payDone 2 ''two'']
        \<and> derivePlan payGenv (storedInput e) = Inr (PlanIssue d)}
      \<subseteq> {hashedText (payInput ''one'') (payDescriptor ''one'')}"
      by (auto simp: pay_stored pay_plan hashedText_def pay_parts pay_project)
    then show "inj_on (ge_sha256 payGenv) {hashedText (storedInput e) d |e d. e \<in> set [payDone 1 ''one'', payDone 2 ''two'']
        \<and> derivePlan payGenv (storedInput e) = Inr (PlanIssue d)}"
      by (rule inj_on_subset [rotated]) simp
  qed (auto simp: pay_stored pay_plan pay_parts wf16_def pay_done_project plainId_def)
  have e: "payDone 1 ''one'' \<in> set (d_events payRun)" "ev_issueId (payDone 1 ''one'') = Some 0"
    "payDone 2 ''two'' \<in> set (d_events payRun)" "ev_issueId (payDone 2 ''two'') = Some 0"
    by (simp_all add: payRun_events payDone_def)
  from issues_are_the_signature_classes [OF payRun_def [unfolded payDeps_def] h e] e show ?thesis
    by (intro bexI [of _ "payDone 1 ''one''"] bexI [of _ "payDone 2 ''two''"]) (auto simp: payDone_def payEvent_def js_eval)
qed

end
