(* ===== verification/Slug.thy ===== *)
theory Slug
  imports Text Paths
begin

text \<open>
  Slugs of workspaces and projects (\<open>packages/contracts/src/slug.ts\<close>): the single pass and the
  pipeline of replacements it documents itself to be equal to.
\<close>

subsection \<open>The single pass\<close>

text \<open>
  \<open>toLowerCase\<close>, exact as far as the pass can see: the code units other than \<open>lowerUnit\<close>'s whose lower
  case holds an ASCII letter are the dotted capital I alone, which becomes an \<open>i\<close> and a combining
  dot. Every other unit keeps to units that the pass drops, halves of surrogate pairs among them.
\<close>

definition lowerText :: "jstr \<Rightarrow> jstr" where
  "lowerText s = concat (map (\<lambda>c. if c = 304 then [105, 775] else [lowerUnit c]) s)"

definition isSlugWhitespace :: "nat \<Rightarrow> bool" where
  "isSlugWhitespace code \<longleftrightarrow> code = 9 \<or> code = 10 \<or> code = 11 \<or> code = 12 \<or> code = 13 \<or> code = 32 \<or> code = 160
     \<or> code = 5760 \<or> (8192 \<le> code \<and> code \<le> 8202) \<or> code = 8232 \<or> code = 8233 \<or> code = 8239 \<or> code = 8287
     \<or> code = 12288 \<or> code = 65279"

definition slugLetter :: "nat \<Rightarrow> bool" where
  "slugLetter c \<longleftrightarrow> (97 \<le> c \<and> c \<le> 122) \<or> (48 \<le> c \<and> c \<le> 57)"

fun slugLoop :: "jstr \<Rightarrow> bool \<Rightarrow> jstr \<Rightarrow> jstr \<times> bool" where
  "slugLoop out lastWasHyphen [] = (out, lastWasHyphen)"
| "slugLoop out lastWasHyphen (ch # chs) =
     (if slugLetter ch then slugLoop (out @ [ch]) False chs
      else if ch = 45 \<or> ch = 95 \<or> isSlugWhitespace ch
      then (if \<not> lastWasHyphen then slugLoop (out @ [45]) True chs else slugLoop out lastWasHyphen chs)
      else slugLoop out lastWasHyphen chs)"

definition normalizeSlugValue :: "jstr \<Rightarrow> jstr" where
  "normalizeSlugValue input =
     (let lowered = lowerText (trim input)
      in case slugLoop [] True lowered of
           (out, lastWasHyphen) \<Rightarrow> if lastWasHyphen \<and> endsWith out [45] then butlast out else out)"

subsection \<open>The documented pipeline\<close>

text \<open>\<open>s.replace(/[class]+/g, r)\<close>: every run of units of the class becomes one \<open>r\<close>.\<close>

fun replaceRuns :: "(nat \<Rightarrow> bool) \<Rightarrow> nat \<Rightarrow> jstr \<Rightarrow> jstr" where
  "replaceRuns P r [] = []"
| "replaceRuns P r (x # xs) =
     (if P x then r # replaceRuns P r (dropWhile P xs) else x # replaceRuns P r xs)"

definition stripHyphens :: "jstr \<Rightarrow> jstr" where
  "stripHyphens s = rev (dropWhile (\<lambda>c. c = 45) (rev (dropWhile (\<lambda>c. c = 45) s)))"

abbreviation spaceOrUnderscore :: "nat \<Rightarrow> bool" where "spaceOrUnderscore c \<equiv> isWs c \<or> c = 95"
abbreviation isHyphen :: "nat \<Rightarrow> bool" where "isHyphen c \<equiv> c = 45"

definition slugPipeline :: "jstr \<Rightarrow> jstr" where
  "slugPipeline input =
     stripHyphens (replaceRuns isHyphen 45
       (filter (\<lambda>c. slugLetter c \<or> c = 45) (replaceRuns spaceOrUnderscore 45 (lowerText (trim input)))))"

text \<open>A slug: words of lower-case letters and digits with single hyphens between.\<close>

definition slugShaped :: "jstr \<Rightarrow> bool" where
  "slugShaped s \<longleftrightarrow> (\<forall>p \<in> set (split_on 45 s). p \<noteq> [] \<and> list_all slugLetter p)"

subsection \<open>What the pass emits\<close>

lemma isSlugWhitespace_isWs: "isSlugWhitespace = isWs"
  by (rule ext) (simp add: isSlugWhitespace_def isWs_def)

lemma slugLetter_plain [simp]: "slugLetter c \<Longrightarrow> c \<noteq> 45 \<and> c \<noteq> 95 \<and> \<not> isWs c"
  by (auto simp: slugLetter_def isWs_def)

lemma hyphen_not_ws [simp]: "\<not> isWs 45" "\<not> slugLetter 45" "\<not> slugLetter 95"
  by (simp_all add: isWs_def slugLetter_def)

fun emit :: "bool \<Rightarrow> jstr \<Rightarrow> jstr" where
  "emit b [] = []"
| "emit b (c # cs) =
     (if slugLetter c then c # emit False cs
      else if c = 45 \<or> c = 95 \<or> isWs c then (if b then emit b cs else 45 # emit True cs)
      else emit b cs)"

lemma slugLoop_fst: "fst (slugLoop out b s) = out @ emit b s"
  by (induction s arbitrary: out b) (simp_all add: isSlugWhitespace_isWs)

lemma slugLoop_snd:
  "(b \<longleftrightarrow> out = [] \<or> last out = 45) \<Longrightarrow>
     snd (slugLoop out b s) \<longleftrightarrow> fst (slugLoop out b s) = [] \<or> last (fst (slugLoop out b s)) = 45"
proof (induction s arbitrary: out b)
  case (Cons c cs)
  show ?case
  proof (cases "slugLetter c")
    case True
    then show ?thesis using Cons.IH [of False "out @ [c]"] slugLetter_plain [OF True] by simp
  next
    case False
    then show ?thesis using Cons.IH [of True "out @ [45]"] Cons.IH [OF Cons.prems] by (cases b) simp_all
  qed
qed simp

abbreviation cleaned :: "jstr \<Rightarrow> jstr" where
  "cleaned s \<equiv> filter (\<lambda>c. slugLetter c \<or> c = 45) (replaceRuns spaceOrUnderscore 45 s)"

lemma cleaned_dropWhile:
  "dropWhile isHyphen (cleaned (dropWhile spaceOrUnderscore s)) = dropWhile isHyphen (cleaned s)"
  by (cases s) auto

lemma dropWhile_replaceRuns: "dropWhile isHyphen (replaceRuns isHyphen 45 s) = replaceRuns isHyphen 45 (dropWhile isHyphen s)"
proof (induction isHyphen "45::nat" s rule: replaceRuns.induct)
  case (2 x xs)
  have "dropWhile isHyphen (replaceRuns isHyphen 45 (dropWhile isHyphen xs)) = replaceRuns isHyphen 45 (dropWhile isHyphen xs)"
  proof (cases "dropWhile isHyphen xs")
    case (Cons y ys)
    then have "y \<noteq> 45" using hd_dropWhile [of isHyphen xs] by simp
    with Cons show ?thesis by simp
  next
    case Nil
    then show ?thesis unfolding Nil by simp
  qed
  then show ?case by simp
qed simp

lemma emit_pipeline:
  "emit True s = replaceRuns isHyphen 45 (dropWhile isHyphen (cleaned s))
   \<and> emit False s = replaceRuns isHyphen 45 (cleaned s)"
proof (induction s)
  case (Cons c cs)
  consider "slugLetter c" | "c = 45" | "spaceOrUnderscore c" "\<not> slugLetter c" "c \<noteq> 45"
    | "\<not> slugLetter c" "c \<noteq> 45" "\<not> spaceOrUnderscore c" by blast
  then show ?case
  proof cases
    case 1
    then show ?thesis using Cons slugLetter_plain [OF 1] by simp
  next
    case 2
    then show ?thesis using Cons by (simp add: slugLetter_def isWs_def)
  next
    case 3
    then have "cleaned (c # cs) = 45 # cleaned (dropWhile spaceOrUnderscore cs)" by auto
    moreover have "emit True (c # cs) = emit True cs" "emit False (c # cs) = 45 # emit True cs" using 3 by auto
    ultimately show ?thesis using Cons cleaned_dropWhile [of cs] by (simp del: emit.simps)
  next
    case 4
    then show ?thesis using Cons by simp
  qed
qed simp

lemma emit_no_double: "\<not> (\<exists>a b. emit bb s = a @ [45, 45] @ b) \<and> (bb \<longrightarrow> (\<forall>b. emit bb s \<noteq> 45 # b))"
proof (induction s arbitrary: bb)
  case (Cons c cs)
  have t: "\<not> (\<exists>a b. 45 # emit True cs = a @ [45, 45] @ b)"
    using Cons [of True] by (auto simp: Cons_eq_append_conv)
  have l: "\<not> (\<exists>a b. c # emit False cs = a @ [45, 45] @ b)" if "slugLetter c"
    using Cons [of False] slugLetter_plain [OF that] by (auto simp: Cons_eq_append_conv)
  show ?case
  proof (cases "slugLetter c")
    case True
    then show ?thesis using l slugLetter_plain [OF True] by auto
  next
    case False
    then have "emit bb (c # cs) = emit bb cs \<or> (\<not> bb \<and> emit bb (c # cs) = 45 # emit True cs)" by auto
    then show ?thesis using Cons [of bb] t by (metis append_Cons append_Nil)
  qed
qed simp

lemma strip_last:
  assumes "\<not> (\<exists>a b. s = a @ [45, 45] @ b)"
  shows "rev (dropWhile isHyphen (rev s)) = (if s \<noteq> [] \<and> last s = 45 then butlast s else s)"
proof (cases s rule: rev_cases)
  case (snoc ys y)
  have "rev (dropWhile isHyphen (rev ys)) = ys" if "y = 45"
  proof (cases ys rule: rev_cases)
    case (snoc zs z)
    with \<open>s = ys @ [y]\<close> assms that have "z \<noteq> 45" by auto
    with snoc show ?thesis by simp
  qed simp
  with snoc show ?thesis by auto
qed simp

lemma endsWith_last: "endsWith s [c] \<longleftrightarrow> s \<noteq> [] \<and> last s = c"
  by (cases s rule: rev_cases) (auto simp: endsWith_def)

lemma normalize_emit:
  "normalizeSlugValue s = (let e = emit True (lowerText (trim s)) in rev (dropWhile isHyphen (rev e)))"
proof -
  let ?l = "lowerText (trim s)"
  have f: "fst (slugLoop [] True ?l) = emit True ?l" using slugLoop_fst [of "[]"] by simp
  have "\<not> (\<exists>a b. emit True ?l = a @ [45, 45] @ b)" using emit_no_double by blast
  from strip_last [OF this] slugLoop_snd [of True "[]" ?l] f show ?thesis
    by (simp add: normalizeSlugValue_def Let_def case_prod_beta endsWith_last)
qed

lemma normalize_pipeline: "normalizeSlugValue s = slugPipeline s"
  by (simp add: normalize_emit slugPipeline_def stripHyphens_def Let_def dropWhile_replaceRuns emit_pipeline)

subsection \<open>The shape of a slug\<close>

lemma emit_set: "c \<in> set (emit b s) \<Longrightarrow> slugLetter c \<or> c = 45"
  by (induction s arbitrary: b) (auto split: if_splits)

lemma slugShaped_iff:
  "slugShaped s \<longleftrightarrow> s \<noteq> [] \<and> (\<forall>c \<in> set s. slugLetter c \<or> c = 45) \<and> hd s \<noteq> 45 \<and> last s \<noteq> 45
     \<and> \<not> (\<exists>a b. s = a @ [45, 45] @ b)" (is "_ \<longleftrightarrow> ?good s")
proof (induction "length s" arbitrary: s rule: less_induct)
  case less
  show ?case
  proof (cases "45 \<in> set s")
    case False
    then have "split_on 45 s = [s]" by (rule split_on_single)
    with False show ?thesis by (auto simp: slugShaped_def list_all_iff)
  next
    case True
    then obtain a b where s: "s = a @ 45 # b" and a: "45 \<notin> set a" by (metis split_list_first)
    have sp: "split_on 45 s = a # split_on 45 b" unfolding s by (rule split_on_append_sep [OF a])
    have IH: "slugShaped b \<longleftrightarrow> ?good b" using less s by simp
    have "slugShaped s \<longleftrightarrow> a \<noteq> [] \<and> list_all slugLetter a \<and> slugShaped b"
      using sp by (auto simp: slugShaped_def)
    also have "\<dots> \<longleftrightarrow> ?good s"
    proof
      assume l: "a \<noteq> [] \<and> list_all slugLetter a \<and> slugShaped b"
      then have g: "?good b" using IH by blast
      have "\<not> (\<exists>u v. s = u @ [45, 45] @ v)"
      proof
        assume "\<exists>u v. s = u @ [45, 45] @ v"
        then obtain u v where e: "a @ 45 # b = u @ 45 # 45 # v" using s by auto
        then have "(\<exists>w. b = w @ 45 # 45 # v) \<or> b = 45 # v"
          using a by (auto simp: append_eq_append_conv2 Cons_eq_append_conv append_eq_Cons_conv)
        with g show False by auto
      qed
      moreover have "hd s \<noteq> 45" using l a s by (cases a) auto
      ultimately show "?good s" using l g s by (auto simp: list_all_iff)
    next
      assume g: "?good s"
      then have "a \<noteq> []" using s by auto
      moreover have "b \<noteq> []" using g s by auto
      moreover have "hd b \<noteq> 45"
      proof
        assume "hd b = 45"
        with \<open>b \<noteq> []\<close> obtain w where "b = 45 # w" by (cases b) auto
        with g s show False by auto
      qed
      moreover have "\<not> (\<exists>u v. b = u @ [45, 45] @ v)"
      proof
        assume "\<exists>u v. b = u @ [45, 45] @ v"
        then obtain u v where "s = (a @ 45 # u) @ [45, 45] @ v" using s by auto
        with g show False by blast
      qed
      ultimately show "a \<noteq> [] \<and> list_all slugLetter a \<and> slugShaped b"
        using g s a IH by (auto simp: list_all_iff)
    qed
    finally show ?thesis .
  qed
qed

lemma no_double_butlast: "\<not> (\<exists>a b. s = a @ [45, 45] @ b) \<Longrightarrow> s \<noteq> [] \<Longrightarrow> last s = 45 \<Longrightarrow>
    butlast s \<noteq> [] \<Longrightarrow> last (butlast s) \<noteq> (45 :: nat)"
  by (metis append.assoc append_Cons append_Nil append_Nil2 append_butlast_last_id)

lemma normalized_shape: "normalizeSlugValue s = [] \<or> slugShaped (normalizeSlugValue s)"
proof -
  define e where "e = emit True (lowerText (trim s))"
  define n where "n = (if e \<noteq> [] \<and> last e = 45 then butlast e else e)"
  have nd: "\<not> (\<exists>a b. e = a @ [45, 45] @ b)" and nh: "\<forall>b. e \<noteq> 45 # b"
    using emit_no_double [of True "lowerText (trim s)"] by (simp_all add: e_def)
  have n: "normalizeSlugValue s = n"
    using strip_last [OF nd] by (simp add: normalize_emit Let_def n_def e_def)
  have "e = n @ (if e \<noteq> [] \<and> last e = 45 then [45] else [])"
    unfolding n_def by (cases e rule: rev_cases) simp_all
  then obtain t where pre: "e = n @ t" by blast
  have "\<not> (\<exists>a b. n = a @ [45, 45] @ b)" using nd unfolding pre by (metis append.assoc)
  moreover have "last n \<noteq> 45" if "n \<noteq> []"
    using no_double_butlast [OF nd] that unfolding n_def by (auto split: if_splits)
  moreover have "hd n \<noteq> 45" if "n \<noteq> []" using nh that unfolding pre by (cases n) auto
  moreover have "\<forall>c \<in> set n. slugLetter c \<or> c = 45"
    using emit_set [of _ True "lowerText (trim s)"] pre by (auto simp: e_def [symmetric])
  ultimately show ?thesis unfolding n slugShaped_iff by blast
qed

lemma lowerText_id: "\<forall>c \<in> set s. slugLetter c \<or> c = 45 \<Longrightarrow> lowerText s = s"
  by (induction s) (auto simp: lowerText_def lowerUnit_def slugLetter_def isUpper_def)

lemma emit_id: "\<forall>c \<in> set s. slugLetter c \<or> c = 45 \<Longrightarrow> \<not> (\<exists>a b. s = a @ [45, 45] @ b)
    \<Longrightarrow> (b \<Longrightarrow> s = [] \<or> hd s \<noteq> 45) \<Longrightarrow> emit b s = s"
proof (induction s arbitrary: b)
  case (Cons c cs)
  have nd: "\<not> (\<exists>u v. cs = u @ [45, 45] @ v)"
  proof
    assume "\<exists>u v. cs = u @ [45, 45] @ v"
    then obtain u v where "c # cs = (c # u) @ [45, 45] @ v" by auto
    with Cons.prems(2) show False by blast
  qed
  show ?case
  proof (cases "slugLetter c")
    case True
    then show ?thesis using Cons.IH [of False] Cons.prems nd by simp
  next
    case False
    then have c: "c = 45" and "\<not> b" using Cons.prems by auto
    have "cs = [] \<or> hd cs \<noteq> 45" using Cons.prems(2) c by (cases cs) auto
    then show ?thesis using Cons.IH [of True] Cons.prems nd c \<open>\<not> b\<close> False by simp
  qed
qed simp

lemma slugShaped_fixed:
  assumes "slugShaped s"
  shows "normalizeSlugValue s = s"
proof -
  from assms have g: "s \<noteq> []" "\<forall>c \<in> set s. slugLetter c \<or> c = 45" "hd s \<noteq> 45" "last s \<noteq> 45"
    "\<not> (\<exists>a b. s = a @ [45, 45] @ b)" unfolding slugShaped_iff by blast+
  have "\<not> isWs (hd s)" "\<not> isWs (last s)" using g(1,2) slugLetter_plain hyphen_not_ws by (metis hd_in_set last_in_set)+
  then have "dropWhile isWs s = s" "dropWhile isWs (rev s) = rev s" using g(1)
    by (simp_all add: dropWhile_eq_self_iff hd_rev)
  then have "trim s = s" by (simp add: trim_def trimStart_def trimEnd_def)
  then have "emit True (lowerText (trim s)) = s"
    using lowerText_id [OF g(2)] emit_id [OF g(2) g(5), of True] g(3) by simp
  then show ?thesis using strip_last [OF g(5)] g(1,4) by (simp add: normalize_emit)
qed

text \<open>
  the single pass computes the documented pipeline of replacements, its result is empty or a
  slug (words of lower-case letters and digits, single hyphens), and normalizing twice changes
  nothing.
\<close>

theorem slug_pass_is_documented_pipeline:
  "normalizeSlugValue s = slugPipeline s
   \<and> (normalizeSlugValue s = [] \<or> slugShaped (normalizeSlugValue s))
   \<and> normalizeSlugValue (normalizeSlugValue s) = normalizeSlugValue s"
proof -
  have "normalizeSlugValue [] = []" by (simp add: normalizeSlugValue_def lowerText_def trim_def trimStart_def trimEnd_def endsWith_def)
  then show ?thesis using normalize_pipeline normalized_shape [of s] slugShaped_fixed by metis
qed

end
