(* ===== verification/Tenancy.thy ===== *)
theory Tenancy
  imports Slug Keys Governance Releases
begin

text \<open>
  Workspaces, projects and environments: the services \<open>apps/api/src/services/workspaces.ts\<close> and
  \<open>projects.ts\<close> over their repositories. The tables are one record with the constraints of the
  schema as branches: a unique violation is \<open>Dup\<close>, any other failing statement a plain error, and
  an error of a transaction leaves the tables as they were. Ids the database generates are
  arguments, times are milliseconds.
\<close>

subsection \<open>Tables\<close>

record WorkspaceRow =
  wr_id :: jstr
  wr_name :: jstr
  wr_slug :: jstr
  wr_createdByUserId :: jstr
  wr_createdAt :: nat
  wr_updatedAt :: nat

record ProjectRow =
  pj_id :: jstr
  pj_workspaceId :: jstr
  pj_name :: jstr
  pj_slug :: jstr
  pj_description :: "jstr option"
  pj_timezone :: jstr
  pj_retentionDays :: int
  pj_createdAt :: nat
  pj_updatedAt :: nat

record EnvironmentRow =
  en_id :: jstr
  en_projectId :: jstr
  en_name :: jstr
  en_baseUrl :: "jstr option"
  en_isDefault :: bool
  en_createdAt :: nat
  en_updatedAt :: nat

record tdb =
  t_users :: "UserRow list"
  t_workspaces :: "WorkspaceRow list"
  t_members :: "MembershipRow list"
  t_projects :: "ProjectRow list"
  t_envs :: "EnvironmentRow list"
  t_keys :: "ProjectKeyRow list"
  t_nextKey :: nat
  t_audit :: "AuditRow list"
  t_rel :: rdb

datatype txError = Dup | Thr thrown

type_synonym 'a tx = "tdb \<Rightarrow> txError + 'a \<times> tdb"

text \<open>A transaction whose unique violations become \<open>dup\<close>.\<close>

definition runTx :: "thrown \<Rightarrow> 'a tx \<Rightarrow> tdb \<Rightarrow> (thrown + 'a) \<times> tdb" where
  "runTx dup body db =
     (case body db of Inl Dup \<Rightarrow> (Inl dup, db) | Inl (Thr e) \<Rightarrow> (Inl e, db) | Inr (r, db') \<Rightarrow> (Inr r, db'))"

abbreviation stmtError :: "string \<Rightarrow> txError" where "stmtError m \<equiv> Thr (PlainError (js m))"

subsection \<open>Repositories\<close>

definition insertWorkspace :: "jstr \<Rightarrow> nat \<Rightarrow> jstr \<Rightarrow> jstr \<Rightarrow> jstr \<Rightarrow> WorkspaceRow tx" where
  "insertWorkspace newId now name slug createdByUserId db =
     (if createdByUserId \<notin> u_id ` set (t_users db) then Inl (stmtError ''foreign key violation'')
      else if newId \<in> wr_id ` set (t_workspaces db) \<or> slug \<in> wr_slug ` set (t_workspaces db) then Inl Dup
      else let row = \<lparr>wr_id = newId, wr_name = name, wr_slug = slug, wr_createdByUserId = createdByUserId,
                      wr_createdAt = now, wr_updatedAt = now\<rparr>
           in Inr (row, db\<lparr>t_workspaces := t_workspaces db @ [row]\<rparr>))"

definition findWorkspaceById :: "tdb \<Rightarrow> jstr \<Rightarrow> WorkspaceRow option" where
  "findWorkspaceById db i = List.find (\<lambda>w. wr_id w = i) (t_workspaces db)"

definition findWorkspaceBySlug :: "tdb \<Rightarrow> jstr \<Rightarrow> WorkspaceRow option" where
  "findWorkspaceBySlug db s = List.find (\<lambda>w. wr_slug w = s) (t_workspaces db)"

definition patched :: "'a option \<Rightarrow> 'a \<Rightarrow> 'a" where
  "patched p old = (case p of None \<Rightarrow> old | Some v \<Rightarrow> v)"

record WorkspacePatch =
  wp_name :: "jstr option"
  wp_slug :: "jstr option"

definition patchWorkspace :: "nat \<Rightarrow> WorkspacePatch \<Rightarrow> WorkspaceRow \<Rightarrow> WorkspaceRow" where
  "patchWorkspace now p w = w\<lparr>wr_name := patched (wp_name p) (wr_name w), wr_slug := patched (wp_slug p) (wr_slug w), wr_updatedAt := now\<rparr>"

definition updateWorkspaceRow :: "nat \<Rightarrow> jstr \<Rightarrow> WorkspacePatch \<Rightarrow> WorkspaceRow option tx" where
  "updateWorkspaceRow now i p db =
     (case findWorkspaceById db i of
        None \<Rightarrow> Inr (None, db)
      | Some w \<Rightarrow>
          if list_ex (\<lambda>w'. wr_id w' \<noteq> i \<and> wr_slug w' = patched (wp_slug p) (wr_slug w)) (t_workspaces db) then Inl Dup
          else Inr (Some (patchWorkspace now p w),
                    db\<lparr>t_workspaces := map (\<lambda>w'. if wr_id w' = i then patchWorkspace now p w' else w') (t_workspaces db)\<rparr>))"

definition findMembershipRow :: "tdb \<Rightarrow> jstr \<Rightarrow> jstr \<Rightarrow> MembershipRow option" where
  "findMembershipRow db ws user = List.find (hitsMember ws user) (t_members db)"

definition insertMembership :: "jstr \<Rightarrow> jstr \<Rightarrow> jstr \<Rightarrow> jstr \<Rightarrow> MembershipRow tx" where
  "insertMembership newId ws user role db =
     (if ws \<notin> wr_id ` set (t_workspaces db) \<or> user \<notin> u_id ` set (t_users db) then Inl (stmtError ''foreign key violation'')
      else if newId \<in> m_id ` set (t_members db) \<or> findMembershipRow db ws user \<noteq> None then Inl Dup
      else let row = \<lparr>m_id = newId, m_workspaceId = ws, m_userId = user, m_role = role\<rparr>
           in Inr (row, db\<lparr>t_members := t_members db @ [row]\<rparr>))"

definition listMembershipsByUser :: "tdb \<Rightarrow> jstr \<Rightarrow> MembershipRow list" where
  "listMembershipsByUser db user = filter (\<lambda>m. m_userId m = user) (t_members db)"

record NewProject =
  np_workspaceId :: jstr
  np_name :: jstr
  np_slug :: jstr
  np_description :: "jstr option"
  np_timezone :: jstr
  np_retentionDays :: int

definition MIN_PROJECT_RETENTION_DAYS :: int where "MIN_PROJECT_RETENTION_DAYS = 7"
definition MAX_PROJECT_RETENTION_DAYS :: int where "MAX_PROJECT_RETENTION_DAYS = 365"

definition retentionCheck :: "int \<Rightarrow> bool" where
  "retentionCheck d \<longleftrightarrow> MIN_PROJECT_RETENTION_DAYS \<le> d \<and> d \<le> MAX_PROJECT_RETENTION_DAYS"

definition insertProject :: "jstr \<Rightarrow> nat \<Rightarrow> NewProject \<Rightarrow> ProjectRow tx" where
  "insertProject newId now v db =
     (if np_workspaceId v \<notin> wr_id ` set (t_workspaces db) then Inl (stmtError ''foreign key violation'')
      else if \<not> retentionCheck (np_retentionDays v) then Inl (stmtError ''check violation'')
      else if newId \<in> pj_id ` set (t_projects db)
        \<or> list_ex (\<lambda>p. pj_workspaceId p = np_workspaceId v \<and> pj_slug p = np_slug v) (t_projects db) then Inl Dup
      else let row = \<lparr>pj_id = newId, pj_workspaceId = np_workspaceId v, pj_name = np_name v, pj_slug = np_slug v,
                      pj_description = np_description v, pj_timezone = np_timezone v, pj_retentionDays = np_retentionDays v,
                      pj_createdAt = now, pj_updatedAt = now\<rparr>
           in Inr (row, db\<lparr>t_projects := t_projects db @ [row],
                           t_rel := (t_rel db)\<lparr>rd_projects := rd_projects (t_rel db) @ [newId]\<rparr>\<rparr>))"

definition findProjectById :: "tdb \<Rightarrow> jstr \<Rightarrow> ProjectRow option" where
  "findProjectById db i = List.find (\<lambda>p. pj_id p = i) (t_projects db)"

definition findProjectByWorkspaceAndSlug :: "tdb \<Rightarrow> jstr \<Rightarrow> jstr \<Rightarrow> ProjectRow option" where
  "findProjectByWorkspaceAndSlug db ws s = List.find (\<lambda>p. pj_workspaceId p = ws \<and> pj_slug p = s) (t_projects db)"

definition listProjectsByWorkspace :: "tdb \<Rightarrow> jstr \<Rightarrow> ProjectRow list" where
  "listProjectsByWorkspace db ws = filter (\<lambda>p. pj_workspaceId p = ws) (t_projects db)"

record ProjectPatch =
  pp_name :: "jstr option"
  pp_slug :: "jstr option"
  pp_description :: "jstr option option"
  pp_timezone :: "jstr option"
  pp_retentionDays :: "int option"

definition patchProject :: "nat \<Rightarrow> ProjectPatch \<Rightarrow> ProjectRow \<Rightarrow> ProjectRow" where
  "patchProject now p r = r\<lparr>pj_name := patched (pp_name p) (pj_name r), pj_slug := patched (pp_slug p) (pj_slug r),
     pj_description := patched (pp_description p) (pj_description r), pj_timezone := patched (pp_timezone p) (pj_timezone r),
     pj_retentionDays := patched (pp_retentionDays p) (pj_retentionDays r), pj_updatedAt := now\<rparr>"

definition updateProjectRow :: "nat \<Rightarrow> jstr \<Rightarrow> ProjectPatch \<Rightarrow> ProjectRow option tx" where
  "updateProjectRow now i p db =
     (case findProjectById db i of
        None \<Rightarrow> Inr (None, db)
      | Some r \<Rightarrow>
          if \<not> retentionCheck (pj_retentionDays (patchProject now p r)) then Inl (stmtError ''check violation'')
          else if list_ex (\<lambda>r'. pj_id r' \<noteq> i \<and> pj_workspaceId r' = pj_workspaceId r \<and> pj_slug r' = pj_slug (patchProject now p r)) (t_projects db)
          then Inl Dup
          else Inr (Some (patchProject now p r),
                    db\<lparr>t_projects := map (\<lambda>r'. if pj_id r' = i then patchProject now p r' else r') (t_projects db)\<rparr>))"

text \<open>Environments: unique names and at most one default per project.\<close>

definition insertEnvironment :: "jstr \<Rightarrow> nat \<Rightarrow> jstr \<Rightarrow> jstr \<Rightarrow> jstr option \<Rightarrow> bool \<Rightarrow> EnvironmentRow tx" where
  "insertEnvironment newId now pid name baseUrl isDefault db =
     (if pid \<notin> pj_id ` set (t_projects db) then Inl (stmtError ''foreign key violation'')
      else if newId \<in> en_id ` set (t_envs db)
        \<or> list_ex (\<lambda>e. en_projectId e = pid \<and> (en_name e = name \<or> (isDefault \<and> en_isDefault e))) (t_envs db) then Inl Dup
      else let row = \<lparr>en_id = newId, en_projectId = pid, en_name = name, en_baseUrl = baseUrl, en_isDefault = isDefault,
                      en_createdAt = now, en_updatedAt = now\<rparr>
           in Inr (row, db\<lparr>t_envs := t_envs db @ [row]\<rparr>))"

definition listEnvironmentsByProject :: "tdb \<Rightarrow> jstr \<Rightarrow> EnvironmentRow list" where
  "listEnvironmentsByProject db pid = filter (\<lambda>e. en_projectId e = pid) (t_envs db)"

definition findEnvironmentById :: "tdb \<Rightarrow> jstr \<Rightarrow> EnvironmentRow option" where
  "findEnvironmentById db i = List.find (\<lambda>e. en_id e = i) (t_envs db)"

definition findEnvironmentByProjectAndName :: "tdb \<Rightarrow> jstr \<Rightarrow> jstr \<Rightarrow> EnvironmentRow option" where
  "findEnvironmentByProjectAndName db pid name = List.find (\<lambda>e. en_projectId e = pid \<and> en_name e = name) (t_envs db)"

definition findDefaultEnvironment :: "tdb \<Rightarrow> jstr \<Rightarrow> EnvironmentRow option" where
  "findDefaultEnvironment db pid = List.find (\<lambda>e. en_projectId e = pid \<and> en_isDefault e) (t_envs db)"

record EnvironmentPatch =
  ep_name :: "jstr option"
  ep_baseUrl :: "jstr option option"
  ep_isDefault :: "bool option"

definition patchEnvironment :: "nat \<Rightarrow> EnvironmentPatch \<Rightarrow> EnvironmentRow \<Rightarrow> EnvironmentRow" where
  "patchEnvironment now p e = e\<lparr>en_name := patched (ep_name p) (en_name e), en_baseUrl := patched (ep_baseUrl p) (en_baseUrl e),
     en_isDefault := patched (ep_isDefault p) (en_isDefault e), en_updatedAt := now\<rparr>"

definition updateEnvironmentRow :: "nat \<Rightarrow> jstr \<Rightarrow> EnvironmentPatch \<Rightarrow> EnvironmentRow option tx" where
  "updateEnvironmentRow now i p db =
     (case findEnvironmentById db i of
        None \<Rightarrow> Inr (None, db)
      | Some e \<Rightarrow>
          let e' = patchEnvironment now p e
          in if list_ex (\<lambda>d. en_id d \<noteq> i \<and> en_projectId d = en_projectId e
                  \<and> (en_name d = en_name e' \<or> (en_isDefault e' \<and> en_isDefault d))) (t_envs db) then Inl Dup
             else Inr (Some e', db\<lparr>t_envs := map (\<lambda>d. if en_id d = i then patchEnvironment now p d else d) (t_envs db)\<rparr>))"

definition clearDefaultEnvironments :: "nat \<Rightarrow> jstr \<Rightarrow> tdb \<Rightarrow> tdb" where
  "clearDefaultEnvironments now pid db =
     db\<lparr>t_envs := map (\<lambda>e. if en_projectId e = pid \<and> en_isDefault e then e\<lparr>en_isDefault := False, en_updatedAt := now\<rparr> else e) (t_envs db)\<rparr>"

definition deleteEnvironmentRow :: "jstr \<Rightarrow> tdb \<Rightarrow> tdb" where
  "deleteEnvironmentRow i db = db\<lparr>t_envs := filter (\<lambda>e. en_id e \<noteq> i) (t_envs db)\<rparr>"

definition auditTenant :: "jstr \<Rightarrow> nat \<Rightarrow> NewAudit \<Rightarrow> tdb \<Rightarrow> tdb" where
  "auditTenant newId now v db = db\<lparr>t_audit := insertAuditRow newId (now * 1000) v (t_audit db)\<rparr>"

subsection \<open>DTOs\<close>

record WorkspaceDto =
  wd_id :: jstr
  wd_name :: jstr
  wd_slug :: jstr
  wd_createdAt :: jstr
  wd_updatedAt :: jstr

definition toWorkspaceDto :: "WorkspaceRow \<Rightarrow> WorkspaceDto" where
  "toWorkspaceDto row = \<lparr>wd_id = wr_id row, wd_name = wr_name row, wd_slug = wr_slug row,
     wd_createdAt = isoText (wr_createdAt row), wd_updatedAt = isoText (wr_updatedAt row)\<rparr>"

record ProjectDto =
  pt_id :: jstr
  pt_workspaceId :: jstr
  pt_name :: jstr
  pt_slug :: jstr
  pt_description :: "jstr option"
  pt_timezone :: jstr
  pt_retentionDays :: int
  pt_createdAt :: jstr
  pt_updatedAt :: jstr

definition toProjectDto :: "ProjectRow \<Rightarrow> ProjectDto" where
  "toProjectDto row = \<lparr>pt_id = pj_id row, pt_workspaceId = pj_workspaceId row, pt_name = pj_name row, pt_slug = pj_slug row,
     pt_description = pj_description row, pt_timezone = pj_timezone row, pt_retentionDays = pj_retentionDays row,
     pt_createdAt = isoText (pj_createdAt row), pt_updatedAt = isoText (pj_updatedAt row)\<rparr>"

record EnvironmentDto =
  ed_id :: jstr
  ed_projectId :: jstr
  ed_name :: jstr
  ed_baseUrl :: "jstr option"
  ed_isDefault :: bool
  ed_createdAt :: jstr
  ed_updatedAt :: jstr

definition toEnvironmentDto :: "EnvironmentRow \<Rightarrow> EnvironmentDto" where
  "toEnvironmentDto row = \<lparr>ed_id = en_id row, ed_projectId = en_projectId row, ed_name = en_name row, ed_baseUrl = en_baseUrl row,
     ed_isDefault = en_isDefault row, ed_createdAt = isoText (en_createdAt row), ed_updatedAt = isoText (en_updatedAt row)\<rparr>"

subsection \<open>Workspaces\<close>

definition resolveSlug :: "string \<Rightarrow> jstr \<Rightarrow> jstr option \<Rightarrow> thrown + jstr" where
  "resolveSlug what name explicit =
     (let raw = (case explicit of Some s \<Rightarrow> if trim s \<noteq> [] then s else name | None \<Rightarrow> name);
          slug = normalizeSlugValue raw
      in if length slug < 2 \<or> 100 < length slug
         then Inl (Domain (validationError (js what @ js '' slug must be 2-100 chars after normalization''))) else Inr slug)"

text \<open>\<open>m.role as WorkspaceRole\<close>: the check constraint of the column leaves no other text.\<close>

definition castRole :: "jstr \<Rightarrow> WorkspaceRole" where
  "castRole r = (if r = js ''owner'' then Owner else if r = js ''admin'' then Admin
     else if r = js ''member'' then Member else Viewer)"

definition viewOf :: "MembershipRow \<Rightarrow> MembershipView" where
  "viewOf m = \<lparr>mv_workspaceId = m_workspaceId m, mv_userId = m_userId m, mv_role = castRole (m_role m)\<rparr>"

definition memberOrThrow :: "tdb \<Rightarrow> jstr \<Rightarrow> jstr \<Rightarrow> thrown + MembershipView" where
  "memberOrThrow db ws user = requireWorkspaceMembership (map_option viewOf (findMembershipRow db ws user))"

definition createWorkspaceTx :: "(nat \<Rightarrow> jstr) \<Rightarrow> nat \<Rightarrow> jstr \<Rightarrow> jstr \<Rightarrow> jstr \<Rightarrow> WorkspaceRow tx" where
  "createWorkspaceTx ids now actor name slug db =
     bindE (insertWorkspace (ids 0) now name slug actor db) (\<lambda>(ws, db1).
     bindE (insertMembership (ids 1) (wr_id ws) actor (js ''owner'') db1) (\<lambda>(m, db2).
       Inr (ws, auditTenant (ids 2) now \<lparr>na_workspaceId = wr_id ws, na_projectId = None, na_actorUserId = Some actor,
              na_action = js ''workspace.created'',
              na_metadata = Some (JObj [(js ''workspaceId'', JStr (wr_id ws)), (js ''slug'', JStr (wr_slug ws)), (js ''name'', JStr (wr_name ws))])\<rparr> db2)))"

definition createWorkspace :: "(nat \<Rightarrow> jstr) \<Rightarrow> nat \<Rightarrow> jstr \<Rightarrow> jstr \<Rightarrow> jstr option \<Rightarrow> tdb \<Rightarrow> (thrown + WorkspaceDto) \<times> tdb" where
  "createWorkspace ids now actor inputName inputSlug db =
     (let name = trim inputName
      in if name = [] then (Inl (Domain (validationError (js ''Workspace name is required''))), db)
         else case resolveSlug ''Workspace'' name inputSlug of
                Inl e \<Rightarrow> (Inl e, db)
              | Inr slug \<Rightarrow>
                  (case runTx (Domain (conflict (js ''Workspace slug already exists''))) (createWorkspaceTx ids now actor name slug) db of
                     (r, db') \<Rightarrow> (map_sum id toWorkspaceDto r, db')))"

fun listMine :: "tdb \<Rightarrow> MembershipRow list \<Rightarrow> (WorkspaceDto \<times> WorkspaceRole) list" where
  "listMine db [] = []"
| "listMine db (m # ms) =
     (case findWorkspaceById db (m_workspaceId m) of
        None \<Rightarrow> listMine db ms
      | Some ws \<Rightarrow> (toWorkspaceDto ws, castRole (m_role m)) # listMine db ms)"

definition listMyWorkspaces :: "tdb \<Rightarrow> jstr \<Rightarrow> (WorkspaceDto \<times> WorkspaceRole) list" where
  "listMyWorkspaces db user = listMine db (listMembershipsByUser db user)"

definition getWorkspace :: "tdb \<Rightarrow> jstr \<Rightarrow> jstr \<Rightarrow> thrown + WorkspaceDto \<times> WorkspaceRole" where
  "getWorkspace db user ws =
     bindE (memberOrThrow db ws user) (\<lambda>checked.
       case findWorkspaceById db ws of
         None \<Rightarrow> Inl (Domain (notFound (js ''Workspace'')))
       | Some row \<Rightarrow> Inr (toWorkspaceDto row, mv_role checked))"

text \<open>A stable sort by a comparison of the locale.\<close>

fun insertBy :: "('a \<Rightarrow> 'a \<Rightarrow> bool) \<Rightarrow> 'a \<Rightarrow> 'a list \<Rightarrow> 'a list" where
  "insertBy le x [] = [x]"
| "insertBy le x (y # ys) = (if le x y then x # y # ys else y # insertBy le x ys)"

definition sortBy :: "('a \<Rightarrow> 'a \<Rightarrow> bool) \<Rightarrow> 'a list \<Rightarrow> 'a list" where
  "sortBy le xs = foldr (insertBy le) xs []"

definition listWorkspaceMembers :: "(jstr \<Rightarrow> jstr \<Rightarrow> bool) \<Rightarrow> tdb \<Rightarrow> jstr \<Rightarrow> jstr \<Rightarrow> thrown + WorkspaceMember list" where
  "listWorkspaceMembers localeLe db user ws =
     bindE (memberOrThrow db ws user) (\<lambda>_.
       Inr (sortBy (\<lambda>a b. localeLe (wm_email a) (wm_email b))
         (List.map_filter (\<lambda>m. map_option (\<lambda>u. \<lparr>wm_id = u_id u, wm_name = u_name u, wm_email = u_email u, wm_role = castRole (m_role m)\<rparr>)
              (List.find (\<lambda>u. u_id u = m_userId m) (t_users db)))
           (filter (\<lambda>m. m_workspaceId m = ws) (t_members db)))))"

definition optField :: "string \<Rightarrow> jstr option \<Rightarrow> (jstr \<times> json) list" where
  "optField k v = (case v of None \<Rightarrow> [] | Some s \<Rightarrow> [(js k, JStr s)])"

definition updateWorkspaceTx :: "(nat \<Rightarrow> jstr) \<Rightarrow> nat \<Rightarrow> jstr \<Rightarrow> jstr \<Rightarrow> WorkspacePatch \<Rightarrow> WorkspaceRow tx" where
  "updateWorkspaceTx ids now user ws p db =
     bindE (updateWorkspaceRow now ws p db) (\<lambda>(row, db1).
       case row of
         None \<Rightarrow> Inl (Thr (Domain (notFound (js ''Workspace''))))
       | Some r \<Rightarrow> Inr (r, auditTenant (ids 0) now \<lparr>na_workspaceId = ws, na_projectId = None, na_actorUserId = Some user,
              na_action = js ''workspace.updated'',
              na_metadata = Some (JObj [(js ''workspaceId'', JStr ws),
                (js ''patch'', JObj (optField ''name'' (wp_name p) @ optField ''slug'' (wp_slug p)))])\<rparr> db1))"

definition normalizeWorkspacePatch :: "WorkspacePatch \<Rightarrow> thrown + WorkspacePatch" where
  "normalizeWorkspacePatch patch =
     bindE (case wp_name patch of
              None \<Rightarrow> Inr None
            | Some n \<Rightarrow> if trim n = [] then Inl (Domain (validationError (js ''Workspace name must not be empty''))) else Inr (Some (trim n)))
       (\<lambda>name. bindE (case wp_slug patch of
              None \<Rightarrow> Inr None
            | Some s \<Rightarrow> bindE (resolveSlug ''Workspace'' (patched (wp_name patch) (js ''x'')) (Some s)) (\<lambda>slug. Inr (Some slug)))
       (\<lambda>slug. Inr \<lparr>wp_name = name, wp_slug = slug\<rparr>))"

definition updateWorkspace :: "(nat \<Rightarrow> jstr) \<Rightarrow> nat \<Rightarrow> jstr \<Rightarrow> jstr \<Rightarrow> WorkspacePatch \<Rightarrow> tdb \<Rightarrow> (thrown + WorkspaceDto) \<times> tdb" where
  "updateWorkspace ids now user ws patch db =
     (case bindE (memberOrThrow db ws user) (\<lambda>checked. bindE (requireWorkspaceCapability checked workspace_update) (\<lambda>_.
             normalizeWorkspacePatch patch)) of
        Inl e \<Rightarrow> (Inl e, db)
      | Inr p \<Rightarrow>
          (case runTx (Domain (conflict (js ''Workspace slug already exists''))) (updateWorkspaceTx ids now user ws p) db of
             (r, db') \<Rightarrow> (map_sum id toWorkspaceDto r, db')))"

subsection \<open>Projects\<close>

text \<open>The key tables as the credential code sees them in this transaction.\<close>

definition keyTables :: "tdb \<Rightarrow> ktx" where
  "keyTables db = (\<lparr>kd_projects = [], kd_members = [], kd_keys = t_keys db, kd_origins = [], kd_audit = [], kd_next = t_nextKey db\<rparr>, False)"

definition insertFirstKey :: "digest \<Rightarrow> nat \<Rightarrow> (nat \<Rightarrow> entropy) \<Rightarrow> jstr \<Rightarrow> (jstr \<times> jstr) tx" where
  "insertFirstKey sha256 now rand pid db =
     (case insertAttempts now (\<lambda>attempt. generatePublicKey (rand attempt)) (hashPublicKey sha256)
             (\<lambda>prefix h. \<lparr>nk_projectId = pid, nk_kind = js ''public_ingest'', nk_name = js ''default'', nk_prefix = prefix, nk_keyHash = h\<rparr>)
             0 (keyTables db) of
        (Inl e, _) \<Rightarrow> Inl (if e = sqlText Keys.UniqueViolation then Dup else Thr e)
      | (Inr None, _) \<Rightarrow> Inl (stmtError ''Failed to create project key'')
      | (Inr (Some (row, full, prefix)), (k, _)) \<Rightarrow>
          if full = [] then Inl (stmtError ''Failed to create project key'')
          else Inr ((full, prefix), db\<lparr>t_keys := kd_keys k, t_nextKey := kd_next k\<rparr>))"

record CreateProjectInput =
  ci_name :: jstr
  ci_slug :: "jstr option"
  ci_description :: "jstr option"
  ci_timezone :: "jstr option"
  ci_retentionDays :: "rat option"

definition isInteger :: "rat \<Rightarrow> bool" where "isInteger q \<longleftrightarrow> q = of_int \<lfloor>q\<rfloor>"

definition checkRetention :: "rat \<Rightarrow> thrown + int" where
  "checkRetention q =
     (if \<not> isInteger q \<or> q < 7 \<or> 365 < q then Inl (Domain (validationError (js ''retentionDays must be an integer 7-365'')))
      else Inr \<lfloor>q\<rfloor>)"

definition emptyToNull :: "jstr \<Rightarrow> jstr option" where
  "emptyToNull s = (if trim s = [] then None else Some (trim s))"

definition normalizeProject :: "jstr \<Rightarrow> CreateProjectInput \<Rightarrow> thrown + NewProject" where
  "normalizeProject ws input =
     (let name = trim (ci_name input)
      in if name = [] then Inl (Domain (validationError (js ''Project name is required'')))
         else bindE (resolveSlug ''Project'' name (ci_slug input)) (\<lambda>slug.
           let timezone = (let t = trim (patched (ci_timezone input) (js ''UTC'')) in if t = [] then js ''UTC'' else t)
           in bindE (checkRetention (patched (ci_retentionDays input) 30)) (\<lambda>days.
                Inr \<lparr>np_workspaceId = ws, np_name = name, np_slug = slug,
                      np_description = Option.bind (ci_description input) emptyToNull, np_timezone = timezone, np_retentionDays = days\<rparr>)))"

definition createProjectTx ::
    "digest \<Rightarrow> (nat \<Rightarrow> entropy) \<Rightarrow> (nat \<Rightarrow> jstr) \<Rightarrow> nat \<Rightarrow> jstr \<Rightarrow> NewProject \<Rightarrow> (ProjectRow \<times> EnvironmentRow \<times> jstr \<times> jstr) tx" where
  "createProjectTx sha256 rand ids now actor v db =
     bindE (insertProject (ids 0) now v db) (\<lambda>(project, db1).
     bindE (insertEnvironment (ids 1) now (pj_id project) (js ''production'') None True db1) (\<lambda>(env, db2).
     bindE (insertFirstKey sha256 now rand (pj_id project) db2) (\<lambda>((full, prefix), db3).
       Inr ((project, env, full, prefix),
            auditTenant (ids 2) now \<lparr>na_workspaceId = np_workspaceId v, na_projectId = Some (pj_id project), na_actorUserId = Some actor,
              na_action = js ''project.created'',
              na_metadata = Some (JObj [(js ''projectId'', JStr (pj_id project)), (js ''slug'', JStr (pj_slug project)),
                (js ''name'', JStr (pj_name project)), (js ''keyPrefix'', JStr prefix)])\<rparr> db3))))"

record ProjectBootstrap =
  bo_project :: ProjectDto
  bo_defaultEnvironment :: EnvironmentDto
  bo_key :: jstr
  bo_prefix :: jstr

definition createProject ::
    "digest \<Rightarrow> (nat \<Rightarrow> entropy) \<Rightarrow> (nat \<Rightarrow> jstr) \<Rightarrow> nat \<Rightarrow> jstr \<Rightarrow> jstr \<Rightarrow> CreateProjectInput \<Rightarrow> tdb \<Rightarrow> (thrown + ProjectBootstrap) \<times> tdb" where
  "createProject sha256 rand ids now actor ws input db =
     (case bindE (memberOrThrow db ws actor) (\<lambda>m. bindE (requireWorkspaceCapability m project_create) (\<lambda>_. normalizeProject ws input)) of
        Inl e \<Rightarrow> (Inl e, db)
      | Inr v \<Rightarrow>
          (case runTx (Domain (conflict (js ''Project slug already exists in this workspace''))) (createProjectTx sha256 rand ids now actor v) db of
             (r, db') \<Rightarrow> (map_sum id (\<lambda>(p, e, full, prefix). \<lparr>bo_project = toProjectDto p, bo_defaultEnvironment = toEnvironmentDto e,
                                bo_key = full, bo_prefix = prefix\<rparr>) r, db')))"

definition listProjects :: "tdb \<Rightarrow> jstr \<Rightarrow> jstr \<Rightarrow> thrown + ProjectDto list" where
  "listProjects db user ws =
     bindE (memberOrThrow db ws user) (\<lambda>m. bindE (requireWorkspaceCapability m project_read) (\<lambda>_.
       Inr (map toProjectDto (listProjectsByWorkspace db ws))))"

definition projectOrNotFound :: "tdb \<Rightarrow> jstr \<Rightarrow> thrown + ProjectRow" where
  "projectOrNotFound db pid =
     (case findProjectById db pid of None \<Rightarrow> Inl (Domain (notFound (js ''Project''))) | Some p \<Rightarrow> Inr p)"

definition projectViewOf :: "ProjectRow \<Rightarrow> ProjectView" where
  "projectViewOf p = \<lparr>pv_id = pj_id p, pv_workspaceId = pj_workspaceId p\<rparr>"

definition readableProject :: "tdb \<Rightarrow> jstr \<Rightarrow> jstr \<Rightarrow> thrown + ProjectRow" where
  "readableProject db user pid =
     bindE (projectOrNotFound db pid) (\<lambda>p.
     bindE (requireProjectAccess (map_option viewOf (findMembershipRow db (pj_workspaceId p) user)) (Some (projectViewOf p))) (\<lambda>_. Inr p))"

definition getProjectById :: "tdb \<Rightarrow> jstr \<Rightarrow> jstr \<Rightarrow> thrown + ProjectDto" where
  "getProjectById db user pid = bindE (readableProject db user pid) (\<lambda>p. Inr (toProjectDto p))"

record UpdateProjectInput =
  ui_name :: "jstr option"
  ui_slug :: "jstr option"
  ui_description :: "jstr option option"
  ui_timezone :: "jstr option"
  ui_retentionDays :: "rat option"

definition normalizeProjectPatch :: "ProjectRow \<Rightarrow> UpdateProjectInput \<Rightarrow> thrown + ProjectPatch" where
  "normalizeProjectPatch existing patch =
     bindE (case ui_name patch of
              None \<Rightarrow> Inr None
            | Some n \<Rightarrow> if trim n = [] then Inl (Domain (validationError (js ''Project name must not be empty''))) else Inr (Some (trim n))) (\<lambda>name.
     bindE (case ui_slug patch of
              None \<Rightarrow> Inr None
            | Some s \<Rightarrow> bindE (resolveSlug ''Project'' (patched (ui_name patch) (pj_name existing)) (Some s)) (\<lambda>slug. Inr (Some slug))) (\<lambda>slug.
     bindE (case ui_timezone patch of
              None \<Rightarrow> Inr None
            | Some t \<Rightarrow> if trim t = [] then Inl (Domain (validationError (js ''Timezone must not be empty''))) else Inr (Some (trim t))) (\<lambda>tz.
     bindE (case ui_retentionDays patch of None \<Rightarrow> Inr None | Some q \<Rightarrow> bindE (checkRetention q) (\<lambda>d. Inr (Some d))) (\<lambda>days.
       Inr \<lparr>pp_name = name, pp_slug = slug,
             pp_description = map_option (\<lambda>d. Option.bind d emptyToNull) (ui_description patch),
             pp_timezone = tz, pp_retentionDays = days\<rparr>))))"

definition projectPatchJson :: "ProjectPatch \<Rightarrow> json" where
  "projectPatchJson p = JObj (optField ''name'' (pp_name p) @ optField ''slug'' (pp_slug p)
     @ (case pp_description p of None \<Rightarrow> [] | Some None \<Rightarrow> [(js ''description'', JNull)] | Some (Some d) \<Rightarrow> [(js ''description'', JStr d)])
     @ optField ''timezone'' (pp_timezone p)
     @ (case pp_retentionDays p of None \<Rightarrow> [] | Some d \<Rightarrow> [(js ''retentionDays'', JNum (of_int d))]))"

definition updateProjectTx :: "(nat \<Rightarrow> jstr) \<Rightarrow> nat \<Rightarrow> jstr \<Rightarrow> ProjectRow \<Rightarrow> ProjectPatch \<Rightarrow> ProjectRow tx" where
  "updateProjectTx ids now user existing p db =
     bindE (updateProjectRow now (pj_id existing) p db) (\<lambda>(row, db1).
       case row of
         None \<Rightarrow> Inl (Thr (Domain (notFound (js ''Project''))))
       | Some r \<Rightarrow> Inr (r, auditTenant (ids 0) now \<lparr>na_workspaceId = pj_workspaceId existing, na_projectId = Some (pj_id existing),
              na_actorUserId = Some user, na_action = js ''project.updated'',
              na_metadata = Some (JObj [(js ''projectId'', JStr (pj_id existing)), (js ''patch'', projectPatchJson p)])\<rparr> db1))"

definition updateProject :: "(nat \<Rightarrow> jstr) \<Rightarrow> nat \<Rightarrow> jstr \<Rightarrow> jstr \<Rightarrow> UpdateProjectInput \<Rightarrow> tdb \<Rightarrow> (thrown + ProjectDto) \<times> tdb" where
  "updateProject ids now user pid patch db =
     (case bindE (projectOrNotFound db pid) (\<lambda>existing.
             bindE (memberOrThrow db (pj_workspaceId existing) user) (\<lambda>m.
             bindE (requireProjectAccess (Some m) (Some (projectViewOf existing))) (\<lambda>_.
             bindE (requireWorkspaceCapability m project_update) (\<lambda>_.
             bindE (normalizeProjectPatch existing patch) (\<lambda>p. Inr (existing, p)))))) of
        Inl e \<Rightarrow> (Inl e, db)
      | Inr (existing, p) \<Rightarrow>
          (case runTx (Domain (conflict (js ''Project slug already exists in this workspace''))) (updateProjectTx ids now user existing p) db of
             (r, db') \<Rightarrow> (map_sum id toProjectDto r, db')))"

subsection \<open>Environments\<close>

definition environmentWriter :: "tdb \<Rightarrow> jstr \<Rightarrow> jstr \<Rightarrow> thrown + ProjectRow" where
  "environmentWriter db user pid =
     bindE (projectOrNotFound db pid) (\<lambda>p.
     bindE (memberOrThrow db (pj_workspaceId p) user) (\<lambda>m.
     bindE (requireWorkspaceCapability m environment_write) (\<lambda>_. Inr p)))"

definition baseUrlOf :: "(jstr \<Rightarrow> urlParts option) \<Rightarrow> jstr option \<Rightarrow> thrown + jstr option" where
  "baseUrlOf newURL u =
     (case u of
        None \<Rightarrow> Inr None
      | Some s \<Rightarrow> if trim s = [] then Inr None
          else (case parseBaseUrl newURL (JStr s) of Inl m \<Rightarrow> Inl (Domain (validationError m)) | Inr b \<Rightarrow> Inr (Some b)))"

record CreateEnvironmentInput =
  ce_name :: jstr
  ce_baseUrl :: "jstr option"
  ce_isDefault :: "bool option"

definition createEnvironmentTx :: "jstr \<Rightarrow> nat \<Rightarrow> jstr \<Rightarrow> jstr \<Rightarrow> jstr option \<Rightarrow> bool option \<Rightarrow> EnvironmentRow tx" where
  "createEnvironmentTx newId now pid name baseUrl isDefault db =
     insertEnvironment newId now pid name baseUrl (patched isDefault False)
       (if isDefault = Some True then clearDefaultEnvironments now pid db else db)"

definition createEnvironment ::
    "(jstr \<Rightarrow> urlParts option) \<Rightarrow> jstr \<Rightarrow> nat \<Rightarrow> jstr \<Rightarrow> jstr \<Rightarrow> CreateEnvironmentInput \<Rightarrow> tdb \<Rightarrow> (thrown + EnvironmentDto) \<times> tdb" where
  "createEnvironment newURL newId now user pid input db =
     (case bindE (environmentWriter db user pid) (\<lambda>_.
             if trim (ce_name input) = [] then Inl (Domain (validationError (js ''Environment name is required'')))
             else baseUrlOf newURL (ce_baseUrl input)) of
        Inl e \<Rightarrow> (Inl e, db)
      | Inr baseUrl \<Rightarrow>
          (case runTx (Domain (conflict (js ''Environment name already exists in this project'')))
                  (createEnvironmentTx newId now pid (trim (ce_name input)) baseUrl (ce_isDefault input)) db of
             (r, db') \<Rightarrow> (map_sum id toEnvironmentDto r, db')))"

definition listEnvironments :: "tdb \<Rightarrow> jstr \<Rightarrow> jstr \<Rightarrow> thrown + EnvironmentDto list" where
  "listEnvironments db user pid = bindE (readableProject db user pid) (\<lambda>p. Inr (map toEnvironmentDto (listEnvironmentsByProject db pid)))"

definition normalizeEnvironmentPatch :: "(jstr \<Rightarrow> urlParts option) \<Rightarrow> EnvironmentPatch \<Rightarrow> thrown + EnvironmentPatch" where
  "normalizeEnvironmentPatch newURL patch =
     bindE (case ep_name patch of
              None \<Rightarrow> Inr None
            | Some n \<Rightarrow> if trim n = [] then Inl (Domain (validationError (js ''Environment name must not be empty''))) else Inr (Some (trim n))) (\<lambda>name.
     bindE (case ep_baseUrl patch of None \<Rightarrow> Inr None | Some u \<Rightarrow> bindE (baseUrlOf newURL u) (\<lambda>b. Inr (Some b))) (\<lambda>b.
       Inr \<lparr>ep_name = name, ep_baseUrl = b, ep_isDefault = ep_isDefault patch\<rparr>))"

definition updateEnvironmentTx :: "nat \<Rightarrow> EnvironmentRow \<Rightarrow> EnvironmentPatch \<Rightarrow> EnvironmentRow tx" where
  "updateEnvironmentTx now existing p db =
     bindE (updateEnvironmentRow now (en_id existing) p
              (if ep_isDefault p = Some True then clearDefaultEnvironments now (en_projectId existing) db else db)) (\<lambda>(row, db1).
       case row of None \<Rightarrow> Inl (Thr (Domain (notFound (js ''Environment'')))) | Some r \<Rightarrow> Inr (r, db1))"

definition environmentOrNotFound :: "tdb \<Rightarrow> jstr \<Rightarrow> thrown + EnvironmentRow" where
  "environmentOrNotFound db i =
     (case findEnvironmentById db i of None \<Rightarrow> Inl (Domain (notFound (js ''Environment''))) | Some e \<Rightarrow> Inr e)"

definition updateEnvironment ::
    "(jstr \<Rightarrow> urlParts option) \<Rightarrow> nat \<Rightarrow> jstr \<Rightarrow> jstr \<Rightarrow> EnvironmentPatch \<Rightarrow> tdb \<Rightarrow> (thrown + EnvironmentDto) \<times> tdb" where
  "updateEnvironment newURL now user i patch db =
     (case bindE (environmentOrNotFound db i) (\<lambda>existing.
             bindE (environmentWriter db user (en_projectId existing)) (\<lambda>_.
             bindE (normalizeEnvironmentPatch newURL patch) (\<lambda>p. Inr (existing, p)))) of
        Inl e \<Rightarrow> (Inl e, db)
      | Inr (existing, p) \<Rightarrow>
          (case runTx (Domain (conflict (js ''Environment name already exists in this project''))) (updateEnvironmentTx now existing p) db of
             (r, db') \<Rightarrow> (map_sum id toEnvironmentDto r, db')))"

text \<open>
  Deleting: the count is read before the transaction; \<open>others\<close> are the commits of other requests
  between. The smallest name of the rest takes over the default.
\<close>

definition promoteEnvironment :: "(jstr \<Rightarrow> jstr \<Rightarrow> bool) \<Rightarrow> nat \<Rightarrow> jstr \<Rightarrow> unit tx" where
  "promoteEnvironment localeLe now pid db =
     (case sortBy (\<lambda>a b. localeLe (en_name a) (en_name b)) (listEnvironmentsByProject db pid) of
        [] \<Rightarrow> Inr ((), db)
      | next # _ \<Rightarrow> bindE (updateEnvironmentRow now (en_id next) \<lparr>ep_name = None, ep_baseUrl = None, ep_isDefault = Some True\<rparr> db)
                      (\<lambda>(_, db1). Inr ((), db1)))"

definition deleteEnvironmentTx :: "(jstr \<Rightarrow> jstr \<Rightarrow> bool) \<Rightarrow> nat \<Rightarrow> EnvironmentRow \<Rightarrow> unit tx" where
  "deleteEnvironmentTx localeLe now existing db =
     (let db1 = deleteEnvironmentRow (en_id existing) db
      in if en_isDefault existing then promoteEnvironment localeLe now (en_projectId existing) db1 else Inr ((), db1))"

definition deleteEnvironment ::
    "(jstr \<Rightarrow> jstr \<Rightarrow> bool) \<Rightarrow> (tdb \<Rightarrow> tdb) \<Rightarrow> nat \<Rightarrow> jstr \<Rightarrow> jstr \<Rightarrow> tdb \<Rightarrow> (thrown + bool) \<times> tdb" where
  "deleteEnvironment localeLe others now user i db =
     (case findEnvironmentById db i of
        None \<Rightarrow> (Inr False, db)
      | Some existing \<Rightarrow>
          (case environmentWriter db user (en_projectId existing) of
             Inl e \<Rightarrow> (Inl e, db)
           | Inr _ \<Rightarrow>
               if length (listEnvironmentsByProject db (en_projectId existing)) \<le> 1
               then (Inl (Domain (validationError (js ''Cannot delete the last environment of a project''))), db)
               else (case runTx (PlainError (js ''duplicate key value violates unique constraint''))
                              (deleteEnvironmentTx localeLe now existing) (others db) of
                       (r, db') \<Rightarrow> (map_sum id (\<lambda>_. True) r, db'))))"

end
