(* ===== verification/TenancyLaws.thy ===== *)
theory TenancyLaws
  imports Tenancy
begin

text \<open>
  What the tenancy operations keep: every slug is well formed and unique in its scope, every row
  hangs on an existing one, a project has an environment and at most one default.
\<close>

subsection \<open>The invariant\<close>

definition slugOk :: "jstr \<Rightarrow> bool" where
  "slugOk s \<longleftrightarrow> slugShaped s \<and> 2 \<le> length s \<and> length s \<le> 100"

definition workspacesOk :: "tdb \<Rightarrow> bool" where
  "workspacesOk db \<longleftrightarrow> distinct (map wr_id (t_workspaces db)) \<and> distinct (map wr_slug (t_workspaces db))
     \<and> (\<forall>w \<in> set (t_workspaces db). slugOk (wr_slug w))"

definition membersOk :: "tdb \<Rightarrow> bool" where
  "membersOk db \<longleftrightarrow> distinct (map (\<lambda>m. (m_workspaceId m, m_userId m)) (t_members db))
     \<and> m_workspaceId ` set (t_members db) \<subseteq> wr_id ` set (t_workspaces db)"

definition projectsOk :: "tdb \<Rightarrow> bool" where
  "projectsOk db \<longleftrightarrow> distinct (map pj_id (t_projects db))
     \<and> distinct (map (\<lambda>p. (pj_workspaceId p, pj_slug p)) (t_projects db))
     \<and> (\<forall>p \<in> set (t_projects db). slugOk (pj_slug p) \<and> retentionCheck (pj_retentionDays p))
     \<and> pj_workspaceId ` set (t_projects db) \<subseteq> wr_id ` set (t_workspaces db)
     \<and> rd_projects (t_rel db) = map pj_id (t_projects db)"

definition envRowsOk :: "tdb \<Rightarrow> bool" where
  "envRowsOk db \<longleftrightarrow> distinct (map en_id (t_envs db))
     \<and> distinct (map (\<lambda>e. (en_projectId e, en_name e)) (t_envs db))
     \<and> (\<forall>e \<in> set (t_envs db). \<forall>e' \<in> set (t_envs db).
          en_isDefault e \<and> en_isDefault e' \<and> en_projectId e = en_projectId e' \<longrightarrow> e = e')"

text \<open>The projects that have an environment are all of them.\<close>

definition envCover :: "tdb \<Rightarrow> bool" where
  "envCover db \<longleftrightarrow> en_projectId ` set (t_envs db) = pj_id ` set (t_projects db)"

definition tenancyOk :: "tdb \<Rightarrow> bool" where
  "tenancyOk db \<longleftrightarrow> workspacesOk db \<and> membersOk db \<and> projectsOk db \<and> envRowsOk db \<and> envCover db"

lemma resolveSlug_ok: "resolveSlug w n s = Inr slug \<Longrightarrow> slugOk slug"
proof -
  assume "resolveSlug w n s = Inr slug"
  then obtain raw where "slug = normalizeSlugValue raw" "2 \<le> length slug" "length slug \<le> 100"
    by (auto simp: resolveSlug_def Let_def split: if_splits)
  then show ?thesis using normalized_shape [of raw] by (auto simp: slugOk_def)
qed

lemma tenancy_audit_frame [simp]:
  "t_workspaces (auditTenant i n v db) = t_workspaces db" "t_members (auditTenant i n v db) = t_members db"
  "t_projects (auditTenant i n v db) = t_projects db" "t_envs (auditTenant i n v db) = t_envs db"
  "t_rel (auditTenant i n v db) = t_rel db" "t_users (auditTenant i n v db) = t_users db"
  by (simp_all add: auditTenant_def)

lemma audit_ok [simp]: "tenancyOk (auditTenant i n v db) = tenancyOk db"
  by (simp add: tenancyOk_def workspacesOk_def membersOk_def projectsOk_def envRowsOk_def envCover_def)

lemma runTx_cases:
  "runTx dup body db = (r, db') \<Longrightarrow> (isl r \<and> db' = db) \<or> (\<exists>x. r = Inr x \<and> body db = Inr (x, db'))"
  by (auto simp: runTx_def split: sum.splits txError.splits prod.splits)

text \<open>An operation that ends in a transaction keeps what the transaction keeps.\<close>

lemma runTx_keeps:
  "tenancyOk db \<Longrightarrow> (\<And>x db'. body db = Inr (x, db') \<Longrightarrow> tenancyOk db') \<Longrightarrow> tenancyOk (snd (runTx dup body db))"
  by (auto simp: runTx_def split: sum.splits txError.splits prod.splits)

lemma patched_simps [simp]: "patched None x = x" "patched (Some y) x = y"
  by (simp_all add: patched_def)

subsection \<open>Workspaces\<close>

lemma distinct_map_update:
  assumes "distinct (map k xs)" "distinct (map f xs)"
    and "\<And>x. x \<in> set xs \<Longrightarrow> k x = i \<Longrightarrow> f (u x) = v"
    and "\<And>x. x \<in> set xs \<Longrightarrow> k x \<noteq> i \<Longrightarrow> f x \<noteq> v"
  shows "distinct (map f (map (\<lambda>x. if k x = i then u x else x) xs))"
  using assms
proof (induction xs)
  case (Cons x xs)
  show ?case
  proof (cases "k x = i")
    case True
    have "k x \<notin> k ` set xs" using Cons.prems(1) by simp
    then have "\<forall>y \<in> set xs. k y \<noteq> i" using True by blast
    then have "map (\<lambda>x. if k x = i then u x else x) xs = xs" by (intro map_idI) simp
    moreover have "v \<notin> f ` set xs" using Cons.prems(4) \<open>\<forall>y \<in> set xs. k y \<noteq> i\<close> by (metis imageE list.set_intros(2))
    moreover have "f (u x) = v" using Cons.prems(3) [of x] True by simp
    ultimately show ?thesis using Cons.prems(2) True by simp
  next
    case False
    have "f x \<notin> f ` (\<lambda>x. if k x = i then u x else x) ` set xs"
    proof
      assume "f x \<in> f ` (\<lambda>x. if k x = i then u x else x) ` set xs"
      then obtain y where y: "y \<in> set xs" "f x = f (if k y = i then u y else y)" by auto
      show False
      proof (cases "k y = i")
        case True
        then show False using y Cons.prems(3) [of y] Cons.prems(4) [of x] False by simp
      next
        case f: False
        then have "f x = f y" using y by simp
        then show False using y Cons.prems(2) by auto
      qed
    qed
    moreover have "distinct (map f (map (\<lambda>x. if k x = i then u x else x) xs))"
      by (rule Cons.IH) (use Cons.prems in auto)
    ultimately show ?thesis using False by (simp only: list.map distinct.simps list.set_map if_False simp_thms)
  qed
qed simp

lemma in_image: "c \<in> f ` S \<longleftrightarrow> (\<exists>x \<in> S. f x = c)"
  by auto

lemma find_fresh_last: "\<forall>y \<in> set xs. \<not> P y \<Longrightarrow> P x \<Longrightarrow> List.find P (xs @ [x]) = Some x"
  by (induction xs) auto

lemma map_update_id:
  "(\<And>x. f (u x) = f x) \<Longrightarrow> map f (map (\<lambda>x. if P x then u x else x) xs) = map f xs"
  by simp

lemma createWorkspaceTx_ok:
  assumes ok: "tenancyOk db" and s: "slugOk slug" and c: "createWorkspaceTx ids now actor name slug db = Inr (ws, db')"
  shows "tenancyOk db' \<and> findWorkspaceById db' (wr_id ws) = Some ws
    \<and> filter (\<lambda>m. m_workspaceId m = wr_id ws) (t_members db') = [\<lparr>m_id = ids 1, m_workspaceId = wr_id ws, m_userId = actor, m_role = js ''owner''\<rparr>]"
proof -
  let ?w = "\<lparr>wr_id = ids 0, wr_name = name, wr_slug = slug, wr_createdByUserId = actor, wr_createdAt = now, wr_updatedAt = now\<rparr>"
  let ?m = "\<lparr>m_id = ids 1, m_workspaceId = ids 0, m_userId = actor, m_role = js ''owner''\<rparr>"
  from c have new: "ids 0 \<notin> wr_id ` set (t_workspaces db)" "slug \<notin> wr_slug ` set (t_workspaces db)"
    and ws: "ws = ?w" and t: "t_workspaces db' = t_workspaces db @ [?w]" "t_members db' = t_members db @ [?m]"
      "t_projects db' = t_projects db" "t_envs db' = t_envs db" "t_rel db' = t_rel db"
    by (auto simp: createWorkspaceTx_def insertWorkspace_def insertMembership_def bindE_Inr Let_def split: if_splits)
  from ok have "m_workspaceId ` set (t_members db) \<subseteq> wr_id ` set (t_workspaces db)"
    by (simp add: tenancyOk_def membersOk_def)
  with new(1) have fresh: "\<forall>m \<in> set (t_members db). m_workspaceId m \<noteq> ids 0" by (metis image_subset_iff)
  have "filter (\<lambda>m. m_workspaceId m = ids 0) (t_members db) = []" using fresh by (simp add: filter_empty_conv)
  moreover have "findWorkspaceById db' (ids 0) = Some ?w"
    using new(1) unfolding findWorkspaceById_def t by (intro find_fresh_last) (auto simp: in_image)
  moreover have "tenancyOk db'"
    using ok new fresh s unfolding tenancyOk_def workspacesOk_def membersOk_def projectsOk_def envRowsOk_def envCover_def t
    by auto
  ultimately show ?thesis unfolding ws t by simp
qed

lemma updateWorkspaceTx_ok:
  assumes ok: "tenancyOk db" and s: "\<forall>slug. wp_slug p = Some slug \<longrightarrow> slugOk slug"
    and c: "updateWorkspaceTx ids now user ws p db = Inr (row, db')"
  shows "tenancyOk db'"
proof -
  let ?u = "\<lambda>w. if wr_id w = ws then patchWorkspace now p w else w"
  from c obtain w where w: "findWorkspaceById db ws = Some w"
    and f: "\<forall>w' \<in> set (t_workspaces db). wr_id w' = ws \<or> wr_slug w' \<noteq> patched (wp_slug p) (wr_slug w)"
    and t: "t_workspaces db' = map ?u (t_workspaces db)" "t_members db' = t_members db" "t_projects db' = t_projects db"
      "t_envs db' = t_envs db" "t_rel db' = t_rel db"
    by (auto simp: updateWorkspaceTx_def updateWorkspaceRow_def bindE_Inr list_ex_iff split: if_splits option.splits)
  from ok have wok: "workspacesOk db" by (simp add: tenancyOk_def)
  have one: "w' = w" if "w' \<in> set (t_workspaces db)" "wr_id w' = ws" for w'
    using wok that w find_SomeD [OF w [unfolded findWorkspaceById_def]]
    by (auto simp: workspacesOk_def distinct_map inj_on_def)
  have ids: "map wr_id (map ?u (t_workspaces db)) = map wr_id (t_workspaces db)"
    by (rule map_update_id) (simp add: patchWorkspace_def)
  have "distinct (map wr_slug (map ?u (t_workspaces db)))"
    using wok one f by (intro distinct_map_update [where v = "patched (wp_slug p) (wr_slug w)"])
      (auto simp: workspacesOk_def patchWorkspace_def)
  moreover have "\<forall>w' \<in> set (t_workspaces db). slugOk (wr_slug (?u w'))"
    using wok s by (cases "wp_slug p") (auto simp: workspacesOk_def patchWorkspace_def)
  then have "\<forall>w' \<in> set (map ?u (t_workspaces db)). slugOk (wr_slug w')" by (simp only: list.set_map ball_simps)
  ultimately have "workspacesOk db'" using wok unfolding workspacesOk_def t ids by blast
  moreover have "wr_id ` set (t_workspaces db') = wr_id ` set (t_workspaces db)"
    using ids unfolding t by (metis list.set_map)
  ultimately show ?thesis using ok unfolding tenancyOk_def membersOk_def projectsOk_def envRowsOk_def envCover_def t(2-) by simp
qed

lemma createWorkspace_keeps [inv_intro]:
  "tenancyOk db \<Longrightarrow> tenancyOk (snd (createWorkspace ids now actor n s db))"
proof -
  assume ok: "tenancyOk db"
  have "tenancyOk (snd (runTx d (createWorkspaceTx ids now actor (trim n) slug) db))" if "slugOk slug" for d slug
    by (rule runTx_keeps [OF ok]) (use createWorkspaceTx_ok [OF ok that] in blast)
  then show ?thesis using ok
    by (auto simp: createWorkspace_def Let_def split: sum.splits prod.splits dest: resolveSlug_ok)
       (metis resolveSlug_ok snd_conv)+
qed

lemma normalizeWorkspacePatch_ok: "normalizeWorkspacePatch patch = Inr p \<Longrightarrow> wp_slug p = Some slug \<Longrightarrow> slugOk slug"
  by (auto simp: normalizeWorkspacePatch_def bindE_Inr dest: resolveSlug_ok split: option.splits if_splits)

lemma updateWorkspace_keeps [inv_intro]:
  assumes ok: "tenancyOk db"
  shows "tenancyOk (snd (updateWorkspace ids now user ws patch db))"
proof -
  have "tenancyOk (snd (runTx d (updateWorkspaceTx ids now user ws p) db))" if "normalizeWorkspacePatch patch = Inr p" for d p
    by (rule runTx_keeps [OF ok]) (use updateWorkspaceTx_ok [OF ok] normalizeWorkspacePatch_ok [OF that] in blast)
  then show ?thesis using ok
    by (auto simp: updateWorkspace_def bindE_Inr split: sum.splits prod.splits) (metis snd_conv)+
qed

subsection \<open>Projects\<close>

lemma insertFirstKey_frame:
  assumes "insertFirstKey sha256 now rand pid db = Inr (x, db')"
  shows "t_workspaces db' = t_workspaces db \<and> t_members db' = t_members db \<and> t_projects db' = t_projects db
    \<and> t_envs db' = t_envs db \<and> t_rel db' = t_rel db"
  using assms by (auto simp: insertFirstKey_def split: prod.splits sum.splits option.splits if_splits)

lemma createProjectTx_ok:
  assumes ok: "tenancyOk db" and s: "slugOk (np_slug v)"
    and c: "createProjectTx sha256 rand ids now actor v db = Inr ((p, e, k), db')"
  shows "tenancyOk db' \<and> findProjectById db' (pj_id p) = Some p \<and> listEnvironmentsByProject db' (pj_id p) = [e] \<and> en_isDefault e"
proof -
  let ?p = "\<lparr>pj_id = ids 0, pj_workspaceId = np_workspaceId v, pj_name = np_name v, pj_slug = np_slug v,
      pj_description = np_description v, pj_timezone = np_timezone v, pj_retentionDays = np_retentionDays v, pj_createdAt = now, pj_updatedAt = now\<rparr>"
  let ?e = "\<lparr>en_id = ids 1, en_projectId = ids 0, en_name = js ''production'', en_baseUrl = None, en_isDefault = True, en_createdAt = now, en_updatedAt = now\<rparr>"
  from c obtain db1 db2 db3 full prefix where
    ins: "insertProject (ids 0) now v db = Inr (p, db1)"
    and env: "insertEnvironment (ids 1) now (pj_id p) (js ''production'') None True db1 = Inr (e, db2)"
    and key: "insertFirstKey sha256 now rand (pj_id p) db2 = Inr ((full, prefix), db3)"
    and fin: "t_workspaces db' = t_workspaces db3" "t_members db' = t_members db3" "t_projects db' = t_projects db3"
      "t_envs db' = t_envs db3" "t_rel db' = t_rel db3"
    by (auto simp: createProjectTx_def bindE_Inr simp del: One_nat_def split: prod.splits)
  from ins have p: "p = ?p" and ws: "np_workspaceId v \<in> wr_id ` set (t_workspaces db)" and ret: "retentionCheck (np_retentionDays v)"
    and fresh: "ids 0 \<notin> pj_id ` set (t_projects db)"
      "\<forall>q \<in> set (t_projects db). pj_workspaceId q = np_workspaceId v \<longrightarrow> pj_slug q \<noteq> np_slug v"
    and d1: "db1 = db\<lparr>t_projects := t_projects db @ [?p], t_rel := (t_rel db)\<lparr>rd_projects := rd_projects (t_rel db) @ [ids 0]\<rparr>\<rparr>"
    by (auto simp: insertProject_def Let_def list_ex_iff split: if_splits)
  from env have e: "e = ?e" and d2: "db2 = db1\<lparr>t_envs := t_envs db @ [?e]\<rparr>" and ef: "ids 1 \<notin> en_id ` set (t_envs db)"
    by (auto simp: insertEnvironment_def Let_def list_ex_iff p d1 split: if_splits)
  have t: "t_workspaces db' = t_workspaces db" "t_members db' = t_members db" "t_projects db' = t_projects db @ [?p]"
      "t_envs db' = t_envs db @ [?e]" "t_rel db' = (t_rel db)\<lparr>rd_projects := rd_projects (t_rel db) @ [ids 0]\<rparr>"
    using insertFirstKey_frame [OF key] fin d1 d2 by auto
  from ok fresh(1) have noenv: "\<forall>x \<in> set (t_envs db). en_projectId x \<noteq> ids 0"
    unfolding tenancyOk_def envCover_def by (metis imageI)
  have "projectsOk db'" using ok fresh ws ret s unfolding tenancyOk_def projectsOk_def t by (auto simp: in_image)
  moreover have "envRowsOk db'" using ok noenv ef unfolding tenancyOk_def envRowsOk_def t by (auto simp: in_image)
  moreover have "envCover db'" using ok unfolding tenancyOk_def envCover_def t by simp
  moreover have "workspacesOk db'" "membersOk db'" using ok unfolding tenancyOk_def workspacesOk_def membersOk_def t by simp_all
  moreover have "findProjectById db' (ids 0) = Some ?p"
    using fresh(1) unfolding findProjectById_def t by (intro find_fresh_last) (auto simp: in_image)
  moreover have "listEnvironmentsByProject db' (ids 0) = [?e]"
    using noenv unfolding listEnvironmentsByProject_def t by (simp add: filter_empty_conv)
  ultimately show ?thesis unfolding tenancyOk_def p e by simp
qed

lemma updateProjectTx_ok:
  assumes ok: "tenancyOk db" and s: "\<forall>slug. pp_slug p = Some slug \<longrightarrow> slugOk slug"
    and c: "updateProjectTx ids now user existing p db = Inr (row, db')"
  shows "tenancyOk db'"
proof -
  let ?i = "pj_id existing"
  let ?u = "\<lambda>r. if pj_id r = ?i then patchProject now p r else r"
  from c obtain r where r: "findProjectById db ?i = Some r" and ret: "retentionCheck (pj_retentionDays (patchProject now p r))"
    and f: "\<forall>r' \<in> set (t_projects db). pj_id r' = ?i \<or> pj_workspaceId r' \<noteq> pj_workspaceId r \<or> pj_slug r' \<noteq> patched (pp_slug p) (pj_slug r)"
    and t: "t_workspaces db' = t_workspaces db" "t_members db' = t_members db" "t_projects db' = map ?u (t_projects db)"
      "t_envs db' = t_envs db" "t_rel db' = t_rel db"
    by (auto simp: updateProjectTx_def updateProjectRow_def patchProject_def bindE_Inr list_ex_iff split: if_splits option.splits)
  from ok have pok: "projectsOk db" by (simp add: tenancyOk_def)
  have one: "r' = r" if "r' \<in> set (t_projects db)" "pj_id r' = ?i" for r'
    using pok that r find_SomeD [OF r [unfolded findProjectById_def]]
    by (auto simp: projectsOk_def distinct_map inj_on_def)
  have ids: "map pj_id (map ?u (t_projects db)) = map pj_id (t_projects db)"
    and wss: "map pj_workspaceId (map ?u (t_projects db)) = map pj_workspaceId (t_projects db)"
    by (rule map_update_id, simp add: patchProject_def)+
  have "distinct (map (\<lambda>p. (pj_workspaceId p, pj_slug p)) (map ?u (t_projects db)))"
    using pok one f by (intro distinct_map_update [where v = "(pj_workspaceId r, patched (pp_slug p) (pj_slug r))"])
      (auto simp: projectsOk_def patchProject_def)
  moreover have "\<forall>r' \<in> set (t_projects db). slugOk (pj_slug (?u r')) \<and> retentionCheck (pj_retentionDays (?u r'))"
    using pok s one ret by (cases "pp_slug p") (auto simp: projectsOk_def patchProject_def)
  then have "\<forall>r' \<in> set (map ?u (t_projects db)). slugOk (pj_slug r') \<and> retentionCheck (pj_retentionDays r')"
    by (simp only: list.set_map ball_simps)
  moreover have "pj_workspaceId ` set (map ?u (t_projects db)) = pj_workspaceId ` set (t_projects db)"
    "pj_id ` set (map ?u (t_projects db)) = pj_id ` set (t_projects db)"
    using ids wss by (metis list.set_map)+
  ultimately have "projectsOk db'" using pok ids unfolding projectsOk_def t by (intro conjI) (simp_all only:)
  moreover have "envCover db'" using ok \<open>pj_id ` set (map ?u (t_projects db)) = pj_id ` set (t_projects db)\<close>
    unfolding tenancyOk_def envCover_def t by (simp only:)
  moreover have "workspacesOk db' = workspacesOk db" "membersOk db' = membersOk db" "envRowsOk db' = envRowsOk db"
    by (simp_all only: workspacesOk_def membersOk_def envRowsOk_def t)
  ultimately show ?thesis using ok by (simp only: tenancyOk_def)
qed

lemma createProject_keeps [inv_intro]:
  assumes ok: "tenancyOk db"
  shows "tenancyOk (snd (createProject sha256 rand ids now actor ws input db))"
proof -
  have "tenancyOk (snd (runTx d (createProjectTx sha256 rand ids now actor v) db))" if "slugOk (np_slug v)" for d v
    by (rule runTx_keeps [OF ok]) (use createProjectTx_ok [OF ok that] in \<open>auto split: prod.splits\<close>)
  moreover have "slugOk (np_slug v)" if "normalizeProject ws input = Inr v" for v
    using that by (auto simp: normalizeProject_def Let_def bindE_Inr dest: resolveSlug_ok split: if_splits)
  ultimately show ?thesis using ok
    by (auto simp: createProject_def bindE_Inr split: sum.splits prod.splits) (metis snd_conv)+
qed

lemma normalizeProjectPatch_ok: "normalizeProjectPatch e patch = Inr p \<Longrightarrow> pp_slug p = Some slug \<Longrightarrow> slugOk slug"
  by (auto simp: normalizeProjectPatch_def bindE_Inr dest: resolveSlug_ok split: option.splits if_splits)

lemma updateProject_keeps [inv_intro]:
  assumes ok: "tenancyOk db"
  shows "tenancyOk (snd (updateProject ids now user pid patch db))"
proof -
  have "tenancyOk (snd (runTx d (updateProjectTx ids now user e p) db))" if "normalizeProjectPatch e patch = Inr p" for d e p
    by (rule runTx_keeps [OF ok]) (use updateProjectTx_ok [OF ok] normalizeProjectPatch_ok [OF that] in blast)
  then show ?thesis using ok
    by (auto simp: updateProject_def bindE_Inr split: sum.splits prod.splits) (metis snd_conv)+
qed

subsection \<open>Environments\<close>

text \<open>A change of the environments alone.\<close>

lemma envs_only:
  assumes ok: "tenancyOk db" and t: "t_workspaces db' = t_workspaces db" "t_members db' = t_members db"
      "t_projects db' = t_projects db" "t_rel db' = t_rel db"
    and e: "envRowsOk db'" "en_projectId ` set (t_envs db') = en_projectId ` set (t_envs db)"
  shows "tenancyOk db'"
proof -
  have "workspacesOk db' = workspacesOk db" "membersOk db' = membersOk db" "projectsOk db' = projectsOk db"
    by (simp_all only: workspacesOk_def membersOk_def projectsOk_def t)
  moreover have "envCover db' = envCover db" by (simp only: envCover_def e t)
  ultimately show ?thesis using ok e(1) by (simp only: tenancyOk_def)
qed

lemma envRowsOk_map:
  assumes "envRowsOk db" "t_envs db' = map f (t_envs db)"
    and "\<And>x. x \<in> set (t_envs db) \<Longrightarrow> en_id (f x) = en_id x \<and> en_projectId (f x) = en_projectId x \<and> en_name (f x) = en_name x
      \<and> (en_isDefault (f x) \<longrightarrow> en_isDefault x)"
  shows "envRowsOk db'"
proof -
  have "map en_id (t_envs db') = map en_id (t_envs db)"
    "map (\<lambda>e. (en_projectId e, en_name e)) (t_envs db') = map (\<lambda>e. (en_projectId e, en_name e)) (t_envs db)"
    using assms(2,3) by simp_all
  moreover have "e = e'" if d: "e \<in> set (t_envs db')" "e' \<in> set (t_envs db')" "en_isDefault e" "en_isDefault e'"
      "en_projectId e = en_projectId e'" for e e'
  proof -
    obtain x y where xy: "e = f x" "e' = f y" "x \<in> set (t_envs db)" "y \<in> set (t_envs db)"
      using d(1,2) assms(2) by auto
    then have "x = y" using assms(1,3) d(3-) unfolding envRowsOk_def by metis
    then show ?thesis using xy by simp
  qed
  ultimately show ?thesis using assms(1) unfolding envRowsOk_def by metis
qed

lemma clear_ok:
  assumes ok: "tenancyOk db"
  shows "tenancyOk (clearDefaultEnvironments now pid db)
    \<and> (\<forall>e \<in> set (t_envs (clearDefaultEnvironments now pid db)). en_projectId e = pid \<longrightarrow> \<not> en_isDefault e)"
proof -
  let ?f = "\<lambda>e. if en_projectId e = pid \<and> en_isDefault e then e\<lparr>en_isDefault := False, en_updatedAt := now\<rparr> else e"
  let ?db = "clearDefaultEnvironments now pid db"
  have t: "t_envs ?db = map ?f (t_envs db)" by (simp add: clearDefaultEnvironments_def)
  have "envRowsOk ?db"
  proof (rule envRowsOk_map [OF _ t])
    show "envRowsOk db" using ok by (simp add: tenancyOk_def)
  qed simp
  moreover have "en_projectId ` set (t_envs ?db) = en_projectId ` set (t_envs db)"
  proof -
    have "map en_projectId (map ?f (t_envs db)) = map en_projectId (t_envs db)" by simp
    then show ?thesis unfolding t by (metis list.set_map)
  qed
  ultimately have "tenancyOk ?db"
    by (intro envs_only [OF ok]) (simp_all add: clearDefaultEnvironments_def del: list.set_map)
  moreover have "\<forall>e \<in> set (map ?f (t_envs db)). en_projectId e = pid \<longrightarrow> \<not> en_isDefault e"
    by (simp only: list.set_map ball_simps) simp
  ultimately show ?thesis unfolding t by blast
qed

lemmas clear_keeps = clear_ok [THEN conjunct1]

lemma insertEnvironment_ok:
  assumes ok: "tenancyOk db" and i: "insertEnvironment newId now pid name b d db = Inr (e, db')"
  shows "tenancyOk db'"
proof -
  let ?e = "\<lparr>en_id = newId, en_projectId = pid, en_name = name, en_baseUrl = b, en_isDefault = d, en_createdAt = now, en_updatedAt = now\<rparr>"
  from i have p: "pid \<in> pj_id ` set (t_projects db)" and f: "newId \<notin> en_id ` set (t_envs db)"
      "\<forall>e \<in> set (t_envs db). en_projectId e = pid \<longrightarrow> en_name e \<noteq> name \<and> \<not> (d \<and> en_isDefault e)"
    and t: "t_envs db' = t_envs db @ [?e]" "t_workspaces db' = t_workspaces db" "t_members db' = t_members db"
      "t_projects db' = t_projects db" "t_rel db' = t_rel db"
    by (auto simp: insertEnvironment_def Let_def list_ex_iff split: if_splits)
  have cover: "en_projectId ` set (t_envs db) = pj_id ` set (t_projects db)" using ok by (simp add: tenancyOk_def envCover_def)
  show ?thesis
  proof (rule envs_only [OF ok t(2-5)])
    show "envRowsOk db'" using ok f unfolding tenancyOk_def envRowsOk_def t by (auto simp: in_image)
    show "en_projectId ` set (t_envs db') = en_projectId ` set (t_envs db)" using p unfolding t cover [symmetric] by auto
  qed
qed

lemma updateEnvironmentRow_ok:
  assumes ok: "tenancyOk db" and c: "updateEnvironmentRow now i p db = Inr (row, db')"
  shows "tenancyOk db'"
proof (cases "findEnvironmentById db i")
  case None
  then show ?thesis using ok c by (simp add: updateEnvironmentRow_def)
next
  case (Some e)
  let ?u = "\<lambda>x. if en_id x = i then patchEnvironment now p x else x"
  from Some c have f: "\<forall>x \<in> set (t_envs db). en_id x \<noteq> i \<and> en_projectId x = en_projectId e \<longrightarrow>
        en_name x \<noteq> patched (ep_name p) (en_name e) \<and> \<not> (patched (ep_isDefault p) (en_isDefault e) \<and> en_isDefault x)"
    and t: "t_envs db' = map ?u (t_envs db)" "t_workspaces db' = t_workspaces db" "t_members db' = t_members db"
      "t_projects db' = t_projects db" "t_rel db' = t_rel db"
    by (auto simp: updateEnvironmentRow_def patchEnvironment_def Let_def list_ex_iff split: if_splits)
  have eok: "envRowsOk db" using ok by (simp add: tenancyOk_def)
  have one: "x = e" if "x \<in> set (t_envs db)" "en_id x = i" for x
    using eok that Some find_SomeD [OF Some [unfolded findEnvironmentById_def]]
    by (auto simp: envRowsOk_def distinct_map inj_on_def)
  have ids: "map en_id (map ?u (t_envs db)) = map en_id (t_envs db)"
    and ps: "map en_projectId (map ?u (t_envs db)) = map en_projectId (t_envs db)"
    by (rule map_update_id, simp add: patchEnvironment_def)+
  have "distinct (map (\<lambda>e. (en_projectId e, en_name e)) (map ?u (t_envs db)))"
    using eok one f by (intro distinct_map_update [where v = "(en_projectId e, patched (ep_name p) (en_name e))"])
      (auto simp: envRowsOk_def patchEnvironment_def)
  moreover have "?u x = ?u y" if xy: "x \<in> set (t_envs db)" "y \<in> set (t_envs db)" "en_isDefault (?u x)" "en_isDefault (?u y)"
      "en_projectId (?u x) = en_projectId (?u y)" for x y
  proof (cases "en_id x = i")
    case True
    then have "x = e" using one xy by blast
    show ?thesis
    proof (cases "en_id y = i")
      case t: True
      then have "y = e" using one xy by blast
      with \<open>x = e\<close> show ?thesis by simp
    next
      case n: False
      have "en_projectId y = en_projectId e" "en_isDefault y" "patched (ep_isDefault p) (en_isDefault e)"
        using xy(3-5) True n \<open>x = e\<close> by (simp_all add: patchEnvironment_def)
      with f xy(2) n show ?thesis by blast
    qed
  next
    case False
    show ?thesis
    proof (cases "en_id y = i")
      case True
      then have "y = e" using one xy by blast
      have "en_projectId x = en_projectId e" "en_isDefault x" "patched (ep_isDefault p) (en_isDefault e)"
        using xy(3-5) True False \<open>y = e\<close> by (simp_all add: patchEnvironment_def)
      with f xy(1) False show ?thesis by blast
    next
      case n: False
      then show ?thesis using False xy eok unfolding envRowsOk_def by simp
    qed
  qed
  then have "\<forall>a \<in> set (map ?u (t_envs db)). \<forall>b \<in> set (map ?u (t_envs db)).
      en_isDefault a \<and> en_isDefault b \<and> en_projectId a = en_projectId b \<longrightarrow> a = b"
    by (simp only: list.set_map ball_simps) blast
  ultimately have "envRowsOk db'" using eok unfolding envRowsOk_def t ids by blast
  moreover have "en_projectId ` set (t_envs db') = en_projectId ` set (t_envs db)"
    using ps unfolding t by (metis list.set_map)
  ultimately show ?thesis using envs_only [OF ok t(2-5)] by blast
qed

lemma createEnvironment_keeps [inv_intro]:
  assumes ok: "tenancyOk db"
  shows "tenancyOk (snd (createEnvironment newURL newId now user pid input db))"
proof -
  have "tenancyOk (snd (runTx dup (createEnvironmentTx newId now pid n b d) db))" for dup n b d
    using insertEnvironment_ok [OF ok] insertEnvironment_ok [OF clear_keeps [OF ok]]
    by (intro runTx_keeps [OF ok]) (simp add: createEnvironmentTx_def split: if_splits)
  then show ?thesis using ok
    by (auto simp: createEnvironment_def bindE_Inr split: sum.splits prod.splits) (metis snd_conv)+
qed

lemma updateEnvironment_keeps [inv_intro]:
  assumes ok: "tenancyOk db"
  shows "tenancyOk (snd (updateEnvironment newURL now user i patch db))"
proof -
  have "tenancyOk (snd (runTx dup (updateEnvironmentTx now e p) db))" for dup e p
    using updateEnvironmentRow_ok [OF ok] updateEnvironmentRow_ok [OF clear_keeps [OF ok]]
    by (intro runTx_keeps [OF ok]) (auto simp: updateEnvironmentTx_def bindE_Inr split: if_splits option.splits)
  then show ?thesis using ok
    by (auto simp: updateEnvironment_def bindE_Inr split: sum.splits prod.splits) (metis snd_conv)+
qed

lemma set_insertBy [simp]: "set (insertBy le x xs) = insert x (set xs)"
  by (induction xs) auto

lemma set_sortBy [simp]: "set (sortBy le xs) = set xs"
  by (induction xs) (simp_all add: sortBy_def)

lemma another_element: "distinct xs \<Longrightarrow> 1 < length xs \<Longrightarrow> \<exists>y \<in> set xs. y \<noteq> x"
  by (cases xs; cases "tl xs") auto

lemma promote_ok: "tenancyOk db \<Longrightarrow> promoteEnvironment le now pid db = Inr (u, db') \<Longrightarrow> tenancyOk db'"
  by (auto simp: promoteEnvironment_def bindE_Inr split: list.splits intro: updateEnvironmentRow_ok)

lemma deleteRow_ok:
  assumes ok: "tenancyOk db" and mem: "existing \<in> set (t_envs db)"
    and two: "1 < length (listEnvironmentsByProject db (en_projectId existing))"
  shows "tenancyOk (deleteEnvironmentRow (en_id existing) db)"
proof -
  let ?db = "deleteEnvironmentRow (en_id existing) db"
  have eok: "envRowsOk db" using ok by (simp add: tenancyOk_def)
  then have "distinct (t_envs db)" unfolding envRowsOk_def distinct_map by blast
  then have "distinct (listEnvironmentsByProject db (en_projectId existing))" by (simp add: listEnvironmentsByProject_def)
  from another_element [OF this two, of existing] obtain other where o: "other \<in> set (t_envs db)"
      "en_projectId other = en_projectId existing" "other \<noteq> existing"
    by (auto simp: listEnvironmentsByProject_def)
  then have oid: "en_id other \<noteq> en_id existing" using eok mem unfolding envRowsOk_def distinct_map inj_on_def by blast
  have t: "t_envs ?db = filter (\<lambda>x. en_id x \<noteq> en_id existing) (t_envs db)" by (simp add: deleteEnvironmentRow_def)
  have "envRowsOk ?db" using eok unfolding envRowsOk_def t by (simp add: distinct_map_filter)
  moreover have "en_projectId ` set (t_envs ?db) = en_projectId ` set (t_envs db)"
  proof -
    have "x \<in> set (t_envs db) \<Longrightarrow> en_projectId x \<in> en_projectId ` set (t_envs ?db)" for x
    proof (cases "en_id x = en_id existing")
      case True
      assume "x \<in> set (t_envs db)"
      then have "x = existing" using True eok mem unfolding envRowsOk_def distinct_map inj_on_def by blast
      then show ?thesis using o oid unfolding t by (auto simp: in_image)
    qed (simp add: t)
    then show ?thesis unfolding t by auto
  qed
  ultimately show ?thesis by (intro envs_only [OF ok]) (simp_all add: deleteEnvironmentRow_def)
qed

lemma deleteEnvironment_keeps [inv_intro]:
  assumes ok: "tenancyOk db"
  shows "tenancyOk (snd (deleteEnvironment le (\<lambda>db. db) now user i db))"
proof (cases "findEnvironmentById db i")
  case None
  then show ?thesis using ok by (simp add: deleteEnvironment_def)
next
  case (Some e)
  then have mem: "e \<in> set (t_envs db)" by (auto simp: findEnvironmentById_def dest: find_SomeD)
  have "tenancyOk (snd (runTx dup (deleteEnvironmentTx le now e) db))"
    if "1 < length (listEnvironmentsByProject db (en_projectId e))" for dup
    using promote_ok [OF deleteRow_ok [OF ok mem that]] deleteRow_ok [OF ok mem that]
    by (intro runTx_keeps [OF ok]) (auto simp: deleteEnvironmentTx_def Let_def split: if_splits)
  then show ?thesis using ok Some
    by (auto simp: deleteEnvironment_def split: sum.splits prod.splits) (metis not_le snd_conv)+
qed

end
