(* ===== verification/Deletion.thy ===== *)
theory Deletion
  imports TenancyLaws Uploads
begin

text \<open>
  Deleting projects and workspaces (\<open>apps/api/src/services/deletion.ts\<close>) and the worker that
  removes the blobs afterwards (\<open>apps/worker/src/cleanup/artifact-deletion.ts\<close>). The delete
  statements carry the cascades of the schema (\<open>packages/db/src/schema.ts\<close>) for the tables kept
  here. The lemmas follow a blob from its artifact row through the outbox to its removal.
\<close>

subsection \<open>Cascades\<close>

definition nullProject :: "(jstr \<Rightarrow> bool) \<Rightarrow> DeletionRow \<Rightarrow> DeletionRow" where
  "nullProject gone d = (case do_projectId d of Some p \<Rightarrow> if gone p then d\<lparr>do_projectId := None\<rparr> else d | None \<Rightarrow> d)"

definition cascadeReleases :: "(jstr \<Rightarrow> bool) \<Rightarrow> rdb \<Rightarrow> rdb" where
  "cascadeReleases gone r =
     r\<lparr>rd_projects := filter (\<lambda>p. \<not> gone p) (rd_projects r),
       rd_releases := filter (\<lambda>x. \<not> gone (rl_projectId x)) (rd_releases r),
       rd_artifacts := filter (\<lambda>a. \<not> list_ex (\<lambda>x. rl_id x = ra_releaseId a \<and> gone (rl_projectId x)) (rd_releases r)) (rd_artifacts r),
       rd_deletions := map (nullProject gone) (rd_deletions r)\<rparr>"

definition cascadeProjects :: "(jstr \<Rightarrow> bool) \<Rightarrow> tdb \<Rightarrow> tdb" where
  "cascadeProjects gone db =
     db\<lparr>t_projects := filter (\<lambda>p. \<not> gone (pj_id p)) (t_projects db),
        t_envs := filter (\<lambda>e. \<not> gone (en_projectId e)) (t_envs db),
        t_keys := filter (\<lambda>k. \<not> gone (k_projectId k)) (t_keys db),
        t_audit := map (\<lambda>a. case al_projectId a of Some p \<Rightarrow> if gone p then a\<lparr>al_projectId := None\<rparr> else a | None \<Rightarrow> a) (t_audit db),
        t_rel := cascadeReleases gone (t_rel db)\<rparr>"

definition deleteProjectRow :: "jstr \<Rightarrow> tdb \<Rightarrow> tdb" where
  "deleteProjectRow i db = cascadeProjects (\<lambda>p. p = i) db"

definition deleteWorkspaceRow :: "jstr \<Rightarrow> tdb \<Rightarrow> tdb" where
  "deleteWorkspaceRow ws db =
     (let db1 = cascadeProjects (\<lambda>i. list_ex (\<lambda>p. pj_id p = i \<and> pj_workspaceId p = ws) (t_projects db)) db
      in db1\<lparr>t_workspaces := filter (\<lambda>w. wr_id w \<noteq> ws) (t_workspaces db1),
             t_members := filter (\<lambda>m. m_workspaceId m \<noteq> ws) (t_members db1),
             t_audit := filter (\<lambda>a. al_workspaceId a \<noteq> ws) (t_audit db1)\<rparr>)"

definition lockTenantMembers :: "tdb \<Rightarrow> jstr \<Rightarrow> MembershipRow list" where
  "lockTenantMembers db ws = sort_key m_id (filter (\<lambda>m. m_workspaceId m = ws) (t_members db))"

definition lockProjectsByWorkspace :: "tdb \<Rightarrow> jstr \<Rightarrow> ProjectRow list" where
  "lockProjectsByWorkspace db ws = sort_key pj_id (filter (\<lambda>p. pj_workspaceId p = ws) (t_projects db))"

subsection \<open>The service\<close>

definition requireConfirmationError :: DomainError where
  "requireConfirmationError = validationError (js ''Deletion confirmation does not match'')"

definition invalidArtifactMetadata :: thrown where
  "invalidArtifactMetadata = Domain (validationError (js ''Artifact storage metadata is invalid''))"

text \<open>The strict object with one text of 1 to 100 characters.\<close>

definition parseDeletionInput :: "json option \<Rightarrow> thrown + jstr" where
  "parseDeletionInput input =
     (case input of
        Some (JObj [(k, JStr s)]) \<Rightarrow>
          if k = js ''confirmation'' \<and> 1 \<le> length s \<and> length s \<le> 100 then Inr s else Inl (Domain requireConfirmationError)
      | _ \<Rightarrow> Inl (Domain requireConfirmationError))"

definition releasesById :: "ReleaseRow list \<Rightarrow> jstr \<Rightarrow> ReleaseRow option" where
  "releasesById releases = map_of (rev (map (\<lambda>r. (rl_id r, r)) releases))"

definition canonicalArtifactKey :: "(jstr \<Rightarrow> ReleaseRow option) \<Rightarrow> jstr list \<Rightarrow> ReleaseArtifactRow \<Rightarrow> thrown + jstr" where
  "canonicalArtifactKey byId projectIds artifact =
     (case parseArtifactStorageKey (\<lambda>_. []) (JStr (ra_storageKey artifact)) of
        Inl _ \<Rightarrow> Inl invalidArtifactMetadata
      | Inr parsed \<Rightarrow>
          (case byId (ra_releaseId artifact) of
             None \<Rightarrow> Inl invalidArtifactMetadata
           | Some release \<Rightarrow>
               if rl_id release \<noteq> pk_releaseId parsed \<or> rl_projectId release \<noteq> pk_projectId parsed
                  \<or> pk_projectId parsed \<notin> set projectIds \<or> ra_contentHash artifact \<noteq> pk_contentHash parsed
                  \<or> ra_storageKey artifact \<noteq> rl_projectId release @ [47] @ rl_id release @ [47] @ ra_contentHash artifact
               then Inl invalidArtifactMetadata else Inr (ra_storageKey artifact)))"

fun canonicalArtifactKeys :: "(jstr \<Rightarrow> ReleaseRow option) \<Rightarrow> jstr list \<Rightarrow> ReleaseArtifactRow list \<Rightarrow> thrown + jstr list" where
  "canonicalArtifactKeys byId projectIds [] = Inr []"
| "canonicalArtifactKeys byId projectIds (a # as) =
     bindE (canonicalArtifactKey byId projectIds a) (\<lambda>k. bindE (canonicalArtifactKeys byId projectIds as) (\<lambda>ks. Inr (k # ks)))"

fun enqueueLoop ::
    "(nat \<Rightarrow> jstr) \<Rightarrow> nat \<Rightarrow> int \<Rightarrow> (jstr \<Rightarrow> ReleaseRow option) \<Rightarrow> jstr list \<Rightarrow> ReleaseArtifactRow list \<Rightarrow> rdb \<Rightarrow> thrown + rdb" where
  "enqueueLoop ids n now byId (key # keys) (artifact # artifacts) r =
     (case byId (ra_releaseId artifact) of
        None \<Rightarrow> Inl invalidArtifactMetadata
      | Some release \<Rightarrow>
          (case insertArtifactDeletionOutbox (ids n) now (Some (rl_projectId release)) key r of
             (Inl e, _) \<Rightarrow> Inl (PlainError (rv_message e))
           | (Inr _, r') \<Rightarrow> enqueueLoop ids (Suc n) now byId keys artifacts r'))"
| "enqueueLoop ids n now byId (key # keys) [] r = Inl invalidArtifactMetadata"
| "enqueueLoop ids n now byId [] artifacts r = Inr r"

definition enqueueArtifactKeys ::
    "(nat \<Rightarrow> jstr) \<Rightarrow> int \<Rightarrow> ReleaseArtifactRow list \<Rightarrow> (jstr \<Rightarrow> ReleaseRow option) \<Rightarrow> jstr list \<Rightarrow> rdb \<Rightarrow> thrown + rdb" where
  "enqueueArtifactKeys ids now artifacts byId projectIds r =
     bindE (canonicalArtifactKeys byId projectIds artifacts) (\<lambda>keys. enqueueLoop ids 0 now byId keys artifacts r)"

text \<open>Locking the releases and artifacts of the projects and enqueueing their keys.\<close>

definition enqueueProjects :: "(nat \<Rightarrow> jstr) \<Rightarrow> nat \<Rightarrow> jstr list \<Rightarrow> tdb \<Rightarrow> thrown + tdb" where
  "enqueueProjects ids now projectIds db =
     (let releases = lockReleasesByProjects (t_rel db) projectIds;
          artifacts = lockArtifactsByReleases (t_rel db) (map rl_id releases)
      in bindE (enqueueArtifactKeys ids (int now) artifacts (releasesById releases) projectIds (t_rel db)) (\<lambda>r. Inr (db\<lparr>t_rel := r\<rparr>)))"

definition deletionAudit :: "(nat \<Rightarrow> jstr) \<Rightarrow> nat \<Rightarrow> jstr \<Rightarrow> jstr \<Rightarrow> jstr option \<Rightarrow> string \<Rightarrow> (jstr \<times> json) list \<Rightarrow> tdb \<Rightarrow> tdb" where
  "deletionAudit auditIds now actor ws pid what metadata db =
     auditTenant (auditIds 1) now \<lparr>na_workspaceId = ws, na_projectId = pid, na_actorUserId = Some actor,
         na_action = js what @ js ''.deletion_completed'', na_metadata = Some (JObj metadata)\<rparr>
       (auditTenant (auditIds 0) now \<lparr>na_workspaceId = ws, na_projectId = pid, na_actorUserId = Some actor,
         na_action = js what @ js ''.deletion_requested'', na_metadata = Some (JObj metadata)\<rparr> db)"

text \<open>The authorization both deletions share, on the locked memberships.\<close>

definition authorizeDeletion :: "tdb \<Rightarrow> jstr \<Rightarrow> jstr \<Rightarrow> Capability \<Rightarrow> thrown + unit" where
  "authorizeDeletion db actor ws capability =
     bindE (actorMembershipOrThrow (lockTenantMembers db ws) actor) (\<lambda>m. requireWorkspaceCapability m capability)"

text \<open>Inside the transaction, after the candidate was read; \<open>None\<close> stands for \<open>deleted: false\<close>.\<close>

definition deleteProjectTx ::
    "(nat \<Rightarrow> jstr) \<Rightarrow> (nat \<Rightarrow> jstr) \<Rightarrow> nat \<Rightarrow> jstr \<Rightarrow> jstr \<Rightarrow> jstr \<Rightarrow> jstr \<Rightarrow> tdb \<Rightarrow> thrown + tdb option" where
  "deleteProjectTx ids auditIds now actor ws projectId confirmation db =
     (case findWorkspaceById db ws of
        None \<Rightarrow> Inr None
      | Some workspace \<Rightarrow>
          bindE (authorizeDeletion db actor (wr_id workspace) project_delete) (\<lambda>_.
            case findProjectById db projectId of
              None \<Rightarrow> Inr None
            | Some project \<Rightarrow>
                if pj_workspaceId project \<noteq> wr_id workspace then Inr None
                else if confirmation \<noteq> pj_slug project then Inl (Domain requireConfirmationError)
                else bindE (enqueueProjects ids now [pj_id project] db) (\<lambda>db1.
                  let db2 = deletionAudit auditIds now actor (pj_workspaceId project) (Some (pj_id project)) ''project''
                        [(js ''projectId'', JStr (pj_id project)), (js ''slug'', JStr (pj_slug project))] db1
                  in Inr (Some (deleteProjectRow (pj_id project) db2)))))"

text \<open>\<open>others\<close> are the commits between the read of the candidate and the locks.\<close>

definition deleteProjectWithArtifacts ::
    "(nat \<Rightarrow> jstr) \<Rightarrow> (nat \<Rightarrow> jstr) \<Rightarrow> nat \<Rightarrow> (tdb \<Rightarrow> tdb) \<Rightarrow> jstr \<Rightarrow> jstr \<Rightarrow> json option \<Rightarrow> tdb \<Rightarrow> (thrown + bool) \<times> tdb" where
  "deleteProjectWithArtifacts ids auditIds now others actor projectId input db =
     (case parseDeletionInput input of
        Inl e \<Rightarrow> (Inl e, db)
      | Inr confirmation \<Rightarrow>
          (case findProjectById db projectId of
             None \<Rightarrow> (Inr False, db)
           | Some candidate \<Rightarrow>
               (case deleteProjectTx ids auditIds now actor (pj_workspaceId candidate) projectId confirmation (others db) of
                  Inl e \<Rightarrow> (Inl e, others db)
                | Inr None \<Rightarrow> (Inr False, others db)
                | Inr (Some db') \<Rightarrow> (Inr True, db'))))"

definition deleteWorkspaceTx ::
    "(nat \<Rightarrow> jstr) \<Rightarrow> (nat \<Rightarrow> jstr) \<Rightarrow> nat \<Rightarrow> jstr \<Rightarrow> jstr \<Rightarrow> jstr \<Rightarrow> tdb \<Rightarrow> thrown + tdb option" where
  "deleteWorkspaceTx ids auditIds now actor ws confirmation db =
     (case findWorkspaceById db ws of
        None \<Rightarrow> Inr None
      | Some workspace \<Rightarrow>
          bindE (authorizeDeletion db actor (wr_id workspace) workspace_delete) (\<lambda>_.
            if confirmation \<noteq> wr_slug workspace then Inl (Domain requireConfirmationError)
            else bindE (enqueueProjects ids now (map pj_id (lockProjectsByWorkspace db (wr_id workspace))) db) (\<lambda>db1.
              let db2 = deletionAudit auditIds now actor (wr_id workspace) None ''workspace''
                    [(js ''workspaceId'', JStr (wr_id workspace)), (js ''slug'', JStr (wr_slug workspace))] db1
              in Inr (Some (deleteWorkspaceRow (wr_id workspace) db2)))))"

definition deleteWorkspaceWithArtifacts ::
    "(nat \<Rightarrow> jstr) \<Rightarrow> (nat \<Rightarrow> jstr) \<Rightarrow> nat \<Rightarrow> jstr \<Rightarrow> jstr \<Rightarrow> json option \<Rightarrow> tdb \<Rightarrow> (thrown + bool) \<times> tdb" where
  "deleteWorkspaceWithArtifacts ids auditIds now actor ws input db =
     (case parseDeletionInput input of
        Inl e \<Rightarrow> (Inl e, db)
      | Inr confirmation \<Rightarrow>
          (case deleteWorkspaceTx ids auditIds now actor ws confirmation db of
             Inl e \<Rightarrow> (Inl e, db)
           | Inr None \<Rightarrow> (Inr False, db)
           | Inr (Some db') \<Rightarrow> (Inr True, db')))"

subsection \<open>The worker\<close>

record ArtifactDeletionBatchResult =
  db_claimed :: nat
  db_completed :: nat
  db_failed :: nat

definition validateItem :: "DeletionRow \<Rightarrow> bool" where
  "validateItem item =
     (case parseArtifactStorageKey (\<lambda>_. []) (JStr (do_storageKey item)) of
        Inl _ \<Rightarrow> False
      | Inr parsed \<Rightarrow> do_projectId item = None \<or> do_projectId item = Some (pk_projectId parsed))"

definition failureCode :: "DeletionRow \<Rightarrow> jstr" where
  "failureCode item = (if validateItem item then js ''storage_unavailable'' else js ''invalid_storage_key'')"

text \<open>
  One claimed item. \<open>remove\<close> is the storage in this call; a removal of a missing blob succeeds. The
  result says whether the item counts as completed or as failed.
\<close>

definition deletionItem ::
    "(jstr \<Rightarrow> 's \<Rightarrow> (ArtifactError + bool) \<times> 's) \<Rightarrow> int \<Rightarrow> DeletionRow \<Rightarrow> 's world \<Rightarrow> (nat \<times> nat) \<times> 's world" where
  "deletionItem remove now item w =
     (if \<not> validateItem item then ((0, 1), (recordArtifactDeletionFailure now (do_id item) (failureCode item) (fst w), snd w))
      else case remove (do_storageKey item) (snd w) of
        (Inl _, s) \<Rightarrow> ((0, 1), (recordArtifactDeletionFailure now (do_id item) (failureCode item) (fst w), s))
      | (Inr _, s) \<Rightarrow>
          (case markArtifactDeletionCompleted now (do_id item) (fst w) of
             (row, r) \<Rightarrow> (((if row then 1 else 0), 0), (r, s))))"

fun deletionLoop ::
    "(nat \<Rightarrow> jstr \<Rightarrow> 's \<Rightarrow> (ArtifactError + bool) \<times> 's) \<Rightarrow> int \<Rightarrow> nat \<Rightarrow> DeletionRow list \<Rightarrow> 's world \<Rightarrow> (nat \<times> nat) \<times> 's world" where
  "deletionLoop remove now n [] w = ((0, 0), w)"
| "deletionLoop remove now n (item # items) w =
     (case deletionItem (remove n) now item w of
        ((c, f), w1) \<Rightarrow> (case deletionLoop remove now (Suc n) items w1 of ((c', f'), w2) \<Rightarrow> ((c + c', f + f'), w2)))"

definition runArtifactDeletionBatch ::
    "jstr set \<Rightarrow> (nat \<Rightarrow> jstr \<Rightarrow> 's \<Rightarrow> (ArtifactError + bool) \<times> 's) \<Rightarrow> int \<Rightarrow> int \<Rightarrow> 's world
      \<Rightarrow> ArtifactDeletionBatchResult option \<times> 's world" where
  "runArtifactDeletionBatch locked remove now batchSize w =
     (case claimPendingArtifactDeletionBatch locked batchSize (fst w) of
        None \<Rightarrow> (None, w)
      | Some items \<Rightarrow>
          (case deletionLoop remove now 0 items w of
             ((c, f), w') \<Rightarrow> (Some \<lparr>db_claimed = length items, db_completed = c, db_failed = f\<rparr>, w')))"

end
