(* ===== verification/DeletionLaws.thy ===== *)
theory DeletionLaws
  imports Deletion
begin

text \<open>
  The life of a blob in a deletion: its row names its release in its key, the outbox names only
  releases that are gone, deleting moves the keys of the rows it removes into the outbox, and the
  worker removes only those blobs.
\<close>

subsection \<open>The invariant of rows and outbox\<close>

definition blobKey :: "jstr \<Rightarrow> jstr \<Rightarrow> jstr \<Rightarrow> jstr" where
  "blobKey p r h = p @ [47] @ r @ [47] @ h"

definition keyParts :: "jstr \<Rightarrow> jstr \<Rightarrow> jstr \<Rightarrow> bool" where
  "keyParts p r h \<longleftrightarrow> UUID_PATTERN p \<and> UUID_PATTERN r \<and> CONTENT_HASH_PATTERN h"

definition ownedBy :: "ReleaseRow \<Rightarrow> ReleaseArtifactRow \<Rightarrow> bool" where
  "ownedBy x a \<longleftrightarrow> rl_id x = ra_releaseId a \<and> ra_storageKey a = blobKey (rl_projectId x) (rl_id x) (ra_contentHash a)
     \<and> keyParts (rl_projectId x) (rl_id x) (ra_contentHash a)"

definition keyRelease :: "jstr \<Rightarrow> jstr option" where
  "keyRelease k = (case split_on 47 k of [p, r, h] \<Rightarrow> Some r | _ \<Rightarrow> None)"

definition rowsOwned :: "rdb \<Rightarrow> bool" where
  "rowsOwned r \<longleftrightarrow> (\<forall>a \<in> set (rd_artifacts r). \<exists>x \<in> set (rd_releases r). ownedBy x a)"

definition outboxDead :: "rdb \<Rightarrow> bool" where
  "outboxDead r \<longleftrightarrow> (\<forall>d \<in> set (rd_deletions r). \<forall>x \<in> set (rd_releases r). keyRelease (do_storageKey d) \<noteq> Some (rl_id x))"

definition blobsOk :: "rdb \<Rightarrow> bool" where
  "blobsOk r \<longleftrightarrow> distinct (map rl_id (rd_releases r)) \<and> rowsOwned r \<and> outboxDead r"

definition pendingKey :: "rdb \<Rightarrow> jstr \<Rightarrow> bool" where
  "pendingKey r k \<longleftrightarrow> (\<exists>d \<in> set (rd_deletions r). do_storageKey d = k \<and> do_completedAt d = None)"

lemma split_blobKey: "keyParts p r h \<Longrightarrow> split_on 47 (blobKey p r h) = [p, r, h]"
  unfolding blobKey_def keyParts_def using UUID_no_slash CONTENT_HASH_segment by (intro split_on_three) auto

lemma keyRelease_blobKey: "keyParts p r h \<Longrightarrow> keyRelease (blobKey p r h) = Some r"
  by (simp add: keyRelease_def split_blobKey)

lemma ownedBy_key: "ownedBy x a \<Longrightarrow> keyRelease (ra_storageKey a) = Some (rl_id x)"
  unfolding ownedBy_def using keyRelease_blobKey by auto

lemma validKey_blobKey: "keyParts p r h \<Longrightarrow> validKey (blobKey p r h)"
  unfolding blobKey_def keyParts_def by (intro validKey_built) auto

lemma parse_blobKey:
  "keyParts p r h \<Longrightarrow> parseArtifactStorageKey f (JStr (blobKey p r h)) = Inr \<lparr>pk_projectId = p, pk_releaseId = r, pk_contentHash = h\<rparr>"
  by (simp add: parse_Inr split_blobKey validKey_blobKey) (simp add: keyParts_def)

subsection \<open>Enqueueing\<close>

lemma rowsOwned_release:
  assumes "blobsOk r" "a \<in> set (rd_artifacts r)" "x \<in> set (rd_releases r)" "rl_id x = ra_releaseId a"
  shows "ownedBy x a"
proof -
  obtain y where y: "y \<in> set (rd_releases r)" "ownedBy y a" using assms(1,2) by (auto simp: blobsOk_def rowsOwned_def)
  have "inj_on rl_id (set (rd_releases r))" using assms(1) by (simp add: blobsOk_def distinct_map)
  moreover have "rl_id y = rl_id x" using y(2) assms(4) by (simp add: ownedBy_def)
  ultimately have "y = x" using y(1) assms(3) by (simp add: inj_on_def)
  with y show ?thesis by simp
qed

lemma releasesById_Some:
  assumes "distinct (map rl_id rs)"
  shows "releasesById rs i = Some x \<longleftrightarrow> x \<in> set rs \<and> rl_id x = i"
proof -
  have d: "distinct (map fst (rev (map (\<lambda>r. (rl_id r, r)) rs)))"
    using assms by (simp add: rev_map [symmetric] o_def)
  show ?thesis unfolding releasesById_def map_of_eq_Some_iff [OF d] by auto
qed

lemma locked_releases:
  "set (lockReleasesByProjects r ps) = {x \<in> set (rd_releases r). rl_projectId x \<in> set ps}"
  "distinct (map rl_id (rd_releases r)) \<Longrightarrow> distinct (map rl_id (lockReleasesByProjects r ps))"
  by (auto simp: lockReleasesByProjects_def distinct_map inj_on_def)

lemma locked_artifacts:
  "set (lockArtifactsByReleases r rs) = {a \<in> set (rd_artifacts r). ra_releaseId a \<in> set rs}"
  by (auto simp: lockArtifactsByReleases_def)

text \<open>A locked row passes the check of its key.\<close>

lemma canonical_owned:
  assumes "ownedBy x a" "byId (ra_releaseId a) = Some x" "rl_projectId x \<in> set ps"
  shows "canonicalArtifactKey byId ps a = Inr (ra_storageKey a)"
proof -
  have kp: "keyParts (rl_projectId x) (rl_id x) (ra_contentHash a)" and key: "ra_storageKey a = blobKey (rl_projectId x) (rl_id x) (ra_contentHash a)"
    using assms(1) by (auto simp: ownedBy_def)
  have p: "parseArtifactStorageKey (\<lambda>_. []) (JStr (ra_storageKey a))
      = Inr \<lparr>pk_projectId = rl_projectId x, pk_releaseId = rl_id x, pk_contentHash = ra_contentHash a\<rparr>"
    unfolding key by (rule parse_blobKey [OF kp])
  have "ra_storageKey a = rl_projectId x @ [47] @ rl_id x @ [47] @ ra_contentHash a"
    using key by (simp add: blobKey_def)
  then show ?thesis using p assms(2,3) by (simp add: canonicalArtifactKey_def)
qed

lemma canonical_keys:
  "\<forall>a \<in> set as. \<exists>x. ownedBy x a \<and> byId (ra_releaseId a) = Some x \<and> rl_projectId x \<in> set ps \<Longrightarrow>
     canonicalArtifactKeys byId ps as = Inr (map ra_storageKey as)"
  by (induction as) (auto simp: canonical_owned)

lemma outbox_insert:
  assumes "keyParts p q h"
  shows "\<exists>row. insertArtifactDeletionOutbox i now (Some pr) (blobKey p q h) r = (Inr row,
       if findDeletion r (blobKey p q h) = None
       then r\<lparr>rd_deletions := rd_deletions r @ [\<lparr>do_id = i, do_projectId = Some pr, do_storageKey = blobKey p q h, do_attemptCount = 0,
              do_createdAt = now, do_lastAttemptAt = None, do_completedAt = None, do_lastError = None\<rparr>]\<rparr>
       else r)"
proof -
  have len: "blobKey p q h \<noteq> [] \<and> length (blobKey p q h) \<le> REL_STORAGE_KEY_MAX_LENGTH"
    using validKey_blobKey [OF assms] by (auto simp: validKey_def STORAGE_KEY_MAX_LENGTH_def REL_STORAGE_KEY_MAX_LENGTH_def)
  have "parseArtifactDeletionStorageKey (Some (JStr (blobKey p q h)))
      = Inr \<lparr>pd_key = blobKey p q h, pd_projectId = p, pd_releaseId = q, pd_contentHash = h\<rparr>"
    using len assms
    by (simp add: parseArtifactDeletionStorageKey_def rel_validateStorageKey_def split_blobKey [OF assms] validateContentHash_def
        keyParts_def not_less less_Suc_eq_0_disj)
  then show ?thesis by (auto simp: insertArtifactDeletionOutbox_def Let_def split: option.splits)
qed

lemma findDeletion_None: "findDeletion r k = None \<longleftrightarrow> (\<forall>d \<in> set (rd_deletions r). do_storageKey d \<noteq> k)"
  by (simp add: findDeletion_def find_None_iff2)

text \<open>
  The loop appends pending rows for the keys that have none and leaves the rest of the tables.
\<close>

lemma enqueueLoop_owned:
  assumes "\<forall>a \<in> set as. \<exists>x. ownedBy x a \<and> byId (ra_releaseId a) = Some x"
  shows "\<exists>new. enqueueLoop ids n now byId (map ra_storageKey as) as r = Inr (r\<lparr>rd_deletions := rd_deletions r @ new\<rparr>)
    \<and> (\<forall>d \<in> set new. do_completedAt d = None \<and> (\<exists>a \<in> set as. do_storageKey d = ra_storageKey a))
    \<and> (\<forall>a \<in> set as. \<exists>d \<in> set (rd_deletions r @ new). do_storageKey d = ra_storageKey a)"
  using assms
proof (induction as arbitrary: n r)
  case (Cons a as)
  then obtain x where x: "ownedBy x a" "byId (ra_releaseId a) = Some x" by auto
  let ?k = "ra_storageKey a"
  have kp: "keyParts (rl_projectId x) (rl_id x) (ra_contentHash a)" and k: "?k = blobKey (rl_projectId x) (rl_id x) (ra_contentHash a)"
    using x(1) by (auto simp: ownedBy_def)
  define new1 where "new1 = (if findDeletion r ?k = None then [\<lparr>do_id = ids n, do_projectId = Some (rl_projectId x), do_storageKey = ?k,
      do_attemptCount = 0, do_createdAt = now, do_lastAttemptAt = None, do_completedAt = None, do_lastError = None\<rparr>] else [])"
  define r1 where "r1 = r\<lparr>rd_deletions := rd_deletions r @ new1\<rparr>"
  have "\<exists>row. insertArtifactDeletionOutbox (ids n) now (Some (rl_projectId x)) ?k r = (Inr row, r1)"
    using outbox_insert [OF kp, of "ids n" now "rl_projectId x" r] unfolding k [symmetric] new1_def r1_def
    by (cases "findDeletion r ?k") simp_all
  then have step: "enqueueLoop ids n now byId (map ra_storageKey (a # as)) (a # as) r
      = enqueueLoop ids (Suc n) now byId (map ra_storageKey as) as r1" using x(2) by auto
  from Cons.IH [of "Suc n" r1] Cons.prems obtain new where new:
    "enqueueLoop ids (Suc n) now byId (map ra_storageKey as) as r1 = Inr (r1\<lparr>rd_deletions := rd_deletions r1 @ new\<rparr>)"
    "\<forall>d \<in> set new. do_completedAt d = None \<and> (\<exists>a \<in> set as. do_storageKey d = ra_storageKey a)"
    "\<forall>a \<in> set as. \<exists>d \<in> set (rd_deletions r1 @ new). do_storageKey d = ra_storageKey a" by auto
  have "\<exists>d \<in> set (rd_deletions r @ new1). do_storageKey d = ?k"
    using findDeletion_None [of r ?k] by (auto simp: new1_def)
  then show ?case using step new
    by (intro exI [of _ "new1 @ new"]) (auto simp: r1_def new1_def)
qed simp

text \<open>Under the invariant, enqueueing the artifacts of some projects always succeeds.\<close>

lemma enqueueProjects_ok:
  assumes ok: "blobsOk (t_rel db)"
  shows "\<exists>new. enqueueProjects ids now ps db = Inr (db\<lparr>t_rel := (t_rel db)\<lparr>rd_deletions := rd_deletions (t_rel db) @ new\<rparr>\<rparr>)
    \<and> (\<forall>d \<in> set new. do_completedAt d = None \<and> (\<exists>x \<in> set (rd_releases (t_rel db)). rl_projectId x \<in> set ps \<and> keyRelease (do_storageKey d) = Some (rl_id x)))
    \<and> (\<forall>a \<in> set (rd_artifacts (t_rel db)). \<forall>x \<in> set (rd_releases (t_rel db)). rl_id x = ra_releaseId a \<and> rl_projectId x \<in> set ps \<longrightarrow>
         (\<exists>d \<in> set new. do_storageKey d = ra_storageKey a))"
proof -
  let ?r = "t_rel db"
  let ?rels = "lockReleasesByProjects ?r ps"
  let ?as = "lockArtifactsByReleases ?r (map rl_id ?rels)"
  have dis: "distinct (map rl_id (rd_releases ?r))" using ok by (simp add: blobsOk_def)
  have rel: "releasesById ?rels i = Some x \<longleftrightarrow> x \<in> set (rd_releases ?r) \<and> rl_projectId x \<in> set ps \<and> rl_id x = i" for i x
    using releasesById_Some [OF locked_releases(2) [OF dis, of ps]] locked_releases(1) [of ?r ps] by auto
  have owned: "\<exists>x. ownedBy x a \<and> releasesById ?rels (ra_releaseId a) = Some x \<and> rl_projectId x \<in> set ps
      \<and> x \<in> set (rd_releases ?r)" if "a \<in> set ?as" for a
  proof -
    from that obtain x where "a \<in> set (rd_artifacts ?r)" "x \<in> set (rd_releases ?r)" "rl_projectId x \<in> set ps" "rl_id x = ra_releaseId a"
      by (auto simp: locked_artifacts locked_releases(1))
    then show ?thesis using rowsOwned_release [OF ok] rel by blast
  qed
  obtain new where new: "enqueueLoop ids 0 (int now) (releasesById ?rels) (map ra_storageKey ?as) ?as ?r = Inr (?r\<lparr>rd_deletions := rd_deletions ?r @ new\<rparr>)"
    "\<forall>d \<in> set new. do_completedAt d = None \<and> (\<exists>a \<in> set ?as. do_storageKey d = ra_storageKey a)"
    "\<forall>a \<in> set ?as. \<exists>d \<in> set (rd_deletions ?r @ new). do_storageKey d = ra_storageKey a"
    using enqueueLoop_owned [of ?as "releasesById ?rels" ids 0 "int now" ?r] owned by blast
  have "canonicalArtifactKeys (releasesById ?rels) ps ?as = Inr (map ra_storageKey ?as)"
    using owned by (intro canonical_keys) blast
  then have e: "enqueueProjects ids now ps db = Inr (db\<lparr>t_rel := ?r\<lparr>rd_deletions := rd_deletions ?r @ new\<rparr>\<rparr>)"
    using new(1) by (simp add: enqueueProjects_def enqueueArtifactKeys_def Let_def)
  have c: "\<exists>x \<in> set (rd_releases ?r). rl_projectId x \<in> set ps \<and> keyRelease (do_storageKey d) = Some (rl_id x)" if "d \<in> set new" for d
    using new(2) that owned ownedBy_key by metis
  have p: "\<exists>d \<in> set new. do_storageKey d = ra_storageKey a"
    if a: "a \<in> set (rd_artifacts ?r)" "x \<in> set (rd_releases ?r)" "rl_id x = ra_releaseId a" "rl_projectId x \<in> set ps" for a x
  proof -
    have "a \<in> set ?as" using a by (auto simp: locked_artifacts locked_releases(1) in_image)
    then obtain d where d: "d \<in> set (rd_deletions ?r @ new)" "do_storageKey d = ra_storageKey a" using new(3) by blast
    have "keyRelease (ra_storageKey a) = Some (rl_id x)" using rowsOwned_release [OF ok a(1,2,3)] ownedBy_key by blast
    then have "d \<notin> set (rd_deletions ?r)" using ok a(2) d(2) unfolding blobsOk_def outboxDead_def by metis
    with d show ?thesis by auto
  qed
  show ?thesis using e new(2) c p by (intro exI [of _ new]) blast
qed

subsection \<open>The cascade\<close>

lemma cascade_kept:
  assumes ok: "blobsOk r" and a: "a \<in> set (rd_artifacts (cascadeReleases gone r))"
  shows "\<exists>x \<in> set (rd_releases (cascadeReleases gone r)). ownedBy x a"
proof -
  have "a \<in> set (rd_artifacts r)" using a by (simp add: cascadeReleases_def)
  then obtain x where x: "x \<in> set (rd_releases r)" "ownedBy x a" using ok by (auto simp: blobsOk_def rowsOwned_def)
  then have "\<not> gone (rl_projectId x)" using a by (auto simp: cascadeReleases_def list_ex_iff ownedBy_def)
  with x show ?thesis by (auto simp: cascadeReleases_def)
qed

lemma nullKeys [simp]:
  "do_storageKey (nullProject gone d) = do_storageKey d" "do_completedAt (nullProject gone d) = do_completedAt d"
  "do_id (nullProject gone d) = do_id d"
  by (simp_all add: nullProject_def split: option.split)

text \<open>Enqueueing, then cascading: the rows that go leave their keys behind, pending.\<close>

lemma enqueue_cascade:
  assumes ok: "blobsOk r"
    and new: "\<forall>d \<in> set new. do_completedAt d = None \<and> (\<exists>x \<in> set (rd_releases r). rl_projectId x \<in> set ps \<and> keyRelease (do_storageKey d) = Some (rl_id x))"
      "\<forall>a \<in> set (rd_artifacts r). \<forall>x \<in> set (rd_releases r). rl_id x = ra_releaseId a \<and> rl_projectId x \<in> set ps \<longrightarrow>
         (\<exists>d \<in> set new. do_storageKey d = ra_storageKey a)"
    and gone: "\<And>p. gone p \<longleftrightarrow> p \<in> set ps"
  defines "r' \<equiv> cascadeReleases gone (r\<lparr>rd_deletions := rd_deletions r @ new\<rparr>)"
  shows "blobsOk r' \<and> rd_releases r' = filter (\<lambda>x. rl_projectId x \<notin> set ps) (rd_releases r)
    \<and> (\<forall>a \<in> set (rd_artifacts r). if a \<in> set (rd_artifacts r') then \<exists>x \<in> set (rd_releases r'). ownedBy x a
          else pendingKey r' (ra_storageKey a))
    \<and> set (rd_artifacts r') \<subseteq> set (rd_artifacts r)"
proof -
  let ?r = "r\<lparr>rd_deletions := rd_deletions r @ new\<rparr>"
  have rels: "rd_releases r' = filter (\<lambda>x. rl_projectId x \<notin> set ps) (rd_releases r)" by (simp add: r'_def cascadeReleases_def gone)
  have arts: "rd_artifacts r' = rd_artifacts (cascadeReleases gone r)" by (simp add: r'_def cascadeReleases_def)
  have rels2: "rd_releases r' = rd_releases (cascadeReleases gone r)" by (simp add: r'_def cascadeReleases_def)
  have dis: "distinct (map rl_id (rd_releases r))" using ok by (simp add: blobsOk_def)
  have kept: "\<exists>x \<in> set (rd_releases r'). ownedBy x a" if "a \<in> set (rd_artifacts r')" for a
    using cascade_kept [OF ok, of a gone] that unfolding arts rels2 by blast
  have dl: "rd_deletions r' = map (nullProject gone) (rd_deletions r @ new)" by (simp add: r'_def cascadeReleases_def)
  have dels: "\<exists>d \<in> set (rd_deletions r'). do_storageKey d = do_storageKey e \<and> do_completedAt d = do_completedAt e"
    if "e \<in> set (rd_deletions ?r)" for e
    using that unfolding dl by (intro bexI [of _ "nullProject gone e"]) auto
  have orig: "\<exists>e \<in> set (rd_deletions r @ new). do_storageKey e = do_storageKey d" if "d \<in> set (rd_deletions r')" for d
    using that unfolding dl by auto
  have "outboxDead r'"
    unfolding outboxDead_def
  proof (intro ballI notI)
    fix d x assume d: "d \<in> set (rd_deletions r')" and x: "x \<in> set (rd_releases r')" and k: "keyRelease (do_storageKey d) = Some (rl_id x)"
    obtain e where e: "e \<in> set (rd_deletions r @ new)" "do_storageKey e = do_storageKey d" using orig [OF d] by blast
    have x': "x \<in> set (rd_releases r)" "rl_projectId x \<notin> set ps" using x rels by auto
    show False
    proof (cases "e \<in> set new")
      case True
      then obtain y where "y \<in> set (rd_releases r)" "rl_projectId y \<in> set ps" "rl_id y = rl_id x" using new(1) e(2) k by auto
      moreover have "inj_on rl_id (set (rd_releases r))" using dis by (simp add: distinct_map)
      ultimately have "y = x" using x'(1) by (simp add: inj_on_def)
      then show False using \<open>rl_projectId y \<in> set ps\<close> x'(2) by simp
    next
      case False
      then have "e \<in> set (rd_deletions r)" using e(1) by simp
      then show False using e(2) k x'(1) ok unfolding blobsOk_def outboxDead_def by metis
    qed
  qed
  moreover have "distinct (map rl_id (rd_releases r'))" unfolding rels using dis by (simp add: distinct_map_filter)
  ultimately have "blobsOk r'" using kept unfolding blobsOk_def rowsOwned_def by blast
  moreover have "pendingKey r' (ra_storageKey a)" if a: "a \<in> set (rd_artifacts r)" "a \<notin> set (rd_artifacts r')" for a
  proof -
    obtain x where "x \<in> set (rd_releases r)" "rl_id x = ra_releaseId a" "rl_projectId x \<in> set ps"
      using a unfolding arts cascadeReleases_def by (auto simp: list_ex_iff gone)
    then obtain d where d: "d \<in> set new" "do_storageKey d = ra_storageKey a" using new(2) a(1) by blast
    then have "do_completedAt d = None" using new(1) by blast
    then show ?thesis using dels [of d] d by (auto simp: pendingKey_def)
  qed
  moreover have "set (rd_artifacts r') \<subseteq> set (rd_artifacts r)" unfolding arts cascadeReleases_def by auto
  ultimately show ?thesis using kept rels by simp
qed

subsection \<open>The worker\<close>

definition itemOutcome :: "('s \<Rightarrow> jstr \<Rightarrow> nat list option) \<Rightarrow> int \<Rightarrow> 's \<Rightarrow> DeletionRow \<Rightarrow> DeletionRow \<Rightarrow> bool" where
  "itemOutcome lookup now s d d' \<longleftrightarrow> do_id d' = do_id d \<and> do_storageKey d' = do_storageKey d
     \<and> ((do_completedAt d' = Some now \<and> validKey (do_storageKey d) \<and> lookup s (do_storageKey d) = None)
      \<or> (do_completedAt d' = None \<and> do_attemptCount d' = do_attemptCount d + 1))"

lemma updateDeletion_frame [simp]:
  "rd_releases (updateDeletion i g r) = rd_releases r" "rd_artifacts (updateDeletion i g r) = rd_artifacts r"
  "rd_projects (updateDeletion i g r) = rd_projects r"
  by (simp_all add: updateDeletion_def)

lemma validateItem_key: "validateItem d \<Longrightarrow> validKey (do_storageKey d)"
  by (auto simp: validateItem_def parse_Inr split: sum.splits)

context artifact_store
begin

lemma remove_none: "validKey k \<Longrightarrow> lookup s k = None \<Longrightarrow> lookup (snd (remove u key s)) k = None"
proof -
  assume k: "validKey k" "lookup s k = None"
  show ?thesis
  proof (cases "k = key")
    case False
    with removed_blob [OF k(1) False] k(2) show ?thesis by simp
  next
    case True
    obtain res s' where r: "remove u key s = (res, s')" by (metis surj_pair)
    with k True remove_ok [OF k(1), of u key s _ s'] remove_fails [of u key s _ s'] show ?thesis by (cases res) auto
  qed
qed

text \<open>One item: one row is updated, at most its own blob goes.\<close>

lemma deletionItem_cases:
  assumes "deletionItem (remove u) now d w = ((c, f), w')" "d \<in> set (rd_deletions (fst w))" "do_completedAt d = None"
  obtains g where "fst w' = updateDeletion (do_id d) g (fst w)" "c + f = 1"
    "\<And>e. do_id (g e) = do_id e \<and> do_storageKey (g e) = do_storageKey e"
    "itemOutcome lookup now (snd w') d (g d)"
    "\<And>k. validKey k \<Longrightarrow> k \<noteq> do_storageKey d \<Longrightarrow> lookup (snd w') k = lookup (snd w) k"
    "\<And>k. validKey k \<Longrightarrow> lookup (snd w) k = None \<Longrightarrow> lookup (snd w') k = None"
proof -
  let ?err = "take MAX_ARTIFACT_DELETION_ERROR_LENGTH (sanitizeArtifactDeletionError (failureCode d))"
  let ?fail = "\<lambda>e. e\<lparr>do_attemptCount := do_attemptCount e + 1, do_lastAttemptAt := Some now, do_lastError := Some ?err\<rparr>"
  let ?done = "\<lambda>e. e\<lparr>do_completedAt := Some now, do_lastAttemptAt := Some now, do_lastError := None\<rparr>"
  obtain res s' where r: "remove u (do_storageKey d) (snd w) = (res, s')" by (metis surj_pair)
  have same: "lookup s' k = lookup (snd w) k" if "validKey k" "k \<noteq> do_storageKey d" for k
    using removed_blob [OF that, of u "snd w"] r by simp
  have none: "lookup s' k = None" if "validKey k" "lookup (snd w) k = None" for k
    using remove_none [OF that, of u "do_storageKey d"] r by simp
  consider "\<not> validateItem d" | e where "validateItem d" "res = Inl e" | b where "validateItem d" "res = Inr b"
    by (cases res) auto
  then show thesis
  proof cases
    case 1
    then show thesis using assms
      by (intro that [of ?fail]) (auto simp: deletionItem_def recordArtifactDeletionFailure_def Let_def itemOutcome_def)
  next
    case 2
    then show thesis using assms r same none
      by (intro that [of ?fail]) (auto simp: deletionItem_def recordArtifactDeletionFailure_def Let_def itemOutcome_def)
  next
    case 3
    have "lookup s' (do_storageKey d) = None"
      using remove_ok [OF validateItem_key [OF 3(1)]] r 3(2) by simp
    moreover have "validKey (do_storageKey d)" by (rule validateItem_key [OF 3(1)])
    moreover have "list_ex (\<lambda>e. do_id e = do_id d \<and> do_completedAt e = None) (rd_deletions (fst w))"
      using assms(2,3) by (auto simp: list_ex_iff)
    ultimately show thesis using 3 assms(1) r same none
      by (intro that [of ?done]) (auto simp: deletionItem_def markArtifactDeletionCompleted_def itemOutcome_def)
  qed
qed

lemma itemOutcome_later:
  "itemOutcome lookup now s d d' \<Longrightarrow> (\<And>k. validKey k \<Longrightarrow> lookup s k = None \<Longrightarrow> lookup s' k = None) \<Longrightarrow>
    itemOutcome lookup now s' d d'"
  by (auto simp: itemOutcome_def)

lemma deletionLoop_outcome:
  assumes "distinct (map do_id (rd_deletions (fst w)))" "distinct (map do_id items)"
    and "\<forall>d \<in> set items. d \<in> set (rd_deletions (fst w)) \<and> do_completedAt d = None"
    and "deletionLoop (\<lambda>n. remove (u n)) now n items w = ((c, f), w')"
  shows "c + f = length items \<and> rd_releases (fst w') = rd_releases (fst w) \<and> rd_artifacts (fst w') = rd_artifacts (fst w)
    \<and> map do_id (rd_deletions (fst w')) = map do_id (rd_deletions (fst w))
    \<and> map do_storageKey (rd_deletions (fst w')) = map do_storageKey (rd_deletions (fst w))
    \<and> (\<forall>d \<in> set (rd_deletions (fst w)). \<exists>d' \<in> set (rd_deletions (fst w')).
         if d \<in> set items then itemOutcome lookup now (snd w') d d' else d' = d)
    \<and> (\<forall>k. validKey k \<and> k \<notin> do_storageKey ` set items \<longrightarrow> lookup (snd w') k = lookup (snd w) k)
    \<and> (\<forall>k. validKey k \<and> lookup (snd w) k = None \<longrightarrow> lookup (snd w') k = None)"
  using assms
proof (induction items arbitrary: n w c f)
  case (Cons d items)
  obtain c1 f1 w1 where one: "deletionItem (remove (u n)) now d w = ((c1, f1), w1)" by (metis surj_pair)
  obtain c2 f2 where rest: "deletionLoop (\<lambda>n. remove (u n)) now (Suc n) items w1 = ((c2, f2), w')"
    and cf: "c = c1 + c2" "f = f1 + f2"
    using Cons.prems(4) one by (auto split: prod.splits)
  have d: "d \<in> set (rd_deletions (fst w))" "do_completedAt d = None" using Cons.prems(3) by auto
  from deletionItem_cases [OF one d] obtain g where g: "fst w1 = updateDeletion (do_id d) g (fst w)" "c1 + f1 = 1"
    "\<And>e. do_id (g e) = do_id e \<and> do_storageKey (g e) = do_storageKey e" "itemOutcome lookup now (snd w1) d (g d)"
    "\<And>k. validKey k \<Longrightarrow> k \<noteq> do_storageKey d \<Longrightarrow> lookup (snd w1) k = lookup (snd w) k"
    "\<And>k. validKey k \<Longrightarrow> lookup (snd w) k = None \<Longrightarrow> lookup (snd w1) k = None" by blast
  let ?u = "\<lambda>e. if do_id e = do_id d \<and> do_completedAt e = None then g e else e"
  have dl: "rd_deletions (fst w1) = map ?u (rd_deletions (fst w))" by (simp add: g(1) updateDeletion_def)
  have ids: "map do_id (rd_deletions (fst w1)) = map do_id (rd_deletions (fst w))"
    "map do_storageKey (rd_deletions (fst w1)) = map do_storageKey (rd_deletions (fst w))"
    using g(3) by (simp_all add: dl)
  have other: "?u e = e" if "e \<in> set (rd_deletions (fst w))" "e \<noteq> d" for e
    using Cons.prems(1) that d(1) by (auto simp: distinct_map inj_on_def)
  have mem: "e \<in> set (rd_deletions (fst w1))" if "e \<in> set (rd_deletions (fst w))" "e \<noteq> d" for e
    unfolding dl list.set_map using other [OF that] that(1) by (intro image_eqI [where x = e]) simp_all
  have gd: "g d \<in> set (rd_deletions (fst w1))"
  proof -
    have "?u d = g d" using d(2) by simp
    then show ?thesis unfolding dl list.set_map using d(1) by (intro image_eqI [where x = d]) simp_all
  qed
  have nd: "d \<notin> set items" using Cons.prems(2) by auto
  have items: "\<forall>e \<in> set items. e \<in> set (rd_deletions (fst w1)) \<and> do_completedAt e = None"
    using Cons.prems(3) mem nd by auto
  have dis: "distinct (map do_id (rd_deletions (fst w1)))" "distinct (map do_id items)"
    using Cons.prems(1,2) by (simp_all add: ids)
  from Cons.IH [OF dis items rest] have IH: "c2 + f2 = length items" "rd_releases (fst w') = rd_releases (fst w1)"
    "rd_artifacts (fst w') = rd_artifacts (fst w1)" "map do_id (rd_deletions (fst w')) = map do_id (rd_deletions (fst w1))"
    "map do_storageKey (rd_deletions (fst w')) = map do_storageKey (rd_deletions (fst w1))"
    and rows: "\<forall>d \<in> set (rd_deletions (fst w1)). \<exists>d' \<in> set (rd_deletions (fst w')).
         if d \<in> set items then itemOutcome lookup now (snd w') d d' else d' = d"
    and keep: "\<forall>k. validKey k \<and> k \<notin> do_storageKey ` set items \<longrightarrow> lookup (snd w') k = lookup (snd w1) k"
    and none: "\<forall>k. validKey k \<and> lookup (snd w1) k = None \<longrightarrow> lookup (snd w') k = None"
    by blast+
  have "\<exists>d' \<in> set (rd_deletions (fst w')). if e \<in> set (d # items) then itemOutcome lookup now (snd w') e d' else d' = e"
    if e: "e \<in> set (rd_deletions (fst w))" for e
  proof (cases "e = d")
    case True
    have "do_id (g d) \<notin> do_id ` set items" using Cons.prems(2) g(3) by simp
    then have "g d \<notin> set items" by blast
    then have "g d \<in> set (rd_deletions (fst w'))" using rows gd by auto
    moreover have "itemOutcome lookup now (snd w') d (g d)" using itemOutcome_later [OF g(4)] none by blast
    ultimately show ?thesis using True by auto
  next
    case False
    then show ?thesis using rows mem [OF e False] by auto
  qed
  moreover have "lookup (snd w') k = lookup (snd w) k" if "validKey k" "k \<notin> do_storageKey ` set (d # items)" for k
    using keep g(5) [of k] that by simp
  moreover have "lookup (snd w') k = None" if "validKey k" "lookup (snd w) k = None" for k
    using none g(6) that by blast
  moreover have "rd_releases (fst w1) = rd_releases (fst w)" "rd_artifacts (fst w1) = rd_artifacts (fst w)"
    by (simp_all add: g(1))
  moreover have "c + f = length (d # items)" using cf g(2) IH(1) by simp
  ultimately show ?case unfolding IH(2-5) ids by blast
qed simp

end

subsection \<open>Authorization and effect\<close>

lemma authorizeDeletion_sound:
  assumes "authorizeDeletion db actor ws c = Inr u"
  shows "\<exists>m \<in> set (t_members db). m_workspaceId m = ws \<and> m_userId m = actor \<and> hasCapability (castRole (m_role m)) c"
proof -
  from assms obtain v where v: "actorMembershipOrThrow (lockTenantMembers db ws) actor = Inr v" "hasCapability (mv_role v) c"
    by (auto simp: authorizeDeletion_def bindE_Inr)
  then obtain m where m: "membershipForUser (lockTenantMembers db ws) actor = Some m" and r: "persistedWorkspaceRole (m_role m) = Inr (mv_role v)"
    by (auto simp: actorMembershipOrThrow_def membershipView_def bindE_Inr split: option.splits)
  have "m \<in> set (t_members db)" "m_workspaceId m = ws" "m_userId m = actor"
    using find_SomeD [OF m [unfolded membershipForUser_def]] by (auto simp: lockTenantMembers_def)
  moreover have "castRole (m_role m) = mv_role v"
    using r by (auto simp: persistedWorkspaceRole_def castRole_def split: if_splits)
  ultimately show ?thesis using v(2) by auto
qed

text \<open>A row of the outbox either was there or waits for a blob of a release that is gone.\<close>

lemma deleteProjectTx_effect:
  assumes ok: "blobsOk (t_rel db)" and c: "deleteProjectTx ids auditIds now actor ws pid conf db = Inr (Some db')"
  shows "\<exists>p w. findWorkspaceById db ws = Some w \<and> authorizeDeletion db actor (wr_id w) project_delete = Inr ()
      \<and> findProjectById db pid = Some p \<and> pj_workspaceId p = wr_id w \<and> conf = pj_slug p"
    and "blobsOk (t_rel db')"
    and "rd_releases (t_rel db') = filter (\<lambda>x. rl_projectId x \<noteq> pid) (rd_releases (t_rel db))"
    and "\<forall>a \<in> set (rd_artifacts (t_rel db)). if a \<in> set (rd_artifacts (t_rel db')) then \<exists>x \<in> set (rd_releases (t_rel db')). ownedBy x a
          else pendingKey (t_rel db') (ra_storageKey a)"
    and "t_projects db' = filter (\<lambda>p. pj_id p \<noteq> pid) (t_projects db)" "t_envs db' = filter (\<lambda>e. en_projectId e \<noteq> pid) (t_envs db)"
      "t_workspaces db' = t_workspaces db" "t_members db' = t_members db" "t_keys db' = filter (\<lambda>k. k_projectId k \<noteq> pid) (t_keys db)"
      "rd_projects (t_rel db') = filter (\<lambda>p. p \<noteq> pid) (rd_projects (t_rel db))"
      "length (t_audit db') = length (t_audit db) + 2"
proof -
  from c obtain w p db1 m where w: "findWorkspaceById db ws = Some w" and a: "authorizeDeletion db actor (wr_id w) project_delete = Inr ()"
    and p: "findProjectById db pid = Some p" "pj_workspaceId p = wr_id w" "conf = pj_slug p"
    and e: "enqueueProjects ids now [pj_id p] db = Inr db1"
    and f: "db' = deleteProjectRow (pj_id p) (deletionAudit auditIds now actor (pj_workspaceId p) (Some (pj_id p)) ''project'' m db1)"
    by (auto simp: deleteProjectTx_def bindE_Inr Let_def split: option.splits if_splits)
  have pid: "pj_id p = pid" using find_SomeD [OF p(1) [unfolded findProjectById_def]] by simp
  obtain new where new: "db1 = db\<lparr>t_rel := (t_rel db)\<lparr>rd_deletions := rd_deletions (t_rel db) @ new\<rparr>\<rparr>"
    "\<forall>d \<in> set new. do_completedAt d = None \<and> (\<exists>x \<in> set (rd_releases (t_rel db)). rl_projectId x \<in> set [pid] \<and> keyRelease (do_storageKey d) = Some (rl_id x))"
    "\<forall>a \<in> set (rd_artifacts (t_rel db)). \<forall>x \<in> set (rd_releases (t_rel db)). rl_id x = ra_releaseId a \<and> rl_projectId x \<in> set [pid] \<longrightarrow>
         (\<exists>d \<in> set new. do_storageKey d = ra_storageKey a)"
    using enqueueProjects_ok [OF ok, of ids now "[pid]"] e pid by auto
  have rel: "t_rel db' = cascadeReleases (\<lambda>p. p = pid) ((t_rel db)\<lparr>rd_deletions := rd_deletions (t_rel db) @ new\<rparr>)"
    by (simp add: f pid deletionAudit_def deleteProjectRow_def cascadeProjects_def new(1))
  have gone: "p = pid \<longleftrightarrow> p \<in> set [pid]" for p by simp
  note casc = enqueue_cascade [OF ok new(2,3) gone, folded rel]
  show "\<exists>p w. findWorkspaceById db ws = Some w \<and> authorizeDeletion db actor (wr_id w) project_delete = Inr ()
      \<and> findProjectById db pid = Some p \<and> pj_workspaceId p = wr_id w \<and> conf = pj_slug p" using w a p by blast
  show "rd_releases (t_rel db') = filter (\<lambda>x. rl_projectId x \<noteq> pid) (rd_releases (t_rel db))" using casc by simp
  show "blobsOk (t_rel db')"
    "\<forall>a \<in> set (rd_artifacts (t_rel db)). if a \<in> set (rd_artifacts (t_rel db')) then \<exists>x \<in> set (rd_releases (t_rel db')). ownedBy x a
          else pendingKey (t_rel db') (ra_storageKey a)"
    using casc by blast+
  show "t_projects db' = filter (\<lambda>p. pj_id p \<noteq> pid) (t_projects db)" "t_envs db' = filter (\<lambda>e. en_projectId e \<noteq> pid) (t_envs db)"
      "t_workspaces db' = t_workspaces db" "t_members db' = t_members db" "t_keys db' = filter (\<lambda>k. k_projectId k \<noteq> pid) (t_keys db)"
      "rd_projects (t_rel db') = filter (\<lambda>p. p \<noteq> pid) (rd_projects (t_rel db))"
      "length (t_audit db') = length (t_audit db) + 2"
    by (simp_all add: f pid new(1) deletionAudit_def deleteProjectRow_def cascadeProjects_def cascadeReleases_def auditTenant_def insertAuditRow_def)
qed

lemma deleteWorkspaceTx_effect:
  assumes ok: "blobsOk (t_rel db)" and c: "deleteWorkspaceTx ids auditIds now actor ws conf db = Inr (Some db')"
  defines "doomed \<equiv> pj_id ` {p \<in> set (t_projects db). pj_workspaceId p = ws}"
  shows "\<exists>w. findWorkspaceById db ws = Some w \<and> authorizeDeletion db actor ws workspace_delete = Inr () \<and> conf = wr_slug w"
    and "blobsOk (t_rel db')"
    and "rd_releases (t_rel db') = filter (\<lambda>x. rl_projectId x \<notin> doomed) (rd_releases (t_rel db))"
    and "\<forall>a \<in> set (rd_artifacts (t_rel db)). if a \<in> set (rd_artifacts (t_rel db')) then \<exists>x \<in> set (rd_releases (t_rel db')). ownedBy x a
          else pendingKey (t_rel db') (ra_storageKey a)"
    and "t_projects db' = filter (\<lambda>p. pj_id p \<notin> doomed) (t_projects db)" "t_envs db' = filter (\<lambda>e. en_projectId e \<notin> doomed) (t_envs db)"
      "t_workspaces db' = filter (\<lambda>w. wr_id w \<noteq> ws) (t_workspaces db)" "t_members db' = filter (\<lambda>m. m_workspaceId m \<noteq> ws) (t_members db)"
      "t_keys db' = filter (\<lambda>k. k_projectId k \<notin> doomed) (t_keys db)"
      "rd_projects (t_rel db') = filter (\<lambda>p. p \<notin> doomed) (rd_projects (t_rel db))"
      "\<forall>r \<in> set (t_audit db'). al_workspaceId r \<noteq> ws"
proof -
  from c obtain w db1 m where w: "findWorkspaceById db ws = Some w" and a: "authorizeDeletion db actor (wr_id w) workspace_delete = Inr ()"
    and p: "conf = wr_slug w"
    and e: "enqueueProjects ids now (map pj_id (lockProjectsByWorkspace db (wr_id w))) db = Inr db1"
    and f: "db' = deleteWorkspaceRow (wr_id w) (deletionAudit auditIds now actor (wr_id w) None ''workspace'' m db1)"
    by (auto simp: deleteWorkspaceTx_def bindE_Inr Let_def split: option.splits if_splits)
  have wid: "wr_id w = ws" using find_SomeD [OF w [unfolded findWorkspaceById_def]] by simp
  let ?ps = "map pj_id (lockProjectsByWorkspace db ws)"
  have ps: "set ?ps = doomed" by (auto simp: lockProjectsByWorkspace_def doomed_def)
  have gone: "list_ex (\<lambda>p. pj_id p = i \<and> pj_workspaceId p = ws) (t_projects db) \<longleftrightarrow> i \<in> set ?ps" for i
    unfolding ps by (auto simp: list_ex_iff doomed_def)
  obtain new where new: "db1 = db\<lparr>t_rel := (t_rel db)\<lparr>rd_deletions := rd_deletions (t_rel db) @ new\<rparr>\<rparr>"
    "\<forall>d \<in> set new. do_completedAt d = None \<and> (\<exists>x \<in> set (rd_releases (t_rel db)). rl_projectId x \<in> set ?ps \<and> keyRelease (do_storageKey d) = Some (rl_id x))"
    "\<forall>a \<in> set (rd_artifacts (t_rel db)). \<forall>x \<in> set (rd_releases (t_rel db)). rl_id x = ra_releaseId a \<and> rl_projectId x \<in> set ?ps \<longrightarrow>
         (\<exists>d \<in> set new. do_storageKey d = ra_storageKey a)"
    using enqueueProjects_ok [OF ok, of ids now ?ps] e wid by auto
  let ?gone = "\<lambda>i. list_ex (\<lambda>p. pj_id p = i \<and> pj_workspaceId p = ws) (t_projects db)"
  have rel: "t_rel db' = cascadeReleases ?gone ((t_rel db)\<lparr>rd_deletions := rd_deletions (t_rel db) @ new\<rparr>)"
    by (simp add: f wid deletionAudit_def deleteWorkspaceRow_def cascadeProjects_def new(1))
  note casc = enqueue_cascade [OF ok new(2,3) gone, folded rel, unfolded ps]
  show "\<exists>w. findWorkspaceById db ws = Some w \<and> authorizeDeletion db actor ws workspace_delete = Inr () \<and> conf = wr_slug w"
    using w a p wid by blast
  show "blobsOk (t_rel db')" "rd_releases (t_rel db') = filter (\<lambda>x. rl_projectId x \<notin> doomed) (rd_releases (t_rel db))"
    "\<forall>a \<in> set (rd_artifacts (t_rel db)). if a \<in> set (rd_artifacts (t_rel db')) then \<exists>x \<in> set (rd_releases (t_rel db')). ownedBy x a
          else pendingKey (t_rel db') (ra_storageKey a)"
    using casc by blast+
  show "t_projects db' = filter (\<lambda>p. pj_id p \<notin> doomed) (t_projects db)" "t_envs db' = filter (\<lambda>e. en_projectId e \<notin> doomed) (t_envs db)"
      "t_workspaces db' = filter (\<lambda>w. wr_id w \<noteq> ws) (t_workspaces db)" "t_members db' = filter (\<lambda>m. m_workspaceId m \<noteq> ws) (t_members db)"
      "t_keys db' = filter (\<lambda>k. k_projectId k \<notin> doomed) (t_keys db)"
      "rd_projects (t_rel db') = filter (\<lambda>p. p \<notin> doomed) (rd_projects (t_rel db))"
      "\<forall>r \<in> set (t_audit db'). al_workspaceId r \<noteq> ws"
    unfolding ps [symmetric] gone [symmetric]
    by (simp_all add: f wid new(1) deletionAudit_def deleteWorkspaceRow_def cascadeProjects_def cascadeReleases_def auditTenant_def)
qed

text \<open>Deleting keeps the tenancy invariant.\<close>

lemma filtered_tenancy:
  assumes ok: "tenancyOk db"
    and t: "t_projects db' = filter (\<lambda>p. pj_id p \<notin> gone) (t_projects db)" "t_envs db' = filter (\<lambda>e. en_projectId e \<notin> gone) (t_envs db)"
      "t_workspaces db' = filter (\<lambda>w. wr_id w \<notin> gonews) (t_workspaces db)" "t_members db' = filter (\<lambda>m. m_workspaceId m \<notin> gonews) (t_members db)"
      "rd_projects (t_rel db') = filter (\<lambda>p. p \<notin> gone) (rd_projects (t_rel db))"
    and hang: "\<And>p. p \<in> set (t_projects db) \<Longrightarrow> pj_workspaceId p \<in> gonews \<Longrightarrow> pj_id p \<in> gone"
  shows "tenancyOk db'"
proof -
  have w: "workspacesOk db'" using ok unfolding tenancyOk_def workspacesOk_def t by (simp add: distinct_map_filter)
  have m: "membersOk db'" using ok unfolding tenancyOk_def membersOk_def t
    by (simp add: distinct_map_filter image_subset_iff in_image) metis
  have "filter (\<lambda>p. p \<notin> gone) (map pj_id (t_projects db)) = map pj_id (filter (\<lambda>p. pj_id p \<notin> gone) (t_projects db))"
    by (simp add: filter_map o_def)
  moreover have "pj_workspaceId ` set (t_projects db') \<subseteq> wr_id ` set (t_workspaces db')"
    using ok unfolding tenancyOk_def projectsOk_def t by (simp add: image_subset_iff in_image) (metis hang)
  ultimately have p: "projectsOk db'" using ok unfolding tenancyOk_def projectsOk_def t(1,5)
    by (simp add: distinct_map_filter)
  have e: "envRowsOk db'" using ok unfolding tenancyOk_def envRowsOk_def t by (simp add: distinct_map_filter)
  have "envCover db'"
  proof -
    have "en_projectId ` set (t_envs db') = en_projectId ` set (t_envs db) - gone" unfolding t by auto
    moreover have "pj_id ` set (t_projects db') = pj_id ` set (t_projects db) - gone" unfolding t by auto
    ultimately show ?thesis using ok by (simp add: tenancyOk_def envCover_def)
  qed
  with w m p e show ?thesis by (simp add: tenancyOk_def)
qed

lemma deleteProject_keeps [inv_intro]:
  assumes ok: "tenancyOk db" "blobsOk (t_rel db)"
  shows "tenancyOk (snd (deleteProjectWithArtifacts ids auditIds now (\<lambda>db. db) actor pid input db))"
proof -
  have "tenancyOk db'" if c: "deleteProjectTx ids auditIds now actor ws pid conf db = Inr (Some db')" for ws conf db'
    using deleteProjectTx_effect(5,6,7,8,10) [OF ok(2) c]
    by (intro filtered_tenancy [OF ok(1), of _ "{pid}" "{}"]) simp_all
  then show ?thesis using ok
    by (auto simp: deleteProjectWithArtifacts_def split: sum.splits option.splits)
qed

lemma deleteWorkspace_keeps [inv_intro]:
  assumes ok: "tenancyOk db" "blobsOk (t_rel db)"
  shows "tenancyOk (snd (deleteWorkspaceWithArtifacts ids auditIds now actor ws input db))"
proof -
  have "tenancyOk db'" if c: "deleteWorkspaceTx ids auditIds now actor ws conf db = Inr (Some db')" for conf db'
    using deleteWorkspaceTx_effect(5-8,10) [OF ok(2) c]
    by (intro filtered_tenancy [OF ok(1), of _ "pj_id ` {p \<in> set (t_projects db). pj_workspaceId p = ws}" "{ws}"]) auto
  then show ?thesis using ok
    by (auto simp: deleteWorkspaceWithArtifacts_def split: sum.splits option.splits)
qed

end
