(* ===== verification/TenancySystem.thy ===== *)
theory TenancySystem
  imports DeletionLaws
begin

text \<open>
  The tenancy system as a whole: every operation of the services as a step, the states it can reach
  and what holds in all of them; then the deletion of a project or workspace and the worker that
  follows it.
\<close>

subsection \<open>What the operations do to releases and blobs\<close>

definition sameRel :: "tdb \<Rightarrow> tdb \<Rightarrow> bool" where
  "sameRel db db' \<longleftrightarrow> rd_releases (t_rel db') = rd_releases (t_rel db) \<and> rd_artifacts (t_rel db') = rd_artifacts (t_rel db)
     \<and> rd_deletions (t_rel db') = rd_deletions (t_rel db)"

lemma sameRel_refl [simp]: "sameRel db db"
  by (simp add: sameRel_def)

lemma sameRel_blobs: "sameRel db db' \<Longrightarrow> blobsOk (t_rel db') = blobsOk (t_rel db)"
  by (simp add: sameRel_def blobsOk_def rowsOwned_def outboxDead_def)

lemma runTx_sameRel:
  "(\<And>x db'. body db = Inr (x, db') \<Longrightarrow> sameRel db db') \<Longrightarrow> sameRel db (snd (runTx dup body db))"
  by (auto simp: runTx_def split: sum.splits txError.splits prod.splits)

lemma clear_sameRel [simp]: "t_rel (clearDefaultEnvironments now pid db) = t_rel db"
  by (simp add: clearDefaultEnvironments_def)

lemma tx_sameRel [frame]:
  "createWorkspaceTx ids now actor n s db = Inr (w, db') \<Longrightarrow> sameRel db db'"
  "updateWorkspaceTx ids now actor ws p db = Inr (w, db') \<Longrightarrow> sameRel db db'"
  "updateProjectTx ids now actor e pp db = Inr (r, db') \<Longrightarrow> sameRel db db'"
  "createEnvironmentTx i now pid n b d db = Inr (en, db') \<Longrightarrow> sameRel db db'"
  "updateEnvironmentTx now x ep db = Inr (en, db') \<Longrightarrow> sameRel db db'"
  by (auto simp: sameRel_def createWorkspaceTx_def insertWorkspace_def insertMembership_def updateWorkspaceTx_def updateWorkspaceRow_def
      updateProjectTx_def updateProjectRow_def createEnvironmentTx_def insertEnvironment_def updateEnvironmentTx_def updateEnvironmentRow_def
      bindE_Inr Let_def split: if_splits option.splits)

lemma createProjectTx_sameRel [frame]:
  assumes "createProjectTx sha rand ids now actor v db = Inr (x, db')"
  shows "sameRel db db'"
  using assms insertFirstKey_frame
  by (fastforce simp: sameRel_def createProjectTx_def insertProject_def insertEnvironment_def bindE_Inr Let_def split: if_splits)

lemma deleteEnvironmentTx_sameRel [frame]: "deleteEnvironmentTx le now e db = Inr (u, db') \<Longrightarrow> sameRel db db'"
  by (auto simp: sameRel_def deleteEnvironmentTx_def promoteEnvironment_def updateEnvironmentRow_def deleteEnvironmentRow_def
      bindE_Inr Let_def split: if_splits option.splits list.splits)

lemmas runs_sameRel = runTx_sameRel [OF tx_sameRel(1)] runTx_sameRel [OF tx_sameRel(2)] runTx_sameRel [OF tx_sameRel(3)]
  runTx_sameRel [OF tx_sameRel(4)] runTx_sameRel [OF tx_sameRel(5)] runTx_sameRel [OF createProjectTx_sameRel]

lemma deleteEnvironment_sameRel: "sameRel db (snd (runTx dup (deleteEnvironmentTx le now e) db))"
  by (rule runTx_sameRel) (rule deleteEnvironmentTx_sameRel)

lemma op_sameRel:
  "sameRel db (snd (createWorkspace ids now actor n s db))"
  "sameRel db (snd (updateWorkspace ids now actor ws wp db))"
  "sameRel db (snd (createProject sha rand ids now actor ws input db))"
  "sameRel db (snd (updateProject ids now actor pid ui db))"
  "sameRel db (snd (createEnvironment newURL i now actor pid ce db))"
  "sameRel db (snd (updateEnvironment newURL now actor i ep db))"
  "sameRel db (snd (deleteEnvironment le (\<lambda>db. db) now actor i db))"
  by (auto simp: createWorkspace_def updateWorkspace_def createProject_def updateProject_def createEnvironment_def updateEnvironment_def
      deleteEnvironment_def Let_def case_prod_beta runs_sameRel deleteEnvironment_sameRel split: sum.splits option.splits)

subsection \<open>Releases and artifacts under the invariant\<close>

text \<open>A release gets an id that no key of the outbox names; an artifact row names its release in its key.\<close>

definition freshRelease :: "jstr \<Rightarrow> rdb \<Rightarrow> bool" where
  "freshRelease i r \<longleftrightarrow> i \<notin> rl_id ` set (rd_releases r) \<and> (\<forall>d \<in> set (rd_deletions r). keyRelease (do_storageKey d) \<noteq> Some i)"

lemma createRelease_blobs:
  assumes ok: "blobsOk r" and f: "freshRelease newId r"
  shows "blobsOk (snd (createRelease (\<lambda>r. r) dbUp newId now input r))"
proof -
  have "blobsOk (r\<lparr>rd_releases := rd_releases r @ [x]\<rparr>)" if "rl_id x = newId" for x
    using ok f that unfolding blobsOk_def rowsOwned_def outboxDead_def freshRelease_def by auto
  then show ?thesis using ok
    by (auto simp: createRelease_def insertReleaseRow_def Let_def split: sum.splits option.splits if_splits)
qed

lemma insertArtifact_blobs:
  assumes ok: "blobsOk r" and x: "x \<in> set (rd_releases r)" "ia_releaseId i = rl_id x"
    "ia_storageKey i = blobKey (rl_projectId x) (rl_id x) (ia_contentHash i)" "keyParts (rl_projectId x) (rl_id x) (ia_contentHash i)"
  shows "blobsOk (snd (insertReleaseArtifact dbUp newId now i r))"
proof -
  obtain t row r' where e: "insertReleaseArtifact dbUp newId now i r = ((t, row), r')" by (metis surj_pair)
  from insertReleaseArtifact_cases [OF e] show ?thesis
  proof (elim disjE conjE exE)
    fix a assume a: "r' = r\<lparr>rd_artifacts := rd_artifacts r @ [a]\<rparr>" "ra_storageKey a = ia_storageKey i"
      "ra_contentHash a = ia_contentHash i" "ra_releaseId a = ia_releaseId i"
    have "ownedBy x a" using a x by (simp add: ownedBy_def)
    then show ?thesis using ok x(1) by (auto simp: e a(1) blobsOk_def rowsOwned_def outboxDead_def)
  qed (use ok e in simp)
qed

subsection \<open>Reachable states\<close>

text \<open>One request of the API at a time; ids, the clock and the inputs are any.\<close>

inductive tenancyStep :: "tdb \<Rightarrow> tdb \<Rightarrow> bool" where
  step_createWorkspace: "tenancyStep db (snd (createWorkspace ids now actor n s db))"
| step_updateWorkspace: "tenancyStep db (snd (updateWorkspace ids now actor ws wp db))"
| step_createProject: "tenancyStep db (snd (createProject sha rand ids now actor ws input db))"
| step_updateProject: "tenancyStep db (snd (updateProject ids now actor pid ui db))"
| step_createEnvironment: "tenancyStep db (snd (createEnvironment newURL i now actor pid ce db))"
| step_updateEnvironment: "tenancyStep db (snd (updateEnvironment newURL now actor i ep db))"
| step_deleteEnvironment: "tenancyStep db (snd (deleteEnvironment le (\<lambda>db. db) now actor i db))"
| step_release: "freshRelease i (t_rel db) \<Longrightarrow>
    tenancyStep db (db\<lparr>t_rel := snd (createRelease (\<lambda>r. r) dbUp i (int now) rel (t_rel db))\<rparr>)"
| step_artifact: "x \<in> set (rd_releases (t_rel db)) \<Longrightarrow> ia_releaseId a = rl_id x \<Longrightarrow>
    ia_storageKey a = blobKey (rl_projectId x) (rl_id x) (ia_contentHash a) \<Longrightarrow> keyParts (rl_projectId x) (rl_id x) (ia_contentHash a) \<Longrightarrow>
    tenancyStep db (db\<lparr>t_rel := snd (insertReleaseArtifact dbUp i (int now) a (t_rel db))\<rparr>)"
| step_deleteProject: "tenancyStep db (snd (deleteProjectWithArtifacts ids auditIds now (\<lambda>db. db) actor pid body db))"
| step_deleteWorkspace: "tenancyStep db (snd (deleteWorkspaceWithArtifacts ids auditIds now actor ws body db))"

inductive_cases tenancyStep_cases: "tenancyStep db db'"

definition systemOk :: "tdb \<Rightarrow> bool" where
  "systemOk db \<longleftrightarrow> tenancyOk db \<and> blobsOk (t_rel db)"

lemma rel_only: "rd_projects r = rd_projects (t_rel db) \<Longrightarrow> tenancyOk (db\<lparr>t_rel := r\<rparr>) = tenancyOk db"
  by (simp add: tenancyOk_def workspacesOk_def membersOk_def projectsOk_def envRowsOk_def envCover_def)

lemma createRelease_projects [simp]: "rd_projects (snd (createRelease (\<lambda>r. r) dbUp i now rel r)) = rd_projects r"
  by (auto simp: createRelease_def insertReleaseRow_def Let_def split: sum.splits option.splits if_splits)

lemma insertArtifact_projects [simp]: "rd_projects (snd (insertReleaseArtifact dbUp i now a r)) = rd_projects r"
  by (auto simp: insertReleaseArtifact_def Let_def split: sum.splits if_splits)

lemma deletions_blobs:
  assumes "blobsOk (t_rel db)"
  shows "blobsOk (t_rel (snd (deleteProjectWithArtifacts ids auditIds now (\<lambda>db. db) actor pid body db)))"
    and "blobsOk (t_rel (snd (deleteWorkspaceWithArtifacts ids auditIds now actor ws body db)))"
  using assms deleteProjectTx_effect(2) [OF assms] deleteWorkspaceTx_effect(2) [OF assms]
  by (auto simp: deleteProjectWithArtifacts_def deleteWorkspaceWithArtifacts_def split: sum.splits option.splits)

lemma step_keeps: "tenancyStep db db' \<Longrightarrow> systemOk db \<Longrightarrow> systemOk db'"
proof (induction rule: tenancyStep.induct)
  case (step_release i db dbUp now rel)
  then show ?case using createRelease_blobs by (simp add: systemOk_def rel_only)
next
  case (step_artifact x db a dbUp i now)
  then show ?case using insertArtifact_blobs by (simp add: systemOk_def rel_only)
next
  case (step_deleteProject db ids auditIds now actor pid body)
  then show ?case using deletions_blobs(1) deleteProject_keeps by (simp add: systemOk_def)
next
  case (step_deleteWorkspace db ids auditIds now actor ws body)
  then show ?case using deletions_blobs(2) deleteWorkspace_keeps by (simp add: systemOk_def)
qed (simp_all add: systemOk_def sameRel_blobs [OF op_sameRel(1)] sameRel_blobs [OF op_sameRel(2)] sameRel_blobs [OF op_sameRel(3)]
    sameRel_blobs [OF op_sameRel(4)] sameRel_blobs [OF op_sameRel(5)] sameRel_blobs [OF op_sameRel(6)] sameRel_blobs [OF op_sameRel(7)] inv_intro)

definition emptyTenancy :: "UserRow list \<Rightarrow> tdb" where
  "emptyTenancy users = \<lparr>t_users = users, t_workspaces = [], t_members = [], t_projects = [], t_envs = [], t_keys = [], t_nextKey = 0,
     t_audit = [], t_rel = \<lparr>rd_projects = [], rd_releases = [], rd_artifacts = [], rd_deletions = []\<rparr>\<rparr>"

lemma emptyTenancy_ok: "systemOk (emptyTenancy users)"
  by (simp add: systemOk_def emptyTenancy_def tenancyOk_def workspacesOk_def membersOk_def projectsOk_def envRowsOk_def envCover_def
      blobsOk_def rowsOwned_def outboxDead_def)

lemma reachable_ok: "tenancyStep\<^sup>*\<^sup>* (emptyTenancy users) db \<Longrightarrow> systemOk db"
  by (induction rule: rtranclp_induct) (use emptyTenancy_ok step_keeps in blast)+

subsection \<open>Properties\<close>

text \<open>Every artifact row is still there with its release, or its key waits in the outbox.\<close>

definition keptOrQueued :: "rdb \<Rightarrow> rdb \<Rightarrow> bool" where
  "keptOrQueued r r' \<longleftrightarrow> (\<forall>a \<in> set (rd_artifacts r). if a \<in> set (rd_artifacts r') then \<exists>x \<in> set (rd_releases r'). ownedBy x a
     else pendingKey r' (ra_storageKey a))"

lemma defaults_at_most_one:
  assumes "envRowsOk db"
  shows "length (filter en_isDefault (listEnvironmentsByProject db pid)) \<le> 1"
proof -
  let ?l = "filter en_isDefault (listEnvironmentsByProject db pid)"
  have "distinct (t_envs db)" using assms unfolding envRowsOk_def distinct_map by blast
  then have "distinct ?l" by (simp add: listEnvironmentsByProject_def)
  moreover have "e = e'" if "e \<in> set ?l" "e' \<in> set ?l" for e e'
    using assms that unfolding envRowsOk_def listEnvironmentsByProject_def by auto
  moreover have "hd ?l \<in> set ?l" if "1 < length ?l" using that by (intro hd_in_set) auto
  ultimately show ?thesis using another_element [of ?l "hd ?l"] by (metis not_le)
qed


text \<open>
  C12: deleting a project takes effect exactly when the workspace still exists, the actor's role
  there allows it, the project is still in it and the confirmation is its slug; otherwise nothing
  changes. Then no row of the project is left, every artifact row that went waits in the outbox
  under its key, every other row keeps its release, and the outbox names no release that is left.
\<close>

theorem project_deletion_is_durable:
  assumes ok: "blobsOk (t_rel (others db))"
    and run: "deleteProjectWithArtifacts ids auditIds now others actor pid body db = (res, db')"
  shows "(res = Inr True \<longleftrightarrow>
      (\<exists>c p w. findProjectById db pid = Some c \<and> findWorkspaceById (others db) (pj_workspaceId c) = Some w
        \<and> authorizeDeletion (others db) actor (wr_id w) project_delete = Inr () \<and> findProjectById (others db) pid = Some p
        \<and> pj_workspaceId p = wr_id w \<and> parseDeletionInput body = Inr (pj_slug p)))
    \<and> (if res = Inr True
       then t_projects db' = filter (\<lambda>p. pj_id p \<noteq> pid) (t_projects (others db)) \<and> t_envs db' = filter (\<lambda>e. en_projectId e \<noteq> pid) (t_envs (others db))
         \<and> t_keys db' = filter (\<lambda>k. k_projectId k \<noteq> pid) (t_keys (others db))
         \<and> rd_releases (t_rel db') = filter (\<lambda>x. rl_projectId x \<noteq> pid) (rd_releases (t_rel (others db)))
         \<and> keptOrQueued (t_rel (others db)) (t_rel db')
         \<and> blobsOk (t_rel db') \<and> length (t_audit db') = length (t_audit (others db)) + 2
       else db' = db \<or> db' = others db)"
proof (cases "\<exists>conf c db1. parseDeletionInput body = Inr conf \<and> findProjectById db pid = Some c
    \<and> deleteProjectTx ids auditIds now actor (pj_workspaceId c) pid conf (others db) = Inr (Some db1)")
  case True
  then obtain conf c db1 where c: "parseDeletionInput body = Inr conf" "findProjectById db pid = Some c"
    "deleteProjectTx ids auditIds now actor (pj_workspaceId c) pid conf (others db) = Inr (Some db1)" by blast
  then have "res = Inr True" "db' = db1" using run by (simp_all add: deleteProjectWithArtifacts_def)
  then show ?thesis using deleteProjectTx_effect [OF ok c(3), folded keptOrQueued_def] c(1,2) by simp
next
  case False
  have "deleteProjectTx ids auditIds now actor (pj_workspaceId c) pid (pj_slug p) (others db) \<noteq> Inr None
      \<and> \<not> isl (deleteProjectTx ids auditIds now actor (pj_workspaceId c) pid (pj_slug p) (others db))"
    if "findWorkspaceById (others db) (pj_workspaceId c) = Some w" "authorizeDeletion (others db) actor (wr_id w) project_delete = Inr ()"
      "findProjectById (others db) pid = Some p" "pj_workspaceId p = wr_id w" for c p w
    using that enqueueProjects_ok [OF ok, of ids now "[pj_id p]"] by (auto simp: deleteProjectTx_def Let_def)
  then have "\<not> (\<exists>c p w. findProjectById db pid = Some c \<and> findWorkspaceById (others db) (pj_workspaceId c) = Some w
        \<and> authorizeDeletion (others db) actor (wr_id w) project_delete = Inr () \<and> findProjectById (others db) pid = Some p
        \<and> pj_workspaceId p = wr_id w \<and> parseDeletionInput body = Inr (pj_slug p))"
    using False by (metis isl_def not_None_eq old.sum.exhaust)
  moreover have "res \<noteq> Inr True \<and> (db' = db \<or> db' = others db)"
    using run False by (auto simp: deleteProjectWithArtifacts_def split: sum.splits option.splits)
  ultimately show ?thesis by simp
qed

text \<open>
  C26: deleting a workspace needs its owner and its slug; then nothing of it or of its projects is
  left, every artifact row that went waits in the outbox, and so is gone every audit entry of the
  workspace, the two that record this deletion among them.
\<close>

theorem workspace_deletion_leaves_no_trace:
  assumes ok: "blobsOk (t_rel db)" and run: "deleteWorkspaceWithArtifacts ids auditIds now actor ws body db = (res, db')"
  shows "if res = Inr True
     then (\<exists>m \<in> set (t_members db). m_workspaceId m = ws \<and> m_userId m = actor \<and> castRole (m_role m) = Owner)
       \<and> (\<exists>w. findWorkspaceById db ws = Some w \<and> parseDeletionInput body = Inr (wr_slug w))
       \<and> (\<forall>w \<in> set (t_workspaces db'). wr_id w \<noteq> ws) \<and> (\<forall>m \<in> set (t_members db'). m_workspaceId m \<noteq> ws)
       \<and> (\<forall>r \<in> set (t_audit db'). al_workspaceId r \<noteq> ws)
       \<and> (\<forall>p \<in> set (t_projects db). pj_workspaceId p = ws \<longrightarrow>
            (\<forall>q \<in> set (t_projects db'). pj_id q \<noteq> pj_id p) \<and> (\<forall>e \<in> set (t_envs db'). en_projectId e \<noteq> pj_id p)
            \<and> (\<forall>x \<in> set (rd_releases (t_rel db')). rl_projectId x \<noteq> pj_id p))
       \<and> keptOrQueued (t_rel db) (t_rel db')
       \<and> blobsOk (t_rel db')
     else db' = db"
proof (cases "\<exists>conf db1. parseDeletionInput body = Inr conf \<and> deleteWorkspaceTx ids auditIds now actor ws conf db = Inr (Some db1)")
  case True
  then obtain conf db1 where c: "parseDeletionInput body = Inr conf" "deleteWorkspaceTx ids auditIds now actor ws conf db = Inr (Some db1)" by blast
  then have r: "res = Inr True" "db' = db1" using run by (simp_all add: deleteWorkspaceWithArtifacts_def)
  note eff = deleteWorkspaceTx_effect [OF ok c(2), folded keptOrQueued_def]
  obtain m where "m \<in> set (t_members db)" "m_workspaceId m = ws" "m_userId m = actor" "hasCapability (castRole (m_role m)) workspace_delete"
    using eff(1) authorizeDeletion_sound by metis
  moreover from this have "castRole (m_role m) = Owner" by (cases "castRole (m_role m)") (simp_all add: hasCapability_def)
  ultimately have "\<exists>m \<in> set (t_members db). m_workspaceId m = ws \<and> m_userId m = actor \<and> castRole (m_role m) = Owner" by blast
  moreover have "\<exists>w. findWorkspaceById db ws = Some w \<and> parseDeletionInput body = Inr (wr_slug w)" using eff(1) c(1) by blast
  moreover have "\<forall>p \<in> set (t_projects db). pj_workspaceId p = ws \<longrightarrow>
        (\<forall>q \<in> set (t_projects db1). pj_id q \<noteq> pj_id p) \<and> (\<forall>e \<in> set (t_envs db1). en_projectId e \<noteq> pj_id p)
        \<and> (\<forall>x \<in> set (rd_releases (t_rel db1)). rl_projectId x \<noteq> pj_id p)"
    unfolding eff(3,5,6) by auto
  ultimately show ?thesis using r eff(2,4,7,8,11) by simp
next
  case False
  then show ?thesis using run by (auto simp: deleteWorkspaceWithArtifacts_def split: sum.splits option.splits)
qed

text \<open>
  C13: a pass of the deletion worker takes the blob of no artifact row: whatever rows are backed
  stay so. Every claimed item is counted once, as completed with its blob gone, or as failed and
  still pending with one more attempt; no other outbox row changes, and the invariant holds on.
\<close>

theorem deletion_worker_spares_live_blobs:
  assumes ok: "blobsOk (fst w)" "distinct (map do_id (rd_deletions (fst w)))"
    and run: "runArtifactDeletionBatch locked (\<lambda>n. deleteBlob asString cwd rootDir (u n)) now batchSize w = (Some r, w')"
  shows "rd_artifacts (fst w') = rd_artifacts (fst w)
    \<and> (\<forall>a \<in> set (rd_artifacts (fst w)). rowOk (blobAt cwd rootDir) sha (snd w) a \<longrightarrow> rowOk (blobAt cwd rootDir) sha (snd w') a)
    \<and> db_completed r + db_failed r = db_claimed r \<and> db_claimed r \<le> nat batchSize
    \<and> (\<forall>d \<in> set (rd_deletions (fst w)). \<exists>d' \<in> set (rd_deletions (fst w')).
         d' = d \<or> (do_completedAt d = None \<and> itemOutcome (blobAt cwd rootDir) now (snd w') d d'))
    \<and> blobsOk (fst w')"
proof -
  from run obtain items c f where cl: "claimPendingArtifactDeletionBatch locked batchSize (fst w) = Some items"
    and lp: "deletionLoop (\<lambda>n. deleteBlob asString cwd rootDir (u n)) now 0 items w = ((c, f), w')"
    and r: "r = \<lparr>db_claimed = length items, db_completed = c, db_failed = f\<rparr>"
    by (auto simp: runArtifactDeletionBatch_def split: option.splits prod.splits)
  let ?pend = "filter (\<lambda>d. do_id d \<notin> locked) (sort_key (\<lambda>d. (do_createdAt d, do_id d)) (filter (\<lambda>d. do_completedAt d = None) (rd_deletions (fst w))))"
  have items: "items = take (nat batchSize) ?pend"
    using cl by (auto simp: claimPendingArtifactDeletionBatch_def split: if_splits)
  have pend: "set ?pend \<subseteq> {d \<in> set (rd_deletions (fst w)). do_completedAt d = None}" by auto
  have mem: "\<forall>d \<in> set items. d \<in> set (rd_deletions (fst w)) \<and> do_completedAt d = None"
    using pend set_take_subset [of "nat batchSize" ?pend] unfolding items by blast
  have "distinct (map do_id ?pend)" using ok(2)
    by (intro distinct_map_filter) (simp add: distinct_map inj_on_def)
  then have dis: "distinct (map do_id items)" unfolding items take_map [symmetric] by (rule distinct_take)
  note out = local_artifacts.deletionLoop_outcome [OF ok(2) dis mem lp]
  have keys: "ra_storageKey a \<notin> do_storageKey ` set items" "validKey (ra_storageKey a)" if a: "a \<in> set (rd_artifacts (fst w))" for a
  proof -
    obtain x where x: "x \<in> set (rd_releases (fst w))" "ownedBy x a" using ok(1) a by (auto simp: blobsOk_def rowsOwned_def)
    show "validKey (ra_storageKey a)" using x(2) validKey_blobKey by (auto simp: ownedBy_def)
    show "ra_storageKey a \<notin> do_storageKey ` set items"
    proof
      assume "ra_storageKey a \<in> do_storageKey ` set items"
      then obtain d where "d \<in> set (rd_deletions (fst w))" "do_storageKey d = ra_storageKey a" using mem by auto
      with ok(1) x ownedBy_key [OF x(2)] show False unfolding blobsOk_def outboxDead_def by metis
    qed
  qed
  have "rowOk (blobAt cwd rootDir) sha (snd w') a" if "a \<in> set (rd_artifacts (fst w))" "rowOk (blobAt cwd rootDir) sha (snd w) a" for a
    using local_artifacts.rowOk_other [OF that(2)] out keys [OF that(1)] by blast
  moreover have "blobsOk (fst w')"
  proof -
    have "do_storageKey ` set (rd_deletions (fst w')) = do_storageKey ` set (rd_deletions (fst w))" using out by (metis list.set_map)
    then have "\<exists>e \<in> set (rd_deletions (fst w)). do_storageKey e = do_storageKey d" if "d \<in> set (rd_deletions (fst w'))" for d
      using that by (metis imageE imageI)
    then show ?thesis using ok(1) out unfolding blobsOk_def rowsOwned_def outboxDead_def by metis
  qed
  moreover have "\<exists>d' \<in> set (rd_deletions (fst w')). d' = d \<or> (do_completedAt d = None \<and> itemOutcome (blobAt cwd rootDir) now (snd w') d d')"
    if "d \<in> set (rd_deletions (fst w))" for d
    using out that mem by meson
  moreover have "length items \<le> nat batchSize" by (simp add: items)
  ultimately show ?thesis using out r by simp
qed

subsection \<open>Witnesses\<close>

definition demoUser :: UserRow where "demoUser = \<lparr>u_id = [117], u_name = [65], u_email = [97]\<rparr>"

definition demoWorkspace :: WorkspaceRow where
  "demoWorkspace = \<lparr>wr_id = [119], wr_name = js ''Ab'', wr_slug = js ''ab'', wr_createdByUserId = [117], wr_createdAt = 0, wr_updatedAt = 0\<rparr>"

definition demoProjectRow :: ProjectRow where
  "demoProjectRow = \<lparr>pj_id = demoUuid, pj_workspaceId = [119], pj_name = js ''Cd'', pj_slug = js ''cd'', pj_description = None,
     pj_timezone = js ''UTC'', pj_retentionDays = 30, pj_createdAt = 0, pj_updatedAt = 0\<rparr>"

text \<open>A workspace with a project, a release and one artifact.\<close>

definition demoTenancy :: tdb where
  "demoTenancy = \<lparr>t_users = [demoUser], t_workspaces = [demoWorkspace],
     t_members = [\<lparr>m_id = [109], m_workspaceId = [119], m_userId = [117], m_role = js ''owner''\<rparr>],
     t_projects = [demoProjectRow], t_envs = [\<lparr>en_id = [101], en_projectId = demoUuid, en_name = js ''production'', en_baseUrl = None,
       en_isDefault = True, en_createdAt = 0, en_updatedAt = 0\<rparr>],
     t_keys = [], t_nextKey = 0, t_audit = [], t_rel = fst demoWorld\<rparr>"

lemma demoArtifact_owned: "ownedBy (hd (rd_releases (fst demoWorld))) demoArtifact"
  using demoUuid demoHash demoKey [of "[]"]
  by (simp add: ownedBy_def demoWorld_def demoArtifact_def blobKey_def keyParts_def)

lemma demoTenancy_blobs: "blobsOk (t_rel demoTenancy)"
  using demoArtifact_owned by (simp add: blobsOk_def demoTenancy_def demoWorld_def rowsOwned_def outboxDead_def)

lemma demo_confirmation: "parseDeletionInput (Some (JObj [(js ''confirmation'', JStr (js ''cd''))])) = Inr (js ''cd'')"
  "parseDeletionInput (Some (JObj [(js ''confirmation'', JStr (js ''ab''))])) = Inr (js ''ab'')"
  by (simp_all add: parseDeletionInput_def js_eval)

lemma demo_authorized: "authorizeDeletion demoTenancy [117] [119] project_delete = Inr ()"
  "authorizeDeletion demoTenancy [117] [119] workspace_delete = Inr ()"
  by (simp_all add: authorizeDeletion_def demoTenancy_def lockTenantMembers_def actorMembershipOrThrow_def membershipForUser_def
      membershipView_def persistedWorkspaceRole_def js_eval hasCapability_def requireWorkspaceCapability_def)

lemma demo_queued: "keptOrQueued (t_rel demoTenancy) r \<Longrightarrow> rd_releases r = [] \<Longrightarrow> pendingKey r (ra_storageKey demoArtifact)"
proof -
  assume k: "keptOrQueued (t_rel demoTenancy) r" "rd_releases r = []"
  have "demoArtifact \<in> set (rd_artifacts (t_rel demoTenancy))" by (simp add: demoTenancy_def demoWorld_def)
  from bspec [OF k(1) [unfolded keptOrQueued_def] this] show ?thesis by (simp add: k(2) split: if_split_asm)
qed

lemma demo_doomed: "pj_id ` {p \<in> set (t_projects demoTenancy). pj_workspaceId p = [119]} = {demoUuid}"
proof -
  have "pj_workspaceId demoProjectRow = [119]" "pj_id demoProjectRow = demoUuid" by (simp_all add: demoProjectRow_def)
  moreover have "set (t_projects demoTenancy) = {demoProjectRow}" by (simp add: demoTenancy_def)
  ultimately have "{p \<in> set (t_projects demoTenancy). pj_workspaceId p = [119]} = {demoProjectRow}" by auto
  then show ?thesis by (simp add: demoProjectRow_def)
qed

theorem project_deletion_is_durable_witness:
  "\<exists>db'. deleteProjectWithArtifacts (\<lambda>n. [n]) (\<lambda>n. [n]) 5 (\<lambda>db. db) [117] demoUuid (Some (JObj [(js ''confirmation'', JStr (js ''cd''))]))
        demoTenancy = (Inr True, db')
     \<and> t_projects db' = [] \<and> rd_artifacts (t_rel demoTenancy) = [demoArtifact] \<and> pendingKey (t_rel db') (ra_storageKey demoArtifact)"
proof -
  obtain res db' where run: "deleteProjectWithArtifacts (\<lambda>n. [n]) (\<lambda>n. [n]) 5 (\<lambda>db. db) [117] demoUuid
      (Some (JObj [(js ''confirmation'', JStr (js ''cd''))])) demoTenancy = (res, db')" by (metis surj_pair)
  note d = project_deletion_is_durable [OF demoTenancy_blobs run]
  have f: "findProjectById demoTenancy demoUuid = Some demoProjectRow" "findWorkspaceById demoTenancy [119] = Some demoWorkspace"
    by (simp_all add: findProjectById_def findWorkspaceById_def demoTenancy_def demoProjectRow_def demoWorkspace_def)
  have v: "pj_workspaceId demoProjectRow = [119]" "wr_id demoWorkspace = [119]" "pj_slug demoProjectRow = js ''cd''"
    by (simp_all add: demoProjectRow_def demoWorkspace_def)
  have res: "res = Inr True" using d f v demo_confirmation(1) demo_authorized(1) by simp
  with d have "t_projects db' = []" "rd_releases (t_rel db') = []" "keptOrQueued (t_rel demoTenancy) (t_rel db')"
    by (simp_all add: demoTenancy_def demoProjectRow_def demoWorld_def)
  moreover have "rd_artifacts (t_rel demoTenancy) = [demoArtifact]" by (simp add: demoTenancy_def demoWorld_def)
  ultimately show ?thesis using run res demo_queued by simp
qed

theorem workspace_deletion_leaves_no_trace_witness:
  "\<exists>db'. deleteWorkspaceWithArtifacts (\<lambda>n. [n]) (\<lambda>n. [n]) 5 [117] [119] (Some (JObj [(js ''confirmation'', JStr (js ''ab''))]))
        demoTenancy = (Inr True, db')
     \<and> t_workspaces db' = [] \<and> t_audit db' = [] \<and> rd_releases (t_rel db') = [] \<and> pendingKey (t_rel db') (ra_storageKey demoArtifact)"
proof -
  obtain res db' where run: "deleteWorkspaceWithArtifacts (\<lambda>n. [n]) (\<lambda>n. [n]) 5 [117] [119]
      (Some (JObj [(js ''confirmation'', JStr (js ''ab''))])) demoTenancy = (res, db')" by (metis surj_pair)
  note d = workspace_deletion_leaves_no_trace [OF demoTenancy_blobs run]
  have f: "findWorkspaceById demoTenancy [119] = Some demoWorkspace" "wr_id demoWorkspace = [119]" "wr_slug demoWorkspace = js ''ab''"
    by (simp_all add: findWorkspaceById_def demoTenancy_def demoWorkspace_def)
  have "\<exists>db1. deleteWorkspaceTx (\<lambda>n. [n]) (\<lambda>n. [n]) 5 [117] [119] (js ''ab'') demoTenancy = Inr (Some db1)"
    using enqueueProjects_ok [OF demoTenancy_blobs, of "\<lambda>n. [n]" 5 "map pj_id (lockProjectsByWorkspace demoTenancy [119])"] demo_authorized(2) f
    by (auto simp: deleteWorkspaceTx_def Let_def)
  then obtain db1 where tx: "deleteWorkspaceTx (\<lambda>n. [n]) (\<lambda>n. [n]) 5 [117] [119] (js ''ab'') demoTenancy = Inr (Some db1)" by blast
  then have res: "res = Inr True" "db1 = db'" using run demo_confirmation(2) by (simp_all add: deleteWorkspaceWithArtifacts_def)
  have "t_workspaces db' = []" "rd_releases (t_rel db') = []"
    using deleteWorkspaceTx_effect(3,7) [OF demoTenancy_blobs tx] unfolding res(2) demo_doomed
    by (simp_all add: demoTenancy_def demoWorkspace_def demoWorld_def demoProjectRow_def)
  moreover have "t_audit db' = []"
    using tx unfolding res(2) by (auto simp: deleteWorkspaceTx_def bindE_Inr f deleteWorkspaceRow_def cascadeProjects_def deletionAudit_def
        auditTenant_def insertAuditRow_def enqueueProjects_def demoTenancy_def Let_def split: option.splits if_splits)
  moreover have "keptOrQueued (t_rel demoTenancy) (t_rel db')" using d res by simp
  ultimately show ?thesis using run res demo_queued by simp
qed

lemma insertFirstKey_fresh:
  assumes "goodEntropy (rand 0)" "snd (generatePublicKey (rand 0)) \<notin> k_prefix ` set (t_keys db)"
  shows "\<exists>x db'. insertFirstKey sha now rand pid db = Inr (x, db')"
proof -
  have h: "hashPublicKey sha (fst (generatePublicKey (rand 0))) = Inr (toHex (sha (utf8 (fst (generatePublicKey (rand 0))))))"
    by (rule hash_generated [OF assms(1)])
  have "fst (generatePublicKey (rand 0)) \<noteq> []" by (simp add: generatePublicKey_def Let_def PUBLIC_KEY_PREFIX_def js_eval)
  then show ?thesis
    using insertAttempts_first(1) [of "hashPublicKey sha" "\<lambda>a. generatePublicKey (rand a)", OF h,
        of "\<lambda>prefix h. \<lparr>nk_projectId = pid, nk_kind = js ''public_ingest'', nk_name = js ''default'', nk_prefix = prefix, nk_keyHash = h\<rparr>"] assms(2)
    by (cases "generatePublicKey (rand 0)") (simp add: insertFirstKey_def keyTables_def insertProjectKey_def Let_def)
qed

definition demoCreate :: CreateProjectInput where
  "demoCreate = \<lparr>ci_name = js ''Cd'', ci_slug = None, ci_description = None, ci_timezone = None, ci_retentionDays = None\<rparr>"

lemma demo_slugs: "resolveSlug ''Workspace'' (js ''Ab'') None = Inr (js ''ab'')" "resolveSlug ''Project'' (js ''Cd'') None = Inr (js ''cd'')"
  by (simp_all add: resolveSlug_def normalizeSlugValue_def lowerText_def trim_def trimStart_def trimEnd_def js_eval isWs_def lowerUnit_def
      isUpper_def slugLetter_def endsWith_def)

lemma demo_trim: "trim (js ''Ab'') = js ''Ab''" "trim (js ''Cd'') = js ''Cd''" "trim (js ''UTC'') = js ''UTC''"
  "js ''Ab'' \<noteq> []" "js ''Cd'' \<noteq> []" "js ''UTC'' \<noteq> []"
  by (simp_all add: trim_def trimStart_def trimEnd_def js_eval isWs_def)


text \<open>Two rows of the outbox, one claimable; the artifact of the live release keeps its blob.\<close>

definition demoUuid2 :: jstr where
  "demoUuid2 = replicate 8 98 @ [45] @ replicate 4 97 @ [45] @ replicate 4 97 @ [45] @ replicate 4 97 @ [45] @ replicate 12 97"

lemma demoUuid2: "UUID_PATTERN demoUuid2"
  by (simp add: demoUuid2_def UUID_PATTERN_def eval_nat_numeral isHex_def)

definition demoDead :: DeletionRow where
  "demoDead = \<lparr>do_id = [49], do_projectId = None, do_storageKey = blobKey demoUuid demoUuid2 (toHex (replicate 32 0)),
     do_attemptCount = 0, do_createdAt = 0, do_lastAttemptAt = None, do_completedAt = None, do_lastError = None\<rparr>"

lemma demoDead_parts: "keyParts demoUuid demoUuid2 (toHex (replicate 32 0))"
  using demoUuid demoUuid2 demoHash by (simp add: keyParts_def)

lemma demoUuids: "demoUuid2 \<noteq> demoUuid"
  by (simp add: demoUuid_def demoUuid2_def eval_nat_numeral)

definition demoWorker :: "files world" where
  "demoWorker = ((fst demoWorld)\<lparr>rd_deletions := [demoDead]\<rparr>,
     (snd demoWorld)(resolveSegs [] [js ''/r''] @ split_on 47 (do_storageKey demoDead) \<mapsto> [1]))"

theorem deletion_worker_spares_live_blobs_witness:
  "\<exists>r w'. runArtifactDeletionBatch {} (\<lambda>n. deleteBlob (\<lambda>_. []) [] (js ''/r'') True) 5 10 demoWorker = (Some r, w')
     \<and> db_claimed r = 1 \<and> db_completed r = 1 \<and> blobAt [] (js ''/r'') (snd w') (do_storageKey demoDead) = None
     \<and> rowOk (blobAt [] (js ''/r'')) (ue_sha256 demoUpload) (snd w') demoArtifact"
proof -
  let ?del = "\<lambda>n. deleteBlob (\<lambda>_. []) [] (js ''/r'') True"
  let ?k = "do_storageKey demoDead"
  have k: "?k = blobKey demoUuid demoUuid2 (toHex (replicate 32 0))" "do_projectId demoDead = None" "do_id demoDead = [49]"
    "do_completedAt demoDead = None" by (simp_all add: demoDead_def)
  have vk: "validKey ?k" unfolding k by (rule validKey_blobKey [OF demoDead_parts])
  have rels: "rd_releases (fst demoWorker) = rd_releases (fst demoWorld)" "rd_artifacts (fst demoWorker) = [demoArtifact]"
    "rd_deletions (fst demoWorker) = [demoDead]" by (simp_all add: demoWorker_def demoWorld_def)
  have "keyRelease ?k = Some demoUuid2" unfolding k by (rule keyRelease_blobKey [OF demoDead_parts])
  then have ok: "blobsOk (fst demoWorker)"
    using demoTenancy_blobs demoUuids
    by (simp add: blobsOk_def rowsOwned_def outboxDead_def rels demoTenancy_def) (simp add: demoWorld_def)
  have "\<exists>b s. ?del 0 ?k (snd demoWorker) = (Inr b, s)"
    by (simp add: deleteBlob_def validateStorageKey_fst [OF vk] resolveStoragePath_valid [OF vk]) (metis (full_types))
  then obtain b s where d: "?del 0 ?k (snd demoWorker) = (Inr b, s)" by blast
  have item: "validateItem demoDead"
    using parse_blobKey [OF demoDead_parts] by (simp add: validateItem_def k)
  have "claimPendingArtifactDeletionBatch {} 10 (fst demoWorker) = Some [demoDead]"
    by (simp add: claimPendingArtifactDeletionBatch_def MAX_ARTIFACT_DELETION_BATCH_SIZE_def rels k)
  then have "\<exists>r w'. runArtifactDeletionBatch {} ?del 5 10 demoWorker = (Some r, w') \<and> db_claimed r = 1 \<and> db_completed r = 1 \<and> snd w' = s"
    using item d by (simp add: runArtifactDeletionBatch_def deletionItem_def markArtifactDeletionCompleted_def rels k)
  then obtain r w' where run: "runArtifactDeletionBatch {} ?del 5 10 demoWorker = (Some r, w')" "db_claimed r = 1" "db_completed r = 1" "snd w' = s"
    by blast
  have none: "blobAt [] (js ''/r'') s ?k = None" using local_storage.remove_ok [OF vk d] by simp
  have "ra_storageKey demoArtifact \<noteq> ?k"
    using ownedBy_key [OF demoArtifact_owned] \<open>keyRelease ?k = Some demoUuid2\<close> demoUuids by (auto simp: demoWorld_def)
  then have "blobAt [] (js ''/r'') (snd demoWorker) (ra_storageKey demoArtifact) = blobAt [] (js ''/r'') (snd demoWorld) (ra_storageKey demoArtifact)"
    using split_on_inj by (auto simp: demoWorker_def blobAt_def)
  then have "rowOk (blobAt [] (js ''/r'')) (ue_sha256 demoUpload) (snd demoWorker) demoArtifact"
    using demo_world_ok(1) local_artifacts.rowOk_other by (simp add: worldOk_def demoWorld_def)
  then show ?thesis
    using deletion_worker_spares_live_blobs [OF ok _ run(1)] run none rels k by auto
qed

subsection \<open>Two deletions at once\<close>

text \<open>
  The count of the environments is read before the transaction, so two requests that each see two
  environments leave the project with none, which the service means to refuse.
\<close>

definition twoEnvs :: tdb where
  "twoEnvs = demoTenancy\<lparr>t_envs := t_envs demoTenancy @ [\<lparr>en_id = [102], en_projectId = demoUuid, en_name = js ''staging'', en_baseUrl = None,
     en_isDefault = False, en_createdAt = 0, en_updatedAt = 0\<rparr>]\<rparr>"

theorem concurrent_deletes_strand_project:
  "\<exists>db'. deleteEnvironment (\<lambda>a b. True) (\<lambda>db. snd (deleteEnvironment (\<lambda>a b. True) (\<lambda>db. db) 5 [117] [102] db)) 5 [117] [101] twoEnvs
      = (Inr True, db')
    \<and> envCover twoEnvs \<and> t_projects db' = [demoProjectRow] \<and> t_envs db' = []"
proof -
  have w: "environmentWriter twoEnvs [117] demoUuid = Inr demoProjectRow"
    by (simp add: environmentWriter_def projectOrNotFound_def findProjectById_def twoEnvs_def demoTenancy_def demoProjectRow_def
        memberOrThrow_def findMembershipRow_def hitsMember_def viewOf_def castRole_def js_eval requireWorkspaceCapability_def hasCapability_def)
  define d1 where "d1 = snd (deleteEnvironment (\<lambda>a b. True) (\<lambda>db. db) 5 [117] [102] twoEnvs)"
  have envs: "t_envs twoEnvs = [\<lparr>en_id = [101], en_projectId = demoUuid, en_name = js ''production'', en_baseUrl = None,
       en_isDefault = True, en_createdAt = 0, en_updatedAt = 0\<rparr>, \<lparr>en_id = [102], en_projectId = demoUuid, en_name = js ''staging'', en_baseUrl = None,
       en_isDefault = False, en_createdAt = 0, en_updatedAt = 0\<rparr>]" "t_projects twoEnvs = [demoProjectRow]"
    by (simp_all add: twoEnvs_def demoTenancy_def)
  have d1: "t_envs d1 = [\<lparr>en_id = [101], en_projectId = demoUuid, en_name = js ''production'', en_baseUrl = None,
       en_isDefault = True, en_createdAt = 0, en_updatedAt = 0\<rparr>]" "t_projects d1 = [demoProjectRow]"
    by (simp_all add: d1_def deleteEnvironment_def findEnvironmentById_def envs w listEnvironmentsByProject_def runTx_def
        deleteEnvironmentTx_def deleteEnvironmentRow_def)
  have "envCover twoEnvs" by (simp add: envCover_def envs demoProjectRow_def)
  moreover have "deleteEnvironment (\<lambda>a b. True) (\<lambda>db. d1) 5 [117] [101] twoEnvs = (Inr True, deleteEnvironmentRow [101] d1)"
    by (simp add: deleteEnvironment_def findEnvironmentById_def envs w listEnvironmentsByProject_def runTx_def
        deleteEnvironmentTx_def promoteEnvironment_def sortBy_def deleteEnvironmentRow_def d1)
  moreover have "deleteEnvironment (\<lambda>a b. True) (\<lambda>db. snd (deleteEnvironment (\<lambda>a b. True) (\<lambda>db. db) 5 [117] [102] db)) 5 [117] [101] twoEnvs
      = deleteEnvironment (\<lambda>a b. True) (\<lambda>db. d1) 5 [117] [101] twoEnvs"
    by (simp add: deleteEnvironment_def d1_def)
  ultimately show ?thesis by (simp add: deleteEnvironmentRow_def d1)
qed

end
