(* ===== verification/FormUrl.thy ===== *)
theory FormUrl
  imports Symbolicate Sanitize
begin

text \<open>
  \<open>URLSearchParams\<close> as the WHATWG standard defines it: the parser and the serializer of
  \<open>application/x-www-form-urlencoded\<close>, with the round trip of pairs of well-formed strings.
\<close>

subsection \<open>Parsing\<close>

fun percentDecode :: "nat list \<Rightarrow> nat list" where
  "percentDecode [] = []"
| "percentDecode (c # s) =
     (if c = 37 then
        (case s of a # b # r \<Rightarrow>
           (case (hexVal a, hexVal b) of
              (Some x, Some y) \<Rightarrow> (16 * x + y) # percentDecode r
            | _ \<Rightarrow> c # percentDecode s)
         | _ \<Rightarrow> c # percentDecode s)
      else c # percentDecode s)"

definition formDecode :: "nat list \<Rightarrow> jstr" where
  "formDecode bs = lossyText (percentDecode (map (\<lambda>c. if c = 43 then 32 else c) bs))"

definition formPair :: "nat list \<Rightarrow> jstr \<times> jstr" where
  "formPair bs =
     (if 61 \<in> set bs
      then (formDecode (takeWhile (\<lambda>c. c \<noteq> 61) bs), formDecode (tl (dropWhile (\<lambda>c. c \<noteq> 61) bs)))
      else (formDecode bs, []))"

text \<open>\<open>new URLSearchParams(s)\<close> drops one leading question mark.\<close>

definition parseForm :: "jstr \<Rightarrow> (jstr \<times> jstr) list" where
  "parseForm s =
     (let s' = (if startsWith s [63] then drop 1 s else s)
      in map formPair (filter (\<lambda>p. p \<noteq> []) (split_on 38 (utf8 s'))))"

subsection \<open>Serializing\<close>

definition formUnreserved :: "nat \<Rightarrow> bool" where
  "formUnreserved c \<longleftrightarrow> isAlnum c \<or> c = 42 \<or> c = 45 \<or> c = 46 \<or> c = 95"

definition formByte :: "nat \<Rightarrow> jstr" where
  "formByte b = (if formUnreserved b then [b] else if b = 32 then [43]
     else [37, hexDigit (b div 16), hexDigit (b mod 16)])"

definition formEncode :: "jstr \<Rightarrow> jstr" where
  "formEncode s = concat (map formByte (utf8 s))"

definition serializeForm :: "(jstr \<times> jstr) list \<Rightarrow> jstr" where
  "serializeForm ps = join [38] (map (\<lambda>(k, v). formEncode k @ 61 # formEncode v) ps)"

subsection \<open>Round trip\<close>

text \<open>The strings a decoder returns: the code units of scalar values.\<close>

definition wellFormed :: "jstr \<Rightarrow> bool" where
  "wellFormed s \<longleftrightarrow> (\<exists>cs. s = toUnits cs \<and> (\<forall>c \<in> set cs. scalar c))"

lemma lossyCps_scalar: "c \<in> set (lossyCps bs) \<Longrightarrow> scalar c"
proof (induction bs rule: lossyCps.induct)
  case (1 bs)
  then show ?case
    by (subst (asm) (3) lossyCps.simps)
      (auto split: if_splits option.splits dest: decode1_SomeD simp: scalar_def)
qed

lemma wellFormed_lossyText [simp]: "wellFormed (lossyText bs)"
  using lossyCps_scalar unfolding wellFormed_def lossyText_def by blast

lemma wellFormed_Nil [simp]: "wellFormed []"
  unfolding wellFormed_def by (intro exI [of _ "[]"]) simp

lemma parseForm_wellFormed: "(k, v) \<in> set (parseForm s) \<Longrightarrow> wellFormed k \<and> wellFormed v"
  by (auto simp: parseForm_def Let_def formPair_def formDecode_def split: if_splits)

text \<open>The units of an encoded string, and what the parser reads from them.\<close>

definition formUnit :: "nat \<Rightarrow> bool" where
  "formUnit c \<longleftrightarrow> formUnreserved c \<or> c = 43 \<or> c = 37"

lemma hexDigit_unit: "n < 16 \<Longrightarrow> isAlnum (hexDigit n) \<and> hexVal (hexDigit n) = Some n \<and> hexDigit n \<noteq> 43"
  by (auto simp: hexDigit_def hexVal_def isDigit_def isUpper_def isLower_def)

lemma formByte_units: "b < 256 \<Longrightarrow> c \<in> set (formByte b) \<Longrightarrow> formUnit c"
  using byte_quarters(1) [of b] hexDigit_unit [of "b div 16"] hexDigit_unit [of "b mod 16"]
  by (auto simp: formByte_def formUnit_def formUnreserved_def split: if_splits)

lemma formUnit_plain: "formUnit c \<Longrightarrow> c < 128 \<and> c \<noteq> 38 \<and> c \<noteq> 61 \<and> c \<noteq> 63"
  by (auto simp: formUnit_def formUnreserved_def char_class_defs)

lemma encodeCp_byte: "scalar c \<Longrightarrow> b \<in> set (encodeCp c) \<Longrightarrow> b < 256"
  by (auto simp: encodeCp_def scalar_def split: if_splits)

lemma utf8_byte: "wellFormed s \<Longrightarrow> b \<in> set (utf8 s) \<Longrightarrow> b < 256"
  by (auto simp: wellFormed_def utf8_def codePoints_toUnits encodeCps_def) (metis encodeCp_byte)

lemma formEncode_units: "wellFormed s \<Longrightarrow> c \<in> set (formEncode s) \<Longrightarrow> formUnit c"
  using formByte_units utf8_byte by (fastforce simp: formEncode_def)

lemma percentDecode_formByte:
  "b < 256 \<Longrightarrow> percentDecode (map (\<lambda>c. if c = 43 then 32 else c) (formByte b) @ r) = b # percentDecode r"
  using byte_quarters(1) [of b] hexDigit_unit [of "b div 16"] hexDigit_unit [of "b mod 16"]
  by (auto simp: formByte_def formUnreserved_def char_class_defs)

lemma percentDecode_formEncode:
  "\<forall>b \<in> set bs. b < 256 \<Longrightarrow>
     percentDecode (map (\<lambda>c. if c = 43 then 32 else c) (concat (map formByte bs))) = bs"
  by (induction bs) (simp_all add: percentDecode_formByte)

lemma formDecode_formEncode: "wellFormed s \<Longrightarrow> formDecode (formEncode s) = s"
proof -
  assume s: "wellFormed s"
  then obtain cs where cs: "s = toUnits cs" "\<forall>c \<in> set cs. scalar c"
    unfolding wellFormed_def by blast
  have "percentDecode (map (\<lambda>c. if c = 43 then 32 else c) (formEncode s)) = encodeCps cs"
    using percentDecode_formEncode [of "utf8 s"] utf8_byte [OF s]
    by (simp add: formEncode_def) (simp add: utf8_def cs codePoints_toUnits)
  then show ?thesis
    using lossyCps_valid [OF decodeCps_encodeCps [OF cs(2)]] cs(1)
    by (simp add: formDecode_def lossyText_def)
qed

lemma utf8_of_ascii: "\<forall>c \<in> set s. c < 128 \<Longrightarrow> utf8 s = s"
proof -
  assume a: "\<forall>c \<in> set s. c < 128"
  have "codePoints s = s"
    using a by (induction s rule: codePoints.induct) (auto simp: loneUnit_def isHighSurrogate_def isLowSurrogate_def)
  moreover have "concat (map encodeCp s) = s"
    using a by (induction s) (auto simp: encodeCp_def)
  ultimately show ?thesis by (simp add: utf8_def encodeCps_def)
qed

lemma formPair_serialized:
  assumes "wellFormed k" "wellFormed v"
  shows "formPair (formEncode k @ 61 # formEncode v) = (k, v)"
proof -
  have "61 \<notin> set (formEncode k)" using formEncode_units [OF assms(1)] formUnit_plain by blast
  then have "takeWhile (\<lambda>c. c \<noteq> 61) (formEncode k @ 61 # formEncode v) = formEncode k"
    "dropWhile (\<lambda>c. c \<noteq> 61) (formEncode k @ 61 # formEncode v) = 61 # formEncode v"
    by (auto simp: takeWhile_append dropWhile_append3)
  then show ?thesis using assms by (simp add: formPair_def formDecode_formEncode)
qed

lemma serializeForm_units: 
  assumes "\<forall>(k, v) \<in> set ps. wellFormed k \<and> wellFormed v" "c \<in> set (serializeForm ps)"
  shows "formUnit c \<or> c = 38 \<or> c = 61"
  using assms set_join [of "[38]" "map (\<lambda>(k, v). formEncode k @ 61 # formEncode v) ps"] formEncode_units
  by (fastforce simp: serializeForm_def)

text \<open>Pairs of well-formed strings are read back as they were written.\<close>

lemma parseForm_serializeForm:
  assumes "\<forall>(k, v) \<in> set ps. wellFormed k \<and> wellFormed v"
  shows "parseForm (serializeForm ps) = ps"
proof (cases "ps = []")
  case True
  then show ?thesis by (simp add: parseForm_def serializeForm_def utf8_of_ascii)
next
  case False
  let ?ts = "map (\<lambda>(k, v). formEncode k @ 61 # formEncode v) ps"
  have units: "c < 128 \<and> c \<noteq> 63" if "c \<in> set (serializeForm ps)" for c
    using serializeForm_units [OF assms that] formUnit_plain by auto
  have "\<not> startsWith (serializeForm ps) [63]"
    using units by (cases "serializeForm ps") auto
  moreover have "utf8 (serializeForm ps) = serializeForm ps" using units by (intro utf8_of_ascii) auto
  moreover have no: "38 \<notin> set t \<and> t \<noteq> []" if "t \<in> set ?ts" for t
    using that assms formEncode_units formUnit_plain by fastforce
  then have "split_on 38 (serializeForm ps) = ?ts"
    using split_on_join [of ?ts 38] False by (auto simp: serializeForm_def)
  moreover have "filter (\<lambda>p. p \<noteq> []) ?ts = ?ts" using no by (auto simp: filter_id_conv)
  ultimately have "parseForm (serializeForm ps) = map formPair ?ts" by (simp add: parseForm_def)
  also have "\<dots> = map (\<lambda>p. p) ps"
    unfolding map_map comp_def using assms by (intro map_cong) (auto simp: formPair_serialized)
  finally show ?thesis by simp
qed

end
