(* ===== verification/Escaping.thy ===== *)
theory Escaping
  imports Prelude
begin

text \<open>
  Rendering of untrusted text in generated TypeScript (\<open>packages/reproducer/src/escaping.ts\<close>).
  The reference is a reader of single-quoted literals written after the ECMAScript grammar: a
  literal made by the code reads back as the cleaned text, whatever follows it, and
  \<open>blankLiterals\<close> is the text of a program with its literals emptied and its line comments cut.
\<close>

subsection \<open>escaping.ts\<close>

definition CONTROL_RE :: "nat \<Rightarrow> bool" where
  "CONTROL_RE c \<longleftrightarrow> c \<le> 8 \<or> c = 11 \<or> c = 12 \<or> (14 \<le> c \<and> c \<le> 31) \<or> c = 127"

definition UNICODE_SEPARATOR_RE :: "nat \<Rightarrow> bool" where
  "UNICODE_SEPARATOR_RE c \<longleftrightarrow> c = 8232 \<or> c = 8233"

definition stripControlChars :: "jstr \<Rightarrow> jstr" where
  "stripControlChars v = filter (\<lambda>c. \<not> UNICODE_SEPARATOR_RE c) (filter (\<lambda>c. \<not> CONTROL_RE c) v)"

text \<open>\<open>s.split(search)\<close> for a non-empty separator.\<close>

function splitStr :: "jstr \<Rightarrow> jstr \<Rightarrow> jstr list" where
  "splitStr sep s =
     (if sep = [] \<or> s = [] then [s]
      else if startsWith s sep then [] # splitStr sep (drop (length sep) s)
      else (case splitStr sep (tl s) of [] \<Rightarrow> [s] | p # ps \<Rightarrow> (hd s # p) # ps))"
  by pat_completeness auto
termination
  by (relation "measure (\<lambda>(sep, s). length s)") (auto simp: neq_Nil_conv)

declare splitStr.simps [simp del]

definition replaceAllLiteral :: "jstr \<Rightarrow> jstr \<Rightarrow> jstr \<Rightarrow> jstr" where
  "replaceAllLiteral v search replacement =
     (if search = [] then v else join replacement (splitStr search v))"

text \<open>\<open>s.replace(/c/g, r)\<close> for one code unit \<open>c\<close>.\<close>

definition replaceUnit :: "nat \<Rightarrow> jstr \<Rightarrow> jstr \<Rightarrow> jstr" where
  "replaceUnit c r s = concat (map (\<lambda>x. if x = c then r else [x]) s)"

definition tsSingleQuoteLiteral :: "jstr \<Rightarrow> jstr" where
  "tsSingleQuoteLiteral v =
     (let cleaned = stripControlChars v;
          escaped = replaceUnit 13 [92, 114] (replaceUnit 10 [92, 110]
                      (replaceUnit 39 [92, 39] (replaceUnit 92 [92, 92] cleaned)))
      in 39 # escaped @ [39])"

text \<open>\<open>replace(/(\r\n|\r|\n)/g, " ")\<close>\<close>

fun newlinesToSpace :: "jstr \<Rightarrow> jstr" where
  "newlinesToSpace [] = []"
| "newlinesToSpace (x # s) =
     (if x = 13 then 32 # (case s of y # t \<Rightarrow> if y = 10 then newlinesToSpace t else newlinesToSpace s | [] \<Rightarrow> [])
      else if x = 10 then 32 # newlinesToSpace s
      else x # newlinesToSpace s)"

definition safeCommentFragment :: "jstr \<Rightarrow> nat \<Rightarrow> jstr" where
  "safeCommentFragment v maxLength =
     (let collapsed = newlinesToSpace (stripControlChars v);
          defended = replaceAllLiteral
                       (replaceAllLiteral (replaceAllLiteral collapsed (js ''*/'') (js ''* /''))
                          (js ''<!--'') (js ''< !--''))
                       (js ''-->'') (js ''-- >'');
          cleaned = trim (collapseWs defended)
      in if length cleaned \<le> maxLength then cleaned else take (maxLength - 1) cleaned @ [8230])"

definition boundString :: "jstr \<Rightarrow> nat \<Rightarrow> jstr" where
  "boundString v maxLength = (if length v \<le> maxLength then v else take maxLength v)"

subsection \<open>Units of the results\<close>

definition lineTerminator :: "nat \<Rightarrow> bool" where
  "lineTerminator c \<longleftrightarrow> c = 10 \<or> c = 13 \<or> c = 8232 \<or> c = 8233"

text \<open>No unit ends a line.\<close>

definition oneLine :: "jstr \<Rightarrow> bool" where "oneLine s = list_all (\<lambda>c. \<not> lineTerminator c) s"

lemma oneLine_simps [simp]:
  "oneLine []" "oneLine (c # s) \<longleftrightarrow> \<not> lineTerminator c \<and> oneLine s"
  "oneLine (s @ t) \<longleftrightarrow> oneLine s \<and> oneLine t"
  by (simp_all add: oneLine_def)

lemma oneLine_iff: "oneLine s \<longleftrightarrow> (\<forall>c \<in> set s. \<not> lineTerminator c)"
  by (simp add: oneLine_def list_all_iff)

lemma oneLine_subset: "set s \<subseteq> set t \<Longrightarrow> oneLine t \<Longrightarrow> oneLine s"
  by (auto simp: oneLine_iff)

lemma stripControlChars_simps [simp]:
  "stripControlChars [] = []"
  "stripControlChars (c # s) =
     (if CONTROL_RE c \<or> UNICODE_SEPARATOR_RE c then stripControlChars s else c # stripControlChars s)"
  by (simp_all add: stripControlChars_def)

lemma set_stripControlChars:
  "set (stripControlChars s) = {c \<in> set s. \<not> CONTROL_RE c \<and> \<not> UNICODE_SEPARATOR_RE c}"
  by (auto simp: stripControlChars_def)

lemma stripControlChars_idem [simp]: "stripControlChars (stripControlChars s) = stripControlChars s"
  by (induction s) auto

lemma set_newlinesToSpace: "set (newlinesToSpace s) \<subseteq> insert 32 (set s - {10, 13})"
proof (induction s rule: newlinesToSpace.induct)
  case (2 x s)
  show ?case
  proof (cases "x = 13")
    case True
    with 2(1,2) show ?thesis by (cases s) auto
  next
    case False
    with 2(3,4) show ?thesis by (cases "x = 10") auto
  qed
qed simp

lemma set_splitStr: "p \<in> set (splitStr sep s) \<Longrightarrow> set p \<subseteq> set s"
proof (induction sep s arbitrary: p rule: splitStr.induct)
  case (1 sep s)
  show ?case
  proof (cases "sep = [] \<or> s = []")
    case True
    with 1(3) show ?thesis by (subst (asm) splitStr.simps) auto
  next
    case ne: False
    show ?thesis
    proof (cases "startsWith s sep")
      case True
      then have "p = [] \<or> set p \<subseteq> set (drop (length sep) s)"
        using 1(1) [OF ne True] 1(3) ne by (subst (asm) (2) splitStr.simps) auto
      then show ?thesis using set_drop_subset by fastforce
    next
      case False
      have "set q \<subseteq> set s" if "q \<in> set (splitStr sep (tl s))" for q
        using 1(2) [OF ne False that] ne by (cases s) auto
      moreover have "hd s \<in> set s" using ne by simp
      moreover have "p \<in> set (case splitStr sep (tl s) of [] \<Rightarrow> [s] | q # ps \<Rightarrow> (hd s # q) # ps)"
        using 1(3) ne False by (subst (asm) splitStr.simps) (simp only: if_False)
      ultimately show ?thesis
        by (cases "splitStr sep (tl s)") (auto, metis subsetD)
    qed
  qed
qed

lemma set_replaceAllLiteral: "set (replaceAllLiteral v search r) \<subseteq> set v \<union> set r"
  using set_join [of r "splitStr search v"] set_splitStr [of _ search v]
  by (auto simp: replaceAllLiteral_def)

text \<open>
  A fragment stands on one line and keeps its bound, whatever the telemetry says: a comment
  \<open>// fragment\<close> ends where the code ends it.
\<close>

lemma safeCommentFragment_units:
  assumes "c \<in> set (safeCommentFragment v n)"
  shows "\<not> lineTerminator c"
proof -
  define collapsed where "collapsed = newlinesToSpace (stripControlChars v)"
  define defended where "defended = replaceAllLiteral
    (replaceAllLiteral (replaceAllLiteral collapsed (js ''*/'') (js ''* /'')) (js ''<!--'') (js ''< !--''))
    (js ''-->'') (js ''-- >'')"
  have col: "\<not> lineTerminator x" if "x \<in> set collapsed" for x
    using that set_newlinesToSpace [of "stripControlChars v"]
    by (auto simp: collapsed_def set_stripControlChars lineTerminator_def UNICODE_SEPARATOR_RE_def)
  have rep: "\<not> lineTerminator x" if "x \<in> set (js ''* /'' @ js ''< !--'' @ js ''-- >'')" for x
    using that by (auto simp: js_eval lineTerminator_def)
  have "x \<in> set collapsed \<or> x \<in> set (js ''* /'' @ js ''< !--'' @ js ''-- >'')" if "x \<in> set defended" for x
    using that set_replaceAllLiteral unfolding defended_def set_append by blast
  then have def_: "\<not> lineTerminator x" if "x \<in> set defended" for x
    using that col rep by blast
  have "x \<in> set defended \<or> x = 32" if "x \<in> set (trim (collapseWs defended))" for x
    using that set_trim [of "collapseWs defended"] set_collapseWs by blast
  moreover have "\<not> lineTerminator 32" by (simp add: lineTerminator_def)
  ultimately have tr: "\<not> lineTerminator x" if "x \<in> set (trim (collapseWs defended))" for x
    using that def_ by metis
  from assms have "c \<in> set (trim (collapseWs defended)) \<or> c = 8230"
    by (auto simp: safeCommentFragment_def Let_def defended_def collapsed_def
        split: if_splits dest: in_set_takeD)
  with tr show ?thesis by (auto simp: lineTerminator_def)
qed

lemma oneLine_safeCommentFragment [simp]: "oneLine (safeCommentFragment v n)"
  using safeCommentFragment_units by (simp add: oneLine_iff)

subsection \<open>Reading a program back\<close>

text \<open>
  The characters of a single-quoted literal after its opening quote: the value and the text behind
  the closing quote. The escapes \<open>\\x\<close>, \<open>\\u\<close>, of digits and of line ends are not read; the
  code writes none of them.
\<close>

definition escapeValue :: "nat \<Rightarrow> nat option" where
  "escapeValue e =
     (if e = 110 then Some 10 else if e = 114 then Some 13 else if e = 116 then Some 9
      else if e = 98 then Some 8 else if e = 102 then Some 12 else if e = 118 then Some 11
      else if e = 120 \<or> e = 117 \<or> isDigit e \<or> lineTerminator e then None else Some e)"

fun literalBody :: "jstr \<Rightarrow> (jstr \<times> jstr) option" where
  "literalBody [] = None"
| "literalBody (c # s) =
     (if c = 39 then Some ([], s)
      else if c = 92 then
        (case s of [] \<Rightarrow> None
         | e # r \<Rightarrow> (case escapeValue e of None \<Rightarrow> None
             | Some u \<Rightarrow> map_option (\<lambda>(v, t). (u # v, t)) (literalBody r)))
      else if c = 10 \<or> c = 13 then None
      else map_option (\<lambda>(v, t). (c # v, t)) (literalBody s))"

lemma literalBody_shorter: "literalBody s = Some (v, t) \<Longrightarrow> length t < length s"
proof (induction s arbitrary: v t rule: literalBody.induct)
  case (2 c s)
  then show ?case
    by (fastforce split: if_splits list.splits option.splits)
qed simp

function blankLiterals :: "jstr \<Rightarrow> jstr option" where
  "blankLiterals [] = Some []"
| "blankLiterals (c # s) =
     (if c = 39 then
        (case literalBody s of None \<Rightarrow> None | Some (v, t) \<Rightarrow> map_option (\<lambda>r. 39 # 39 # r) (blankLiterals t))
      else if c = 47 \<and> startsWith s [47] then blankLiterals (dropWhile (\<lambda>x. \<not> lineTerminator x) s)
      else map_option ((#) c) (blankLiterals s))"
  by pat_completeness auto
termination
  by (relation "measure length") (auto dest: literalBody_shorter simp: le_imp_less_Suc length_dropWhile_le)

declare blankLiterals.simps [simp del]

definition escapeUnit :: "nat \<Rightarrow> jstr" where
  "escapeUnit c = (if c = 92 then [92, 92] else if c = 39 then [92, 39] else if c = 10 then [92, 110]
     else if c = 13 then [92, 114] else [c])"

lemma tsSingleQuoteLiteral_alt:
  "tsSingleQuoteLiteral v = 39 # concat (map escapeUnit (stripControlChars v)) @ [39]"
proof -
  have "replaceUnit 13 [92, 114] (replaceUnit 10 [92, 110] (replaceUnit 39 [92, 39] (replaceUnit 92 [92, 92] s)))
    = concat (map escapeUnit s)" for s
    by (induction s) (auto simp: replaceUnit_def escapeUnit_def)
  then show ?thesis by (simp add: tsSingleQuoteLiteral_def)
qed

lemma literalBody_escaped:
  "literalBody (concat (map escapeUnit s) @ 39 # t) = Some (s, t)"
  by (induction s) (auto simp: escapeUnit_def escapeValue_def isDigit_def lineTerminator_def)

text \<open>A literal stands for the cleaned text, and the reader goes on exactly behind it.\<close>

lemma literal_reads_back:
  "tsSingleQuoteLiteral v @ t = 39 # s \<Longrightarrow> literalBody s = Some (stripControlChars v, t)"
  by (simp add: tsSingleQuoteLiteral_alt) (metis literalBody_escaped)

lemma oneLine_escapeUnits:
  "\<forall>c \<in> set s. \<not> UNICODE_SEPARATOR_RE c \<Longrightarrow> oneLine (concat (map escapeUnit s))"
  by (induction s) (auto simp: escapeUnit_def lineTerminator_def UNICODE_SEPARATOR_RE_def)

lemma oneLine_literal [simp]: "oneLine (tsSingleQuoteLiteral v)"
  using oneLine_escapeUnits [of "stripControlChars v"]
  by (simp add: tsSingleQuoteLiteral_alt set_stripControlChars lineTerminator_def)

lemma blank_literal [simp]:
  "blankLiterals (tsSingleQuoteLiteral v @ t) = map_option (\<lambda>r. 39 # 39 # r) (blankLiterals t)"
  by (simp add: tsSingleQuoteLiteral_alt blankLiterals.simps literalBody_escaped)

text \<open>Fixed text without quotes and without two slashes in a row is kept.\<close>

fun plain :: "jstr \<Rightarrow> bool" where
  "plain [] = True"
| "plain (c # s) = (c \<noteq> 39 \<and> (c = 47 \<longrightarrow> s \<noteq> [] \<and> hd s \<noteq> 47) \<and> plain s)"

lemma blank_plain: "plain k \<Longrightarrow> blankLiterals (k @ t) = map_option ((@) k) (blankLiterals t)"
proof (induction k)
  case (Cons c k)
  then have "\<not> (c = 47 \<and> startsWith (k @ t) [47])"
    by (cases k) auto
  with Cons show ?case
    by (cases "blankLiterals t") (auto simp: blankLiterals.simps(2))
qed (cases "blankLiterals t"; simp add: blankLiterals.simps)

lemma blank_newline: "blankLiterals (10 # t) = map_option ((#) 10) (blankLiterals t)"
  by (simp add: blankLiterals.simps)

text \<open>A line comment ends at the end of its line, whatever stands in it.\<close>

lemma blank_comment:
  assumes "oneLine s"
  shows "blankLiterals (47 # 47 # s @ 10 # t) = blankLiterals (10 # t)"
proof -
  have "dropWhile (\<lambda>x. \<not> lineTerminator x) (47 # s @ 10 # t) = 10 # t"
    using assms by (auto simp: oneLine_iff lineTerminator_def)
  then show ?thesis by (subst blankLiterals.simps) simp
qed

lemma length_safeCommentFragment: "0 < n \<Longrightarrow> length (safeCommentFragment v n) \<le> n"
  by (simp add: safeCommentFragment_def Let_def)

end
