(* ===== verification/Routes.thy ===== *)
theory Routes
  imports FormUrl Escaping Keys
begin

text \<open>
  Base URLs and routes of generated tests (\<open>packages/reproducer/src/base-url.ts\<close>). The URL parser
  is the platform's; \<open>URLSearchParams\<close> is the one of \<open>FormUrl\<close>.
\<close>

subsection \<open>Errors and constants\<close>

datatype ReproductionCode =
    REPRODUCTION_BASE_URL_REQUIRED
  | REPRODUCTION_UNSUPPORTED_FAILURE
  | REPRODUCTION_OUTPUT_TOO_LARGE
  | REPRODUCTION_INVALID_EVIDENCE

record ReproductionError =
  re_code :: ReproductionCode
  re_message :: jstr

definition reproductionError :: "ReproductionCode \<Rightarrow> string \<Rightarrow> ReproductionError" where
  "reproductionError code message = \<lparr>re_code = code, re_message = js message\<rparr>"

definition SENSITIVE_QUERY_PARAMS :: "jstr list" where
  "SENSITIVE_QUERY_PARAMS = map js [''token'', ''access_token'', ''refresh_token'', ''key'', ''api_key'',
     ''password'', ''secret'', ''auth'', ''code'', ''client_secret'', ''client_id'', ''authorization'',
     ''bearer'', ''jwt'', ''session_id'', ''sessionid'', ''sid'', ''csrf'', ''xsrf'', ''_token'']"

definition routeControl :: "nat \<Rightarrow> bool" where
  "routeControl c \<longleftrightarrow> c \<le> 31 \<or> c = 127 \<or> c = 8232 \<or> c = 8233"

definition hasCredentials :: "urlParts \<Rightarrow> bool" where
  "hasCredentials url \<longleftrightarrow> up_username url \<noteq> [] \<or> up_password url \<noteq> []"

text \<open>\<open>url.host\<close> is the host name with a port that is not the default one.\<close>

definition urlHost :: "urlParts \<Rightarrow> jstr" where
  "urlHost url = up_hostname url @ (if up_port url \<noteq> [] then 58 # up_port url else [])"

subsection \<open>Base URL\<close>

definition httpOrHttps :: "urlParts \<Rightarrow> bool" where
  "httpOrHttps url \<longleftrightarrow> up_protocol url = js ''http:'' \<or> up_protocol url = js ''https:''"

definition validateBaseUrl :: "(jstr \<Rightarrow> urlParts option) \<Rightarrow> jstr \<Rightarrow> ReproductionError + jstr" where
  "validateBaseUrl newURL raw =
     (let trimmed = trim (stripControlChars raw); err = reproductionError REPRODUCTION_BASE_URL_REQUIRED in
      if trimmed = [] \<or> list_ex routeControl raw
      then Inl (err ''Base URL is required and must not contain control characters.'')
      else case newURL trimmed of
        None \<Rightarrow> Inl (err ''Base URL is invalid.'')
      | Some url \<Rightarrow>
          if \<not> httpOrHttps url then Inl (err ''Base URL must use http or https.'')
          else if hasCredentials url then Inl (err ''Base URL must not contain credentials.'')
          else if up_hash url \<noteq> [] then Inl (err ''Base URL must not contain a fragment.'')
          else if 2000 < length trimmed then Inl (err ''Base URL is too long.'')
          else Inr (up_protocol url @ js ''//'' @ urlHost url))"

subsection \<open>Routes\<close>

definition sortedNames :: "(jstr \<times> jstr) list \<Rightarrow> jstr list" where
  "sortedNames params = sort (rev (remdups (rev (map fst params))))"

definition keepableValue :: "jstr \<Rightarrow> jstr \<Rightarrow> bool" where
  "keepableValue name v \<longleftrightarrow> \<not> (128 < length name \<or> 512 < length v)
     \<and> \<not> (list_ex routeControl name \<or> list_ex routeControl v)"

text \<open>The loop over the names: \<open>kept.length > 20\<close> ends it after a name.\<close>

fun keepParams :: "(jstr \<times> jstr) list \<Rightarrow> jstr list \<Rightarrow> (jstr \<times> jstr) list \<Rightarrow> (jstr \<times> jstr) list" where
  "keepParams params [] kept = kept"
| "keepParams params (name # names) kept =
     (if toLower name \<in> set SENSITIVE_QUERY_PARAMS then keepParams params names kept
      else let kept' = kept @ filter (\<lambda>p. fst p = name \<and> keepableValue name (snd p)) params in
        if 20 < length kept' then kept' else keepParams params names kept')"

definition sanitizeRelativeRoute :: "jstr \<Rightarrow> jstr option" where
  "sanitizeRelativeRoute relative =
     (if \<not> startsWith relative [47] then None
      else if 92 \<in> set relative \<or> list_ex routeControl relative then None
      else let path = takeWhile (\<lambda>c. c \<noteq> 63) relative in
        if 1024 < length path then None
        else if 63 \<notin> set relative then Some (if path = [] then [47] else path)
        else let query = tl (dropWhile (\<lambda>c. c \<noteq> 63) relative);
                 params = parseForm query;
                 kept = keepParams params (sortedNames params) []
             in if kept = [] then Some (if path = [] then [47] else path)
                else let full = path @ [63] @ serializeForm kept in
                  Some (if 2048 < length full then path else full))"

definition unsafeSchemes :: "jstr list" where
  "unsafeSchemes = map js [''javascript:'', ''data:'', ''file:'', ''ftp:'', ''vbscript:'']"

definition sanitizeRoute :: "(jstr \<Rightarrow> urlParts option) \<Rightarrow> jstr \<Rightarrow> jstr option" where
  "sanitizeRoute newURL rawUrl =
     (let trimmed = trim (stripControlChars rawUrl) in
      if trimmed = [] then None
      else if list_ex (startsWith (toLower trimmed)) unsafeSchemes then None
      else if list_ex routeControl trimmed then None
      else if startsWith trimmed [47] then sanitizeRelativeRoute trimmed
      else case newURL trimmed of
        None \<Rightarrow> None
      | Some url \<Rightarrow>
          if \<not> httpOrHttps url then None
          else if up_username url \<noteq> [] \<or> up_password url \<noteq> [] then None
          else sanitizeRelativeRoute (up_pathname url @ up_search url))"

definition withoutQuery :: "jstr \<Rightarrow> jstr" where "withoutQuery route = takeWhile (\<lambda>c. c \<noteq> 63) route"

definition normalizeNetworkPath :: "(jstr \<Rightarrow> urlParts option) \<Rightarrow> jstr \<Rightarrow> jstr option" where
  "normalizeNetworkPath newURL rawUrl =
     (case sanitizeRoute newURL rawUrl of None \<Rightarrow> None | Some route \<Rightarrow> Some (withoutQuery route))"

subsection \<open>What a route contains\<close>

lemma keepParams_mem:
  "p \<in> set (keepParams params names kept) \<Longrightarrow> p \<in> set kept
     \<or> p \<in> set params \<and> toLower (fst p) \<notin> set SENSITIVE_QUERY_PARAMS \<and> keepableValue (fst p) (snd p)"
  by (induction params names kept rule: keepParams.induct) (auto simp: Let_def split: if_splits)

text \<open>The parameters of a route, as a server reads them.\<close>

definition routeParams :: "jstr \<Rightarrow> (jstr \<times> jstr) list" where
  "routeParams route = (if 63 \<in> set route then parseForm (tl (dropWhile (\<lambda>c. c \<noteq> 63) route)) else [])"

definition safeRoute :: "jstr \<Rightarrow> bool" where
  "safeRoute route \<longleftrightarrow> startsWith route [47] \<and> length route \<le> 2048 \<and> 92 \<notin> set route
     \<and> \<not> list_ex routeControl route
     \<and> (\<forall>(k, v) \<in> set (routeParams route). toLower k \<notin> set SENSITIVE_QUERY_PARAMS \<and> keepableValue k v)"

lemma takeWhile_query:
  assumes "63 \<notin> set p"
  shows "takeWhile (\<lambda>c. c \<noteq> 63) (p @ 63 # q) = p" "dropWhile (\<lambda>c. c \<noteq> 63) (p @ 63 # q) = 63 # q"
  using assms by (induction p) auto

lemma sanitizeRelativeRoute_safe:
  assumes "sanitizeRelativeRoute relative = Some route"
  shows "safeRoute route \<and> withoutQuery route = withoutQuery relative
    \<and> set (routeParams route) \<subseteq> set (routeParams relative)"
proof -
  define path where "path = takeWhile (\<lambda>c. c \<noteq> 63) relative"
  define params where "params = parseForm (tl (dropWhile (\<lambda>c. c \<noteq> 63) relative))"
  define kept where "kept = keepParams params (sortedNames params) []"
  have r: "startsWith relative [47]" "92 \<notin> set relative" "\<not> list_ex routeControl relative" "length path \<le> 1024"
    using assms by (auto simp: sanitizeRelativeRoute_def Let_def path_def split: if_splits)
  have sub: "set path \<subseteq> set relative" by (auto simp: path_def dest: set_takeWhileD)
  have first: "startsWith path [47]" using r(1) by (cases relative) (auto simp: path_def)
  then have ne: "path \<noteq> []" by auto
  have no: "63 \<notin> set path" by (auto simp: path_def dest: set_takeWhileD)
  have clean: "92 \<notin> set path" "\<not> list_ex routeControl path"
    using sub r(2,3) by (auto simp: list_ex_iff)
  have pathOk: "safeRoute path" "withoutQuery path = path" "routeParams path = []"
    using first clean r(4) no by (auto simp: safeRoute_def routeParams_def withoutQuery_def takeWhile_eq_all_conv)
  consider (plainPath) "route = path"
    | (query) "63 \<in> set relative" "route = path @ 63 # serializeForm kept" "length route \<le> 2048"
    using assms ne by (auto simp: sanitizeRelativeRoute_def Let_def path_def params_def kept_def split: if_splits)
  then show ?thesis
  proof cases
    case plainPath
    with pathOk show ?thesis by (simp add: withoutQuery_def path_def)
  next
    case query
    have mem: "p \<in> set params \<and> toLower (fst p) \<notin> set SENSITIVE_QUERY_PARAMS \<and> keepableValue (fst p) (snd p)"
      if "p \<in> set kept" for p
      using keepParams_mem that unfolding kept_def by fastforce
    have wf: "\<forall>(k, v) \<in> set kept. wellFormed k \<and> wellFormed v"
      using mem parseForm_wellFormed unfolding params_def by fastforce
    have "routeParams route = kept"
      using parseForm_serializeForm [OF wf] takeWhile_query(2) [OF no] query(2)
      by (simp add: routeParams_def)
    moreover have "\<not> routeControl c \<and> c \<noteq> 92" if "c \<in> set (serializeForm kept)" for c
      using serializeForm_units [OF wf that] by (auto simp: formUnit_def formUnreserved_def routeControl_def char_class_defs)
    then have "92 \<notin> set route" "\<not> list_ex routeControl route"
      using clean query(2) by (auto simp: list_ex_iff routeControl_def)
    moreover have "startsWith route [47]" using first query(2) by (cases path) auto
    ultimately show ?thesis
      using query mem takeWhile_query(1) [OF no]
      by (auto simp: safeRoute_def withoutQuery_def path_def [symmetric] params_def [symmetric] routeParams_def [of relative])
  qed
qed


lemma sanitizeRoute_safe: "sanitizeRoute newURL raw = Some route \<Longrightarrow> safeRoute route"
  by (auto simp: sanitizeRoute_def Let_def split: if_splits option.splits dest: sanitizeRelativeRoute_safe)

lemma safeRoute_slash: "safeRoute [47]"
  by (simp add: safeRoute_def routeControl_def routeParams_def)

text \<open>
  A target that starts with two slashes names a host; the relative branch keeps it, against the
  comment that a relative route contains none.
\<close>

lemma protocol_relative_route_passes:
  "sanitizeRoute newURL (js ''//evil.example/x'') = Some (js ''//evil.example/x'')"
proof -
  have t: "trim (stripControlChars (js ''//evil.example/x'')) = js ''//evil.example/x''"
    by (simp add: js_eval trim_def trimStart_def trimEnd_def isWs_def CONTROL_RE_def UNICODE_SEPARATOR_RE_def)
  show ?thesis
    unfolding sanitizeRoute_def t
    by (simp add: js_eval unsafeSchemes_def toLower_def lowerUnit_def isUpper_def routeControl_def
        sanitizeRelativeRoute_def)
qed

end
