(* ===== verification/Locators.thy ===== *)
theory Locators
  imports Escaping Regex Paths Json "HOL-Library.Product_Lexorder"
begin

text \<open>
  The choice of a Playwright locator (\<open>packages/reproducer/src/locators.ts\<close>). A candidate type is
  any string; one that names a property of \<open>Object.prototype\<close> (its rank would not be a number) is
  treated like an unknown one. The lemmas say which candidate is chosen and that its expression
  has one of four forms around escaped literals.
\<close>

subsection \<open>Candidates\<close>

record LocatorCandidate =
  lc_type :: jstr
  lc_value :: jstr
  lc_confidence :: rat

record SelectedLocator =
  sl_expression :: jstr
  sl_strategy :: jstr
  sl_brittle :: bool

definition locatorControl :: "nat \<Rightarrow> bool" where
  "locatorControl c \<longleftrightarrow> c \<le> 31 \<or> c = 127 \<or> c = 8232 \<or> c = 8233"

abbreviation isHexAnyCase :: "nat \<Rightarrow> bool" where
  "isHexAnyCase c \<equiv> isDigit c \<or> 97 \<le> c \<and> c \<le> 102 \<or> 65 \<le> c \<and> c \<le> 70"

abbreviation InputStart :: re where "InputStart \<equiv> NotAfter (\<lambda>c. True)"

definition UUID_RE :: re where
  "UUID_RE = seqs [InputStart, Rep 8 (Chs isHexAnyCase), Lit [45], Rep 4 (Chs isHexAnyCase), Lit [45],
     Rep 4 (Chs isHexAnyCase), Lit [45], Rep 4 (Chs isHexAnyCase), Lit [45], Rep 12 (Chs isHexAnyCase), InputEnd]"

definition LONG_NUMERIC_RE :: re where
  "LONG_NUMERIC_RE = seqs [InputStart, AtLeast 10 Digit, InputEnd]"

definition RANDOM_TOKEN_RE :: re where
  "RANDOM_TOKEN_RE = seqs [InputStart, AtLeast 20 (Chs (\<lambda>c. isAlnum c)), InputEnd]"

definition GENERATED_CSS_RE :: re where
  "GENERATED_CSS_RE = (let alnum = Chs (\<lambda>c. isAlnum c) in
     alts (Sq (LitI (js ''css-'')) (AtLeast 4 alnum))
       [Sq (LitI (js ''sc-'')) (AtLeast 4 alnum), Sq (Lit [95]) (AtLeast 6 alnum)])"

definition candidateIsUnsafe :: "LocatorCandidate \<Rightarrow> bool" where
  "candidateIsUnsafe c =
     (let v = lc_value c in
      if length v = 0 \<or> 512 < length v then True
      else if list_ex locatorControl v then True
      else if includesStr (toLower v) (js ''password'') \<or> includesStr (toLower v) (js ''secret'')
        \<or> includesStr (toLower v) (js ''bearer '') \<or> includesStr v (js ''[REDACTED]'') then True
      else False)"

definition dropHash :: "jstr \<Rightarrow> jstr" where "dropHash v = (if startsWith v [35] then tl v else v)"

definition isBrittleValue :: "jstr \<Rightarrow> jstr \<Rightarrow> bool" where
  "isBrittleValue type v =
     (if includesStr v (js '':nth-child'') \<or> includesStr v (js '':nth-of-type'') then True
      else if 4 < length (split_on 62 v) then True
      else if test UUID_RE (dropHash v) then True
      else let idPart = dropHash v in
        if test LONG_NUMERIC_RE idPart then True
        else if test RANDOM_TOKEN_RE idPart \<and> 20 \<le> length idPart then True
        else if type = js ''css_fallback'' \<and> test GENERATED_CSS_RE v then True
        else if 160 < length v then True
        else False)"

definition nameAttrOpen :: jstr where "nameAttrOpen = js ''[name='' @ [34]"

definition ROLE_NAME_RE :: re where
  "ROLE_NAME_RE = seqs [Grp 1 (Sq (Chs (\<lambda>c. isLetter c)) (Star (Chs (\<lambda>c. isLetter c \<or> c = 45)))),
     Lit nameAttrOpen, Grp 2 (Star (Chs (\<lambda>c. True))), Lit [34, 93], InputEnd]"

definition parseRoleName :: "jstr \<Rightarrow> (jstr \<times> jstr) option" where
  "parseRoleName v =
     (case matchAt ROLE_NAME_RE [] v of
        None \<Rightarrow> None
      | Some (_, _, caps) \<Rightarrow>
          (let role = groupOf 1 caps;
               name = replaceAll (Lit [92, 92]) (\<lambda>_ _. [92]) (replaceAll (Lit [92, 34]) (\<lambda>_ _. [34]) (groupOf 2 caps))
           in if 64 < length role \<or> length name = 0 \<or> 128 < length name then None
              else if list_ex locatorControl role \<or> list_ex locatorControl name then None
              else Some (role, name)))"

subsection \<open>Expressions\<close>

definition call1 :: "jstr \<Rightarrow> jstr \<Rightarrow> jstr" where
  "call1 f v = f @ [40] @ tsSingleQuoteLiteral v @ [41]"

definition roleCall :: "jstr \<Rightarrow> jstr \<Rightarrow> jstr" where
  "roleCall role name = js ''page.getByRole('' @ tsSingleQuoteLiteral role @ js '', { name: ''
     @ tsSingleQuoteLiteral name @ js '' })''"

definition escapeAttr :: "jstr \<Rightarrow> jstr" where
  "escapeAttr name = replaceUnit 34 [92, 34] (replaceUnit 92 [92, 92] name)"

definition NAME_RE :: re where
  "NAME_RE = seqs [Opt (Grp 1 (Sq (Chs (\<lambda>c. isLetter c)) (Star (Chs (\<lambda>c. isAlnum c \<or> c = 45))))),
     LitI nameAttrOpen, Grp 2 (Star (Chs (\<lambda>c. True))), Lit [34, 93], InputEnd]"

definition quoteOrSpace :: "nat \<Rightarrow> bool" where
  "quoteOrSpace c \<longleftrightarrow> isWs c \<or> c = 62 \<or> c = 34 \<or> c = 39"

definition ANGLES_RE :: re where
  "ANGLES_RE = AtLeast 2 (anyOf [60, 62])"

definition buildExpression :: "LocatorCandidate \<Rightarrow> (jstr \<times> jstr) option" where
  "buildExpression c =
     (let clean = stripControlChars (lc_value c) in
      if clean = [] then None
      else if lc_type c = js ''test_id'' then Some (call1 (js ''page.getByTestId'') clean, js ''test_id'')
      else if lc_type c = js ''role_name'' then
        (case parseRoleName clean of None \<Rightarrow> None
         | Some (role, name) \<Rightarrow> Some (roleCall role name, js ''role_name''))
      else if lc_type c = js ''label'' then Some (call1 (js ''page.getByLabel'') clean, js ''label'')
      else if lc_type c = js ''id'' then
        (let id = (if startsWith clean [35] then drop 1 clean else clean) in
         if id = [] \<or> list_ex quoteOrSpace id then None
         else Some (call1 (js ''page.locator'') (35 # id), js ''id''))
      else if lc_type c = js ''name'' then
        (case matchAt NAME_RE [] clean of
           None \<Rightarrow> None
         | Some (_, _, caps) \<Rightarrow>
             (let tag = groupOf 1 caps;
                  name = replaceAll (Lit [92, 34]) (\<lambda>_ _. [34]) (groupOf 2 caps)
              in if list_ex locatorControl name then None
                 else let sel = (if tag \<noteq> [] then tag @ nameAttrOpen @ escapeAttr name @ [34, 93]
                                 else nameAttrOpen @ escapeAttr name @ [34, 93])
                      in Some (call1 (js ''page.locator'') sel, js ''name'')))
      else if lc_type c = js ''css_fallback'' then
        (if (includesStr clean [60] \<or> \<not> includesStr clean [62]) \<and> test ANGLES_RE clean then None
         else Some (call1 (js ''page.locator'') clean, js ''css_fallback''))
      else None)"

subsection \<open>Selection\<close>

definition locatorRank :: "jstr \<Rightarrow> nat" where
  "locatorRank type =
     (if type = js ''test_id'' then 0 else if type = js ''role_name'' then 1 else if type = js ''label'' then 2
      else if type = js ''id'' then 3 else if type = js ''name'' then 4 else if type = js ''css_fallback'' then 5
      else 9)"

definition locatorKey :: "LocatorCandidate \<Rightarrow> nat \<times> rat" where
  "locatorKey c = (locatorRank (lc_type c), - lc_confidence c)"

definition builtLocator :: "LocatorCandidate \<Rightarrow> bool \<Rightarrow> SelectedLocator option" where
  "builtLocator c brittle = map_option (\<lambda>(e, s). \<lparr>sl_expression = e, sl_strategy = s, sl_brittle = brittle\<rparr>) (buildExpression c)"

fun firstSteady :: "LocatorCandidate list \<Rightarrow> SelectedLocator option" where
  "firstSteady [] = None"
| "firstSteady (c # cs) =
     (case builtLocator c False of
        None \<Rightarrow> firstSteady cs
      | Some l \<Rightarrow> if isBrittleValue (lc_type c) (lc_value c) then firstSteady cs else Some l)"

fun firstBuilt :: "LocatorCandidate list \<Rightarrow> SelectedLocator option" where
  "firstBuilt [] = None"
| "firstBuilt (c # cs) = (case builtLocator c True of None \<Rightarrow> firstBuilt cs | Some l \<Rightarrow> Some l)"

definition selectLocator :: "LocatorCandidate list \<Rightarrow> SelectedLocator option" where
  "selectLocator candidates =
     (let usable = filter (\<lambda>c. \<not> candidateIsUnsafe c) candidates in
      if usable = [] then None
      else let sorted = sort_key locatorKey usable in
        case firstSteady sorted of Some l \<Rightarrow> Some l | None \<Rightarrow> firstBuilt sorted)"


subsection \<open>The form of an expression\<close>

definition callOf :: "jstr \<Rightarrow> jstr" where
  "callOf strategy =
     (if strategy = js ''test_id'' then js ''page.getByTestId''
      else if strategy = js ''label'' then js ''page.getByLabel'' else js ''page.locator'')"

definition locatorForm :: "jstr \<Rightarrow> jstr \<Rightarrow> bool" where
  "locatorForm strategy e \<longleftrightarrow>
     (if strategy = js ''role_name'' then \<exists>role name. e = roleCall role name
      else \<exists>v. e = call1 (callOf strategy) v)"

text \<open>The text of an expression with its literals emptied; it depends on the strategy only.\<close>

definition locatorShape :: "jstr \<Rightarrow> jstr" where
  "locatorShape strategy =
     (if strategy = js ''role_name'' then js ''page.getByRole('' @ [39, 39] @ js '', { name: '' @ [39, 39] @ js '' })''
      else callOf strategy @ [40, 39, 39, 41])"

lemma plain_callOf: "plain (callOf s @ [40])" "oneLine (callOf s)"
  by (simp_all add: callOf_def js_eval lineTerminator_def)

lemma blank_call1: "plain (f @ [40]) \<Longrightarrow>
  blankLiterals (call1 f v @ t) = map_option ((@) (f @ [40, 39, 39, 41])) (blankLiterals t)"
  using blank_plain [of "f @ [40]" "tsSingleQuoteLiteral v @ [41] @ t"] blank_plain [of "[41]" t]
  by (cases "blankLiterals t") (simp_all add: call1_def)

lemma blank_roleCall:
  "blankLiterals (roleCall role name @ t) = map_option ((@) (locatorShape (js ''role_name''))) (blankLiterals t)"
proof -
  have p: "plain (js ''page.getByRole('')" "plain (js '', { name: '')" "plain (js '' })'')"
    by (simp_all add: js_eval)
  show ?thesis
    using blank_plain [OF p(1)] blank_plain [OF p(2)] blank_plain [OF p(3)]
    by (cases "blankLiterals t") (simp_all add: roleCall_def locatorShape_def)
qed

lemma blank_locator:
  "locatorForm s e \<Longrightarrow> blankLiterals (e @ t) = map_option ((@) (locatorShape s)) (blankLiterals t)"
  using blank_roleCall blank_call1 [OF plain_callOf(1)]
  by (auto simp: locatorForm_def locatorShape_def split: if_splits)

lemma oneLine_locator: "locatorForm s e \<Longrightarrow> oneLine e"
  by (auto simp: locatorForm_def call1_def roleCall_def plain_callOf js_eval lineTerminator_def split: if_splits)

lemma buildExpression_form: "buildExpression c = Some (e, s) \<Longrightarrow> locatorForm s e"
  unfolding buildExpression_def Let_def locatorForm_def
  by (auto simp: callOf_def js_eval split: if_splits option.splits prod.splits)

lemma builtLocator_form: "builtLocator c b = Some l \<Longrightarrow> locatorForm (sl_strategy l) (sl_expression l)"
  by (auto simp: builtLocator_def dest: buildExpression_form)

lemma firstSteady_Some:
  "firstSteady cs = Some l \<Longrightarrow> \<exists>c \<in> set cs. builtLocator c False = Some l \<and> \<not> isBrittleValue (lc_type c) (lc_value c)"
  by (induction cs) (auto split: option.splits if_splits)

lemma firstBuilt_Some: "firstBuilt cs = Some l \<Longrightarrow> \<exists>c \<in> set cs. builtLocator c True = Some l"
  by (induction cs) (auto split: option.splits)

lemma selectLocator_form: "selectLocator cs = Some l \<Longrightarrow> locatorForm (sl_strategy l) (sl_expression l)"
  by (auto simp: selectLocator_def Let_def split: if_splits option.splits
      dest!: firstSteady_Some firstBuilt_Some dest: builtLocator_form)

subsection \<open>The candidate chosen\<close>

definition usableLocator :: "LocatorCandidate list \<Rightarrow> LocatorCandidate \<Rightarrow> bool" where
  "usableLocator cs c \<longleftrightarrow> c \<in> set cs \<and> \<not> candidateIsUnsafe c \<and> buildExpression c \<noteq> None"

definition steadyLocator :: "LocatorCandidate list \<Rightarrow> LocatorCandidate \<Rightarrow> bool" where
  "steadyLocator cs c \<longleftrightarrow> usableLocator cs c \<and> \<not> isBrittleValue (lc_type c) (lc_value c)"

lemma builtLocator_None [simp]: "builtLocator c b = None \<longleftrightarrow> buildExpression c = None"
  by (simp add: builtLocator_def)

lemma firstSteady_best:
  "sorted (map locatorKey cs) \<Longrightarrow> firstSteady cs = Some l \<Longrightarrow>
     \<exists>c \<in> set cs. builtLocator c False = Some l \<and> \<not> isBrittleValue (lc_type c) (lc_value c)
       \<and> (\<forall>d \<in> set cs. buildExpression d \<noteq> None \<and> \<not> isBrittleValue (lc_type d) (lc_value d)
            \<longrightarrow> locatorKey c \<le> locatorKey d)"
proof (induction cs)
  case (Cons c cs)
  show ?case
  proof (cases "buildExpression c = None \<or> isBrittleValue (lc_type c) (lc_value c)")
    case True
    then have "firstSteady cs = Some l"
      using Cons.prems(2) by (auto simp: builtLocator_def split: option.splits if_splits)
    with Cons True show ?thesis by auto
  next
    case False
    then have "builtLocator c False = Some l" using Cons.prems(2) by (auto split: option.splits if_splits)
    with False Cons.prems(1) show ?thesis by auto
  qed
qed simp

lemma firstBuilt_best:
  "sorted (map locatorKey cs) \<Longrightarrow> firstBuilt cs = Some l \<Longrightarrow>
     \<exists>c \<in> set cs. builtLocator c True = Some l
       \<and> (\<forall>d \<in> set cs. buildExpression d \<noteq> None \<longrightarrow> locatorKey c \<le> locatorKey d)"
proof (induction cs)
  case (Cons c cs)
  then show ?case by (cases "buildExpression c") (auto split: option.splits)
qed simp

lemma firstSteady_None: "firstSteady cs = None \<longleftrightarrow>
  (\<forall>c \<in> set cs. buildExpression c = None \<or> isBrittleValue (lc_type c) (lc_value c))"
  by (induction cs) (auto simp: builtLocator_def split: option.splits)

lemma firstBuilt_None: "firstBuilt cs = None \<longleftrightarrow> (\<forall>c \<in> set cs. buildExpression c = None)"
  by (induction cs) (auto simp: builtLocator_def split: option.splits)

lemma selectLocator_None: "selectLocator cs = None \<longleftrightarrow> (\<forall>c. \<not> usableLocator cs c)"
proof -
  let ?u = "sort_key locatorKey (filter (\<lambda>c. \<not> candidateIsUnsafe c) cs)"
  have "selectLocator cs = (case firstSteady ?u of Some l \<Rightarrow> Some l | None \<Rightarrow> firstBuilt ?u)"
    by (simp add: selectLocator_def Let_def)
  moreover have "firstBuilt ?u = None \<Longrightarrow> firstSteady ?u = None"
    by (simp add: firstBuilt_None firstSteady_None)
  ultimately have "selectLocator cs = None \<longleftrightarrow> firstBuilt ?u = None"
    by (auto split: option.splits)
  then show ?thesis by (auto simp: firstBuilt_None usableLocator_def)
qed

text \<open>
  The choice is the strongest candidate: by priority of its type, then by confidence, among the
  steady ones, and among all usable ones only when none is steady.
\<close>

lemma selectLocator_best:
  assumes "selectLocator cs = Some l"
  shows "\<exists>c. usableLocator cs c \<and> builtLocator c (sl_brittle l) = Some l
    \<and> (sl_brittle l \<longleftrightarrow> (\<forall>d. \<not> steadyLocator cs d))
    \<and> (\<forall>d. (if sl_brittle l then usableLocator cs d else steadyLocator cs d) \<longrightarrow> locatorKey c \<le> locatorKey d)"
proof -
  let ?u = "sort_key locatorKey (filter (\<lambda>c. \<not> candidateIsUnsafe c) cs)"
  have b: "sl_brittle l = b" if "builtLocator c b = Some l" for c b
    using that by (auto simp: builtLocator_def)
  consider (steady) "firstSteady ?u = Some l" | (brittle) "firstSteady ?u = None" "firstBuilt ?u = Some l"
    using assms by (auto simp: selectLocator_def Let_def split: if_splits option.splits)
  then show ?thesis
  proof cases
    case steady
    obtain c where c: "c \<in> set ?u" "builtLocator c False = Some l" "\<not> isBrittleValue (lc_type c) (lc_value c)"
      "\<forall>d \<in> set ?u. buildExpression d \<noteq> None \<and> \<not> isBrittleValue (lc_type d) (lc_value d)
            \<longrightarrow> locatorKey c \<le> locatorKey d"
      using firstSteady_best [OF _ steady] by auto
    then have "steadyLocator cs c"
      by (auto simp: steadyLocator_def usableLocator_def builtLocator_def)
    with c b [OF c(2)] show ?thesis
      by (intro exI [of _ c]) (auto simp: steadyLocator_def usableLocator_def)
  next
    case brittle
    obtain c where c: "c \<in> set ?u" "builtLocator c True = Some l"
      "\<forall>d \<in> set ?u. buildExpression d \<noteq> None \<longrightarrow> locatorKey c \<le> locatorKey d"
      using firstBuilt_best [OF _ brittle(2)] by auto
    with brittle(1) b [OF c(2)] show ?thesis
      by (intro exI [of _ c]) (auto simp: firstSteady_None steadyLocator_def usableLocator_def builtLocator_def)
  qed
qed

end
