(* ===== verification/SecretScan.thy ===== *)
theory SecretScan
  imports Regex Paths
begin

text \<open>
  The gate for values about to be written into generated code
  (\<open>packages/reproducer/src/sensitive.ts\<close>). Both linear scanners work on indexes as the source
  does, skip ahead after a failed candidate, and are proved equivalent to the search for a match
  at any position.
\<close>

subsection \<open>The scanner for secret tokens\<close>

definition toLowerAscii :: "nat \<Rightarrow> nat" where
  "toLowerAscii code = (if 65 \<le> code \<and> code \<le> 90 then code + 32 else code)"

definition isAsciiLetter :: "nat \<Rightarrow> bool" where
  "isAsciiLetter code = (let lower = toLowerAscii code in 97 \<le> lower \<and> lower \<le> 122)"

definition isAsciiDigit :: "nat \<Rightarrow> bool" where
  "isAsciiDigit code \<longleftrightarrow> 48 \<le> code \<and> code \<le> 57"

definition isSecretSuffixChar :: "nat \<Rightarrow> bool" where
  "isSecretSuffixChar code \<longleftrightarrow> code = 45 \<or> code = 95 \<or> isAsciiLetter code \<or> isAsciiDigit code"

definition isSecretTokenChar :: "nat \<Rightarrow> bool" where
  "isSecretTokenChar code \<longleftrightarrow> isAsciiLetter code \<or> isAsciiDigit code \<or> code = 46 \<or> code = 95 \<or> code = 126
     \<or> code = 43 \<or> code = 47 \<or> code = 45"

definition isSecretSeparator :: "nat \<Rightarrow> bool" where
  "isSecretSeparator code \<longleftrightarrow> code = 58 \<or> code = 61"

definition isSecretWhitespace :: "nat \<Rightarrow> bool" where
  "isSecretWhitespace code \<longleftrightarrow>
     (code \<in> {9, 10, 11, 12, 13, 32, 160, 5760, 8232, 8233, 8239, 8287, 12288, 65279}
      \<or> (8192 \<le> code \<and> code \<le> 8202))"

definition MAX_SECRET_PREFIX_LEN :: nat where "MAX_SECRET_PREFIX_LEN = 7"
definition MIN_SECRET_MATCH_LEN :: nat where "MIN_SECRET_MATCH_LEN = 19"
definition SECRET_TOKEN_MIN_LEN :: nat where "SECRET_TOKEN_MIN_LEN = 16"

text \<open>\<open>toLowerAscii(value.charCodeAt(i)) === c\<close>; outside of the text the code unit is \<open>NaN\<close>.\<close>

definition lowerAt :: "jstr \<Rightarrow> nat \<Rightarrow> nat \<Rightarrow> bool" where
  "lowerAt v i c \<longleftrightarrow> i < length v \<and> toLowerAscii (v ! i) = c"

definition matchSecretPrefixLen :: "jstr \<Rightarrow> nat \<Rightarrow> nat \<Rightarrow> nat" where
  "matchSecretPrefixLen v start end' =
     (if lowerAt v start 115 then
        (if start + 1 < end' then
           (if lowerAt v (start + 1) 107 then 2
            else if lowerAt v (start + 1) 101 \<and> start + 5 < end' \<and> lowerAt v (start + 2) 99
              \<and> lowerAt v (start + 3) 114 \<and> lowerAt v (start + 4) 101 \<and> lowerAt v (start + 5) 116 then 6
            else 0)
         else 0)
      else if lowerAt v start 112 then
        (if start + 1 < end' \<and> lowerAt v (start + 1) 107 then 2 else 0)
      else if lowerAt v start 114 then
        (if start + 1 < end' \<and> lowerAt v (start + 1) 107 then 2 else 0)
      else if lowerAt v start 116 then
        (if start + 4 < end' \<and> lowerAt v (start + 1) 111 \<and> lowerAt v (start + 2) 107
           \<and> lowerAt v (start + 3) 101 \<and> lowerAt v (start + 4) 110 then 5 else 0)
      else if lowerAt v start 97 then
        (if start + 2 < end' \<and> lowerAt v (start + 1) 112 \<and> lowerAt v (start + 2) 105 then
           (if start + 5 < end' \<and> lowerAt v (start + 3) 107 \<and> lowerAt v (start + 4) 101
              \<and> lowerAt v (start + 5) 121 then 6
            else if start + 3 < length v \<and> (v ! (start + 3) = 95 \<or> v ! (start + 3) = 45) \<and> start + 6 < end'
              \<and> lowerAt v (start + 4) 107 \<and> lowerAt v (start + 5) 101 \<and> lowerAt v (start + 6) 121 then 7
            else 0)
         else 0)
      else 0)"

text \<open>\<open>while (j < n && p(value.charCodeAt(j))) j += 1\<close>, and the bounded run of token characters.\<close>

function runEnd :: "(nat \<Rightarrow> bool) \<Rightarrow> jstr \<Rightarrow> nat \<Rightarrow> nat" where
  "runEnd p v j = (if j < length v \<and> p (v ! j) then runEnd p v (j + 1) else j)"
  by pat_completeness auto
termination
  by (relation "measure (\<lambda>(p, v, j). length v - j)") auto

function tokenRun :: "jstr \<Rightarrow> nat \<Rightarrow> nat \<Rightarrow> nat" where
  "tokenRun v k seen =
     (if k < length v \<and> seen < SECRET_TOKEN_MIN_LEN \<and> isSecretTokenChar (v ! k)
      then tokenRun v (k + 1) (seen + 1) else seen)"
  by pat_completeness auto
termination
  by (relation "measure (\<lambda>(v, k, seen). length v - k)") auto

declare runEnd.simps [simp del] tokenRun.simps [simp del]

lemma runEnd_takeWhile: "runEnd p v j = j + length (takeWhile p (drop j v))"
proof (induction p v j rule: runEnd.induct)
  case (1 p v j)
  show ?case
  proof (cases "j < length v \<and> p (v ! j)")
    case True
    then have "drop j v = v ! j # drop (j + 1) v" by (simp add: Cons_nth_drop_Suc)
    with True 1 show ?thesis by (subst runEnd.simps) simp
  next
    case False
    then have "takeWhile p (drop j v) = []"
      by (cases "j < length v") (auto simp: takeWhile_eq_Nil_iff hd_drop_conv_nth)
    with False show ?thesis by (subst runEnd.simps) auto
  qed
qed

text \<open>
  \<open>resume\<close> may be negative in the source; the comparison \<open>resume > i\<close> then fails, as it does for
  the truncated difference.
\<close>

definition resumeAt :: "nat \<Rightarrow> nat \<Rightarrow> nat" where
  "resumeAt i j = (let resume = j - (MAX_SECRET_PREFIX_LEN - 1) in if resume > i then resume else i + 1)"

function scanSecret :: "jstr \<Rightarrow> nat \<Rightarrow> bool" where
  "scanSecret v i =
     (if length v \<le> i then False
      else if length v - i < MIN_SECRET_MATCH_LEN then False
      else let prefixLen = matchSecretPrefixLen v i (length v) in
        if prefixLen = 0 then scanSecret v (i + 1)
        else let j = runEnd isSecretWhitespace v (runEnd isSecretSuffixChar v (i + prefixLen)) in
          if length v \<le> j then False
          else if \<not> isSecretSeparator (v ! j) then scanSecret v (resumeAt i j)
          else if SECRET_TOKEN_MIN_LEN \<le> tokenRun v (runEnd isSecretWhitespace v (j + 1)) 0 then True
          else scanSecret v (resumeAt i j))"
  by pat_completeness auto
termination
  by (relation "measure (\<lambda>(v, i). length v - i)") (auto simp: resumeAt_def Let_def)

declare scanSecret.simps [simp del]

definition containsLongTokenLikeSecret :: "jstr \<Rightarrow> bool" where
  "containsLongTokenLikeSecret v = scanSecret v 0"

subsection \<open>The expression the scanner stands for\<close>

text \<open>
  \<open>PREFIX SUFFIX* WS* (":" | "=") WS* TOKEN{16,}\<close> at the start of a text: the text splits into
  the parts in some way.
\<close>

definition secretPrefixes :: "jstr list" where
  "secretPrefixes = map js [''sk'', ''pk'', ''rk'', ''api_key'', ''api-key'', ''apikey'', ''secret'', ''token'']"

definition secretHere :: "jstr \<Rightarrow> bool" where
  "secretHere s \<longleftrightarrow> (\<exists>p x w sep w' t r. s = p @ x @ w @ sep # w' @ t @ r
     \<and> map toLowerAscii p \<in> set secretPrefixes \<and> list_all isSecretSuffixChar x \<and> list_all isWs w
     \<and> isSecretSeparator sep \<and> list_all isWs w' \<and> length t = SECRET_TOKEN_MIN_LEN \<and> list_all isSecretTokenChar t)"

definition tailHere :: "jstr \<Rightarrow> bool" where
  "tailHere s \<longleftrightarrow> (\<exists>sep w' t r. s = sep # w' @ t @ r \<and> isSecretSeparator sep \<and> list_all isWs w'
     \<and> length t = SECRET_TOKEN_MIN_LEN \<and> list_all isSecretTokenChar t)"

lemma isSecretWhitespace_isWs: "isSecretWhitespace = isWs"
  by (auto simp: isSecretWhitespace_def isWs_def fun_eq_iff)

lemmas secret_class_defs = isSecretSuffixChar_def isSecretTokenChar_def isSecretSeparator_def
  isAsciiLetter_def isAsciiDigit_def toLowerAscii_def Let_def

lemma secret_classes_disjoint:
  "isSecretSuffixChar c \<Longrightarrow> \<not> isWs c" "isSecretSuffixChar c \<Longrightarrow> \<not> isSecretSeparator c"
  "isWs c \<Longrightarrow> \<not> isSecretSeparator c" "isSecretTokenChar c \<Longrightarrow> \<not> isWs c"
  by (auto simp: secret_class_defs isWs_def split: if_splits)

lemma secret_prefix_chars:
  "map toLowerAscii p \<in> set secretPrefixes \<Longrightarrow> list_all isSecretSuffixChar p \<and> 2 \<le> length p"
proof -
  assume "map toLowerAscii p \<in> set secretPrefixes"
  then obtain w where w: "map toLowerAscii p = w" "w \<in> set secretPrefixes" by blast
  have "list_all isSecretSuffixChar w \<and> 2 \<le> length w"
    using w(2) by (auto simp: secretPrefixes_def js_eval secret_class_defs)
  moreover have "isSecretSuffixChar (toLowerAscii c) \<Longrightarrow> isSecretSuffixChar c" for c
    by (auto simp: secret_class_defs split: if_splits)
  ultimately show ?thesis
    using w(1) by (auto simp: list_all_iff)
qed


lemma lowerAt_drop: "lowerAt v (i + k) c \<longleftrightarrow> k < length (drop i v) \<and> toLowerAscii (drop i v ! k) = c"
  by (auto simp: lowerAt_def)

lemma lowerAt_drop0: "lowerAt v i c \<longleftrightarrow> 0 < length (drop i v) \<and> toLowerAscii (drop i v ! 0) = c"
  using lowerAt_drop [of v i 0 c] by simp

definition hits :: "jstr \<Rightarrow> jstr \<Rightarrow> bool" where
  "hits s w \<longleftrightarrow> map toLowerAscii (take (length w) s) = w"

lemma hits_Nil [simp]: "hits s []" by (simp add: hits_def)

lemma hits_Cons: "hits s (c # w) \<longleftrightarrow> s \<noteq> [] \<and> toLowerAscii (hd s) = c \<and> hits (tl s) w"
  by (cases s) (auto simp: hits_def)

lemma hits_length: "hits s w \<Longrightarrow> length w \<le> length s"
  by (metis hits_def length_map length_take min.cobounded1)

lemma hits_drop_Cons: "hits (drop i v) (c # w) \<longleftrightarrow> lowerAt v i c \<and> hits (drop (i + 1) v) w"
  by (auto simp: hits_Cons lowerAt_def hd_drop_conv_nth drop_Suc tl_drop)

definition lowOpt :: "jstr \<Rightarrow> nat \<Rightarrow> nat option" where
  "lowOpt v i = (if i < length v then Some (toLowerAscii (v ! i)) else None)"

lemma lowerAt_lowOpt: "lowerAt v i c \<longleftrightarrow> lowOpt v i = Some c"
  by (simp add: lowerAt_def lowOpt_def)

lemma lowOpt_less: "lowOpt v i = Some c \<Longrightarrow> i < length v"
  by (simp add: lowOpt_def split: if_splits)

lemma less_and_lowOpt: "i < length v \<and> lowOpt v i = Some c \<longleftrightarrow> lowOpt v i = Some c"
  using lowOpt_less by blast

lemma sep_lowOpt: "i < length v \<and> (v ! i = 95 \<or> v ! i = 45) \<and> P \<longleftrightarrow> (lowOpt v i = Some 95 \<or> lowOpt v i = Some 45) \<and> P"
  by (auto simp: lowOpt_def toLowerAscii_def split: if_splits)

text \<open>The bounds of the prefix test are implied by the characters it finds.\<close>

lemma matchSecretPrefixLen_lowOpt:
  "matchSecretPrefixLen v i (length v) =
     (let L = (\<lambda>k. lowOpt v (i + k)) in
      if L 0 = Some 115 then
        (if L 1 = Some 107 then 2
         else if L 1 = Some 101 \<and> L 2 = Some 99 \<and> L 3 = Some 114 \<and> L 4 = Some 101 \<and> L 5 = Some 116 then 6 else 0)
      else if L 0 = Some 112 \<or> L 0 = Some 114 then (if L 1 = Some 107 then 2 else 0)
      else if L 0 = Some 116 then
        (if L 1 = Some 111 \<and> L 2 = Some 107 \<and> L 3 = Some 101 \<and> L 4 = Some 110 then 5 else 0)
      else if L 0 = Some 97 \<and> L 1 = Some 112 \<and> L 2 = Some 105 then
        (if L 3 = Some 107 \<and> L 4 = Some 101 \<and> L 5 = Some 121 then 6
         else if (L 3 = Some 95 \<or> L 3 = Some 45) \<and> L 4 = Some 107 \<and> L 5 = Some 101 \<and> L 6 = Some 121 then 7 else 0)
      else 0)"
  using lowOpt_less [of v "i + 1"] lowOpt_less [of v "i + 2"] lowOpt_less [of v "i + 4"]
    lowOpt_less [of v "i + 5"] lowOpt_less [of v "i + 6"]
  unfolding matchSecretPrefixLen_def lowerAt_lowOpt sep_lowOpt Let_def
  by (simp split: if_split) blast

lemma hits_drop_low: "hits (drop i v) (c # w) \<longleftrightarrow> lowOpt v i = Some c \<and> hits (drop (i + 1) v) w"
  by (simp add: hits_drop_Cons lowerAt_lowOpt)

lemma steps_ahead: "i + 3 = Suc (Suc (Suc i))" "i + 4 = Suc (Suc (Suc (Suc i)))"
  "i + 5 = Suc (Suc (Suc (Suc (Suc i))))" "i + 6 = Suc (Suc (Suc (Suc (Suc (Suc i)))))"
  by simp_all

lemma matchSecretPrefixLen_complete:
  assumes "hits (drop i v) w" "w \<in> set secretPrefixes"
  shows "matchSecretPrefixLen v i (length v) = length w"
  using assms(2,1) unfolding secretPrefixes_def list.map list.set insert_iff empty_iff js_eval
  by (elim disjE FalseE; simp add: hits_drop_low matchSecretPrefixLen_lowOpt Let_def steps_ahead)

lemma matchSecretPrefixLen_sound:
  assumes "0 < matchSecretPrefixLen v i (length v)"
  shows "\<exists>w \<in> set secretPrefixes. hits (drop i v) w"
  using assms
  by (auto simp: secretPrefixes_def js_eval hits_drop_low matchSecretPrefixLen_lowOpt Let_def steps_ahead split: if_splits)


subsection \<open>Runs\<close>

lemma tokenRun_takeWhile:
  "seen \<le> SECRET_TOKEN_MIN_LEN \<Longrightarrow>
     tokenRun v k seen = min SECRET_TOKEN_MIN_LEN (seen + length (takeWhile isSecretTokenChar (drop k v)))"
proof (induction v k seen rule: tokenRun.induct)
  case (1 v k seen)
  show ?case
  proof (cases "k < length v \<and> seen < SECRET_TOKEN_MIN_LEN \<and> isSecretTokenChar (v ! k)")
    case True
    then have "drop k v = v ! k # drop (k + 1) v" by (simp add: Cons_nth_drop_Suc)
    with True 1 show ?thesis by (subst tokenRun.simps) simp
  next
    case False
    then have "tokenRun v k seen = seen" by (subst tokenRun.simps) auto
    moreover have "seen = SECRET_TOKEN_MIN_LEN \<or> takeWhile isSecretTokenChar (drop k v) = []"
      using False 1(2) by (cases "k < length v") (auto simp: takeWhile_eq_Nil_iff hd_drop_conv_nth)
    ultimately show ?thesis using 1(2) by auto
  qed
qed

lemma drop_runEnd: "drop (runEnd p v j) v = dropWhile p (drop j v)"
  by (simp add: runEnd_takeWhile dropWhile_eq_drop add.commute)

lemma takeWhile_run: "list_all p a \<Longrightarrow> b = [] \<or> \<not> p (hd b) \<Longrightarrow> takeWhile p (a @ b) = a \<and> dropWhile p (a @ b) = b"
  by (induction a) (cases b; auto)+

lemma list_all_take_run: "n \<le> length (takeWhile p s) \<Longrightarrow> list_all p (take n s)"
proof (induction s arbitrary: n)
  case (Cons c s)
  then show ?case by (cases n) (auto split: if_splits)
qed simp

lemma tailHere_Cons:
  "tailHere (c # s) \<longleftrightarrow> isSecretSeparator c
     \<and> SECRET_TOKEN_MIN_LEN \<le> length (takeWhile isSecretTokenChar (dropWhile isWs s))"
proof
  assume "tailHere (c # s)"
  then obtain w t r where p: "s = w @ t @ r" "isSecretSeparator c" "list_all isWs w"
    "length t = SECRET_TOKEN_MIN_LEN" "list_all isSecretTokenChar t"
    by (auto simp: tailHere_def)
  have "t \<noteq> []" using p(4) by (auto simp: SECRET_TOKEN_MIN_LEN_def)
  then have "\<not> isWs (hd (t @ r))"
    using p(5) secret_classes_disjoint(4) by (cases t) auto
  then have "dropWhile isWs s = t @ r"
    using takeWhile_run [of isWs w "t @ r"] p by simp
  moreover have "takeWhile isSecretTokenChar (t @ r) = t @ takeWhile isSecretTokenChar r"
    using p(5) by (simp add: list_all_iff)
  ultimately show "isSecretSeparator c
    \<and> SECRET_TOKEN_MIN_LEN \<le> length (takeWhile isSecretTokenChar (dropWhile isWs s))"
    using p by simp
next
  assume a: "isSecretSeparator c
    \<and> SECRET_TOKEN_MIN_LEN \<le> length (takeWhile isSecretTokenChar (dropWhile isWs s))"
  let ?d = "dropWhile isWs s" and ?n = SECRET_TOKEN_MIN_LEN
  show "tailHere (c # s)"
    unfolding tailHere_def
  proof (intro exI conjI)
    show "c # s = c # takeWhile isWs s @ take ?n ?d @ drop ?n ?d" by simp
    show "isSecretSeparator c" using a by simp
    show "list_all isWs (takeWhile isWs s)" by (auto simp: list_all_iff dest: set_takeWhileD)
    show "length (take ?n ?d) = ?n" using a length_takeWhile_le [of isSecretTokenChar ?d] by simp
    show "list_all isSecretTokenChar (take ?n ?d)" using a by (intro list_all_take_run) simp
  qed
qed

text \<open>
  The skip: a candidate that starts inside an identifier run or the white space behind it ends
  at the same separator as every other one in the run.
\<close>

lemma secretHere_run:
  assumes "list_all isSecretSuffixChar a" "list_all isWs b"
    "b @ u = [] \<or> \<not> isSecretSuffixChar (hd (b @ u))" "u = [] \<or> \<not> isWs (hd u)"
    "secretHere (a @ b @ u)"
  shows "tailHere u \<and> a \<noteq> []"
proof -
  obtain p x w sep w' t r where e: "a @ b @ u = (p @ x) @ w @ sep # w' @ t @ r"
    "map toLowerAscii p \<in> set secretPrefixes" "list_all isSecretSuffixChar x" "list_all isWs w"
    "isSecretSeparator sep" "list_all isWs w'" "length t = SECRET_TOKEN_MIN_LEN" "list_all isSecretTokenChar t"
    using assms(5) unfolding secretHere_def by (metis append.assoc)
  have p: "list_all isSecretSuffixChar (p @ x)" "p \<noteq> []"
    using secret_prefix_chars [OF e(2)] e(3) by auto
  have h: "\<not> isSecretSuffixChar (hd (w @ sep # w' @ t @ r))" "\<not> isWs sep"
    using e(4,5) secret_classes_disjoint by (cases w; auto)+
  have a: "a = p @ x" "b @ u = w @ sep # w' @ t @ r"
    using takeWhile_run [OF assms(1,3)] takeWhile_run [OF p(1), of "w @ sep # w' @ t @ r"] h(1)
    unfolding e(1) by auto
  have "u = sep # w' @ t @ r"
    using takeWhile_run [OF assms(2,4)] takeWhile_run [OF e(4), of "sep # w' @ t @ r"] h(2)
    unfolding a(2) by auto
  then show ?thesis using a(1) p(2) e(5-8) unfolding tailHere_def by auto
qed

lemma secretHere_iff:
  "secretHere s \<longleftrightarrow> (\<exists>w \<in> set secretPrefixes. hits s w
     \<and> tailHere (dropWhile isWs (dropWhile isSecretSuffixChar (drop (length w) s))))"
proof
  assume "secretHere s"
  then obtain p x w sep w' t r where e: "s = p @ x @ w @ sep # w' @ t @ r"
    "map toLowerAscii p \<in> set secretPrefixes" "list_all isSecretSuffixChar x" "list_all isWs w"
    "isSecretSeparator sep" "list_all isWs w'" "length t = SECRET_TOKEN_MIN_LEN" "list_all isSecretTokenChar t"
    unfolding secretHere_def by metis
  have "\<not> isSecretSuffixChar (hd (w @ sep # w' @ t @ r))" "\<not> isWs sep"
    using e(4,5) secret_classes_disjoint by (cases w; auto)+
  then have "dropWhile isSecretSuffixChar (drop (length p) s) = w @ sep # w' @ t @ r"
    "dropWhile isWs (w @ sep # w' @ t @ r) = sep # w' @ t @ r"
    using takeWhile_run [OF e(3), of "w @ sep # w' @ t @ r"] takeWhile_run [OF e(4), of "sep # w' @ t @ r"]
    by (auto simp: e(1))
  moreover have "hits s (map toLowerAscii p)" by (simp add: hits_def e(1))
  ultimately show "\<exists>w \<in> set secretPrefixes. hits s w
     \<and> tailHere (dropWhile isWs (dropWhile isSecretSuffixChar (drop (length w) s)))"
    using e(2,5-8) unfolding tailHere_def by (intro bexI [of _ "map toLowerAscii p"]) auto
next
  assume "\<exists>w \<in> set secretPrefixes. hits s w
     \<and> tailHere (dropWhile isWs (dropWhile isSecretSuffixChar (drop (length w) s)))"
  then obtain w where w: "w \<in> set secretPrefixes" "hits s w"
    "tailHere (dropWhile isWs (dropWhile isSecretSuffixChar (drop (length w) s)))" by blast
  let ?p = "take (length w) s" and ?d = "dropWhile isSecretSuffixChar (drop (length w) s)"
  from w(3) obtain sep w' t r where t: "dropWhile isWs ?d = sep # w' @ t @ r" "isSecretSeparator sep"
    "list_all isWs w'" "length t = SECRET_TOKEN_MIN_LEN" "list_all isSecretTokenChar t"
    unfolding tailHere_def by metis
  show "secretHere s"
    unfolding secretHere_def
  proof (intro exI conjI)
    show "s = ?p @ takeWhile isSecretSuffixChar (drop (length w) s) @ takeWhile isWs ?d @ sep # w' @ t @ r"
      unfolding t(1) [symmetric] by simp
    show "map toLowerAscii ?p \<in> set secretPrefixes" using w(1,2) by (simp add: hits_def)
    show "list_all isSecretSuffixChar (takeWhile isSecretSuffixChar (drop (length w) s))"
      "list_all isWs (takeWhile isWs ?d)"
      by (auto simp: list_all_iff dest: set_takeWhileD)
  qed (fact t)+
qed

text \<open>No room for a match, or the end of the text in the run: no later start can match.\<close>

lemma secretHere_length: "secretHere s \<Longrightarrow> MIN_SECRET_MATCH_LEN \<le> length s"
  by (auto simp: secretHere_def MIN_SECRET_MATCH_LEN_def SECRET_TOKEN_MIN_LEN_def dest!: secret_prefix_chars)

definition runStop :: "jstr \<Rightarrow> nat \<Rightarrow> nat" where
  "runStop v i = runEnd isSecretWhitespace v (runEnd isSecretSuffixChar v (i + matchSecretPrefixLen v i (length v)))"

lemma secret_at_start:
  assumes "0 < matchSecretPrefixLen v i (length v)"
  shows "secretHere (drop i v) \<longleftrightarrow> tailHere (drop (runStop v i) v)"
proof -
  obtain w where w: "w \<in> set secretPrefixes" "hits (drop i v) w"
    using matchSecretPrefixLen_sound [OF assms] by blast
  have len: "matchSecretPrefixLen v i (length v) = length w'"
    if "w' \<in> set secretPrefixes" "hits (drop i v) w'" for w'
    using matchSecretPrefixLen_complete that by blast
  have "drop (runStop v i) v =
      dropWhile isWs (dropWhile isSecretSuffixChar (drop (length w') (drop i v)))"
    if "w' \<in> set secretPrefixes" "hits (drop i v) w'" for w'
    using len [OF that] by (simp add: runStop_def drop_runEnd isSecretWhitespace_isWs add.commute)
  then show ?thesis unfolding secretHere_iff using w by metis
qed

lemma secret_none_at_start: "matchSecretPrefixLen v i (length v) = 0 \<Longrightarrow> \<not> secretHere (drop i v)"
  using matchSecretPrefixLen_complete [of i v] secret_prefix_chars
  by (auto simp: secretHere_iff secretPrefixes_def js_eval)

lemma hits_ident:
  assumes "hits s w" "w \<in> set secretPrefixes"
  shows "list_all isSecretSuffixChar (take (length w) s)"
  using secret_prefix_chars [of "take (length w) s"] assms by (simp add: hits_def)

lemma runStop_split:
  assumes "0 < matchSecretPrefixLen v i (length v)"
  obtains a b where "drop i v = a @ b @ drop (runStop v i) v" "list_all isSecretSuffixChar a" "list_all isWs b"
    "b @ drop (runStop v i) v = [] \<or> \<not> isSecretSuffixChar (hd (b @ drop (runStop v i) v))"
    "drop (runStop v i) v = [] \<or> \<not> isWs (hd (drop (runStop v i) v))"
    "runStop v i = i + length a + length b" "a \<noteq> []"
proof -
  obtain w where w: "w \<in> set secretPrefixes" "hits (drop i v) w"
    using matchSecretPrefixLen_sound [OF assms] by blast
  have k: "matchSecretPrefixLen v i (length v) = length w"
    using matchSecretPrefixLen_complete [OF w(2,1)] .
  let ?s = "drop i v" let ?r = "drop (length w) ?s" let ?d = "dropWhile isSecretSuffixChar ?r"
  let ?a = "take (length w) ?s @ takeWhile isSecretSuffixChar ?r" and ?b = "takeWhile isWs ?d"
  have stop: "runStop v i = i + length w + length (takeWhile isSecretSuffixChar ?r) + length ?b"
    using k by (simp add: runStop_def runEnd_takeWhile isSecretWhitespace_isWs dropWhile_eq_drop
        algebra_simps)
  have u: "drop (runStop v i) v = dropWhile isWs ?d"
    using k by (simp add: runStop_def drop_runEnd isSecretWhitespace_isWs add.commute)
  have lw: "length w \<le> length ?s" using hits_length [OF w(2)] .
  show thesis
  proof (rule that [of ?a ?b])
    show "drop i v = ?a @ ?b @ drop (runStop v i) v"
      unfolding u append_assoc takeWhile_dropWhile_id append_take_drop_id by (rule refl)
    show "list_all isSecretSuffixChar ?a"
      using hits_ident [OF w(2,1)] by (auto simp: list_all_iff dest: set_takeWhileD)
    show "list_all isWs ?b" by (auto simp: list_all_iff dest: set_takeWhileD)
    show "?b @ drop (runStop v i) v = [] \<or> \<not> isSecretSuffixChar (hd (?b @ drop (runStop v i) v))"
      unfolding u takeWhile_dropWhile_id using hd_dropWhile [of isSecretSuffixChar ?r] by blast
    show "drop (runStop v i) v = [] \<or> \<not> isWs (hd (drop (runStop v i) v))"
      unfolding u using hd_dropWhile [of isWs ?d] by blast
    show "runStop v i = i + length ?a + length ?b" using stop lw by simp
    show "?a \<noteq> []" using lw k assms by auto
  qed
qed

lemma secret_skip:
  assumes "0 < matchSecretPrefixLen v i (length v)" "i \<le> i'" "i' < runStop v i"
    "secretHere (drop i' v)"
  shows "tailHere (drop (runStop v i) v)"
proof -
  obtain a b where s: "drop i v = a @ b @ drop (runStop v i) v" "list_all isSecretSuffixChar a" "list_all isWs b"
    "b @ drop (runStop v i) v = [] \<or> \<not> isSecretSuffixChar (hd (b @ drop (runStop v i) v))"
    "drop (runStop v i) v = [] \<or> \<not> isWs (hd (drop (runStop v i) v))"
    "runStop v i = i + length a + length b"
    using runStop_split [OF assms(1)] by metis
  let ?u = "drop (runStop v i) v" and ?k = "i' - i"
  have d: "drop i' v = drop ?k a @ drop (?k - length a) b @ drop (?k - length a - length b) ?u"
    using arg_cong [OF s(1), of "drop ?k"] assms(2) by simp
  have z: "?k - length a - length b = 0" using assms(2,3) s(6) by simp
  show ?thesis
  proof (cases "?k < length a")
    case True
    then have "secretHere (drop ?k a @ b @ ?u)" using assms(4) d z by simp
    then show ?thesis
      using secretHere_run [of "drop ?k a" b ?u] s(2-5) by (metis append_take_drop_id list_all_append)
  next
    case False
    let ?b = "drop (?k - length a) b"
    have "?b \<noteq> []" using False assms(2,3) s(6) by simp
    moreover have "list_all isWs ?b" using s(3) by (metis append_take_drop_id list_all_append)
    ultimately have "\<not> isSecretSuffixChar (hd (?b @ ?u))"
      using secret_classes_disjoint(1) by (cases ?b) auto
    then show ?thesis
      using secretHere_run [of "[]" ?b ?u] assms(4) d z False s(5) \<open>list_all isWs ?b\<close> by simp
  qed
qed

lemma resumeAt_bounds: "i < j \<Longrightarrow> i < resumeAt i j \<and> resumeAt i j \<le> j"
  by (auto simp: resumeAt_def Let_def)

lemma secretHere_later:
  assumes "\<And>i'. i \<le> i' \<Longrightarrow> i' < k \<Longrightarrow> \<not> secretHere (drop i' v)" "i \<le> k"
  shows "(\<exists>i' \<ge> i. secretHere (drop i' v)) \<longleftrightarrow> (\<exists>i' \<ge> k. secretHere (drop i' v))"
  using assms by (meson le_trans not_le)

lemma scanSecret_iff: "scanSecret v i \<longleftrightarrow> (\<exists>i' \<ge> i. secretHere (drop i' v))"
proof (induction v i rule: scanSecret.induct)
  case (1 v i)
  let ?k = "matchSecretPrefixLen v i (length v)" and ?j = "runStop v i"
  show ?case
  proof (cases "length v \<le> i \<or> length v - i < MIN_SECRET_MATCH_LEN")
    case True
    then have "\<not> secretHere (drop i' v)" if "i \<le> i'" for i'
      using that secretHere_length [of "drop i' v"] by (auto simp: MIN_SECRET_MATCH_LEN_def)
    with True show ?thesis by (subst scanSecret.simps) auto
  next
    case room: False
    show ?thesis
    proof (cases "?k = 0")
      case True
      then have "scanSecret v i = scanSecret v (i + 1)"
        using room by (subst scanSecret.simps) simp
      moreover have "(\<exists>i' \<ge> i. secretHere (drop i' v)) \<longleftrightarrow> (\<exists>i' \<ge> i + 1. secretHere (drop i' v))"
        using secret_none_at_start [OF True] by (intro secretHere_later) (auto simp: le_less_Suc_eq)
      ultimately show ?thesis using 1(1) [OF _ _ refl True] room by auto
    next
      case False
      then have k: "0 < ?k" by simp
      have ij: "i < ?j" using runStop_split [OF k] by (metis add.assoc less_add_same_cancel1 length_greater_0_conv trans_less_add1)
      have tail: "tailHere (drop ?j v) \<longleftrightarrow> ?j < length v \<and> isSecretSeparator (v ! ?j)
          \<and> SECRET_TOKEN_MIN_LEN \<le> tokenRun v (runEnd isSecretWhitespace v (?j + 1)) 0"
      proof (cases "?j < length v")
        case True
        then have "drop ?j v = v ! ?j # drop (?j + 1) v" by (simp add: Cons_nth_drop_Suc)
        then show ?thesis
          using True by (simp add: tailHere_Cons tokenRun_takeWhile drop_runEnd isSecretWhitespace_isWs)
      qed (simp add: tailHere_def)
      have skip: "(\<exists>i' \<ge> i. secretHere (drop i' v)) \<longleftrightarrow> (\<exists>i' \<ge> n. secretHere (drop i' v))"
        if "\<not> tailHere (drop ?j v)" "i \<le> n" "n \<le> ?j" for n
        using secret_skip [OF k] that by (intro secretHere_later) (auto dest: less_le_trans)
      have unfold: "scanSecret v i = (if length v \<le> ?j then False
          else if tailHere (drop ?j v) then True else scanSecret v (resumeAt i ?j))"
        using room k tail by (subst scanSecret.simps) (simp add: Let_def runStop_def)
      show ?thesis
      proof (cases "tailHere (drop ?j v)")
        case True
        then have "secretHere (drop i v)" using secret_at_start [OF k] by simp
        with True tail unfold show ?thesis by auto
      next
        case no: False
        show ?thesis
        proof (cases "length v \<le> ?j")
          case True
          have "\<not> secretHere (drop i' v)" if "?j \<le> i'" for i'
            using True that secretHere_length [of "drop i' v"] by (auto simp: MIN_SECRET_MATCH_LEN_def)
          with True unfold skip [OF no, of ?j] ij show ?thesis by auto
        next
          case False
          have "scanSecret v (resumeAt i ?j) \<longleftrightarrow> (\<exists>i' \<ge> resumeAt i ?j. secretHere (drop i' v))"
          proof (cases "isSecretSeparator (v ! ?j)")
            case True
            with 1(3) [OF _ _ refl _ refl] room k False no tail show ?thesis
              by (simp add: runStop_def)
          next
            case nosep: False
            with 1(2) [OF _ _ refl _ refl] room k False show ?thesis
              by (simp add: runStop_def)
          qed
          with False no unfold skip [OF no, of "resumeAt i ?j"] resumeAt_bounds [OF ij] show ?thesis
            by auto
        qed
      qed
    qed
  qed
qed

text \<open>The linear scan finds exactly the texts that contain a match.\<close>

lemma containsLongTokenLikeSecret_iff:
  "containsLongTokenLikeSecret v \<longleftrightarrow> (\<exists>a s. v = a @ s \<and> secretHere s)"
proof
  assume "containsLongTokenLikeSecret v"
  then obtain i where "secretHere (drop i v)"
    by (auto simp: containsLongTokenLikeSecret_def scanSecret_iff)
  then show "\<exists>a s. v = a @ s \<and> secretHere s"
    by (intro exI [of _ "take i v"] exI [of _ "drop i v"]) simp
next
  assume "\<exists>a s. v = a @ s \<and> secretHere s"
  then obtain a s where "v = a @ s" "secretHere s" by blast
  then have "secretHere (drop (length a) v)" by simp
  then show "containsLongTokenLikeSecret v"
    unfolding containsLongTokenLikeSecret_def scanSecret_iff by blast
qed

end
