(* ===== verification/CardScan.thy ===== *)
theory CardScan
  imports SecretScan
begin

text \<open>
  The scanner for card-like digit runs of \<open>packages/reproducer/src/sensitive.ts\<close> and the gate
  \<open>looksSensitiveValue\<close> itself.
\<close>

subsection \<open>The scanner for card numbers\<close>

definition isAsciiDigitChar :: "nat \<Rightarrow> bool" where "isAsciiDigitChar c \<longleftrightarrow> 48 \<le> c \<and> c \<le> 57"

definition sensitiveWordChar :: "nat \<Rightarrow> bool" where
  "sensitiveWordChar c \<longleftrightarrow> (97 \<le> c \<and> c \<le> 122) \<or> (65 \<le> c \<and> c \<le> 90) \<or> (48 \<le> c \<and> c \<le> 57) \<or> c = 95"

definition cardSeparator :: "nat \<Rightarrow> bool" where "cardSeparator c \<longleftrightarrow> c = 32 \<or> c = 45"

text \<open>The loop that extends the cluster: the end and the list \<open>digitEnds\<close>.\<close>

function cardCluster :: "jstr \<Rightarrow> nat \<Rightarrow> nat list \<Rightarrow> nat \<times> nat list" where
  "cardCluster v j digitEnds =
     (if length v \<le> j then (j, digitEnds)
      else if isAsciiDigitChar (v ! j) then cardCluster v (j + 1) (digitEnds @ [j + 1])
      else if cardSeparator (v ! j) \<and> j + 1 < length v \<and> isAsciiDigitChar (v ! (j + 1))
      then cardCluster v (j + 1) digitEnds
      else (j, digitEnds))"
  by pat_completeness auto
termination
  by (relation "measure (\<lambda>(v, j, ds). length v - j)") auto

declare cardCluster.simps [simp del]

definition startOrdinals :: "jstr \<Rightarrow> nat list \<Rightarrow> nat list" where
  "startOrdinals v digitEnds =
     0 # filter (\<lambda>d. cardSeparator (v ! (digitEnds ! d - 1 - 1))) [1..<length digitEnds]"

definition cardCandidate :: "jstr \<Rightarrow> bool \<Rightarrow> nat list \<Rightarrow> bool" where
  "cardCandidate v headOk digitEnds =
     list_ex (\<lambda>ordinal. (ordinal = 0 \<longrightarrow> headOk) \<and>
        (let available = length digitEnds - ordinal in
         list_ex (\<lambda>n. let end' = digitEnds ! (ordinal + n - 1) in
             length v \<le> end' \<or> \<not> sensitiveWordChar (v ! end'))
           [13..<Suc (min 19 available)])) (startOrdinals v digitEnds)"

lemma cardCluster_end: "j \<le> fst (cardCluster v j ds)"
proof (induction v j ds rule: cardCluster.induct)
  case (1 v j ds)
  then show ?case by (subst cardCluster.simps) (auto dest: Suc_leD)
qed

lemma cardCluster_moves: "j < length v \<Longrightarrow> isAsciiDigitChar (v ! j) \<Longrightarrow> j < fst (cardCluster v j ds)"
  using cardCluster_end [of "j + 1" v "ds @ [j + 1]"] by (subst cardCluster.simps) simp

function scanCards :: "jstr \<Rightarrow> nat \<Rightarrow> bool" where
  "scanCards v i0 =
     (let i = runEnd (\<lambda>c. \<not> isAsciiDigitChar c) v i0 in
      if length v \<le> i then False
      else let (j, digitEnds) = cardCluster v i [];
               headOk = (i = 0 \<or> \<not> sensitiveWordChar (v ! (i - 1)))
           in if cardCandidate v headOk digitEnds then True else scanCards v j)"
  by pat_completeness auto

lemma runEnd_stop: "runEnd p v j < length v \<Longrightarrow> \<not> p (v ! runEnd p v j)"
  by (induction p v j rule: runEnd.induct) (metis runEnd.simps)

lemma runEnd_le: "j \<le> runEnd p v j"
  by (simp add: runEnd_takeWhile)

termination scanCards
proof (relation "measure (\<lambda>(v, i). length v - i)")
  fix v i0 i x j ds headOk
  assume a: "i = runEnd (\<lambda>c. \<not> isAsciiDigitChar c) v i0" "\<not> length v \<le> i" "x = cardCluster v i []" "(j, ds) = x"
  have "i < j"
    using cardCluster_moves [of i v "[]"] runEnd_stop [of "\<lambda>c. \<not> isAsciiDigitChar c" v i0] a
    by (metis fst_conv not_le)
  then show "((v, j), v, i0) \<in> measure (\<lambda>(v, i). length v - i)"
    using a(1,2) runEnd_le [of i0 "\<lambda>c. \<not> isAsciiDigitChar c" v] by simp
qed simp

declare scanCards.simps [simp del]

definition containsCardLikeRun :: "jstr \<Rightarrow> bool" where "containsCardLikeRun v = scanCards v 0"


subsection \<open>The runs the scanner stands for\<close>

text \<open>
  A position goes on a cluster when it is a digit or a single separator before a digit; a card
  span starts and ends with a digit and every position of it goes on.
\<close>

definition goesOn :: "jstr \<Rightarrow> nat \<Rightarrow> bool" where
  "goesOn v k \<longleftrightarrow> k < length v \<and> (isAsciiDigitChar (v ! k)
     \<or> cardSeparator (v ! k) \<and> k + 1 < length v \<and> isAsciiDigitChar (v ! (k + 1)))"

definition digitsIn :: "jstr \<Rightarrow> nat \<Rightarrow> nat \<Rightarrow> nat list" where
  "digitsIn v s e = filter (\<lambda>k. isAsciiDigitChar (v ! k)) [s..<e]"

definition cardSpan :: "jstr \<Rightarrow> nat \<Rightarrow> nat \<Rightarrow> bool" where
  "cardSpan v s e \<longleftrightarrow> s < e \<and> e \<le> length v \<and> isAsciiDigitChar (v ! s) \<and> isAsciiDigitChar (v ! (e - 1))
     \<and> (\<forall>k \<in> {s..<e}. goesOn v k)
     \<and> length (digitsIn v s e) \<in> {13..19}
     \<and> (s = 0 \<or> \<not> sensitiveWordChar (v ! (s - 1)))
     \<and> (e = length v \<or> \<not> sensitiveWordChar (v ! e))"

lemma cardCluster_spec:
  assumes "cardCluster v j ds = (j', ds')"
  shows "j \<le> j' \<and> (\<forall>k \<in> {j..<j'}. goesOn v k) \<and> \<not> goesOn v j' \<and> ds' = ds @ map Suc (digitsIn v j j')"
  using assms
proof (induction v j ds rule: cardCluster.induct)
  case (1 v j ds)
  have ext: "[j..<j'] = j # [Suc j..<j'] \<and> {j..<j'} = insert j {Suc j..<j'}" if "Suc j \<le> j'"
    using that by (auto simp: upt_conv_Cons)
  consider (digit) "j < length v" "isAsciiDigitChar (v ! j)"
    | (sep) "j < length v" "\<not> isAsciiDigitChar (v ! j)" "cardSeparator (v ! j)" "j + 1 < length v"
        "isAsciiDigitChar (v ! (j + 1))"
    | (stop) "\<not> goesOn v j"
    by (auto simp: goesOn_def)
  then show ?case
  proof cases
    case digit
    then have "cardCluster v (j + 1) (ds @ [j + 1]) = (j', ds')"
      using 1(3) by (subst (asm) cardCluster.simps) simp
    with 1(1) digit have i: "Suc j \<le> j'" "\<forall>k \<in> {Suc j..<j'}. goesOn v k" "\<not> goesOn v j'"
      "ds' = (ds @ [Suc j]) @ map Suc (digitsIn v (Suc j) j')" by auto
    moreover have "goesOn v j" using digit by (simp add: goesOn_def)
    ultimately show ?thesis
      using digit ext [OF i(1)] by (simp add: digitsIn_def)
  next
    case sep
    then have "cardCluster v (j + 1) ds = (j', ds')"
      using 1(3) by (subst (asm) cardCluster.simps) simp
    with 1(2) sep have i: "Suc j \<le> j'" "\<forall>k \<in> {Suc j..<j'}. goesOn v k" "\<not> goesOn v j'"
      "ds' = ds @ map Suc (digitsIn v (Suc j) j')" by auto
    moreover have "goesOn v j" using sep by (simp add: goesOn_def)
    ultimately show ?thesis
      using sep ext [OF i(1)] by (simp add: digitsIn_def)
  next
    case stop
    then have "(j', ds') = (j, ds)"
      using 1(3) by (subst (asm) cardCluster.simps) (auto simp: goesOn_def split: if_splits)
    with stop show ?thesis by (simp add: digitsIn_def)
  qed
qed

lemma digitsIn_split: "s \<le> k \<Longrightarrow> k \<le> e \<Longrightarrow> digitsIn v s e = digitsIn v s k @ digitsIn v k e"
  unfolding digitsIn_def by (metis filter_append le_Suc_ex upt_add_eq_append)

lemma digitsIn_first: "s < e \<Longrightarrow> isAsciiDigitChar (v ! s) \<Longrightarrow> digitsIn v s e = s # digitsIn v (Suc s) e"
  by (simp add: digitsIn_def upt_conv_Cons)

lemma digitsIn_last: "s < e \<Longrightarrow> isAsciiDigitChar (v ! (e - 1)) \<Longrightarrow> digitsIn v s e = digitsIn v s (e - 1) @ [e - 1]"
  by (cases e) (simp_all add: digitsIn_def)

lemma digitsIn_mem: "k \<in> set (digitsIn v s e) \<longleftrightarrow> s \<le> k \<and> k < e \<and> isAsciiDigitChar (v ! k)"
  by (auto simp: digitsIn_def)

lemma distinct_digitsIn: "distinct (digitsIn v s e)"
  by (simp add: digitsIn_def)

text \<open>The ordinal of a digit is the number of digits before it.\<close>

lemma digit_ordinal:
  assumes "i \<le> s" "s < j" "isAsciiDigitChar (v ! s)" "n < length (digitsIn v i j)"
  shows "digitsIn v i j ! n = s \<longleftrightarrow> n = length (digitsIn v i s)"
proof -
  have d: "digitsIn v i j = digitsIn v i s @ s # digitsIn v (Suc s) j"
    using digitsIn_split [of i s j v] digitsIn_first [of s j v] assms(1-3) by simp
  have "digitsIn v i j ! length (digitsIn v i s) = s"
    by (subst d) simp
  moreover have "length (digitsIn v i s) < length (digitsIn v i j)"
    using arg_cong [OF d, of length] by (simp del: length_greater_0_conv)
  ultimately show ?thesis
    using nth_eq_iff_index_eq [OF distinct_digitsIn assms(4)] by metis
qed


lemma ordinal_at:
  assumes "i \<le> s" "s < j" "isAsciiDigitChar (v ! s)"
  shows "digitsIn v i j ! length (digitsIn v i s) = s \<and> length (digitsIn v i s) < length (digitsIn v i j)"
proof -
  have d: "digitsIn v i j = digitsIn v i s @ s # digitsIn v (Suc s) j"
    using digitsIn_split [of i s j v] digitsIn_first [of s j v] assms by simp
  have "digitsIn v i j ! length (digitsIn v i s) = s"
    by (subst d) simp
  moreover have "length (digitsIn v i s) < length (digitsIn v i j)"
    using arg_cong [OF d, of length] by (simp del: length_greater_0_conv)
  ultimately show ?thesis ..
qed

lemma ordinal_bounds:
  fixes l :: nat
  shows "(\<exists>p. (p = 0 \<and> h \<or> 0 < p \<and> p < l \<and> S p) \<and> (\<exists>n. 13 \<le> n \<and> n \<le> 19 \<and> n \<le> l - p \<and> G p n))
    \<longleftrightarrow> (\<exists>p n. (p = 0 \<and> h \<or> 0 < p \<and> S p) \<and> 13 \<le> n \<and> n \<le> 19 \<and> p + n \<le> l \<and> G p n)" (is "?L \<longleftrightarrow> ?R")
proof
  assume ?L
  then obtain p n where "p = 0 \<and> h \<or> 0 < p \<and> p < l \<and> S p" "13 \<le> n" "n \<le> 19" "n \<le> l - p" "G p n" by blast
  then show ?R by (intro exI [of _ p] exI [of _ n]) auto
next
  assume ?R
  then obtain p n where "p = 0 \<and> h \<or> 0 < p \<and> S p" "13 \<le> n" "n \<le> 19" "p + n \<le> l" "G p n" by blast
  then show ?L by (intro exI [of _ p] conjI exI [of _ n]) auto
qed

lemma cardCandidate_iff:
  "cardCandidate v headOk ends \<longleftrightarrow>
     (\<exists>p n. (p = 0 \<and> headOk \<or> 0 < p \<and> cardSeparator (v ! (ends ! p - 1 - 1)))
        \<and> 13 \<le> n \<and> n \<le> 19 \<and> p + n \<le> length ends
        \<and> (length v \<le> ends ! (p + n - 1) \<or> \<not> sensitiveWordChar (v ! (ends ! (p + n - 1)))))"
    (is "_ \<longleftrightarrow> ?R")
proof -
  let ?good = "\<lambda>p n. length v \<le> ends ! (p + n - 1) \<or> \<not> sensitiveWordChar (v ! (ends ! (p + n - 1)))"
  have inner: "list_ex (?good p) [13..<Suc (min 19 m)] \<longleftrightarrow> (\<exists>n. 13 \<le> n \<and> n \<le> 19 \<and> n \<le> m \<and> ?good p n)" for p m
    by (auto simp: list_ex_iff Bex_def less_Suc_eq_le simp del: upt_Suc)
  have starts: "p \<in> set (startOrdinals v ends) \<longleftrightarrow>
      p = 0 \<or> 0 < p \<and> p < length ends \<and> cardSeparator (v ! (ends ! p - 1 - 1))" for p
    by (auto simp: startOrdinals_def)
  have "cardCandidate v headOk ends \<longleftrightarrow>
     (\<exists>p. p \<in> set (startOrdinals v ends) \<and> (p = 0 \<longrightarrow> headOk)
        \<and> (\<exists>n. 13 \<le> n \<and> n \<le> 19 \<and> n \<le> length ends - p \<and> ?good p n))"
    unfolding cardCandidate_def Let_def inner unfolding list_ex_iff Bex_def ..
  also have "\<dots> \<longleftrightarrow> (\<exists>p. (p = 0 \<and> headOk \<or> 0 < p \<and> p < length ends \<and> cardSeparator (v ! (ends ! p - 1 - 1)))
        \<and> (\<exists>n. 13 \<le> n \<and> n \<le> 19 \<and> n \<le> length ends - p \<and> ?good p n))"
    unfolding starts by (rule arg_cong [of _ _ Ex]) (rule ext, metis neq0_conv)
  also have "\<dots> \<longleftrightarrow> ?R"
    by (rule ordinal_bounds)
  finally show ?thesis .
qed


text \<open>A cluster is maximal: a span that starts in it lies in it.\<close>

lemma candidate_span:
  assumes c: "cardCluster v i [] = (j, ends)" and i: "i < length v" "isAsciiDigitChar (v ! i)"
    "i = 0 \<or> \<not> isAsciiDigitChar (v ! (i - 1))"
  shows "cardCandidate v (i = 0 \<or> \<not> sensitiveWordChar (v ! (i - 1))) ends \<longleftrightarrow>
    (\<exists>s e. i \<le> s \<and> s < j \<and> cardSpan v s e)"
proof -
  let ?D = "digitsIn v i j"
  have cl: "i \<le> j" "\<forall>k \<in> {i..<j}. goesOn v k" "\<not> goesOn v j" "ends = map Suc ?D"
    using cardCluster_spec [OF c] by auto
  have jn: "j \<le> length v"
  proof (cases "i < j")
    case True
    then have "goesOn v (j - 1)" using cl(2) by auto
    then have "j - 1 < length v" by (simp only: goesOn_def)
    then show ?thesis by simp
  qed (use cl(1) i(1) in simp)
  have word: "isAsciiDigitChar x \<Longrightarrow> sensitiveWordChar x" "cardSeparator x \<Longrightarrow> \<not> sensitiveWordChar x" for x
    by (auto simp: isAsciiDigitChar_def sensitiveWordChar_def cardSeparator_def)
  show ?thesis
  proof
    assume "cardCandidate v (i = 0 \<or> \<not> sensitiveWordChar (v ! (i - 1))) ends"
    then obtain p n where pn: "p = 0 \<and> (i = 0 \<or> \<not> sensitiveWordChar (v ! (i - 1)))
        \<or> 0 < p \<and> cardSeparator (v ! (ends ! p - 1 - 1))"
      "13 \<le> n" "n \<le> 19" "p + n \<le> length ends"
      "length v \<le> ends ! (p + n - 1) \<or> \<not> sensitiveWordChar (v ! (ends ! (p + n - 1)))"
      unfolding cardCandidate_iff by blast
    let ?s = "?D ! p" and ?l = "?D ! (p + n - 1)"
    have idx: "p < length ?D" "p + n - 1 < length ?D" using pn(2,4) cl(4) by auto
    have mem: "?s \<in> set ?D" "?l \<in> set ?D" using idx by simp_all
    then have sl: "i \<le> ?s" "?s < j" "isAsciiDigitChar (v ! ?s)" "?l < j" "isAsciiDigitChar (v ! ?l)" "i \<le> ?l"
      unfolding digitsIn_mem by auto
    have ord: "p = length (digitsIn v i ?s)" "p + n - 1 = length (digitsIn v i ?l)"
      using digit_ordinal [OF sl(1-3) idx(1)] digit_ordinal [OF sl(6,4,5) idx(2)] by simp_all
    have le: "?s \<le> ?l"
    proof (rule ccontr)
      assume "\<not> ?s \<le> ?l"
      then have "length (digitsIn v i ?l) \<le> length (digitsIn v i ?s)"
        using digitsIn_split [of i ?l ?s v] sl(6) by simp
      then show False using ord pn(2) by simp
    qed
    have "length (digitsIn v ?s (Suc ?l)) = n"
    proof -
      have "digitsIn v i (Suc ?l) = digitsIn v i ?s @ digitsIn v ?s (Suc ?l)"
        "digitsIn v i (Suc ?l) = digitsIn v i ?l @ [?l]"
        using digitsIn_split [of i ?s "Suc ?l" v] digitsIn_last [of i "Suc ?l" v] sl le by simp_all
      then have "p + length (digitsIn v ?s (Suc ?l)) = p + n - 1 + 1"
        using ord by (metis length_append length_append_singleton add.right_neutral add_Suc_right One_nat_def)
      then show ?thesis using pn(2) by simp
    qed
    moreover have "?s = 0 \<or> \<not> sensitiveWordChar (v ! (?s - 1))"
    proof (cases "p = 0")
      case True
      have "?D ! 0 = i"
        using digitsIn_first [of i j v] i(2) sl(1,2) by simp
      with True pn(1) show ?thesis by auto
    next
      case False
      with pn(1) idx(1) cl(4) have "cardSeparator (v ! (?s - 1))" by simp
      then show ?thesis using word(2) by simp
    qed
    moreover have "Suc ?l = length v \<or> \<not> sensitiveWordChar (v ! Suc ?l)"
      using pn(5) cl(4) idx(2) sl(4) jn by auto
    ultimately have "cardSpan v ?s (Suc ?l)"
      unfolding cardSpan_def using le sl jn cl(2) pn(2,3) by auto
    then show "\<exists>s e. i \<le> s \<and> s < j \<and> cardSpan v s e" using sl by blast
  next
    assume "\<exists>s e. i \<le> s \<and> s < j \<and> cardSpan v s e"
    then obtain s e where se: "i \<le> s" "s < j" "cardSpan v s e" by blast
    have sp: "s < e" "e \<le> length v" "isAsciiDigitChar (v ! s)" "isAsciiDigitChar (v ! (e - 1))"
      "\<forall>k \<in> {s..<e}. goesOn v k" "length (digitsIn v s e) \<in> {13..19}"
      "s = 0 \<or> \<not> sensitiveWordChar (v ! (s - 1))" "e = length v \<or> \<not> sensitiveWordChar (v ! e)"
      using se(3) unfolding cardSpan_def by auto
    have ej: "e \<le> j" using cl(3) sp(5) se(2) by (metis atLeastLessThan_iff less_imp_le not_le)
    let ?p = "length (digitsIn v i s)" and ?n = "length (digitsIn v s e)"
    have at: "?D ! ?p = s" "?p < length ?D" using ordinal_at [OF se(1,2) sp(3)] by auto
    have l: "?D ! length (digitsIn v i (e - 1)) = e - 1" "length (digitsIn v i (e - 1)) < length ?D"
      using ordinal_at [of i "e - 1" j v] se sp(1,4) ej by auto
    have pn: "length (digitsIn v i (e - 1)) = ?p + ?n - 1"
      using digitsIn_split [of i s "e - 1" v] digitsIn_last [of s e v] se(1) sp(1,4) by simp
    have "?p = 0 \<and> (i = 0 \<or> \<not> sensitiveWordChar (v ! (i - 1))) \<or> 0 < ?p \<and> cardSeparator (v ! (ends ! ?p - 1 - 1))"
    proof (cases "s = i")
      case True
      then show ?thesis using sp(7) by (auto simp: digitsIn_def)
    next
      case False
      with se(1) have lt: "i < s" by simp
      then have "0 < ?p" using digitsIn_first [of i s v] i(2) by simp
      moreover have "s - 1 \<in> {i..<j}" using lt se(2) by auto
      then have "goesOn v (s - 1)" using cl(2) by blast
      moreover have "\<not> isAsciiDigitChar (v ! (s - 1))" using sp(7) word(1) lt by auto
      ultimately show ?thesis using at cl(4) by (simp add: goesOn_def)
    qed
    moreover have "ends ! (?p + ?n - 1) = e"
      using l pn cl(4) sp(1) by simp
    moreover have "?p + ?n \<le> length ends" using l(2) pn cl(4) sp(6) by auto
    ultimately show "cardCandidate v (i = 0 \<or> \<not> sensitiveWordChar (v ! (i - 1))) ends"
      unfolding cardCandidate_iff using sp(6,8) by (intro exI [of _ ?p] exI [of _ ?n]) auto
  qed
qed


lemma scanCards_iff:
  "i0 = 0 \<or> \<not> goesOn v i0 \<or> length v \<le> i0 \<Longrightarrow> scanCards v i0 \<longleftrightarrow> (\<exists>s e. i0 \<le> s \<and> cardSpan v s e)"
proof (induction v i0 rule: scanCards.induct)
  case (1 v i0)
  let ?i = "runEnd (\<lambda>c. \<not> isAsciiDigitChar c) v i0"
  have before: "\<not> isAsciiDigitChar (v ! k)" if "i0 \<le> k" "k < ?i" for k
  proof -
    have "k - i0 < length (takeWhile (\<lambda>c. \<not> isAsciiDigitChar c) (drop i0 v))"
      using that by (simp add: runEnd_takeWhile)
    then have "\<not> isAsciiDigitChar (drop i0 v ! (k - i0))"
      using nth_mem set_takeWhileD takeWhile_nth by metis
    then show ?thesis
      using that length_takeWhile_le [of "\<lambda>c. \<not> isAsciiDigitChar c" "drop i0 v"]
        \<open>k - i0 < _\<close> by simp
  qed
  have skip: "?i \<le> s" if "i0 \<le> s" "cardSpan v s e" for s e
    using before [OF that(1)] that(2) by (auto simp: cardSpan_def not_le [symmetric])
  show ?case
  proof (cases "length v \<le> ?i")
    case True
    then have "\<not> scanCards v i0" by (subst scanCards.simps) simp
    moreover have "\<not> cardSpan v s e" if "i0 \<le> s" for s e
    proof
      assume sp: "cardSpan v s e"
      then have "s < length v" by (simp only: cardSpan_def) simp
      with skip [OF that sp] True show False by simp
    qed
    ultimately show ?thesis by blast
  next
    case False
    obtain j ends where c: "cardCluster v ?i [] = (j, ends)" by (cases "cardCluster v ?i []")
    have dig: "?i < length v" "isAsciiDigitChar (v ! ?i)"
      using False runEnd_stop [of "\<lambda>c. \<not> isAsciiDigitChar c" v i0] by auto
    have pre: "?i = 0 \<or> \<not> isAsciiDigitChar (v ! (?i - 1))"
    proof (cases "i0 < ?i")
      case True
      then show ?thesis using before [of "?i - 1"] by simp
    next
      case False
      then have "?i = i0" using runEnd_le [of i0 "\<lambda>c. \<not> isAsciiDigitChar c" v] by simp
      with 1(2) dig show ?thesis by (auto simp: goesOn_def)
    qed
    let ?cand = "cardCandidate v (?i = 0 \<or> \<not> sensitiveWordChar (v ! (?i - 1))) ends"
    have unf: "scanCards v i0 \<longleftrightarrow> ?cand \<or> scanCards v j"
      using False c by (subst scanCards.simps) (simp add: Let_def)
    have j: "?i \<le> j" "\<not> goesOn v j" using cardCluster_spec [OF c] by auto
    have "scanCards v j \<longleftrightarrow> (\<exists>s e. j \<le> s \<and> cardSpan v s e)" if "\<not> ?cand"
      using 1(1) [OF refl False c [symmetric] refl refl] that j(2) by blast
    moreover have "?cand \<longleftrightarrow> (\<exists>s e. ?i \<le> s \<and> s < j \<and> cardSpan v s e)"
      by (rule candidate_span [OF c dig pre])
    moreover have "i0 \<le> ?i" by (rule runEnd_le)
    ultimately show ?thesis
      using unf skip j(1) by (meson le_trans not_le)
  qed
qed

lemma containsCardLikeRun_iff: "containsCardLikeRun v \<longleftrightarrow> (\<exists>s e. cardSpan v s e)"
  by (simp add: containsCardLikeRun_def scanCards_iff)


subsection \<open>The gate\<close>

definition tokenDotChar :: "nat \<Rightarrow> bool" where
  "tokenDotChar c \<longleftrightarrow> isAlnum c \<or> c = 46 \<or> c = 95 \<or> c = 126 \<or> c = 43 \<or> c = 47 \<or> c = 45"

definition JWT_RE :: re where
  "JWT_RE = (let part = AtLeast 8 (Chs (\<lambda>c. isAlnum c \<or> c = 95 \<or> c = 45)) in
     seqs [Lit (js ''eyJ''), part, Lit [46], part, Lit [46], part])"

definition BEARER_RE :: re where
  "BEARER_RE = seqs [LitI (js ''bearer''), Plus Ws, AtLeast 12 (Chs tokenDotChar)]"

definition sensitiveHint :: "jstr \<Rightarrow> bool" where
  "sensitiveHint fieldHint =
     (let hint = toLower fieldHint in
      includesStr hint (js ''password'') \<or> includesStr hint (js ''passwd'') \<or> hint = js ''pwd''
      \<or> includesStr hint (js ''card'') \<or> includesStr hint (js ''cvv'') \<or> includesStr hint (js ''cvc'')
      \<or> includesStr hint (js ''secret'') \<or> includesStr hint (js ''token'') \<or> includesStr hint (js ''bearer'')
      \<or> includesStr hint (js ''authorization'') \<or> includesStr hint (js ''cookie'')
      \<or> includesStr hint (js ''api_key'') \<or> includesStr hint (js ''apikey''))"

definition looksSensitiveValue :: "jstr \<Rightarrow> jstr \<Rightarrow> bool" where
  "looksSensitiveValue v fieldHint =
     (if sensitiveHint fieldHint then True
      else if includesStr v (js ''[REDACTED]'') \<or> includesStr v [65533] then True
      else if test JWT_RE v then True
      else if test BEARER_RE v then True
      else if containsLongTokenLikeSecret v then True
      else let digits = filter isAsciiDigit v in
        if 13 \<le> length digits \<and> length digits \<le> 19 \<and> containsCardLikeRun v then True else False)"

text \<open>
  C38: The gate for values written into generated tests flags a value exactly when one of the
  documented patterns is in it: a sensitive field name, a redaction mark, a JWT, a bearer
  credential, a named secret token at any position (however the text splits into name, white
  space, separator and token), or a bounded run of 13 to 19 digits joined by single separators.
  Both linear scanners skip ahead after a failed candidate and never skip a match.
\<close>

theorem sensitive_gate_is_pattern_search:
  "looksSensitiveValue v hint \<longleftrightarrow>
     sensitiveHint hint \<or> (\<exists>a b. v = a @ js ''[REDACTED]'' @ b) \<or> (\<exists>a b. v = a @ [65533] @ b)
     \<or> test JWT_RE v \<or> test BEARER_RE v
     \<or> (\<exists>a s. v = a @ s \<and> secretHere s)
     \<or> length (filter isAsciiDigit v) \<in> {13..19} \<and> (\<exists>s e. cardSpan v s e)"
  unfolding looksSensitiveValue_def includesStr_iff containsLongTokenLikeSecret_iff containsCardLikeRun_iff Let_def
  by auto

text \<open>
  The count of digits is taken over the whole value: a card number followed by an expiry date has
  more than 19 digits and passes the gate.
\<close>

lemma secretHere_letter: "secretHere s \<Longrightarrow> \<exists>c \<in> set s. isAsciiLetter c"
proof -
  assume "secretHere s"
  then obtain p r where p: "s = p @ r" "map toLowerAscii p \<in> set secretPrefixes"
    unfolding secretHere_def by metis
  have "\<exists>c \<in> set w. isAsciiLetter c" if "w \<in> set secretPrefixes" for w
    using that by (auto simp: secretPrefixes_def js_eval isAsciiLetter_def toLowerAscii_def)
  then obtain c where "c \<in> set p" "isAsciiLetter (toLowerAscii c)" using p(2) by fastforce
  then show ?thesis using p(1)
    by (intro bexI [of _ c]) (auto simp: isAsciiLetter_def toLowerAscii_def Let_def split: if_splits)
qed

lemma digits_text_passes:
  assumes "\<forall>c \<in> set v. isAsciiDigit c \<or> c = 32 \<or> c = 47 \<or> c = 45" "19 < length (filter isAsciiDigit v)"
    "\<not> sensitiveHint hint"
  shows "\<not> looksSensitiveValue v hint"
proof -
  have no: "c \<notin> set v" if "c > 57" for c using that assms(1) by (auto simp: isAsciiDigit_def)
  have "needs JWT_RE {101}"
    by (simp add: JWT_RE_def Let_def needs_seqs js_eval)
  then have "\<not> test JWT_RE v" using needs_no_test [of JWT_RE "{101}" v "[]"] no by (auto simp: test_def)
  moreover have "needs BEARER_RE {98, 66}"
    by (auto simp: BEARER_RE_def Let_def needs_seqs js_eval foldCase_def isUpper_def split: if_splits)
  then have "\<not> test BEARER_RE v"
    using needs_no_test [of BEARER_RE "{98, 66}" v "[]"] no by (auto simp: test_def)
  moreover have "\<not> isAsciiLetter c" if "c \<in> set v" for c
    using assms(1) that by (auto simp: isAsciiDigit_def isAsciiLetter_def toLowerAscii_def Let_def split: if_splits)
  then have "\<not> containsLongTokenLikeSecret v"
    unfolding containsLongTokenLikeSecret_iff using secretHere_letter by fastforce
  moreover have "\<not> includesStr v (js ''[REDACTED]'')" "\<not> includesStr v [65533]"
    using no [of 91] no [of 65533] by (auto simp: includesStr_iff js_eval)
  ultimately show ?thesis using assms(2,3) by (simp add: looksSensitiveValue_def)
qed

lemma card_with_expiry_passes:
  "\<not> looksSensitiveValue (js ''4111 1111 1111 1111 12/2030'') (js ''note'')"
  by (rule digits_text_passes)
    (simp_all add: js_eval isAsciiDigit_def sensitiveHint_def toLower_def lowerUnit_def isUpper_def)

end
