(* ===== verification/ReproPlan.thy ===== *)
theory ReproPlan
  imports Routes Locators CardScan
begin

text \<open>
  The reproduction plan (\<open>packages/reproducer/src/plan.ts\<close>, \<open>normalize.ts\<close>, \<open>types.ts\<close>): from
  sanitized evidence to a bounded list of actions, diagnostics and one assertion. The loop over
  the timeline is a fold of one step over a record of its local variables. The set
  \<open>embeddedSignatures\<close> is written and never read by the source; it has no part here. The text of a
  number is the platform's.
\<close>

subsection \<open>Evidence and plans (types.ts)\<close>

record TimelineEvidenceItem =
  te_sequenceNumber :: nat
  te_occurredAt :: jstr
  te_id :: jstr
  te_eventType :: jstr
  te_pageUrl :: "jstr option"
  te_payload :: "(jstr \<times> json) list"

datatype ReproducibleFailureKind = failException | failUnhandledRejection | failNetwork | failConsoleError

text \<open>The status is \<open>undefined\<close>, \<open>null\<close> or a number.\<close>

record FailureEvidence =
  fe_kind :: ReproducibleFailureKind
  fe_expectedType :: "jstr option"
  fe_expectedMessage :: "jstr option"
  fe_method :: "jstr option"
  fe_url :: "jstr option"
  fe_statusCode :: "rat option option"
  fe_failureCategory :: "jstr option"

record GenerationInput =
  gi_issueId :: jstr
  gi_issueTitle :: jstr
  gi_occurrenceEventId :: jstr
  gi_environment :: jstr
  gi_release :: "jstr option"
  gi_baseUrl :: jstr
  gi_timeline :: "TimelineEvidenceItem list"
  gi_failure :: FailureEvidence

datatype ReproductionAction =
    Navigate jstr
  | Click jstr jstr bool "jstr option"
  | Fill jstr jstr "jstr option" bool "jstr option"
  | ExpectUrl jstr

datatype ReproductionAssertion =
    AssertPageError "jstr option" "jstr option"
  | AssertNetwork jstr jstr "rat option option" "jstr option"
  | AssertConsole "jstr option"

record ReproductionPlan =
  rp_issueId :: jstr
  rp_issueTitle :: jstr
  rp_occurrenceEventId :: jstr
  rp_environment :: jstr
  rp_release :: "jstr option"
  rp_baseUrl :: jstr
  rp_startRoute :: jstr
  rp_actions :: "ReproductionAction list"
  rp_diagnostics :: "jstr list"
  rp_assertion :: ReproductionAssertion
  rp_warnings :: "jstr list"
  rp_hasRedactedSteps :: bool

definition MAX_TIMELINE_ITEMS :: nat where "MAX_TIMELINE_ITEMS = 50"
definition MAX_ACTIONS :: nat where "MAX_ACTIONS = 40"

subsection \<open>Reading payloads\<close>

definition prop_of :: "(jstr \<times> json) list \<Rightarrow> string \<Rightarrow> json option" where
  "prop_of p k = map_of p (js k)"

definition asString :: "json option \<Rightarrow> jstr option" where
  "asString v = (case v of Some (JStr s) \<Rightarrow> Some s | _ \<Rightarrow> None)"

definition orElse :: "'a option \<Rightarrow> 'a option \<Rightarrow> 'a option" where
  "orElse a b = (case a of Some x \<Rightarrow> Some x | None \<Rightarrow> b)"

text \<open>\<open>a ?? b\<close> on JSON values: \<open>null\<close> is passed over too.\<close>

definition nullishJson :: "json option \<Rightarrow> json option \<Rightarrow> json option" where
  "nullishJson a b = (if a = None \<or> a = Some JNull then b else a)"

fun candidatesOf :: "json list \<Rightarrow> LocatorCandidate list" where
  "candidatesOf [] = []"
| "candidatesOf (item # items) =
     (case (asString (getProp item (js ''type'')), asString (getProp item (js ''value'')), getProp item (js ''confidence'')) of
        (Some type, Some v, Some (JNum conf)) \<Rightarrow>
          \<lparr>lc_type = type, lc_value = v, lc_confidence = conf\<rparr> # candidatesOf items
      | _ \<Rightarrow> candidatesOf items)"

definition asCandidates :: "json option \<Rightarrow> LocatorCandidate list" where
  "asCandidates v = (case v of Some (JArr items) \<Rightarrow> take 5 (candidatesOf items) | _ \<Rightarrow> [])"

definition stringOfOpt :: "(rat \<Rightarrow> jstr) \<Rightarrow> json option \<Rightarrow> jstr" where
  "stringOfOpt numText v = (case v of None \<Rightarrow> js ''undefined'' | Some j \<Rightarrow> stringOf numText j)"

definition keyPart :: "(rat \<Rightarrow> jstr) \<Rightarrow> (jstr \<times> json) list \<Rightarrow> string \<Rightarrow> jstr list" where
  "keyPart numText p k =
     (case prop_of p k of
        Some (JStr s) \<Rightarrow> [js k @ [61] @ s]
      | Some (JNum q) \<Rightarrow> [js k @ [61] @ numText q]
      | _ \<Rightarrow> [])"

definition breadcrumbKey :: "(rat \<Rightarrow> jstr) \<Rightarrow> TimelineEvidenceItem \<Rightarrow> jstr" where
  "breadcrumbKey numText item =
     (let p = te_payload item;
          fields = concat (map (keyPart numText p) [''to_url'', ''from_url'', ''url'', ''method'', ''status_code'']);
          loc = (case prop_of p ''locator_candidates'' of
                   Some (JArr cs) \<Rightarrow>
                     [js ''loc='' @ join [124] (sort (map (\<lambda>c. stringOfOpt numText (getProp c (js ''type'')) @ [58]
                        @ stringOfOpt numText (getProp c (js ''value''))) (filter isRecord cs)))]
                 | _ \<Rightarrow> []);
          iname = (case asString (nullishJson (prop_of p ''input_name'') (prop_of p ''input_id'')) of
                     Some s \<Rightarrow> [js ''in='' @ s] | None \<Rightarrow> [])
      in join [59] ([te_eventType item, showNat (te_sequenceNumber item)] @ fields @ loc @ iname))"

subsection \<open>normalize.ts\<close>

definition OBSERVED_UUID :: re where
  "OBSERVED_UUID = seqs [Rep 8 (Chs isHexAnyCase), Lit [45], Rep 4 (Chs isHexAnyCase), Lit [45],
     Rep 4 (Chs isHexAnyCase), Lit [45], Rep 4 (Chs isHexAnyCase), Lit [45], Rep 12 (Chs isHexAnyCase)]"

definition OBSERVED_TIME :: re where
  "OBSERVED_TIME = seqs [Rep 4 Digit, Lit [45], Rep 2 Digit, Lit [45], Rep 2 Digit, Lit [84], Rep 2 Digit,
     Lit [58], Rep 2 Digit, Lit [58], Rep 2 Digit, Opt (Sq (Lit [46]) (Plus Digit)), Opt (Lit [90])]"

definition normalizeObservedMessage :: "jstr \<Rightarrow> jstr" where
  "normalizeObservedMessage v =
     (let o1 = replaceAll OBSERVED_UUID (\<lambda>_ _. js '':id'') v;
          o2 = replaceAll (seqs [WordB, Between 16 64 (Chs isHexAnyCase), WordB]) (\<lambda>_ _. js '':id'') o1;
          o3 = replaceAll (seqs [WordB, AtLeast 6 Digit, WordB]) (\<lambda>_ _. js '':id'') o2;
          o4 = replaceAll OBSERVED_TIME (\<lambda>_ _. js '':time'') o3;
          o5 = replaceAll (Sq (Lit [63]) (Star (Chs (\<lambda>c. \<not> (isWs c \<or> c = 39 \<or> c = 34))))) (\<lambda>_ _. [63, 8230]) o4;
          o6 = replaceAll (Sq (LitI (js ''0x'')) (Plus (Chs isHexAnyCase))) (\<lambda>_ _. js '':addr'') o5
      in take 2000 (trim (replaceAll (Plus Ws) (\<lambda>_ _. [32]) o6)))"

subsection \<open>Locators of inputs, diagnostics, the assertion\<close>

definition ID_UUID_RE :: re where
  "ID_UUID_RE = seqs [InputStart, Rep 8 (Chs isHexAnyCase), Lit [45], Rep 4 (Chs isHexAnyCase), Lit [45]]"

definition idLocator :: "(jstr \<times> json) list \<Rightarrow> (jstr \<times> jstr) option" where
  "idLocator p =
     (case asString (prop_of p ''input_id'') of
        None \<Rightarrow> None
      | Some ident \<Rightarrow>
          if ident \<noteq> [] \<and> \<not> list_ex quoteOrSpace ident then
            (if test ID_UUID_RE ident \<or> test LONG_NUMERIC_RE ident then None
             else Some (call1 (js ''page.locator'') (35 # ident), js ''id''))
          else None)"

definition nameLocator :: "(jstr \<times> json) list \<Rightarrow> (jstr \<times> jstr) option" where
  "nameLocator p =
     (case asString (prop_of p ''input_name'') of
        None \<Rightarrow> None
      | Some name \<Rightarrow>
          if name \<noteq> [] \<and> \<not> list_ex quoteOrSpace name
          then Some (call1 (js ''page.locator'') (nameAttrOpen @ escapeAttr name @ [34, 93]), js ''name'')
          else None)"

definition deriveInputLocator :: "(jstr \<times> json) list \<Rightarrow> (jstr \<times> jstr) option" where
  "deriveInputLocator p =
     (case idLocator p of
        Some l \<Rightarrow> Some l
      | None \<Rightarrow>
          (case nameLocator p of
             Some l \<Rightarrow> Some l
           | None \<Rightarrow>
               (let candidates = asCandidates (prop_of p ''locator_candidates'') in
                if 0 < length candidates
                then (case selectLocator candidates of
                        Some sel \<Rightarrow> Some (sl_expression sel, sl_strategy sel) | None \<Rightarrow> None)
                else None)))"

definition peekInputLocatorKey :: "(jstr \<times> json) list \<Rightarrow> jstr option" where
  "peekInputLocatorKey p = map_option fst (deriveInputLocator p)"

definition diagnosticComment ::
    "(jstr \<Rightarrow> urlParts option) \<Rightarrow> (rat \<Rightarrow> jstr) \<Rightarrow> TimelineEvidenceItem \<Rightarrow> jstr option" where
  "diagnosticComment newURL numText item =
     (let p = te_payload item; t = te_eventType item in
      if t = js ''network'' then
        (let method = (case asString (prop_of p ''method'') of Some m \<Rightarrow> m | None \<Rightarrow> js ''GET'');
             url = (case asString (prop_of p ''url'') of Some u \<Rightarrow> u | None \<Rightarrow> []);
             route = (if url \<noteq> [] then sanitizeRoute newURL url else None);
             shown = (case route of Some r \<Rightarrow> r | None \<Rightarrow> safeCommentFragment (take 160 url) 160)
         in Some (js ''ReplayBug observed a failed '' @ safeCommentFragment method 16 @ [32] @ shown @ [32, 8594, 32]
              @ (case prop_of p ''status_code'' of Some (JNum q) \<Rightarrow> numText q | _ \<Rightarrow> js ''network error'') @ [46]))
      else if t = js ''console'' \<or> t = js ''console_error'' then
        (let args = (case prop_of p ''args'' of Some (JArr xs) \<Rightarrow> take 2 (filter isJStr xs) | _ \<Rightarrow> []);
             first = (case args of a # _ \<Rightarrow> take 160 (normalizeObservedMessage (strOf a)) | [] \<Rightarrow> js ''console error'')
         in Some (js ''ReplayBug observed console error before the failure: '' @ safeCommentFragment first 160 @ [46]))
      else if t = js ''custom_breadcrumb'' \<or> t = js ''message'' \<or> t = js ''sdk'' then
        (let msg = (case orElse (asString (prop_of p ''message'')) (asString (prop_of p ''category'')) of
                      Some m \<Rightarrow> m | None \<Rightarrow> t)
         in Some (js ''ReplayBug observed '' @ safeCommentFragment msg 160 @ [46]))
      else None)"

definition textOr :: "jstr \<Rightarrow> jstr option \<Rightarrow> jstr" where
  "textOr d v = (case v of Some s \<Rightarrow> s | None \<Rightarrow> d)"

definition normalizeRouteForAssertion :: "(jstr \<Rightarrow> urlParts option) \<Rightarrow> jstr \<Rightarrow> jstr option" where
  "normalizeRouteForAssertion newURL url = map_option withoutQuery (sanitizeRoute newURL url)"

definition toAssertion :: "(jstr \<Rightarrow> urlParts option) \<Rightarrow> FailureEvidence \<Rightarrow> ReproductionError + ReproductionAssertion" where
  "toAssertion newURL failure =
     (let err = reproductionError REPRODUCTION_UNSUPPORTED_FAILURE in
      case fe_kind failure of
        failConsoleError \<Rightarrow>
          (if textOr [] (fe_expectedMessage failure) = []
           then Inl (err ''Console failure has no assertable text.'')
           else Inr (AssertConsole (fe_expectedMessage failure)))
      | failNetwork \<Rightarrow>
          (if textOr [] (fe_method failure) = [] \<or> textOr [] (fe_url failure) = []
           then Inl (err ''Network failure lacks method or URL.'')
           else case normalizeRouteForAssertion newURL (textOr [] (fe_url failure)) of
             None \<Rightarrow> Inl (err ''Network failure URL is not assertable.'')
           | Some route \<Rightarrow>
               if fe_statusCode failure = Some None \<and> textOr [] (fe_failureCategory failure) = []
               then Inl (err ''Network error without status is not deterministically observable.'')
               else Inr (AssertNetwork (textOr (js ''GET'') (fe_method failure)) route
                           (fe_statusCode failure) (fe_failureCategory failure)))
      | _ \<Rightarrow>
          (if textOr [] (fe_expectedMessage failure) = [] \<and> textOr [] (fe_expectedType failure) = []
           then Inl (err ''Failure evidence has no assertable message or type.'')
           else Inr (AssertPageError (fe_expectedType failure) (fe_expectedMessage failure))))"


subsection \<open>The loop over the timeline\<close>

text \<open>The local variables of \<open>buildReproductionPlan\<close> that the loop writes.\<close>

record planState =
  ps_seen :: "jstr list"
  ps_diagnostics :: "jstr list"
  ps_warnings :: "jstr list"
  ps_actions :: "ReproductionAction list"
  ps_noLocatorRedacted :: bool
  ps_startRoute :: "jstr option"
  ps_lastClickIndex :: int

definition planStart :: planState where
  "planStart = \<lparr>ps_seen = [], ps_diagnostics = [], ps_warnings = [], ps_actions = [],
     ps_noLocatorRedacted = False, ps_startRoute = None, ps_lastClickIndex = - 1\<rparr>"

definition diagnose :: "string \<Rightarrow> planState \<Rightarrow> planState" where
  "diagnose m st = st\<lparr>ps_diagnostics := ps_diagnostics st @ [js m]\<rparr>"

definition warn :: "jstr \<Rightarrow> planState \<Rightarrow> planState" where
  "warn m st = st\<lparr>ps_warnings := ps_warnings st @ [m]\<rparr>"

definition pushAction :: "ReproductionAction \<Rightarrow> planState \<Rightarrow> planState" where
  "pushAction a st = st\<lparr>ps_actions := ps_actions st @ [a]\<rparr>"

definition collapseFill :: "TimelineEvidenceItem \<Rightarrow> planState \<Rightarrow> planState" where
  "collapseFill item st =
     (if te_eventType item = js ''input'' \<and> ps_actions st \<noteq> [] then
        (case (peekInputLocatorKey (te_payload item), last (ps_actions st)) of
           (Some probe, Fill e _ _ _ _) \<Rightarrow>
             if e = probe then st\<lparr>ps_actions := butlast (ps_actions st)\<rparr> else st
         | _ \<Rightarrow> st)
      else st)"

definition navigationStep :: "(jstr \<Rightarrow> urlParts option) \<Rightarrow> TimelineEvidenceItem \<Rightarrow> nat \<Rightarrow> planState \<Rightarrow> planState" where
  "navigationStep newURL item index st =
     (case asString (prop_of (te_payload item) ''to_url'') of
        None \<Rightarrow> diagnose ''ReplayBug observed a navigation without a target.'' st
      | Some toUrl \<Rightarrow>
          (case sanitizeRoute newURL toUrl of
             None \<Rightarrow> diagnose ''ReplayBug observed a navigation target that could not be safely reproduced.''
                       (warn (js ''Unsafe navigation target omitted: '' @ safeCommentFragment toUrl 120) st)
           | Some route \<Rightarrow>
               if ps_startRoute st = None then st\<lparr>ps_startRoute := Some route\<rparr>
               else if ps_lastClickIndex st = int (length (ps_actions st)) - 1 \<and> 0 < index
               then pushAction (ExpectUrl route) st
               else pushAction (Navigate route) st))"

definition clickStep :: "TimelineEvidenceItem \<Rightarrow> planState \<Rightarrow> planState" where
  "clickStep item st =
     (case selectLocator (asCandidates (prop_of (te_payload item) ''locator_candidates'')) of
        None \<Rightarrow> warn (js ''Click without usable locator skipped.'')
                  (diagnose ''ReplayBug observed a click without a usable locator; manual selection is required.'' st)
      | Some l \<Rightarrow>
          (let label = orElse (asString (prop_of (te_payload item) ''accessible_name''))
                         (asString (prop_of (te_payload item) ''route''));
               st1 = (if sl_brittle l
                      then warn (js ''Brittle locator used for click: '' @ safeCommentFragment (sl_expression l) 160) st
                      else st);
               st2 = pushAction (Click (sl_expression l) (sl_strategy l) (sl_brittle l) label) st1
           in st2\<lparr>ps_lastClickIndex := int (length (ps_actions st2)) - 1\<rparr>))"

definition inputStep :: "TimelineEvidenceItem \<Rightarrow> planState \<Rightarrow> planState" where
  "inputStep item st =
     (let p = te_payload item;
          inputName = orElse (asString (prop_of p ''input_name'')) (asString (prop_of p ''input_id''));
          hasValue = (prop_of p ''has_value'' = Some (JBool True));
          rawValue = asString (prop_of p ''value'')
      in case deriveInputLocator p of
           None \<Rightarrow>
             warn (js ''Input without locator requires manual intervention.'')
               (diagnose ''ReplayBug observed an input without a stable locator; fill it manually with a test value.''
                  (if hasValue \<or> rawValue \<noteq> None then st\<lparr>ps_noLocatorRedacted := True\<rparr> else st))
         | Some (e, s) \<Rightarrow>
             (case rawValue of
                Some v \<Rightarrow>
                  if \<not> looksSensitiveValue v (textOr [] inputName)
                  then pushAction (Fill e s (Some v) False inputName) st
                  else pushAction (Fill e s None True inputName) st
              | None \<Rightarrow> pushAction (Fill e s None True inputName) st))"

definition planStep ::
    "(jstr \<Rightarrow> urlParts option) \<Rightarrow> (rat \<Rightarrow> jstr) \<Rightarrow> planState \<Rightarrow> nat \<times> TimelineEvidenceItem \<Rightarrow> planState" where
  "planStep newURL numText st entry =
     (let index = fst entry; item = snd entry; key = breadcrumbKey numText item in
      if key \<in> set (ps_seen st) then st
      else let st1 = collapseFill item st;
               st2 = st1\<lparr>ps_seen := ps_seen st1 @ [key]\<rparr>
           in if te_eventType item = js ''navigation'' then navigationStep newURL item index st2
              else if te_eventType item = js ''click'' then clickStep item st2
              else if te_eventType item = js ''input'' then inputStep item st2
              else case diagnosticComment newURL numText item of
                     Some d \<Rightarrow> st2\<lparr>ps_diagnostics := ps_diagnostics st2 @ [d]\<rparr>
                   | None \<Rightarrow> st2)"

subsection \<open>The plan\<close>

definition evidenceOrder :: "TimelineEvidenceItem \<Rightarrow> nat \<times> jstr \<times> jstr" where
  "evidenceOrder e = (te_sequenceNumber e, te_occurredAt e, te_id e)"

definition isNavigation :: "TimelineEvidenceItem \<Rightarrow> bool" where
  "isNavigation e \<longleftrightarrow> te_eventType e = js ''navigation''"

definition windowOf :: "TimelineEvidenceItem list \<Rightarrow> TimelineEvidenceItem list" where
  "windowOf ordered =
     (let windowed = lastn MAX_TIMELINE_ITEMS ordered;
          earlier = take (length ordered - length windowed) ordered;
          prefixNav = (if list_ex isNavigation windowed then None else List.find isNavigation (rev earlier));
          effective = (case prefixNav of Some nav \<Rightarrow> nav # windowed | None \<Rightarrow> windowed)
      in lastn MAX_TIMELINE_ITEMS effective)"

definition redactedFill :: "ReproductionAction \<Rightarrow> bool" where
  "redactedFill a = (case a of Fill _ _ _ hidden _ \<Rightarrow> hidden | _ \<Rightarrow> False)"

text \<open>From the end of the loop to the returned plan.\<close>

definition assemblePlan ::
    "(jstr \<Rightarrow> urlParts option) \<Rightarrow> GenerationInput \<Rightarrow> jstr \<Rightarrow> ReproductionAssertion
      \<Rightarrow> TimelineEvidenceItem list \<Rightarrow> planState \<Rightarrow> ReproductionError + ReproductionPlan" where
  "assemblePlan newURL input origin assertion windowed st =
     (let fallback = (if windowed = [] then None
                      else case te_pageUrl (last windowed) of
                             Some u \<Rightarrow> sanitizeRoute newURL u | None \<Rightarrow> None);
          startRoute = (case ps_startRoute st of Some r \<Rightarrow> r | None \<Rightarrow> textOr [47] fallback);
          diagnostics = (case ps_startRoute st of
                           Some r \<Rightarrow> ps_diagnostics st
                         | None \<Rightarrow> ps_diagnostics st @ [js ''ReplayBug used the occurrence page as the start route.''])
      in if MAX_ACTIONS < length (ps_actions st)
         then Inl (reproductionError REPRODUCTION_INVALID_EVIDENCE ''Timeline produces too many actions.'')
         else Inr \<lparr>rp_issueId = gi_issueId input, rp_issueTitle = gi_issueTitle input,
           rp_occurrenceEventId = gi_occurrenceEventId input, rp_environment = gi_environment input,
           rp_release = gi_release input, rp_baseUrl = origin, rp_startRoute = startRoute,
           rp_actions = take MAX_ACTIONS (ps_actions st), rp_diagnostics = take 20 diagnostics,
           rp_assertion = assertion, rp_warnings = take 20 (ps_warnings st),
           rp_hasRedactedSteps = (ps_noLocatorRedacted st \<or> list_ex redactedFill (ps_actions st))\<rparr>)"

definition buildReproductionPlan ::
    "(jstr \<Rightarrow> urlParts option) \<Rightarrow> (rat \<Rightarrow> jstr) \<Rightarrow> GenerationInput \<Rightarrow> ReproductionError + ReproductionPlan" where
  "buildReproductionPlan newURL numText input =
     (if trim (gi_baseUrl input) = []
      then Inl (reproductionError REPRODUCTION_BASE_URL_REQUIRED
             ''Configure the base URL for this environment before generating a test.'')
      else bindE (validateBaseUrl newURL (gi_baseUrl input)) (\<lambda>origin.
        bindE (toAssertion newURL (gi_failure input)) (\<lambda>assertion.
          let windowed = windowOf (sort_key evidenceOrder (gi_timeline input))
          in assemblePlan newURL input origin assertion windowed
               (foldl (planStep newURL numText) planStart (enumerate 0 windowed)))))"

subsection \<open>What a plan contains\<close>

definition actionOk :: "ReproductionAction \<Rightarrow> bool" where
  "actionOk a =
     (case a of
        Navigate r \<Rightarrow> safeRoute r
      | ExpectUrl r \<Rightarrow> safeRoute r
      | Click e s b l \<Rightarrow> locatorForm s e
      | Fill e s v hidden n \<Rightarrow> locatorForm s e \<and> (hidden \<longleftrightarrow> v = None)
          \<and> (case v of Some x \<Rightarrow> \<not> looksSensitiveValue x (textOr [] n) | None \<Rightarrow> True))"

definition planStateOk :: "planState \<Rightarrow> bool" where
  "planStateOk st \<longleftrightarrow> list_all actionOk (ps_actions st)
     \<and> (case ps_startRoute st of Some r \<Rightarrow> safeRoute r | None \<Rightarrow> True)"

lemma deriveInputLocator_form: "deriveInputLocator p = Some (e, s) \<Longrightarrow> locatorForm s e"
  by (auto simp: deriveInputLocator_def idLocator_def nameLocator_def Let_def locatorForm_def callOf_def js_eval
      split: option.splits if_splits dest!: selectLocator_form [unfolded locatorForm_def])

lemma planStateOk_frame [simp]:
  "planStateOk (st\<lparr>ps_seen := x\<rparr>) = planStateOk st"
  "planStateOk (diagnose m st) = planStateOk st" "planStateOk (warn w st) = planStateOk st"
  "planStateOk (st\<lparr>ps_noLocatorRedacted := b\<rparr>) = planStateOk st"
  "planStateOk (st\<lparr>ps_lastClickIndex := k\<rparr>) = planStateOk st"
  "planStateOk (st\<lparr>ps_diagnostics := ds\<rparr>) = planStateOk st"
  by (simp_all add: planStateOk_def diagnose_def warn_def)

lemma pushAction_ok [simp]: "planStateOk (pushAction a st) \<longleftrightarrow> planStateOk st \<and> actionOk a"
  by (auto simp: planStateOk_def pushAction_def split: option.splits)

lemma collapseFill_keeps [inv_intro]: "planStateOk st \<Longrightarrow> planStateOk (collapseFill item st)"
  by (auto simp: collapseFill_def planStateOk_def list_all_iff
      split: option.splits ReproductionAction.splits dest: in_set_butlastD)

lemma planStateOk_route: "planStateOk st \<Longrightarrow> safeRoute r \<Longrightarrow> planStateOk (st\<lparr>ps_startRoute := Some r\<rparr>)"
  by (simp add: planStateOk_def)

lemma navigationStep_keeps [inv_intro]: "planStateOk st \<Longrightarrow> planStateOk (navigationStep newURL item i st)"
  by (auto simp: navigationStep_def actionOk_def split: option.splits intro!: planStateOk_route dest: sanitizeRoute_safe)

lemma clickStep_keeps [inv_intro]: "planStateOk st \<Longrightarrow> planStateOk (clickStep item st)"
  by (auto simp: clickStep_def Let_def actionOk_def split: option.splits dest: selectLocator_form)

lemma inputStep_keeps [inv_intro]: "planStateOk st \<Longrightarrow> planStateOk (inputStep item st)"
  by (auto simp: inputStep_def Let_def actionOk_def split: option.splits dest: deriveInputLocator_form)

lemma planStep_keeps [inv_intro]: "planStateOk st \<Longrightarrow> planStateOk (planStep newURL numText st entry)"
  by (auto simp: planStep_def Let_def intro!: inv_intro split: option.splits)

lemma foldl_planStep_keeps: "planStateOk st \<Longrightarrow> planStateOk (foldl (planStep newURL numText) st xs)"
  by (induction xs arbitrary: st) (auto intro: planStep_keeps)

lemma planStart_ok: "planStateOk planStart"
  by (simp add: planStart_def planStateOk_def)


text \<open>The earlier navigation is put before a full window and cut off again: the window is the newest items.\<close>

lemma windowOf_newest: "windowOf ordered = lastn MAX_TIMELINE_ITEMS ordered"
proof (cases "length ordered \<le> MAX_TIMELINE_ITEMS")
  case True
  then show ?thesis by (simp add: windowOf_def Let_def split: option.splits)
next
  case False
  then have "length (lastn MAX_TIMELINE_ITEMS ordered) = MAX_TIMELINE_ITEMS" by simp
  then have "lastn MAX_TIMELINE_ITEMS (x # lastn MAX_TIMELINE_ITEMS ordered) = lastn MAX_TIMELINE_ITEMS ordered" for x
    by (simp add: lastn_def)
  then show ?thesis by (simp add: windowOf_def Let_def lastn_lastn split: option.splits)
qed

text \<open>
  A second navigation before any click is taken for the effect of a click: both indexes are
  \<open>-1\<close> as long as there is no action.
\<close>

lemma navigation_without_click_is_expected:
  assumes "ps_actions st = []" "ps_lastClickIndex st = - 1" "ps_startRoute st \<noteq> None" "0 < index"
    "asString (prop_of (te_payload item) ''to_url'') = Some u" "sanitizeRoute newURL u = Some route"
  shows "ps_actions (navigationStep newURL item index st) = [ExpectUrl route]"
  using assms by (simp add: navigationStep_def pushAction_def)

lemma assembled:
  assumes "assemblePlan newURL input origin assertion windowed st = Inr plan" "planStateOk st"
  shows "length (ps_actions st) \<le> MAX_ACTIONS \<and> rp_actions plan = ps_actions st \<and> safeRoute (rp_startRoute plan)
    \<and> rp_assertion plan = assertion \<and> rp_baseUrl plan = origin
    \<and> length (rp_diagnostics plan) \<le> 20 \<and> length (rp_warnings plan) \<le> 20
    \<and> (rp_hasRedactedSteps plan \<longleftrightarrow> ps_noLocatorRedacted st \<or> list_ex redactedFill (ps_actions st))
    \<and> rp_issueId plan = gi_issueId input \<and> rp_occurrenceEventId plan = gi_occurrenceEventId input"
proof -
  define f where "f = (if windowed = [] then None
    else case te_pageUrl (last windowed) of Some u \<Rightarrow> sanitizeRoute newURL u | None \<Rightarrow> None)"
  have "safeRoute (textOr [47] f)"
    using safeRoute_slash sanitizeRoute_safe
    by (auto simp: f_def textOr_def split: option.splits)
  then have "safeRoute (case ps_startRoute st of Some r \<Rightarrow> r | None \<Rightarrow> textOr [47] f)"
    using assms(2) by (auto simp: planStateOk_def split: option.splits)
  then show ?thesis
    using assms(1) unfolding assemblePlan_def f_def [symmetric] Let_def
    by (simp split: if_split_asm) (auto simp: not_less)
qed

lemma planned:
  assumes "buildReproductionPlan newURL numText input = Inr plan"
  obtains st where "planStateOk st"
    "toAssertion newURL (gi_failure input) = Inr (rp_assertion plan)"
    "validateBaseUrl newURL (gi_baseUrl input) = Inr (rp_baseUrl plan)"
    "length (ps_actions st) \<le> MAX_ACTIONS" "rp_actions plan = ps_actions st" "safeRoute (rp_startRoute plan)"
    "length (rp_diagnostics plan) \<le> 20" "length (rp_warnings plan) \<le> 20"
    "rp_hasRedactedSteps plan \<longleftrightarrow> ps_noLocatorRedacted st \<or> list_ex redactedFill (ps_actions st)"
    "rp_issueId plan = gi_issueId input" "rp_occurrenceEventId plan = gi_occurrenceEventId input"
proof -
  define w where "w = windowOf (sort_key evidenceOrder (gi_timeline input))"
  define st where "st = foldl (planStep newURL numText) planStart (enumerate 0 w)"
  have ok: "planStateOk st" unfolding st_def by (rule foldl_planStep_keeps [OF planStart_ok])
  obtain origin assertion where b: "validateBaseUrl newURL (gi_baseUrl input) = Inr origin"
    "toAssertion newURL (gi_failure input) = Inr assertion"
    "assemblePlan newURL input origin assertion w st = Inr plan"
    using assms unfolding buildReproductionPlan_def w_def [symmetric] Let_def st_def [symmetric]
    by (auto simp: bindE_Inr split: if_split_asm)
  show thesis using that [OF ok] assembled [OF b(3) ok] b(1,2) by metis
qed



definition demoUrl :: "jstr \<Rightarrow> urlParts option" where
  "demoUrl s = (if s = js ''https://app.test'' then Some \<lparr>up_protocol = js ''https:'', up_username = [], up_password = [],
     up_hostname = js ''app.test'', up_port = [], up_pathname = [47], up_search = [], up_hash = []\<rparr> else None)"

definition demoItem :: TimelineEvidenceItem where
  "demoItem = \<lparr>te_sequenceNumber = 3, te_occurredAt = js ''2026-01-01T00:00:00Z'', te_id = js ''e1'',
     te_eventType = js ''input'', te_pageUrl = None,
     te_payload = [(js ''input_name'', JStr (js ''password'')), (js ''value'', JStr (js ''hunter2''))]\<rparr>"

definition demoGeneration :: GenerationInput where
  "demoGeneration = \<lparr>gi_issueId = js ''0a'', gi_issueTitle = js ''Boom'', gi_occurrenceEventId = js ''0b'',
     gi_environment = js ''production'', gi_release = None, gi_baseUrl = js ''https://app.test'',
     gi_timeline = [demoItem],
     gi_failure = \<lparr>fe_kind = failException, fe_expectedType = None, fe_expectedMessage = Some (js ''boom''),
       fe_method = None, fe_url = None, fe_statusCode = None, fe_failureCategory = None\<rparr>\<rparr>"

lemma demo_parts:
  "trim (js ''https://app.test'') = js ''https://app.test''"
  "trim (js ''https://app.test'') \<noteq> []"
  "stripControlChars (js ''https://app.test'') = js ''https://app.test''"
  "\<not> list_ex routeControl (js ''https://app.test'')"
  by (simp_all add: js_eval trim_def trimStart_def trimEnd_def isWs_def CONTROL_RE_def UNICODE_SEPARATOR_RE_def
      routeControl_def)

lemma demo_base: "validateBaseUrl demoUrl (js ''https://app.test'') = Inr (js ''https://app.test'')"
proof -
  have "(js ''https://app.test'') \<noteq> []" "length (js ''https://app.test'') = 16" by (simp_all add: js_eval)
  then show ?thesis
    unfolding validateBaseUrl_def demo_parts Let_def
    by (simp add: demo_parts demoUrl_def httpOrHttps_def hasCredentials_def urlHost_def) (simp add: js_eval)
qed

lemma demo_locator:
  "deriveInputLocator (te_payload demoItem) = Some (call1 (js ''page.locator'') (js ''[name='' @ [34] @ js ''password'' @ [34, 93]), js ''name'')"
  by (simp add: demoItem_def deriveInputLocator_def idLocator_def nameLocator_def prop_of_def asString_def js_eval
      quoteOrSpace_def isWs_def nameAttrOpen_def escapeAttr_def replaceUnit_def)

lemma demo_input: "inputStep demoItem st = pushAction
  (Fill (call1 (js ''page.locator'') (js ''[name='' @ [34] @ js ''password'' @ [34, 93])) (js ''name'') None True
     (Some (js ''password''))) st"
proof -
  have v: "asString (prop_of (te_payload demoItem) ''value'') = Some (js ''hunter2'')"
    "orElse (asString (prop_of (te_payload demoItem) ''input_name'')) (asString (prop_of (te_payload demoItem) ''input_id''))
      = Some (js ''password'')"
    by (simp_all add: demoItem_def prop_of_def asString_def orElse_def js_eval)
  have "sensitiveHint (js ''password'')"
    by (simp add: sensitiveHint_def js_eval toLower_def lowerUnit_def isUpper_def)
  then have "looksSensitiveValue (js ''hunter2'') (js ''password'')" by (simp add: looksSensitiveValue_def)
  then show ?thesis by (simp add: inputStep_def Let_def demo_locator v textOr_def)
qed

lemma demo_plan:
  "\<exists>plan. buildReproductionPlan demoUrl (\<lambda>q. []) demoGeneration = Inr plan
     \<and> length (rp_actions plan) = 1 \<and> list_ex redactedFill (rp_actions plan)"
proof -
  have t: "te_eventType demoItem = js ''input''" "js ''input'' \<noteq> js ''navigation''" "js ''input'' \<noteq> js ''click''"
    by (simp_all add: demoItem_def js_eval)
  have w: "windowOf [demoItem] = [demoItem]"
    by (simp add: windowOf_newest lastn_def MAX_TIMELINE_ITEMS_def)
  have a: "toAssertion demoUrl (gi_failure demoGeneration) = Inr (AssertPageError None (Some (js ''boom'')))"
    by (simp add: demoGeneration_def toAssertion_def Let_def textOr_def js_eval)
  obtain st where st: "foldl (planStep demoUrl (\<lambda>q. [])) planStart (enumerate 0 [demoItem]) = st"
    "length (ps_actions st) = 1" "list_ex redactedFill (ps_actions st)"
    by (simp add: planStep_def Let_def t demo_input planStart_def collapseFill_def pushAction_def redactedFill_def)
  show ?thesis
    using st a demo_base demo_parts(2)
    by (simp add: buildReproductionPlan_def demoGeneration_def w assemblePlan_def Let_def MAX_ACTIONS_def)
qed


end
