(* ===== verification/ReproRender.thy ===== *)
theory ReproRender
  imports ReproPlan
begin

text \<open>
  The text of a generated test (\<open>packages/reproducer/src/render.ts\<close>). A template literal of the
  source is a list of pieces: fixed text, a quoted word of the source, a literal made by
  \<open>tsSingleQuoteLiteral\<close> and the expression of a locator. The theorems say that evidence cannot
  leave its literal or its comment: it adds no line and does not change the code around it.
\<close>

subsection \<open>Lines\<close>

datatype piece = Fixed jstr | Quoted jstr | Telemetry jstr | Locator jstr jstr

datatype testLine = Code "piece list" | Comment jstr jstr

fun pieceText :: "piece \<Rightarrow> jstr" where
  "pieceText (Fixed k) = k"
| "pieceText (Quoted w) = 39 # w @ [39]"
| "pieceText (Telemetry v) = tsSingleQuoteLiteral v"
| "pieceText (Locator s e) = e"

fun lineText :: "testLine \<Rightarrow> jstr" where
  "lineText (Code ps) = concat (map pieceText ps)"
| "lineText (Comment indent c) = indent @ js ''// '' @ c"

record GeneratedReproduction =
  gr_code :: jstr
  gr_hasRedactedSteps :: bool
  gr_warnings :: "jstr list"

definition MAX_CODE_BYTES :: nat where "MAX_CODE_BYTES = 256 * 1024"

definition REPRODUCTION_GENERATOR_VERSION :: jstr where "REPRODUCTION_GENERATOR_VERSION = js ''1.0.0''"

definition shortId :: "jstr \<Rightarrow> jstr" where "shortId i = take 8 i"

definition testTitle :: "jstr \<Rightarrow> jstr \<Rightarrow> jstr" where
  "testTitle issueId issueTitle =
     (let clean = take 80 (trim (collapseWs issueTitle)) in
      js ''ReplayBug issue '' @ shortId issueId @ [32, 8212, 32] @ (if clean = [] then js ''reproduction'' else clean))"

definition helperLines :: "jstr list" where
  "helperLines =
     [js ''function normalizeObservedMessage(value: string): string {'',
      js ''  return value'',
      js ''    .replace(/[0-9a-f]{8}-[0-9a-f]{4}-[0-9a-f]{4}-[0-9a-f]{4}-[0-9a-f]{12}/gi, '' @ [39] @ js '':id'' @ [39] @ js '')'',
      js ''    .replace(/'' @ [92] @ js ''b[0-9a-f]{16,64}'' @ [92] @ js ''b/gi, '' @ [39] @ js '':id'' @ [39] @ js '')'',
      js ''    .replace(/'' @ [92] @ js ''b'' @ [92] @ js ''d{6,}'' @ [92] @ js ''b/g, '' @ [39] @ js '':id'' @ [39] @ js '')'',
      js ''    .replace(/'' @ [92] @ js ''d{4}-'' @ [92] @ js ''d{2}-'' @ [92] @ js ''d{2}T'' @ [92] @ js ''d{2}:'' @ [92] @ js ''d{2}:'' @ [92] @ js ''d{2}(?:'' @ [92] @ js ''.'' @ [92] @ js ''d+)?Z?/g, '' @ [39] @ js '':time'' @ [39] @ js '')'',
      js ''    .replace(/'' @ [92] @ js ''?[^'' @ [92] @ js ''s'' @ [39, 34] @ js '']*/g, '' @ [39] @ js ''?'' @ [8230, 39] @ js '')'',
      js ''    .replace(/0x[0-9a-f]+/gi, '' @ [39] @ js '':addr'' @ [39] @ js '')'',
      js ''    .replace(/'' @ [92] @ js ''s+/g, '' @ [39] @ js '' '' @ [39] @ js '')'',
      js ''    .trim()'',
      js ''    .slice(0, 2000);'',
      js ''}'',
      []]"

definition headLines :: "ReproductionPlan \<Rightarrow> jstr list" where
  "headLines plan =
     [js ''import { test, expect } from '' @ [39] @ js ''@playwright/test'' @ [39] @ js '';'', []]
     @ [js ''// ReplayBug reproduction (generator '' @ REPRODUCTION_GENERATOR_VERSION @ js '')'',
        js ''// issue: '' @ shortId (rp_issueId plan) @ js '' | occurrence: '' @ shortId (rp_occurrenceEventId plan)
          @ js '' | env: '' @ safeCommentFragment (rp_environment plan) 64
          @ (case rp_release plan of Some r \<Rightarrow> js '' | release: '' @ safeCommentFragment r 64 | None \<Rightarrow> [])]
     @ (if rp_hasRedactedSteps plan
        then [js ''// WARNING: some required values were redacted. Replace REPLACE_WITH_TEST_VALUE before running.'']
        else [])
     @ map (\<lambda>w. js ''// warning: '' @ safeCommentFragment w 200) (take 10 (rp_warnings plan))
     @ [[]] @ helperLines"

definition collectorLines :: "ReproductionAssertion \<Rightarrow> testLine list" where
  "collectorLines assertion =
     (case assertion of
        AssertPageError _ _ \<Rightarrow>
          [Code [Fixed (js ''  const pageErrors: string[] = [];'')],
           Code [Fixed (js ''  page.on(''), Quoted (js ''pageerror''), Fixed (js '', (error) => { pageErrors.push(String((error as Error)?.message ?? error)); });'')]]
      | AssertConsole _ \<Rightarrow>
          [Code [Fixed (js ''  const consoleErrors: string[] = [];'')],
           Code [Fixed (js ''  page.on(''), Quoted (js ''console''), Fixed (js '', (msg) => { if (msg.type() === ''), Quoted (js ''error''), Fixed (js '') consoleErrors.push(msg.text()); });'')]]
      | AssertNetwork method route _ _ \<Rightarrow>
          [Code [Fixed (js ''  const matchingResponses: Array<{ status: number }> = [];'')],
           Code [Fixed (js ''  page.on(''), Quoted (js ''response''), Fixed (js '', (response) => { try { const url = new URL(response.url()); if (response.request().method() === ''), Telemetry (method), Fixed (js '' && url.pathname === ''), Telemetry (route), Fixed (js '') matchingResponses.push({ status: response.status() }); } catch { /* ignore */ } });'')]])"

definition actionLines :: "jstr \<Rightarrow> ReproductionAction \<Rightarrow> testLine list" where
  "actionLines baseUrl action =
     (case action of
        Navigate route \<Rightarrow> [Code [Fixed (js ''  await page.goto(''), Telemetry (baseUrl @ route), Fixed (js '');'')]]
      | ExpectUrl route \<Rightarrow> [Code [Fixed (js ''  await expect(page).toHaveURL(''), Telemetry ([42, 42] @ route), Fixed (js '');'')]]
      | Click e s brittle _ \<Rightarrow>
          (if brittle then [Comment (js ''  '') (js ''ReplayBug warning: brittle locator; verify stability.'')] else [])
          @ [Code [Fixed (js ''  await ''), Locator s e, Fixed (js ''.click();'')]]
      | Fill e s v hidden _ \<Rightarrow>
          (if hidden
           then [Comment (js ''  '') (js ''ReplayBug could not capture this value because input data is redacted.''),
                 Code [Fixed (js ''  await ''), Locator s e, Fixed (js ''.fill(''), Quoted (js ''REPLACE_WITH_TEST_VALUE''), Fixed (js '');'')]]
           else [Code [Fixed (js ''  await ''), Locator s e, Fixed (js ''.fill(''), Telemetry (textOr [] v), Fixed (js '');'')]]))"

definition assertLines :: "(rat \<Rightarrow> jstr) \<Rightarrow> ReproductionAssertion \<Rightarrow> testLine list" where
  "assertLines numText assertion =
     (case assertion of
        AssertPageError expectedType expectedMessage \<Rightarrow>
          [Code [Fixed (js ''  const expected = normalizeObservedMessage(''), Telemetry (textOr [] (orElse expectedMessage expectedType)), Fixed (js '');'')],
           Code [Fixed (js ''  await expect.poll(async () => pageErrors.map((m) => normalizeObservedMessage(m)).some((m) => m.includes(expected) || expected.includes(m)), { timeout: 10000 }).toBe(true);'')]]
      | AssertConsole expectedMessage \<Rightarrow>
          [Code [Fixed (js ''  const expected = normalizeObservedMessage(''), Telemetry (textOr [] expectedMessage), Fixed (js '');'')],
           Code [Fixed (js ''  await expect.poll(async () => consoleErrors.map((m) => normalizeObservedMessage(m)).some((m) => m.includes(expected) || expected.includes(m)), { timeout: 10000 }).toBe(true);'')]]
      | AssertNetwork _ _ statusCode _ \<Rightarrow>
          (case statusCode of
             Some (Some q) \<Rightarrow>
               [Code [Fixed (js ''  await expect.poll(async () => matchingResponses.some((r) => r.status === ''), Fixed (numText q), Fixed (js ''), { timeout: 10000 }).toBe(true);'')]]
           | _ \<Rightarrow>
               [Code [Fixed (js ''  await expect.poll(async () => matchingResponses.length, { timeout: 10000 }).toBeGreaterThan(0);'')]]))"

definition bodyLines :: "(rat \<Rightarrow> jstr) \<Rightarrow> ReproductionPlan \<Rightarrow> testLine list" where
  "bodyLines numText plan =
     [Code [Fixed (js ''test(''), Telemetry (testTitle (rp_issueId plan) (rp_issueTitle plan)), Fixed (js '', async ({ page }) => {'')]]
     @ collectorLines (rp_assertion plan)
     @ [Code [], Code [Fixed (js ''  await page.goto(''), Telemetry (rp_baseUrl plan @ rp_startRoute plan), Fixed (js '');'')]]
     @ concat (map (actionLines (rp_baseUrl plan)) (rp_actions plan))
     @ map (\<lambda>d. Comment (js ''  '') (safeCommentFragment d 240)) (take 20 (rp_diagnostics plan))
     @ [Code []]
     @ assertLines numText (rp_assertion plan)
     @ [Code [Fixed (js ''});'')]]"

definition renderPlaywrightTest :: "(rat \<Rightarrow> jstr) \<Rightarrow> ReproductionPlan \<Rightarrow> ReproductionError + GeneratedReproduction" where
  "renderPlaywrightTest numText plan =
     (let code = join [10] (headLines plan @ map lineText (bodyLines numText plan) @ [[]]) in
      if MAX_CODE_BYTES < length (utf8 code)
      then Inl (reproductionError REPRODUCTION_OUTPUT_TOO_LARGE ''Generated test exceeds size bound.'')
      else Inr \<lparr>gr_code = code, gr_hasRedactedSteps = rp_hasRedactedSteps plan, gr_warnings = rp_warnings plan\<rparr>)"

subsection \<open>The code around the evidence\<close>

fun pieceShape :: "piece \<Rightarrow> jstr" where
  "pieceShape (Fixed k) = k"
| "pieceShape (Quoted w) = [39, 39]"
| "pieceShape (Telemetry v) = [39, 39]"
| "pieceShape (Locator s e) = locatorShape s"

fun lineShape :: "testLine \<Rightarrow> jstr" where
  "lineShape (Code ps) = concat (map pieceShape ps)"
| "lineShape (Comment indent c) = indent"

definition wordChar :: "nat \<Rightarrow> bool" where
  "wordChar c \<longleftrightarrow> c \<noteq> 39 \<and> c \<noteq> 92 \<and> \<not> lineTerminator c"

fun pieceOk :: "piece \<Rightarrow> bool" where
  "pieceOk (Fixed k) = (plain k \<and> oneLine k)"
| "pieceOk (Quoted w) = list_all wordChar w"
| "pieceOk (Telemetry v) = True"
| "pieceOk (Locator s e) = locatorForm s e"

fun lineOk :: "testLine \<Rightarrow> bool" where
  "lineOk (Code ps) = list_all pieceOk ps"
| "lineOk (Comment indent c) = (plain indent \<and> oneLine indent \<and> oneLine c)"

lemma literalBody_word: "list_all wordChar w \<Longrightarrow> literalBody (w @ 39 # t) = Some (w, t)"
  by (induction w) (auto simp: wordChar_def lineTerminator_def)

lemma blank_piece: "pieceOk p \<Longrightarrow> blankLiterals (pieceText p @ t) = map_option ((@) (pieceShape p)) (blankLiterals t)"
proof (cases p)
  case (Quoted w)
  moreover assume "pieceOk p"
  ultimately show ?thesis
    by (cases "blankLiterals t") (simp_all add: blankLiterals.simps literalBody_word)
qed (cases "blankLiterals t"; simp add: blank_plain blank_locator)+

lemma blank_pieces:
  "list_all pieceOk ps \<Longrightarrow>
     blankLiterals (concat (map pieceText ps) @ t) = map_option ((@) (concat (map pieceShape ps))) (blankLiterals t)"
  by (induction ps) (cases "blankLiterals t"; simp add: blank_piece)+

lemma blank_line:
  "lineOk l \<Longrightarrow> blankLiterals (lineText l @ 10 # t) = map_option ((@) (lineShape l @ [10])) (blankLiterals t)"
proof (cases l)
  case (Code ps)
  moreover assume "lineOk l"
  ultimately show ?thesis
    by (cases "blankLiterals t") (simp_all add: blank_pieces blank_newline)
next
  case (Comment indent c)
  moreover assume "lineOk l"
  ultimately show ?thesis
    using blank_plain [of indent "js ''// '' @ c @ 10 # t"] blank_comment [of "32 # c" t]
    by (cases "blankLiterals t") (simp_all add: js_eval blank_newline lineTerminator_def)
qed

definition textOfLines :: "jstr list \<Rightarrow> jstr" where "textOfLines ls = join [10] (ls @ [[]])"

lemma textOfLines_simps [simp]: "textOfLines [] = []" "textOfLines (l # ls) = l @ 10 # textOfLines ls"
  by (simp add: textOfLines_def, cases ls, simp_all add: textOfLines_def)

lemma blank_lines:
  "list_all lineOk ls \<Longrightarrow> blankLiterals (textOfLines (map lineText ls)) = Some (textOfLines (map lineShape ls))"
  by (induction ls) (simp_all add: blank_line blankLiterals.simps(1))

lemma oneLine_word: "list_all wordChar w \<Longrightarrow> oneLine w"
  by (simp add: oneLine_iff wordChar_def list_all_iff)

lemma oneLine_piece: "pieceOk p \<Longrightarrow> oneLine (pieceText p)"
  by (cases p) (simp_all add: oneLine_locator oneLine_word lineTerminator_def)

lemma oneLine_pieces: "list_all pieceOk ps \<Longrightarrow> oneLine (concat (map pieceText ps))"
  by (induction ps) (auto simp: oneLine_piece)

lemma oneLine_line: "lineOk l \<Longrightarrow> oneLine (lineText l)"
  by (cases l) (auto simp: oneLine_pieces js_eval lineTerminator_def)

subsection \<open>The lines of a test\<close>

lemma collectorLines_ok: "list_all lineOk (collectorLines a)"
  by (cases a) (simp_all add: collectorLines_def js_eval lineTerminator_def wordChar_def)

lemma actionLines_ok: "actionOk a \<Longrightarrow> list_all lineOk (actionLines b a)"
  by (cases a) (auto simp: actionOk_def actionLines_def js_eval lineTerminator_def wordChar_def)

lemma assertLines_ok: "\<forall>q. plain (numText q) \<and> oneLine (numText q) \<Longrightarrow> list_all lineOk (assertLines numText a)"
  by (cases a) (auto simp: assertLines_def js_eval lineTerminator_def split: option.splits)

lemma bodyLines_ok:
  assumes "list_all actionOk (rp_actions plan)" "\<forall>q. plain (numText q) \<and> oneLine (numText q)"
  shows "list_all lineOk (bodyLines numText plan)"
proof -
  have "list_all lineOk (concat (map (actionLines b) as))" if "list_all actionOk as" for b as
    using that by (induction as) (auto simp: actionLines_ok)
  moreover have "list_all lineOk (map (\<lambda>d. Comment (js ''  '') (safeCommentFragment d 240)) ds)" for ds
    by (simp add: list_all_iff js_eval lineTerminator_def)
  ultimately show ?thesis
    using assms by (simp add: bodyLines_def collectorLines_ok assertLines_ok) (simp add: js_eval lineTerminator_def)
qed

lemma helperLines_ok: "l \<in> set helperLines \<Longrightarrow> oneLine l \<and> \<not> startsWith l (js ''test('')"
  by (auto simp: helperLines_def js_eval lineTerminator_def)

lemma headLines_ok:
  assumes "oneLine (rp_issueId plan)" "oneLine (rp_occurrenceEventId plan)" "l \<in> set (headLines plan)"
  shows "oneLine l \<and> \<not> startsWith l (js ''test('')"
proof -
  have ids: "oneLine (shortId (rp_issueId plan))" "oneLine (shortId (rp_occurrenceEventId plan))"
    using assms(1,2) by (auto simp: shortId_def oneLine_iff dest: in_set_takeD)
  have comment: "oneLine (js ''// '' @ x) \<and> \<not> startsWith (js ''// '' @ x) (js ''test('')" if "oneLine x" for x
    using that by (simp add: js_eval lineTerminator_def)
  consider "l \<in> set helperLines" | "l = []" | "l = js ''import { test, expect } from '' @ [39] @ js ''@playwright/test'' @ [39] @ js '';''"
    | x where "l = js ''// '' @ x" "oneLine x"
    using assms(3) ids unfolding headLines_def
    by (auto simp: js_eval lineTerminator_def REPRODUCTION_GENERATOR_VERSION_def split: option.splits if_splits)
  then show ?thesis
    using helperLines_ok comment by cases (auto simp: js_eval lineTerminator_def)
qed

text \<open>The generated program from its first test on.\<close>

definition testBody :: "jstr \<Rightarrow> jstr" where
  "testBody code = join [10] (dropWhile (\<lambda>l. \<not> startsWith l (js ''test('')) (split_on 10 code))"

lemma oneLine_no_newline: "oneLine l \<Longrightarrow> 10 \<notin> set l"
  by (auto simp: oneLine_iff lineTerminator_def)

lemma rendered_lines:
  assumes "buildReproductionPlan newURL numText input = Inr plan" "renderPlaywrightTest numText plan = Inr gen"
    "oneLine (gi_issueId input)" "oneLine (gi_occurrenceEventId input)"
    "\<forall>q. plain (numText q) \<and> oneLine (numText q)"
  shows "split_on 10 (gr_code gen) = headLines plan @ map lineText (bodyLines numText plan) @ [[]]"
    "list_all oneLine (split_on 10 (gr_code gen))"
    "blankLiterals (testBody (gr_code gen)) = Some (textOfLines (map lineShape (bodyLines numText plan)))"
proof -
  let ?h = "headLines plan" and ?b = "bodyLines numText plan"
  obtain st where st: "planStateOk st" "rp_actions plan = ps_actions st"
    "rp_issueId plan = gi_issueId input" "rp_occurrenceEventId plan = gi_occurrenceEventId input"
    using planned [OF assms(1)] by metis
  have ok: "list_all lineOk ?b"
    using bodyLines_ok [OF _ assms(5)] st(1,2) by (simp add: planStateOk_def)
  have head: "oneLine l \<and> \<not> startsWith l (js ''test('')" if "l \<in> set ?h" for l
    using headLines_ok [of plan l] st(3,4) assms(3,4) that by simp
  have code: "gr_code gen = join [10] (?h @ map lineText ?b @ [[]])"
    using assms(2) by (auto simp: renderPlaywrightTest_def Let_def split: if_splits)
  have one: "list_all oneLine (?h @ map lineText ?b @ [[]])"
    using head ok oneLine_line by (auto simp: list_all_iff)
  show lines: "split_on 10 (gr_code gen) = ?h @ map lineText ?b @ [[]]"
    unfolding code using one oneLine_no_newline by (intro split_on_join) (auto simp: list_all_iff)
  show "list_all oneLine (split_on 10 (gr_code gen))" unfolding lines by (rule one)
  have first: "?b \<noteq> [] \<and> startsWith (lineText (hd ?b)) (js ''test('')"
    by (simp add: bodyLines_def js_eval)
  then obtain l ls where b: "?b = l # ls" "startsWith (lineText l) (js ''test('')" by (cases ?b) auto
  have "dropWhile (\<lambda>l. \<not> startsWith l (js ''test('')) (?h @ map lineText ?b @ [[]]) = map lineText ?b @ [[]]"
    using head b by (simp add: dropWhile_append1 dropWhile_append2)
  then have "testBody (gr_code gen) = textOfLines (map lineText ?b)"
    unfolding testBody_def lines textOfLines_def by simp
  then show "blankLiterals (testBody (gr_code gen)) = Some (textOfLines (map lineShape ?b))"
    using blank_lines [OF ok] by simp
qed

subsection \<open>Evidence cannot change the test\<close>

text \<open>What a plan says besides its texts: kinds, strategies, marks, the asserted status, the number of comments.\<close>

definition assertShape :: "ReproductionAssertion \<Rightarrow> nat \<times> rat option" where
  "assertShape a = (case a of AssertPageError _ _ \<Rightarrow> (0, None) | AssertConsole _ \<Rightarrow> (1, None)
     | AssertNetwork _ _ st _ \<Rightarrow> (2, case st of Some (Some q) \<Rightarrow> Some q | _ \<Rightarrow> None))"

definition actionShape :: "ReproductionAction \<Rightarrow> nat \<times> jstr \<times> bool" where
  "actionShape a = (case a of Navigate _ \<Rightarrow> (0, [], False) | ExpectUrl _ \<Rightarrow> (1, [], False)
     | Click _ s b _ \<Rightarrow> (2, s, b) | Fill _ s _ h _ \<Rightarrow> (3, s, h))"

definition planShape :: "ReproductionPlan \<Rightarrow> (nat \<times> rat option) \<times> (nat \<times> jstr \<times> bool) list \<times> nat" where
  "planShape plan = (assertShape (rp_assertion plan), map actionShape (rp_actions plan), length (take 20 (rp_diagnostics plan)))"

lemma actionLines_shape:
  "actionShape a = actionShape a' \<Longrightarrow> map lineShape (actionLines b a) = map lineShape (actionLines b' a')"
  by (cases a; cases a') (auto simp: actionShape_def actionLines_def)

lemma actions_shape:
  "map actionShape as = map actionShape as' \<Longrightarrow>
     map lineShape (concat (map (actionLines b) as)) = map lineShape (concat (map (actionLines b') as'))"
proof (induction as arbitrary: as')
  case (Cons a as)
  then obtain c cs where "as' = c # cs" "actionShape a = actionShape c" "map actionShape as = map actionShape cs"
    by (cases as') auto
  with Cons.IH [of cs] actionLines_shape [of a c b b'] show ?case by simp
qed simp

lemma assert_shape:
  assumes "assertShape a = assertShape a'"
  shows "map lineShape (collectorLines a) = map lineShape (collectorLines a')"
    "map lineShape (assertLines numText a) = map lineShape (assertLines numText a')"
  using assms by (cases a; cases a'; auto simp: assertShape_def collectorLines_def assertLines_def split: option.splits)+

lemma bodyLines_shape:
  assumes "planShape p = planShape q"
  shows "map lineShape (bodyLines numText p) = map lineShape (bodyLines numText q)"
proof -
  have "map lineShape (map (\<lambda>d. Comment (js ''  '') (safeCommentFragment d 240)) ds)
      = map (\<lambda>d. js ''  '') ds" for ds :: "jstr list" by simp
  then have ds: "map lineShape (map (\<lambda>d. Comment (js ''  '') (safeCommentFragment d 240)) ds)
      = replicate (length ds) (js ''  '')" for ds :: "jstr list" by (simp add: map_replicate_const)
  show ?thesis
    using assms assert_shape [of "rp_assertion p" "rp_assertion q"]
      actions_shape [of "rp_actions p" "rp_actions q" "rp_baseUrl p" "rp_baseUrl q"]
    unfolding planShape_def bodyLines_def map_append ds by simp
qed

text \<open>
  C9: Telemetry cannot change a generated test. In every rendered test each line is one line, the
  text reads as code with closed literals and comments, and two plans that differ only in texts
  (titles, values, selectors, routes, messages, whatever they contain) render to the same program
  once literals are emptied and comments cut.
\<close>

theorem evidence_cannot_change_the_test:
  assumes "buildReproductionPlan newURL numText input = Inr plan" "renderPlaywrightTest numText plan = Inr gen"
    "buildReproductionPlan newURL numText input' = Inr plan'" "renderPlaywrightTest numText plan' = Inr gen'"
    "oneLine (gi_issueId input)" "oneLine (gi_occurrenceEventId input)"
    "oneLine (gi_issueId input')" "oneLine (gi_occurrenceEventId input')"
    "\<forall>q. plain (numText q) \<and> oneLine (numText q)" "planShape plan = planShape plan'"
  shows "blankLiterals (testBody (gr_code gen)) \<noteq> None
    \<and> blankLiterals (testBody (gr_code gen)) = blankLiterals (testBody (gr_code gen'))
    \<and> list_all oneLine (split_on 10 (gr_code gen))"
  using rendered_lines [OF assms(1,2,5,6,9)] rendered_lines [OF assms(3,4,7,8,9)]
    bodyLines_shape [OF assms(10), of numText] by simp

definition demoPlan :: "jstr \<Rightarrow> ReproductionPlan" where
  "demoPlan title = \<lparr>rp_issueId = js ''0a'', rp_issueTitle = title, rp_occurrenceEventId = js ''0b'',
     rp_environment = js ''production'', rp_release = None, rp_baseUrl = js ''https://app.test'', rp_startRoute = [47],
     rp_actions = [Fill (call1 (js ''page.locator'') (js ''[name='' @ [34] @ js ''password'' @ [34, 93])) (js ''name'')
        None True (Some (js ''password''))],
     rp_diagnostics = [js ''ReplayBug used the occurrence page as the start route.''],
     rp_assertion = AssertPageError None (Some (js ''boom'')), rp_warnings = [], rp_hasRedactedSteps = True\<rparr>"

lemma demo_planned:
  "buildReproductionPlan demoUrl (\<lambda>q. []) (demoGeneration\<lparr>gi_issueTitle := title\<rparr>) = Inr (demoPlan title)"
proof -
  have t: "te_eventType demoItem = js ''input''" "js ''input'' \<noteq> js ''navigation''" "js ''input'' \<noteq> js ''click''"
    "te_pageUrl demoItem = None"
    by (simp_all add: demoItem_def js_eval)
  have w: "windowOf [demoItem] = [demoItem]"
    by (simp add: windowOf_newest lastn_def MAX_TIMELINE_ITEMS_def)
  have a: "toAssertion demoUrl (gi_failure demoGeneration) = Inr (AssertPageError None (Some (js ''boom'')))"
    by (simp add: demoGeneration_def toAssertion_def Let_def textOr_def js_eval)
  obtain st where st: "foldl (planStep demoUrl (\<lambda>q. [])) planStart (enumerate 0 [demoItem]) = st"
    "ps_actions st = rp_actions (demoPlan title)" "ps_startRoute st = None" "ps_diagnostics st = []"
    "ps_warnings st = []" "ps_noLocatorRedacted st = False"
    by (simp add: planStep_def Let_def t demo_input planStart_def collapseFill_def pushAction_def demoPlan_def)
  show ?thesis
    using st a demo_base demo_parts(2)
    by (simp add: buildReproductionPlan_def demoGeneration_def w assemblePlan_def Let_def MAX_ACTIONS_def
        demoPlan_def textOr_def t redactedFill_def)
qed

lemma length_utf8_le: "length (utf8 s) \<le> 4 * length s"
proof -
  have "length (codePoints s) \<le> length s" by (induction s rule: codePoints.induct) auto
  moreover have "length (encodeCps cs) \<le> 4 * length cs" for cs
    using length_encodeCp by (induction cs) (auto simp: encodeCps_def, metis add_le_mono)
  ultimately show ?thesis unfolding utf8_def by (meson le_trans mult_le_mono2)
qed

definition hostileTitle :: jstr where
  "hostileTitle = [39] @ js ''); await page.evaluate(steal); //'' @ [10, 92, 39]"

lemma length_literal: "length (tsSingleQuoteLiteral v) \<le> 2 * length v + 2"
proof -
  have "length (concat (map escapeUnit s)) \<le> 2 * length s" for s
    by (induction s) (auto simp: escapeUnit_def)
  moreover have "length (stripControlChars v) \<le> length v"
    by (induction v) auto
  ultimately have "length (concat (map escapeUnit (stripControlChars v))) \<le> 2 * length v"
    by (meson le_trans mult_le_mono2)
  then show ?thesis by (simp add: tsSingleQuoteLiteral_alt)
qed

lemma length_js: "length (js s) = length s" by (simp add: js_def)

lemma length_textOfLines: "length (textOfLines ls) = sum_list (map (\<lambda>l. Suc (length l)) ls)"
  by (induction ls) auto

lemma length_testTitle: "length (testTitle i t) \<le> 107"
  using length_take [of 80 "trim (collapseWs t)"] length_take [of 8 i]
  by (auto simp: testTitle_def Let_def shortId_def length_js simp del: length_take)

lemma demo_size: "length (textOfLines (headLines (demoPlan t) @ map lineText (bodyLines (\<lambda>q. []) (demoPlan t)))) \<le> 5000"
proof -
  have "length (tsSingleQuoteLiteral (testTitle (js ''0a'') t)) \<le> 216"
    using length_literal [of "testTitle (js ''0a'') t"] length_testTitle [of "js ''0a''" t] by linarith
  moreover have "length (tsSingleQuoteLiteral (js ''https://app.test'' @ [47])) \<le> 36"
    "length (tsSingleQuoteLiteral (js ''boom'')) \<le> 10"
    "length (tsSingleQuoteLiteral (js ''[name='' @ [34] @ js ''password'' @ [34, 93])) \<le> 36"
    using length_literal [of "js ''https://app.test'' @ [47]"] length_literal [of "js ''boom''"]
      length_literal [of "js ''[name='' @ [34] @ js ''password'' @ [34, 93]"]
    by (simp_all add: length_js)
  moreover have "length (safeCommentFragment (js ''production'') 64) \<le> 64"
    "length (safeCommentFragment (js ''ReplayBug used the occurrence page as the start route.'') 240) \<le> 240"
    by (simp_all add: length_safeCommentFragment)
  ultimately show ?thesis
    by (simp add: length_textOfLines headLines_def helperLines_def bodyLines_def demoPlan_def length_js shortId_def
        REPRODUCTION_GENERATOR_VERSION_def collectorLines_def actionLines_def assertLines_def call1_def textOr_def orElse_def
        del: take_append)
qed

lemma demo_rendered: "\<exists>gen. renderPlaywrightTest (\<lambda>q. []) (demoPlan t) = Inr gen"
proof -
  have "length (utf8 (textOfLines (headLines (demoPlan t) @ map lineText (bodyLines (\<lambda>q. []) (demoPlan t))))) \<le> 20000"
    using length_utf8_le [of "textOfLines (headLines (demoPlan t) @ map lineText (bodyLines (\<lambda>q. []) (demoPlan t)))"]
      demo_size [of t] by linarith
  then show ?thesis
    by (simp add: renderPlaywrightTest_def Let_def textOfLines_def MAX_CODE_BYTES_def)
qed

theorem evidence_cannot_change_the_test_witness:
  "\<exists>gen gen'. renderPlaywrightTest (\<lambda>q. []) (demoPlan (js ''Boom'')) = Inr gen
     \<and> renderPlaywrightTest (\<lambda>q. []) (demoPlan hostileTitle) = Inr gen'
     \<and> blankLiterals (testBody (gr_code gen)) = blankLiterals (testBody (gr_code gen'))"
proof -
  obtain g h where r: "renderPlaywrightTest (\<lambda>q. []) (demoPlan (js ''Boom'')) = Inr g"
    "renderPlaywrightTest (\<lambda>q. []) (demoPlan hostileTitle) = Inr h"
    using demo_rendered by blast
  have ids: "oneLine (gi_issueId (demoGeneration\<lparr>gi_issueTitle := t\<rparr>))"
    "oneLine (gi_occurrenceEventId (demoGeneration\<lparr>gi_issueTitle := t\<rparr>))" for t
    by (simp_all add: demoGeneration_def js_eval lineTerminator_def)
  have "planShape (demoPlan (js ''Boom'')) = planShape (demoPlan hostileTitle)"
    by (simp add: planShape_def demoPlan_def)
  then show ?thesis
    using evidence_cannot_change_the_test [OF demo_planned r(1) demo_planned r(2) ids ids] r by auto
qed

end
