(* ===== verification/Spec2Isabelle.thy ===== *)
theory Spec2Isabelle
  imports WebRbac Governance EventQueue UploadPolicy IssueLifecycle Outbox Scheduler Sanitize IngestClient Uploads Grouping TenancySystem ReproRender
begin

text \<open>
  Verification library of ReplayBug (\<open>github.com/michaelripoll09/ReplayBug\<close>): an SDK that captures
  errors in a browser, an API that ingests them, a worker that groups and symbolicates them into
  issues, and the tenancy, release and cleanup services around them.

  \<^bold>\<open>The program and how its parts interact.\<close> The SDK (\<open>packages/sdk\<close>) keeps breadcrumbs in a ring
  buffer and sends batches from a queue with retries. The ingestion route (\<open>apps/api\<close>) checks key,
  origin and rate limit, sanitizes every event and stores it in one transaction with a job in an
  outbox. A dispatcher of the worker publishes the outbox to the job queue; the event processor
  symbolicates a stored event with the source maps uploaded for its release, derives a fingerprint
  and attaches the event to an issue in one transaction. Users triage issues, manage workspaces,
  projects, environments, keys and origins; deleting a project moves the keys of its blobs to a
  second outbox that the worker empties. From the timeline of an occurrence the reproducer package
  generates a browser test.

  \<^bold>\<open>Theories and the code they model.\<close> A definition carries the name of the function it models
  where HOL allows it; a name with \<open>Tx\<close>, \<open>Loop\<close>, \<open>Step\<close> or the like is the body of a transaction,
  a loop or a turn of the event loop inside the function named alike.

    \<^item> \<^bold>\<open>Shared.\<close> \<open>Prelude\<close> (strings as lists of UTF-16 code units, the error monad on sums, lists),
      \<open>Json\<close>, \<open>JsonText\<close>, \<open>Text\<close>, \<open>Utf8\<close>, \<open>Regex\<close> and \<open>RegexWords\<close> (the platform functions the source
      uses, with round trips and a backtracking matcher), \<open>FormUrl\<close> (\<open>URLSearchParams\<close>), \<open>Keyset\<close> (the
      contract of a page with a cursor, interpreted by the audit listing), \<open>Paths\<close>.
    \<^item> \<^bold>\<open>Authorization.\<close> \<open>Errors\<close>, \<open>Policy\<close> (\<open>apps/api/src/authz\<close>), \<open>WebRbac\<close> (\<open>apps/web/lib/rbac.ts\<close>),
      \<open>Governance\<close> (\<open>services/workspace-governance.ts\<close>): ranks, guards, role changes, ownership.
    \<^item> \<^bold>\<open>SDK.\<close> \<open>Breadcrumbs\<close> (\<open>breadcrumbs.ts\<close>, the locale \<open>bounded_log\<close>), \<open>EventQueue\<close> (\<open>queue.ts\<close>: an
      \<open>inductive\<close> step relation over the turns between two \<open>await\<close>s).
    \<^item> \<^bold>\<open>Ingestion.\<close> \<open>Sanitize\<close> (\<open>packages/db/src/sanitize.ts\<close>), \<open>Keys\<close> (keys, secret tokens, origins),
      \<open>Ingest\<close> and \<open>IngestLaws\<close> (\<open>services/ingest.ts\<close>, \<open>repositories/telemetry.ts\<close>), \<open>IngestClient\<close>
      (the SDK's queue against the API's answers).
    \<^item> \<^bold>\<open>Queues and timers.\<close> \<open>Outbox\<close> (three transactional outboxes, dispatchers, reconciliation),
      \<open>Scheduler\<close> (the timer loops as turns of the event loop).
    \<^item> \<^bold>\<open>Processing.\<close> \<open>Normalize\<close>, \<open>Fingerprint\<close> (\<open>packages/db/src/domain\<close>), \<open>Symbolicate\<close>
      (\<open>apps/worker/src/symbolication\<close>), \<open>IssueRows\<close> and \<open>IssueLifecycle\<close> (\<open>process-event.ts\<close>, triage),
      \<open>Grouping\<close> (all of them composed).
    \<^item> \<^bold>\<open>Artifacts.\<close> \<open>ArtifactKeys\<close>, \<open>ArtifactPaths\<close>, \<open>UploadPolicy\<close> (\<open>packages/artifacts/src\<close>), \<open>Releases\<close>
      and \<open>Uploads\<close> (\<open>services/releases.ts\<close>, \<open>services/artifacts.ts\<close>).
    \<^item> \<^bold>\<open>Tenancy.\<close> \<open>Slug\<close>, \<open>Tenancy\<close>, \<open>TenancyLaws\<close> (\<open>services/workspaces.ts\<close>, \<open>services/projects.ts\<close>),
      \<open>Deletion\<close>, \<open>DeletionLaws\<close> (\<open>services/deletion.ts\<close>, \<open>cleanup/artifact-deletion.ts\<close>),
      \<open>TenancySystem\<close> (the reachable states), \<open>AuditLog\<close>.
    \<^item> \<^bold>\<open>Reproducer.\<close> \<open>Escaping\<close>, \<open>SecretScan\<close>, \<open>CardScan\<close>, \<open>Locators\<close>, \<open>Routes\<close>,
      \<open>ReproPlan\<close>, \<open>ReproRender\<close> (\<open>packages/reproducer/src\<close>): evidence stays in literals and comments.

  \<^bold>\<open>State and operations.\<close> A table is a list of records, a database a record of tables; an operation
  takes the state and returns it changed, a thrown error is the left side of a sum and a
  transaction that throws leaves the state as it was. Statements that may fail (unique violations,
  a lost connection, a crash between two steps) are branches or arguments. What runs concurrently is
  a step relation over the pieces that are atomic in the source (a transaction, a locked row, the
  code between two \<open>await\<close>s).

  \<^bold>\<open>What the lemmas show.\<close> Per component: an invariant of its state, kept by every operation
  (\<open>..._keeps\<close>, collected in \<open>inv_intro\<close>); the result of each operation on each branch; what it leaves
  unchanged (\<open>frame\<close>). Across components: no stored event is lost on its way to an issue, a retried
  batch converges, issues are the classes of project and signature, symbolication reads only its
  release and invents nothing, a deleted project leaves no blob behind. The interfaces are locales
  (a bounded log, a keyset page, a role affordance, an outbox, a blob store, a timer loop), each
  interpreted on the model's own definitions.

  \<^bold>\<open>Parameters.\<close> SHA-256, HMAC, random bytes, the clock, the URL parser, \<open>JSON.parse\<close>, the schemas of
  zod, the trace-mapping library, pg-boss, the file system's \<open>lstat\<close> and \<open>realpath\<close> and \<open>localeCompare\<close>
  are arguments. Where a property needs something of them (no collision among the texts hashed, an
  output of 32 bytes) it is a hypothesis, with a witness that instantiates it.

  \<^bold>\<open>Bounds and fuel.\<close> Loops are structural or have a measure. Fuel occurs in three places, each with
  a lemma that it is enough: the stars of the regular expression matcher (the length of the text
  ahead), the rounds of percent decoding (three, as in the source) and the bounded drain of a
  dispatcher tick (the limit of the source). Numbers of the source are \<open>nat\<close>, \<open>int\<close> or \<open>rat\<close>: all of
  them stay below \<open>2^53\<close>, and none is kept in a machine word.

  \<^bold>\<open>Not modelled.\<close> The user interface (\<open>apps/web\<close> besides \<open>lib/rbac.ts\<close>, \<open>packages/ui\<close>) and the demo
  (\<open>apps/demo\<close>): rendering. The API's route tables, plugins, OpenAPI schemas and the generated client
  (\<open>packages/api-client\<close>): glue around the services. The table definitions and migrations other than
  the rows used here, logging, queue registration and process start. Still open, and within reach of
  the same technique: invitations, retention, sessions, metrics, comments and tags, the public demo
  and export, the AI analysis and reproduction services with their processors,
  the SDK's capture hooks and transport, the CLI, the realtime broker.
\<close>

end
